(* ===== verification/Prelude.thy ===== *)
theory Prelude
  imports Main "HOL-Library.Product_Lexorder"
begin

text \<open>
  The prelude of the development: Python exceptions as values, the result type
  \<open>py_error + 'a\<close> with its bind, transactions over an explicit database state, and
  SQLite tables as lists of rows (rowid allocation, \<open>UPDATE .. WHERE\<close>,
  \<open>DELETE .. WHERE\<close>, \<open>ORDER BY .. LIMIT\<close>), with the generic lemmas the component
  theories share.
\<close>

named_theorems result_simps \<open>unfolding of the result monad\<close>
named_theorems table_simps \<open>row counts, membership and lookups of updated tables\<close>

section \<open>Python exceptions and results\<close>

text \<open>
  The exception classes the modelled code raises or catches.
  \<open>LocalTimeResolutionError\<close> is a subclass of \<open>ValueError\<close> in the source, the two
  version conflicts are subclasses of \<open>RuntimeError\<close>.  Every constructor carries the
  message (or, for \<open>LocalTimeResolutionError\<close>, the \<open>kind\<close>).
\<close>

datatype py_error =
    ValueError string
  | TypeError string
  | KeyError string
  | RuntimeError string
  | PermissionError string
  | OverflowError string
  | IntegrityError string
  | LocalTimeResolutionError string
  | MemoryVersionConflict string
  | RelationshipVersionConflict string
  | ExternalError string

fun is_value_error :: "py_error \<Rightarrow> bool" where
  "is_value_error (ValueError _) = True"
| "is_value_error (LocalTimeResolutionError _) = True"
| "is_value_error _ = False"

fun is_runtime_error :: "py_error \<Rightarrow> bool" where
  "is_runtime_error (RuntimeError _) = True"
| "is_runtime_error (MemoryVersionConflict _) = True"
| "is_runtime_error (RelationshipVersionConflict _) = True"
| "is_runtime_error _ = False"

type_synonym 'a result = "py_error + 'a"

definition bindE :: "'a result \<Rightarrow> ('a \<Rightarrow> 'b result) \<Rightarrow> 'b result" where
  "bindE r f = (case r of Inl e \<Rightarrow> Inl e | Inr a \<Rightarrow> f a)"

definition guardE :: "bool \<Rightarrow> py_error \<Rightarrow> 'a result \<Rightarrow> 'a result" where
  "guardE bad e r = (if bad then Inl e else r)"

text \<open>An option read as a result: \<open>None\<close> raises \<open>e\<close>.\<close>

definition of_option :: "py_error \<Rightarrow> 'a option \<Rightarrow> 'a result" where
  "of_option e x = (case x of None \<Rightarrow> Inl e | Some a \<Rightarrow> Inr a)"

lemma of_option_simps [simp]: "of_option e None = Inl e" "of_option e (Some a) = Inr a"
  by (simp_all add: of_option_def)

lemma of_option_eq [result_simps]:
  "of_option e x = Inr a \<longleftrightarrow> x = Some a"
  "of_option e x = Inl d \<longleftrightarrow> x = None \<and> d = e"
  by (auto simp: of_option_def split: option.splits)

lemma bindE_simps [simp]: "bindE (Inl e) f = Inl e" "bindE (Inr a) f = f a"
  by (simp_all add: bindE_def)

lemma bindE_eq_Inr [result_simps]:
  "bindE r f = Inr b \<longleftrightarrow> (\<exists>a. r = Inr a \<and> f a = Inr b)"
  by (cases r) simp_all

lemma bindE_eq_Inl [result_simps]:
  "bindE r f = Inl e \<longleftrightarrow> r = Inl e \<or> (\<exists>a. r = Inr a \<and> f a = Inl e)"
  by (cases r) auto

lemma guardE_eq_Inr [result_simps]: "guardE bad e r = Inr b \<longleftrightarrow> \<not> bad \<and> r = Inr b"
  by (simp add: guardE_def)

lemma guardE_eq_Inl [result_simps]: "guardE bad e r = Inl d \<longleftrightarrow> (if bad then d = e else r = Inl d)"
  by (auto simp: guardE_def)

lemma guardE_simps [simp]: "guardE True e r = Inl e" "guardE False e r = r"
  by (simp_all add: guardE_def)

text \<open>A comprehension whose element function may raise.\<close>

fun mapE :: "('a \<Rightarrow> 'b result) \<Rightarrow> 'a list \<Rightarrow> 'b list result" where
  "mapE f [] = Inr []"
| "mapE f (x # xs) = bindE (f x) (\<lambda>y. bindE (mapE f xs) (\<lambda>ys. Inr (y # ys)))"

lemma mapE_Inr: "mapE f xs = Inr ys \<longleftrightarrow> list_all2 (\<lambda>x y. f x = Inr y) xs ys"
  by (induction xs arbitrary: ys) (auto simp: bindE_eq_Inr list_all2_Cons1)

section \<open>Transactions\<close>

text \<open>
  Every store method of the source runs its statements between \<open>BEGIN IMMEDIATE\<close> and
  \<open>commit\<close>, with \<open>rollback\<close> and re-raise on any exception (or inside
  \<open>with self._connection\<close>, which does the same).  The body is a function that either
  fails or returns a value and the new database; \<open>transaction\<close> keeps the old database
  when it fails.
\<close>

type_synonym ('s, 'a) body = "'s \<Rightarrow> ('a \<times> 's) result"
type_synonym ('s, 'a) op = "'s \<Rightarrow> 'a result \<times> 's"

definition transaction :: "('s, 'a) body \<Rightarrow> ('s, 'a) op" where
  "transaction f s = (case f s of Inl e \<Rightarrow> (Inl e, s) | Inr (a, s') \<Rightarrow> (Inr a, s'))"

lemma transaction_Inr:
  "transaction f s = (Inr a, s') \<longleftrightarrow> f s = Inr (a, s')"
  by (auto simp: transaction_def split: sum.splits)

lemma transaction_Inl:
  "transaction f s = (Inl e, s') \<longleftrightarrow> f s = Inl e \<and> s' = s"
  by (auto simp: transaction_def split: sum.splits)

lemma transaction_snd:
  "snd (transaction f s) = (case f s of Inl e \<Rightarrow> s | Inr (a, s') \<Rightarrow> s')"
  by (auto simp: transaction_def split: sum.splits)

lemma transaction_invariant:
  assumes "P s" and "\<And>a s'. f s = Inr (a, s') \<Longrightarrow> P s'"
  shows "P (snd (transaction f s))"
  using assms by (auto simp: transaction_def split: sum.splits)

text \<open>
  The contract every transactional operation meets: a failed call leaves the state as it
  was.  The clients' lemma is that a property of the state that the successful runs keep
  is kept by every run.
\<close>

locale transactional =
  fixes run :: "('s, 'a) op"
  assumes rollback: "fst (run s) = Inl e \<Longrightarrow> snd (run s) = s"
begin

lemma keeps:
  assumes "P s" and "\<And>a. fst (run s) = Inr a \<Longrightarrow> P (snd (run s))"
  shows "P (snd (run s))"
  using assms rollback by (cases "fst (run s)") auto

lemma keeps_result:
  assumes "P s" and "\<And>a s'. run s = (Inr a, s') \<Longrightarrow> P s'"
  shows "P (snd (run s))"
proof (rule keeps [where P = P, OF assms(1)])
  fix a assume "fst (run s) = Inr a"
  then have "run s = (Inr a, snd (run s))" by (metis prod.collapse)
  then show "P (snd (run s))" by (rule assms(2))
qed

lemma error_unchanged: "run s = (Inl e, s') \<Longrightarrow> s' = s"
  using rollback [of s e] by simp

end

interpretation tx: transactional "transaction f"
  by unfold_locales (auto simp: transaction_def split: sum.splits)

text \<open>
  Operations in sequence, for any kind of error: an exception ends the sequence, with what was committed
  before it. \<open>try_op\<close> is \<open>try: f except Exception as e: failed e else: ok x\<close>.
\<close>

type_synonym ('s, 'e, 'a) action = "'s \<Rightarrow> ('e + 'a) \<times> 's"

definition then_op :: "('s, 'e, 'a) action \<Rightarrow> ('a \<Rightarrow> ('s, 'e, 'b) action) \<Rightarrow> ('s, 'e, 'b) action" where
  "then_op f g s = (case f s of (Inl e, s') \<Rightarrow> (Inl e, s') | (Inr a, s') \<Rightarrow> g a s')"

definition pure_op :: "'e + 'a \<Rightarrow> ('s, 'e, 'a) action" where
  "pure_op r s = (r, s)"

definition read_op :: "('s \<Rightarrow> 'e + 'a) \<Rightarrow> ('s, 'e, 'a) action" where
  "read_op f s = (f s, s)"

definition try_op :: "('s, 'e, 'a) action \<Rightarrow> ('e \<Rightarrow> ('s, 'f, 'b) action) \<Rightarrow> ('a \<Rightarrow> ('s, 'f, 'b) action) \<Rightarrow> ('s, 'f, 'b) action" where
  "try_op f failed ok c = (case f c of (Inl e, c') \<Rightarrow> failed e c' | (Inr x, c') \<Rightarrow> ok x c')"

lemma then_op_Inr: "then_op f g s = (Inr b, s') \<longleftrightarrow> (\<exists>a s1. f s = (Inr a, s1) \<and> g a s1 = (Inr b, s'))"
  by (auto simp: then_op_def split: prod.splits sum.splits)

lemma then_op_Inl: "then_op f g s = (Inl e, s') \<longleftrightarrow> f s = (Inl e, s') \<or> (\<exists>a s1. f s = (Inr a, s1) \<and> g a s1 = (Inl e, s'))"
  by (auto simp: then_op_def split: prod.splits sum.splits)

lemma pure_op_eq [simp]: "pure_op r s = (q, s') \<longleftrightarrow> r = q \<and> s' = s"
  by (auto simp: pure_op_def)

lemma read_op_eq [simp]: "read_op f s = (q, s') \<longleftrightarrow> f s = q \<and> s' = s"
  by (auto simp: read_op_def)

lemma try_op_eq: "try_op f failed ok c = (r, c') \<longleftrightarrow>
    (\<exists>e c1. f c = (Inl e, c1) \<and> failed e c1 = (r, c')) \<or> (\<exists>x c1. f c = (Inr x, c1) \<and> ok x c1 = (r, c'))"
  by (auto simp: try_op_def split: prod.splits sum.splits)

section \<open>Effects\<close>

text \<open>An operation keeps a relation when its end state is related to its start, however it ends.\<close>

definition keeps :: "('s \<Rightarrow> 's \<Rightarrow> bool) \<Rightarrow> ('s \<Rightarrow> 'x \<times> 's) \<Rightarrow> bool" where
  "keeps R f \<longleftrightarrow> (\<forall>c. R c (snd (f c)))"

definition preorder :: "('s \<Rightarrow> 's \<Rightarrow> bool) \<Rightarrow> bool" where
  "preorder R \<longleftrightarrow> reflp R \<and> transp R"

lemma keepsD: "keeps R f \<Longrightarrow> f c = (r, c') \<Longrightarrow> R c c'"
  unfolding keeps_def by (metis snd_conv)

lemma keeps_pure: "preorder R \<Longrightarrow> keeps R (pure_op r)"
  by (simp add: keeps_def pure_op_def preorder_def reflpD)

lemma keeps_read: "preorder R \<Longrightarrow> keeps R (read_op f)"
  by (simp add: keeps_def read_op_def preorder_def reflpD)

lemma preorder_trans: "preorder R \<Longrightarrow> R a b \<Longrightarrow> R b c \<Longrightarrow> R a c"
  unfolding preorder_def by (blast dest: transpD)

lemma keeps_then:
  assumes "preorder R" and "keeps R f" and "\<And>x. keeps R (g x)"
  shows "keeps R (then_op f g)"
  unfolding keeps_def
proof
  fix c
  obtain r c1 where f: "f c = (r, c1)" by (rule prod.exhaust)
  have 1: "R c c1" using keepsD [OF assms(2) f] .
  have "R c1 (snd (g x c1))" for x using assms(3) [of x] by (simp add: keeps_def)
  with f 1 show "R c (snd (then_op f g c))"
    by (cases r) (auto simp: then_op_def intro: preorder_trans [OF assms(1)])
qed

lemma keeps_try:
  assumes "preorder R" and "keeps R f" and "\<And>e. keeps R (failed e)" and "\<And>x. keeps R (g x)"
  shows "keeps R (try_op f failed g)"
  unfolding keeps_def
proof
  fix c
  obtain r c1 where f: "f c = (r, c1)" by (rule prod.exhaust)
  have 1: "R c c1" using keepsD [OF assms(2) f] .
  have "R c1 (snd (g x c1))" "R c1 (snd (failed e c1))" for x e using assms(3) [of e] assms(4) [of x] by (simp_all add: keeps_def)
  with f 1 show "R c (snd (try_op f failed g c))"
    by (cases r) (auto simp: try_op_def intro: preorder_trans [OF assms(1)])
qed

section \<open>Tables\<close>

text \<open>
  A table is the list of its rows in rowid order.  \<open>update_where\<close> is
  \<open>UPDATE .. SET f WHERE P\<close>; \<open>next_rowid\<close> is SQLite's rule for an
  \<open>INTEGER PRIMARY KEY\<close> without \<open>AUTOINCREMENT\<close>: one more than the largest
  rowid in the table (so a rowid freed at the top of the table is given out again).
\<close>

definition update_where :: "('r \<Rightarrow> bool) \<Rightarrow> ('r \<Rightarrow> 'r) \<Rightarrow> 'r list \<Rightarrow> 'r list" where
  "update_where P f rows = map (\<lambda>r. if P r then f r else r) rows"

definition delete_where :: "('r \<Rightarrow> bool) \<Rightarrow> 'r list \<Rightarrow> 'r list" where
  "delete_where P rows = filter (\<lambda>r. \<not> P r) rows"

definition count_where :: "('r \<Rightarrow> bool) \<Rightarrow> 'r list \<Rightarrow> nat" where
  "count_where P rows = length (filter P rows)"

definition next_rowid :: "('r \<Rightarrow> int) \<Rightarrow> 'r list \<Rightarrow> int" where
  "next_rowid rid rows = foldr (\<lambda>r m. max (rid r) m) rows 0 + 1"

definition first_by :: "('r \<Rightarrow> 'k::linorder) \<Rightarrow> 'r list \<Rightarrow> 'r option" where
  "first_by k rows = (case sort_key k rows of [] \<Rightarrow> None | r # _ \<Rightarrow> Some r)"

lemma next_rowid_gt: "r \<in> set rows \<Longrightarrow> rid r < next_rowid rid rows"
  by (induction rows) (auto simp: next_rowid_def)

lemma next_rowid_pos: "0 < next_rowid rid rows"
  by (induction rows) (auto simp: next_rowid_def)

lemma next_rowid_fresh [table_simps]: "next_rowid rid rows \<notin> rid ` set rows"
proof
  assume "next_rowid rid rows \<in> rid ` set rows"
  then obtain r where "r \<in> set rows" "rid r = next_rowid rid rows" by auto
  with next_rowid_gt [of r rows rid] show False by simp
qed

lemma next_rowid_map [simp]:
  assumes "\<And>r. r \<in> set rows \<Longrightarrow> rid (f r) = rid r"
  shows "next_rowid rid (map f rows) = next_rowid rid rows"
  using assms by (induction rows) (auto simp: next_rowid_def)

lemma set_update_where [table_simps]:
  "set (update_where P f rows) = (\<lambda>r. if P r then f r else r) ` set rows"
  by (simp add: update_where_def)

lemma update_where_Nil [simp]: "update_where P f [] = []"
  by (simp add: update_where_def)

lemma length_update_where [simp]: "length (update_where P f rows) = length rows"
  by (simp add: update_where_def)

lemma map_update_where:
  assumes "\<And>r. P r \<Longrightarrow> k (f r) = k r"
  shows "map k (update_where P f rows) = map k rows"
  using assms by (induction rows) (auto simp: update_where_def)

lemma update_where_False: "(\<And>r. r \<in> set rows \<Longrightarrow> \<not> P r) \<Longrightarrow> update_where P f rows = rows"
  by (induction rows) (auto simp: update_where_def)

lemma update_where_append [simp]:
  "update_where P f (xs @ ys) = update_where P f xs @ update_where P f ys"
  by (simp add: update_where_def)

lemma ball_update_where:
  "(\<forall>r \<in> set (update_where P f rows). Q r) \<longleftrightarrow>
   (\<forall>r \<in> set rows. if P r then Q (f r) else Q r)"
  by (auto simp: update_where_def)

lemma set_delete_where [table_simps]: "set (delete_where P rows) = {r \<in> set rows. \<not> P r}"
  by (auto simp: delete_where_def)

lemma count_where_mono:
  assumes "\<And>r. r \<in> set rows \<Longrightarrow> P r \<Longrightarrow> Q r"
  shows "count_where P rows \<le> count_where Q rows"
  using assms by (induction rows) (auto simp: count_where_def le_SucI)

lemma count_where_append [simp]:
  "count_where P (xs @ ys) = count_where P xs + count_where P ys"
  by (simp add: count_where_def)

lemma count_where_Cons [simp]:
  "count_where P (x # xs) = (if P x then 1 else 0) + count_where P xs"
  by (simp add: count_where_def)

lemma count_where_Nil [simp]: "count_where P [] = 0"
  by (simp add: count_where_def)

lemma count_where_pos: "0 < count_where P rows \<longleftrightarrow> (\<exists>r \<in> set rows. P r)"
  by (induction rows) auto

lemma count_where_update:
  assumes "\<And>r. r \<in> set rows \<Longrightarrow> Q r \<Longrightarrow> P (f r) = P r"
  shows "count_where P (update_where Q f rows) = count_where P rows"
  using assms by (induction rows) (auto simp: update_where_def)

lemma count_where_update_less:
  assumes "r \<in> set rows" and "P r" and "Q r" and "\<And>x. Q x \<Longrightarrow> \<not> P (f x)"
  shows "count_where P (update_where Q f rows) < count_where P rows"
proof -
  have le: "count_where P (update_where Q f xs) \<le> count_where P xs" for xs
    using assms(4) by (induction xs) (auto simp: update_where_def)
  show ?thesis using assms(1)
  proof (induction rows)
    case (Cons x xs)
    show ?case
    proof (cases "x = r")
      case True
      then show ?thesis using assms le [of xs] by (simp add: update_where_def)
    next
      case False
      with Cons have "count_where P (update_where Q f xs) < count_where P xs" by simp
      then show ?thesis using assms(4) [of x] by (auto simp: update_where_def)
    qed
  qed simp
qed

lemma first_by_Some:
  assumes "first_by k rows = Some r"
  shows "r \<in> set rows" and "\<And>r'. r' \<in> set rows \<Longrightarrow> k r \<le> k r'"
proof -
  from assms obtain rs where s: "sort_key k rows = r # rs"
    by (auto simp: first_by_def split: list.splits)
  then have set_eq: "set rows = set (r # rs)" by (metis set_sort)
  then show "r \<in> set rows" by simp
  have "sorted (map k (sort_key k rows))" by simp
  with s have "\<forall>x \<in> set rs. k r \<le> k x" by simp
  with set_eq show "\<And>r'. r' \<in> set rows \<Longrightarrow> k r \<le> k r'" by auto
qed

lemma first_by_None [simp]: "first_by k rows = None \<longleftrightarrow> rows = []"
proof -
  have "sort_key k rows = [] \<longleftrightarrow> rows = []"
    by (metis length_0_conv length_sort)
  then show ?thesis
    by (auto simp: first_by_def split: list.split)
qed

lemma find_SomeD: "find P xs = Some x \<Longrightarrow> P x \<and> x \<in> set xs"
  by (auto simp: find_Some_iff)

lemma find_NoneD: "find P xs = None \<Longrightarrow> x \<in> set xs \<Longrightarrow> \<not> P x"
  by (auto simp: find_None_iff)

lemma find_unique:
  assumes "distinct (map k xs)" and "x \<in> set xs"
  shows "find (\<lambda>y. k y = k x) xs = Some x"
  using assms by (induction xs) (auto simp: rev_image_eqI)

lemma distinct_map_unique:
  "distinct (map k xs) \<Longrightarrow> x \<in> set xs \<Longrightarrow> y \<in> set xs \<Longrightarrow> k x = k y \<Longrightarrow> x = y"
  by (auto simp: distinct_map dest: inj_onD)

section \<open>Aligned tables\<close>

text \<open>
  Two tables whose rows are inserted and deleted in pairs stay aligned: the pairs are
  related row by row.
\<close>

lemma list_all2_update_where:
  assumes "list_all2 R xs ys"
    and "\<And>x y. R x y \<Longrightarrow> x \<in> set xs \<Longrightarrow> y \<in> set ys \<Longrightarrow>
      R' (if P x then f x else x) (if Q y then g y else y)"
  shows "list_all2 R' (update_where P f xs) (update_where Q g ys)"
  using assms(1) unfolding update_where_def list_all2_map1 list_all2_map2
  by (rule list.rel_mono_strong) (use assms(2) in blast)

lemma list_all2_delete_where:
  assumes "list_all2 R xs ys"
    and "\<And>x y. R x y \<Longrightarrow> x \<in> set xs \<Longrightarrow> y \<in> set ys \<Longrightarrow> P x = Q y"
  shows "list_all2 R (delete_where P xs) (delete_where Q ys)"
  using assms
proof (induction xs ys rule: list_all2_induct)
  case (Cons x xs y ys)
  have "P x = Q y" by (rule Cons.prems) (use Cons.hyps in auto)
  moreover have "list_all2 R (delete_where P xs) (delete_where Q ys)"
    by (rule Cons.IH) (use Cons.prems in auto)
  ultimately show ?case using Cons.hyps by (simp add: delete_where_def)
qed (simp add: delete_where_def)

lemma list_all2_left: "list_all2 R xs ys \<Longrightarrow> x \<in> set xs \<Longrightarrow> \<exists>y \<in> set ys. R x y"
  by (induction rule: list_all2_induct) auto

lemma find_append: "find P (xs @ ys) = (case find P xs of None \<Rightarrow> find P ys | Some x \<Rightarrow> Some x)"
  by (induction xs) auto

lemma find_Nothing: "(\<And>x. x \<in> set xs \<Longrightarrow> \<not> P x) \<Longrightarrow> find P xs = None"
  by (induction xs) auto

lemma mem_map_filter_pairs:
  "x \<in> set (map (\<lambda>(j, t). f j) (filter (\<lambda>(j, t). P j) xs)) \<longleftrightarrow> (\<exists>j t. (j, t) \<in> set xs \<and> P j \<and> x = f j)"
  by (induction xs) auto

lemma update_where_mem: "x \<in> set rows \<Longrightarrow> P x \<Longrightarrow> f x \<in> set (update_where P f rows)"
  by (induction rows) (auto simp: update_where_def)

lemma update_where_keep: "x \<in> set rows \<Longrightarrow> \<not> P x \<Longrightarrow> x \<in> set (update_where P f rows)"
  by (induction rows) (auto simp: update_where_def)

lemma list_all2_right: "list_all2 R xs ys \<Longrightarrow> y \<in> set ys \<Longrightarrow> \<exists>x \<in> set xs. R x y"
  by (induction rule: list_all2_induct) auto

lemma delete_where_append [simp]:
  "delete_where P (xs @ ys) = delete_where P xs @ delete_where P ys"
  by (simp add: delete_where_def)

lemma distinct_map_delete_where: "distinct (map k rows) \<Longrightarrow> distinct (map k (delete_where P rows))"
  by (simp add: delete_where_def distinct_map_filter)

lemma distinct_map_append_fresh:
  "distinct (map k rows) \<Longrightarrow> k r \<notin> k ` set rows \<Longrightarrow> distinct (map k (rows @ [r]))"
  by auto

lemma delete_where_False: "(\<And>r. r \<in> set rows \<Longrightarrow> \<not> P r) \<Longrightarrow> delete_where P rows = rows"
  by (simp add: delete_where_def)

lemma find_exists: "x \<in> set xs \<Longrightarrow> P x \<Longrightarrow> \<exists>y. find P xs = Some y"
  by (induction xs) auto

lemma distinct_map_snoc: "distinct (map k (xs @ [x])) \<longleftrightarrow> distinct (map k xs) \<and> (\<forall>y \<in> set xs. k y \<noteq> k x)"
  by (auto simp: rev_image_eqI)

lemma distinct_map_filter_sub: "distinct (map k xs) \<Longrightarrow> distinct (map k (filter P xs))"
  by (induction xs) auto

lemma update_where_image: "r \<in> set rows \<Longrightarrow> (if P r then f r else r) \<in> set (update_where P f rows)"
  by (simp add: update_where_mem update_where_keep)

lemma update_where_kept:
  assumes "r \<in> set rows" and "\<And>x. k (f x) = k x"
  shows "\<exists>r' \<in> set (update_where P f rows). k r' = k r"
  using update_where_image [OF assms(1), of P f] assms(2) by (metis (full_types))

lemma update_where_id: "(\<And>x. x \<in> set rows \<Longrightarrow> Q x \<Longrightarrow> f x = x) \<Longrightarrow> update_where Q f rows = rows"
  by (induction rows) (auto simp: update_where_def)

lemma find_update_where:
  assumes "\<And>x. Q x \<Longrightarrow> Q (f x)"
  shows "find Q (update_where Q f rows) = map_option f (find Q rows)"
  using assms by (induction rows) (auto simp: update_where_def)

end
