(* ===== verification/Calendar.thy ===== *)
theory Calendar
  imports Prelude
begin

text \<open>
  Python's \<open>datetime\<close> as the reminder code uses it: proleptic Gregorian dates, their
  ordinals (\<open>date.toordinal\<close>, day 1 is 0001-01-01), and naive wall times.

  A naive \<open>datetime\<close> is a number of microseconds on the axis whose day
  \<open>n\<close> starts at \<open>n * day_us\<close>; \<open>date_part\<close> and \<open>time_part\<close> are its two
  halves.  Comparison of datetimes is comparison of these numbers, and
  \<open>timedelta\<close> arithmetic is addition, checked against \<open>datetime.min\<close> and
  \<open>datetime.max\<close> (outside them Python raises \<open>OverflowError\<close>).
\<close>

section \<open>Dates\<close>

datatype date = Date (d_year: int) (d_month: int) (d_day: int)

text \<open>Dates are compared as \<open>(year, month, day)\<close> triples.\<close>

instantiation date :: linorder
begin

definition less_eq_date :: "date \<Rightarrow> date \<Rightarrow> bool" where
  "less_eq_date a b \<longleftrightarrow> (d_year a, d_month a, d_day a) \<le> (d_year b, d_month b, d_day b)"

definition less_date :: "date \<Rightarrow> date \<Rightarrow> bool" where
  "less_date a b \<longleftrightarrow> (d_year a, d_month a, d_day a) < (d_year b, d_month b, d_day b)"

instance
proof
  fix x y z :: date
  show "(x < y) = (x \<le> y \<and> \<not> y \<le> x)"
    by (auto simp: less_eq_date_def less_date_def)
  show "x \<le> x" by (simp add: less_eq_date_def)
  show "x \<le> y \<Longrightarrow> y \<le> z \<Longrightarrow> x \<le> z"
    by (auto simp: less_eq_date_def)
  show "x \<le> y \<Longrightarrow> y \<le> x \<Longrightarrow> x = y"
    by (cases x; cases y) (auto simp: less_eq_date_def)
  show "x \<le> y \<or> y \<le> x"
    by (auto simp: less_eq_date_def)
qed

end

definition is_leap :: "int \<Rightarrow> bool" where
  "is_leap y \<longleftrightarrow> y mod 4 = 0 \<and> (y mod 100 \<noteq> 0 \<or> y mod 400 = 0)"

definition days_in_month :: "int \<Rightarrow> int \<Rightarrow> int" where
  "days_in_month y m =
     (if m = 2 then (if is_leap y then 29 else 28)
      else if m = 4 \<or> m = 6 \<or> m = 9 \<or> m = 11 then 30 else 31)"

text \<open>Days of the year before month \<open>m\<close>.\<close>

definition days_before_month :: "int \<Rightarrow> int \<Rightarrow> int" where
  "days_before_month y m =
     [0, 31, 59, 90, 120, 151, 181, 212, 243, 273, 304, 334] ! nat (m - 1)
     + (if 2 < m \<and> is_leap y then 1 else 0)"

text \<open>Days before January 1st of year \<open>y\<close>.\<close>

definition days_before_year :: "int \<Rightarrow> int" where
  "days_before_year y = (y - 1) * 365 + (y - 1) div 4 - (y - 1) div 100 + (y - 1) div 400"

definition valid_date :: "date \<Rightarrow> bool" where
  "valid_date d \<longleftrightarrow> 1 \<le> d_year d \<and> 1 \<le> d_month d \<and> d_month d \<le> 12
     \<and> 1 \<le> d_day d \<and> d_day d \<le> days_in_month (d_year d) (d_month d)"

definition toordinal :: "date \<Rightarrow> int" where
  "toordinal d = days_before_year (d_year d) + days_before_month (d_year d) (d_month d) + d_day d"

text \<open>The inverse, by 400/100/4/1-year cycles, as the standard library computes it.\<close>

definition month_of_yday :: "bool \<Rightarrow> int \<Rightarrow> int \<times> int" where
  "month_of_yday leap n =
     (let month = (n + 50) div 32;
          year = (if leap then 4 else 1);
          preceding = days_before_month year month
      in if n < preceding then (month - 1, n - days_before_month year (month - 1) + 1)
         else (month, n - preceding + 1))"

definition fromordinal :: "int \<Rightarrow> date" where
  "fromordinal ord =
     (let n = ord - 1;
          n400 = n div 146097; a = n mod 146097;
          n100 = a div 36524; b = a mod 36524;
          n4 = b div 1461; c = b mod 1461;
          n1 = c div 365; yday = c mod 365;
          year = n400 * 400 + n100 * 100 + n4 * 4 + n1 + 1
      in if n1 = 4 \<or> n100 = 4 then Date (year - 1) 12 31
         else (case month_of_yday (n1 = 3 \<and> (n4 \<noteq> 24 \<or> n100 = 3)) yday of
                 (m, d) \<Rightarrow> Date year m d))"

text \<open>Monday is 0: day ordinal 1 (0001-01-01) is a Monday.\<close>

definition weekday :: "int \<Rightarrow> int" where
  "weekday ord = (ord + 6) mod 7"

abbreviation (input) min_ordinal :: int where "min_ordinal \<equiv> 1"
abbreviation (input) max_ordinal :: int where "max_ordinal \<equiv> 3652059"

text \<open>\<open>date(year, month, day)\<close>, as the ordinal of the date.\<close>

definition make_date :: "int \<Rightarrow> int \<Rightarrow> int \<Rightarrow> int result" where
  "make_date y m d =
     (if y < 1 \<or> 9999 < y then Inl (ValueError ''year is out of range'')
      else if m < 1 \<or> 12 < m then Inl (ValueError ''month must be in 1..12'')
      else if d < 1 \<or> days_in_month y m < d
        then Inl (ValueError ''day is out of range for month'')
      else Inr (toordinal (Date y m d)))"

text \<open>\<open>d + timedelta(days=k)\<close> on a date.\<close>

definition date_add :: "int \<Rightarrow> int \<Rightarrow> int result" where
  "date_add ord k =
     (if 1 \<le> ord + k \<and> ord + k \<le> 3652059 then Inr (ord + k)
      else Inl (OverflowError ''date value out of range''))"

lemma month_cases:
  assumes "1 \<le> m" and "m \<le> (12::int)"
  shows "m = 1 \<or> m = 2 \<or> m = 3 \<or> m = 4 \<or> m = 5 \<or> m = 6 \<or> m = 7 \<or> m = 8 \<or> m = 9
    \<or> m = 10 \<or> m = 11 \<or> m = 12"
  using assms by arith

lemma days_before_month_Suc:
  assumes "1 \<le> m" and "m < 12"
  shows "days_before_month y (m + 1) = days_before_month y m + days_in_month y m"
proof -
  from assms have "m = 1 \<or> m = 2 \<or> m = 3 \<or> m = 4 \<or> m = 5 \<or> m = 6 \<or> m = 7 \<or> m = 8 \<or> m = 9
    \<or> m = 10 \<or> m = 11" by arith
  then show ?thesis
    by (elim disjE) (simp_all add: days_before_month_def days_in_month_def numeral_nat)
qed

lemma days_in_month_bounds: "28 \<le> days_in_month y m \<and> days_in_month y m \<le> 31"
  by (simp add: days_in_month_def)

lemma days_before_month_1 [simp]: "days_before_month y 1 = 0"
  by (simp add: days_before_month_def)

lemma days_before_month_12: "days_before_month y 12 = 334 + (if is_leap y then 1 else 0)"
  by (simp add: days_before_month_def numeral_nat)

lemma div_pred:
  assumes "0 < (k::int)"
  shows "y div k = (y - 1) div k + (if y mod k = 0 then 1 else 0)"
proof (cases "y mod k = 0")
  case True
  have "y - 1 = k * (y div k - 1) + (k - 1)"
    using True mult_div_mod_eq [of k y] by (simp add: algebra_simps)
  then have "(y - 1) div k = y div k - 1"
    by (rule int_div_pos_eq) (use assms in auto)
  with True show ?thesis by simp
next
  case False
  have e: "y - 1 = k * (y div k) + (y mod k - 1)"
    using mult_div_mod_eq [of k y] by (simp add: algebra_simps)
  have r: "0 \<le> y mod k" "y mod k < k" using assms by simp_all
  have "(y - 1) div k = y div k"
    by (rule int_div_pos_eq [OF e]) (use r False in linarith)+
  with False show ?thesis by simp
qed

lemma days_before_year_Suc:
  "days_before_year (y + 1) = days_before_year y + (if is_leap y then 366 else 365)"
proof -
  define m4 m100 m400 where "m4 = (y mod 4 = 0)" and "m100 = (y mod 100 = 0)"
    and "m400 = (y mod 400 = 0)"
  have "y mod 100 mod 4 = y mod 4" and "y mod 400 mod 100 = y mod 100"
    by (simp_all add: mod_mod_cancel)
  then have impl: "m100 \<longrightarrow> m4" "m400 \<longrightarrow> m100"
    unfolding m4_def m100_def m400_def by (metis mod_0)+
  have leap: "is_leap y = (m4 \<and> (\<not> m100 \<or> m400))"
    by (simp add: is_leap_def m4_def m100_def m400_def)
  have eq: "days_before_year (y + 1) = y * 365 + y div 4 - y div 100 + y div 400"
    by (simp only: days_before_year_def add_diff_cancel_right')
  have step: "a = y * 365 + q4 - q100 + q400 \<Longrightarrow> b = (y - 1) * 365 + p4 - p100 + p400
      \<Longrightarrow> q4 = p4 + x4 \<Longrightarrow> q100 = p100 + x100 \<Longrightarrow> q400 = p400 + x400
      \<Longrightarrow> a = b + 365 + x4 - x100 + x400" for a b q4 q100 q400 p4 p100 p400 x4 x100 x400 :: int
    by simp
  have "days_before_year (y + 1) = days_before_year y + 365
      + (if m4 then 1 else 0) - (if m100 then 1 else 0) + (if m400 then 1 else 0)"
    by (rule step [OF eq days_before_year_def]; unfold m4_def m100_def m400_def; rule div_pred; simp)
  then show ?thesis using impl leap by (cases m4; cases m100; cases m400; simp)
qed

lemma days_before_year_mono:
  assumes "y \<le> z"
  shows "days_before_year y + 365 * (z - y) \<le> days_before_year z"
proof -
  have "days_before_year y + 365 * int n \<le> days_before_year (y + int n)" for n
  proof (induction n)
    case (Suc n)
    have "days_before_year (y + int (Suc n)) = days_before_year ((y + int n) + 1)"
      by (simp add: ac_simps)
    with Suc show ?case by (simp add: days_before_year_Suc del: of_nat_Suc) simp
  qed simp
  from this [of "nat (z - y)"] assms show ?thesis by simp
qed

lemma days_before_month_mono:
  assumes "1 \<le> m" and "m < k" and "k \<le> 12"
  shows "days_before_month y m + days_in_month y m \<le> days_before_month y k"
proof -
  have "m + 1 + int n \<le> 12 \<Longrightarrow>
      days_before_month y m + days_in_month y m \<le> days_before_month y (m + 1 + int n)" for n
  proof (induction n)
    case 0
    then show ?case using assms by (simp add: days_before_month_Suc)
  next
    case (Suc n)
    have "days_before_month y (m + 1 + int n + 1)
        = days_before_month y (m + 1 + int n) + days_in_month y (m + 1 + int n)"
      using Suc.prems assms by (intro days_before_month_Suc) auto
    with Suc days_in_month_bounds [of y "m + 1 + int n"] show ?case
      by (simp add: algebra_simps)
  qed
  from this [of "nat (k - m - 1)"] assms show ?thesis by simp
qed

lemma yday_bounds:
  assumes "valid_date d"
  shows "1 \<le> days_before_month (d_year d) (d_month d) + d_day d"
    and "days_before_month (d_year d) (d_month d) + d_day d
         \<le> (if is_leap (d_year d) then 366 else 365)"
proof -
  let ?y = "d_year d" and ?m = "d_month d"
  from assms have m: "1 \<le> ?m" "?m \<le> 12" and dd: "1 \<le> d_day d" "d_day d \<le> days_in_month ?y ?m"
    by (simp_all add: valid_date_def)
  show "1 \<le> days_before_month ?y ?m + d_day d"
  proof (cases "?m = 1")
    case False
    with m days_before_month_mono [of 1 ?m ?y] dd show ?thesis
      by (simp add: days_in_month_def)
  qed (use dd in simp)
  show "days_before_month ?y ?m + d_day d \<le> (if is_leap ?y then 366 else 365)"
  proof (cases "?m = 12")
    case True
    with dd show ?thesis by (simp add: days_before_month_12 days_in_month_def)
  next
    case False
    with m days_before_month_mono [of ?m 12 ?y] dd show ?thesis
      by (simp add: days_before_month_12 split: if_splits)
  qed
qed

text \<open>The ordinal is strictly monotone in the lexicographic order of valid dates.\<close>

lemma toordinal_less:
  assumes "valid_date a" and "valid_date b" and "a < b"
  shows "toordinal a < toordinal b"
proof -
  consider (year) "d_year a < d_year b"
    | (month) "d_year a = d_year b" "d_month a < d_month b"
    | (day) "d_year a = d_year b" "d_month a = d_month b" "d_day a < d_day b"
    using assms(3) by (fastforce simp: less_date_def)
  then show ?thesis
  proof cases
    case year
    have "toordinal a \<le> days_before_year (d_year a + 1)"
      using yday_bounds(2) [OF assms(1)] by (simp add: toordinal_def days_before_year_Suc)
    also have "\<dots> \<le> days_before_year (d_year b)"
      using days_before_year_mono [of "d_year a + 1" "d_year b"] year by simp
    also have "\<dots> < toordinal b"
      using yday_bounds(1) [OF assms(2)] by (simp add: toordinal_def)
    finally show ?thesis .
  next
    case month
    with assms days_before_month_mono [of "d_month a" "d_month b" "d_year b"] show ?thesis
      by (simp add: toordinal_def valid_date_def)
  next
    case day
    then show ?thesis by (simp add: toordinal_def)
  qed
qed

lemma toordinal_le_iff:
  assumes "valid_date a" and "valid_date b"
  shows "toordinal a \<le> toordinal b \<longleftrightarrow> a \<le> b"
  using toordinal_less [OF assms] toordinal_less [OF assms(2,1)]
  by (metis linorder_not_less order_le_less)

lemma toordinal_inject:
  assumes "valid_date a" and "valid_date b" and "toordinal a = toordinal b"
  shows "a = b"
  using toordinal_le_iff [OF assms(1,2)] toordinal_le_iff [OF assms(2,1)] assms(3) by simp

lemma month_of_yday_correct:
  assumes n: "0 \<le> n" "n < (if leap then 366 else 365)"
    and md: "month_of_yday leap n = (m, d)" and y: "is_leap y = leap"
  shows "1 \<le> m \<and> m \<le> 12 \<and> 1 \<le> d \<and> d \<le> days_in_month y m \<and> days_before_month y m + d = n + 1"
proof -
  define q where "q = (n + 50) div 32"
  have leap4: "is_leap 4" and leap1: "\<not> is_leap 1" by (simp_all add: is_leap_def)
  have yr: "days_before_month (if leap then 4 else 1) k = days_before_month y k" for k
    using y leap4 leap1 by (auto simp: days_before_month_def)
  have md': "(if n < days_before_month y q
      then (q - 1, n - days_before_month y (q - 1) + 1)
      else (q, n - days_before_month y q + 1)) = (m, d)"
    using md by (simp only: month_of_yday_def Let_def yr q_def)
  have q: "32 * q \<le> n + 50" "n + 50 < 32 * q + 32" by (auto simp: q_def)
  have "1 \<le> q" "q \<le> 12" using q n by (auto split: if_splits)
  from month_cases [OF this] show ?thesis
    apply (elim disjE)
               apply (use md' q n y in \<open>cases "is_leap y"; simp add: days_before_month_def days_in_month_def numeral_nat split: if_splits; linarith?\<close>)+
    done
qed

text \<open>\<open>date.fromordinal\<close> inverts \<open>toordinal\<close>: it gives a valid date of that ordinal.\<close>

lemma mod_Suc_zero:
  assumes "0 < (k::int)"
  shows "(y + 1) mod k = 0 \<longleftrightarrow> y mod k = k - 1"
proof -
  have b: "0 \<le> y mod k" "y mod k < k" using assms by simp_all
  have "(y + 1) mod k = (y mod k + 1) mod k" by (simp add: mod_add_left_eq)
  then show ?thesis using b by (cases "y mod k = k - 1") auto
qed

lemma cycle_year:
  assumes "0 \<le> a" and "a < 4" and "0 \<le> b" and "b < 25" and "0 \<le> c" and "c < (4::int)"
  shows "days_before_year (n * 400 + a * 100 + b * 4 + c + 1)
      = n * 146097 + a * 36524 + b * 1461 + c * 365"
    and "is_leap (n * 400 + a * 100 + b * 4 + c + 1) \<longleftrightarrow> c = 3 \<and> (b \<noteq> 24 \<or> a = 3)"
proof -
  define y where "y = n * 400 + a * 100 + b * 4 + c"
  have e4: "y = 4 * (n * 100 + a * 25 + b) + c" by (simp add: y_def)
  have d4: "y div 4 = n * 100 + a * 25 + b" by (rule int_div_pos_eq [OF e4]) (use assms in auto)
  have m4: "y mod 4 = c" by (rule int_mod_pos_eq [OF e4]) (use assms in auto)
  have e100: "y = 100 * (n * 4 + a) + (b * 4 + c)" by (simp add: y_def)
  have d100: "y div 100 = n * 4 + a" by (rule int_div_pos_eq [OF e100]) (use assms in auto)
  have m100: "y mod 100 = b * 4 + c" by (rule int_mod_pos_eq [OF e100]) (use assms in auto)
  have e400: "y = 400 * n + (a * 100 + (b * 4 + c))" by (simp add: y_def)
  have d400: "y div 400 = n" by (rule int_div_pos_eq [OF e400]) (use assms in auto)
  have m400: "y mod 400 = a * 100 + (b * 4 + c)"
    by (rule int_mod_pos_eq [OF e400]) (use assms in auto)
  show "days_before_year (n * 400 + a * 100 + b * 4 + c + 1)
      = n * 146097 + a * 36524 + b * 1461 + c * 365"
    using d4 d100 d400 unfolding y_def [symmetric] days_before_year_def
    by (simp add: y_def)
  have *: "(y + 1) mod k = 0 \<longleftrightarrow> y mod k = k - 1" if "0 < k" for k :: int
    using that by (rule mod_Suc_zero)
  have "(y + 1) mod 4 = 0 \<longleftrightarrow> c = 3" using *[of 4] m4 by simp
  moreover have "(y + 1) mod 100 = 0 \<longleftrightarrow> b = 24 \<and> c = 3"
    using *[of 100] m100 assms by (simp; arith)
  moreover have "(y + 1) mod 400 = 0 \<longleftrightarrow> a = 3 \<and> b = 24 \<and> c = 3"
    using *[of 400] m400 assms by (simp; arith)
  ultimately show "is_leap (n * 400 + a * 100 + b * 4 + c + 1) \<longleftrightarrow> c = 3 \<and> (b \<noteq> 24 \<or> a = 3)"
    unfolding y_def [symmetric] is_leap_def by auto
qed

lemma fromordinal_correct:
  assumes "1 \<le> ord"
  shows "valid_date (fromordinal ord) \<and> toordinal (fromordinal ord) = ord"
proof -
  define n where "n = ord - 1"
  define n400 a where "n400 = n div 146097" and "a = n mod 146097"
  define n100 b where "n100 = a div 36524" and "b = a mod 36524"
  define n4 c where "n4 = b div 1461" and "c = b mod 1461"
  define n1 yday where "n1 = c div 365" and "yday = c mod 365"
  define year where "year = n400 * 400 + n100 * 100 + n4 * 4 + n1 + 1"
  have n: "n = 146097 * n400 + 36524 * n100 + 1461 * n4 + 365 * n1 + yday"
    using mult_div_mod_eq [of 146097 n] mult_div_mod_eq [of 36524 a]
      mult_div_mod_eq [of 1461 b] mult_div_mod_eq [of 365 c]
    by (simp add: n400_def a_def n100_def b_def n4_def c_def n1_def yday_def)
  have "0 \<le> n400" using assms by (simp add: n400_def n_def pos_imp_zdiv_nonneg_iff)
  have ar: "0 \<le> a" "a < 146097" and br: "0 \<le> b" "b < 36524"
    and cr: "0 \<le> c" "c < 1461" and yr: "0 \<le> yday" "yday < 365"
    by (simp_all add: a_def b_def c_def yday_def)
  have a: "a = 36524 * n100 + b" and b: "b = 1461 * n4 + c" and c: "c = 365 * n1 + yday"
    using mult_div_mod_eq [of 36524 a] mult_div_mod_eq [of 1461 b] mult_div_mod_eq [of 365 c]
    by (simp_all add: n100_def b_def n4_def c_def n1_def yday_def)
  have r: "0 \<le> n100" "n100 \<le> 4" "0 \<le> n4" "n4 < 25" "0 \<le> n1" "n1 \<le> 4"
    using ar br cr yr a b c by linarith+
  have fo: "fromordinal ord = (if n1 = 4 \<or> n100 = 4 then Date (year - 1) 12 31
      else (case month_of_yday (n1 = 3 \<and> (n4 \<noteq> 24 \<or> n100 = 3)) yday of (m, d) \<Rightarrow> Date year m d))"
    unfolding fromordinal_def Let_def n_def n400_def a_def n100_def b_def n4_def c_def n1_def
      yday_def year_def by (rule refl)
  show ?thesis
  proof (cases "n1 = 4 \<or> n100 = 4")
    case False
    then have cyc: "days_before_year year = n400 * 146097 + n100 * 36524 + n4 * 1461 + n1 * 365"
      "is_leap year \<longleftrightarrow> n1 = 3 \<and> (n4 \<noteq> 24 \<or> n100 = 3)"
      unfolding year_def by (intro cycle_year; use r in linarith)+
    obtain m d where md: "month_of_yday (is_leap year) yday = (m, d)" by fastforce
    have "1 \<le> m \<and> m \<le> 12 \<and> 1 \<le> d \<and> d \<le> days_in_month year m
        \<and> days_before_month year m + d = yday + 1"
      by (rule month_of_yday_correct [OF _ _ md]) (use yr in auto)
    moreover have "1 \<le> year" using r \<open>0 \<le> n400\<close> by (simp add: year_def)
    ultimately show ?thesis using False md cyc n
      by (simp add: fo valid_date_def toordinal_def n_def)
  next
    case True
    have "days_before_year year = ord"
    proof (cases "n100 = 4")
      case True
      then have z: "b = 0" "n4 = 0" "n1 = 0" "yday = 0" using a b c ar br cr yr r by linarith+
      have "year = (n400 + 1) * 400 + 0 * 100 + 0 * 4 + 0 + 1" using z True by (simp add: year_def)
      then show ?thesis using cycle_year(1) [of 0 0 0 "n400 + 1"] n z True by (simp add: n_def)
    next
      case False
      then have z: "n1 = 4" "yday = 0" "n4 < 24" using True b c br cr yr r by linarith+
      have "year = n400 * 400 + n100 * 100 + (n4 + 1) * 4 + 0 + 1" using z by (simp add: year_def)
      then show ?thesis using cycle_year(1) [of n100 "n4 + 1" 0 n400] False r n z
        by (simp add: n_def)
    qed
    moreover have "2 \<le> year" using True r \<open>0 \<le> n400\<close> by (auto simp: year_def)
    moreover have "fromordinal ord = Date (year - 1) 12 31" using True by (simp add: fo)
    ultimately show ?thesis using days_before_year_Suc [of "year - 1"]
      by (simp add: valid_date_def toordinal_def days_before_month_12 days_in_month_def)
  qed
qed

lemmas fromordinal_valid = fromordinal_correct [THEN conjunct1]
lemmas toordinal_fromordinal = fromordinal_correct [THEN conjunct2]

lemma toordinal_pos: "valid_date d \<Longrightarrow> 1 \<le> toordinal d"
  using yday_bounds(1) [of d] days_before_year_mono [of 1 "d_year d"]
  by (auto simp: toordinal_def valid_date_def days_before_year_def)

lemma fromordinal_toordinal: "valid_date d \<Longrightarrow> fromordinal (toordinal d) = d"
  by (metis fromordinal_correct toordinal_inject toordinal_pos)

lemma toordinal_mono_iff:
  "1 \<le> a \<Longrightarrow> 1 \<le> b \<Longrightarrow> fromordinal a \<le> fromordinal b \<longleftrightarrow> a \<le> b"
  using toordinal_le_iff [of "fromordinal a" "fromordinal b"] by (simp add: fromordinal_correct)

lemma make_date_Inr:
  "make_date y m d = Inr ord \<longleftrightarrow> valid_date (Date y m d) \<and> y \<le> 9999 \<and> ord = toordinal (Date y m d)"
  by (auto simp: make_date_def valid_date_def)

section \<open>Naive datetimes\<close>

abbreviation (input) minute_us :: int where "minute_us \<equiv> 60000000"
abbreviation (input) day_us :: int where "day_us \<equiv> 86400000000"

definition combine :: "int \<Rightarrow> int \<Rightarrow> int" where
  "combine ord t = ord * 86400000000 + t"

definition date_part :: "int \<Rightarrow> int" where
  "date_part t = t div 86400000000"

definition time_part :: "int \<Rightarrow> int" where
  "time_part t = t mod 86400000000"

definition valid_datetime :: "int \<Rightarrow> bool" where
  "valid_datetime t \<longleftrightarrow> 86400000000 \<le> t \<and> t < 3652060 * 86400000000"

text \<open>A datetime value with or without \<open>tzinfo\<close>; an aware one is its instant.\<close>

datatype py_datetime = Naive int | Aware int

text \<open>\<open>datetime + timedelta\<close>.\<close>

definition datetime_add :: "int \<Rightarrow> int \<Rightarrow> int result" where
  "datetime_add t delta =
     (if valid_datetime (t + delta) then Inr (t + delta)
      else Inl (OverflowError ''date value out of range''))"

definition dt_weekday :: "int \<Rightarrow> int" where
  "dt_weekday t = weekday (date_part t)"

definition minute_of_day :: "int \<Rightarrow> int" where
  "minute_of_day t = time_part t div 60000000"

lemma combine_parts [simp]: "combine (date_part t) (time_part t) = t"
  by (simp add: combine_def date_part_def time_part_def)

lemma time_part_bounds [simp]: "0 \<le> time_part t" "time_part t < 86400000000"
  by (simp_all add: time_part_def)

lemma combine_date_part:
  "0 \<le> t \<Longrightarrow> t < 86400000000 \<Longrightarrow> date_part (combine d t) = d"
  unfolding date_part_def combine_def by simp

lemma combine_time_part:
  "0 \<le> t \<Longrightarrow> t < 86400000000 \<Longrightarrow> time_part (combine d t) = t"
  unfolding time_part_def combine_def by simp

lemma combine_less:
  assumes "a < b" and "0 \<le> s" and "s < 86400000000" and "0 \<le> t"
  shows "combine a s < combine b t"
  using assms by (simp add: combine_def)

lemma date_part_mono: "s \<le> t \<Longrightarrow> date_part s \<le> date_part t"
  by (simp add: date_part_def zdiv_mono1)

lemma valid_datetime_date_part:
  "valid_datetime t \<longleftrightarrow> 1 \<le> date_part t \<and> date_part t \<le> 3652059"
  unfolding valid_datetime_def date_part_def by (auto simp: pos_imp_zdiv_nonneg_iff; linarith)

lemma minute_of_day_bounds: "0 \<le> minute_of_day t \<and> minute_of_day t < 1440"
proof -
  have "0 \<le> time_part t div 60000000" by (simp add: pos_imp_zdiv_nonneg_iff)
  moreover have "time_part t div 60000000 < 1440"
    using time_part_bounds(2) [of t] by linarith
  ultimately show ?thesis by (simp add: minute_of_day_def)
qed

lemma weekday_bounds: "0 \<le> weekday n \<and> weekday n < 7"
  by (simp add: weekday_def)

end
