(* ===== verification/Py_Text.thy ===== *)
theory Py_Text
  imports Prelude
begin

text \<open>
  Python \<open>str\<close> values as lists of code points, with the operations the code uses:
  \<open>strip\<close>, the length of the UTF-8 encoding, \<open>split\<close> on one character,
  decimal printing of integers; and the values of the JSON data model (\<open>json.loads\<close>
  results) the code validates dynamically.
\<close>

type_synonym pystr = "nat list"

text \<open>A Python string literal.\<close>

definition u :: "string \<Rightarrow> pystr" where
  "u s = map of_char s"

text \<open>The code points with \<open>str.isspace\<close>, which \<open>str.strip()\<close> removes.\<close>

definition is_space :: "nat \<Rightarrow> bool" where
  "is_space c \<longleftrightarrow> (9 \<le> c \<and> c \<le> 13) \<or> (28 \<le> c \<and> c \<le> 32) \<or> c = 133 \<or> c = 160 \<or> c = 5760
     \<or> (8192 \<le> c \<and> c \<le> 8202) \<or> c = 8232 \<or> c = 8233 \<or> c = 8239 \<or> c = 8287 \<or> c = 12288"

definition strip :: "pystr \<Rightarrow> pystr" where
  "strip s = rev (dropWhile is_space (rev (dropWhile is_space s)))"

definition is_blank :: "pystr \<Rightarrow> bool" where
  "is_blank s \<longleftrightarrow> list_all is_space s"

lemma strip_Nil_iff [simp]: "strip s = [] \<longleftrightarrow> is_blank s"
proof -
  have drop: "(\<forall>x \<in> set (dropWhile is_space s). is_space x) \<longleftrightarrow> (\<forall>x \<in> set s. is_space x)"
    by (induction s) auto
  then show ?thesis
    by (simp add: strip_def dropWhile_eq_Nil_conv is_blank_def list_all_iff)
qed

lemma dropWhile_idem: "dropWhile P (dropWhile P xs) = dropWhile P xs"
  by (induction xs) auto

lemma hd_dropWhile_rev:
  "xs = [] \<or> \<not> P (hd xs) \<Longrightarrow>
     rev (dropWhile P (rev xs)) = [] \<or> \<not> P (hd (rev (dropWhile P (rev xs))))"
proof (cases xs)
  case (Cons x ys)
  assume *: "xs = [] \<or> \<not> P (hd xs)"
  show ?thesis
  proof (cases "\<forall>y \<in> set (rev ys). P y")
    case True
    then have "dropWhile P (rev ys @ [x]) = dropWhile P [x]"
      by (simp add: dropWhile_append)
    then show ?thesis using * Cons by simp
  next
    case False
    then have "dropWhile P (rev ys @ [x]) = dropWhile P (rev ys) @ [x]"
      by (auto simp: dropWhile_append1 dropWhile_append dropWhile_eq_Nil_conv)
    then show ?thesis using * Cons by simp
  qed
qed simp

lemma dropWhile_id: "xs = [] \<or> \<not> P (hd xs) \<Longrightarrow> dropWhile P xs = xs"
  by (cases xs) auto

lemma strip_idem [simp]: "strip (strip s) = strip s"
proof -
  let ?d = "dropWhile is_space s"
  have "?d = [] \<or> \<not> is_space (hd ?d)" using hd_dropWhile [of is_space s] by auto
  then have "rev (dropWhile is_space (rev ?d)) = []
      \<or> \<not> is_space (hd (rev (dropWhile is_space (rev ?d))))"
    by (rule hd_dropWhile_rev)
  then have "dropWhile is_space (strip s) = strip s"
    unfolding strip_def by (rule dropWhile_id)
  then show ?thesis
    by (metis dropWhile_idem rev_rev_ident strip_def)
qed

lemma length_strip: "length (strip s) \<le> length s"
proof -
  have "length (dropWhile is_space xs) \<le> length xs" for xs
    by (induction xs) auto
  then show ?thesis unfolding strip_def
    by (metis length_rev order_trans)
qed

text \<open>
  \<open>len(s.encode("utf-8"))\<close>; a lone surrogate makes \<open>encode\<close> raise
  \<open>UnicodeEncodeError\<close>, a \<open>ValueError\<close>.
\<close>

definition utf8_width :: "nat \<Rightarrow> nat" where
  "utf8_width c = (if c < 128 then 1 else if c < 2048 then 2 else if c < 65536 then 3 else 4)"

definition is_surrogate :: "nat \<Rightarrow> bool" where
  "is_surrogate c \<longleftrightarrow> 55296 \<le> c \<and> c \<le> 57343"

definition utf8_length :: "pystr \<Rightarrow> nat result" where
  "utf8_length s =
     (if list_ex is_surrogate s then Inl (ValueError ''surrogates not allowed'')
      else Inr (sum_list (map utf8_width s)))"

lemma utf8_length_ascii: "list_all (\<lambda>c. c < 128) s \<Longrightarrow> utf8_length s = Inr (length s)"
  by (induction s) (auto simp: utf8_length_def utf8_width_def is_surrogate_def)

text \<open>\<open>s.split(c)\<close> for a one-character separator.\<close>

fun split_on :: "nat \<Rightarrow> pystr \<Rightarrow> pystr list" where
  "split_on c [] = [[]]"
| "split_on c (x # xs) =
     (if x = c then [] # split_on c xs
      else (case split_on c xs of [] \<Rightarrow> [[x]] | p # ps \<Rightarrow> (x # p) # ps))"

text \<open>\<open>c.join(parts)\<close> for a one-character separator.\<close>

fun join_with :: "nat \<Rightarrow> pystr list \<Rightarrow> pystr" where
  "join_with c [] = []"
| "join_with c [p] = p"
| "join_with c (p # q # ps) = p @ c # join_with c (q # ps)"

lemma split_on_no_sep: "c \<notin> set p \<Longrightarrow> split_on c p = [p]"
  by (induction p) auto

lemma split_on_append: "c \<notin> set p \<Longrightarrow> split_on c (p @ c # s) = p # split_on c s"
  by (induction p) auto

lemma split_join:
  "parts \<noteq> [] \<Longrightarrow> (\<And>p. p \<in> set parts \<Longrightarrow> c \<notin> set p) \<Longrightarrow> split_on c (join_with c parts) = parts"
  by (induction c parts rule: join_with.induct) (auto simp: split_on_no_sep split_on_append)

text \<open>Decimal printing of a natural number, \<open>str(n)\<close>, and its reading.\<close>

fun show_nat :: "nat \<Rightarrow> pystr" where
  "show_nat n = (if n < 10 then [48 + n] else show_nat (n div 10) @ [48 + n mod 10])"

declare show_nat.simps [simp del]

definition is_digit :: "nat \<Rightarrow> bool" where
  "is_digit c \<longleftrightarrow> 48 \<le> c \<and> c \<le> 57"

definition read_nat :: "pystr \<Rightarrow> nat" where
  "read_nat s = foldl (\<lambda>n c. n * 10 + (c - 48)) 0 s"

lemma read_nat_snoc: "read_nat (s @ [c]) = read_nat s * 10 + (c - 48)"
  by (simp add: read_nat_def)

lemma read_show_nat [simp]: "read_nat (show_nat n) = n"
proof (induction n rule: show_nat.induct)
  case (1 n)
  then show ?case
    by (subst show_nat.simps) (auto simp: read_nat_snoc read_nat_def [of "[_]"])
qed

lemma show_nat_digits: "list_all is_digit (show_nat n)"
proof (induction n rule: show_nat.induct)
  case (1 n)
  have "is_digit (48 + k)" if "k < 10" for k using that by (simp add: is_digit_def)
  with 1 show ?case by (subst show_nat.simps) auto
qed

lemma show_nat_ne [simp]: "show_nat n \<noteq> []"
  by (subst show_nat.simps) simp

lemma length_show_nat: "n < 10 ^ k \<Longrightarrow> 0 < k \<Longrightarrow> length (show_nat n) \<le> k"
proof (induction n arbitrary: k rule: show_nat.induct)
  case (1 n)
  show ?case
  proof (cases "n < 10")
    case True
    with 1(3) show ?thesis by (subst show_nat.simps) simp
  next
    case False
    with 1(2) obtain k' where k: "k = Suc k'" "0 < k'"
      by (cases k; cases "k - 1") auto
    then have "n div 10 < 10 ^ k'" using 1(2) by (simp add: less_mult_imp_div_less mult.commute)
    with 1(1) [OF False] k have "length (show_nat (n div 10)) \<le> k'" by simp
    with k False show ?thesis by (subst show_nat.simps) simp
  qed
qed

definition show_int :: "int \<Rightarrow> pystr" where
  "show_int n = (if n < 0 then 45 # show_nat (nat (- n)) else show_nat (nat n))"

section \<open>Prefixes, infixes, words\<close>

definition starts_with :: "pystr \<Rightarrow> pystr \<Rightarrow> bool" where
  "starts_with p s \<longleftrightarrow> take (length p) s = p"

lemma starts_with_append [simp]: "starts_with p (p @ s)"
  by (simp add: starts_with_def)

text \<open>\<open>p in s\<close>.\<close>

definition contains :: "pystr \<Rightarrow> pystr \<Rightarrow> bool" where
  "contains p s = list_ex (\<lambda>i. starts_with p (drop i s)) [0..<length s + 1]"

definition rstrip :: "pystr \<Rightarrow> pystr" where
  "rstrip s = rev (dropWhile is_space (rev s))"

lemma length_rstrip: "length (rstrip s) \<le> length s"
  unfolding rstrip_def using length_dropWhile_le [of is_space "rev s"] by simp

text \<open>\<open>s.split()\<close>: the maximal runs of non-space characters.\<close>

function split_ws :: "pystr \<Rightarrow> pystr list" where
  "split_ws s = (let t = dropWhile is_space s in
     if t = [] then [] else takeWhile (\<lambda>c. \<not> is_space c) t # split_ws (dropWhile (\<lambda>c. \<not> is_space c) t))"
  by pat_completeness auto

termination split_ws
proof (relation "measure length", goal_cases)
  case (2 s t)
  obtain c cs where t: "t = c # cs" using 2(2) by (cases t) auto
  have "\<not> is_space c" using 2(1) t by (metis hd_dropWhile list.sel(1) list.distinct(1))
  then have "length (dropWhile (\<lambda>c. \<not> is_space c) t) \<le> length cs" using t by (simp add: length_dropWhile_le)
  moreover have "length t \<le> length s" using 2(1) by (simp add: length_dropWhile_le)
  ultimately show ?case using t by simp
qed simp

declare split_ws.simps [simp del]

lemma split_ws_words: "w \<in> set (split_ws s) \<Longrightarrow> w \<noteq> [] \<and> list_all (\<lambda>c. \<not> is_space c) w"
proof (induction s rule: split_ws.induct)
  case (1 s)
  define t where "t = dropWhile is_space s"
  show ?case
  proof (cases "t = []")
    case True
    with 1(2) show ?thesis by (simp add: split_ws.simps [of s] t_def)
  next
    case False
    then obtain c cs where t: "t = c # cs" by (cases t) auto
    have "\<not> is_space c" using t t_def by (metis hd_dropWhile list.sel(1) list.distinct(1))
    then have "takeWhile (\<lambda>c. \<not> is_space c) t \<noteq> []" "list_all (\<lambda>c. \<not> is_space c) (takeWhile (\<lambda>c. \<not> is_space c) t)"
      using t by (auto simp: list_all_iff dest: set_takeWhileD)
    with 1(1) [OF t_def False] 1(2) False show ?thesis
      by (auto simp: split_ws.simps [of s] t_def [symmetric] Let_def)
  qed
qed

section \<open>Dynamic values\<close>

text \<open>
  The values \<open>json.loads\<close> returns.  A float is its dyadic value
  \<open>m / 2 ^ e\<close>, or \<open>None\<close> when it is not finite.
\<close>

datatype pyval =
    PNone
  | PBool bool
  | PInt int
  | PFloat "(int \<times> nat) option"
  | PStr pystr
  | PList "pyval list"
  | PDict "(pystr \<times> pyval) list"

text \<open>\<open>d.get(key, default)\<close>; duplicate keys keep the last value, as \<open>json\<close> does.\<close>

definition dict_get :: "(pystr \<times> pyval) list \<Rightarrow> pystr \<Rightarrow> pyval \<Rightarrow> pyval" where
  "dict_get d k dflt = (case map_of (rev d) k of None \<Rightarrow> dflt | Some v \<Rightarrow> v)"

text \<open>\<open>value == 1\<close>: \<open>True\<close> and \<open>1.0\<close> are equal to the integer.\<close>

fun py_eq_one :: "pyval \<Rightarrow> bool" where
  "py_eq_one (PInt n) = (n = 1)"
| "py_eq_one (PBool b) = b"
| "py_eq_one (PFloat (Some (m, e))) = (m = 2 ^ e)"
| "py_eq_one _ = False"

text \<open>\<open>tuple(value)\<close>: the elements of a list, the characters of a string, the keys of a dict.\<close>

fun py_tuple :: "pyval \<Rightarrow> pyval list result" where
  "py_tuple (PList vs) = Inr vs"
| "py_tuple (PStr s) = Inr (map (\<lambda>c. PStr [c]) s)"
| "py_tuple (PDict d) = Inr (map PStr (remdups (map fst d)))"
| "py_tuple _ = Inl (TypeError ''object is not iterable'')"

end
