(* ===== verification/Zone.thy ===== *)
theory Zone
  imports Calendar Py_Text
begin

text \<open>
  Time zones as \<open>zoneinfo\<close> implements them: an initial UTC offset and a table of
  transitions (UTC instant, offset from then on), all in microseconds.  UTC instants are on
  the same axis as naive datetimes.  \<open>utc_offset\<close> is the bisection over the UTC
  transition times (\<open>ZoneInfo.fromutc\<close>), \<open>wall_offset\<close> the one over the local
  transition times, one list per \<open>fold\<close> (\<open>ZoneInfo.utcoffset\<close>).

  The zone database is a parameter: \<open>zones name\<close> is the table of that key, or
  \<open>None\<close> where \<open>ZoneInfo(name)\<close> raises \<open>ZoneInfoNotFoundError\<close>.  The locale
  \<open>civil_clock\<close> is what the reminder code relies on of a clock; it is interpreted on
  the tables whose transitions do not overlap (\<open>zone_ok\<close>).
\<close>

record zone =
  z_initial :: int
  z_trans :: "(int \<times> int) list"

type_synonym zone_db = "pystr \<Rightarrow> zone option"

fun offset_at :: "int \<Rightarrow> (int \<times> int) list \<Rightarrow> int \<Rightarrow> int" where
  "offset_at cur [] ts = cur"
| "offset_at cur ((t, off) # r) ts = (if ts < t then cur else offset_at off r ts)"

definition wall_threshold :: "nat \<Rightarrow> int \<Rightarrow> int \<Rightarrow> int \<Rightarrow> int" where
  "wall_threshold fd t before after =
     t + (if fd = 0 then max before after else min before after)"

fun wall_offset_at :: "nat \<Rightarrow> int \<Rightarrow> (int \<times> int) list \<Rightarrow> int \<Rightarrow> int" where
  "wall_offset_at fd cur [] ts = cur"
| "wall_offset_at fd cur ((t, off) # r) ts =
     (if ts < wall_threshold fd t cur off then cur else wall_offset_at fd off r ts)"

definition utc_offset :: "zone \<Rightarrow> int \<Rightarrow> int" where
  "utc_offset z = offset_at (z_initial z) (z_trans z)"

definition wall_offset :: "nat \<Rightarrow> zone \<Rightarrow> int \<Rightarrow> int" where
  "wall_offset fd z = wall_offset_at fd (z_initial z) (z_trans z)"

definition to_local :: "zone \<Rightarrow> int \<Rightarrow> int" where
  "to_local z utc = utc + utc_offset z utc"

text \<open>\<open>aware.astimezone(utc)\<close> and \<open>utc.astimezone(zone).replace(tzinfo=None)\<close>.\<close>

definition astimezone_utc :: "zone \<Rightarrow> nat \<Rightarrow> int \<Rightarrow> int result" where
  "astimezone_utc z fd local = datetime_add local (- wall_offset fd z local)"

definition astimezone_local :: "zone \<Rightarrow> int \<Rightarrow> int result" where
  "astimezone_local z utc = datetime_add utc (utc_offset z utc)"

text \<open>Transitions are increasing and their local windows do not overlap.\<close>

fun trans_ok :: "int \<Rightarrow> (int \<times> int) list \<Rightarrow> bool" where
  "trans_ok cur [] = True"
| "trans_ok cur [(t, off)] = True"
| "trans_ok cur ((t, off) # (t', off') # r) \<longleftrightarrow>
     t < t' \<and> t + max cur off \<le> t' + min off off' \<and> trans_ok off ((t', off') # r)"

definition zone_ok :: "zone \<Rightarrow> bool" where
  "zone_ok z \<longleftrightarrow> trans_ok (z_initial z) (z_trans z)"

lemma local_after_transition:
  assumes "trans_ok cur ((t, off) # r)" and "t \<le> utc"
  shows "t + min cur off \<le> utc + offset_at off r utc"
  using assms
proof (induction r arbitrary: cur t off)
  case (Cons p r)
  obtain t' off' where p: "p = (t', off')" by (cases p)
  show ?case
  proof (cases "utc < t'")
    case False
    with Cons p have "t' + min off off' \<le> utc + offset_at off' r utc" by simp
    moreover have "t + max cur off \<le> t' + min off off'" using Cons.prems(1) p by simp
    moreover have "t + min cur off \<le> t + max cur off" by simp
    ultimately have "t + min cur off \<le> utc + offset_at off' r utc" by linarith
    with p False Cons.prems show ?thesis by simp
  qed (use Cons.prems p in simp)
qed simp

text \<open>Every preimage of a wall time is found through one of the two folds.\<close>

lemma wall_offset_complete:
  assumes "trans_ok cur r" and "utc + offset_at cur r utc = wall"
  shows "utc = wall - wall_offset_at 0 cur r wall \<or> utc = wall - wall_offset_at 1 cur r wall"
  using assms
proof (induction cur r rule: trans_ok.induct)
  case (2 cur t off)
  then show ?case by (auto simp: wall_threshold_def split: if_splits)
next
  case (3 cur t off t' off' r)
  show ?case
  proof (cases "utc < t")
    case True
    with 3 show ?thesis by (simp add: wall_threshold_def)
  next
    case False
    define R where "R f = wall_offset_at f off ((t', off') # r) wall" for f
    have step: "wall_offset_at f cur ((t, off) # (t', off') # r) wall
        = (if wall < wall_threshold f t cur off then cur else R f)" for f
      unfolding R_def by (rule wall_offset_at.simps)
    have IH: "utc = wall - R 0 \<or> utc = wall - R 1"
      using 3 False by (simp add: R_def del: wall_offset_at.simps)
    have ge: "t + min cur off \<le> wall"
      using local_after_transition [OF 3(2), of utc] False 3(3) by simp
    show ?thesis
    proof (cases "wall < t + max cur off")
      case True
      with 3(2) have "wall < t' + min off off'" by simp
      then have "R f = off" for f
        by (auto simp: R_def wall_threshold_def)
      with IH ge show ?thesis unfolding step by (simp add: wall_threshold_def)
    next
      case False
      with IH ge show ?thesis unfolding step by (simp add: wall_threshold_def)
    qed
  qed
qed simp

text \<open>A wall time that is passed and then seen again is ambiguous.\<close>

lemma backward_jump_ambiguous:
  assumes "trans_ok cur r" and "v \<le> w" and "w + offset_at cur r w < v + offset_at cur r v"
  shows "\<exists>x > v. x + offset_at cur r x = v + offset_at cur r v"
  using assms
proof (induction cur r rule: trans_ok.induct)
  case (2 cur t off)
  show ?case
    by (rule exI [of _ "v + offset_at cur [(t, off)] v - off"])
      (use 2 in \<open>auto split: if_splits\<close>)
next
  case (3 cur t off t' off' r)
  show ?case
  proof (cases "v < t")
    case False
    with 3 have "\<exists>x > v. x + offset_at off ((t', off') # r) x = v + offset_at off ((t', off') # r) v"
      by (intro 3(1)) auto
    then obtain x where "v < x"
      "x + offset_at off ((t', off') # r) x = v + offset_at off ((t', off') # r) v" by blast
    with False show ?thesis by (intro exI [of _ x]) simp
  next
    case True
    have w: "t \<le> w" using 3(3,4) True by (auto split: if_splits)
    have "t + min cur off \<le> w + offset_at cur ((t, off) # (t', off') # r) w"
      using local_after_transition [OF 3(2), of w] w by simp
    with 3(4) True have lt: "t + min cur off < v + cur" by simp
    let ?x = "v + cur - off"
    have "off < cur" "t \<le> ?x" using lt True by (auto simp: min_def split: if_splits)
    moreover have "?x < t'" using 3(2) True \<open>off < cur\<close> by auto
    ultimately show ?thesis using True by (intro exI [of _ ?x]) auto
  qed
qed simp

text \<open>
  What the reminder code relies on of a clock: from a wall time, the two folds reach every
  instant that shows it, and an instant after which the clock was set back over its wall
  time is not the only one.
\<close>

locale civil_clock =
  fixes loc :: "int \<Rightarrow> int" and ret :: "nat \<Rightarrow> int \<Rightarrow> int"
  assumes complete: "loc v = wall \<Longrightarrow> v = ret 0 wall \<or> v = ret 1 wall"
    and jump: "v \<le> w \<Longrightarrow> loc w < loc v \<Longrightarrow> \<exists>x. x \<noteq> v \<and> loc x = loc v"
begin

lemma unique_monotone:
  assumes "\<And>x. loc x = wall \<Longrightarrow> x = v" and "loc v = wall" and "loc w < wall"
  shows "w < v"
proof (rule ccontr)
  assume "\<not> w < v"
  then obtain x where "x \<noteq> v" "loc x = loc v" using jump [of v w] assms(2,3)
    by (metis linorder_not_less)
  with assms(1,2) show False by metis
qed

lemma preimages: "{v. loc v = wall} \<subseteq> {ret 0 wall, ret 1 wall}"
proof
  fix v assume "v \<in> {v. loc v = wall}"
  then show "v \<in> {ret 0 wall, ret 1 wall}" using complete [of v wall] by blast
qed

lemma at_most_two: "card {v. loc v = wall} \<le> 2"
proof -
  have "card {v. loc v = wall} \<le> card {ret 0 wall, ret 1 wall}"
    using preimages by (intro card_mono) blast+
  also have "\<dots> \<le> 2" by (simp add: card_insert_if)
  finally show ?thesis .
qed

lemma single_preimage:
  assumes "loc v = wall" and "\<And>f. f \<in> {0, 1} \<Longrightarrow> loc (ret f wall) = wall \<Longrightarrow> ret f wall = v"
  shows "{x. loc x = wall} = {v}"
proof -
  have "x = v" if "loc x = wall" for x
    using complete [OF that] assms(2) [of 0] assms(2) [of 1] that by blast
  with assms(1) show ?thesis by blast
qed

end

definition fold_back :: "zone \<Rightarrow> nat \<Rightarrow> int \<Rightarrow> int" where
  "fold_back z f wall = wall - wall_offset f z wall"

text \<open>A table with disjoint transition windows, as the guarded function of the zone.\<close>

definition ok_zone :: "zone \<Rightarrow> zone" where
  "ok_zone z = (if zone_ok z then z else z\<lparr>z_trans := []\<rparr>)"

lemma zone_ok_ok_zone: "zone_ok (ok_zone z)"
  by (simp add: ok_zone_def zone_ok_def)

interpretation clk: civil_clock "to_local (ok_zone z)" "fold_back (ok_zone z)" for z
proof
  have ok: "trans_ok (z_initial (ok_zone z)) (z_trans (ok_zone z))"
    using zone_ok_ok_zone by (simp add: zone_ok_def)
  show "v = fold_back (ok_zone z) 0 wall \<or> v = fold_back (ok_zone z) 1 wall"
    if "to_local (ok_zone z) v = wall" for v wall
    using wall_offset_complete [OF ok, of v wall] that
    by (simp add: to_local_def utc_offset_def fold_back_def wall_offset_def)
  show "\<exists>x. x \<noteq> v \<and> to_local (ok_zone z) x = to_local (ok_zone z) v"
    if "v \<le> w" "to_local (ok_zone z) w < to_local (ok_zone z) v" for v w
    using backward_jump_ambiguous [OF ok, of v w] that
    by (auto simp: to_local_def utc_offset_def)
qed

lemma ok_zone_id: "zone_ok z \<Longrightarrow> ok_zone z = z"
  by (simp add: ok_zone_def)

end
