(* ===== verification/Reminder_Schedule.thy ===== *)
theory Reminder_Schedule
  imports Zone
begin

text \<open>
  The schedule arithmetic of \<open>reminder_schedule.py\<close>: validated recurrence rules and their
  JSON form, the resolution of a wall time to an instant, the next occurrence of a rule, and
  the end of the quiet hours.

  The public functions take datetimes with or without time zone and check them with
  \<open>_require_naive\<close>; behind the check a wall time is an \<open>int\<close> (microseconds on the
  naive axis of \<open>Calendar\<close>), an instant an \<open>int\<close> on the UTC axis.
\<close>

fun require_naive :: "py_datetime \<Rightarrow> int result" where
  "require_naive (Naive t) = Inr t"
| "require_naive (Aware _) = Inl (ValueError ''local wall time must be a naive datetime'')"

section \<open>Rules\<close>

datatype schedule_kind = ONCE | DAILY | WEEKLY | MONTHLY

record recurrence_rule =
  r_kind :: schedule_kind
  r_interval :: int
  r_weekdays :: "int list"
  r_monthday :: "int option"
  r_count :: "int option"
  r_until :: "int option"

fun kind_value :: "schedule_kind \<Rightarrow> pystr" where
  "kind_value ONCE = u ''once''"
| "kind_value DAILY = u ''daily''"
| "kind_value WEEKLY = u ''weekly''"
| "kind_value MONTHLY = u ''monthly''"

definition all_kinds :: "schedule_kind list" where
  "all_kinds = [ONCE, DAILY, WEEKLY, MONTHLY]"

text \<open>\<open>ScheduleKind(value)\<close>: the member with that string as its value.\<close>

definition kind_of_value :: "pyval \<Rightarrow> schedule_kind option" where
  "kind_of_value v = find (\<lambda>k. PStr (kind_value k) = v) all_kinds"

fun int_between :: "int \<Rightarrow> int \<Rightarrow> pyval \<Rightarrow> int option" where
  "int_between lo hi (PInt n) = (if n < lo \<or> hi < n then None else Some n)"
| "int_between lo hi _ = None"

fun opt_int_between :: "int \<Rightarrow> int \<Rightarrow> pyval \<Rightarrow> int option option" where
  "opt_int_between lo hi PNone = Some None"
| "opt_int_between lo hi v = map_option Some (int_between lo hi v)"

fun all_some :: "'a option list \<Rightarrow> 'a list option" where
  "all_some [] = Some []"
| "all_some (x # xs) =
     (case (x, all_some xs) of (Some a, Some as) \<Rightarrow> Some (a # as) | _ \<Rightarrow> None)"

text \<open>The shape checks per kind, the last part of \<open>RecurrenceRule.__post_init__\<close>.\<close>

definition check_shape :: "recurrence_rule \<Rightarrow> recurrence_rule result" where
  "check_shape r =
    (if r_kind r = ONCE \<and> (r_interval r \<noteq> 1 \<or> r_weekdays r \<noteq> [] \<or> r_monthday r \<noteq> None
          \<or> r_count r \<noteq> None \<or> r_until r \<noteq> None)
      then Inl (ValueError ''once schedule cannot contain recurrence fields'')
    else if r_kind r = DAILY \<and> (r_weekdays r \<noteq> [] \<or> r_monthday r \<noteq> None)
      then Inl (ValueError ''daily recurrence shape is invalid'')
    else if r_kind r = WEEKLY \<and> r_monthday r \<noteq> None
      then Inl (ValueError ''weekly recurrence shape is invalid'')
    else if r_kind r = MONTHLY \<and> r_weekdays r \<noteq> []
      then Inl (ValueError ''monthly recurrence shape is invalid'')
    else Inr r)"

text \<open>
  \<open>RecurrenceRule.__post_init__\<close>: the checks in the order of the source, on
  dynamically typed arguments (\<open>weekdays\<close> is already a tuple or a list of values).
\<close>

definition make_rule ::
    "pyval \<Rightarrow> pyval \<Rightarrow> pyval list \<Rightarrow> pyval \<Rightarrow> pyval \<Rightarrow> py_datetime option
     \<Rightarrow> recurrence_rule result" where
  "make_rule kind interval weekdays monthday count until_local =
    bindE (of_option (ValueError ''schedule kind is invalid'') (kind_of_value kind)) (\<lambda>k.
    bindE (of_option (ValueError ''recurrence interval is invalid'') (int_between 1 365 interval))
      (\<lambda>i.
    bindE (of_option (ValueError ''recurrence weekdays are invalid'')
        (all_some (map (int_between 0 6) weekdays))) (\<lambda>days.
    bindE (of_option (ValueError ''recurrence monthday is invalid'')
        (opt_int_between 1 31 monthday)) (\<lambda>md.
    bindE (of_option (ValueError ''recurrence count is invalid'')
        (opt_int_between 1 10000 count)) (\<lambda>c.
    bindE (case until_local of None \<Rightarrow> Inr None
           | Some dt \<Rightarrow> bindE (require_naive dt) (\<lambda>t. Inr (Some t))) (\<lambda>until.
      check_shape \<lparr>r_kind = k, r_interval = i, r_weekdays = sorted_list_of_set (set days),
        r_monthday = md, r_count = c, r_until = until\<rparr>))))))"

text \<open>The invariant every constructed rule has.\<close>

definition rule_ok :: "recurrence_rule \<Rightarrow> bool" where
  "rule_ok r \<longleftrightarrow> 1 \<le> r_interval r \<and> r_interval r \<le> 365
    \<and> sorted (r_weekdays r) \<and> distinct (r_weekdays r) \<and> (\<forall>d \<in> set (r_weekdays r). 0 \<le> d \<and> d \<le> 6)
    \<and> (\<forall>m. r_monthday r = Some m \<longrightarrow> 1 \<le> m \<and> m \<le> 31)
    \<and> (\<forall>c. r_count r = Some c \<longrightarrow> 1 \<le> c \<and> c \<le> 10000)
    \<and> (r_kind r = ONCE \<longrightarrow> r_interval r = 1 \<and> r_weekdays r = [] \<and> r_monthday r = None
         \<and> r_count r = None \<and> r_until r = None)
    \<and> (r_kind r = DAILY \<longrightarrow> r_weekdays r = [] \<and> r_monthday r = None)
    \<and> (r_kind r = WEEKLY \<longrightarrow> r_monthday r = None)
    \<and> (r_kind r = MONTHLY \<longrightarrow> r_weekdays r = [])"

text \<open>
  \<open>to_json\<close>, as the value that is dumped (keys sorted), and \<open>from_json\<close>, on the value
  \<open>json.loads\<close> returned (\<open>None\<close> when it raised).  \<open>isoformat\<close> and \<open>fromisoformat\<close>
  are the two directions of Python's ISO text for naive datetimes.
\<close>

definition opt_pyint :: "int option \<Rightarrow> pyval" where
  "opt_pyint x = (case x of None \<Rightarrow> PNone | Some n \<Rightarrow> PInt n)"

definition rule_to_json :: "(int \<Rightarrow> pystr) \<Rightarrow> recurrence_rule \<Rightarrow> pyval" where
  "rule_to_json isoformat r = PDict
    [(u ''count'', opt_pyint (r_count r)),
     (u ''interval'', PInt (r_interval r)),
     (u ''kind'', PStr (kind_value (r_kind r))),
     (u ''monthday'', opt_pyint (r_monthday r)),
     (u ''until_local'', (case r_until r of None \<Rightarrow> PNone | Some t \<Rightarrow> PStr (isoformat t))),
     (u ''version'', PInt 1),
     (u ''weekdays'', PList (map PInt (r_weekdays r)))]"

text \<open>\<open>fromisoformat text\<close> is \<open>None\<close> where Python raises \<open>ValueError\<close>.\<close>

definition parse_until :: "(pystr \<Rightarrow> py_datetime option) \<Rightarrow> pyval \<Rightarrow> py_datetime option result" where
  "parse_until fromisoformat v =
    (case v of
       PNone \<Rightarrow> Inr None
     | PStr text \<Rightarrow>
        (case fromisoformat text of
           None \<Rightarrow> Inl (ValueError ''recurrence until_local is invalid'')
         | Some dt \<Rightarrow> Inr (Some dt))
     | _ \<Rightarrow> Inl (ValueError ''recurrence until_local is invalid''))"

definition rule_from_json ::
    "(pystr \<Rightarrow> py_datetime option) \<Rightarrow> pyval option \<Rightarrow> recurrence_rule result" where
  "rule_from_json fromisoformat loaded =
    (case loaded of
       None \<Rightarrow> Inl (ValueError ''recurrence rule JSON is invalid'')
     | Some (PDict data) \<Rightarrow>
        if \<not> py_eq_one (dict_get data (u ''version'') PNone)
        then Inl (ValueError ''recurrence rule version is invalid'')
        else
          bindE (parse_until fromisoformat (dict_get data (u ''until_local'') PNone)) (\<lambda>until.
          bindE (py_tuple (dict_get data (u ''weekdays'') (PList []))) (\<lambda>weekdays.
            make_rule (dict_get data (u ''kind'') PNone) (dict_get data (u ''interval'') (PInt 1))
              weekdays (dict_get data (u ''monthday'') PNone)
              (dict_get data (u ''count'') PNone) until))
     | Some _ \<Rightarrow> Inl (ValueError ''recurrence rule version is invalid''))"

section \<open>Wall times to instants\<close>

definition load_zone :: "zone_db \<Rightarrow> pystr \<Rightarrow> zone result" where
  "load_zone zones name =
    (if is_blank name then Inl (ValueError ''timezone name cannot be empty'')
     else case zones (strip name) of
            None \<Rightarrow> Inl (ValueError ''timezone name is unknown'')
          | Some z \<Rightarrow> Inr z)"

text \<open>One round of the loop over \<open>fold\<close>: the candidate instant, when it round-trips.\<close>

definition fold_candidate :: "zone \<Rightarrow> int \<Rightarrow> nat \<Rightarrow> int list result" where
  "fold_candidate z wall fd =
    bindE (astimezone_utc z fd wall) (\<lambda>utc.
    bindE (astimezone_local z utc) (\<lambda>round_trip.
      Inr (if round_trip = wall then [utc] else [])))"

definition resolve_in_zone :: "zone \<Rightarrow> int \<Rightarrow> int result" where
  "resolve_in_zone z wall =
    bindE (fold_candidate z wall 0) (\<lambda>c0.
    bindE (fold_candidate z wall 1) (\<lambda>c1.
      case remdups (c0 @ c1) of
        [] \<Rightarrow> Inl (LocalTimeResolutionError ''nonexistent'')
      | [utc] \<Rightarrow> Inr utc
      | _ \<Rightarrow> Inl (LocalTimeResolutionError ''ambiguous'')))"

definition resolve_local_time :: "zone_db \<Rightarrow> py_datetime \<Rightarrow> pystr \<Rightarrow> int result" where
  "resolve_local_time zones local_time timezone_name =
    bindE (require_naive local_time) (\<lambda>wall.
    bindE (load_zone zones timezone_name) (\<lambda>z. resolve_in_zone z wall))"

section \<open>The next occurrence\<close>

text \<open>The body and loop of \<open>_next_weekly\<close>: day offsets \<open>off\<close>, \<open>off + 1\<close>, .. (\<open>n\<close> of them).\<close>

fun weekly_search :: "int \<Rightarrow> int list \<Rightarrow> int \<Rightarrow> int \<Rightarrow> int \<Rightarrow> int \<Rightarrow> nat \<Rightarrow> int result" where
  "weekly_search interval weekdays anchor_week anchor_time after_date off 0 =
     Inl (ValueError ''weekly recurrence exceeds bounded search'')"
| "weekly_search interval weekdays anchor_week anchor_time after_date off (Suc n) =
     bindE (date_add after_date off) (\<lambda>candidate_date.
       let week_number = (candidate_date - anchor_week) div 7 in
       if week_number < 0 \<or> week_number mod interval \<noteq> 0
         then weekly_search interval weekdays anchor_week anchor_time after_date (off + 1) n
       else if weekday candidate_date \<notin> set weekdays
         then weekly_search interval weekdays anchor_week anchor_time after_date (off + 1) n
       else Inr (combine candidate_date anchor_time))"

definition next_weekly :: "recurrence_rule \<Rightarrow> int \<Rightarrow> int \<Rightarrow> int result" where
  "next_weekly rule anchor after =
    (let weekdays = (if r_weekdays rule = [] then [dt_weekday anchor] else r_weekdays rule) in
     bindE (date_add (date_part anchor) (- dt_weekday anchor)) (\<lambda>anchor_week.
       weekly_search (r_interval rule) weekdays anchor_week (time_part anchor)
         (date_part after) 1 3660))"

definition add_months :: "int \<Rightarrow> int \<Rightarrow> int \<Rightarrow> int \<times> int" where
  "add_months year month amount =
    (let absolute = year * 12 + month - 1 + amount in (absolute div 12, absolute mod 12 + 1))"

fun monthly_search :: "int \<Rightarrow> int \<Rightarrow> date \<Rightarrow> int \<Rightarrow> int \<Rightarrow> nat \<Rightarrow> int result" where
  "monthly_search interval monthday anchor anchor_time step 0 =
     Inl (ValueError ''monthly recurrence exceeds bounded search'')"
| "monthly_search interval monthday anchor anchor_time step (Suc n) =
     (case add_months (d_year anchor) (d_month anchor) step of (year, month) \<Rightarrow>
       (case make_date year month monthday of
          Inl _ \<Rightarrow> monthly_search interval monthday anchor anchor_time (step + interval) n
        | Inr candidate_date \<Rightarrow> Inr (combine candidate_date anchor_time)))"

definition elapsed_months :: "date \<Rightarrow> date \<Rightarrow> int" where
  "elapsed_months a b = (d_year b - d_year a) * 12 + d_month b - d_month a"

definition next_monthly :: "recurrence_rule \<Rightarrow> int \<Rightarrow> int \<Rightarrow> int result" where
  "next_monthly rule anchor after =
    (let a = fromordinal (date_part anchor);
         monthday = (case r_monthday rule of Some d \<Rightarrow> d | None \<Rightarrow> d_day a);
         elapsed = elapsed_months a (fromordinal (date_part after));
         step = (elapsed div r_interval rule + 1) * r_interval rule
     in monthly_search (r_interval rule) monthday a (time_part anchor) step 1200)"

definition next_candidate :: "recurrence_rule \<Rightarrow> int \<Rightarrow> int \<Rightarrow> int option result" where
  "next_candidate rule anchor after =
    (case r_kind rule of
       ONCE \<Rightarrow> Inr None
     | DAILY \<Rightarrow> bindE (datetime_add after (r_interval rule * 86400000000)) (\<lambda>c. Inr (Some c))
     | WEEKLY \<Rightarrow> bindE (next_weekly rule anchor after) (\<lambda>c. Inr (Some c))
     | MONTHLY \<Rightarrow> bindE (next_monthly rule anchor after) (\<lambda>c. Inr (Some c)))"

text \<open>\<open>next_occurrence\<close> on wall times, and with the checks of its datetime arguments.\<close>

definition next_wall :: "recurrence_rule \<Rightarrow> int \<Rightarrow> int option \<Rightarrow> int \<Rightarrow> int option result" where
  "next_wall rule anchor after emitted =
    (if (case after of None \<Rightarrow> False | Some a \<Rightarrow> a < anchor)
       then Inl (ValueError ''recurrence cursor precedes anchor'')
     else if emitted < 0 then Inl (ValueError ''recurrence emitted count is invalid'')
     else if (case r_count rule of None \<Rightarrow> False | Some c \<Rightarrow> c \<le> emitted) then Inr None
     else
       bindE (case after of None \<Rightarrow> Inr (Some anchor) | Some a \<Rightarrow> next_candidate rule anchor a)
       (\<lambda>candidate.
         case candidate of
           None \<Rightarrow> Inr None
         | Some c \<Rightarrow>
            if (case r_until rule of None \<Rightarrow> False | Some limit \<Rightarrow> limit < c) then Inr None
            else Inr (Some c)))"

definition next_occurrence ::
    "recurrence_rule \<Rightarrow> py_datetime \<Rightarrow> py_datetime option \<Rightarrow> int \<Rightarrow> int option result" where
  "next_occurrence rule anchor_local after_local emitted_count =
    bindE (require_naive anchor_local) (\<lambda>anchor.
    bindE (case after_local of None \<Rightarrow> Inr None
           | Some dt \<Rightarrow> bindE (require_naive dt) (\<lambda>a. Inr (Some a))) (\<lambda>after.
      next_wall rule anchor after emitted_count))"

section \<open>Quiet hours\<close>

definition minute_invalid :: "int option \<Rightarrow> bool" where
  "minute_invalid m = (case m of None \<Rightarrow> True | Some v \<Rightarrow> v < 0 \<or> 1440 \<le> v)"

definition validate_quiet_hours :: "int option \<Rightarrow> int option \<Rightarrow> (int \<times> int) result" where
  "validate_quiet_hours start end_m =
    (case (start, end_m) of
       (Some s, Some e) \<Rightarrow>
         if minute_invalid (Some s) \<or> minute_invalid (Some e)
           then Inl (ValueError ''quiet hours minute is invalid'')
         else if s = e then Inl (ValueError ''quiet hours range cannot be empty'')
         else Inr (s, e)
     | _ \<Rightarrow> Inl (ValueError ''quiet hours minute is invalid''))"

definition in_quiet_hours :: "int \<Rightarrow> int \<Rightarrow> int \<Rightarrow> bool" where
  "in_quiet_hours start end_m minute =
    (if start < end_m then start \<le> minute \<and> minute < end_m
     else start \<le> minute \<or> minute < end_m)"

definition quiet_hours_available_at ::
    "zone_db \<Rightarrow> py_datetime \<Rightarrow> pystr \<Rightarrow> int option \<Rightarrow> int option \<Rightarrow> bool \<Rightarrow> int result" where
  "quiet_hours_available_at zones scheduled_for timezone_name start_minute end_minute urgent =
    (case scheduled_for of
       Naive _ \<Rightarrow> Inl (ValueError ''scheduled time must be timezone-aware'')
     | Aware utc \<Rightarrow>
        bindE (load_zone zones timezone_name) (\<lambda>z.
          if start_minute = None \<and> end_minute = None then Inr utc
          else bindE (validate_quiet_hours start_minute end_minute) (\<lambda>(s, e).
            if urgent then Inr utc
            else bindE (astimezone_local z utc) (\<lambda>wall.
              let minute = minute_of_day wall in
              if \<not> in_quiet_hours s e minute then Inr utc
              else bindE (if s < e \<or> minute < s then Inr (date_part wall)
                          else date_add (date_part wall) 1) (\<lambda>target_date.
                resolve_local_time zones (Naive (combine target_date (e * 60000000)))
                  timezone_name)))))"

section \<open>Specifications\<close>

text \<open>Monday of the week of a day, and the days a weekly rule falls on.\<close>

definition monday_of :: "int \<Rightarrow> int" where
  "monday_of d = d - weekday d"

definition weekly_due :: "recurrence_rule \<Rightarrow> int \<Rightarrow> int \<Rightarrow> bool" where
  "weekly_due rule anchor d \<longleftrightarrow>
     (let weeks = (monday_of d - monday_of (date_part anchor)) div 7 in
      0 \<le> weeks \<and> weeks mod r_interval rule = 0
      \<and> (if r_weekdays rule = [] then weekday d = dt_weekday anchor
         else weekday d \<in> set (r_weekdays rule)))"

text \<open>The dates a monthly rule falls on: its day of the month, every \<open>interval\<close> months.\<close>

definition monthly_day :: "recurrence_rule \<Rightarrow> int \<Rightarrow> int" where
  "monthly_day rule anchor =
     (case r_monthday rule of Some d \<Rightarrow> d | None \<Rightarrow> d_day (fromordinal (date_part anchor)))"

definition monthly_due :: "recurrence_rule \<Rightarrow> int \<Rightarrow> date \<Rightarrow> bool" where
  "monthly_due rule anchor d \<longleftrightarrow>
     valid_date d \<and> d_day d = monthly_day rule anchor
     \<and> elapsed_months (fromordinal (date_part anchor)) d mod r_interval rule = 0"

section \<open>Lemmas on rules\<close>

lemma all_some_length: "all_some xs = Some ys \<Longrightarrow> length ys = length xs"
  by (induction xs arbitrary: ys) (auto split: option.splits)

lemma all_some_set: "all_some (map f xs) = Some ys \<Longrightarrow> y \<in> set ys \<Longrightarrow> \<exists>x \<in> set xs. f x = Some y"
  by (induction xs arbitrary: ys) (auto split: option.splits)

lemma all_some_map_Some [simp]: "all_some (map (\<lambda>x. Some (f x)) xs) = Some (map f xs)"
  by (induction xs) auto

lemma int_between_Some: "int_between lo hi v = Some n \<longleftrightarrow> v = PInt n \<and> lo \<le> n \<and> n \<le> hi"
  by (cases v) auto

lemma opt_int_between_Some:
  "opt_int_between lo hi v = Some m \<longleftrightarrow>
     (v = PNone \<and> m = None) \<or> (\<exists>n. v = PInt n \<and> m = Some n \<and> lo \<le> n \<and> n \<le> hi)"
  by (cases v) (auto simp: int_between_Some)

lemma opt_int_between_opt_pyint:
  "(\<And>n. m = Some n \<Longrightarrow> lo \<le> n \<and> n \<le> hi) \<Longrightarrow> opt_int_between lo hi (opt_pyint m) = Some m"
  by (cases m) (auto simp: opt_pyint_def)

lemma kind_of_value_kind [simp]: "kind_of_value (PStr (kind_value k)) = Some k"
  by (cases k) (simp_all add: kind_of_value_def all_kinds_def u_def)

lemma sorted_list_of_set_sorted:
  "sorted xs \<Longrightarrow> distinct xs \<Longrightarrow> sorted_list_of_set (set xs) = (xs :: int list)"
  by (simp add: sorted_list_of_set.idem_if_sorted_distinct)

lemma make_rule_rule_ok:
  assumes "make_rule kind interval weekdays monthday count until_local = Inr r"
  shows "rule_ok r"
proof -
  have wd: "0 \<le> d \<and> d \<le> 6" if "all_some (map (int_between 0 6) weekdays) = Some days" "d \<in> set days"
    for days d
    using all_some_set [OF that] by (auto simp: int_between_Some)
  obtain k i days md c until where parts: "int_between 1 365 interval = Some i"
      "all_some (map (int_between 0 6) weekdays) = Some days"
      "opt_int_between 1 31 monthday = Some md" "opt_int_between 1 10000 count = Some c"
      and shape: "check_shape \<lparr>r_kind = k, r_interval = i,
        r_weekdays = sorted_list_of_set (set days), r_monthday = md, r_count = c,
        r_until = until\<rparr> = Inr r"
    using assms unfolding make_rule_def
    by (simp only: result_simps) blast
  have "1 \<le> i" "i \<le> 365" using parts(1) by (auto simp: int_between_Some)
  moreover have "\<forall>m. md = Some m \<longrightarrow> 1 \<le> m \<and> m \<le> 31" "\<forall>n. c = Some n \<longrightarrow> 1 \<le> n \<and> n \<le> 10000"
    using parts(3,4) by (auto simp: opt_int_between_Some)
  moreover have "\<forall>d \<in> set (sorted_list_of_set (set days)). 0 \<le> d \<and> d \<le> 6"
    using wd [OF parts(2)] by simp
  ultimately show ?thesis using shape
    by (cases k) (auto simp: rule_ok_def check_shape_def split: if_splits)
qed

lemma make_rule_eq:
  assumes "rule_ok r"
  shows "make_rule (PStr (kind_value (r_kind r))) (PInt (r_interval r))
      (map PInt (r_weekdays r)) (opt_pyint (r_monthday r)) (opt_pyint (r_count r))
      (map_option Naive (r_until r)) = Inr r"
proof -
  have wd: "all_some (map (int_between 0 6) (map PInt (r_weekdays r))) = Some (r_weekdays r)"
  proof -
    have "map (int_between 0 6) (map PInt (r_weekdays r)) = map (\<lambda>x. Some (id x)) (r_weekdays r)"
      using assms by (auto simp: rule_ok_def)
    then show ?thesis by (simp only: all_some_map_Some) simp
  qed
  have md: "opt_int_between 1 31 (opt_pyint (r_monthday r)) = Some (r_monthday r)"
    and c: "opt_int_between 1 10000 (opt_pyint (r_count r)) = Some (r_count r)"
    using assms by (auto simp: rule_ok_def intro!: opt_int_between_opt_pyint)
  have sorted: "sorted_list_of_set (set (r_weekdays r)) = r_weekdays r"
    using assms by (simp add: rule_ok_def sorted_list_of_set_sorted)
  have until: "(case map_option Naive (r_until r) of None \<Rightarrow> Inr None
      | Some dt \<Rightarrow> bindE (require_naive dt) (\<lambda>t. Inr (Some t))) = Inr (r_until r)"
    by (cases "r_until r") simp_all
  from assms show ?thesis
    unfolding make_rule_def kind_of_value_kind wd md c until bindE_simps of_option_simps
    by (cases r) (auto simp: rule_ok_def check_shape_def sorted_list_of_set_sorted)
qed

section \<open>Lemmas on the weekly search\<close>

lemma weekly_search_Inr:
  assumes "weekly_search i wd aw at ad off n = Inr c"
  shows "\<exists>k. off \<le> k \<and> k < off + int n \<and> c = combine (ad + k) at
    \<and> 0 \<le> (ad + k - aw) div 7 \<and> (ad + k - aw) div 7 mod i = 0 \<and> weekday (ad + k) \<in> set wd
    \<and> (\<forall>j. off \<le> j \<longrightarrow> j < k \<longrightarrow> \<not> (0 \<le> (ad + j - aw) div 7
          \<and> (ad + j - aw) div 7 mod i = 0 \<and> weekday (ad + j) \<in> set wd))"
  using assms
proof (induction n arbitrary: off)
  case (Suc n)
  define good where "good j \<longleftrightarrow> 0 \<le> (ad + j - aw) div 7
      \<and> (ad + j - aw) div 7 mod i = 0 \<and> weekday (ad + j) \<in> set wd" for j
  from Suc.prems have step: "if good off then Inr (combine (ad + off) at) = (Inr c :: int result)
      else weekly_search i wd aw at ad (off + 1) n = Inr c"
    by (auto simp: date_add_def good_def result_simps Let_def split: if_splits)
  show ?case
  proof (cases "good off")
    case True
    with step show ?thesis by (intro exI [of _ off]) (auto simp: good_def)
  next
    case False
    with step Suc.IH [of "off + 1"] obtain k where k: "off + 1 \<le> k" "k < off + 1 + int n"
      "c = combine (ad + k) at" "good k" "\<forall>j. off + 1 \<le> j \<longrightarrow> j < k \<longrightarrow> \<not> good j"
      unfolding good_def by metis
    have "\<not> good j" if "off \<le> j" "j < k" for j
      using k(5) False that by (cases "j = off") auto
    with k show ?thesis by (intro exI [of _ k]) (auto simp: good_def)
  qed
qed simp

lemma weekly_search_Inl:
  assumes "weekly_search i wd aw at ad off n = Inl (ValueError m)"
    and "off \<le> k" and "k < off + int n"
  shows "\<not> (0 \<le> (ad + k - aw) div 7 \<and> (ad + k - aw) div 7 mod i = 0 \<and> weekday (ad + k) \<in> set wd)"
  using assms
proof (induction n arbitrary: off)
  case (Suc n)
  show ?case
  proof (cases "k = off")
    case True
    with Suc.prems(1) show ?thesis
      by (auto simp: date_add_def result_simps Let_def split: if_splits)
  next
    case False
    from Suc.prems(1) have "weekly_search i wd aw at ad (off + 1) n = Inl (ValueError m)"
      by (auto simp: date_add_def result_simps Let_def split: if_splits)
    from Suc.IH [OF this] Suc.prems False show ?thesis by auto
  qed
qed simp

lemma weekly_search_error:
  "weekly_search i wd aw at ad off n = Inl e \<Longrightarrow>
     (\<exists>m. e = ValueError m) \<or> (\<exists>m. e = OverflowError m)"
  by (induction n arbitrary: off) (auto simp: date_add_def result_simps Let_def split: if_splits)

text \<open>A due day exists within seven times the interval, plus one week.\<close>

lemma weekly_due_exists:
  assumes i: "1 \<le> i" "i \<le> 365" and aw: "weekday aw = 0" "aw \<le> ad"
    and w: "w \<in> set wd" "0 \<le> w" "w \<le> 6"
  shows "\<exists>k. 1 \<le> k \<and> k \<le> 2561 \<and> 0 \<le> (ad + k - aw) div 7
    \<and> (ad + k - aw) div 7 mod i = 0 \<and> weekday (ad + k) \<in> set wd"
proof -
  define q r where "q = (ad - aw) div 7" and "r = (ad - aw) mod 7"
  define m where "m = q mod i"
  define W where "W = q div i * i + i"
  define k where "k = 7 * (W - q) + w - r"
  have q: "0 \<le> q" using aw by (simp add: q_def pos_imp_zdiv_nonneg_iff)
  have ad: "ad = aw + 7 * q + r" by (simp add: q_def r_def)
  have r: "0 \<le> r" "r < 7" by (simp_all add: r_def)
  have qi: "q = i * (q div i) + m" by (simp add: m_def)
  have qm: "0 \<le> m" "m < i" using i by (simp_all add: m_def)
  have Wq: "W - q = i - m" using qi by (simp add: W_def algebra_simps)
  have W: "0 \<le> W" using Wq qm q by simp
  have "1 \<le> k" unfolding k_def using Wq qm i r w by arith
  have "k \<le> 2561" unfolding k_def using Wq qm i r w by arith
  have e: "ad + k - aw = 7 * W + w" by (simp add: ad k_def algebra_simps)
  then have "(ad + k - aw) div 7 = W" using w by simp
  moreover have "W mod i = 0" by (simp add: W_def)
  moreover have "weekday (ad + k) = w"
  proof -
    obtain t where t: "aw + 6 = 7 * t" using aw(1) by (auto simp: weekday_def)
    have f: "ad + k + 6 = 7 * (W + t) + w" using e t by simp
    show ?thesis unfolding weekday_def by (rule int_mod_pos_eq [OF f]) (use w in auto)
  qed
  ultimately show ?thesis using W \<open>1 \<le> k\<close> \<open>k \<le> 2561\<close> w by (intro exI [of _ k]) auto
qed

lemma weekday_eq: "weekday d = d + 6 - 7 * ((d + 6) div 7)"
  unfolding weekday_def by (rule minus_mult_div_eq_mod [symmetric])

lemma monday_of_eq: "monday_of d = 7 * ((d + 6) div 7) - 6"
  unfolding monday_of_def weekday_eq by linarith

lemma weekday_monday_of [simp]: "weekday (monday_of d) = 0"
  unfolding monday_of_eq by (simp add: weekday_def)

lemma monday_of_pos: "1 \<le> d \<Longrightarrow> 1 \<le> monday_of d"
  unfolding monday_of_eq by simp

text \<open>The code's week number is the number of weeks between the two Mondays.\<close>

lemma week_number_eq: "(d - monday_of a) div 7 = (monday_of d - monday_of a) div 7"
proof -
  define p q where "p = (d + 6) div 7" and "q = (a + 6) div 7"
  have d: "d - monday_of a = 7 * (p - q) + weekday d"
    by (simp add: weekday_eq monday_of_eq p_def q_def)
  have "monday_of d - monday_of a = 7 * (p - q)"
    by (simp add: monday_of_eq p_def q_def)
  moreover have "(d - monday_of a) div 7 = p - q"
    by (rule int_div_pos_eq [OF d]) (use weekday_bounds [of d] in auto)
  ultimately show ?thesis by simp
qed

lemma weekly_due_iff:
  "weekly_due rule anchor d \<longleftrightarrow>
     0 \<le> (d - monday_of (date_part anchor)) div 7
     \<and> (d - monday_of (date_part anchor)) div 7 mod r_interval rule = 0
     \<and> weekday d \<in> set (if r_weekdays rule = [] then [dt_weekday anchor] else r_weekdays rule)"
  unfolding weekly_due_def Let_def week_number_eq [symmetric] by simp

lemma next_weekly_eq:
  assumes "valid_datetime anchor"
  shows "next_weekly rule anchor after =
    weekly_search (r_interval rule)
      (if r_weekdays rule = [] then [dt_weekday anchor] else r_weekdays rule)
      (monday_of (date_part anchor)) (time_part anchor) (date_part after) 1 3660"
proof -
  have d: "1 \<le> date_part anchor" "date_part anchor \<le> 3652059"
    using assms by (simp_all add: valid_datetime_date_part)
  have "1 \<le> monday_of (date_part anchor)" using d(1) by (rule monday_of_pos)
  moreover have "monday_of (date_part anchor) \<le> 3652059"
    using d(2) weekday_bounds [of "date_part anchor"] by (simp add: monday_of_def)
  moreover have "date_part anchor + - dt_weekday anchor = monday_of (date_part anchor)"
    by (simp add: dt_weekday_def monday_of_def)
  ultimately show ?thesis
    unfolding next_weekly_def Let_def date_add_def by simp
qed

section \<open>Lemmas on the monthly search\<close>

definition month_step :: "int \<Rightarrow> date \<Rightarrow> int \<Rightarrow> date" where
  "month_step monthday anchor step =
     (case add_months (d_year anchor) (d_month anchor) step of (y, m) \<Rightarrow> Date y m monthday)"

lemma elapsed_month_step:
  assumes "1 \<le> d_month a" and "d_month a \<le> 12"
  shows "elapsed_months a (month_step md a k) = k"
    and "d_day (month_step md a k) = md"
    and "1 \<le> d_month (month_step md a k) \<and> d_month (month_step md a k) \<le> 12"
  using mult_div_mod_eq [of 12 "d_year a * 12 + d_month a - 1 + k"]
  by (auto simp: elapsed_months_def month_step_def add_months_def Let_def algebra_simps)

lemma month_step_elapsed:
  assumes "1 \<le> d_month a" "d_month a \<le> 12" "1 \<le> d_month d" "d_month d \<le> 12"
  shows "month_step (d_day d) a (elapsed_months a d) = d"
proof -
  have e: "d_year a * 12 + d_month a - 1 + elapsed_months a d = 12 * d_year d + (d_month d - 1)"
    by (simp add: elapsed_months_def)
  have "(d_year a * 12 + d_month a - 1 + elapsed_months a d) div 12 = d_year d"
    by (rule int_div_pos_eq [OF e]) (use assms in auto)
  moreover have "(d_year a * 12 + d_month a - 1 + elapsed_months a d) mod 12 = d_month d - 1"
    by (rule int_mod_pos_eq [OF e]) (use assms in auto)
  ultimately show ?thesis
    by (cases d) (simp add: month_step_def add_months_def Let_def)
qed

definition month_hit :: "int \<Rightarrow> date \<Rightarrow> int \<Rightarrow> bool" where
  "month_hit md a k \<longleftrightarrow> valid_date (month_step md a k) \<and> d_year (month_step md a k) \<le> 9999"

lemma monthly_search_Suc:
  "monthly_search i md a at st (Suc n) =
     (if month_hit md a st then Inr (combine (toordinal (month_step md a st)) at)
      else monthly_search i md a at (st + i) n)"
proof -
  obtain y m where ym: "add_months (d_year a) (d_month a) st = (y, m)" by fastforce
  then have s: "month_step md a st = Date y m md" by (simp add: month_step_def)
  show ?thesis
  proof (cases "month_hit md a st")
    case True
    then have "make_date y m md = Inr (toordinal (Date y m md))"
      using s by (simp add: make_date_Inr month_hit_def)
    with True ym s show ?thesis by simp
  next
    case False
    then have "\<nexists>r. make_date y m md = Inr r"
      using s by (auto simp: make_date_Inr month_hit_def)
    then obtain e where "make_date y m md = Inl e" by (cases "make_date y m md") auto
    with False ym show ?thesis by simp
  qed
qed

lemma monthly_search_Inr:
  assumes "monthly_search i md a at st n = Inr c"
  shows "\<exists>k < n. month_hit md a (st + int k * i)
    \<and> c = combine (toordinal (month_step md a (st + int k * i))) at
    \<and> (\<forall>j < k. \<not> month_hit md a (st + int j * i))"
  using assms
proof (induction n arbitrary: st)
  case (Suc n)
  show ?case
  proof (cases "month_hit md a st")
    case True
    with Suc.prems show ?thesis
      by (intro exI [of _ 0]) (simp add: monthly_search_Suc del: monthly_search.simps)
  next
    case False
    with Suc.prems have "monthly_search i md a at (st + i) n = Inr c"
      by (simp add: monthly_search_Suc del: monthly_search.simps)
    from Suc.IH [OF this] obtain k where k: "k < n" "month_hit md a (st + i + int k * i)"
      "c = combine (toordinal (month_step md a (st + i + int k * i))) at"
      "\<forall>j < k. \<not> month_hit md a (st + i + int j * i)" by blast
    have s: "st + i + int j * i = st + int (Suc j) * i" for j by (simp add: algebra_simps)
    have "\<not> month_hit md a (st + int j * i)" if "j < Suc k" for j
      using that k(4) False unfolding s by (cases j) auto
    with k show ?thesis unfolding s by (intro exI [of _ "Suc k"]) blast+
  qed
qed simp

lemma monthly_search_Inl:
  "monthly_search i md a at st n = Inl e \<longleftrightarrow>
     e = ValueError ''monthly recurrence exceeds bounded search''
     \<and> (\<forall>k < n. \<not> month_hit md a (st + int k * i))"
proof (induction n arbitrary: st)
  case (Suc n)
  have s: "st + i + int j * i = st + int (Suc j) * i" for j by (simp add: algebra_simps)
  have all: "(\<forall>k < Suc n. P k) \<longleftrightarrow> P 0 \<and> (\<forall>k < n. P (Suc k))" for P :: "nat \<Rightarrow> bool"
    using less_Suc_eq_0_disj by auto
  show ?case
    unfolding all monthly_search_Suc using Suc [of "st + i"] unfolding s by auto
qed auto

section \<open>Lemmas on the resolution\<close>

lemma astimezone_utc_eq:
  "astimezone_utc z f wall = (if valid_datetime (fold_back z f wall) then Inr (fold_back z f wall)
     else Inl (OverflowError ''date value out of range''))"
  by (simp add: astimezone_utc_def datetime_add_def fold_back_def)

lemma astimezone_local_eq:
  "astimezone_local z utc = (if valid_datetime (to_local z utc) then Inr (to_local z utc)
     else Inl (OverflowError ''date value out of range''))"
  by (simp add: astimezone_local_def datetime_add_def to_local_def)

lemma fold_candidate_cases:
  "fold_candidate z wall f = Inl (OverflowError ''date value out of range'')
   \<or> fold_candidate z wall f =
       Inr (if to_local z (fold_back z f wall) = wall then [fold_back z f wall] else [])"
  by (simp add: fold_candidate_def astimezone_utc_eq astimezone_local_eq)

lemma resolve_in_zone_eq:
  assumes "\<And>m. resolve_in_zone z wall \<noteq> Inl (OverflowError m)"
  shows "resolve_in_zone z wall =
    (case remdups ((if to_local z (fold_back z 0 wall) = wall then [fold_back z 0 wall] else [])
        @ (if to_local z (fold_back z 1 wall) = wall then [fold_back z 1 wall] else [])) of
       [] \<Rightarrow> Inl (LocalTimeResolutionError ''nonexistent'')
     | [utc] \<Rightarrow> Inr utc
     | _ \<Rightarrow> Inl (LocalTimeResolutionError ''ambiguous''))"
proof -
  have c0: "fold_candidate z wall 0 =
      Inr (if to_local z (fold_back z 0 wall) = wall then [fold_back z 0 wall] else [])"
    using fold_candidate_cases [of z wall 0] assms [of "''date value out of range''"] by (auto simp: resolve_in_zone_def)
  have c1: "fold_candidate z wall 1 =
      Inr (if to_local z (fold_back z 1 wall) = wall then [fold_back z 1 wall] else [])"
    using fold_candidate_cases [of z wall 1] c0 assms [of "''date value out of range''"] by (auto simp: resolve_in_zone_def)
  show ?thesis unfolding resolve_in_zone_def c0 c1 bindE_simps by (rule refl)
qed

lemma preimage_set:
  assumes "zone_ok z"
  shows "{v. to_local z v = wall} =
    set ((if to_local z (fold_back z 0 wall) = wall then [fold_back z 0 wall] else [])
        @ (if to_local z (fold_back z 1 wall) = wall then [fold_back z 1 wall] else []))"
  using clk.preimages [of z wall] ok_zone_id [OF assms] by auto

lemma resolve_in_zone_Inr:
  assumes "resolve_in_zone z wall = Inr v"
  shows "to_local z v = wall"
proof -
  have "resolve_in_zone z wall \<noteq> Inl (OverflowError m)" for m using assms by simp
  from resolve_in_zone_eq [OF this] assms show ?thesis
    by (auto split: list.splits if_splits)
qed

lemma resolve_in_zone_correct:
  assumes ok: "zone_ok z" and no: "\<And>m. resolve_in_zone z wall \<noteq> Inl (OverflowError m)"
  shows "resolve_in_zone z wall = Inr v \<longleftrightarrow> {x. to_local z x = wall} = {v}"
    and "resolve_in_zone z wall = Inl (LocalTimeResolutionError ''nonexistent'')
         \<longleftrightarrow> {x. to_local z x = wall} = {}"
    and "resolve_in_zone z wall = Inl (LocalTimeResolutionError ''ambiguous'')
         \<longleftrightarrow> card {x. to_local z x = wall} = 2"
proof -
  define A B where "A = fold_back z 0 wall" and "B = fold_back z 1 wall"
  define a b where "a = (to_local z A = wall)" and "b = (to_local z B = wall)"
  have s: "{x. to_local z x = wall} = set ((if a then [A] else []) @ (if b then [B] else []))"
    using preimage_set [OF ok] unfolding a_def b_def A_def B_def .
  have r: "resolve_in_zone z wall =
      (case remdups ((if a then [A] else []) @ (if b then [B] else [])) of
         [] \<Rightarrow> Inl (LocalTimeResolutionError ''nonexistent'')
       | [utc] \<Rightarrow> Inr utc
       | _ \<Rightarrow> Inl (LocalTimeResolutionError ''ambiguous''))"
    using resolve_in_zone_eq [OF no] unfolding a_def b_def A_def B_def .
  show "resolve_in_zone z wall = Inr v \<longleftrightarrow> {x. to_local z x = wall} = {v}"
    unfolding r s by (cases a; cases b; cases "A = B"; auto)
  show "resolve_in_zone z wall = Inl (LocalTimeResolutionError ''nonexistent'')
      \<longleftrightarrow> {x. to_local z x = wall} = {}"
    unfolding r s by (cases a; cases b; cases "A = B"; simp)
  show "resolve_in_zone z wall = Inl (LocalTimeResolutionError ''ambiguous'')
      \<longleftrightarrow> card {x. to_local z x = wall} = 2"
    unfolding r s by (cases a; cases b; cases "A = B"; simp)
qed

lemma load_zone_Inr:
  "load_zone zones name = Inr z \<longleftrightarrow> \<not> is_blank name \<and> zones (strip name) = Some z"
  by (auto simp: load_zone_def split: option.splits)

lemma resolve_local_time_zone:
  "load_zone zones name = Inr z \<Longrightarrow>
     resolve_local_time zones (Naive wall) name = resolve_in_zone z wall"
  by (simp add: resolve_local_time_def)

section \<open>Lemmas on the next occurrence\<close>

lemma next_candidate_weekly:
  assumes "r_kind rule = WEEKLY"
  shows "next_candidate rule anchor after = Inr x \<longleftrightarrow>
      (\<exists>c. x = Some c \<and> next_weekly rule anchor after = Inr c)"
    and "next_candidate rule anchor after = Inl e \<longleftrightarrow> next_weekly rule anchor after = Inl e"
  by (auto simp: next_candidate_def assms bindE_eq_Inr bindE_eq_Inl)

lemma next_candidate_monthly:
  assumes "r_kind rule = MONTHLY"
  shows "next_candidate rule anchor after = Inr x \<longleftrightarrow>
      (\<exists>c. x = Some c \<and> next_monthly rule anchor after = Inr c)"
    and "next_candidate rule anchor after = Inl e \<longleftrightarrow> next_monthly rule anchor after = Inl e"
  by (auto simp: next_candidate_def assms bindE_eq_Inr bindE_eq_Inl)

lemma next_weekly_Inr:
  assumes "valid_datetime anchor" and "next_weekly rule anchor after = Inr c"
  shows "time_part c = time_part anchor \<and> date_part after < date_part c
      \<and> weekly_due rule anchor (date_part c)
      \<and> (\<forall>d. date_part after < d \<longrightarrow> d < date_part c \<longrightarrow> \<not> weekly_due rule anchor d)"
proof -
  let ?wd = "if r_weekdays rule = [] then [dt_weekday anchor] else r_weekdays rule"
  have ws: "weekly_search (r_interval rule) ?wd (monday_of (date_part anchor))
      (time_part anchor) (date_part after) 1 3660 = Inr c"
    using assms(2) unfolding next_weekly_eq [OF assms(1)] .
  obtain k where
    k: "1 \<le> k" "c = combine (date_part after + k) (time_part anchor)"
      "weekly_due rule anchor (date_part after + k)"
      "\<forall>j. 1 \<le> j \<longrightarrow> j < k \<longrightarrow> \<not> weekly_due rule anchor (date_part after + j)"
    using weekly_search_Inr [OF ws] unfolding weekly_due_iff by metis
  have p: "date_part c = date_part after + k" "time_part c = time_part anchor"
    unfolding k(2) by (simp_all add: combine_date_part combine_time_part)
  have "\<not> weekly_due rule anchor d" if "date_part after < d" "d < date_part after + k" for d
    using k(4) [rule_format, of "d - date_part after"] that by simp
  with k(1,3) p show ?thesis by simp
qed

lemma next_weekly_error:
  assumes "rule_ok rule" and "valid_datetime anchor" and "anchor \<le> after"
    and "next_weekly rule anchor after = Inl e"
  shows "\<exists>m. e = OverflowError m"
proof -
  let ?wd = "if r_weekdays rule = [] then [dt_weekday anchor] else r_weekdays rule"
  let ?aw = "monday_of (date_part anchor)"
  have ws: "weekly_search (r_interval rule) ?wd ?aw (time_part anchor) (date_part after) 1 3660
      = Inl e"
    using assms(4) unfolding next_weekly_eq [OF assms(2)] .
  have "\<forall>d \<in> set ?wd. 0 \<le> d \<and> d \<le> 6"
    using assms(1) weekday_bounds [of "date_part anchor"]
    by (simp add: rule_ok_def dt_weekday_def)
  moreover have "?wd \<noteq> []" by simp
  ultimately have w: "hd ?wd \<in> set ?wd" "0 \<le> hd ?wd" "hd ?wd \<le> 6"
    by (blast intro: hd_in_set)+
  have aw: "?aw \<le> date_part after"
    using date_part_mono [OF assms(3)] weekday_bounds [of "date_part anchor"]
    unfolding monday_of_def by linarith
  have i: "1 \<le> r_interval rule" "r_interval rule \<le> 365"
    using assms(1) by (simp_all add: rule_ok_def)
  obtain k where k: "1 \<le> k" "k \<le> 2561" and due: "weekly_due rule anchor (date_part after + k)"
    using weekly_due_exists [OF i weekday_monday_of aw w] unfolding weekly_due_iff by metis
  have "k < 1 + int 3660" using k(2) by simp
  have "e \<noteq> ValueError m" for m
  proof
    assume "e = ValueError m"
    with ws have "weekly_search (r_interval rule) ?wd ?aw (time_part anchor) (date_part after) 1 3660
      = Inl (ValueError m)" by (simp only:)
    from weekly_search_Inl [OF this k(1) \<open>k < 1 + int 3660\<close>] due show False
      unfolding weekly_due_iff by (rule notE)
  qed
  with weekly_search_error [OF ws] show ?thesis by metis
qed

section \<open>Lemmas on the monthly occurrence\<close>

lemma monthly_due_step:
  assumes "1 \<le> d_month a" "d_month a \<le> 12" "a = fromordinal (date_part anchor)"
    and "md = monthly_day rule anchor"
  shows "monthly_due rule anchor d \<and> d_year d \<le> 9999 \<longleftrightarrow>
    (\<exists>k. d = month_step md a (k * r_interval rule) \<and> month_hit md a (k * r_interval rule))"
proof
  assume d: "monthly_due rule anchor d \<and> d_year d \<le> 9999"
  then have v: "valid_date d" "d_day d = md" "elapsed_months a d mod r_interval rule = 0"
    using assms by (simp_all add: monthly_due_def)
  then have "month_step md a (elapsed_months a d) = d"
    using month_step_elapsed [of a d] assms(1,2) by (auto simp: valid_date_def)
  moreover obtain k where "elapsed_months a d = k * r_interval rule"
    using v(3) by (metis mod_0_imp_dvd dvd_def mult.commute)
  ultimately show "\<exists>k. d = month_step md a (k * r_interval rule)
      \<and> month_hit md a (k * r_interval rule)"
    using d v by (intro exI [of _ k]) (auto simp: month_hit_def)
next
  assume "\<exists>k. d = month_step md a (k * r_interval rule) \<and> month_hit md a (k * r_interval rule)"
  then show "monthly_due rule anchor d \<and> d_year d \<le> 9999"
    using elapsed_month_step [OF assms(1,2), of md] assms(3,4)
    by (auto simp: monthly_due_def month_hit_def)
qed

lemma elapsed_months_less:
  assumes "1 \<le> d_month b" "d_month b \<le> 12" "1 \<le> d_month c" "d_month c \<le> 12"
    and "elapsed_months a b < elapsed_months a c"
  shows "b < c" and "(d_year b, d_month b) < (d_year c, d_month c)"
  using assms by (auto simp: less_date_def elapsed_months_def)

lemma elapsed_months_less_iff:
  assumes "1 \<le> d_month b" "d_month b \<le> 12" "1 \<le> d_month c" "d_month c \<le> 12"
  shows "elapsed_months a b < elapsed_months a c \<longleftrightarrow> (d_year b, d_month b) < (d_year c, d_month c)"
  using assms by (auto simp: elapsed_months_def)

text \<open>The first step the code tries is the least multiple of the interval past the cursor.\<close>

lemma first_step:
  assumes "1 \<le> (i::int)"
  shows "e < (e div i + 1) * i" and "e < k * i \<Longrightarrow> e div i + 1 \<le> k"
proof -
  have e: "e div i * i = e - e mod i" "e mod i < i" "0 \<le> e mod i"
    using assms by (simp_all add: minus_mod_eq_div_mult)
  show "e < (e div i + 1) * i" unfolding distrib_right e(1) using e(2) by simp
  show "e div i + 1 \<le> k" if "e < k * i"
  proof (rule ccontr)
    assume "\<not> e div i + 1 \<le> k"
    then have "k * i \<le> (e div i) * i" using assms by (intro mult_right_mono) auto
    also have "\<dots> \<le> e" unfolding e(1) using e(3) by simp
    finally show False using that by simp
  qed
qed

lemma next_monthly_eq:
  "next_monthly rule anchor after =
    monthly_search (r_interval rule) (monthly_day rule anchor) (fromordinal (date_part anchor))
      (time_part anchor)
      ((elapsed_months (fromordinal (date_part anchor)) (fromordinal (date_part after))
          div r_interval rule + 1) * r_interval rule) 1200"
  by (simp add: next_monthly_def Let_def monthly_day_def)

lemma next_monthly_Inr:
  assumes ok: "rule_ok rule" and va: "valid_datetime anchor" and vf: "valid_datetime after"
    and r: "next_monthly rule anchor after = Inr c"
  defines "cur \<equiv> fromordinal (date_part after)" and "res \<equiv> fromordinal (date_part c)"
  shows "time_part c = time_part anchor \<and> monthly_due rule anchor res
    \<and> (d_year cur, d_month cur) < (d_year res, d_month res)
    \<and> (\<forall>d. monthly_due rule anchor d \<longrightarrow> (d_year cur, d_month cur) < (d_year d, d_month d)
          \<longrightarrow> res \<le> d)"
proof -
  let ?i = "r_interval rule" and ?md = "monthly_day rule anchor"
  let ?a = "fromordinal (date_part anchor)"
  have i: "1 \<le> ?i" using ok by (simp add: rule_ok_def)
  have a: "1 \<le> d_month ?a" "d_month ?a \<le> 12"
    using va fromordinal_valid [of "date_part anchor"]
    by (auto simp: valid_datetime_date_part valid_date_def)
  have cm: "1 \<le> d_month cur" "d_month cur \<le> 12"
    using vf fromordinal_valid [of "date_part after"]
    by (auto simp: valid_datetime_date_part valid_date_def cur_def)
  define e where "e = elapsed_months ?a cur"
  define q where "q = e div ?i + 1"
  obtain k where k: "month_hit ?md ?a (q * ?i + int k * ?i)"
    "c = combine (toordinal (month_step ?md ?a (q * ?i + int k * ?i))) (time_part anchor)"
    "\<forall>j < k. \<not> month_hit ?md ?a (q * ?i + int j * ?i)"
    using monthly_search_Inr [OF r [unfolded next_monthly_eq]]
    unfolding q_def e_def cur_def by blast
  have res: "res = month_step ?md ?a ((q + int k) * ?i)"
    using k(1) fromordinal_toordinal unfolding res_def k(2)
    by (simp add: combine_date_part month_hit_def algebra_simps)
  have hit: "month_hit ?md ?a ((q + int k) * ?i)" using k(1) by (simp add: algebra_simps)
  have due: "monthly_due rule anchor res"
    using monthly_due_step [OF a refl refl, of rule res] res hit by blast
  have rm: "1 \<le> d_month res" "d_month res \<le> 12"
    using due by (auto simp: monthly_due_def valid_date_def)
  have el: "elapsed_months ?a res = (q + int k) * ?i"
    using elapsed_month_step(1) [OF a] res by simp
  have "e < q * ?i" unfolding q_def by (rule first_step [OF i])
  also have "\<dots> \<le> (q + int k) * ?i" using i by (intro mult_right_mono) auto
  finally have "(d_year cur, d_month cur) < (d_year res, d_month res)"
    using elapsed_months_less_iff [OF cm rm, of ?a] by (simp add: el e_def)
  moreover have "res \<le> d" if d: "monthly_due rule anchor d"
    and after: "(d_year cur, d_month cur) < (d_year d, d_month d)" for d
  proof (rule ccontr)
    assume "\<not> res \<le> d"
    then have "d < res" by simp
    then have y: "d_year d \<le> 9999"
      using hit res by (auto simp: less_date_def month_hit_def)
    obtain j where j: "d = month_step ?md ?a (j * ?i)" "month_hit ?md ?a (j * ?i)"
      using monthly_due_step [OF a refl refl, of rule d] d y by blast
    have dm: "1 \<le> d_month d" "d_month d \<le> 12" using d by (auto simp: monthly_due_def valid_date_def)
    have ed: "elapsed_months ?a d = j * ?i" using elapsed_month_step(1) [OF a] j(1) by simp
    have "e < j * ?i" using after elapsed_months_less_iff [OF cm dm, of ?a] ed by (simp add: e_def)
    then have qj: "q \<le> j" unfolding q_def by (rule first_step(2) [OF i])
    have "j < q + int k"
    proof (rule ccontr)
      assume "\<not> j < q + int k"
      then have "(q + int k) * ?i \<le> j * ?i" using i by (intro mult_right_mono) auto
      then have "\<not> elapsed_months ?a d < elapsed_months ?a res" using ed el by simp
      moreover have "d_day d = d_day res" using d due by (simp add: monthly_due_def)
      ultimately show False using \<open>d < res\<close> elapsed_months_less_iff [OF dm rm, of ?a]
        by (auto simp: less_date_def)
    qed
    then have "nat (j - q) < k" "q * ?i + int (nat (j - q)) * ?i = j * ?i"
      using qj by (auto simp: algebra_simps)
    with k(3) j(2) show False by metis
  qed
  moreover have "time_part c = time_part anchor" unfolding k(2) by (simp add: combine_time_part)
  ultimately show ?thesis using due by blast
qed

lemma next_monthly_later:
  assumes "rule_ok rule" "valid_datetime anchor" "valid_datetime after"
    and "next_monthly rule anchor after = Inr c"
  shows "after < c"
proof -
  let ?b = "fromordinal (date_part after)" and ?c = "fromordinal (date_part c)"
  have m: "monthly_due rule anchor ?c" "(d_year ?b, d_month ?b) < (d_year ?c, d_month ?c)"
    using next_monthly_Inr [OF assms] by blast+
  have "?b < ?c" using m(2) by (auto simp: less_date_def)
  have b: "valid_date ?b" "toordinal ?b = date_part after"
    using assms(3) fromordinal_correct [of "date_part after"]
    by (auto simp: valid_datetime_date_part)
  obtain d where d: "valid_date d" "c = combine (toordinal d) (time_part anchor)"
    using monthly_search_Inr [OF assms(4) [unfolded next_monthly_eq]] by (auto simp: month_hit_def)
  then have "?c = d" by (simp add: combine_date_part fromordinal_toordinal)
  with toordinal_less [OF b(1) d(1)] \<open>?b < ?c\<close> b(2)
  have "date_part after < toordinal d" by simp
  then have "combine (date_part after) (time_part after) < c"
    unfolding d(2) by (rule combine_less) auto
  then show ?thesis by simp
qed

lemma next_candidate_later:
  assumes ok: "rule_ok rule" and v: "valid_datetime anchor" "valid_datetime after"
    and r: "next_candidate rule anchor after = Inr (Some c)"
  shows "after < c"
proof (cases "r_kind rule")
  case ONCE
  with r show ?thesis by (simp add: next_candidate_def)
next
  case DAILY
  with r ok show ?thesis
    by (auto simp: next_candidate_def bindE_eq_Inr datetime_add_def rule_ok_def split: if_splits)
next
  case WEEKLY
  with r have "next_weekly rule anchor after = Inr c" by (simp add: next_candidate_weekly)
  from next_weekly_Inr [OF v(1) this] have "date_part after < date_part c" by blast
  then show ?thesis using date_part_mono [of c after] by linarith
next
  case MONTHLY
  with r have "next_monthly rule anchor after = Inr c" by (simp add: next_candidate_monthly)
  then show ?thesis by (rule next_monthly_later [OF ok v])
qed

lemma next_wall_Some:
  "next_wall rule anchor (Some after) n = Inr (Some c) \<longleftrightarrow>
     anchor \<le> after \<and> 0 \<le> n \<and> (\<forall>k. r_count rule = Some k \<longrightarrow> n < k)
     \<and> (\<forall>l. r_until rule = Some l \<longrightarrow> c \<le> l)
     \<and> next_candidate rule anchor after = Inr (Some c)"
  by (cases "next_candidate rule anchor after"; cases "r_until rule"; cases "r_count rule")
    (auto simp: next_wall_def split: option.splits if_splits)

lemma next_wall_None:
  "next_wall rule anchor None n = Inr (Some c) \<longleftrightarrow>
     c = anchor \<and> 0 \<le> n \<and> (\<forall>k. r_count rule = Some k \<longrightarrow> n < k)
     \<and> (\<forall>l. r_until rule = Some l \<longrightarrow> c \<le> l)"
  by (auto simp: next_wall_def bindE_eq_Inr split: option.splits if_splits)

lemma month_step_february:
  assumes "d_month a = 2" and "12 dvd k" and "29 < md"
  shows "\<not> month_hit md a k"
proof -
  obtain q where q: "k = 12 * q" using assms(2) by (auto elim: dvdE)
  have e: "d_year a * 12 + d_month a - 1 + k = 12 * (d_year a + q) + 1"
    using assms(1) q by simp
  have "(d_year a * 12 + d_month a - 1 + k) mod 12 = 1"
    by (rule int_mod_pos_eq [OF e]) auto
  then have "d_month (month_step md a k) = 2 \<and> d_day (month_step md a k) = md"
    by (simp add: month_step_def add_months_def Let_def)
  then show ?thesis using assms(3) by (auto simp: month_hit_def valid_date_def days_in_month_def)
qed

lemma astimezone_local_Inr: "astimezone_local z utc = Inr wall \<longleftrightarrow>
    wall = to_local z utc \<and> valid_datetime wall"
  by (auto simp: astimezone_local_eq)

lemma minute_of_day_combine:
  "0 \<le> e \<Longrightarrow> e < 1440 \<Longrightarrow> minute_of_day (combine d (e * 60000000)) = e"
  by (simp add: minute_of_day_def combine_time_part)

lemma in_quiet_hours_end: "\<not> in_quiet_hours s e e \<or> s = e"
  by (auto simp: in_quiet_hours_def)

lemma wall_before_end:
  assumes "in_quiet_hours s e (minute_of_day wall)" and "s < e \<or> minute_of_day wall < s"
  shows "wall < combine (date_part wall) (e * 60000000)"
proof -
  have "minute_of_day wall < e" using assms by (auto simp: in_quiet_hours_def split: if_splits)
  then have "time_part wall < e * 60000000" unfolding minute_of_day_def by linarith
  moreover have "wall = date_part wall * 86400000000 + time_part wall"
    by (simp add: date_part_def time_part_def)
  ultimately show ?thesis by (simp add: combine_def)
qed

lemma validate_quiet_hours_Inr:
  "validate_quiet_hours start fin = Inr (s, e) \<longleftrightarrow>
     start = Some s \<and> fin = Some e \<and> 0 \<le> s \<and> s < 1440 \<and> 0 \<le> e \<and> e < 1440 \<and> s \<noteq> e"
  by (auto simp: validate_quiet_hours_def minute_invalid_def split: option.splits)

lemma quiet_target:
  assumes q: "in_quiet_hours s e (minute_of_day wall)"
    and v: "0 \<le> e" "e < 1440"
    and t: "(if s < e \<or> minute_of_day wall < s then Inr (date_part wall)
             else date_add (date_part wall) 1) = Inr d"
  shows "wall < combine d (e * 60000000)"
proof (cases "s < e \<or> minute_of_day wall < s")
  case True
  with wall_before_end [OF q True] t show ?thesis by simp
next
  case False
  with t have "d = date_part wall + 1" by (auto simp: date_add_def split: if_splits)
  then have "combine (date_part wall) (time_part wall) < combine d (e * 60000000)"
    using v by (intro combine_less) auto
  then show ?thesis by simp
qed

lemma quiet_hours_cases:
  assumes "quiet_hours_available_at zones (Aware utc) name (Some s) (Some e) urgent = Inr r"
    and z: "load_zone zones name = Inr z"
  shows "0 \<le> s \<and> s < 1440 \<and> 0 \<le> e \<and> e < 1440 \<and> s \<noteq> e"
    and "r = utc \<and> (urgent \<or> \<not> in_quiet_hours s e (minute_of_day (to_local z utc)))
     \<or> (\<exists>d. resolve_in_zone z (combine d (e * 60000000)) = Inr r \<and> \<not> urgent
          \<and> in_quiet_hours s e (minute_of_day (to_local z utc))
          \<and> to_local z utc < combine d (e * 60000000))"
proof -
  have v: "validate_quiet_hours (Some s) (Some e) = Inr (s, e)"
    using assms by (auto simp: quiet_hours_available_at_def bindE_eq_Inr
        validate_quiet_hours_def split: if_splits)
  then show b: "0 \<le> s \<and> s < 1440 \<and> 0 \<le> e \<and> e < 1440 \<and> s \<noteq> e"
    by (simp only: validate_quiet_hours_Inr) simp
  show "r = utc \<and> (urgent \<or> \<not> in_quiet_hours s e (minute_of_day (to_local z utc)))
     \<or> (\<exists>d. resolve_in_zone z (combine d (e * 60000000)) = Inr r \<and> \<not> urgent
          \<and> in_quiet_hours s e (minute_of_day (to_local z utc))
          \<and> to_local z utc < combine d (e * 60000000))"
  proof (cases "urgent \<or> \<not> in_quiet_hours s e (minute_of_day (to_local z utc))")
    case True
    with assms v show ?thesis
      by (auto simp: quiet_hours_available_at_def bindE_eq_Inr astimezone_local_Inr Let_def
          split: if_splits)
  next
    case False
    with assms v obtain d where
      d: "(if s < e \<or> minute_of_day (to_local z utc) < s then Inr (date_part (to_local z utc))
           else date_add (date_part (to_local z utc)) 1) = Inr d"
      and res: "resolve_local_time zones (Naive (combine d (e * 60000000))) name = Inr r"
      by (simp add: quiet_hours_available_at_def bindE_eq_Inr astimezone_local_Inr Let_def)
        metis
    then show ?thesis using False b quiet_target [OF _ _ _ d]
      by (auto simp: resolve_local_time_zone [OF z])
  qed
qed

section \<open>Lemmas on the JSON form\<close>

lemma rule_json_until:
  assumes "\<And>t. r_until r = Some t \<Longrightarrow> fromisoformat (isoformat t) = Some (Naive t)"
  shows "parse_until fromisoformat (case r_until r of None \<Rightarrow> PNone | Some t \<Rightarrow> PStr (isoformat t))
     = Inr (map_option Naive (r_until r))"
  using assms by (cases "r_until r") (auto simp: parse_until_def)

lemma rule_to_json_get:
  assumes "rule_to_json isoformat r = PDict d"
  shows "dict_get d (u ''version'') PNone = PInt 1"
    and "dict_get d (u ''until_local'') PNone
       = (case r_until r of None \<Rightarrow> PNone | Some t \<Rightarrow> PStr (isoformat t))"
    and "dict_get d (u ''weekdays'') (PList []) = PList (map PInt (r_weekdays r))"
    and "dict_get d (u ''kind'') PNone = PStr (kind_value (r_kind r))"
    and "dict_get d (u ''interval'') (PInt 1) = PInt (r_interval r)"
    and "dict_get d (u ''monthday'') PNone = opt_pyint (r_monthday r)"
    and "dict_get d (u ''count'') PNone = opt_pyint (r_count r)"
  using assms unfolding rule_to_json_def by (simp_all add: dict_get_def u_def, auto simp: u_def)

lemmas resolve_eval = resolve_local_time_def load_zone_def is_blank_def is_space_def strip_def
  resolve_in_zone_def fold_candidate_def astimezone_utc_def astimezone_local_def datetime_add_def
  valid_datetime_def wall_offset_def utc_offset_def wall_threshold_def

section \<open>Properties\<close>

text \<open>
C38: the weekly search.  Where \<open>_next_weekly\<close> returns, it returns the first day after the
cursor that lies in a due week (a multiple of \<open>interval\<close> weeks after the week of the anchor)
and on one of the rule's weekdays, at the anchor's time of day; and the bound of 3660 days
never cuts a valid rule off: the only failure is the end of the calendar.
\<close>

theorem weekly_next_is_first:
  assumes "rule_ok rule" and "r_kind rule = WEEKLY" and "valid_datetime anchor" and "anchor \<le> after"
  shows "(\<exists>m. next_candidate rule anchor after = Inl (OverflowError m))
    \<or> (\<exists>c. next_candidate rule anchor after = Inr (Some c)
      \<and> time_part c = time_part anchor \<and> date_part after < date_part c
      \<and> weekly_due rule anchor (date_part c)
      \<and> (\<forall>d. date_part after < d \<longrightarrow> d < date_part c \<longrightarrow> \<not> weekly_due rule anchor d))"
proof (cases "next_weekly rule anchor after")
  case (Inl e)
  with next_weekly_error [OF assms(1,3,4)] next_candidate_weekly(2) [OF assms(2)]
  show ?thesis by blast
next
  case (Inr c)
  with next_weekly_Inr [OF assms(3)] next_candidate_weekly(1) [OF assms(2)]
  show ?thesis by blast
qed

theorem weekly_next_is_first_witness:
  "weekly_due \<lparr>r_kind = WEEKLY, r_interval = 2, r_weekdays = [0, 3], r_monthday = None,
     r_count = None, r_until = None\<rparr> (combine 739000 32400000000) 739012
   \<and> \<not> weekly_due \<lparr>r_kind = WEEKLY, r_interval = 2, r_weekdays = [0, 3], r_monthday = None,
     r_count = None, r_until = None\<rparr> (combine 739000 32400000000) 739008"
proof -
  have "next_candidate \<lparr>r_kind = WEEKLY, r_interval = 2, r_weekdays = [0, 3], r_monthday = None,
     r_count = None, r_until = None\<rparr> (combine 739000 32400000000) (combine 739004 32400000000)
     = Inr (Some (combine 739012 32400000000))" by code_simp
  with weekly_next_is_first [of "\<lparr>r_kind = WEEKLY, r_interval = 2, r_weekdays = [0, 3],
      r_monthday = None, r_count = None, r_until = None\<rparr>" "combine 739000 32400000000"
      "combine 739004 32400000000"]
  show ?thesis by (simp add: rule_ok_def combine_date_part)
    (simp add: combine_def valid_datetime_def)
qed

text \<open>
the monthly search.  Where \<open>_next_monthly\<close> returns, the result is the first date, in a month
after the month of the cursor, that is a multiple of \<open>interval\<close> months after the anchor and has
the rule's day of the month (months without that day are skipped), at the anchor's time.
\<close>

theorem monthly_next_is_first:
  assumes "rule_ok rule" and "r_kind rule = MONTHLY"
    and "valid_datetime anchor" and "valid_datetime after"
    and "next_candidate rule anchor after = Inr (Some c)"
    and "cur = fromordinal (date_part after)" and "res = fromordinal (date_part c)"
  shows "time_part c = time_part anchor \<and> monthly_due rule anchor res
    \<and> (d_year cur, d_month cur) < (d_year res, d_month res)
    \<and> (\<forall>d. monthly_due rule anchor d \<longrightarrow> (d_year cur, d_month cur) < (d_year d, d_month d)
          \<longrightarrow> res \<le> d)"
  using next_monthly_Inr [OF assms(1,3,4)] assms(2,5-7) by (auto simp: next_candidate_monthly)

theorem monthly_next_is_first_witness:
  "monthly_due \<lparr>r_kind = MONTHLY, r_interval = 1, r_weekdays = [], r_monthday = Some 31,
     r_count = None, r_until = None\<rparr> (combine 739037 32400000000) (fromordinal 739098)"
proof -
  have "next_candidate \<lparr>r_kind = MONTHLY, r_interval = 1, r_weekdays = [], r_monthday = Some 31,
     r_count = None, r_until = None\<rparr> (combine 739037 32400000000) (combine 739037 32400000000)
     = Inr (Some (combine 739098 32400000000))" by code_simp
  from monthly_next_is_first [OF _ _ _ _ this refl refl] show ?thesis
    by (simp add: rule_ok_def combine_date_part) (simp add: combine_def valid_datetime_def)
qed

text \<open>
every recurrence makes progress.  A next occurrence of a rule lies strictly after the cursor,
never before the anchor, only while the emitted count is below the rule's count, and never past
\<open>until_local\<close>; a one-time rule has none.
\<close>

theorem next_occurrence_progress:
  assumes "rule_ok rule" and "valid_datetime anchor" and "valid_datetime after"
    and "next_occurrence rule (Naive anchor) (Some (Naive after)) emitted = Inr (Some c)"
  shows "anchor \<le> after \<and> after < c \<and> r_kind rule \<noteq> ONCE
    \<and> (\<forall>k. r_count rule = Some k \<longrightarrow> emitted < k) \<and> (\<forall>l. r_until rule = Some l \<longrightarrow> c \<le> l)"
proof -
  have w: "next_wall rule anchor (Some after) emitted = Inr (Some c)"
    using assms(4) by (simp add: next_occurrence_def)
  then have "next_candidate rule anchor after = Inr (Some c)" by (simp add: next_wall_Some)
  moreover from this have "r_kind rule \<noteq> ONCE" by (auto simp: next_candidate_def)
  ultimately show ?thesis using w next_candidate_later [OF assms(1-3)] by (simp add: next_wall_Some)
qed

theorem next_occurrence_progress_witness:
  "combine 739000 0 < combine 739003 0 \<and>
   next_occurrence \<lparr>r_kind = DAILY, r_interval = 3, r_weekdays = [], r_monthday = None,
     r_count = Some 2, r_until = None\<rparr> (Naive (combine 739000 0)) (Some (Naive (combine 739000 0))) 1
     = Inr (Some (combine 739003 0))"
proof -
  have *: "next_occurrence \<lparr>r_kind = DAILY, r_interval = 3, r_weekdays = [], r_monthday = None,
     r_count = Some 2, r_until = None\<rparr> (Naive (combine 739000 0)) (Some (Naive (combine 739000 0))) 1
     = Inr (Some (combine 739003 0))" by code_simp
  from next_occurrence_progress [OF _ _ _ this] * show ?thesis
    by (simp add: rule_ok_def combine_def valid_datetime_def)
qed

text \<open>
a monthly rule anchored in February whose interval is a multiple of twelve months and whose
day of the month is 30 or 31 has no next occurrence at all: the search runs through its 1200
rounds and \<open>next_occurrence\<close> raises \<open>ValueError\<close>, for every cursor.
\<close>

theorem monthly_february_raises:
  assumes "rule_ok rule" and "r_kind rule = MONTHLY" and "12 dvd r_interval rule"
    and "r_monthday rule = Some day" and "29 < day"
    and "d_month (fromordinal (date_part anchor)) = 2" and "anchor \<le> after" and "0 \<le> emitted"
    and "r_count rule = None"
  shows "next_occurrence rule (Naive anchor) (Some (Naive after)) emitted
     = Inl (ValueError ''monthly recurrence exceeds bounded search'')"
proof -
  have "\<not> month_hit day (fromordinal (date_part anchor)) (q * r_interval rule + int k * r_interval rule)"
    for q k using assms by (intro month_step_february) auto
  then have "next_monthly rule anchor after
      = Inl (ValueError ''monthly recurrence exceeds bounded search'')"
    unfolding next_monthly_eq monthly_search_Inl by (simp add: monthly_day_def assms(4))
  then have "next_candidate rule anchor after
      = Inl (ValueError ''monthly recurrence exceeds bounded search'')"
    by (simp add: next_candidate_monthly assms(2))
  with assms show ?thesis by (simp add: next_occurrence_def next_wall_def)
qed

theorem monthly_february_raises_witness:
  "next_occurrence \<lparr>r_kind = MONTHLY, r_interval = 12, r_weekdays = [], r_monthday = Some 30,
     r_count = None, r_until = None\<rparr> (Naive (combine 738920 0)) (Some (Naive (combine 738920 0))) 0
   = Inl (ValueError ''monthly recurrence exceeds bounded search'')"
  by (rule monthly_february_raises [where day = 30])
    (simp_all add: rule_ok_def combine_date_part, code_simp)

text \<open>
C39: resolution of a wall time.  In a zone whose transition windows are disjoint, and where neither
conversion leaves the range of \<open>datetime\<close>, \<open>resolve_local_time\<close> returns the instant that shows the
wall time exactly when there is one and only one, reports \<open>nonexistent\<close> exactly when there is
none (a forward jump), and \<open>ambiguous\<close> exactly when there are two (a backward jump).
\<close>

theorem resolve_local_time_exact:
  assumes "load_zone zones name = Inr z" and "zone_ok z"
    and "\<And>m. resolve_local_time zones (Naive wall) name \<noteq> Inl (OverflowError m)"
  shows "(\<forall>v. resolve_local_time zones (Naive wall) name = Inr v
           \<longleftrightarrow> {x. to_local z x = wall} = {v})
    \<and> (resolve_local_time zones (Naive wall) name = Inl (LocalTimeResolutionError ''nonexistent'')
           \<longleftrightarrow> {x. to_local z x = wall} = {})
    \<and> (resolve_local_time zones (Naive wall) name = Inl (LocalTimeResolutionError ''ambiguous'')
           \<longleftrightarrow> card {x. to_local z x = wall} = 2)"
  using resolve_in_zone_correct [OF assms(2), of wall] assms(3)
  unfolding resolve_local_time_zone [OF assms(1)] by blast

theorem resolve_local_time_exact_witness:
  "let z = \<lparr>z_initial = 3600000000, z_trans = [(63753526800000000, 7200000000),
       (63771670800000000, 3600000000)]\<rparr> in
   {x. to_local z x = 63753530400000000} = {} \<and> card {x. to_local z x = 63771674400000000} = 2
   \<and> {x. to_local z x = 63753537600000000} = {63753530400000000}"
proof -
  let ?z = "\<lparr>z_initial = 3600000000, z_trans = [(63753526800000000, 7200000000),
       (63771670800000000, 3600000000)]\<rparr> :: zone"
  let ?db = "\<lambda>n. Some ?z"
  have z: "load_zone ?db ([90]) = Inr ?z" by code_simp
  have ok: "zone_ok ?z" by (simp add: zone_ok_def)
  have r: "resolve_local_time ?db (Naive 63753530400000000) ([90])
       = Inl (LocalTimeResolutionError ''nonexistent'')"
    "resolve_local_time ?db (Naive 63771674400000000) ([90])
       = Inl (LocalTimeResolutionError ''ambiguous'')"
    "resolve_local_time ?db (Naive 63753537600000000) ([90]) = Inr 63753530400000000"
    by (simp_all add: resolve_eval)
  have no: "resolve_local_time ?db (Naive 63753530400000000) [90] \<noteq> Inl (OverflowError m)"
    "resolve_local_time ?db (Naive 63771674400000000) [90] \<noteq> Inl (OverflowError m)"
    "resolve_local_time ?db (Naive 63753537600000000) [90] \<noteq> Inl (OverflowError m)" for m
    by (simp_all only: r) simp_all
  have "{x. to_local ?z x = 63753530400000000} = {}"
    using resolve_local_time_exact [OF z ok no(1)] r(1) by blast
  moreover have "card {x. to_local ?z x = 63771674400000000} = 2"
    using resolve_local_time_exact [OF z ok no(2)] r(2) by blast
  moreover have "{x. to_local ?z x = 63753537600000000} = {63753530400000000}"
    using resolve_local_time_exact [OF z ok no(3)] r(3) by blast
  ultimately show ?thesis unfolding Let_def by blast
qed

text \<open>
quiet hours.  Where \<open>quiet_hours_available_at\<close> returns for a zone with disjoint transition
windows, the delivery time is never before the scheduled time; it is the scheduled time itself
for an urgent job or outside the quiet hours, and otherwise the local clock shows exactly the
end of the quiet hours; so a job that is not urgent is never released inside them.
\<close>

theorem quiet_hours_released_outside:
  assumes "quiet_hours_available_at zones (Aware utc) name (Some s) (Some e) urgent = Inr r"
    and "load_zone zones name = Inr z" and "zone_ok z"
  shows "utc \<le> r
    \<and> (urgent \<or> \<not> in_quiet_hours s e (minute_of_day (to_local z utc)) \<longrightarrow> r = utc)
    \<and> (\<not> urgent \<longrightarrow> \<not> in_quiet_hours s e (minute_of_day (to_local z r)))
    \<and> (\<not> urgent \<longrightarrow> r \<noteq> utc \<longrightarrow> minute_of_day (to_local z r) = e)"
proof -
  note b = quiet_hours_cases(1) [OF assms(1,2)]
  from quiet_hours_cases(2) [OF assms(1,2)] show ?thesis
  proof (elim disjE exE conjE)
    fix d assume d: "resolve_in_zone z (combine d (e * 60000000)) = Inr r"
      and lt: "to_local z utc < combine d (e * 60000000)"
      and q: "\<not> urgent" "in_quiet_hours s e (minute_of_day (to_local z utc))"
    let ?w = "combine d (e * 60000000)"
    have "{x. to_local z x = ?w} = {r}"
      using resolve_in_zone_correct(1) [OF assms(3), of ?w r] d by simp
    then have all: "to_local z x = ?w \<longleftrightarrow> x = r" for x by (simp add: set_eq_iff)
    then have r: "to_local z r = ?w" by simp
    have "utc < r"
      by (rule clk.unique_monotone [of z ?w r utc]; unfold ok_zone_id [OF assms(3)])
        (simp_all only: all lt)
    moreover have "minute_of_day (to_local z r) = e"
      using r b by (simp add: minute_of_day_combine)
    ultimately show ?thesis using q b in_quiet_hours_end [of s e] by auto
  qed auto
qed

theorem quiet_hours_released_outside_witness:
  "quiet_hours_available_at (\<lambda>n. Some \<lparr>z_initial = 10800000000, z_trans = []\<rparr>)
     (Aware (combine 739000 72000000000)) ([77]) (Some 1380) (Some 420) False
     = Inr (combine 739001 14400000000)
   \<and> combine 739000 72000000000 \<le> combine 739001 14400000000"
proof -
  have *: "quiet_hours_available_at (\<lambda>n. Some \<lparr>z_initial = 10800000000, z_trans = []\<rparr>)
     (Aware (combine 739000 72000000000)) ([77]) (Some 1380) (Some 420) False
     = Inr (combine 739001 14400000000)"
    by (simp add: quiet_hours_available_at_def validate_quiet_hours_def minute_invalid_def
        in_quiet_hours_def minute_of_day_def time_part_def date_part_def combine_def date_add_def
        resolve_eval)
  have z: "load_zone (\<lambda>n. Some \<lparr>z_initial = 10800000000, z_trans = []\<rparr>) [77]
     = Inr \<lparr>z_initial = 10800000000, z_trans = []\<rparr>" by (simp add: resolve_eval)
  from quiet_hours_released_outside [OF * z] * show ?thesis by (simp add: zone_ok_def)
qed

text \<open>
rules survive their JSON form, and only valid rules come out of it.  With \<open>fromisoformat\<close>
inverting \<open>isoformat\<close> on the rule's own \<open>until_local\<close>, reading the dumped rule gives back that
rule if and only if it is valid.
\<close>

theorem rule_json_round_trip:
  assumes "\<And>t. r_until r = Some t \<Longrightarrow> fromisoformat (isoformat t) = Some (Naive t)"
  shows "rule_from_json fromisoformat (Some (rule_to_json isoformat r)) = Inr r \<longleftrightarrow> rule_ok r"
proof -
  obtain d where d: "rule_to_json isoformat r = PDict d" by (simp add: rule_to_json_def)
  have "rule_from_json fromisoformat (Some (rule_to_json isoformat r)) =
      make_rule (PStr (kind_value (r_kind r))) (PInt (r_interval r))
        (map PInt (r_weekdays r)) (opt_pyint (r_monthday r)) (opt_pyint (r_count r))
        (map_option Naive (r_until r))"
    unfolding rule_from_json_def d
    by (simp add: rule_to_json_get [OF d] rule_json_until [OF assms])
  then show ?thesis using make_rule_eq make_rule_rule_ok by metis
qed

theorem rule_json_round_trip_witness:
  "rule_from_json (\<lambda>s. Some (Naive (combine 740000 0)))
     (Some (rule_to_json (\<lambda>t. u ''2027-01-19T00:00:00'')
       \<lparr>r_kind = WEEKLY, r_interval = 2, r_weekdays = [0, 4], r_monthday = None,
        r_count = Some 5, r_until = Some (combine 740000 0)\<rparr>))
   = Inr \<lparr>r_kind = WEEKLY, r_interval = 2, r_weekdays = [0, 4], r_monthday = None,
        r_count = Some 5, r_until = Some (combine 740000 0)\<rparr>"
  by (subst rule_json_round_trip) (simp_all add: rule_ok_def)

end
