(* ===== verification/Database.thy ===== *)
theory Database
  imports Reminder_Schedule Complex_Main
begin

text \<open>
  The schema of \<open>sqlite_schema.py\<close>: one record per table, the database as the record of
  its tables (each the list of its rows in rowid order), the deletes with their
  \<open>ON DELETE CASCADE\<close>, and the migration loop of \<open>open_state_database\<close>.

  Timestamp columns hold fixed-width ISO texts of UTC instants, which order as the instants
  do; they are \<open>int\<close>s here.  \<open>recurrence_json\<close> holds the dumped rule, which reads back as
  the same rule (the round trip of the JSON form in \<open>Reminder_Schedule\<close>); the column is the
  rule.  A \<open>REAL\<close> is a rational number.
\<close>

section \<open>Status columns\<close>

datatype lifecycle_state = L_Active | L_Reset

datatype task_status =
  T_Awaiting | T_Active | T_NeedsReview | T_Completed | T_Cancelled

datatype job_status =
  J_Draft | J_Awaiting | J_Active | J_NeedsReview | J_Completed | J_Cancelled

datatype run_status =
  R_Due | R_Missed | R_Claimed | R_Delivered | R_Failed | R_Cancelled

datatype outbox_status = O_Pending | O_Leased | O_Sent | O_Failed | O_Cancelled

datatype confirmation_outcome = C_Confirmed | C_Cancelled

datatype session_status = S_Active | S_Closed

datatype turn_role = User | Assistant

datatype failure_stage = F_Provider | F_Delivery

datatype summary_status = SM_Active | SM_Invalidated

datatype memory_scope = Shared | Persona_Private | Relationship_Scope

datatype memory_status = M_Active | M_Deleted

datatype memory_source = Manual | Automatic

datatype memory_category = Cat_Fact | Cat_Preference | Cat_Goal | Cat_Constraint
  | Cat_Relationship | Cat_Event

datatype extraction_status = E_Pending | E_Processing | E_Completed | E_Failed | E_Discarded

section \<open>Rows\<close>

record profile =
  p_user :: int
  p_timezone :: pystr
  p_created :: int
  p_epoch :: int
  p_state :: lifecycle_state
  p_quiet_start :: "int option"
  p_quiet_end :: "int option"

record voice_pack =
  v_status :: "pystr list"
  v_notice :: "pystr list"
  v_command :: "pystr list"
  v_error :: "pystr list"

record persona_row =
  pr_id :: int
  pr_profile :: pystr
  pr_key :: pystr
  pr_display :: pystr
  pr_prompt :: pystr
  pr_identity :: int
  pr_active :: bool

record persona_version_row =
  pv_id :: int
  pv_persona :: int
  pv_identity :: int
  pv_display :: pystr
  pv_prompt :: pystr
  pv_voice :: voice_pack
  pv_hash :: pystr
  pv_created :: int

record conversation =
  cv_id :: int
  cv_chat :: int
  cv_key :: pystr
  cv_version :: int

record lane =
  l_id :: int
  l_conversation :: int
  l_key :: pystr
  l_identity :: int
  l_version :: "int option"

record session =
  s_id :: int
  s_lane :: int
  s_owner :: int
  s_generation :: int
  s_status :: session_status
  s_opened :: int
  s_closed :: "int option"

record turn =
  tu_id :: int
  tu_session :: int
  tu_sequence :: int
  tu_role :: turn_role
  tu_content :: pystr
  tu_response :: "pystr option"
  tu_created :: int

record failure =
  f_id :: int
  f_session :: int
  f_turn :: int
  f_stage :: failure_stage
  f_kind :: pystr
  f_created :: int

record summary =
  sm_id :: int
  sm_session :: int
  sm_owner :: int
  sm_content :: pystr
  sm_count :: int
  sm_epoch :: int
  sm_status :: summary_status
  sm_created :: int

record memory_row =
  m_id :: int
  m_user :: int
  m_scope :: memory_scope
  m_persona :: "int option"
  m_relationship :: "int option"
  m_kind :: pystr
  m_content :: pystr
  m_session :: "int option"
  m_status :: memory_status
  m_created :: int
  m_updated :: int
  m_version :: int
  m_source :: memory_source
  m_category :: "memory_category option"
  m_confidence :: "rat option"
  m_turn :: "int option"

record revision =
  rv_id :: int
  rv_memory :: int
  rv_owner :: int
  rv_version :: int
  rv_content :: pystr
  rv_category :: "memory_category option"
  rv_confidence :: "rat option"
  rv_changed :: int

record relationship =
  re_id :: int
  re_user :: int
  re_persona :: int
  re_summary :: pystr
  re_state :: pystr
  re_version :: int
  re_updated :: int

record extraction =
  e_id :: int
  e_owner :: int
  e_session :: int
  e_turn :: int
  e_epoch :: int
  e_status :: extraction_status
  e_attempt :: int
  e_error :: "pystr option"
  e_created :: int
  e_updated :: int

record confirmation =
  c_token :: pystr
  c_owner :: int
  c_type :: pystr
  c_payload :: pyval
  c_hash :: pystr
  c_created :: int
  c_expires :: int
  c_consumed :: "int option"
  c_outcome :: "confirmation_outcome option"
  c_resolved :: "int option"

record task =
  tk_id :: int
  tk_owner :: int
  tk_persona :: int
  tk_chat :: int
  tk_epoch :: int
  tk_text :: pystr
  tk_status :: task_status
  tk_created :: int
  tk_updated :: int

record job =
  j_id :: int
  j_task :: int
  j_owner :: int
  j_epoch :: int
  j_status :: job_status
  j_timezone :: pystr
  j_start :: int
  j_rule :: recurrence_rule
  j_next :: "int option"
  j_emitted :: int
  j_grace :: int
  j_quiet_start :: "int option"
  j_quiet_end :: "int option"
  j_urgent :: bool
  j_created :: int
  j_updated :: int

record run =
  rn_id :: int
  rn_job :: int
  rn_owner :: int
  rn_epoch :: int
  rn_scheduled :: int
  rn_status :: run_status
  rn_claimed :: "int option"
  rn_delivered :: "int option"
  rn_error :: "pystr option"
  rn_action :: "pystr option"
  rn_created :: int
  rn_updated :: int

record outbox =
  o_id :: int
  o_run :: int
  o_owner :: int
  o_epoch :: int
  o_chat :: int
  o_text :: pystr
  o_scheduled :: int
  o_available :: int
  o_status :: outbox_status
  o_attempt :: int
  o_token :: "pystr option"
  o_until :: "int option"
  o_message :: "int option"
  o_error :: "pystr option"
  o_created :: int
  o_updated :: int

record delivery_audit =
  da_id :: int
  da_owner :: int
  da_epoch :: int
  da_token :: pystr
  da_created :: int

record security_audit =
  sa_id :: int
  sa_owner :: int
  sa_epoch :: int
  sa_event :: pystr
  sa_hash :: "pystr option"
  sa_capability :: pystr
  sa_decision :: pystr
  sa_outcome :: pystr
  sa_started :: pystr
  sa_finished :: "pystr option"
  sa_created :: pystr

section \<open>The database\<close>

record db =
  profiles :: "profile list"
  personas :: "persona_row list"
  persona_versions :: "persona_version_row list"
  conversations :: "conversation list"
  lanes :: "lane list"
  sessions :: "session list"
  turns :: "turn list"
  failures :: "failure list"
  summaries :: "summary list"
  memories :: "memory_row list"
  revisions :: "revision list"
  relationships :: "relationship list"
  extractions :: "extraction list"
  confirmations :: "confirmation list"
  tasks :: "task list"
  jobs :: "job list"
  runs :: "run list"
  outboxes :: "outbox list"
  delivery_audits :: "delivery_audit list"
  security_audits :: "security_audit list"

text \<open>The empty schema: every table created by the migrations, no rows.\<close>

definition empty_db :: db where
  "empty_db = \<lparr>profiles = [], personas = [], persona_versions = [], conversations = [],
     lanes = [], sessions = [], turns = [], failures = [], summaries = [], memories = [],
     revisions = [], relationships = [], extractions = [], confirmations = [], tasks = [],
     jobs = [], runs = [], outboxes = [], delivery_audits = [], security_audits = []\<rparr>"

text \<open>Rows by primary key.\<close>

definition row_by :: "('r \<Rightarrow> int) \<Rightarrow> 'r list \<Rightarrow> int \<Rightarrow> 'r option" where
  "row_by k rows n = find (\<lambda>r. k r = n) rows"

abbreviation profile_of :: "db \<Rightarrow> int \<Rightarrow> profile option" where
  "profile_of s user \<equiv> row_by p_user (profiles s) user"

abbreviation task_of :: "db \<Rightarrow> int \<Rightarrow> task option" where
  "task_of s n \<equiv> row_by tk_id (tasks s) n"

abbreviation job_of :: "db \<Rightarrow> int \<Rightarrow> job option" where
  "job_of s n \<equiv> row_by j_id (jobs s) n"

abbreviation run_of :: "db \<Rightarrow> int \<Rightarrow> run option" where
  "run_of s n \<equiv> row_by rn_id (runs s) n"

abbreviation outbox_of :: "db \<Rightarrow> int \<Rightarrow> outbox option" where
  "outbox_of s n \<equiv> row_by o_id (outboxes s) n"

abbreviation session_of :: "db \<Rightarrow> int \<Rightarrow> session option" where
  "session_of s n \<equiv> row_by s_id (sessions s) n"

lemma row_by_Some: "row_by k rows n = Some r \<Longrightarrow> r \<in> set rows \<and> k r = n"
  by (auto simp: row_by_def dest: find_SomeD)

lemma row_by_None: "row_by k rows n = None \<longleftrightarrow> n \<notin> k ` set rows"
  by (auto simp: row_by_def find_None_iff)

lemma row_by_unique:
  "distinct (map k rows) \<Longrightarrow> r \<in> set rows \<Longrightarrow> row_by k rows (k r) = Some r"
  unfolding row_by_def by (rule find_unique)

lemma row_by_Some_iff:
  "distinct (map k rows) \<Longrightarrow> row_by k rows n = Some r \<longleftrightarrow> r \<in> set rows \<and> k r = n"
  using row_by_unique row_by_Some by metis

lemma row_by_update:
  assumes "\<And>r. k (f r) = k r"
  shows "row_by k (update_where P f rows) n =
    map_option (\<lambda>r. if P r then f r else r) (row_by k rows n)"
  using assms by (induction rows) (auto simp: row_by_def update_where_def)

lemma row_by_append:
  "row_by k (xs @ ys) n = (case row_by k xs n of Some r \<Rightarrow> Some r | None \<Rightarrow> row_by k ys n)"
  by (induction xs) (auto simp: row_by_def split: option.splits)

text \<open>\<open>CHECK(length(trim(text)) > 0)\<close>: SQLite trims spaces and counts up to the first NUL.\<close>

definition sql_nonblank :: "pystr \<Rightarrow> bool" where
  "sql_nonblank s \<longleftrightarrow> takeWhile (\<lambda>c. c \<noteq> 0) (dropWhile (\<lambda>c. c = 32) s) \<noteq> []"

text \<open>\<open>INSERT OR IGNORE INTO user_profile (user_id, created_at)\<close>, with the column defaults.\<close>

definition new_profile :: "int \<Rightarrow> int \<Rightarrow> profile" where
  "new_profile user now = \<lparr>p_user = user, p_timezone = u ''UTC'', p_created = now, p_epoch = 1,
     p_state = L_Active, p_quiet_start = None, p_quiet_end = None\<rparr>"

definition ensure_profile_row :: "int \<Rightarrow> int \<Rightarrow> db \<Rightarrow> db" where
  "ensure_profile_row user now s =
     (if profile_of s user = None then s\<lparr>profiles := profiles s @ [new_profile user now]\<rparr> else s)"

lemma ensure_profile_row_tables [simp]:
  "personas (ensure_profile_row user now s) = personas s"
  "persona_versions (ensure_profile_row user now s) = persona_versions s"
  "conversations (ensure_profile_row user now s) = conversations s"
  "lanes (ensure_profile_row user now s) = lanes s"
  "sessions (ensure_profile_row user now s) = sessions s"
  "turns (ensure_profile_row user now s) = turns s"
  "failures (ensure_profile_row user now s) = failures s"
  "summaries (ensure_profile_row user now s) = summaries s"
  "memories (ensure_profile_row user now s) = memories s"
  "revisions (ensure_profile_row user now s) = revisions s"
  "relationships (ensure_profile_row user now s) = relationships s"
  "extractions (ensure_profile_row user now s) = extractions s"
  "confirmations (ensure_profile_row user now s) = confirmations s"
  "tasks (ensure_profile_row user now s) = tasks s"
  "jobs (ensure_profile_row user now s) = jobs s"
  "runs (ensure_profile_row user now s) = runs s"
  "outboxes (ensure_profile_row user now s) = outboxes s"
  "delivery_audits (ensure_profile_row user now s) = delivery_audits s"
  "security_audits (ensure_profile_row user now s) = security_audits s"
  by (simp_all add: ensure_profile_row_def)

lemma ensure_profile_row_again: "profile_of s user \<noteq> None \<Longrightarrow> ensure_profile_row user now s = s"
  by (simp add: ensure_profile_row_def)

lemma ensure_profile_row_present: "profile_of (ensure_profile_row user now s) user \<noteq> None"
  by (auto simp: ensure_profile_row_def new_profile_def row_by_def find_append split: option.split)

section \<open>Deletes with their cascades\<close>

text \<open>
  \<open>delivery_outbox\<close> references \<open>reminder_run\<close>, which references \<open>reminder_job\<close>, which
  references \<open>task\<close>, each by \<open>(id, owner_user_id, lifecycle_epoch)\<close>.
\<close>

definition delete_runs :: "(run \<Rightarrow> bool) \<Rightarrow> db \<Rightarrow> db" where
  "delete_runs P s = s\<lparr>runs := delete_where P (runs s),
     outboxes := delete_where (\<lambda>ob. list_ex (\<lambda>r. P r \<and> rn_id r = o_run ob \<and> rn_owner r = o_owner ob
        \<and> rn_epoch r = o_epoch ob) (runs s)) (outboxes s)\<rparr>"

definition delete_jobs :: "(job \<Rightarrow> bool) \<Rightarrow> db \<Rightarrow> db" where
  "delete_jobs P s = (delete_runs (\<lambda>r. list_ex (\<lambda>j. P j \<and> j_id j = rn_job r \<and> j_owner j = rn_owner r
        \<and> j_epoch j = rn_epoch r) (jobs s)) s)\<lparr>jobs := delete_where P (jobs s)\<rparr>"

definition delete_tasks :: "(task \<Rightarrow> bool) \<Rightarrow> db \<Rightarrow> db" where
  "delete_tasks P s = (delete_jobs (\<lambda>j. list_ex (\<lambda>t. P t \<and> tk_id t = j_task j \<and> tk_owner t = j_owner j
        \<and> tk_epoch t = j_epoch j) (tasks s)) s)\<lparr>tasks := delete_where P (tasks s)\<rparr>"

text \<open>\<open>memory_revision\<close> references \<open>memory\<close>, which references \<open>relationship\<close> by \<open>(id, user_id)\<close>.\<close>

definition delete_memories :: "(memory_row \<Rightarrow> bool) \<Rightarrow> db \<Rightarrow> db" where
  "delete_memories P s = s\<lparr>memories := delete_where P (memories s),
     revisions := delete_where (\<lambda>v. list_ex (\<lambda>m. P m \<and> m_id m = rv_memory v) (memories s))
       (revisions s)\<rparr>"

definition delete_relationships :: "(relationship \<Rightarrow> bool) \<Rightarrow> db \<Rightarrow> db" where
  "delete_relationships P s =
     (delete_memories (\<lambda>m. list_ex (\<lambda>r. P r \<and> m_relationship m = Some (re_id r)
        \<and> re_user r = m_user m) (relationships s)) s)
       \<lparr>relationships := delete_where P (relationships s)\<rparr>"

text \<open>
  \<open>transcript_failure\<close> references \<open>transcript_turn\<close> and \<open>session\<close>; turns, summaries and
  extraction runs reference \<open>session\<close>, which references \<open>persona_session\<close>.
\<close>

definition delete_turns :: "(turn \<Rightarrow> bool) \<Rightarrow> db \<Rightarrow> db" where
  "delete_turns P s = s\<lparr>turns := delete_where P (turns s),
     failures := delete_where (\<lambda>f. list_ex (\<lambda>t. P t \<and> tu_id t = f_turn f \<and> tu_session t = f_session f)
       (turns s)) (failures s)\<rparr>"

definition delete_sessions :: "(session \<Rightarrow> bool) \<Rightarrow> db \<Rightarrow> db" where
  "delete_sessions P s =
     (let gone = (\<lambda>n. list_ex (\<lambda>x. P x \<and> s_id x = n) (sessions s)) in
      s\<lparr>sessions := delete_where P (sessions s),
        turns := delete_where (\<lambda>t. gone (tu_session t)) (turns s),
        failures := delete_where (\<lambda>f. gone (f_session f)) (failures s),
        summaries := delete_where (\<lambda>m. gone (sm_session m)) (summaries s),
        extractions := delete_where (\<lambda>e. gone (e_session e)) (extractions s)\<rparr>)"

definition delete_lanes :: "(lane \<Rightarrow> bool) \<Rightarrow> db \<Rightarrow> db" where
  "delete_lanes P s =
     (delete_sessions (\<lambda>x. list_ex (\<lambda>l. P l \<and> l_id l = s_lane x) (lanes s)) s)
       \<lparr>lanes := delete_where P (lanes s)\<rparr>"

section \<open>Migrations\<close>

text \<open>
  \<open>open_state_database\<close>: one migration per version, each in a transaction that also
  writes \<open>user_version\<close>; a database newer than the code is refused.  The migrations
  themselves are functions of the database (\<open>'s\<close>), of which there are
  \<open>length migrations = CURRENT_SCHEMA_VERSION\<close>.
\<close>

type_synonym 's migration = "'s \<Rightarrow> 's result"

definition apply_migration ::
    "'s migration list \<Rightarrow> nat \<Rightarrow> (nat \<times> 's) \<Rightarrow> unit result \<times> (nat \<times> 's)" where
  "apply_migration migrations target = transaction (\<lambda>(version, s).
     if target \<le> version then Inr ((), (version, s))
     else if Suc version \<noteq> target
       then Inl (RuntimeError ''cannot apply schema version out of order'')
     else bindE ((migrations ! (target - 1)) s) (\<lambda>s'. Inr ((), (target, s'))))"

function open_state_database ::
    "'s migration list \<Rightarrow> (nat \<times> 's) \<Rightarrow> unit result \<times> (nat \<times> 's)" where
  "open_state_database migrations st =
     (if length migrations < fst st
        then (Inl (RuntimeError ''database schema version is newer than supported''), st)
      else if fst st = length migrations then (Inr (), st)
      else (case apply_migration migrations (Suc (fst st)) st of
              (Inl e, st') \<Rightarrow> (Inl e, st')
            | (Inr _, st') \<Rightarrow> open_state_database migrations st'))"
  by pat_completeness auto

lemma apply_migration_step:
  assumes "apply_migration migrations (Suc (fst st)) st = (r, st')"
  shows "(\<exists>e. r = Inl e \<and> st' = st)
    \<or> (\<exists>s'. r = Inr () \<and> st' = (Suc (fst st), s') \<and> (migrations ! fst st) (snd st) = Inr s')"
  using assms by (cases st) (auto simp: apply_migration_def transaction_def bindE_def
      split: sum.splits prod.splits)

termination open_state_database
  by (relation "measure (\<lambda>(migrations, st). length migrations - fst st)")
    (auto dest!: sym [of "(_, _)" "apply_migration _ _ _"] apply_migration_step)

text \<open>The migrations one after the other, the reference for the loop.\<close>

fun fold_migrations :: "'s migration list \<Rightarrow> 's \<Rightarrow> 's result" where
  "fold_migrations [] s = Inr s"
| "fold_migrations (m # ms) s = bindE (m s) (fold_migrations ms)"

lemma open_state_database_prefix:
  assumes "open_state_database ms st = (r, st')" and "fst st \<le> length ms"
  shows "fst st \<le> fst st' \<and> fst st' \<le> length ms
    \<and> fold_migrations (take (fst st' - fst st) (drop (fst st) ms)) (snd st) = Inr (snd st')
    \<and> (r = Inr () \<longrightarrow> fst st' = length ms)
    \<and> (\<forall>e. r = Inl e \<longrightarrow> fst st' < length ms \<and> (ms ! fst st') (snd st') = Inl e)"
  using assms
proof (induction ms st rule: open_state_database.induct)
  case (1 ms st)
  show ?case
  proof (cases "fst st = length ms")
    case True
    with 1(2) show ?thesis by (auto simp: open_state_database.simps [of ms st])
  next
    case False
    with 1(3) have lt: "fst st < length ms" by simp
    obtain q st1 where a: "apply_migration ms (Suc (fst st)) st = (q, st1)"
      by (cases "apply_migration ms (Suc (fst st)) st")
    show ?thesis
    proof (cases q)
      case (Inl e)
      with a 1(2) lt have "r = Inl e" "st' = st1"
        by (simp_all add: open_state_database.simps [of ms st])
      moreover have "st1 = st \<and> (ms ! fst st) (snd st) = Inl e"
        using a Inl by (cases st) (auto simp: apply_migration_def transaction_def bindE_def
            split: sum.splits)
      ultimately show ?thesis using lt by simp
    next
      case (Inr b)
      with apply_migration_step [OF a] obtain s1 where
        s1: "st1 = (Suc (fst st), s1)" "(ms ! fst st) (snd st) = Inr s1" by auto
      have o1: "open_state_database ms st1 = (r, st')"
        using 1(2) a lt Inr by (simp add: open_state_database.simps [of ms st])
      have IH: "fst st1 \<le> fst st' \<and> fst st' \<le> length ms
          \<and> fold_migrations (take (fst st' - fst st1) (drop (fst st1) ms)) (snd st1) = Inr (snd st')
          \<and> (r = Inr () \<longrightarrow> fst st' = length ms)
          \<and> (\<forall>e. r = Inl e \<longrightarrow> fst st' < length ms \<and> (ms ! fst st') (snd st') = Inl e)"
        by (rule 1(1) [OF _ _ a [symmetric] _ o1]) (use lt Inr s1 in auto)
      have "drop (fst st) ms = ms ! fst st # drop (Suc (fst st)) ms"
        using lt by (rule Cons_nth_drop_Suc [symmetric])
      moreover have "fst st' - fst st = Suc (fst st' - Suc (fst st))" using IH s1 by (simp; arith)
      ultimately have "fold_migrations (take (fst st' - fst st) (drop (fst st) ms)) (snd st)
          = Inr (snd st')"
        using IH s1 by simp
      then show ?thesis using IH s1 by auto
    qed
  qed
qed

text \<open>
opening a state database.  For a database no newer than the code, \<open>open_state_database\<close>
applies the missing migrations in order, each exactly once: the result is the migrations from
the stored version up to the version it then records, it returns exactly when that is the
current version, and a failing migration leaves version and database as the last successful
one left them.
\<close>

theorem open_state_database_applies_missing:
  assumes "open_state_database migrations (version, s) = (r, (version', s'))"
    and "version \<le> length migrations"
  shows "version \<le> version' \<and> version' \<le> length migrations
    \<and> fold_migrations (take (version' - version) (drop version migrations)) s = Inr s'
    \<and> (r = Inr () \<longleftrightarrow> version' = length migrations)
    \<and> (\<forall>e. r = Inl e \<longrightarrow> (migrations ! version') s' = Inl e)"
  using open_state_database_prefix [OF assms(1)] assms(2)
  by (cases r) auto

theorem open_state_database_applies_missing_witness:
  "open_state_database [\<lambda>s. Inr (s @ [1]), \<lambda>s. Inr (s @ [2]), \<lambda>s. Inr (s @ [3])] (1, [0 :: nat])
     = (Inr (), (3, [0, 2, 3]))
   \<and> fold_migrations [\<lambda>s. Inr (s @ [2]), \<lambda>s. Inr (s @ [3])] [0 :: nat] = Inr [0, 2, 3]"
proof -
  have *: "open_state_database [\<lambda>s. Inr (s @ [1]), \<lambda>s. Inr (s @ [2]), \<lambda>s. Inr (s @ [3])]
      (1, [0 :: nat]) = (Inr (), (3, [0, 2, 3]))"
    by (simp add: open_state_database.simps apply_migration_def transaction_def)
  from open_state_database_applies_missing [OF *] * show ?thesis by (simp add: numeral_2_eq_2)
qed

end
