(* ===== verification/Personas.thy ===== *)
theory Personas
  imports Database
begin

text \<open>
  Personas and their voices (\<open>personas.py\<close>): the validation of voice templates with the parser of
  \<open>string.Formatter\<close>, voice packs with their dictionary form and rendering, the renderer that
  cycles through the variants, persona linting, and the catalog. Proved: a pack is read back from
  its dictionary, a valid template renders whenever its placeholders have values, and the
  catalog returns exactly its own personas. \<open>casefold\<close> stands for \<open>str.casefold\<close>.
\<close>

section \<open>Format strings\<close>

text \<open>
  A piece of a parsed format string: a literal text, or a field with its name, its format
  specification and its conversion character.
\<close>

datatype format_piece = Literal pystr | Field pystr pystr "nat option"

text \<open>
  The name of a field runs to the first closing brace, colon or exclamation mark outside square
  brackets; an opening brace in it is an error. The flag says whether a bracket is open.
\<close>

fun scan_name :: "bool \<Rightarrow> pystr \<Rightarrow> (pystr \<times> nat \<times> pystr) result" where
  "scan_name br [] = Inl (ValueError ''expected '}' before end of string'')"
| "scan_name br (c # cs) =
     (if br then bindE (scan_name (c \<noteq> 93) cs) (\<lambda>(n, t, r). Inr (c # n, t, r))
      else if c = 123 then Inl (ValueError ''unexpected '{' in field name'')
      else if c = 125 \<or> c = 58 \<or> c = 33 then Inr ([], c, cs)
      else bindE (scan_name (c = 91) cs) (\<lambda>(n, t, r). Inr (c # n, t, r)))"

text \<open>The format specification runs to the brace that closes the field; braces nest in it.\<close>

fun scan_spec :: "nat \<Rightarrow> pystr \<Rightarrow> (pystr \<times> pystr) result" where
  "scan_spec depth [] = Inl (ValueError ''unmatched '{' in format spec'')"
| "scan_spec depth (c # cs) =
     (if c = 125 then
        (if depth \<le> 1 then Inr ([], cs)
         else bindE (scan_spec (depth - 1) cs) (\<lambda>(s, r). Inr (c # s, r)))
      else bindE (scan_spec (if c = 123 then depth + 1 else depth) cs) (\<lambda>(s, r). Inr (c # s, r)))"

definition parse_field :: "pystr \<Rightarrow> (format_piece \<times> pystr) result" where
  "parse_field s = bindE (scan_name False s) (\<lambda>(name, t, r).
     if t = 125 then Inr (Field name [] None, r)
     else if t = 58 then bindE (scan_spec 1 r) (\<lambda>(spec, r'). Inr (Field name spec None, r'))
     else (case r of
         [] \<Rightarrow> Inl (ValueError ''end of string while looking for conversion specifier'')
       | conv # r1 \<Rightarrow>
          (case r1 of
             [] \<Rightarrow> Inl (ValueError ''unmatched '{' in format spec'')
           | d # r2 \<Rightarrow>
              if d = 125 then Inr (Field name [] (Some conv), r2)
              else if d \<noteq> 58 then Inl (ValueError ''expected ':' after conversion specifier'')
              else bindE (scan_spec 1 r2) (\<lambda>(spec, r'). Inr (Field name spec (Some conv), r')))))"

lemma scan_name_length: "scan_name br s = Inr (n, t, r) \<Longrightarrow> length r < length s"
  by (induction br s arbitrary: n t r rule: scan_name.induct)
    (fastforce simp: bindE_eq_Inr split: if_splits)+

lemma scan_spec_length: "scan_spec depth s = Inr (n, r) \<Longrightarrow> length r < length s"
  by (induction depth s arbitrary: n r rule: scan_spec.induct)
    (fastforce simp: bindE_eq_Inr split: if_splits)+

lemma parse_field_length: "parse_field s = Inr (p, r) \<Longrightarrow> length r < length s"
  unfolding parse_field_def bindE_eq_Inr
  by (auto simp: bindE_eq_Inr split: if_splits list.splits dest!: scan_name_length scan_spec_length)

text \<open>\<open>Formatter().parse\<close>: doubled braces are literal, a single one opens a field or is an error.\<close>

function parse_format :: "pystr \<Rightarrow> format_piece list result" where
  "parse_format s =
     (let lit = takeWhile (\<lambda>c. c \<noteq> 123 \<and> c \<noteq> 125) s; rest = dropWhile (\<lambda>c. c \<noteq> 123 \<and> c \<noteq> 125) s in
      case rest of
        [] \<Rightarrow> Inr (if lit = [] then [] else [Literal lit])
      | [c] \<Rightarrow> Inl (ValueError (if c = 123 then ''Single '{' encountered in format string''
                 else ''Single '}' encountered in format string''))
      | c # d # r \<Rightarrow>
          if c = d then bindE (parse_format r) (\<lambda>ps. Inr (Literal (lit @ [c]) # ps))
          else if c = 125 then Inl (ValueError ''Single '}' encountered in format string'')
          else (case parse_field (d # r) of
              Inl e \<Rightarrow> Inl e
            | Inr (f, r') \<Rightarrow> bindE (parse_format r') (\<lambda>ps. Inr ((if lit = [] then [] else [Literal lit]) @ f # ps))))"
  by pat_completeness auto

termination parse_format
proof (relation "measure length", goal_cases)
  case (2 s lit rest c e d r)
  have "length rest \<le> length s" using 2(2) by (simp add: length_dropWhile_le)
  moreover have "length rest = Suc (Suc (length r))" using 2(3,4) by (metis length_Cons)
  ultimately show ?case by simp
next
  case (3 s lit rest c e d r b f r')
  have "length rest \<le> length s" using 3(2) by (simp add: length_dropWhile_le)
  moreover have "length rest = Suc (length (d # r))" using 3(3,4) by (metis length_Cons)
  moreover have "length r' < length (d # r)" using 3 parse_field_length by metis
  ultimately show ?case by simp
qed simp

declare parse_format.simps [simp del]

section \<open>Voice templates\<close>

definition voice_max_variants :: nat where "voice_max_variants = 16"
definition voice_max_chars :: nat where "voice_max_chars = 500"

definition allowed_placeholders :: "pystr list" where
  "allowed_placeholders = [u ''persona'', u ''key'', u ''text'', u ''page'', u ''id'', u ''count'']"

definition banned_phrases :: "pystr list" where
  "banned_phrases = [u ''as an ai'', u ''you are an ai'', u ''an ai assistant'', u ''how can i help'',
     [1082, 1072, 1082, 32, 1080, 1089, 1082, 1091, 1089, 1089, 1090, 1074, 1077, 1085, 1085, 1099, 1081, 32,
      1080, 1085, 1090, 1077, 1083, 1083, 1077, 1082, 1090],
     [1074, 1072, 1096, 32, 1079, 1072, 1087, 1088, 1086, 1089, 32, 1086, 1073, 1088, 1072, 1073, 1086, 1090,
      1072, 1085],
     [1095, 1077, 1084, 32, 1084, 1086, 1075, 1091, 32, 1087, 1086, 1084, 1086, 1095, 1100],
     [1095, 1077, 1084, 32, 1087, 1086, 1084, 1086, 1095, 1100]]"

definition anti_template_markers :: "pystr list" where
  "anti_template_markers = [u ''canned'', u ''robotic'', u ''anti-template'', u ''anti template'',
     [1082, 1072, 1085, 1094, 1077, 1083, 1103, 1088, 1080, 1090],
     [1090, 1080, 1082, 32, 1072, 1089, 1089, 1080, 1089, 1090, 1077, 1085, 1090, 1072]]"

definition check_field :: "format_piece \<Rightarrow> unit result" where
  "check_field p = (case p of
     Literal _ \<Rightarrow> Inr ()
   | Field name spec conv \<Rightarrow>
       guardE (name = [] \<or> list_ex (\<lambda>c. c \<in> {46, 91, 93}) name \<or> spec \<noteq> [] \<or> conv \<noteq> None)
         (ValueError ''voice template placeholder is invalid'')
       (guardE (name \<notin> set allowed_placeholders)
         (ValueError ''voice template placeholder is not allowlisted'') (Inr ())))"

definition validate_template :: "(pystr \<Rightarrow> pystr) \<Rightarrow> pyval \<Rightarrow> pystr result" where
  "validate_template casefold value = (case value of
     PStr template \<Rightarrow>
       guardE (is_blank template) (ValueError ''voice template must be a non-empty string'')
       (guardE (voice_max_chars < length template) (ValueError ''voice template exceeds the bounded limit'')
       (guardE (list_ex (\<lambda>p. contains p (casefold template)) banned_phrases)
          (ValueError ''voice template contains a banned phrase'')
       (case parse_format template of
          Inl e \<Rightarrow> Inl (if is_value_error e then ValueError ''voice template format is invalid'' else e)
        | Inr parsed \<Rightarrow> bindE (mapE check_field parsed) (\<lambda>_. Inr template))))
   | _ \<Rightarrow> Inl (ValueError ''voice template must be a non-empty string''))"

section \<open>Voice packs\<close>

definition voice_values :: "(pystr \<Rightarrow> pystr) \<Rightarrow> string \<Rightarrow> pyval \<Rightarrow> pystr list result" where
  "voice_values casefold kind value = (case value of
     PList vs \<Rightarrow>
       guardE (voice_max_variants < length vs)
         (ValueError (''voice '' @ kind @ '' collection exceeds the bounded limit''))
       (mapE (validate_template casefold) vs)
   | _ \<Rightarrow> Inl (ValueError (''voice '' @ kind @ '' collection must be an array'')))"

text \<open>\<open>VoicePack(..)\<close> with its \<open>__post_init__\<close>: the four collections in their order.\<close>

definition make_voice_pack :: "(pystr \<Rightarrow> pystr) \<Rightarrow> pyval \<Rightarrow> pyval \<Rightarrow> pyval \<Rightarrow> pyval \<Rightarrow> voice_pack result" where
  "make_voice_pack casefold st no co er =
     bindE (voice_values casefold ''status'' st) (\<lambda>st'.
     bindE (voice_values casefold ''notice'' no) (\<lambda>no'.
     bindE (voice_values casefold ''command'' co) (\<lambda>co'.
     bindE (voice_values casefold ''error'' er) (\<lambda>er'.
       Inr \<lparr>v_status = st', v_notice = no', v_command = co', v_error = er'\<rparr>))))"

definition empty_voice :: voice_pack where
  "empty_voice = \<lparr>v_status = [], v_notice = [], v_command = [], v_error = []\<rparr>"

definition voice_kinds :: "pystr list" where
  "voice_kinds = [u ''status'', u ''notice'', u ''command'', u ''error'']"

definition voice_from_mapping :: "(pystr \<Rightarrow> pystr) \<Rightarrow> pyval \<Rightarrow> voice_pack result" where
  "voice_from_mapping casefold value = (case value of
     PNone \<Rightarrow> Inr empty_voice
   | PDict d \<Rightarrow>
       guardE (\<not> set (map fst d) \<subseteq> set voice_kinds) (ValueError ''personas.voice contains an unknown field'')
       (make_voice_pack casefold (dict_get d (u ''status'') (PList [])) (dict_get d (u ''notice'') (PList []))
          (dict_get d (u ''command'') (PList [])) (dict_get d (u ''error'') (PList [])))
   | _ \<Rightarrow> Inl (ValueError ''personas.voice must be a table''))"

definition voice_as_dict :: "voice_pack \<Rightarrow> pyval" where
  "voice_as_dict v = PDict [(u ''status'', PList (map PStr (v_status v))),
     (u ''notice'', PList (map PStr (v_notice v))), (u ''command'', PList (map PStr (v_command v))),
     (u ''error'', PList (map PStr (v_error v)))]"

definition voice_variants :: "voice_pack \<Rightarrow> pystr \<Rightarrow> pystr list" where
  "voice_variants v kind =
     (if kind = u ''status'' then v_status v else if kind = u ''notice'' then v_notice v
      else if kind = u ''command'' then v_command v else v_error v)"

text \<open>
  \<open>template.format(**values)\<close> on the simple fields of a validated template; the other fields,
  which validation excludes, count as errors.
\<close>

fun render_pieces :: "(pystr \<Rightarrow> pystr option) \<Rightarrow> format_piece list \<Rightarrow> pystr result" where
  "render_pieces values [] = Inr []"
| "render_pieces values (Literal l # ps) = bindE (render_pieces values ps) (\<lambda>r. Inr (l @ r))"
| "render_pieces values (Field name spec conv # ps) =
     (if spec \<noteq> [] \<or> conv \<noteq> None then Inl (ValueError ''voice template values are invalid'')
      else case values name of
          None \<Rightarrow> Inl (ValueError ''voice template values are invalid'')
        | Some t \<Rightarrow> bindE (render_pieces values ps) (\<lambda>r. Inr (t @ r)))"

definition voice_render ::
    "voice_pack \<Rightarrow> pystr \<Rightarrow> nat \<Rightarrow> pystr \<Rightarrow> (pystr \<Rightarrow> pystr option) \<Rightarrow> pystr result" where
  "voice_render v kind index fallback values =
     guardE (kind \<notin> set voice_kinds) (ValueError ''unknown voice template kind'')
     (let variants = voice_variants v kind in
      if variants = [] then Inr fallback
      else case parse_format (variants ! (index mod length variants)) of
          Inl e \<Rightarrow> Inl (ValueError ''voice template values are invalid'')
        | Inr parsed \<Rightarrow> render_pieces values parsed)"

section \<open>Personas, renderer, catalog\<close>

record persona =
  pe_key :: pystr
  pe_display :: pystr
  pe_prompt :: pystr
  pe_identity :: int
  pe_voice :: voice_pack

type_synonym voice_indexes = "(pystr \<times> int \<times> pystr) \<Rightarrow> nat"

text \<open>
  \<open>VoiceRenderer.render\<close>: the index of the persona version and the kind moves on at every
  call, and the caller's values go over the name and the key of the persona.
\<close>

definition template_values :: "persona \<Rightarrow> (pystr \<times> pystr) list \<Rightarrow> pystr \<Rightarrow> pystr option" where
  "template_values p extra = map_of (rev ([(u ''persona'', pe_display p), (u ''key'', pe_key p)] @ extra))"

definition renderer_render ::
    "persona \<Rightarrow> pystr \<Rightarrow> pystr \<Rightarrow> (pystr \<times> pystr) list \<Rightarrow> voice_indexes \<Rightarrow> pystr result \<times> voice_indexes" where
  "renderer_render p kind fallback extra indexes =
     (let k = (pe_key p, pe_identity p, kind); index = indexes k in
      (voice_render (pe_voice p) kind index fallback (template_values p extra), indexes(k := index + 1)))"

definition persona_payload :: "persona \<Rightarrow> pyval" where
  "persona_payload p = PDict [(u ''key'', PStr (pe_key p)), (u ''display_name'', PStr (pe_display p)),
     (u ''identity_prompt'', PStr (pe_prompt p)), (u ''identity_version'', PInt (pe_identity p)),
     (u ''voice'', voice_as_dict (pe_voice p))]"

text \<open>\<open>persona_content_hash\<close>; \<open>digest\<close> is the SHA-256 of the canonical JSON text.\<close>

definition persona_content_hash :: "(pyval \<Rightarrow> pystr) \<Rightarrow> persona \<Rightarrow> pystr" where
  "persona_content_hash digest p = digest (persona_payload p)"

definition lint_persona :: "(pystr \<Rightarrow> pystr) \<Rightarrow> persona \<Rightarrow> string list" where
  "lint_persona casefold p =
     (if is_blank (pe_prompt p) then [''identity prompt must be a non-empty string'']
      else (let lowered = casefold (pe_prompt p) in
        (if list_ex (\<lambda>b. contains b lowered) banned_phrases
         then [''identity prompt contains a banned phrase''] else [])
        @ (if list_ex (\<lambda>k. voice_variants (pe_voice p) k \<noteq> []) voice_kinds
              \<and> \<not> list_ex (\<lambda>m. contains m lowered) anti_template_markers
           then [''identity prompt lacks anti-template guidance''] else [])))"

record catalog =
  cat_personas :: "persona list"
  cat_default :: pystr

fun first_lint :: "(pystr \<Rightarrow> pystr) \<Rightarrow> persona list \<Rightarrow> string option" where
  "first_lint casefold [] = None"
| "first_lint casefold (p # ps) = (case lint_persona casefold p of [] \<Rightarrow> first_lint casefold ps | e # _ \<Rightarrow> Some e)"

definition make_catalog :: "(pystr \<Rightarrow> pystr) \<Rightarrow> persona list \<Rightarrow> pystr \<Rightarrow> catalog result" where
  "make_catalog casefold ps default_key =
     guardE (ps = []) (ValueError ''persona catalog cannot be empty'')
     (case first_lint casefold ps of
        Some e \<Rightarrow> Inl (ValueError e)
      | None \<Rightarrow>
         guardE (\<not> distinct (map pe_key ps)) (ValueError ''persona keys must be unique'')
         (guardE (default_key \<notin> pe_key ` set ps) (ValueError ''default persona must exist in catalog'')
           (Inr \<lparr>cat_personas = ps, cat_default = default_key\<rparr>)))"

definition catalog_get :: "catalog \<Rightarrow> pystr \<Rightarrow> persona option" where
  "catalog_get c key = find (\<lambda>p. pe_key p = key) (cat_personas c)"

section \<open>Properties\<close>

definition valid_voice :: "(pystr \<Rightarrow> pystr) \<Rightarrow> voice_pack \<Rightarrow> bool" where
  "valid_voice casefold v \<longleftrightarrow> (\<forall>kind \<in> set voice_kinds. length (voice_variants v kind) \<le> voice_max_variants
     \<and> (\<forall>t \<in> set (voice_variants v kind). validate_template casefold (PStr t) = Inr t))"

lemma voice_kind_ne [simp]: "u ''notice'' \<noteq> u ''status''" "u ''command'' \<noteq> u ''status''" "u ''command'' \<noteq> u ''notice''"
  "u ''error'' \<noteq> u ''status''" "u ''error'' \<noteq> u ''notice''" "u ''error'' \<noteq> u ''command''"
  "u ''status'' \<noteq> u ''notice''" "u ''status'' \<noteq> u ''command''" "u ''notice'' \<noteq> u ''command''"
  "u ''status'' \<noteq> u ''error''" "u ''notice'' \<noteq> u ''error''" "u ''command'' \<noteq> u ''error''"
  by (simp_all add: u_def)

lemma valid_voice_iff:
  "valid_voice casefold v \<longleftrightarrow> (\<forall>ts \<in> {v_status v, v_notice v, v_command v, v_error v}.
     length ts \<le> voice_max_variants \<and> (\<forall>t \<in> set ts. validate_template casefold (PStr t) = Inr t))"
  by (simp add: valid_voice_def voice_kinds_def voice_variants_def)

lemma validate_template_Inr: "validate_template casefold x = Inr t \<Longrightarrow> x = PStr t"
  by (auto simp: validate_template_def result_simps split: pyval.splits sum.splits)

lemma voice_values_Inr:
  assumes "voice_values casefold kind x = Inr ts"
  shows "length ts \<le> voice_max_variants \<and> (\<forall>t \<in> set ts. validate_template casefold (PStr t) = Inr t)"
proof -
  obtain vs where vs: "length vs \<le> voice_max_variants" "mapE (validate_template casefold) vs = Inr ts"
    using assms by (cases x) (auto simp: voice_values_def result_simps not_less)
  then have all: "list_all2 (\<lambda>v t. validate_template casefold v = Inr t) vs ts" by (simp add: mapE_Inr)
  have "validate_template casefold (PStr t) = Inr t" if t: "t \<in> set ts" for t
    using list_all2_right [OF all t] validate_template_Inr by auto
  with vs(1) list_all2_lengthD [OF all] show ?thesis by simp
qed

lemma voice_values_back:
  assumes "length ts \<le> voice_max_variants" and "\<forall>t \<in> set ts. validate_template casefold (PStr t) = Inr t"
  shows "voice_values casefold kind (PList (map PStr ts)) = Inr ts"
proof -
  have "mapE (validate_template casefold) (map PStr ts) = Inr ts"
    using assms(2) by (induction ts) auto
  with assms(1) show ?thesis by (simp add: voice_values_def)
qed

lemma make_voice_valid: "make_voice_pack casefold st no co er = Inr v \<Longrightarrow> valid_voice casefold v"
  unfolding make_voice_pack_def bindE_eq_Inr valid_voice_iff using voice_values_Inr by auto

lemma voice_from_mapping_valid: "voice_from_mapping casefold x = Inr v \<Longrightarrow> valid_voice casefold v"
  by (auto simp: voice_from_mapping_def result_simps valid_voice_iff empty_voice_def voice_max_variants_def
      split: pyval.splits dest: make_voice_valid)

lemma voice_dict_get [simp]:
  "dict_get [(u ''status'', a), (u ''notice'', b), (u ''command'', c), (u ''error'', d)] (u ''status'') e = a"
  "dict_get [(u ''status'', a), (u ''notice'', b), (u ''command'', c), (u ''error'', d)] (u ''notice'') e = b"
  "dict_get [(u ''status'', a), (u ''notice'', b), (u ''command'', c), (u ''error'', d)] (u ''command'') e = c"
  "dict_get [(u ''status'', a), (u ''notice'', b), (u ''command'', c), (u ''error'', d)] (u ''error'') e = d"
  by (simp_all add: dict_get_def)

text \<open>
A voice pack that was accepted is read back from its dictionary form unchanged, so the JSON
stored with a persona version always yields the pack it was written from.
\<close>
theorem voice_pack_round_trip:
  assumes "voice_from_mapping casefold value = Inr v"
  shows "voice_from_mapping casefold (voice_as_dict v) = Inr v"
proof -
  have "valid_voice casefold v" by (rule voice_from_mapping_valid [OF assms])
  then show ?thesis
    by (simp add: valid_voice_iff voice_as_dict_def voice_from_mapping_def voice_kinds_def make_voice_pack_def
        voice_values_back)
qed

definition demo_voice :: voice_pack where
  "demo_voice = \<lparr>v_status = [[123, 107, 101, 121, 125, 33]], v_notice = [], v_command = [], v_error = []\<rparr>"

lemma demo_template: "parse_format [123, 107, 101, 121, 125, 33] = Inr [Field (u ''key'') [] None, Literal [33]]"
  by (simp add: parse_format.simps parse_field_def u_def)

lemma demo_voice_ok: "voice_from_mapping id (voice_as_dict demo_voice) = Inr demo_voice"
proof -
  have "check_field (Field (u ''key'') [] None) = Inr ()"
    by (simp add: check_field_def allowed_placeholders_def u_def)
  moreover have "\<not> list_ex (\<lambda>p. contains p [123, 107, 101, 121, 125, 33]) banned_phrases"
    by (simp add: banned_phrases_def contains_def starts_with_def u_def)
  ultimately have "validate_template id (PStr [123, 107, 101, 121, 125, 33]) = Inr [123, 107, 101, 121, 125, 33]"
    by (simp add: validate_template_def demo_template voice_max_chars_def is_blank_def is_space_def check_field_def)
  then have "valid_voice id demo_voice" by (simp add: valid_voice_iff demo_voice_def voice_max_variants_def)
  then show ?thesis
    by (simp add: valid_voice_iff voice_as_dict_def voice_from_mapping_def voice_kinds_def make_voice_pack_def
        voice_values_back)
qed

theorem voice_pack_round_trip_witness:
  "voice_from_mapping id (voice_as_dict demo_voice) = Inr demo_voice \<and> v_status demo_voice \<noteq> []"
  using voice_pack_round_trip [OF demo_voice_ok] by (simp add: demo_voice_def)

lemma render_pieces_total:
  assumes "mapE check_field ps = Inr us" and "\<And>name. name \<in> set allowed_placeholders \<Longrightarrow> vals name \<noteq> None"
  shows "\<exists>t. render_pieces vals ps = Inr t"
  using assms(1)
proof (induction ps arbitrary: us)
  case (Cons p ps)
  then obtain t where t: "render_pieces vals ps = Inr t" by (auto simp: bindE_eq_Inr)
  show ?case
  proof (cases p)
    case (Field name spec conv)
    with Cons.prems have "name \<in> set allowed_placeholders" "spec = []" "conv = None"
      by (auto simp: bindE_eq_Inr check_field_def guardE_eq_Inr)
    obtain x where "vals name = Some x" using assms(2) \<open>name \<in> set allowed_placeholders\<close> by blast
    with t Field \<open>spec = []\<close> \<open>conv = None\<close> show ?thesis by simp
  qed (use t in simp)
qed simp

text \<open>
A persona's voice never fails at run time: for a pack that was accepted, any of the four
kinds, any index and values for the allowed placeholders, rendering returns a text; without
variants it is the fallback.
\<close>
theorem voice_render_total:
  assumes "voice_from_mapping casefold value = Inr v" and "kind \<in> set voice_kinds"
    and "\<forall>name \<in> set allowed_placeholders. vals name \<noteq> None"
  shows "\<exists>t. voice_render v kind index fallback vals = Inr t
    \<and> (voice_variants v kind = [] \<longrightarrow> t = fallback)"
proof (cases "voice_variants v kind = []")
  case True
  with assms(2) show ?thesis by (simp add: voice_render_def)
next
  case False
  define t where "t = voice_variants v kind ! (index mod length (voice_variants v kind))"
  have "t \<in> set (voice_variants v kind)" unfolding t_def using False by (intro nth_mem) simp
  then have "validate_template casefold (PStr t) = Inr t"
    using voice_from_mapping_valid [OF assms(1)] assms(2) by (simp add: valid_voice_def)
  then obtain ps us where "parse_format t = Inr ps" "mapE check_field ps = Inr us"
    by (auto simp: validate_template_def result_simps split: sum.splits)
  with render_pieces_total [of ps us vals] assms(2,3) False show ?thesis
    by (auto simp: voice_render_def t_def [symmetric] Let_def)
qed

theorem voice_render_total_witness:
  "\<exists>t. voice_render demo_voice (u ''status'') 5 [] (\<lambda>_. Some [120]) = Inr t"
  using voice_render_total [OF demo_voice_ok, of "u ''status''" "\<lambda>_. Some [120]" 5 "[]"] by (auto simp: voice_kinds_def)

text \<open>
A catalog that was accepted has its default persona, finds under a key exactly the persona
with that key, and none of its personas has a lint error.
\<close>
theorem catalog_lookup:
  assumes "make_catalog casefold ps d = Inr c"
  shows "(catalog_get c key = Some p \<longleftrightarrow> p \<in> set ps \<and> pe_key p = key)
    \<and> catalog_get c (cat_default c) \<noteq> None \<and> (\<forall>p \<in> set ps. lint_persona casefold p = [])"
proof -
  have c: "c = \<lparr>cat_personas = ps, cat_default = d\<rparr>" "distinct (map pe_key ps)" "d \<in> pe_key ` set ps"
    "first_lint casefold ps = None"
    using assms by (auto simp: make_catalog_def result_simps split: option.splits)
  have "catalog_get c key = Some p \<longleftrightarrow> p \<in> set ps \<and> pe_key p = key" for key p
    unfolding catalog_get_def c(1) using find_unique [OF c(2)] find_SomeD by fastforce
  moreover have "\<forall>p \<in> set ps. lint_persona casefold p = []"
    using c(4) by (induction ps) (auto split: list.splits)
  ultimately show ?thesis using c(1,3) by fastforce
qed

definition demo_persona :: persona where
  "demo_persona = \<lparr>pe_key = [76], pe_display = [76], pe_prompt = [72, 105], pe_identity = 1,
     pe_voice = empty_voice\<rparr>"

lemma demo_catalog: "make_catalog id [demo_persona] [76] = Inr \<lparr>cat_personas = [demo_persona], cat_default = [76]\<rparr>"
proof -
  have "\<not> list_ex (\<lambda>p. contains p [72, 105]) banned_phrases"
    by (simp add: banned_phrases_def contains_def starts_with_def u_def)
  then show ?thesis
    by (simp add: make_catalog_def lint_persona_def demo_persona_def is_blank_def is_space_def voice_kinds_def
        voice_variants_def empty_voice_def)
qed

theorem catalog_lookup_witness:
  "catalog_get \<lparr>cat_personas = [demo_persona], cat_default = [76]\<rparr> [76] = Some demo_persona"
  using catalog_lookup [OF demo_catalog] by (simp add: demo_persona_def)

end
