(* ===== verification/Conversations.thy ===== *)
theory Conversations
  imports Personas
begin

text \<open>
  Persona versions, conversation lanes and the router: \<open>persona_store.py\<close> and
  \<open>telegram_router.py\<close>. A lane is the pair of a conversation and a persona version; a message is
  routed to the lane of the active persona under an optimistic version check that is tried eight
  times. Other connections to the database may act between the read and the write of an attempt:
  they are a function of the attempt number and the state.
\<close>

section \<open>Persona versions\<close>

definition default_profile :: pystr where "default_profile = u ''default''"

definition persona_row_of :: "pystr \<Rightarrow> db \<Rightarrow> persona_row option" where
  "persona_row_of key s = find (\<lambda>r. pr_profile r = default_profile \<and> pr_key r = key) (personas s)"

text \<open>The \<open>INSERT .. ON CONFLICT DO UPDATE\<close>; the result is the id of the row.\<close>

definition upsert_persona :: "persona \<Rightarrow> db \<Rightarrow> int \<times> db" where
  "upsert_persona p s = (case persona_row_of (pe_key p) s of
     Some r \<Rightarrow> (pr_id r, s\<lparr>personas := update_where
        (\<lambda>x. pr_profile x = default_profile \<and> pr_key x = pe_key p)
        (\<lambda>x. x\<lparr>pr_display := pe_display p, pr_prompt := pe_prompt p, pr_identity := pe_identity p,
           pr_active := True\<rparr>) (personas s)\<rparr>)
   | None \<Rightarrow> (next_rowid pr_id (personas s), s\<lparr>personas := personas s @
        [\<lparr>pr_id = next_rowid pr_id (personas s), pr_profile = default_profile, pr_key = pe_key p,
          pr_display = pe_display p, pr_prompt = pe_prompt p, pr_identity = pe_identity p,
          pr_active = True\<rparr>]\<rparr>))"

definition version_of :: "int \<Rightarrow> int \<Rightarrow> persona_version_row list \<Rightarrow> persona_version_row option" where
  "version_of persona_id identity vs = find (\<lambda>v. pv_persona v = persona_id \<and> pv_identity v = identity) vs"

text \<open>The \<open>INSERT OR IGNORE\<close>: a row with the same version or the same content is kept as it is.\<close>

definition insert_version :: "int \<Rightarrow> persona \<Rightarrow> pystr \<Rightarrow> int \<Rightarrow> db \<Rightarrow> db" where
  "insert_version persona_id p hash now s =
     (if list_ex (\<lambda>v. pv_persona v = persona_id \<and> (pv_identity v = pe_identity p \<or> pv_hash v = hash))
          (persona_versions s) then s
      else s\<lparr>persona_versions := persona_versions s @
        [\<lparr>pv_id = next_rowid pv_id (persona_versions s), pv_persona = persona_id,
          pv_identity = pe_identity p, pv_display = pe_display p, pv_prompt = pe_prompt p,
          pv_voice = pe_voice p, pv_hash = hash, pv_created = now\<rparr>]\<rparr>)"

text \<open>\<open>ensure_persona_version\<close>, inside the transaction of its caller.\<close>

definition ensure_persona_version ::
    "(pyval \<Rightarrow> pystr) \<Rightarrow> int \<Rightarrow> persona \<Rightarrow> db \<Rightarrow> ((int \<times> int) \<times> db) result" where
  "ensure_persona_version digest now p s =
     (let hash = persona_content_hash digest p in
      guardE (pe_identity p \<le> 0) (IntegrityError ''CHECK constraint failed'')
      (case upsert_persona p s of (pid, s1) \<Rightarrow>
        guardE (list_ex (\<lambda>v. pv_persona v = pid \<and> pe_identity p < pv_identity v) (persona_versions s1))
          (ValueError ''persona identity_version cannot decrease'')
        (let s2 = insert_version pid p hash now s1 in
         case version_of pid (pe_identity p) (persona_versions s2) of
           None \<Rightarrow> Inl (RuntimeError ''persona version was not persisted'')
         | Some v \<Rightarrow>
             guardE (pv_hash v \<noteq> hash)
               (ValueError ''persona identity_version is immutable; increment identity_version'')
               (Inr ((pid, pv_id v), s2)))))"

record persona_version =
  ve_id :: int
  ve_persona :: int
  ve_key :: pystr
  ve_display :: pystr
  ve_prompt :: pystr
  ve_identity :: int
  ve_voice :: voice_pack
  ve_hash :: pystr
  ve_created :: int

text \<open>\<open>persona_version_from_row\<close>: the stored voice is validated again.\<close>

definition persona_version_from_row ::
    "(pystr \<Rightarrow> pystr) \<Rightarrow> pystr \<Rightarrow> persona_version_row \<Rightarrow> persona_version result" where
  "persona_version_from_row casefold key v =
     bindE (voice_from_mapping casefold (voice_as_dict (pv_voice v))) (\<lambda>voice.
       Inr \<lparr>ve_id = pv_id v, ve_persona = pv_persona v, ve_key = key, ve_display = pv_display v,
         ve_prompt = pv_prompt v, ve_identity = pv_identity v, ve_voice = voice, ve_hash = pv_hash v,
         ve_created = pv_created v\<rparr>)"

definition as_persona :: "persona_version \<Rightarrow> persona" where
  "as_persona v = \<lparr>pe_key = ve_key v, pe_display = ve_display v, pe_prompt = ve_prompt v,
     pe_identity = ve_identity v, pe_voice = ve_voice v\<rparr>"

section \<open>Conversations and lanes\<close>

record routed_turn =
  rt_conversation :: int
  rt_chat :: int
  rt_key :: pystr
  rt_session :: int
  rt_identity :: int
  rt_text :: pystr

definition conversation_of :: "int \<Rightarrow> db \<Rightarrow> conversation option" where
  "conversation_of chat s = find (\<lambda>c. cv_chat c = chat) (conversations s)"

definition ensure_conversation :: "int \<Rightarrow> pystr \<Rightarrow> db \<Rightarrow> db" where
  "ensure_conversation chat key s =
     (if conversation_of chat s = None then
        s\<lparr>conversations := conversations s @
          [\<lparr>cv_id = next_rowid cv_id (conversations s), cv_chat = chat, cv_key = key, cv_version = 0\<rparr>]\<rparr>
      else s)"

definition lane_matches :: "int \<Rightarrow> persona \<Rightarrow> lane \<Rightarrow> bool" where
  "lane_matches cid p l \<longleftrightarrow> l_conversation l = cid \<and> l_key l = pe_key p \<and> l_identity l = pe_identity p"

text \<open>
  Inside the transaction of an attempt: the version check with its update, the lane (inserted
  unless it exists), and the persona version of a lane that has none.
\<close>

definition bump_conversation :: "int \<Rightarrow> int \<Rightarrow> (conversation \<Rightarrow> conversation) \<Rightarrow> db \<Rightarrow> db" where
  "bump_conversation cid version f s = s\<lparr>conversations := update_where
     (\<lambda>c. cv_id c = cid \<and> cv_version c = version) (\<lambda>c. f (c\<lparr>cv_version := version + 1\<rparr>)) (conversations s)\<rparr>"

definition ensure_lane :: "int \<Rightarrow> persona \<Rightarrow> int \<Rightarrow> db \<Rightarrow> db" where
  "ensure_lane cid p vid s =
     (let ls = (if list_ex (lane_matches cid p) (lanes s) then lanes s
          else lanes s @ [\<lparr>l_id = next_rowid l_id (lanes s), l_conversation = cid, l_key = pe_key p,
            l_identity = pe_identity p, l_version = Some vid\<rparr>])
      in s\<lparr>lanes := update_where (\<lambda>l. lane_matches cid p l \<and> l_version l = None)
            (\<lambda>l. l\<lparr>l_version := Some vid\<rparr>) ls\<rparr>)"

text \<open>
  One attempt. \<open>None\<close> is the version conflict, which rolls the transaction back and is caught by
  the loop; otherwise the persona version that was used.
\<close>

definition lane_attempt ::
    "(pyval \<Rightarrow> pystr) \<Rightarrow> int \<Rightarrow> persona \<Rightarrow> (conversation \<Rightarrow> conversation) \<Rightarrow> int \<Rightarrow> int \<Rightarrow> (db, int option) op" where
  "lane_attempt digest now p f cid version s =
     (case ensure_persona_version digest now p s of
        Inl e \<Rightarrow> (Inl e, s)
      | Inr ((_, vid), s1) \<Rightarrow>
          if \<not> list_ex (\<lambda>c. cv_id c = cid \<and> cv_version c = version) (conversations s1) then (Inr None, s)
          else (Inr (Some vid), ensure_lane cid p vid (bump_conversation cid version f s1)))"

definition lane_for :: "int \<Rightarrow> persona \<Rightarrow> int \<Rightarrow> db \<Rightarrow> lane option" where
  "lane_for cid p vid s = find (\<lambda>l. lane_matches cid p l \<and> l_version l = Some vid) (lanes s)"

fun route_loop ::
    "(pyval \<Rightarrow> pystr) \<Rightarrow> (nat \<Rightarrow> int) \<Rightarrow> catalog \<Rightarrow> (nat \<Rightarrow> db \<Rightarrow> db) \<Rightarrow> int \<Rightarrow> pystr \<Rightarrow> nat \<Rightarrow> (db, routed_turn) op" where
  "route_loop digest clock cat env chat msg 0 s = (Inl (RuntimeError ''conversation changed too frequently''), s)"
| "route_loop digest clock cat env chat msg (Suc n) s =
     (case conversation_of chat s of
        None \<Rightarrow> (Inl (TypeError ''conversation row is missing''), s)
      | Some c \<Rightarrow>
         (case catalog_get cat (cv_key c) of
            None \<Rightarrow> (Inl (ValueError ''active persona is not present in catalog''), s)
          | Some p \<Rightarrow>
             (case lane_attempt digest (clock n) p id (cv_id c) (cv_version c) (env n s) of
                (Inl e, s') \<Rightarrow> (Inl e, s')
              | (Inr None, s') \<Rightarrow> route_loop digest clock cat env chat msg n s'
              | (Inr (Some vid), s') \<Rightarrow>
                 (case lane_for (cv_id c) p vid s' of
                    None \<Rightarrow> (Inl (TypeError ''lane row is missing''), s')
                  | Some l \<Rightarrow> (Inr \<lparr>rt_conversation = cv_id c, rt_chat = chat, rt_key = cv_key c,
                      rt_session = l_id l, rt_identity = pe_identity p, rt_text = msg\<rparr>, s')))))"

definition route_message ::
    "(pyval \<Rightarrow> pystr) \<Rightarrow> (nat \<Rightarrow> int) \<Rightarrow> catalog \<Rightarrow> (nat \<Rightarrow> db \<Rightarrow> db) \<Rightarrow> int \<Rightarrow> pystr \<Rightarrow> (db, routed_turn) op" where
  "route_message digest clock cat env chat msg s =
     route_loop digest clock cat env chat msg 8 (ensure_conversation chat (cat_default cat) s)"

fun switch_loop ::
    "(pyval \<Rightarrow> pystr) \<Rightarrow> (nat \<Rightarrow> int) \<Rightarrow> (nat \<Rightarrow> db \<Rightarrow> db) \<Rightarrow> int \<Rightarrow> persona \<Rightarrow> nat \<Rightarrow> (db, unit) op" where
  "switch_loop digest clock env chat p 0 s = (Inl (RuntimeError ''conversation changed too frequently''), s)"
| "switch_loop digest clock env chat p (Suc n) s =
     (case conversation_of chat s of
        None \<Rightarrow> (Inl (TypeError ''conversation row is missing''), s)
      | Some c \<Rightarrow>
         (case lane_attempt digest (clock n) p (\<lambda>c. c\<lparr>cv_key := pe_key p\<rparr>) (cv_id c) (cv_version c) (env n s) of
            (Inl e, s') \<Rightarrow> (Inl e, s')
          | (Inr None, s') \<Rightarrow> switch_loop digest clock env chat p n s'
          | (Inr (Some _), s') \<Rightarrow> (Inr (), s')))"

definition switch_persona ::
    "(pyval \<Rightarrow> pystr) \<Rightarrow> (nat \<Rightarrow> int) \<Rightarrow> (nat \<Rightarrow> db \<Rightarrow> db) \<Rightarrow> int \<Rightarrow> persona \<Rightarrow> (db, unit) op" where
  "switch_persona digest clock env chat p s =
     switch_loop digest clock env chat p 8 (ensure_conversation chat (pe_key p) s)"

text \<open>\<open>current_lane\<close>: the newest lane of the active persona; nothing is written.\<close>

definition current_lane :: "int \<Rightarrow> catalog \<Rightarrow> db \<Rightarrow> routed_turn option result" where
  "current_lane chat cat s =
     (case conversation_of chat s of
        None \<Rightarrow> Inr None
      | Some c \<Rightarrow>
         (case first_by (\<lambda>l. - l_id l) (filter (\<lambda>l. l_conversation l = cv_id c \<and> l_key l = cv_key c) (lanes s)) of
            None \<Rightarrow> Inr None
          | Some l \<Rightarrow>
             (case catalog_get cat (cv_key c) of
                None \<Rightarrow> Inl (ValueError ''active persona is not present in catalog'')
              | Some p \<Rightarrow> Inr (Some \<lparr>rt_conversation = cv_id c, rt_chat = chat, rt_key = pe_key p,
                  rt_session = l_id l, rt_identity = l_identity l, rt_text = []\<rparr>))))"

fun ensure_versions ::
    "(pyval \<Rightarrow> pystr) \<Rightarrow> (nat \<Rightarrow> int) \<Rightarrow> persona list \<Rightarrow> db \<Rightarrow> (unit \<times> db) result" where
  "ensure_versions digest clock [] s = Inr ((), s)"
| "ensure_versions digest clock (p # ps) s =
     bindE (ensure_persona_version digest (clock (length ps)) p s) (\<lambda>(_, s'). ensure_versions digest clock ps s')"

definition persist_persona_catalog ::
    "(pyval \<Rightarrow> pystr) \<Rightarrow> (nat \<Rightarrow> int) \<Rightarrow> catalog \<Rightarrow> (db, unit) op" where
  "persist_persona_catalog digest clock cat = transaction (ensure_versions digest clock (cat_personas cat))"

text \<open>
  The version of a lane: the one the lane names, or (for a lane that names none) the stored
  version of the lane's persona and identity.
\<close>

definition version_for_lane :: "int \<Rightarrow> db \<Rightarrow> (persona_row \<times> persona_version_row) option" where
  "version_for_lane lane_id s =
     (let with_persona = (\<lambda>v. map_option (\<lambda>r. (r, v)) (row_by pr_id (personas s) (pv_persona v))) in
      case row_by l_id (lanes s) lane_id of
        None \<Rightarrow> None
      | Some l \<Rightarrow>
         (case (case l_version l of None \<Rightarrow> None
                | Some n \<Rightarrow> Option.bind (row_by pv_id (persona_versions s) n) with_persona) of
            Some rv \<Rightarrow> Some rv
          | None \<Rightarrow>
             (case persona_row_of (l_key l) s of
                None \<Rightarrow> None
              | Some r \<Rightarrow> map_option (\<lambda>v. (r, v)) (version_of (pr_id r) (l_identity l) (persona_versions s)))))"

definition persona_version_for_lane ::
    "(pystr \<Rightarrow> pystr) \<Rightarrow> int \<Rightarrow> db \<Rightarrow> persona_version option result" where
  "persona_version_for_lane casefold lane_id s =
     (case version_for_lane lane_id s of
        None \<Rightarrow> Inr None
      | Some (r, v) \<Rightarrow> bindE (persona_version_from_row casefold (pr_key r) v) (\<lambda>x. Inr (Some x)))"

section \<open>The router\<close>

record router =
  ro_user :: int
  ro_catalog :: catalog

definition is_authorized :: "router \<Rightarrow> int \<Rightarrow> pystr option \<Rightarrow> bool" where
  "is_authorized ro user chat_type \<longleftrightarrow> user = ro_user ro \<and> chat_type = Some (u ''private'')"

record incoming_message =
  in_user :: int
  in_chat :: int
  in_text :: pystr
  in_type :: "pystr option"

definition route ::
    "(pyval \<Rightarrow> pystr) \<Rightarrow> (nat \<Rightarrow> int) \<Rightarrow> router \<Rightarrow> (nat \<Rightarrow> db \<Rightarrow> db) \<Rightarrow> incoming_message \<Rightarrow> (db, routed_turn option) op" where
  "route digest clock ro env m s =
     (if \<not> is_authorized ro (in_user m) (in_type m) then (Inr None, s)
      else case route_message digest clock (ro_catalog ro) env (in_chat m) (in_text m) s of
          (Inl e, s') \<Rightarrow> (Inl e, s')
        | (Inr t, s') \<Rightarrow> (Inr (Some t), s'))"

definition router_current_lane :: "router \<Rightarrow> incoming_message \<Rightarrow> db \<Rightarrow> routed_turn option result" where
  "router_current_lane ro m s =
     (if \<not> is_authorized ro (in_user m) (in_type m) then Inr None
      else current_lane (in_chat m) (ro_catalog ro) s)"

definition router_switch_persona ::
    "(pyval \<Rightarrow> pystr) \<Rightarrow> (nat \<Rightarrow> int) \<Rightarrow> router \<Rightarrow> (nat \<Rightarrow> db \<Rightarrow> db) \<Rightarrow> int \<Rightarrow> int \<Rightarrow> pystr \<Rightarrow> pystr option \<Rightarrow> (db, bool) op" where
  "router_switch_persona digest clock ro env user chat key chat_type s =
     (if \<not> is_authorized ro user chat_type then (Inr False, s)
      else case catalog_get (ro_catalog ro) key of
          None \<Rightarrow> (Inr False, s)
        | Some p \<Rightarrow>
           (case switch_persona digest clock env chat p s of
              (Inl e, s') \<Rightarrow> (Inl e, s')
            | (Inr _, s') \<Rightarrow> (Inr True, s')))"

text \<open>
  A reload of the catalog: a persona whose content changed needs a higher identity version, and
  the router takes the new catalog only when all of it has been stored.
\<close>

definition reload_refused :: "catalog \<Rightarrow> persona \<Rightarrow> bool" where
  "reload_refused new current = (case catalog_get new (pe_key current) of
     None \<Rightarrow> False
   | Some p \<Rightarrow> pe_identity p < pe_identity current \<or> (pe_identity p = pe_identity current \<and> p \<noteq> current))"

definition replace_catalog ::
    "(pyval \<Rightarrow> pystr) \<Rightarrow> (nat \<Rightarrow> int) \<Rightarrow> catalog \<Rightarrow> router \<times> db \<Rightarrow> unit result \<times> router \<times> db" where
  "replace_catalog digest clock new st =
     (case st of (ro, s) \<Rightarrow>
        if list_ex (reload_refused new) (cat_personas (ro_catalog ro))
        then (Inl (ValueError ''persona reload requires a higher identity_version''), ro, s)
        else case persist_persona_catalog digest clock new s of
            (Inl e, s') \<Rightarrow> (Inl e, ro, s')
          | (Inr _, s') \<Rightarrow> (Inr (), ro\<lparr>ro_catalog := new\<rparr>, s'))"

definition persona_for_turn :: "(pystr \<Rightarrow> pystr) \<Rightarrow> router \<Rightarrow> routed_turn \<Rightarrow> db \<Rightarrow> persona result" where
  "persona_for_turn casefold ro t s =
     bindE (persona_version_for_lane casefold (rt_session t) s) (\<lambda>x.
       case x of
         Some v \<Rightarrow> Inr (as_persona v)
       | None \<Rightarrow>
          (case catalog_get (ro_catalog ro) (rt_key t) of
             None \<Rightarrow> Inl (ValueError ''routed persona version is not available'')
           | Some p \<Rightarrow> guardE (pe_identity p \<noteq> rt_identity t)
               (ValueError ''routed persona version is not available'') (Inr p)))"

section \<open>Properties\<close>

text \<open>The keys the schema declares unique.\<close>

definition versions_ok :: "db \<Rightarrow> bool" where
  "versions_ok s \<longleftrightarrow> distinct (map pr_id (personas s)) \<and> distinct (map (\<lambda>r. (pr_profile r, pr_key r)) (personas s))
     \<and> distinct (map pv_id (persona_versions s))
     \<and> distinct (map (\<lambda>v. (pv_persona v, pv_identity v)) (persona_versions s))
     \<and> distinct (map (\<lambda>v. (pv_persona v, pv_hash v)) (persona_versions s))"

lemma persona_row_of_Some:
  "persona_row_of key s = Some r \<Longrightarrow> r \<in> set (personas s) \<and> pr_profile r = default_profile \<and> pr_key r = key"
  unfolding persona_row_of_def by (drule find_SomeD) simp

lemma version_of_Some: "version_of pid n vs = Some v \<Longrightarrow> v \<in> set vs \<and> pv_persona v = pid \<and> pv_identity v = n"
  unfolding version_of_def by (drule find_SomeD) simp

lemma upsert_persona_versions [simp]: "persona_versions (snd (upsert_persona p s)) = persona_versions s"
  "conversations (snd (upsert_persona p s)) = conversations s" "lanes (snd (upsert_persona p s)) = lanes s"
  by (simp_all add: upsert_persona_def split: option.split)

lemma insert_version_other [simp]: "personas (insert_version pid p h t s) = personas s"
  "conversations (insert_version pid p h t s) = conversations s" "lanes (insert_version pid p h t s) = lanes s"
  by (simp_all add: insert_version_def)

lemma insert_version_versions:
  "persona_versions (insert_version pid p h t s) = persona_versions s \<or>
   (\<exists>v. persona_versions (insert_version pid p h t s) = persona_versions s @ [v] \<and> pv_persona v = pid
      \<and> pv_identity v = pe_identity p \<and> pv_hash v = h \<and> pv_id v = next_rowid pv_id (persona_versions s)
      \<and> pv_display v = pe_display p \<and> pv_prompt v = pe_prompt p \<and> pv_voice v = pe_voice p
      \<and> (\<forall>x \<in> set (persona_versions s). pv_persona x = pid \<longrightarrow> pv_identity x \<noteq> pe_identity p \<and> pv_hash x \<noteq> h))"
  by (auto simp: insert_version_def list_ex_iff)

lemma upsert_persona_ok:
  assumes ok: "versions_ok s" and up: "upsert_persona p s = (pid, s1)"
  shows "versions_ok s1 \<and> (\<exists>r. persona_row_of (pe_key p) s1 = Some r \<and> pr_id r = pid \<and> pr_display r = pe_display p
    \<and> pr_prompt r = pe_prompt p \<and> pr_identity r = pe_identity p \<and> pr_active r)"
proof (cases "persona_row_of (pe_key p) s")
  case None
  let ?r = "\<lparr>pr_id = next_rowid pr_id (personas s), pr_profile = default_profile, pr_key = pe_key p,
          pr_display = pe_display p, pr_prompt = pe_prompt p, pr_identity = pe_identity p, pr_active = True\<rparr>"
  from None up have s1: "pid = pr_id ?r" "s1 = s\<lparr>personas := personas s @ [?r]\<rparr>" by (auto simp: upsert_persona_def)
  have fresh: "x \<in> set (personas s) \<Longrightarrow> \<not> (pr_profile x = default_profile \<and> pr_key x = pe_key p)" for x
    using None find_NoneD unfolding persona_row_of_def by fastforce
  have "pr_id x \<noteq> next_rowid pr_id (personas s)" if "x \<in> set (personas s)" for x
    using next_rowid_gt [OF that, of pr_id] by simp
  then have "versions_ok s1" unfolding s1(2) using ok fresh
    by (simp add: versions_ok_def distinct_map_snoc del: map_append)
  moreover have "persona_row_of (pe_key p) s1 = Some ?r"
    using None by (simp add: s1 persona_row_of_def find_append)
  ultimately show ?thesis using s1(1) by simp
next
  case (Some r)
  let ?Q = "\<lambda>x. pr_profile x = default_profile \<and> pr_key x = pe_key p"
  let ?f = "\<lambda>x. x\<lparr>pr_display := pe_display p, pr_prompt := pe_prompt p, pr_identity := pe_identity p, pr_active := True\<rparr>"
  from Some up have s1: "pid = pr_id r" "s1 = s\<lparr>personas := update_where ?Q ?f (personas s)\<rparr>"
    by (auto simp: upsert_persona_def)
  have "versions_ok s1" unfolding s1(2) using ok by (simp add: versions_ok_def map_update_where)
  moreover have "persona_row_of (pe_key p) s1 = Some (?f r)"
    using Some by (simp add: s1 persona_row_of_def find_update_where)
  ultimately show ?thesis using s1(1) by simp
qed

lemma version_of_unique:
  assumes "versions_ok s" and "v \<in> set (persona_versions s)"
  shows "version_of (pv_persona v) (pv_identity v) (persona_versions s) = Some v"
  using find_unique [of "\<lambda>v. (pv_persona v, pv_identity v)" "persona_versions s" v] assms
  by (simp add: versions_ok_def version_of_def)

text \<open>A successful \<open>ensure_persona_version\<close>, in full.\<close>

lemma ensure_persona_version_result:
  assumes ok: "versions_ok s" and en: "ensure_persona_version digest now p s = Inr ((pid, vid), s')"
  shows "versions_ok s'" and "set (persona_versions s) \<subseteq> set (persona_versions s')"
    and "\<exists>r. persona_row_of (pe_key p) s' = Some r \<and> pr_id r = pid \<and> pr_display r = pe_display p
       \<and> pr_prompt r = pe_prompt p \<and> pr_identity r = pe_identity p \<and> pr_active r"
    and "\<exists>v. version_of pid (pe_identity p) (persona_versions s') = Some v \<and> pv_id v = vid
           \<and> pv_hash v = persona_content_hash digest p"
    and "\<forall>v \<in> set (persona_versions s'). pv_persona v = pid \<longrightarrow> pv_identity v \<le> pe_identity p"
    and "0 < pe_identity p" and "conversations s' = conversations s" and "lanes s' = lanes s"
proof -
  obtain s1 where u: "upsert_persona p s = (pid, s1)"
    and pos: "0 < pe_identity p"
    and newest: "\<forall>v \<in> set (persona_versions s1). pv_persona v = pid \<longrightarrow> pv_identity v \<le> pe_identity p"
    and s': "s' = insert_version pid p (persona_content_hash digest p) now s1"
    and v: "\<exists>v. version_of pid (pe_identity p) (persona_versions s') = Some v \<and> pv_id v = vid
        \<and> pv_hash v = persona_content_hash digest p"
    using en by (auto simp: ensure_persona_version_def Let_def result_simps list_ex_iff not_less
        split: prod.splits option.splits)
  from upsert_persona_ok [OF ok u] have ok1: "versions_ok s1"
    and row: "\<exists>r. persona_row_of (pe_key p) s1 = Some r \<and> pr_id r = pid \<and> pr_display r = pe_display p
       \<and> pr_prompt r = pe_prompt p \<and> pr_identity r = pe_identity p \<and> pr_active r" by auto
  have same: "persona_versions s1 = persona_versions s" "conversations s1 = conversations s" "lanes s1 = lanes s"
    using upsert_persona_versions [of p s] u by simp_all
  note ins = insert_version_versions [of pid p "persona_content_hash digest p" now s1, folded s']
  have fresh: "pv_id x \<noteq> next_rowid pv_id (persona_versions s1)" if "x \<in> set (persona_versions s1)" for x
    using next_rowid_gt [OF that, of pv_id] by simp
  from ins show "versions_ok s'"
  proof (elim disjE exE conjE)
    fix v assume "persona_versions s' = persona_versions s1 @ [v]" "pv_persona v = pid"
      "pv_identity v = pe_identity p" "pv_hash v = persona_content_hash digest p"
      "pv_id v = next_rowid pv_id (persona_versions s1)"
      "\<forall>x \<in> set (persona_versions s1). pv_persona x = pid \<longrightarrow>
         pv_identity x \<noteq> pe_identity p \<and> pv_hash x \<noteq> persona_content_hash digest p"
    with ok1 fresh show ?thesis by (simp add: versions_ok_def distinct_map_snoc s' del: map_append)
  qed (use ok1 in \<open>simp add: versions_ok_def s'\<close>)
  show "set (persona_versions s) \<subseteq> set (persona_versions s')" using ins same by auto
  show "\<exists>r. persona_row_of (pe_key p) s' = Some r \<and> pr_id r = pid \<and> pr_display r = pe_display p
       \<and> pr_prompt r = pe_prompt p \<and> pr_identity r = pe_identity p \<and> pr_active r"
    using row by (simp add: s' persona_row_of_def)
  show "\<forall>v \<in> set (persona_versions s'). pv_persona v = pid \<longrightarrow> pv_identity v \<le> pe_identity p"
    using ins newest by auto
  show "conversations s' = conversations s" "lanes s' = lanes s" using same by (simp_all add: s')
  show "\<exists>v. version_of pid (pe_identity p) (persona_versions s') = Some v \<and> pv_id v = vid
           \<and> pv_hash v = persona_content_hash digest p" by (rule v)
  show "0 < pe_identity p" by (rule pos)
qed

lemma upsert_persona_same:
  assumes ok: "versions_ok s" and row: "persona_row_of (pe_key p) s = Some r"
    and f: "pr_display r = pe_display p" "pr_prompt r = pe_prompt p" "pr_identity r = pe_identity p" "pr_active r"
  shows "upsert_persona p s = (pr_id r, s)"
proof -
  have "x\<lparr>pr_display := pe_display p, pr_prompt := pe_prompt p, pr_identity := pe_identity p, pr_active := True\<rparr> = x"
    if x: "x \<in> set (personas s)" "pr_profile x = default_profile \<and> pr_key x = pe_key p" for x
  proof -
    have "x = r"
      by (rule distinct_map_unique [where k = "\<lambda>r. (pr_profile r, pr_key r)" and xs = "personas s"])
        (use ok x persona_row_of_Some [OF row] in \<open>auto simp: versions_ok_def\<close>)
    with f show ?thesis by simp
  qed
  then have "update_where (\<lambda>x. pr_profile x = default_profile \<and> pr_key x = pe_key p)
      (\<lambda>x. x\<lparr>pr_display := pe_display p, pr_prompt := pe_prompt p, pr_identity := pe_identity p, pr_active := True\<rparr>)
      (personas s) = personas s"
    by (rule update_where_id)
  with row show ?thesis by (simp add: upsert_persona_def)
qed

text \<open>
Persona versions are immutable. Storing a persona keeps every stored version, leaves at most
one version per persona and identity, and makes the stored identity the newest of the persona;
storing the same persona again changes nothing, a different content under the same identity and
an older identity are both refused.
\<close>
theorem persona_version_is_immutable:
  assumes "versions_ok s" and "ensure_persona_version digest now p s = Inr ((pid, vid), s')"
  shows "versions_ok s' \<and> set (persona_versions s) \<subseteq> set (persona_versions s')
    \<and> (\<exists>v \<in> set (persona_versions s'). pv_id v = vid \<and> pv_persona v = pid \<and> pv_identity v = pe_identity p
         \<and> pv_hash v = persona_content_hash digest p)
    \<and> ensure_persona_version digest now' p s' = Inr ((pid, vid), s')
    \<and> (pe_key q = pe_key p \<and> pe_identity q = pe_identity p
         \<and> persona_content_hash digest q \<noteq> persona_content_hash digest p \<longrightarrow>
        ensure_persona_version digest now' q s'
          = Inl (ValueError ''persona identity_version is immutable; increment identity_version''))
    \<and> (pe_key q = pe_key p \<and> 0 < pe_identity q \<and> pe_identity q < pe_identity p \<longrightarrow>
        ensure_persona_version digest now' q s'
          = Inl (ValueError ''persona identity_version cannot decrease''))"
proof -
  note R = ensure_persona_version_result [OF assms]
  obtain r where r: "persona_row_of (pe_key p) s' = Some r" "pr_id r = pid" "pr_display r = pe_display p"
    "pr_prompt r = pe_prompt p" "pr_identity r = pe_identity p" "pr_active r" using R(3) by blast
  obtain v where v: "version_of pid (pe_identity p) (persona_versions s') = Some v" "pv_id v = vid"
    "pv_hash v = persona_content_hash digest p" using R(4) by blast
  have ups: "upsert_persona p s' = (pid, s')"
    using upsert_persona_same [OF R(1) r(1)] r by simp
  note vin = version_of_Some [OF v(1)]
  have again: "ensure_persona_version digest now' p s' = Inr ((pid, vid), s')"
    using R(5,6) v vin ups
    by (auto simp: ensure_persona_version_def insert_version_def Let_def result_simps list_ex_iff)
  have uq: "\<exists>s2. upsert_persona q s' = (pid, s2) \<and> persona_versions s2 = persona_versions s'"
    if "pe_key q = pe_key p" using r that by (simp add: upsert_persona_def)
  have imm: "ensure_persona_version digest now' q s'
      = Inl (ValueError ''persona identity_version is immutable; increment identity_version'')"
    if q: "pe_key q = pe_key p" "pe_identity q = pe_identity p"
      "persona_content_hash digest q \<noteq> persona_content_hash digest p"
  proof -
    obtain s2 where s2: "upsert_persona q s' = (pid, s2)" "persona_versions s2 = persona_versions s'"
      using uq q(1) by blast
    have "insert_version pid q (persona_content_hash digest q) now' s2 = s2"
      using vin q(2) s2(2) by (auto simp: insert_version_def list_ex_iff)
    moreover have "\<not> list_ex (\<lambda>v. pv_persona v = pid \<and> pe_identity q < pv_identity v) (persona_versions s2)"
      using R(5) q(2) s2(2) by (auto simp: list_ex_iff)
    ultimately show ?thesis using R(6) q s2 v by (simp add: ensure_persona_version_def Let_def)
  qed
  have old: "ensure_persona_version digest now' q s'
      = Inl (ValueError ''persona identity_version cannot decrease'')"
    if q: "pe_key q = pe_key p" "0 < pe_identity q" "pe_identity q < pe_identity p"
  proof -
    obtain s2 where s2: "upsert_persona q s' = (pid, s2)" "persona_versions s2 = persona_versions s'"
      using uq q(1) by blast
    have "list_ex (\<lambda>v. pv_persona v = pid \<and> pe_identity q < pv_identity v) (persona_versions s2)"
      using vin q(3) s2(2) by (auto simp: list_ex_iff)
    with q(2) s2 show ?thesis by (simp add: ensure_persona_version_def Let_def)
  qed
  show ?thesis using R(1,2) vin v(2,3) again imm old by blast
qed

theorem persona_version_is_immutable_witness:
  "\<exists>s'. ensure_persona_version (\<lambda>_. [104]) 5 demo_persona empty_db = Inr ((1, 1), s')
     \<and> ensure_persona_version (\<lambda>_. [104]) 6 demo_persona s' = Inr ((1, 1), s')"
proof -
  have 1: "\<exists>s'. ensure_persona_version (\<lambda>_. [104]) 5 demo_persona empty_db = Inr ((1, 1), s')"
    by (simp add: ensure_persona_version_def upsert_persona_def persona_row_of_def empty_db_def insert_version_def
        version_of_def persona_content_hash_def next_rowid_def demo_persona_def)
  have 2: "versions_ok empty_db" by (simp add: versions_ok_def empty_db_def)
  from 1 persona_version_is_immutable [OF 2, of _ _ demo_persona _ _ _ 6 demo_persona] show ?thesis by blast
qed

section \<open>Lanes under concurrent writers\<close>

text \<open>
  A lane with a version names a stored version of its persona and identity. \<open>routing_ok\<close> collects
  the keys of the tables with this link.
\<close>

definition lane_linked :: "db \<Rightarrow> lane \<Rightarrow> bool" where
  "lane_linked s l \<longleftrightarrow> (\<forall>n. l_version l = Some n \<longrightarrow>
     (\<exists>v \<in> set (persona_versions s). \<exists>r \<in> set (personas s). pv_id v = n \<and> pv_identity v = l_identity l
        \<and> pr_id r = pv_persona v \<and> pr_profile r = default_profile \<and> pr_key r = l_key l))"

definition lane_key :: "lane \<Rightarrow> int \<times> pystr \<times> int" where
  "lane_key l = (l_conversation l, l_key l, l_identity l)"

definition routing_ok :: "db \<Rightarrow> bool" where
  "routing_ok s \<longleftrightarrow> versions_ok s \<and> distinct (map cv_id (conversations s)) \<and> distinct (map cv_chat (conversations s))
     \<and> distinct (map l_id (lanes s)) \<and> distinct (map lane_key (lanes s)) \<and> (\<forall>l \<in> set (lanes s). lane_linked s l)"

text \<open>Other writers keep the conversations, and change one only together with its version.\<close>

definition fenced :: "db \<Rightarrow> db \<Rightarrow> bool" where
  "fenced s s' \<longleftrightarrow> (\<forall>c \<in> set (conversations s). \<exists>c' \<in> set (conversations s'). cv_id c' = cv_id c
     \<and> cv_chat c' = cv_chat c \<and> (cv_version c' = cv_version c \<longrightarrow> c' = c))"

definition personas_kept :: "db \<Rightarrow> db \<Rightarrow> bool" where
  "personas_kept s s' \<longleftrightarrow> (\<forall>r \<in> set (personas s). \<exists>r' \<in> set (personas s'). pr_id r' = pr_id r
     \<and> pr_profile r' = pr_profile r \<and> pr_key r' = pr_key r)"

lemma upsert_personas_kept: "upsert_persona p s = (pid, s1) \<Longrightarrow> personas_kept s s1"
  using update_where_kept [where k = "\<lambda>r. (pr_id r, pr_profile r, pr_key r)"]
  by (fastforce simp: upsert_persona_def personas_kept_def split: option.splits)

lemma ensure_personas_kept: "ensure_persona_version digest now p s = Inr (x, s') \<Longrightarrow> personas_kept s s'"
  by (auto simp: ensure_persona_version_def Let_def result_simps personas_kept_def
      split: prod.splits option.splits dest!: upsert_personas_kept)

lemma lane_linked_kept:
  assumes l: "lane_linked s l" and k: "personas_kept s s'"
    and sub: "set (persona_versions s) \<subseteq> set (persona_versions s')"
  shows "lane_linked s' l"
  unfolding lane_linked_def
proof (intro allI impI)
  fix n assume "l_version l = Some n"
  with l obtain v r where vr: "v \<in> set (persona_versions s)" "r \<in> set (personas s)" "pv_id v = n"
    "pv_identity v = l_identity l" "pr_id r = pv_persona v" "pr_profile r = default_profile" "pr_key r = l_key l"
    unfolding lane_linked_def by blast
  from k vr(2) obtain r' where "r' \<in> set (personas s')" "pr_id r' = pr_id r" "pr_profile r' = pr_profile r"
    "pr_key r' = pr_key r" unfolding personas_kept_def by blast
  with vr sub show "\<exists>v \<in> set (persona_versions s'). \<exists>r \<in> set (personas s'). pv_id v = n
      \<and> pv_identity v = l_identity l \<and> pr_id r = pv_persona v \<and> pr_profile r = default_profile
      \<and> pr_key r = l_key l" by (intro bexI [of _ v] bexI [of _ r']) auto
qed

text \<open>The lane of a persona version exists after \<open>ensure_lane\<close> and names that version.\<close>

lemma ensure_lane_ok:
  assumes ok: "routing_ok s" and r: "persona_row_of (pe_key p) s = Some r"
    and v: "version_of (pr_id r) (pe_identity p) (persona_versions s) = Some v"
  shows "routing_ok (ensure_lane cid p (pv_id v) s)"
    and "\<exists>l. lane_for cid p (pv_id v) (ensure_lane cid p (pv_id v) s) = Some l"
proof -
  let ?new = "\<lparr>l_id = next_rowid l_id (lanes s), l_conversation = cid, l_key = pe_key p,
            l_identity = pe_identity p, l_version = Some (pv_id v)\<rparr>"
  define ls where "ls = (if list_ex (lane_matches cid p) (lanes s) then lanes s else lanes s @ [?new])"
  let ?s' = "ensure_lane cid p (pv_id v) s"
  let ?Q = "\<lambda>l. lane_matches cid p l \<and> l_version l = None"
  let ?f = "\<lambda>l. l\<lparr>l_version := Some (pv_id v)\<rparr>"
  have lanes': "lanes ?s' = update_where ?Q ?f ls" by (simp add: ensure_lane_def ls_def Let_def)
  have rest: "conversations ?s' = conversations s" "personas ?s' = personas s"
    "persona_versions ?s' = persona_versions s" by (simp_all add: ensure_lane_def Let_def)
  note rr = persona_row_of_Some [OF r] and vv = version_of_Some [OF v]
  have fresh: "l_id x \<noteq> next_rowid l_id (lanes s)" if "x \<in> set (lanes s)" for x
    using next_rowid_gt [OF that, of l_id] by simp
  have linked: "lane_linked s l" if "lane_matches cid p l" "l_version l = Some (pv_id v)" for l
    unfolding lane_linked_def using that rr vv
    by (intro allI impI bexI [of _ v] bexI [of _ r]) (auto simp: lane_matches_def)
  have ls_linked: "lane_linked s l" if "l \<in> set ls" for l
    using that ok linked [of ?new] by (auto simp: ls_def routing_ok_def lane_matches_def split: if_splits)
  have "\<exists>l \<in> set ls. lane_matches cid p l"
    by (auto simp: ls_def list_ex_iff lane_matches_def)
  then obtain l where l: "l \<in> set ls" "lane_matches cid p l" by blast
  have "l_version l \<in> {None, Some (pv_id v)}"
  proof (cases "l_version l")
    case (Some n)
    from ls_linked [OF l(1)] Some obtain v' r' where v': "v' \<in> set (persona_versions s)" "r' \<in> set (personas s)"
      "pv_id v' = n" "pv_identity v' = l_identity l" "pr_id r' = pv_persona v'" "pr_profile r' = default_profile"
      "pr_key r' = l_key l" unfolding lane_linked_def by blast
    have "r' = r"
      by (rule distinct_map_unique [where k = "\<lambda>r. (pr_profile r, pr_key r)" and xs = "personas s"])
        (use ok v' rr l(2) in \<open>auto simp: routing_ok_def versions_ok_def lane_matches_def\<close>)
    then have "v' = v"
      by (intro distinct_map_unique [where k = "\<lambda>v. (pv_persona v, pv_identity v)" and xs = "persona_versions s"])
        (use ok v' vv l(2) in \<open>auto simp: routing_ok_def versions_ok_def lane_matches_def\<close>)
    with Some v'(3) show ?thesis by simp
  qed simp
  moreover have "(if ?Q l then ?f l else l) \<in> set (lanes ?s')"
    unfolding lanes' by (rule update_where_image [OF l(1)])
  ultimately have "\<exists>x \<in> set (lanes ?s'). lane_matches cid p x \<and> l_version x = Some (pv_id v)"
    using l(2) by (intro bexI [of _ "if ?Q l then ?f l else l"]) (auto simp: lane_matches_def)
  then show "\<exists>l. lane_for cid p (pv_id v) ?s' = Some l"
    unfolding lane_for_def by (auto intro: find_exists)
  have "distinct (map l_id ls)" "distinct (map lane_key ls)"
    using ok fresh by (auto simp: ls_def routing_ok_def distinct_map_snoc lane_key_def list_ex_iff lane_matches_def
        simp del: map_append)
  then have "distinct (map l_id (lanes ?s'))" "distinct (map lane_key (lanes ?s'))"
    unfolding lanes' by (simp_all add: map_update_where lane_key_def)
  moreover have "lane_linked ?s' x" if "x \<in> set (lanes ?s')" for x
  proof -
    from that obtain y where "y \<in> set ls" "x = (if ?Q y then ?f y else y)"
      unfolding lanes' by (auto simp: set_update_where)
    then have "lane_linked s x" using ls_linked linked [of x] by (auto simp: lane_matches_def)
    then show ?thesis by (simp add: lane_linked_def rest)
  qed
  ultimately show "routing_ok ?s'" using ok by (simp add: routing_ok_def versions_ok_def rest)
qed

lemma routing_ok_ensure:
  assumes "routing_ok s" and "ensure_persona_version digest now p s = Inr ((pid, vid), s')"
  shows "routing_ok s'"
proof -
  have "versions_ok s" using assms(1) by (simp add: routing_ok_def)
  note R = ensure_persona_version_result [OF this assms(2)]
  show ?thesis using assms(1) R(1,7,8) lane_linked_kept [OF _ ensure_personas_kept [OF assms(2)] R(2)]
    by (simp add: routing_ok_def)
qed

lemma routing_ok_bump:
  assumes "routing_ok s" and "\<And>c. cv_id (f c) = cv_id c" and "\<And>c. cv_chat (f c) = cv_chat c"
  shows "routing_ok (bump_conversation cid version f s)"
  using assms by (simp add: routing_ok_def bump_conversation_def versions_ok_def map_update_where lane_linked_def)

text \<open>An attempt that goes through has found the conversation as it was read.\<close>

lemma lane_attempt_result:
  assumes ok: "routing_ok s" and at: "lane_attempt digest now p f cid version s = (Inr (Some vid), s')"
    and f: "\<And>c. cv_id (f c) = cv_id c" "\<And>c. cv_chat (f c) = cv_chat c"
  shows "routing_ok s'" and "\<exists>l. lane_for cid p vid s' = Some l"
    and "\<exists>c \<in> set (conversations s). cv_id c = cid \<and> cv_version c = version
           \<and> f (c\<lparr>cv_version := version + 1\<rparr>) \<in> set (conversations s')"
    and "\<exists>v \<in> set (persona_versions s'). pv_id v = vid \<and> pv_identity v = pe_identity p
           \<and> pv_hash v = persona_content_hash digest p"
proof -
  obtain pid s1 where e: "ensure_persona_version digest now p s = Inr ((pid, vid), s1)"
    and c: "\<exists>c \<in> set (conversations s1). cv_id c = cid \<and> cv_version c = version"
    and s': "s' = ensure_lane cid p vid (bump_conversation cid version f s1)"
    using at by (auto simp: lane_attempt_def list_ex_iff split: sum.splits if_splits)
  have "versions_ok s" using ok by (simp add: routing_ok_def)
  note R = ensure_persona_version_result [OF this e]
  let ?b = "bump_conversation cid version f s1"
  have okb: "routing_ok ?b" by (rule routing_ok_bump [OF routing_ok_ensure [OF ok e] f])
  have sameb: "personas ?b = personas s1" "persona_versions ?b = persona_versions s1"
    by (simp_all add: bump_conversation_def)
  obtain r v where r: "persona_row_of (pe_key p) ?b = Some r" "pr_id r = pid"
    and v: "version_of pid (pe_identity p) (persona_versions ?b) = Some v" "pv_id v = vid"
      "pv_hash v = persona_content_hash digest p"
    using R(3,4) sameb by (auto simp: persona_row_of_def)
  note L = ensure_lane_ok [OF okb r(1) v(1) [folded r(2)], of cid]
  show "routing_ok s'" "\<exists>l. lane_for cid p vid s' = Some l" using L v(2) s' by simp_all
  obtain c where c: "c \<in> set (conversations s1)" "cv_id c = cid" "cv_version c = version" using c by blast
  have "conversations s' = conversations ?b" by (simp add: s' ensure_lane_def Let_def)
  moreover have "f (c\<lparr>cv_version := version + 1\<rparr>) \<in> set (conversations ?b)"
    unfolding bump_conversation_def
    using update_where_mem [OF c(1), of "\<lambda>c. cv_id c = cid \<and> cv_version c = version"] c(2,3) by simp
  ultimately show "\<exists>c \<in> set (conversations s). cv_id c = cid \<and> cv_version c = version
           \<and> f (c\<lparr>cv_version := version + 1\<rparr>) \<in> set (conversations s')"
    using c R(7) by auto
  have "persona_versions s' = persona_versions ?b" by (simp add: s' ensure_lane_def Let_def)
  then show "\<exists>v \<in> set (persona_versions s'). pv_id v = vid \<and> pv_identity v = pe_identity p
           \<and> pv_hash v = persona_content_hash digest p"
    using version_of_Some [OF v(1)] v by auto
qed

lemma lane_attempt_conflict:
  "lane_attempt digest now p f cid version s = (Inr None, s') \<Longrightarrow>
     s' = s \<and> (\<forall>c \<in> set (conversations s). \<not> (cv_id c = cid \<and> cv_version c = version)) \<or> s' = s \<and> \<not> routing_ok s"
  using ensure_persona_version_result(7) unfolding lane_attempt_def
  by (fastforce simp: list_ex_iff routing_ok_def split: sum.splits if_splits)

lemma ensure_no_type_error: "ensure_persona_version digest now p s \<noteq> Inl (TypeError m)"
  by (simp add: ensure_persona_version_def Let_def guardE_def split: prod.split option.split)

lemma lane_attempt_error: "lane_attempt digest now p f cid version s = (Inl e, s') \<Longrightarrow>
    s' = s \<and> ensure_persona_version digest now p s = Inl e"
  by (auto simp: lane_attempt_def split: sum.splits if_splits)

lemma conversation_of_Some: "conversation_of chat s = Some c \<Longrightarrow> c \<in> set (conversations s) \<and> cv_chat c = chat"
  unfolding conversation_of_def by (drule find_SomeD) simp

lemma fenced_conversation:
  assumes "fenced s s'" and "conversation_of chat s \<noteq> None"
  shows "conversation_of chat s' \<noteq> None"
proof -
  obtain c where "c \<in> set (conversations s)" "cv_chat c = chat" using assms(2) conversation_of_Some by blast
  with assms(1) obtain c' where "c' \<in> set (conversations s')" "cv_chat c' = chat" unfolding fenced_def by metis
  then show ?thesis using find_exists [of c' "conversations s'" "\<lambda>c. cv_chat c = chat"]
    by (auto simp: conversation_of_def)
qed

definition routed_ok :: "(pyval \<Rightarrow> pystr) \<Rightarrow> catalog \<Rightarrow> int \<Rightarrow> pystr \<Rightarrow> routed_turn \<Rightarrow> db \<Rightarrow> bool" where
  "routed_ok digest cat chat msg t s \<longleftrightarrow> (\<exists>c \<in> set (conversations s). \<exists>l \<in> set (lanes s). \<exists>p v.
     cv_chat c = chat \<and> cv_id c = rt_conversation t \<and> cv_key c = rt_key t \<and> catalog_get cat (cv_key c) = Some p
     \<and> l_id l = rt_session t \<and> l_conversation l = cv_id c \<and> l_key l = cv_key c \<and> l_identity l = rt_identity t
     \<and> rt_identity t = pe_identity p \<and> rt_chat t = chat \<and> rt_text t = msg
     \<and> v \<in> set (persona_versions s) \<and> l_version l = Some (pv_id v) \<and> pv_hash v = persona_content_hash digest p)"

lemma catalog_get_key: "catalog_get cat key = Some p \<Longrightarrow> pe_key p = key"
  unfolding catalog_get_def by (drule find_SomeD) simp

lemma route_loop_result:
  assumes "routing_ok s" and "conversation_of chat s \<noteq> None"
    and env: "\<And>n s. routing_ok s \<Longrightarrow> routing_ok (env n s) \<and> fenced s (env n s)"
    and "route_loop digest clock cat env chat msg n s = (r, s')"
  shows "routing_ok s' \<and> (\<forall>t. r = Inr t \<longrightarrow> routed_ok digest cat chat msg t s') \<and> (\<forall>m. r = Inl (TypeError m) \<longrightarrow> False)"
  using assms(1,2,4)
proof (induction n arbitrary: s)
  case 0
  then show ?case by auto
next
  case (Suc n)
  from Suc.prems(2) obtain c where c: "conversation_of chat s = Some c" by blast
  note cs = conversation_of_Some [OF c]
  show ?case
  proof (cases "catalog_get cat (cv_key c)")
    case None
    with Suc.prems c show ?thesis by auto
  next
    case (Some p)
    let ?s = "env n s"
    have oks: "routing_ok ?s" "fenced s ?s" using env Suc.prems(1) by simp_all
    obtain q s1 where at: "lane_attempt digest (clock n) p id (cv_id c) (cv_version c) ?s = (q, s1)" by force
    show ?thesis
    proof (cases q)
      case (Inl e)
      with at lane_attempt_error [OF at [unfolded Inl]] Suc.prems(3) c Some oks show ?thesis
        by (auto simp: ensure_no_type_error)
    next
      case (Inr o')
      show ?thesis
      proof (cases o')
        case None
        have "s1 = ?s" using lane_attempt_conflict [OF at [unfolded Inr None]] by blast
        then show ?thesis
          using Suc.IH [OF oks(1) fenced_conversation [OF oks(2) Suc.prems(2)]] Suc.prems(3) c Some at Inr None by simp
      next
        case (Some vid)
        note A = lane_attempt_result [OF oks(1) at [unfolded Inr Some], simplified]
        obtain l where l: "lane_for (cv_id c) p vid s1 = Some l" using A(2) by blast
        have res: "r = Inr \<lparr>rt_conversation = cv_id c, rt_chat = chat, rt_key = cv_key c, rt_session = l_id l,
            rt_identity = pe_identity p, rt_text = msg\<rparr>" "s' = s1"
          using Suc.prems(3) c \<open>catalog_get cat (cv_key c) = Some p\<close> at Inr Some l by simp_all
        obtain c0 where c0: "c0 \<in> set (conversations ?s)" "cv_id c0 = cv_id c" "cv_version c0 = cv_version c"
          "c0\<lparr>cv_version := cv_version c + 1\<rparr> \<in> set (conversations s1)" using A(3) by auto
        obtain c1 where c1: "c1 \<in> set (conversations ?s)" "cv_id c1 = cv_id c"
          "cv_version c1 = cv_version c \<longrightarrow> c1 = c" using oks(2) cs unfolding fenced_def by blast
        have "c1 = c0" by (rule distinct_map_unique [where k = cv_id and xs = "conversations ?s"])
            (use oks(1) c0 c1 in \<open>auto simp: routing_ok_def\<close>)
        with c0 c1 have "c0 = c" by simp
        have lf: "l \<in> set (lanes s1)" "lane_matches (cv_id c) p l" "l_version l = Some vid"
          using l unfolding lane_for_def by (auto dest: find_SomeD)
        obtain v where "v \<in> set (persona_versions s1)" "pv_id v = vid" "pv_hash v = persona_content_hash digest p"
          using A(4) by blast
        with lf c0(4) cs \<open>c0 = c\<close> catalog_get_key [OF \<open>catalog_get cat (cv_key c) = Some p\<close>]
          \<open>catalog_get cat (cv_key c) = Some p\<close>
        have "routed_ok digest cat chat msg \<lparr>rt_conversation = cv_id c, rt_chat = chat, rt_key = cv_key c, rt_session = l_id l,
            rt_identity = pe_identity p, rt_text = msg\<rparr> s1"
          unfolding routed_ok_def
          by (intro bexI [of _ "c0\<lparr>cv_version := cv_version c + 1\<rparr>"] bexI [of _ l] exI [of _ p] exI [of _ v])
            (auto simp: lane_matches_def)
        with res A(1) show ?thesis by simp
      qed
    qed
  qed
qed

lemma routing_ok_ensure_conversation:
  assumes "routing_ok s"
  shows "routing_ok (ensure_conversation chat key s)" and "conversation_of chat (ensure_conversation chat key s) \<noteq> None"
proof -
  have fresh: "cv_id x \<noteq> next_rowid cv_id (conversations s)" if "x \<in> set (conversations s)" for x
    using next_rowid_gt [OF that, of cv_id] by simp
  have "cv_chat x \<noteq> chat" if "x \<in> set (conversations s)" "conversation_of chat s = None" for x
    using that find_NoneD unfolding conversation_of_def by fastforce
  with fresh assms show "routing_ok (ensure_conversation chat key s)"
    by (auto simp: ensure_conversation_def routing_ok_def versions_ok_def distinct_map_snoc lane_linked_def
        simp del: map_append)
  show "conversation_of chat (ensure_conversation chat key s) \<noteq> None"
    by (cases "conversation_of chat s") (simp_all add: ensure_conversation_def conversation_of_def find_append)
qed

text \<open>
Routing under concurrent writers. Whatever other connections do between the read and the write
of an attempt, as long as they change a conversation only together with its version, a routed turn
names the conversation of the chat, the persona that is active when the turn is committed, and a
lane of exactly that persona with a stored version of its present content; the keys of the tables
stay unique. A message of another user, or outside a private chat, changes nothing.
\<close>
theorem routed_turn_is_current:
  assumes "routing_ok s" and "\<And>n s. routing_ok s \<Longrightarrow> routing_ok (env n s) \<and> fenced s (env n s)"
    and "route digest clock ro env m s = (r, s')"
  shows "(\<not> is_authorized ro (in_user m) (in_type m) \<longrightarrow> r = Inr None \<and> s' = s)
    \<and> (is_authorized ro (in_user m) (in_type m) \<longrightarrow> r \<noteq> Inr None)
    \<and> routing_ok s' \<and> (\<forall>e. r \<noteq> Inl (TypeError e))
    \<and> (\<forall>t. r = Inr (Some t) \<longrightarrow> routed_ok digest (ro_catalog ro) (in_chat m) (in_text m) t s')"
proof (cases "is_authorized ro (in_user m) (in_type m)")
  case True
  let ?s = "ensure_conversation (in_chat m) (cat_default (ro_catalog ro)) s"
  obtain q s1 where q: "route_message digest clock (ro_catalog ro) env (in_chat m) (in_text m) s = (q, s1)" by force
  from route_loop_result [OF routing_ok_ensure_conversation [OF assms(1)] assms(2) q [unfolded route_message_def]]
  show ?thesis using True assms(3) q by (cases q) (auto simp: route_def)
qed (use assms(1,3) in \<open>auto simp: route_def\<close>)

lemma route_loop_no_conflict:
  assumes "routing_ok s" and "conversation_of chat s \<noteq> None" and "k < n" and "\<And>s. env k s = s"
    and env: "\<And>n s. routing_ok s \<Longrightarrow> routing_ok (env n s) \<and> fenced s (env n s)"
  shows "fst (route_loop digest clock cat env chat msg n s) \<noteq> Inl (RuntimeError ''conversation changed too frequently'')"
  using assms(1,2,3)
proof (induction n arbitrary: s)
  case (Suc n)
  from Suc.prems(2) obtain c where c: "conversation_of chat s = Some c" by blast
  note cs = conversation_of_Some [OF c]
  have oks: "routing_ok (env n s)" "fenced s (env n s)" using env Suc.prems(1) by simp_all
  show ?case
  proof (cases "catalog_get cat (cv_key c)")
    case None
    with c show ?thesis by simp
  next
    case (Some p)
    obtain q s1 where at: "lane_attempt digest (clock n) p id (cv_id c) (cv_version c) (env n s) = (q, s1)" by force
    show ?thesis
    proof (cases q)
      case (Inl e)
      from lane_attempt_error [OF at [unfolded Inl]] have "ensure_persona_version digest (clock n) p (env n s) = Inl e" ..
      then have "e \<noteq> RuntimeError ''conversation changed too frequently''"
        by (auto simp: ensure_persona_version_def Let_def guardE_def split: prod.splits option.splits if_splits)
      with c Some at Inl show ?thesis by simp
    next
      case (Inr o')
      show ?thesis
      proof (cases o')
        case None
        note L = lane_attempt_conflict [OF at [unfolded Inr None]]
        then have "n \<noteq> k" using cs assms(4) oks(1) by auto
        then have "fst (route_loop digest clock cat env chat msg n (env n s))
            \<noteq> Inl (RuntimeError ''conversation changed too frequently'')"
          by (intro Suc.IH oks(1) fenced_conversation [OF oks(2) Suc.prems(2)]) (use Suc.prems(3) in simp)
        then show ?thesis using L c Some at Inr None by auto
      next
        case (Some vid)
        then show ?thesis using c \<open>catalog_get cat (cv_key c) = Some p\<close> at Inr by (simp split: option.split)
      qed
    qed
  qed
qed simp

text \<open>
The retry loop gives up only under interference in every one of its eight attempts: when one
attempt finds the database as it was read, the message is not refused with a conflict.
\<close>
theorem route_conflict_needs_interference:
  assumes "routing_ok s" and "\<And>n s. routing_ok s \<Longrightarrow> routing_ok (env n s) \<and> fenced s (env n s)"
    and "k < 8" and "\<And>s. env k s = s"
  shows "fst (route_message digest clock cat env chat msg s) \<noteq> Inl (RuntimeError ''conversation changed too frequently'')"
  unfolding route_message_def
  by (rule route_loop_no_conflict [where k = k and env = env, OF routing_ok_ensure_conversation [OF assms(1)]])
    (use assms(2,3,4) in auto)

text \<open>A history: the allowed user writes, while another connection switches the persona once.\<close>

definition demo_catalog :: catalog where
  "demo_catalog = \<lparr>cat_personas = [demo_persona], cat_default = pe_key demo_persona\<rparr>"

definition demo_writer :: "nat \<Rightarrow> db \<Rightarrow> db" where
  "demo_writer n s = (if n = 7 then s\<lparr>conversations := update_where (\<lambda>c. cv_chat c = 70)
     (\<lambda>c. c\<lparr>cv_version := cv_version c + 1\<rparr>) (conversations s)\<rparr> else s)"

lemma demo_writer_ok: "routing_ok s \<Longrightarrow> routing_ok (demo_writer n s) \<and> fenced s (demo_writer n s)"
proof (intro conjI)
  assume ok: "routing_ok s"
  then show "routing_ok (demo_writer n s)"
    by (simp add: demo_writer_def routing_ok_def versions_ok_def map_update_where lane_linked_def)
  have "\<exists>c' \<in> set (conversations (demo_writer n s)). cv_id c' = cv_id c \<and> cv_chat c' = cv_chat c
      \<and> (cv_version c' = cv_version c \<longrightarrow> c' = c)" if "c \<in> set (conversations s)" for c
  proof (cases "n = 7 \<and> cv_chat c = 70")
    case True
    with update_where_mem [OF that, of "\<lambda>c. cv_chat c = 70" "\<lambda>c. c\<lparr>cv_version := cv_version c + 1\<rparr>"]
    show ?thesis by (intro bexI [of _ "c\<lparr>cv_version := cv_version c + 1\<rparr>"]) (simp_all add: demo_writer_def)
  next
    case False
    with update_where_keep [OF that, of "\<lambda>c. cv_chat c = 70"] that
    show ?thesis by (intro bexI [of _ c]) (auto simp: demo_writer_def)
  qed
  then show "fenced s (demo_writer n s)" unfolding fenced_def by blast
qed

lemma routing_ok_empty: "routing_ok empty_db"
  by (simp add: routing_ok_def versions_ok_def empty_db_def)

theorem routed_turn_is_current_witness:
  "\<exists>t s'. route (\<lambda>_. [104]) int \<lparr>ro_user = 7, ro_catalog = demo_catalog\<rparr> demo_writer
       \<lparr>in_user = 7, in_chat = 70, in_text = [72], in_type = Some (u ''private'')\<rparr> empty_db = (Inr (Some t), s')
     \<and> routed_ok (\<lambda>_. [104]) demo_catalog 70 [72] t s'"
proof -
  let ?m = "\<lparr>in_user = 7, in_chat = 70, in_text = [72], in_type = Some (u ''private'')\<rparr>"
  let ?ro = "\<lparr>ro_user = 7, ro_catalog = demo_catalog\<rparr>"
  have "\<exists>t s'. route (\<lambda>_. [104]) int ?ro demo_writer ?m empty_db = (Inr (Some t), s')"
    by (simp add: route_def is_authorized_def route_message_def ensure_conversation_def conversation_of_def
        eval_nat_numeral empty_db_def next_rowid_def catalog_get_def demo_catalog_def demo_writer_def update_where_def
        lane_attempt_def ensure_persona_version_def upsert_persona_def persona_row_of_def insert_version_def
        version_of_def persona_content_hash_def demo_persona_def ensure_lane_def bump_conversation_def
        lane_for_def lane_matches_def)
  then obtain t s' where r: "route (\<lambda>_. [104]) int ?ro demo_writer ?m empty_db = (Inr (Some t), s')" by blast
  from routed_turn_is_current [OF routing_ok_empty demo_writer_ok r] r show ?thesis by auto
qed

theorem route_conflict_needs_interference_witness:
  "fst (route_message (\<lambda>_. [104]) int demo_catalog demo_writer 70 [72] empty_db)
     \<noteq> Inl (RuntimeError ''conversation changed too frequently'')"
  by (rule route_conflict_needs_interference [OF routing_ok_empty demo_writer_ok, of 6]) (simp_all add: demo_writer_def)

end
