(* ===== verification/Reminder_Store.thy ===== *)
theory Reminder_Store
  imports Database
begin

text \<open>
  The reminder store of \<open>reminder_store.py\<close>: drafts, confirmation, activation, the
  materialisation of due occurrences into runs with their outbox entries, the delivery
  leases, snooze, completion, cancellation and purge.

  Every operation is a transaction on the database.  \<open>now\<close> is the value of
  \<open>self._clock()\<close>, \<open>token\<close> the value of \<open>secrets.token_urlsafe(18)\<close>, \<open>zones\<close> the zone
  database.  Time spans given in seconds are microseconds here.
\<close>

definition seconds :: "int \<Rightarrow> int" where
  "seconds n = n * 1000000"

section \<open>Requests and results\<close>

record reminder_draft =
  dr_owner :: int
  dr_persona :: int
  dr_chat :: int
  dr_text :: pystr
  dr_start :: py_datetime
  dr_timezone :: pystr
  dr_rule :: recurrence_rule
  dr_grace :: int
  dr_quiet_start :: "int option"
  dr_quiet_end :: "int option"
  dr_urgent :: bool

record delivery_lease =
  le_outbox :: int
  le_run :: int
  le_task :: int
  le_owner :: int
  le_epoch :: int
  le_chat :: int
  le_text :: pystr
  le_scheduled :: int
  le_attempt :: int
  le_token :: pystr
  le_until :: int

record reminder_policy =
  po_owner :: int
  po_timezone :: pystr
  po_quiet_start :: "int option"
  po_quiet_end :: "int option"

definition max_delivery_attempts :: int where
  "max_delivery_attempts = 3"

text \<open>\<open>_ERROR_KIND.fullmatch\<close>: a lower-case letter and at most 99 letters, digits or underscores.\<close>

definition error_kind_ok :: "pystr \<Rightarrow> bool" where
  "error_kind_ok s \<longleftrightarrow> (case s of [] \<Rightarrow> False | c # cs \<Rightarrow>
     97 \<le> c \<and> c \<le> 122 \<and> length cs \<le> 99
     \<and> list_all (\<lambda>d. (97 \<le> d \<and> d \<le> 122) \<or> is_digit d \<or> d = 95) cs)"

section \<open>Validation\<close>

definition validate_timezone :: "zone_db \<Rightarrow> pystr \<Rightarrow> unit result" where
  "validate_timezone zones name =
     guardE (is_blank name) (ValueError ''reminder timezone cannot be empty'')
     (guardE (zones (strip name) = None) (ValueError ''reminder timezone is unknown'') (Inr ()))"

definition validate_quiet_policy :: "int option \<Rightarrow> int option \<Rightarrow> unit result" where
  "validate_quiet_policy start fin =
     (case (start, fin) of
        (None, None) \<Rightarrow> Inr ()
      | (Some s, Some e) \<Rightarrow>
          guardE (minute_invalid (Some s) \<or> minute_invalid (Some e))
            (ValueError ''quiet hours minute is invalid'')
          (guardE (s = e) (ValueError ''quiet hours range cannot be empty'') (Inr ()))
      | _ \<Rightarrow> Inl (ValueError ''quiet hours require both start and end''))"

definition validate_draft :: "zone_db \<Rightarrow> reminder_draft \<Rightarrow> int result" where
  "validate_draft zones d =
     guardE (dr_owner d \<le> 0) (ValueError ''reminder owner must be a positive integer'')
     (guardE (dr_persona d \<le> 0) (ValueError ''reminder persona must be a positive integer'')
     (guardE (is_blank (dr_text d)) (ValueError ''reminder text cannot be empty'')
     (guardE (1000 < length (strip (dr_text d)))
        (ValueError ''reminder text exceeds the bounded limit'')
     (case dr_start d of
        Aware _ \<Rightarrow> Inl (ValueError ''reminder local start must be a naive datetime'')
      | Naive start \<Rightarrow>
          bindE (validate_timezone zones (dr_timezone d)) (\<lambda>_.
          bindE (validate_quiet_policy (dr_quiet_start d) (dr_quiet_end d)) (\<lambda>_.
          guardE (dr_grace d \<le> 0 \<or> 604800 < dr_grace d)
            (ValueError ''reminder grace period is invalid'') (Inr start)))))))"

section \<open>Lookups\<close>

definition active_profile :: "int \<Rightarrow> db \<Rightarrow> profile result" where
  "active_profile owner s =
     (case profile_of s owner of
        Some p \<Rightarrow> if p_state p = L_Active then Inr p
                  else Inl (ValueError ''active reminder owner profile does not exist'')
      | None \<Rightarrow> Inl (ValueError ''active reminder owner profile does not exist''))"

definition first_job :: "int \<Rightarrow> db \<Rightarrow> job option" where
  "first_job task_id s = first_by j_id (filter (\<lambda>j. j_task j = task_id) (jobs s))"

definition owned_task_and_job :: "int \<Rightarrow> int \<Rightarrow> db \<Rightarrow> (task \<times> job) result" where
  "owned_task_and_job task_id owner s =
     bindE (of_option (KeyError ''reminder task does not exist'') (task_of s task_id)) (\<lambda>t.
     guardE (tk_owner t \<noteq> owner) (PermissionError ''reminder task belongs to another owner'')
     (bindE (of_option (RuntimeError ''reminder task has no job'') (first_job task_id s)) (\<lambda>j.
       Inr (t, j))))"

definition ensure_current_epoch :: "task \<Rightarrow> db \<Rightarrow> unit result" where
  "ensure_current_epoch t s =
     bindE (active_profile (tk_owner t) s) (\<lambda>p.
     guardE (p_epoch p \<noteq> tk_epoch t) (RuntimeError ''reminder task lifecycle epoch is stale'')
       (Inr ()))"

definition task_by_id :: "int \<Rightarrow> db \<Rightarrow> task result" where
  "task_by_id n s = of_option (RuntimeError ''reminder task disappeared'') (task_of s n)"

definition job_by_id :: "int \<Rightarrow> db \<Rightarrow> job result" where
  "job_by_id n s = of_option (RuntimeError ''reminder job disappeared'') (job_of s n)"

section \<open>Draft, confirmation, activation\<close>

definition insert_task :: "reminder_draft \<Rightarrow> int \<Rightarrow> int \<Rightarrow> db \<Rightarrow> task" where
  "insert_task d epoch now s =
     \<lparr>tk_id = next_rowid tk_id (tasks s), tk_owner = dr_owner d, tk_persona = dr_persona d,
      tk_chat = dr_chat d, tk_epoch = epoch, tk_text = strip (dr_text d),
      tk_status = T_Awaiting, tk_created = now, tk_updated = now\<rparr>"

definition insert_job :: "reminder_draft \<Rightarrow> int \<Rightarrow> int \<Rightarrow> int \<Rightarrow> int \<Rightarrow> db \<Rightarrow> job" where
  "insert_job d start task_id epoch now s =
     \<lparr>j_id = next_rowid j_id (jobs s), j_task = task_id, j_owner = dr_owner d, j_epoch = epoch,
      j_status = J_Draft, j_timezone = strip (dr_timezone d), j_start = start, j_rule = dr_rule d,
      j_next = None, j_emitted = 0, j_grace = dr_grace d, j_quiet_start = dr_quiet_start d,
      j_quiet_end = dr_quiet_end d, j_urgent = dr_urgent d, j_created = now, j_updated = now\<rparr>"

text \<open>
  \<open>create_draft\<close>. The row of the task has to pass its check; that of the job cannot fail, because \<open>ZoneInfo\<close>
  knows no zone whose name begins with a NUL.
\<close>

definition create_draft :: "zone_db \<Rightarrow> int \<Rightarrow> reminder_draft \<Rightarrow> (db, task \<times> job) op" where
  "create_draft zones now d = transaction (\<lambda>s.
     bindE (validate_draft zones d) (\<lambda>start.
     bindE (active_profile (dr_owner d) s) (\<lambda>p.
     guardE (\<not> list_ex (\<lambda>r. pr_id r = dr_persona d \<and> pr_active r) (personas s))
       (ValueError ''active reminder persona does not exist'')
     (guardE (\<not> sql_nonblank (strip (dr_text d))) (IntegrityError ''CHECK constraint failed'')
     (let t = insert_task d (p_epoch p) now s;
          j = insert_job d start (tk_id t) (p_epoch p) now s
      in Inr ((t, j), s\<lparr>tasks := tasks s @ [t], jobs := jobs s @ [j]\<rparr>))))))"

definition set_job :: "int \<Rightarrow> (job \<Rightarrow> job) \<Rightarrow> db \<Rightarrow> db" where
  "set_job n f s = s\<lparr>jobs := update_where (\<lambda>j. j_id j = n) f (jobs s)\<rparr>"

definition set_task :: "int \<Rightarrow> (task \<Rightarrow> task) \<Rightarrow> db \<Rightarrow> db" where
  "set_task n f s = s\<lparr>tasks := update_where (\<lambda>t. tk_id t = n) f (tasks s)\<rparr>"

definition mark_awaiting_confirmation :: "int \<Rightarrow> int \<Rightarrow> int \<Rightarrow> (db, job) op" where
  "mark_awaiting_confirmation now task_id owner = transaction (\<lambda>s.
     bindE (owned_task_and_job task_id owner s) (\<lambda>(t, j).
     bindE (if j_status j = J_Draft then
              (let s' = s\<lparr>jobs := update_where (\<lambda>r. j_id r = j_id j \<and> j_status r = J_Draft)
                     (\<lambda>r. r\<lparr>j_status := J_Awaiting, j_updated := now\<rparr>) (jobs s)\<rparr>
               in bindE (job_by_id (j_id j) s') (\<lambda>j'. Inr (j', s')))
            else if j_status j \<in> {J_Awaiting, J_Active, J_NeedsReview} then Inr (j, s)
            else Inl (RuntimeError ''reminder job cannot await confirmation'')) (\<lambda>(j', s').
     bindE (ensure_current_epoch t s') (\<lambda>_. Inr (j', s')))))"

text \<open>The first occurrence of a job: \<open>None\<close> when its wall time does not resolve.\<close>

definition first_instant :: "zone_db \<Rightarrow> job \<Rightarrow> int option result" where
  "first_instant zones j =
     bindE (next_occurrence (j_rule j) (Naive (j_start j)) None 0) (\<lambda>first_local.
       case first_local of
         None \<Rightarrow> Inl (RuntimeError ''reminder recurrence has no first occurrence'')
       | Some w \<Rightarrow>
          (case resolve_local_time zones (Naive w) (j_timezone j) of
             Inl (LocalTimeResolutionError _) \<Rightarrow> Inr None
           | Inl e \<Rightarrow> Inl e
           | Inr utc \<Rightarrow> Inr (Some utc)))"

definition activate :: "zone_db \<Rightarrow> int \<Rightarrow> int \<Rightarrow> int \<Rightarrow> (db, job) op" where
  "activate zones now task_id owner = transaction (\<lambda>s.
     bindE (owned_task_and_job task_id owner s) (\<lambda>(t, j).
     bindE (ensure_current_epoch t s) (\<lambda>_.
     if j_status j \<in> {J_Active, J_NeedsReview} then Inr (j, s)
     else guardE (j_status j \<noteq> J_Awaiting)
       (RuntimeError ''reminder job is not awaiting confirmation'')
     (bindE (first_instant zones j) (\<lambda>first_utc.
       let s' = (case first_utc of
            None \<Rightarrow> set_task task_id (\<lambda>r. r\<lparr>tk_status := T_NeedsReview, tk_updated := now\<rparr>)
              (set_job (j_id j) (\<lambda>r. r\<lparr>j_status := J_NeedsReview, j_next := None,
                 j_updated := now\<rparr>) s)
          | Some utc \<Rightarrow> set_task task_id (\<lambda>r. r\<lparr>tk_status := T_Active, tk_updated := now\<rparr>)
              (set_job (j_id j) (\<lambda>r. r\<lparr>j_status := J_Active, j_next := Some utc,
                 j_updated := now\<rparr>) s))
       in bindE (job_by_id (j_id j) s') (\<lambda>j'. Inr (j', s')))))))"

section \<open>Materialisation\<close>

definition next_of :: "job \<Rightarrow> int" where
  "next_of j = (case j_next j of Some n \<Rightarrow> n | None \<Rightarrow> 0)"

definition job_due :: "int \<Rightarrow> db \<Rightarrow> job \<Rightarrow> bool" where
  "job_due now s j \<longleftrightarrow>
     j_status j = J_Active
     \<and> (case j_next j of None \<Rightarrow> False | Some n \<Rightarrow> n \<le> now)
     \<and> (case task_of s (j_task j) of None \<Rightarrow> False
        | Some t \<Rightarrow> tk_status t = T_Active \<and> tk_epoch t = j_epoch j)
     \<and> (case profile_of s (j_owner j) of None \<Rightarrow> False
        | Some p \<Rightarrow> p_epoch p = j_epoch j \<and> p_state p = L_Active)"

text \<open>The rows of the join, \<open>ORDER BY next_scheduled_for, id LIMIT limit\<close>.\<close>

definition due_jobs :: "int \<Rightarrow> nat \<Rightarrow> db \<Rightarrow> (job \<times> task) list" where
  "due_jobs now limit s =
     concat (map (\<lambda>j. case task_of s (j_task j) of None \<Rightarrow> [] | Some t \<Rightarrow> [(j, t)])
       (take limit (sort_key (\<lambda>j. (next_of j, j_id j)) (filter (job_due now s) (jobs s)))))"

definition complete_job :: "int \<Rightarrow> int \<Rightarrow> job \<Rightarrow> db \<Rightarrow> db" where
  "complete_job now emitted j =
     set_job (j_id j) (\<lambda>r. r\<lparr>j_status := J_Completed, j_next := None, j_emitted := emitted,
       j_updated := now\<rparr>)"

definition review_job :: "int \<Rightarrow> int \<Rightarrow> job \<Rightarrow> db \<Rightarrow> db" where
  "review_job now emitted j s =
     set_task (j_task j) (\<lambda>r. r\<lparr>tk_status := T_NeedsReview, tk_updated := now\<rparr>)
       (set_job (j_id j) (\<lambda>r. r\<lparr>j_status := J_NeedsReview, j_next := None, j_emitted := emitted,
          j_updated := now\<rparr>) s)"

definition advance_job_cursor :: "zone_db \<Rightarrow> int \<Rightarrow> job \<Rightarrow> int \<Rightarrow> db \<Rightarrow> db result" where
  "advance_job_cursor zones now j scheduled s =
     bindE (of_option (KeyError ''no time zone found'') (zones (j_timezone j))) (\<lambda>z.
     bindE (astimezone_local z scheduled) (\<lambda>current_local.
     bindE (next_occurrence (j_rule j) (Naive (j_start j)) (Some (Naive current_local))
         (j_emitted j + 1)) (\<lambda>following_local.
       case following_local of
         None \<Rightarrow> Inr (complete_job now (j_emitted j + 1) j s)
       | Some w \<Rightarrow>
          (case resolve_local_time zones (Naive w) (j_timezone j) of
             Inl (LocalTimeResolutionError _) \<Rightarrow> Inr (review_job now (j_emitted j + 1) j s)
           | Inl e \<Rightarrow> Inl e
           | Inr utc \<Rightarrow> Inr (set_job (j_id j) (\<lambda>r. r\<lparr>j_next := Some utc,
               j_emitted := j_emitted j + 1, j_updated := now\<rparr>) s)))))"

text \<open>\<open>_mark_job_needs_review\<close> adds to the stored count, not to the count read before.\<close>

definition mark_job_needs_review :: "int \<Rightarrow> job \<Rightarrow> db \<Rightarrow> db" where
  "mark_job_needs_review now j s =
     set_task (j_task j) (\<lambda>r. r\<lparr>tk_status := T_NeedsReview, tk_updated := now\<rparr>)
       (set_job (j_id j) (\<lambda>r. r\<lparr>j_status := J_NeedsReview, j_next := None,
          j_emitted := j_emitted r + 1, j_updated := now\<rparr>) s)"

definition new_run :: "job \<Rightarrow> int \<Rightarrow> run_status \<Rightarrow> pystr option \<Rightarrow> pystr option \<Rightarrow> int \<Rightarrow> db \<Rightarrow> run" where
  "new_run j scheduled st err action now s =
     \<lparr>rn_id = next_rowid rn_id (runs s), rn_job = j_id j, rn_owner = j_owner j,
      rn_epoch = j_epoch j, rn_scheduled = scheduled, rn_status = st, rn_claimed = None,
      rn_delivered = None, rn_error = err, rn_action = action, rn_created = now,
      rn_updated = now\<rparr>"

definition new_outbox ::
    "int \<Rightarrow> job \<Rightarrow> task \<Rightarrow> int \<Rightarrow> int \<Rightarrow> outbox_status \<Rightarrow> int \<Rightarrow> db \<Rightarrow> outbox" where
  "new_outbox run_id j t scheduled available st now s =
     \<lparr>o_id = next_rowid o_id (outboxes s), o_run = run_id, o_owner = j_owner j,
      o_epoch = j_epoch j, o_chat = tk_chat t, o_text = tk_text t, o_scheduled = scheduled,
      o_available = available, o_status = st, o_attempt = 0, o_token = None, o_until = None,
      o_message = None, o_error = None, o_created = now, o_updated = now\<rparr>"

definition insert_run :: "run \<Rightarrow> outbox \<Rightarrow> db \<Rightarrow> db" where
  "insert_run r ob s = s\<lparr>runs := runs s @ [r], outboxes := outboxes s @ [ob]\<rparr>"

text \<open>
  One round of the loop of \<open>materialize_due\<close>.  The inner \<open>release_time\<close> is the
  \<open>try .. except LocalTimeResolutionError\<close> around the quiet hours: the delivery time and
  whether the resolution failed.  A run of the same job at the same time makes the
  \<open>INSERT OR IGNORE\<close> insert nothing, and the round ends there.
\<close>

definition release_time :: "zone_db \<Rightarrow> job \<Rightarrow> int \<Rightarrow> (int \<times> bool) result" where
  "release_time zones j scheduled =
     (case quiet_hours_available_at zones (Aware scheduled) (j_timezone j) (j_quiet_start j)
             (j_quiet_end j) (j_urgent j) of
        Inl (LocalTimeResolutionError _) \<Rightarrow> Inr (scheduled, True)
      | Inl e \<Rightarrow> Inl e
      | Inr available \<Rightarrow> Inr (available, False))"

definition run_exists :: "int \<Rightarrow> int \<Rightarrow> db \<Rightarrow> bool" where
  "run_exists job_id scheduled s =
     list_ex (\<lambda>r. rn_job r = job_id \<and> rn_scheduled r = scheduled) (runs s)"

definition record_occurrence ::
    "zone_db \<Rightarrow> int \<Rightarrow> job \<Rightarrow> task \<Rightarrow> int \<Rightarrow> bool \<Rightarrow> bool \<Rightarrow> db \<Rightarrow> (run list \<times> db) result" where
  "record_occurrence zones now j t available failed missed s =
     (let scheduled = next_of j;
          r = new_run j scheduled (if missed then R_Missed else R_Due)
            (if failed then Some (u ''quiet_hours_invalid'') else None) None now s;
          ob = new_outbox (rn_id r) j t scheduled available
            (if missed then O_Cancelled else O_Pending) now s;
          s' = insert_run r ob s
      in bindE (if failed then Inr (mark_job_needs_review now j s')
                else advance_job_cursor zones now j scheduled s') (\<lambda>s''. Inr ([r], s'')))"

definition materialize_one :: "zone_db \<Rightarrow> int \<Rightarrow> job \<times> task \<Rightarrow> db \<Rightarrow> (run list \<times> db) result" where
  "materialize_one zones now jt s =
     (case jt of (j, t) \<Rightarrow>
      bindE (release_time zones j (next_of j)) (\<lambda>(available, failed).
      bindE (datetime_add (next_of j) (seconds (j_grace j))) (\<lambda>deadline.
      if run_exists (j_id j) (next_of j) s then Inr ([], s)
      else record_occurrence zones now j t available failed
        (failed \<or> deadline < now \<or> deadline < available) s)))"

fun materialize_jobs ::
    "zone_db \<Rightarrow> int \<Rightarrow> (job \<times> task) list \<Rightarrow> db \<Rightarrow> (run list \<times> db) result" where
  "materialize_jobs zones now [] s = Inr ([], s)"
| "materialize_jobs zones now (jt # jts) s =
     bindE (materialize_one zones now jt s) (\<lambda>(rs, s').
     bindE (materialize_jobs zones now jts s') (\<lambda>(rs', s''). Inr (rs @ rs', s'')))"

definition materialize_due :: "zone_db \<Rightarrow> int \<Rightarrow> int \<Rightarrow> (db, run list) op" where
  "materialize_due zones now limit = transaction (\<lambda>s.
     guardE (limit < 1 \<or> 1000 < limit) (ValueError ''reminder materialization limit is invalid'')
       (materialize_jobs zones now (due_jobs now (nat limit) s) s))"

section \<open>Delivery leases\<close>

definition outbox_job :: "outbox \<Rightarrow> db \<Rightarrow> job option" where
  "outbox_job ob s = (case run_of s (o_run ob) of None \<Rightarrow> None | Some r \<Rightarrow> job_of s (rn_job r))"

definition owner_current :: "int \<Rightarrow> int \<Rightarrow> db \<Rightarrow> bool" where
  "owner_current owner epoch s \<longleftrightarrow>
     (case profile_of s owner of None \<Rightarrow> False
      | Some p \<Rightarrow> p_epoch p = epoch \<and> p_state p = L_Active)"

definition eligible :: "int \<Rightarrow> db \<Rightarrow> outbox \<Rightarrow> bool" where
  "eligible now s ob \<longleftrightarrow>
     o_attempt ob < max_delivery_attempts \<and> o_available ob \<le> now
     \<and> (o_status ob = O_Pending
        \<or> (o_status ob = O_Leased \<and> (case o_until ob of None \<Rightarrow> False | Some l \<Rightarrow> l \<le> now)))
     \<and> outbox_job ob s \<noteq> None \<and> owner_current (o_owner ob) (o_epoch ob) s"

definition next_eligible :: "int \<Rightarrow> db \<Rightarrow> outbox option" where
  "next_eligible now s = first_by (\<lambda>ob. (o_available ob, o_id ob)) (filter (eligible now s) (outboxes s))"

definition set_outbox :: "int \<Rightarrow> (outbox \<Rightarrow> outbox) \<Rightarrow> db \<Rightarrow> db" where
  "set_outbox n f s = s\<lparr>outboxes := update_where (\<lambda>ob. o_id ob = n) f (outboxes s)\<rparr>"

definition set_open_run :: "int \<Rightarrow> (run \<Rightarrow> run) \<Rightarrow> db \<Rightarrow> db" where
  "set_open_run n f s =
     s\<lparr>runs := update_where (\<lambda>r. rn_id r = n \<and> rn_status r \<in> {R_Due, R_Claimed}) f (runs s)\<rparr>"

definition expire_outbox :: "int \<Rightarrow> outbox \<Rightarrow> db \<Rightarrow> db" where
  "expire_outbox now ob s =
     set_open_run (o_run ob) (\<lambda>r. r\<lparr>rn_status := R_Missed, rn_error := Some (u ''grace_expired''),
       rn_updated := now\<rparr>)
     (set_outbox (o_id ob) (\<lambda>r. r\<lparr>o_status := O_Cancelled, o_token := None, o_until := None,
       o_updated := now\<rparr>) s)"

definition grant_outbox :: "int \<Rightarrow> int \<Rightarrow> pystr \<Rightarrow> outbox \<Rightarrow> db \<Rightarrow> db" where
  "grant_outbox now lease_until token ob s =
     set_open_run (o_run ob) (\<lambda>r. r\<lparr>rn_status := R_Claimed, rn_claimed := Some now,
       rn_updated := now\<rparr>)
     (set_outbox (o_id ob) (\<lambda>r. r\<lparr>o_status := O_Leased, o_attempt := o_attempt r + 1,
       o_token := Some token, o_until := Some lease_until, o_error := None, o_updated := now\<rparr>) s)"

text \<open>\<open>_lease_from_row\<close> on the row read back.\<close>

definition lease_from_row :: "outbox \<Rightarrow> job \<Rightarrow> delivery_lease result" where
  "lease_from_row ob j =
     (case (o_token ob, o_until ob) of
        (Some token, Some lease_until) \<Rightarrow> Inr
          \<lparr>le_outbox = o_id ob, le_run = o_run ob, le_task = j_task j, le_owner = o_owner ob,
           le_epoch = o_epoch ob, le_chat = o_chat ob, le_text = o_text ob,
           le_scheduled = o_scheduled ob, le_attempt = o_attempt ob, le_token = token,
           le_until = lease_until\<rparr>
      | _ \<Rightarrow> Inl (RuntimeError ''persisted delivery lease is incomplete''))"

definition read_lease :: "int \<Rightarrow> db \<Rightarrow> delivery_lease result" where
  "read_lease n s =
     bindE (of_option (TypeError ''no leased row'') (outbox_of s n)) (\<lambda>ob.
     bindE (of_option (TypeError ''no leased row'') (outbox_job ob s)) (\<lambda>j. lease_from_row ob j))"

text \<open>The deadline of an outbox row: its scheduled time and the job's grace period.\<close>

definition delivery_deadline :: "outbox \<Rightarrow> db \<Rightarrow> int result" where
  "delivery_deadline ob s =
     bindE (of_option (TypeError ''no job'') (outbox_job ob s)) (\<lambda>j.
       datetime_add (o_scheduled ob) (seconds (j_grace j)))"

lemma eligible_not_cancelled: "eligible now s ob \<Longrightarrow> o_status ob \<noteq> O_Cancelled"
  by (auto simp: eligible_def)

lemma profile_of_expire [simp]: "profiles (expire_outbox now ob s) = profiles s"
  by (simp add: expire_outbox_def set_open_run_def set_outbox_def)

lemma jobs_expire [simp]: "jobs (expire_outbox now ob s) = jobs s"
  by (simp add: expire_outbox_def set_open_run_def set_outbox_def)

lemma outbox_job_expire [simp]: "outbox_job ob' (expire_outbox now ob s) = outbox_job ob' s"
proof -
  have "runs (expire_outbox now ob s) = update_where
      (\<lambda>r. rn_id r = o_run ob \<and> rn_status r \<in> {R_Due, R_Claimed})
      (\<lambda>r. r\<lparr>rn_status := R_Missed, rn_error := Some (u ''grace_expired''), rn_updated := now\<rparr>)
      (runs s)"
    by (simp add: expire_outbox_def set_open_run_def set_outbox_def)
  then show ?thesis
    by (simp add: outbox_job_def row_by_update split: option.split)
qed

lemma eligible_expire [simp]: "eligible now (expire_outbox now' ob s) = eligible now s"
  by (rule ext) (simp add: eligible_def owner_current_def)

lemma outboxes_expire [simp]: "outboxes (expire_outbox now ob s) =
    update_where (\<lambda>r. o_id r = o_id ob) (\<lambda>r. r\<lparr>o_status := O_Cancelled, o_token := None,
      o_until := None, o_updated := now\<rparr>) (outboxes s)"
  by (simp add: expire_outbox_def set_open_run_def set_outbox_def)

lemma next_eligible_Some:
  assumes "next_eligible now s = Some ob"
  shows "ob \<in> set (outboxes s)" and "eligible now s ob"
    and "\<And>ob'. ob' \<in> set (outboxes s) \<Longrightarrow> eligible now s ob' \<Longrightarrow>
      (o_available ob, o_id ob) \<le> (o_available ob', o_id ob')"
proof -
  note f = first_by_Some [OF assms [unfolded next_eligible_def]]
  show "ob \<in> set (outboxes s)" "eligible now s ob" using f(1) by auto
  show "(o_available ob, o_id ob) \<le> (o_available ob', o_id ob')"
    if "ob' \<in> set (outboxes s)" "eligible now s ob'" for ob'
    by (rule f(2)) (use that in simp)
qed

lemma next_eligible_None:
  "next_eligible now s = None \<longleftrightarrow> (\<forall>ob \<in> set (outboxes s). \<not> eligible now s ob)"
  by (simp add: next_eligible_def filter_empty_conv)

definition eligible_count :: "int \<Rightarrow> db \<Rightarrow> nat" where
  "eligible_count now s = count_where (eligible now s) (outboxes s)"

lemma eligible_count_expire:
  assumes "next_eligible now s = Some ob"
  shows "eligible_count now (expire_outbox now ob s) < eligible_count now s"
  unfolding eligible_count_def eligible_expire outboxes_expire
  by (rule count_where_update_less [where r = ob])
    (use next_eligible_Some(1,2) [OF assms] in \<open>auto simp: eligible_def\<close>)

text \<open>
  The \<open>while True\<close> loop of \<open>lease_delivery\<close>: expired candidates are cancelled one after the
  other until one can be leased or none is left.  Every round that goes on takes one row out
  of the eligible ones.
\<close>

function lease_loop :: "int \<Rightarrow> int \<Rightarrow> pystr \<Rightarrow> db \<Rightarrow> (delivery_lease option \<times> db) result" where
  "lease_loop now lease_until token s =
     (case next_eligible now s of
        None \<Rightarrow> Inr (None, s)
      | Some ob \<Rightarrow>
          (case delivery_deadline ob s of
             Inl e \<Rightarrow> Inl e
           | Inr deadline \<Rightarrow>
               if deadline < now
               then lease_loop now lease_until token (expire_outbox now ob s)
               else
                 (let s' = grant_outbox now lease_until token ob s in
                  bindE (read_lease (o_id ob) s') (\<lambda>l. Inr (Some l, s')))))"
  by pat_completeness auto

termination lease_loop
  by (relation "measure (\<lambda>(now, _, _, s). eligible_count now s)")
    (auto intro: eligible_count_expire)

declare lease_loop.simps [simp del]

definition lease_delivery :: "int \<Rightarrow> pystr \<Rightarrow> int \<Rightarrow> (db, delivery_lease option) op" where
  "lease_delivery now token lease_seconds = transaction (\<lambda>s.
     guardE (lease_seconds < 1 \<or> 3600 < lease_seconds)
       (ValueError ''delivery lease duration is invalid'')
     (bindE (datetime_add now (seconds lease_seconds)) (\<lambda>lease_until.
        lease_loop now lease_until token s)))"

definition delivery_is_current :: "delivery_lease \<Rightarrow> db \<Rightarrow> bool" where
  "delivery_is_current l s \<longleftrightarrow>
     list_ex (\<lambda>ob. o_id ob = le_outbox l \<and> o_owner ob = le_owner l \<and> o_epoch ob = le_epoch l
        \<and> o_token ob = Some (le_token l) \<and> o_status ob = O_Leased
        \<and> owner_current (o_owner ob) (o_epoch ob) s) (outboxes s)"

text \<open>\<open>str(row["lease_token"])\<close>: the text of a missing token is \<open>None\<close>.\<close>

definition token_text :: "outbox \<Rightarrow> pystr" where
  "token_text ob = (case o_token ob of None \<Rightarrow> u ''None'' | Some t \<Rightarrow> t)"

definition lease_matches :: "delivery_lease \<Rightarrow> outbox \<Rightarrow> db \<Rightarrow> bool" where
  "lease_matches l ob s \<longleftrightarrow>
     o_owner ob = le_owner l \<and> o_epoch ob = le_epoch l \<and> token_text ob = le_token l
     \<and> owner_current (le_owner l) (le_epoch l) s"

definition record_external_commit :: "delivery_lease \<Rightarrow> int \<Rightarrow> db \<Rightarrow> db" where
  "record_external_commit l now s =
     (if list_ex (\<lambda>a. da_token a = le_token l) (delivery_audits s) then s
      else s\<lparr>delivery_audits := delivery_audits s @
        [\<lparr>da_id = next_rowid da_id (delivery_audits s), da_owner = le_owner l,
          da_epoch = le_epoch l, da_token = le_token l, da_created = now\<rparr>]\<rparr>)"

definition commit_sent :: "delivery_lease \<Rightarrow> int \<Rightarrow> int \<Rightarrow> db \<Rightarrow> db" where
  "commit_sent l message now s =
     s\<lparr>outboxes := update_where (\<lambda>ob. o_id ob = le_outbox l \<and> o_token ob = Some (le_token l)
           \<and> o_status ob = O_Leased)
         (\<lambda>ob. ob\<lparr>o_status := O_Sent, o_message := Some message, o_until := None,
            o_updated := now\<rparr>) (outboxes s),
       runs := update_where (\<lambda>r. rn_id r = le_run l)
         (\<lambda>r. r\<lparr>rn_status := R_Delivered, rn_delivered := Some now, rn_updated := now\<rparr>) (runs s)\<rparr>"

definition mark_delivery_sent :: "int \<Rightarrow> delivery_lease \<Rightarrow> int \<Rightarrow> (db, bool) op" where
  "mark_delivery_sent now l message = transaction (\<lambda>s.
     guardE (message \<le> 0) (ValueError ''Telegram message id must be positive'')
     (case outbox_of s (le_outbox l) of
        None \<Rightarrow> Inr (False, record_external_commit l now s)
      | Some ob \<Rightarrow>
          if lease_matches l ob s \<and> o_status ob = O_Sent then
            guardE (o_message ob \<noteq> Some message)
              (RuntimeError ''delivery was committed with another message id'') (Inr (True, s))
          else if lease_matches l ob s \<and> o_status ob = O_Leased then
            Inr (True, commit_sent l message now s)
          else Inr (False, record_external_commit l now s)))"

definition release_outbox ::
    "delivery_lease \<Rightarrow> outbox_status \<Rightarrow> run_status \<Rightarrow> int \<Rightarrow> pystr \<Rightarrow> int \<Rightarrow> db \<Rightarrow> db" where
  "release_outbox l ost rst available err now s =
     s\<lparr>outboxes := update_where (\<lambda>ob. o_id ob = le_outbox l)
         (\<lambda>ob. ob\<lparr>o_status := ost, o_available := available, o_token := None, o_until := None,
            o_error := Some err, o_updated := now\<rparr>) (outboxes s),
       runs := update_where (\<lambda>r. rn_id r = le_run l)
         (\<lambda>r. r\<lparr>rn_status := rst, rn_error := Some err, rn_updated := now\<rparr>) (runs s)\<rparr>"

text \<open>The row \<open>release_delivery\<close> selects: leased under the token, its owner still known.\<close>

definition leased_row :: "delivery_lease \<Rightarrow> db \<Rightarrow> outbox option" where
  "leased_row l s = find (\<lambda>ob. o_id ob = le_outbox l \<and> o_token ob = Some (le_token l)
      \<and> o_status ob = O_Leased \<and> profile_of s (o_owner ob) \<noteq> None) (outboxes s)"

definition release_delivery :: "int \<Rightarrow> delivery_lease \<Rightarrow> pystr \<Rightarrow> int \<Rightarrow> (db, bool) op" where
  "release_delivery now l err delay = transaction (\<lambda>s.
     guardE (\<not> error_kind_ok err) (ValueError ''delivery error kind is invalid'')
     (guardE (delay < 1 \<or> 3600 < delay) (ValueError ''delivery retry delay is invalid'')
     (case leased_row l s of
        None \<Rightarrow> Inr (False, s)
      | Some ob \<Rightarrow>
          if \<not> owner_current (o_owner ob) (le_epoch l) s then Inr (False, s)
          else if max_delivery_attempts \<le> o_attempt ob then
            Inr (True, release_outbox l O_Failed R_Failed (o_available ob) err now s)
          else bindE (datetime_add now (seconds delay)) (\<lambda>available.
            Inr (True, release_outbox l O_Pending R_Due available err now s)))))"

section \<open>Queries\<close>

definition get_task :: "int \<Rightarrow> int \<Rightarrow> db \<Rightarrow> task option" where
  "get_task task_id owner s = find (\<lambda>t. tk_id t = task_id \<and> tk_owner t = owner) (tasks s)"

definition list_runs :: "int \<Rightarrow> int \<Rightarrow> db \<Rightarrow> run list" where
  "list_runs job_id owner s = sort_key (\<lambda>r. (rn_scheduled r, rn_id r))
     (filter (\<lambda>r. rn_job r = job_id \<and> rn_owner r = owner) (runs s))"

definition get_outbox :: "int \<Rightarrow> int \<Rightarrow> db \<Rightarrow> outbox option" where
  "get_outbox run_id owner s = find (\<lambda>ob. o_run ob = run_id \<and> o_owner ob = owner) (outboxes s)"

definition get_job :: "int \<Rightarrow> int \<Rightarrow> db \<Rightarrow> job option" where
  "get_job job_id owner s = find (\<lambda>j. j_id j = job_id \<and> j_owner j = owner) (jobs s)"

definition get_job_for_task :: "int \<Rightarrow> int \<Rightarrow> db \<Rightarrow> job option" where
  "get_job_for_task task_id owner s =
     first_by j_id (filter (\<lambda>j. j_task j = task_id \<and> j_owner j = owner) (jobs s))"

text \<open>\<open>ORDER BY updated_at DESC, id DESC LIMIT limit\<close>.\<close>

definition list_tasks :: "int \<Rightarrow> int \<Rightarrow> db \<Rightarrow> task list result" where
  "list_tasks owner limit s =
     guardE (limit < 1 \<or> 100 < limit) (ValueError ''reminder task list limit is invalid'')
       (Inr (take (nat limit) (rev (sort_key (\<lambda>t. (tk_updated t, tk_id t))
          (filter (\<lambda>t. tk_owner t = owner) (tasks s))))))"

definition persona_id_for_key :: "pystr \<Rightarrow> db \<Rightarrow> int option result" where
  "persona_id_for_key key s =
     guardE (is_blank key) (ValueError ''reminder persona key cannot be empty'')
       (Inr (map_option pr_id (find (\<lambda>r. pr_profile r = u ''default'' \<and> pr_key r = strip key
          \<and> pr_active r) (personas s))))"

section \<open>The owner's reminder policy\<close>

definition get_profile_policy :: "int \<Rightarrow> db \<Rightarrow> reminder_policy result" where
  "get_profile_policy owner s =
     (case profile_of s owner of
        None \<Rightarrow> Inl (KeyError ''reminder owner profile does not exist'')
      | Some p \<Rightarrow> Inr \<lparr>po_owner = p_user p, po_timezone = p_timezone p,
          po_quiet_start = p_quiet_start p, po_quiet_end = p_quiet_end p\<rparr>)"

definition ensure_profile :: "int \<Rightarrow> int \<Rightarrow> (db, reminder_policy) op" where
  "ensure_profile now owner = transaction (\<lambda>s.
     guardE (owner \<le> 0) (ValueError ''reminder owner must be a positive integer'')
     (let s' = ensure_profile_row owner now s in
      bindE (get_profile_policy owner s') (\<lambda>p. Inr (p, s'))))"

definition set_profile_policy ::
    "zone_db \<Rightarrow> int \<Rightarrow> pystr \<Rightarrow> int option \<Rightarrow> int option \<Rightarrow> (db, reminder_policy) op" where
  "set_profile_policy zones owner timezone_name start fin = transaction (\<lambda>s.
     bindE (validate_timezone zones timezone_name) (\<lambda>_.
     bindE (validate_quiet_policy start fin) (\<lambda>_.
     guardE (\<not> list_ex (\<lambda>p. p_user p = owner \<and> p_state p = L_Active) (profiles s))
       (KeyError ''active reminder owner profile does not exist'')
     (let s' = s\<lparr>profiles := update_where (\<lambda>p. p_user p = owner \<and> p_state p = L_Active)
            (\<lambda>p. p\<lparr>p_timezone := strip timezone_name, p_quiet_start := start,
               p_quiet_end := fin\<rparr>) (profiles s)\<rparr>
      in bindE (get_profile_policy owner s') (\<lambda>p. Inr (p, s'))))))"

section \<open>Snooze, completion, cancellation, purge\<close>

definition task_run :: "int \<Rightarrow> db \<Rightarrow> run \<Rightarrow> bool" where
  "task_run task_id s r \<longleftrightarrow> list_ex (\<lambda>j. j_id j = rn_job r \<and> j_task j = task_id) (jobs s)"

definition snooze_insert ::
    "zone_db \<Rightarrow> int \<Rightarrow> task \<Rightarrow> job \<Rightarrow> pystr \<Rightarrow> int \<Rightarrow> db \<Rightarrow> (run \<times> db) result" where
  "snooze_insert zones now t j action delay s =
     bindE (datetime_add now (seconds delay)) (\<lambda>scheduled.
     bindE (quiet_hours_available_at zones (Aware scheduled) (j_timezone j) (j_quiet_start j)
         (j_quiet_end j) (j_urgent j)) (\<lambda>available.
     bindE (datetime_add scheduled (seconds (j_grace j))) (\<lambda>deadline.
     guardE (run_exists (j_id j) scheduled s) (IntegrityError ''UNIQUE constraint failed'')
     (let missed = deadline < available;
          r = new_run j scheduled (if missed then R_Missed else R_Due) None (Some action) now s;
          ob = new_outbox (rn_id r) j t scheduled available
            (if missed then O_Cancelled else O_Pending) now s
      in Inr (r, insert_run r ob s)))))"

definition snooze_task ::
    "zone_db \<Rightarrow> int \<Rightarrow> int \<Rightarrow> int \<Rightarrow> pystr \<Rightarrow> int \<Rightarrow> (db, run) op" where
  "snooze_task zones now task_id owner action delay = transaction (\<lambda>s.
     guardE (is_blank action) (ValueError ''reminder snooze action token cannot be empty'')
     (guardE (128 < length action) (ValueError ''reminder snooze action token is too long'')
     (guardE (delay < 60 \<or> 604800 < delay) (ValueError ''reminder snooze delay is invalid'')
     (case find (\<lambda>r. rn_action r = Some action \<and> job_of s (rn_job r) \<noteq> None) (runs s) of
        Some r \<Rightarrow>
          guardE (rn_owner r \<noteq> owner \<or> \<not> task_run task_id s r)
            (RuntimeError ''reminder snooze action token was reused'') (Inr (r, s))
      | None \<Rightarrow>
          bindE (owned_task_and_job task_id owner s) (\<lambda>(t, j).
          bindE (ensure_current_epoch t s) (\<lambda>_.
          guardE (tk_status t \<noteq> T_Active)
            (RuntimeError ''only an active reminder can be snoozed'')
          (snooze_insert zones now t (j\<lparr>j_owner := owner\<rparr>) action delay s)))))))"

definition close_task_rows :: "task_status \<Rightarrow> job_status \<Rightarrow> int \<Rightarrow> int \<Rightarrow> db \<Rightarrow> db" where
  "close_task_rows target job_target now task_id s =
     s\<lparr>tasks := update_where (\<lambda>t. tk_id t = task_id)
         (\<lambda>t. t\<lparr>tk_status := target, tk_updated := now\<rparr>) (tasks s),
       jobs := update_where (\<lambda>j. j_task j = task_id \<and> j_status j \<notin> {J_Cancelled, J_Completed})
         (\<lambda>j. j\<lparr>j_status := job_target, j_next := None, j_updated := now\<rparr>) (jobs s),
       runs := update_where (\<lambda>r. task_run task_id s r \<and> rn_status r \<in> {R_Due, R_Claimed})
         (\<lambda>r. r\<lparr>rn_status := R_Cancelled, rn_updated := now\<rparr>) (runs s),
       outboxes := update_where (\<lambda>ob. list_ex (\<lambda>r. rn_id r = o_run ob \<and> task_run task_id s r) (runs s)
           \<and> o_status ob \<in> {O_Pending, O_Leased})
         (\<lambda>ob. ob\<lparr>o_status := O_Cancelled, o_token := None, o_until := None, o_updated := now\<rparr>)
         (outboxes s)\<rparr>"

definition finish_task :: "task_status \<Rightarrow> int \<Rightarrow> int \<Rightarrow> int \<Rightarrow> (db, task) op" where
  "finish_task target now task_id owner = transaction (\<lambda>s.
     bindE (of_option (KeyError ''reminder task does not exist'') (task_of s task_id)) (\<lambda>t.
     guardE (tk_owner t \<noteq> owner) (PermissionError ''reminder task belongs to another owner'')
     (bindE (ensure_current_epoch t s) (\<lambda>_.
     if tk_status t = target then Inr (t, s)
     else guardE (tk_status t \<in> {T_Cancelled, T_Completed})
       (RuntimeError ''reminder task is already terminal'')
     (let s' = close_task_rows target
            (if target = T_Cancelled then J_Cancelled else J_Completed) now task_id s
      in bindE (task_by_id task_id s') (\<lambda>t'. Inr (t', s')))))))"

definition cancel_task :: "int \<Rightarrow> int \<Rightarrow> int \<Rightarrow> (db, task) op" where
  "cancel_task = finish_task T_Cancelled"

definition complete_task :: "int \<Rightarrow> int \<Rightarrow> int \<Rightarrow> (db, task) op" where
  "complete_task = finish_task T_Completed"

definition purge_owner :: "int \<Rightarrow> int \<Rightarrow> (db, unit) op" where
  "purge_owner owner epoch = transaction (\<lambda>s.
     case profile_of s owner of
       None \<Rightarrow> Inl (RuntimeError ''reminder purge lifecycle fence is invalid'')
     | Some p \<Rightarrow>
         guardE (p_epoch p \<noteq> epoch \<or> p_state p \<noteq> L_Reset)
           (RuntimeError ''reminder purge lifecycle fence is invalid'')
         (Inr ((), delete_tasks (\<lambda>t. tk_owner t = owner) s)))"

end
