(* ===== verification/Extraction_Runs.thy ===== *)
theory Extraction_Runs
  imports Reminder_Store
begin

text \<open>
  The memory extraction runs of \<open>memory.py\<close>: one run for each user turn of a session, moved
  through its states by the operations of the store, each fenced by the owner's lifecycle epoch.
  \<open>now\<close> is the value of the store's clock.
\<close>

section \<open>Creating and reading runs\<close>

definition positive_ids :: "int list \<Rightarrow> 'a result \<Rightarrow> 'a result" where
  "positive_ids ns r = guardE (list_ex (\<lambda>n. n < 1) ns)
     (ValueError ''memory extraction identifiers must be positive integers'') r"

definition run_for :: "int \<Rightarrow> int \<Rightarrow> int \<Rightarrow> db \<Rightarrow> extraction option" where
  "run_for session_id turn_id epoch s = find (\<lambda>e. e_session e = session_id \<and> e_turn e = turn_id
     \<and> e_epoch e = epoch) (extractions s)"

definition new_extraction :: "int \<Rightarrow> int \<Rightarrow> int \<Rightarrow> int \<Rightarrow> int \<Rightarrow> db \<Rightarrow> extraction" where
  "new_extraction owner session_id turn_id epoch now s =
     \<lparr>e_id = next_rowid e_id (extractions s), e_owner = owner, e_session = session_id, e_turn = turn_id,
      e_epoch = epoch, e_status = E_Pending, e_attempt = 0, e_error = None, e_created = now, e_updated = now\<rparr>"

definition ensure_extraction_run :: "int \<Rightarrow> int \<Rightarrow> int \<Rightarrow> int \<Rightarrow> (db, extraction) op" where
  "ensure_extraction_run now owner session_id turn_id = transaction (\<lambda>s.
     positive_ids [owner, session_id, turn_id]
     (case (session_of s session_id, profile_of s owner) of
        (Some x, Some p) \<Rightarrow>
          guardE (s_owner x \<noteq> owner) (KeyError ''session not found for owner'')
          (guardE (s_status x \<noteq> S_Active) (RuntimeError ''extraction session is not active'')
          (guardE (p_state p \<noteq> L_Active) (RuntimeError ''owner lifecycle is not active'')
          (guardE (\<not> list_ex (\<lambda>t. tu_id t = turn_id \<and> tu_session t = session_id) (turns s))
             (ValueError ''source turn does not belong to session'')
          (case run_for session_id turn_id (p_epoch p) s of
             Some e \<Rightarrow> Inr (e, s)
           | None \<Rightarrow> (let e = new_extraction owner session_id turn_id (p_epoch p) now s
               in Inr (e, s\<lparr>extractions := extractions s @ [e]\<rparr>))))))
      | _ \<Rightarrow> Inl (KeyError ''session not found for owner'')))"

definition extraction_of :: "int \<Rightarrow> int \<Rightarrow> db \<Rightarrow> extraction option" where
  "extraction_of run_id owner s = find (\<lambda>e. e_id e = run_id \<and> e_owner e = owner) (extractions s)"

definition get_extraction_run :: "int \<Rightarrow> int \<Rightarrow> db \<Rightarrow> extraction option result" where
  "get_extraction_run run_id owner s = positive_ids [run_id, owner] (Inr (extraction_of run_id owner s))"

definition list_extraction_runs :: "int \<Rightarrow> int \<Rightarrow> db \<Rightarrow> extraction list result" where
  "list_extraction_runs owner session_id s = positive_ids [owner, session_id]
     (Inr (sort_key e_id (filter (\<lambda>e. e_owner e = owner \<and> e_session e = session_id) (extractions s))))"

definition in_lane :: "int \<Rightarrow> int \<Rightarrow> db \<Rightarrow> extraction \<Rightarrow> bool" where
  "in_lane owner lane_id s e \<longleftrightarrow> (case session_of s (e_session e) of None \<Rightarrow> False
     | Some x \<Rightarrow> s_owner x = owner \<and> s_lane x = lane_id)"

definition list_extraction_runs_for_lane :: "int \<Rightarrow> int \<Rightarrow> db \<Rightarrow> extraction list result" where
  "list_extraction_runs_for_lane owner lane_id s = positive_ids [owner, lane_id]
     (Inr (sort_key e_id (filter (\<lambda>e. e_owner e = owner \<and> in_lane owner lane_id s e) (extractions s))))"

definition extraction_lane_ids_for_user :: "int \<Rightarrow> db \<Rightarrow> int list result" where
  "extraction_lane_ids_for_user owner s = positive_ids [owner]
     (Inr (sort (remdups (concat (map (\<lambda>e. case session_of s (e_session e) of
            None \<Rightarrow> [] | Some x \<Rightarrow> if s_owner x = owner then [s_lane x] else [])
        (filter (\<lambda>e. e_owner e = owner) (extractions s)))))))"

definition blocking :: "extraction_status \<Rightarrow> bool" where
  "blocking st \<longleftrightarrow> st \<in> {E_Pending, E_Processing, E_Failed}"

definition has_blocking_extraction_runs :: "int \<Rightarrow> int \<Rightarrow> db \<Rightarrow> bool result" where
  "has_blocking_extraction_runs owner session_id s = positive_ids [owner, session_id]
     (Inr (list_ex (\<lambda>e. e_session e = session_id \<and> e_owner e = owner \<and> blocking (e_status e)
        \<and> (case session_of s (e_session e) of None \<Rightarrow> False | Some x \<Rightarrow> s_owner x = owner)) (extractions s)))"

section \<open>Transitions\<close>

text \<open>The fence of every transition: the run of the owner, current and in the expected state.\<close>

definition fenced_run :: "int \<Rightarrow> int \<Rightarrow> extraction_status \<Rightarrow> string \<Rightarrow> db \<Rightarrow> extraction result" where
  "fenced_run run_id owner expected conflict s =
     (case (extraction_of run_id owner s, profile_of s owner) of
        (Some e, Some p) \<Rightarrow>
          guardE (p_state p \<noteq> L_Active \<or> p_epoch p \<noteq> e_epoch e) (RuntimeError ''extraction run is stale'')
          (guardE (e_status e \<noteq> expected) (RuntimeError conflict) (Inr e))
      | _ \<Rightarrow> Inl (KeyError ''extraction run not found for owner''))"

definition moved :: "extraction_status \<Rightarrow> int \<Rightarrow> pystr option \<Rightarrow> int \<Rightarrow> extraction \<Rightarrow> extraction" where
  "moved st inc err now e = e\<lparr>e_status := st, e_attempt := e_attempt e + inc, e_error := err, e_updated := now\<rparr>"

definition transition_extraction_run ::
    "int \<Rightarrow> int \<Rightarrow> int \<Rightarrow> extraction_status \<Rightarrow> extraction_status \<Rightarrow> int \<Rightarrow> pystr option \<Rightarrow> string \<Rightarrow> (db, extraction) op" where
  "transition_extraction_run now run_id owner expected st inc err conflict = transaction (\<lambda>s.
     positive_ids [run_id, owner]
     (bindE (fenced_run run_id owner expected conflict s) (\<lambda>e.
       let s' = s\<lparr>extractions := update_where (\<lambda>x. e_id x = run_id \<and> e_owner x = owner \<and> e_status x = expected)
            (moved st inc err now) (extractions s)\<rparr>
       in bindE (of_option (RuntimeError ''extraction run disappeared after transition'')
            (row_by e_id (extractions s') run_id)) (\<lambda>e'. Inr (e', s')))))"

definition claim_extraction_run :: "int \<Rightarrow> int \<Rightarrow> int \<Rightarrow> (db, extraction) op" where
  "claim_extraction_run now run_id owner = transition_extraction_run now run_id owner E_Pending E_Processing 1 None
     ''extraction run is not claimable''"

definition complete_extraction_run :: "int \<Rightarrow> int \<Rightarrow> int \<Rightarrow> (db, extraction) op" where
  "complete_extraction_run now run_id owner = transition_extraction_run now run_id owner E_Processing E_Completed 0 None
     ''extraction run is terminal or not processing''"

definition fail_extraction_run :: "int \<Rightarrow> int \<Rightarrow> int \<Rightarrow> pystr \<Rightarrow> (db, extraction) op" where
  "fail_extraction_run now run_id owner err s =
     (if \<not> error_kind_ok err then (Inl (ValueError ''extraction error_kind must be a bounded identifier''), s)
      else transition_extraction_run now run_id owner E_Processing E_Failed 0 (Some err)
        ''extraction run is terminal or not processing'' s)"

definition discard_extraction_run :: "int \<Rightarrow> int \<Rightarrow> int \<Rightarrow> (db, extraction) op" where
  "discard_extraction_run now run_id owner = transition_extraction_run now run_id owner E_Processing E_Discarded 0 None
     ''extraction run is terminal or not processing''"

definition recover_extraction_run :: "int \<Rightarrow> int \<Rightarrow> int \<Rightarrow> (db, extraction) op" where
  "recover_extraction_run now run_id owner = transition_extraction_run now run_id owner E_Processing E_Pending 0 None
     ''extraction run is not recoverable''"

text \<open>
  The retry reads the run outside the transaction; \<open>env\<close> is what other connections do before the
  transition begins.
\<close>

definition retry_extraction_run :: "(db \<Rightarrow> db) \<Rightarrow> int \<Rightarrow> int \<Rightarrow> int \<Rightarrow> int \<Rightarrow> (db, extraction) op" where
  "retry_extraction_run env now run_id owner max_attempts s =
     (if max_attempts < 1 then (Inl (ValueError ''max_attempts must be positive''), s)
      else case get_extraction_run run_id owner s of
        Inl e \<Rightarrow> (Inl e, s)
      | Inr None \<Rightarrow> (Inl (KeyError ''extraction run not found for owner''), s)
      | Inr (Some e) \<Rightarrow>
          if e_status e \<noteq> E_Failed then (Inl (RuntimeError ''only failed extraction runs can be retried''), s)
          else if max_attempts \<le> e_attempt e then (Inl (RuntimeError ''extraction retry budget is exhausted''), s)
          else transition_extraction_run now run_id owner E_Failed E_Pending 0 None
            ''extraction run is not retryable'' (env s))"

section \<open>The abstract run\<close>

text \<open>
  What the store promises of one run: a status and a count of attempts, moved by six events. The
  statuses \<open>E_Completed\<close> and \<open>E_Discarded\<close> have no successor.
\<close>

datatype run_event = Claim | Complete | Fail pystr | Discard | Recover | Retry int

type_synonym run_view = "extraction_status \<times> int"

fun run_next :: "run_event \<Rightarrow> run_view \<Rightarrow> run_view option" where
  "run_next Claim (E_Pending, n) = Some (E_Processing, n + 1)"
| "run_next Complete (E_Processing, n) = Some (E_Completed, n)"
| "run_next (Fail _) (E_Processing, n) = Some (E_Failed, n)"
| "run_next Discard (E_Processing, n) = Some (E_Discarded, n)"
| "run_next Recover (E_Processing, n) = Some (E_Pending, n)"
| "run_next (Retry _) (E_Failed, n) = Some (E_Pending, n)"
| "run_next _ _ = None"

fun run_op :: "run_event \<Rightarrow> (db \<Rightarrow> db) \<Rightarrow> int \<Rightarrow> int \<Rightarrow> int \<Rightarrow> (db, extraction) op" where
  "run_op Claim env now n owner = claim_extraction_run now n owner"
| "run_op Complete env now n owner = complete_extraction_run now n owner"
| "run_op (Fail err) env now n owner = fail_extraction_run now n owner err"
| "run_op Discard env now n owner = discard_extraction_run now n owner"
| "run_op Recover env now n owner = recover_extraction_run now n owner"
| "run_op (Retry budget) env now n owner = retry_extraction_run env now n owner budget"

fun run_base :: "run_event \<Rightarrow> (db \<Rightarrow> db) \<Rightarrow> db \<Rightarrow> db" where
  "run_base (Retry _) env s = env s"
| "run_base _ env s = s"

definition view_of :: "db \<Rightarrow> int \<Rightarrow> run_view option" where
  "view_of s n = map_option (\<lambda>e. (e_status e, e_attempt e)) (row_by e_id (extractions s) n)"

definition run_ids_ok :: "db \<Rightarrow> bool" where
  "run_ids_ok s \<longleftrightarrow> distinct (map e_id (extractions s))"

lemma moved_simps [simp]: "e_id (moved st inc err now e) = e_id e" "e_owner (moved st inc err now e) = e_owner e"
  "e_session (moved st inc err now e) = e_session e" "e_turn (moved st inc err now e) = e_turn e"
  "e_epoch (moved st inc err now e) = e_epoch e" "e_status (moved st inc err now e) = st"
  "e_attempt (moved st inc err now e) = e_attempt e + inc" "e_error (moved st inc err now e) = err"
  by (simp_all add: moved_def)

lemma extraction_of_row:
  assumes "run_ids_ok s"
  shows "extraction_of n owner s = Some e \<longleftrightarrow> row_by e_id (extractions s) n = Some e \<and> e_owner e = owner"
proof
  assume "extraction_of n owner s = Some e"
  then have "e \<in> set (extractions s)" "e_id e = n" "e_owner e = owner"
    unfolding extraction_of_def by (auto dest: find_SomeD)
  with assms row_by_unique show "row_by e_id (extractions s) n = Some e \<and> e_owner e = owner"
    unfolding run_ids_ok_def by metis
next
  assume r: "row_by e_id (extractions s) n = Some e \<and> e_owner e = owner"
  then have m: "e \<in> set (extractions s)" "e_id e = n" "e_owner e = owner" using row_by_Some by metis+
  then obtain e' where e': "extraction_of n owner s = Some e'"
    unfolding extraction_of_def by (metis (mono_tags, lifting) find_None_iff option.exhaust)
  then have "e' \<in> set (extractions s)" "e_id e' = n" unfolding extraction_of_def by (auto dest: find_SomeD)
  with m assms have "e' = e" unfolding run_ids_ok_def by (metis distinct_map_unique)
  with e' show "extraction_of n owner s = Some e" by simp
qed

lemma transition_result:
  assumes ok: "run_ids_ok s" and t: "transition_extraction_run now n owner expected st inc err conflict s = (Inr e, s')"
  obtains e0 p where "row_by e_id (extractions s) n = Some e0" "e_owner e0 = owner" "e_status e0 = expected"
    "profile_of s owner = Some p" "p_state p = L_Active" "p_epoch p = e_epoch e0" "e = moved st inc err now e0"
    "s' = s\<lparr>extractions := update_where (\<lambda>x. e_id x = n \<and> e_owner x = owner \<and> e_status x = expected)
       (moved st inc err now) (extractions s)\<rparr>"
    "row_by e_id (extractions s') n = Some e" "\<And>m. m \<noteq> n \<Longrightarrow> row_by e_id (extractions s') m = row_by e_id (extractions s) m"
proof -
  let ?u = "update_where (\<lambda>x. e_id x = n \<and> e_owner x = owner \<and> e_status x = expected) (moved st inc err now) (extractions s)"
  from t obtain e0 where e0: "fenced_run n owner expected conflict s = Inr e0"
    and s': "s' = s\<lparr>extractions := ?u\<rparr>" and e: "row_by e_id ?u n = Some e"
    by (auto simp: transition_extraction_run_def transaction_Inr positive_ids_def result_simps Let_def)
  from e0 obtain p where p: "extraction_of n owner s = Some e0" "profile_of s owner = Some p" "p_state p = L_Active"
    "p_epoch p = e_epoch e0" "e_status e0 = expected"
    by (auto simp: fenced_run_def result_simps split: option.splits)
  then have r: "row_by e_id (extractions s) n = Some e0" "e_owner e0 = owner" using extraction_of_row [OF ok] by auto
  have rows: "row_by e_id ?u m = map_option (\<lambda>x. if e_id x = n \<and> e_owner x = owner \<and> e_status x = expected
      then moved st inc err now x else x) (row_by e_id (extractions s) m)" for m
    by (rule row_by_update) simp
  have "e = moved st inc err now e0"
    using e rows [of n] r row_by_Some [OF r(1)] p(5) by simp
  moreover have "row_by e_id ?u m = row_by e_id (extractions s) m" if "m \<noteq> n" for m
    using rows [of m] that by (cases "row_by e_id (extractions s) m") (auto dest: row_by_Some)
  ultimately show ?thesis using that [of e0 p] r p e s' by simp
qed

lemma transition_views:
  assumes "run_ids_ok s" and "transition_extraction_run now n owner expected st inc err conflict s = (Inr e, s')"
  shows "view_of s' n = Some (e_status e, e_attempt e) \<and> e_status e = st
    \<and> view_of s n = Some (expected, e_attempt e - inc)
    \<and> e_owner e = owner \<and> owner_current owner (e_epoch e) s
    \<and> (\<forall>m. m \<noteq> n \<longrightarrow> view_of s' m = view_of s m)"
proof -
  obtain e0 p where *: "row_by e_id (extractions s) n = Some e0" "e_owner e0 = owner" "e_status e0 = expected"
    "profile_of s owner = Some p" "p_state p = L_Active" "p_epoch p = e_epoch e0" "e = moved st inc err now e0"
    "row_by e_id (extractions s') n = Some e" "\<And>m. m \<noteq> n \<Longrightarrow> row_by e_id (extractions s') m = row_by e_id (extractions s) m"
    by (rule transition_result [OF assms]) blast
  then show ?thesis by (simp add: view_of_def owner_current_def)
qed

text \<open>Every operation is refused at once, or is the transition its event stands for.\<close>

lemma run_op_cases:
  assumes "run_op ev env now n owner s = (r, s')"
  obtains (refused) x where "r = Inl x" "s' = s"
  | (moves) expected st inc err conflict where
      "transition_extraction_run now n owner expected st inc err conflict (run_base ev env s) = (r, s')"
      "\<And>a. run_next ev (expected, a) = Some (st, a + inc)"
proof (cases ev)
  case (Fail err)
  with assms show ?thesis
    by (cases "error_kind_ok err") (auto simp: fail_extraction_run_def intro: refused moves)
next
  case (Retry budget)
  with assms show ?thesis
    by (auto simp: retry_extraction_run_def intro: refused moves split: if_splits sum.splits option.splits)
qed (use assms in \<open>auto simp: claim_extraction_run_def complete_extraction_run_def discard_extraction_run_def
    recover_extraction_run_def intro: moves\<close>)

lemma run_base_ids: "run_ids_ok s \<Longrightarrow> run_ids_ok (env s) \<Longrightarrow> run_ids_ok (run_base ev env s)"
  by (cases ev) simp_all

text \<open>
C5: The store refines the abstract run. A successful operation moves exactly the run it names, by
the event it stands for, for its owner and in the owner's current lifecycle epoch; every other run
keeps its status and attempts. A failed operation changes nothing. In particular a completed or
discarded run is never moved again.
\<close>
theorem extraction_run_refines:
  assumes "run_ids_ok s" and "run_ids_ok (env s)" and "run_op ev env now n owner s = (r, s')"
  shows "(\<forall>e. r = Inr e \<longrightarrow>
        view_of s' n = Option.bind (view_of (run_base ev env s) n) (run_next ev)
      \<and> view_of s' n = Some (e_status e, e_attempt e)
      \<and> e_owner e = owner \<and> owner_current owner (e_epoch e) (run_base ev env s)
      \<and> (\<forall>m. m \<noteq> n \<longrightarrow> view_of s' m = view_of (run_base ev env s) m))
    \<and> (\<forall>x. r = Inl x \<longrightarrow> s' = s \<or> s' = run_base ev env s)"
  using assms(3)
proof (cases rule: run_op_cases)
  case (moves expected st inc err conflict)
  have ok: "run_ids_ok (run_base ev env s)" using assms(1,2) by (rule run_base_ids)
  show ?thesis
  proof (cases r)
    case (Inl x)
    with moves(1) show ?thesis by (simp add: transition_extraction_run_def transaction_Inl)
  next
    case (Inr e)
    with transition_views [OF ok, of now n owner expected st inc err conflict] moves show ?thesis by auto
  qed
qed simp

definition demo_extraction :: "extraction_status \<Rightarrow> int \<Rightarrow> int \<Rightarrow> extraction" where
  "demo_extraction st attempts updated = \<lparr>e_id = 1, e_owner = 7, e_session = 1, e_turn = 3, e_epoch = 1,
     e_status = st, e_attempt = attempts, e_error = None, e_created = 100, e_updated = updated\<rparr>"

definition demo_run_db :: "extraction \<Rightarrow> db" where
  "demo_run_db e = empty_db\<lparr>profiles := [new_profile 7 100], extractions := [e]\<rparr>"

lemma demo_claim:
  "claim_extraction_run 105 1 7 (demo_run_db (demo_extraction E_Pending 0 100))
     = (Inr (demo_extraction E_Processing 1 105), demo_run_db (demo_extraction E_Processing 1 105))"
  by (simp add: claim_extraction_run_def transition_extraction_run_def transaction_def positive_ids_def fenced_run_def
      extraction_of_def row_by_def demo_run_db_def demo_extraction_def empty_db_def new_profile_def update_where_def
      moved_def)

theorem extraction_run_refines_witness:
  "view_of (snd (claim_extraction_run 105 1 7 (demo_run_db (demo_extraction E_Pending 0 100)))) 1 = Some (E_Processing, 1)"
proof -
  let ?s = "demo_run_db (demo_extraction E_Pending 0 100)"
  have ok: "run_ids_ok ?s" by (simp add: run_ids_ok_def demo_run_db_def)
  have v: "view_of ?s 1 = Some (E_Pending, 0)" by (simp add: view_of_def row_by_def demo_run_db_def demo_extraction_def)
  have "run_op Claim id 105 1 7 ?s = (Inr (demo_extraction E_Processing 1 105), demo_run_db (demo_extraction E_Processing 1 105))"
    using demo_claim by simp
  from extraction_run_refines [OF ok _ this] ok v demo_claim show ?thesis by simp
qed

end
