(* ===== verification/Session_Store.thy ===== *)
theory Session_Store
  imports Extraction_Runs "HOL-Library.Multiset"
begin

text \<open>
  The session and transcript store of \<open>session_store.py\<close>, the summary generator of
  \<open>session_summary.py\<close> and the deletion service of \<open>session_deletion.py\<close>. Each operation is a
  transaction; the ones that take several are functions of what other connections do in between
  (\<open>env\<close>). \<open>now\<close> is the value of \<open>_utc_now()\<close>.
\<close>

section \<open>Sessions\<close>

definition active_session_of :: "int \<Rightarrow> db \<Rightarrow> session option" where
  "active_session_of lane_id s = find (\<lambda>x. s_lane x = lane_id \<and> s_status x = S_Active) (sessions s)"

definition next_generation :: "int \<Rightarrow> db \<Rightarrow> int" where
  "next_generation lane_id s = next_rowid s_generation (filter (\<lambda>x. s_lane x = lane_id) (sessions s))"

definition new_session :: "int \<Rightarrow> int \<Rightarrow> int \<Rightarrow> db \<Rightarrow> session" where
  "new_session user lane_id now s = \<lparr>s_id = next_rowid s_id (sessions s), s_lane = lane_id, s_owner = user,
     s_generation = next_generation lane_id s, s_status = S_Active, s_opened = now, s_closed = None\<rparr>"

definition ensure_active_session :: "int \<Rightarrow> int \<Rightarrow> int \<Rightarrow> (db, session) op" where
  "ensure_active_session now user lane_id = transaction (\<lambda>s.
     guardE (user < 1 \<or> lane_id < 1) (ValueError ''session owner and persona lane must be positive'')
     (let s1 = ensure_profile_row user now s in
      guardE (row_by l_id (lanes s1) lane_id = None) (ValueError ''persona session lane does not exist'')
      (case active_session_of lane_id s1 of
         Some x \<Rightarrow> guardE (s_owner x \<noteq> user) (PermissionError ''active session belongs to another owner'')
           (Inr (x, s1))
       | None \<Rightarrow> (let x = new_session user lane_id now s1 in Inr (x, s1\<lparr>sessions := sessions s1 @ [x]\<rparr>)))))"

definition active_session_for_lane :: "int \<Rightarrow> int \<Rightarrow> db \<Rightarrow> session option" where
  "active_session_for_lane user lane_id s =
     find (\<lambda>x. s_lane x = lane_id \<and> s_owner x = user \<and> s_status x = S_Active) (sessions s)"

section \<open>Turns\<close>

definition next_sequence :: "int \<Rightarrow> db \<Rightarrow> int" where
  "next_sequence session_id s = next_rowid tu_sequence (filter (\<lambda>t. tu_session t = session_id) (turns s))"

definition new_turn :: "int \<Rightarrow> turn_role \<Rightarrow> pystr \<Rightarrow> pystr option \<Rightarrow> int \<Rightarrow> db \<Rightarrow> turn" where
  "new_turn session_id role content response now s = \<lparr>tu_id = next_rowid tu_id (turns s), tu_session = session_id,
     tu_sequence = next_sequence session_id s, tu_role = role, tu_content = strip content,
     tu_response = response, tu_created = now\<rparr>"

definition append_turn :: "int \<Rightarrow> int \<Rightarrow> turn_role \<Rightarrow> pystr \<Rightarrow> pystr option \<Rightarrow> (db, turn) op" where
  "append_turn now session_id role content response = transaction (\<lambda>s.
     guardE (is_blank content) (ValueError ''transcript content cannot be empty'')
     (guardE (\<not> list_ex (\<lambda>x. s_id x = session_id \<and> s_status x = S_Active) (sessions s))
        (ValueError ''active session does not exist'')
     (guardE (\<not> sql_nonblank (strip content) \<or> role = User \<and> response \<noteq> None)
        (IntegrityError ''CHECK constraint failed'')
     (let t = new_turn session_id role content response now s in Inr (t, s\<lparr>turns := turns s @ [t]\<rparr>)))))"

text \<open>Two transactions: the session stays open when the turn is refused.\<close>

definition begin_user_turn :: "(db \<Rightarrow> db) \<Rightarrow> int \<Rightarrow> int \<Rightarrow> int \<Rightarrow> pystr \<Rightarrow> (db, turn) op" where
  "begin_user_turn env now user lane_id content s =
     (case ensure_active_session now user lane_id s of
        (Inl e, s1) \<Rightarrow> (Inl e, s1)
      | (Inr x, s1) \<Rightarrow> append_turn now (s_id x) User content None (env s1))"

definition append_assistant_turn :: "int \<Rightarrow> int \<Rightarrow> pystr \<Rightarrow> pystr option \<Rightarrow> (db, turn) op" where
  "append_assistant_turn now session_id content response = append_turn now session_id Assistant content response"

text \<open>The foreign keys of a failure: its session, and its turn in that session.\<close>

definition record_failure :: "int \<Rightarrow> int \<Rightarrow> int \<Rightarrow> failure_stage \<Rightarrow> pystr \<Rightarrow> (db, failure) op" where
  "record_failure now session_id turn_id stage err = transaction (\<lambda>s.
     guardE (\<not> error_kind_ok err) (ValueError ''failure error_kind must be a bounded identifier'')
     (guardE (session_of s session_id = None
          \<or> \<not> list_ex (\<lambda>t. tu_id t = turn_id \<and> tu_session t = session_id) (turns s))
        (IntegrityError ''FOREIGN KEY constraint failed'')
     (let f = \<lparr>f_id = next_rowid f_id (failures s), f_session = session_id, f_turn = turn_id, f_stage = stage,
            f_kind = err, f_created = now\<rparr>
      in Inr (f, s\<lparr>failures := failures s @ [f]\<rparr>))))"

section \<open>Reading\<close>

definition owned_session :: "int \<Rightarrow> int \<Rightarrow> db \<Rightarrow> bool" where
  "owned_session session_id user s \<longleftrightarrow>
     (case session_of s session_id of None \<Rightarrow> False | Some x \<Rightarrow> s_owner x = user)"

definition session_turns :: "int \<Rightarrow> db \<Rightarrow> turn list" where
  "session_turns session_id s = sort_key tu_sequence (filter (\<lambda>t. tu_session t = session_id) (turns s))"

definition list_turns :: "int \<Rightarrow> int \<Rightarrow> db \<Rightarrow> turn list" where
  "list_turns session_id user s = (if owned_session session_id user s then session_turns session_id s else [])"

fun exchange_scan :: "int \<Rightarrow> turn list \<Rightarrow> (turn \<times> turn) option" where
  "exchange_scan source (t # a # ts) =
     (if tu_id t \<noteq> source then exchange_scan source (a # ts)
      else if tu_role t = User \<and> tu_role a = Assistant then Some (t, a) else None)"
| "exchange_scan source _ = None"

definition extraction_exchange :: "int \<Rightarrow> int \<Rightarrow> int \<Rightarrow> db \<Rightarrow> (turn \<times> turn) result" where
  "extraction_exchange session_id user source s =
     of_option (ValueError ''source turn does not have a user/assistant exchange'')
       (exchange_scan source (list_turns session_id user s))"

definition latest_summary_for_lane :: "int \<Rightarrow> int \<Rightarrow> db \<Rightarrow> summary option" where
  "latest_summary_for_lane user lane_id s = first_by (\<lambda>m. - sm_id m)
     (filter (\<lambda>m. sm_owner m = user \<and> sm_status m = SM_Active
        \<and> (case session_of s (sm_session m) of None \<Rightarrow> False
           | Some x \<Rightarrow> s_owner x = user \<and> s_lane x = lane_id)) (summaries s))"

definition persona_key_for_session :: "int \<Rightarrow> int \<Rightarrow> db \<Rightarrow> pystr result" where
  "persona_key_for_session session_id user s =
     (case find (\<lambda>x. s_id x = session_id \<and> s_owner x = user) (sessions s) of
        None \<Rightarrow> Inl (KeyError ''session does not belong to owner'')
      | Some x \<Rightarrow>
         (case row_by l_id (lanes s) (s_lane x) of
            None \<Rightarrow> Inl (KeyError ''session does not belong to owner'')
          | Some l \<Rightarrow> Inr (l_key l)))"

definition context_session :: "int \<Rightarrow> int \<Rightarrow> int \<Rightarrow> db \<Rightarrow> bool" where
  "context_session session_id user lane_id s \<longleftrightarrow>
     (case session_of s session_id of None \<Rightarrow> False
      | Some x \<Rightarrow> s_owner x = user \<and> s_lane x = lane_id \<and> s_status x = S_Active)"

text \<open>\<open>ORDER BY sequence DESC LIMIT limit\<close>, reversed.\<close>

definition list_recent_for_context :: "int \<Rightarrow> int \<Rightarrow> int \<Rightarrow> int \<Rightarrow> int \<Rightarrow> db \<Rightarrow> turn list result" where
  "list_recent_for_context user lane_id session_id before limit s =
     guardE (limit < 1) (ValueError ''transcript context limit must be positive'')
     (Inr (if \<not> context_session session_id user lane_id s then []
       else case find (\<lambda>t. tu_id t = before \<and> tu_session t = session_id) (turns s) of
           None \<Rightarrow> []
         | Some c \<Rightarrow> rev (take (nat limit) (sort_key (\<lambda>t. - tu_sequence t)
             (filter (\<lambda>t. tu_session t = session_id \<and> tu_sequence t < tu_sequence c) (turns s))))))"

definition list_failures :: "int \<Rightarrow> int \<Rightarrow> db \<Rightarrow> failure list" where
  "list_failures session_id user s = (if owned_session session_id user s
     then sort_key f_id (filter (\<lambda>f. f_session f = session_id) (failures s)) else [])"

section \<open>The summary generator\<close>

text \<open>
  \<open>respond\<close> is the structured model call on the transcript payload (the prompt around it is fixed
  text); its value is any JSON value.
\<close>

definition max_summary_chars :: nat where "max_summary_chars = 4000"

definition role_text :: "turn_role \<Rightarrow> pystr" where
  "role_text r = (case r of User \<Rightarrow> u ''user'' | Assistant \<Rightarrow> u ''assistant'')"

definition summary_payload :: "turn list \<Rightarrow> pyval" where
  "summary_payload ts = PList (map (\<lambda>t. PDict [(u ''turn_id'', PInt (tu_id t)), (u ''role'', PStr (role_text (tu_role t))),
     (u ''content'', PStr (tu_content t))]) ts)"

definition check_summary :: "pystr \<Rightarrow> pystr result" where
  "check_summary content =
     guardE (is_blank content) (ValueError ''session summary cannot be empty'')
     (guardE (max_summary_chars < length (strip content))
        (ValueError ''session summary exceeds the bounded limit'') (Inr (strip content)))"

definition generate_summary :: "(pyval \<Rightarrow> pyval result) \<Rightarrow> turn list \<Rightarrow> pystr result" where
  "generate_summary respond ts =
     guardE (ts = []) (ValueError ''cannot summarize an empty session'')
     (bindE (respond (summary_payload ts)) (\<lambda>v.
       case v of
         PDict d \<Rightarrow>
           if set (map fst d) = {u ''summary''} then
             (case dict_get d (u ''summary'') PNone of
                PStr content \<Rightarrow> check_summary content
              | _ \<Rightarrow> Inl (ValueError ''session summary cannot be empty''))
           else Inl (ValueError ''session summary response shape is invalid'')
       | _ \<Rightarrow> Inl (ValueError ''session summary response shape is invalid'')))"

section \<open>Finalization\<close>

definition get_summary :: "int \<Rightarrow> int \<Rightarrow> db \<Rightarrow> summary option" where
  "get_summary session_id owner s = find (\<lambda>m. sm_session m = session_id \<and> sm_owner m = owner) (summaries s)"

text \<open>The lifecycle epoch of the owner of an active session.\<close>

definition load_active_session :: "int \<Rightarrow> int \<Rightarrow> db \<Rightarrow> int result" where
  "load_active_session session_id owner s =
     (case (session_of s session_id, profile_of s owner) of
        (Some x, Some p) \<Rightarrow>
          if s_owner x = owner \<and> s_status x = S_Active \<and> p_state p = L_Active then Inr (p_epoch p)
          else Inl (ValueError ''active session does not exist for owner'')
      | _ \<Rightarrow> Inl (ValueError ''active session does not exist for owner''))"

definition extraction_gate :: "int \<Rightarrow> int \<Rightarrow> db \<Rightarrow> unit result" where
  "extraction_gate session_id owner s = bindE (has_blocking_extraction_runs owner session_id s) (\<lambda>b.
     guardE b (RuntimeError ''memory extraction is not complete'') (Inr ()))"

definition close_session :: "int \<Rightarrow> int \<Rightarrow> summary \<Rightarrow> int \<Rightarrow> db \<Rightarrow> db" where
  "close_session session_id owner m now s =
     (let s1 = delete_turns (\<lambda>t. tu_session t = session_id) (s\<lparr>summaries := summaries s @ [m]\<rparr>) in
      s1\<lparr>sessions := update_where (\<lambda>x. s_id x = session_id \<and> s_owner x = owner \<and> s_status x = S_Active)
        (\<lambda>x. x\<lparr>s_status := S_Closed, s_closed := Some now\<rparr>) (sessions s1)\<rparr>)"

text \<open>
  The second phase, one transaction: everything that was read is read again, and the summary is
  stored only when the owner's epoch, the turns and the extraction gate are as they were.
\<close>

definition finalize_commit :: "int \<Rightarrow> int \<Rightarrow> int \<Rightarrow> int \<Rightarrow> turn list \<Rightarrow> pystr \<Rightarrow> (db, summary) op" where
  "finalize_commit now session_id owner epoch ts content = transaction (\<lambda>s.
     case get_summary session_id owner s of
       Some m \<Rightarrow> Inr (m, s)
     | None \<Rightarrow>
         bindE (load_active_session session_id owner s) (\<lambda>current.
         guardE (current \<noteq> epoch) (RuntimeError ''owner lifecycle changed during finalization'')
         (guardE (map tu_id (session_turns session_id s) \<noteq> map tu_id ts)
            (RuntimeError ''session changed during finalization'')
         (bindE (extraction_gate session_id owner s) (\<lambda>_.
          guardE (\<not> sql_nonblank content) (IntegrityError ''CHECK constraint failed'')
          (guardE (list_ex (\<lambda>m. sm_session m = session_id) (summaries s))
             (IntegrityError ''UNIQUE constraint failed'')
          (let m = \<lparr>sm_id = next_rowid sm_id (summaries s), sm_session = session_id, sm_owner = owner,
                 sm_content = content, sm_count = int (length ts), sm_epoch = current, sm_status = SM_Active,
                 sm_created = now\<rparr>
           in Inr (m, close_session session_id owner m now s))))))))"

text \<open>
  The whole operation. \<open>process\<close> is the extraction processor when there is one, \<open>generate\<close> the
  summary generator (a text, or any other value), \<open>env\<close> what other connections do while the
  summary is generated.
\<close>

definition finalize ::
    "(db, unit) op option \<Rightarrow> (turn list \<Rightarrow> pyval result) \<Rightarrow> (db \<Rightarrow> db) \<Rightarrow> int \<Rightarrow> int \<Rightarrow> int \<Rightarrow> (db, summary) op" where
  "finalize process generate env now session_id owner s =
     (case get_summary session_id owner s of
        Some m \<Rightarrow> (Inr m, s)
      | None \<Rightarrow>
       (case load_active_session session_id owner s of
          Inl e \<Rightarrow> (Inl e, s)
        | Inr epoch \<Rightarrow>
         (let ts = session_turns session_id s in
          case (case process of None \<Rightarrow> (Inr (), s) | Some f \<Rightarrow> f s) of
            (Inl e, s1) \<Rightarrow> (Inl e, s1)
          | (Inr _, s1) \<Rightarrow>
             (case extraction_gate session_id owner s1 of
                Inl e \<Rightarrow> (Inl e, s1)
              | Inr _ \<Rightarrow>
                 (case bindE (generate ts) (\<lambda>v. case v of PStr content \<Rightarrow> check_summary content
                      | _ \<Rightarrow> Inl (ValueError ''session summary cannot be empty'')) of
                    Inl e \<Rightarrow> (Inl e, env s1)
                  | Inr content \<Rightarrow> finalize_commit now session_id owner epoch ts content (env s1))))))"

section \<open>Deletion of a turn\<close>

record deletion_result =
  dl_turn :: int
  dl_memories :: nat
  dl_summary :: bool
  dl_turns :: nat

text \<open>The turn, with the assistant's answer right after a user's turn.\<close>

definition deleted_turns :: "turn \<Rightarrow> db \<Rightarrow> turn list" where
  "deleted_turns t s = t # (if tu_role t \<noteq> User then [] else
     case find (\<lambda>a. tu_session a = tu_session t \<and> tu_sequence a = tu_sequence t + 1 \<and> tu_role a = Assistant) (turns s) of
       None \<Rightarrow> [] | Some a \<Rightarrow> [a])"

definition delete_turn :: "int \<Rightarrow> int \<Rightarrow> int \<Rightarrow> (db, deletion_result) op" where
  "delete_turn owner session_id turn_id = transaction (\<lambda>s.
     case find (\<lambda>t. tu_id t = turn_id \<and> tu_session t = session_id) (turns s) of
       None \<Rightarrow> Inl (KeyError ''transcript turn not found for owner'')
     | Some t \<Rightarrow>
        (case session_of s session_id of
           None \<Rightarrow> Inl (KeyError ''transcript turn not found for owner'')
         | Some x \<Rightarrow>
            guardE (s_owner x \<noteq> owner \<or> s_status x \<noteq> S_Active) (KeyError ''transcript turn not found for owner'')
            (let gone = map tu_id (deleted_turns t s);
                 mem = (\<lambda>m. m_user m = owner \<and> m_turn m = Some turn_id);
                 sum = (\<lambda>m. sm_session m = session_id \<and> sm_owner m = owner \<and> sm_status m = SM_Active);
                 s1 = delete_memories mem s;
                 s2 = s1\<lparr>extractions := delete_where (\<lambda>e. e_owner e = owner \<and> e_session e = session_id
                        \<and> e_turn e = turn_id) (extractions s1),
                      summaries := update_where sum (\<lambda>m. m\<lparr>sm_status := SM_Invalidated\<rparr>) (summaries s1)\<rparr>
             in Inr (\<lparr>dl_turn = turn_id, dl_memories = count_where mem (memories s),
                   dl_summary = (count_where sum (summaries s) = 1), dl_turns = length gone\<rparr>,
                 delete_turns (\<lambda>t. tu_id t \<in> set gone \<and> tu_session t = session_id) s2))))"

section \<open>The invariant of sessions and transcripts\<close>

definition turn_key :: "turn \<Rightarrow> int \<times> int" where
  "turn_key t = (tu_session t, tu_sequence t)"

definition generation_key :: "session \<Rightarrow> int \<times> int" where
  "generation_key x = (s_lane x, s_generation x)"

abbreviation active_rows :: "session list \<Rightarrow> session list" where
  "active_rows xs \<equiv> filter (\<lambda>x. s_status x = S_Active) xs"

definition session_inv :: "db \<Rightarrow> bool" where
  "session_inv s \<longleftrightarrow>
     distinct (map s_id (sessions s)) \<and> distinct (map generation_key (sessions s))
   \<and> distinct (map s_lane (active_rows (sessions s)))
   \<and> distinct (map tu_id (turns s)) \<and> distinct (map turn_key (turns s))
   \<and> distinct (map sm_session (summaries s))
   \<and> (\<forall>t \<in> set (turns s). \<exists>x \<in> set (sessions s). s_id x = tu_session t \<and> s_status x = S_Active)
   \<and> (\<forall>m \<in> set (summaries s). \<exists>x \<in> set (sessions s). s_id x = sm_session m \<and> s_status x = S_Closed)
   \<and> (\<forall>f \<in> set (failures s). \<exists>t \<in> set (turns s). tu_id t = f_turn f \<and> tu_session t = f_session f)"

text \<open>The operations as steps; \<open>other\<close> stands for the operations on the other tables.\<close>

inductive session_step :: "db \<Rightarrow> db \<Rightarrow> bool" where
  open_session: "session_step s (snd (ensure_active_session now user lane_id s))"
| append: "session_step s (snd (append_turn now session_id role content response s))"
| failed: "session_step s (snd (record_failure now session_id turn_id stage err s))"
| close: "session_step s (snd (finalize_commit now session_id owner epoch ts content s))"
| delete: "session_step s (snd (delete_turn owner session_id turn_id s))"
| purge: "session_step s (delete_sessions P s)"
| other: "sessions s' = sessions s \<Longrightarrow> turns s' = turns s \<Longrightarrow> failures s' = failures s \<Longrightarrow>
    summaries s' = summaries s \<Longrightarrow> session_step s s'"

inductive session_reachable :: "db \<Rightarrow> bool" where
  start: "session_reachable empty_db"
| step: "session_reachable s \<Longrightarrow> session_step s s' \<Longrightarrow> session_reachable s'"

lemma new_session_simps [simp]: "s_id (new_session user lane_id now s) = next_rowid s_id (sessions s)"
  "s_lane (new_session user lane_id now s) = lane_id" "s_owner (new_session user lane_id now s) = user"
  "s_status (new_session user lane_id now s) = S_Active"
  "s_generation (new_session user lane_id now s) = next_generation lane_id s"
  by (simp_all add: new_session_def)

lemma session_inv_open:
  assumes inv: "session_inv s" and none: "active_session_of lane_id s = None"
  shows "session_inv (s\<lparr>sessions := sessions s @ [new_session user lane_id now s]\<rparr>)"
proof -
  have "s_id x \<noteq> next_rowid s_id (sessions s)" if "x \<in> set (sessions s)" for x
    using next_rowid_gt [OF that, of s_id] by simp
  moreover have "generation_key x \<noteq> generation_key (new_session user lane_id now s)" if x: "x \<in> set (sessions s)" for x
  proof
    assume k: "generation_key x = generation_key (new_session user lane_id now s)"
    then have "x \<in> set (filter (\<lambda>x. s_lane x = lane_id) (sessions s))" using x by (simp add: generation_key_def)
    from next_rowid_gt [OF this, of s_generation] k show False
      by (simp add: generation_key_def next_generation_def)
  qed
  moreover have "s_lane x \<noteq> lane_id" if "x \<in> set (active_rows (sessions s))" for x
    using that none find_NoneD [of _ "sessions s" x] by (auto simp: active_session_of_def)
  ultimately show ?thesis using inv unfolding session_inv_def
    by (auto simp: distinct_map_snoc simp del: map_append)
qed

lemma new_turn_simps [simp]: "tu_id (new_turn sid role content response now s) = next_rowid tu_id (turns s)"
  "tu_session (new_turn sid role content response now s) = sid" "tu_role (new_turn sid role content response now s) = role"
  "tu_sequence (new_turn sid role content response now s) = next_sequence sid s"
  by (simp_all add: new_turn_def)

lemma session_inv_append:
  assumes inv: "session_inv s" and x: "x \<in> set (sessions s)" "s_id x = sid" "s_status x = S_Active"
  shows "session_inv (s\<lparr>turns := turns s @ [new_turn sid role content response now s]\<rparr>)"
proof -
  have "tu_id t \<noteq> next_rowid tu_id (turns s)" if "t \<in> set (turns s)" for t
    using next_rowid_gt [OF that, of tu_id] by simp
  moreover have "turn_key t \<noteq> turn_key (new_turn sid role content response now s)" if t: "t \<in> set (turns s)" for t
  proof
    assume k: "turn_key t = turn_key (new_turn sid role content response now s)"
    then have "t \<in> set (filter (\<lambda>t. tu_session t = sid) (turns s))" using t by (simp add: turn_key_def)
    from next_rowid_gt [OF this, of tu_sequence] k show False by (simp add: turn_key_def next_sequence_def)
  qed
  ultimately show ?thesis using inv x unfolding session_inv_def
    by (auto simp: distinct_map_snoc simp del: map_append)
qed

lemma session_inv_failure:
  assumes "session_inv s" and "t \<in> set (turns s)" "tu_id t = f_turn f" "tu_session t = f_session f"
  shows "session_inv (s\<lparr>failures := failures s @ [f]\<rparr>)"
  using assms unfolding session_inv_def by auto

lemma session_inv_delete_turns:
  assumes "session_inv s"
  shows "session_inv (delete_turns P s)"
proof -
  have "\<exists>t \<in> set (turns (delete_turns P s)). tu_id t = f_turn f \<and> tu_session t = f_session f"
    if f: "f \<in> set (failures (delete_turns P s))" for f
  proof -
    from f have "f \<in> set (failures s)"
      "\<not> (\<exists>t \<in> set (turns s). P t \<and> tu_id t = f_turn f \<and> tu_session t = f_session f)"
      by (auto simp: delete_turns_def set_delete_where list_ex_iff)
    with assms obtain t where "t \<in> set (turns s)" "tu_id t = f_turn f" "tu_session t = f_session f" "\<not> P t"
      unfolding session_inv_def by blast
    then show ?thesis by (auto simp: delete_turns_def set_delete_where)
  qed
  moreover have "distinct (map tu_id (turns (delete_turns P s)))" "distinct (map turn_key (turns (delete_turns P s)))"
    using assms by (simp_all add: delete_turns_def delete_where_def session_inv_def distinct_map_filter_sub)
  moreover have "sessions (delete_turns P s) = sessions s" "summaries (delete_turns P s) = summaries s"
    "set (turns (delete_turns P s)) \<subseteq> set (turns s)"
    by (auto simp: delete_turns_def set_delete_where)
  ultimately show ?thesis using assms unfolding session_inv_def by auto
qed

lemma session_inv_close:
  assumes inv: "session_inv s" and x: "x \<in> set (sessions s)" "s_id x = sid" "s_owner x = owner" "s_status x = S_Active"
    and m: "sm_session m = sid" "\<And>m'. m' \<in> set (summaries s) \<Longrightarrow> sm_session m' \<noteq> sid"
  shows "session_inv (close_session sid owner m now s)"
proof -
  define d where "d = delete_turns (\<lambda>t. tu_session t = sid) s"
  let ?P = "\<lambda>x. s_id x = sid \<and> s_owner x = owner \<and> s_status x = S_Active"
  let ?f = "\<lambda>x. x\<lparr>s_status := S_Closed, s_closed := Some now\<rparr>"
  have d: "session_inv d" "sessions d = sessions s" "summaries d = summaries s"
    using session_inv_delete_turns [OF inv] by (simp_all add: d_def delete_turns_def)
  have other: "tu_session t \<noteq> sid" if "t \<in> set (turns d)" for t
    using that by (auto simp: d_def delete_turns_def set_delete_where)
  have c: "close_session sid owner m now s = d\<lparr>summaries := summaries s @ [m],
      sessions := update_where ?P ?f (sessions s)\<rparr>"
    by (simp add: close_session_def d_def delete_turns_def Let_def)
  have "active_rows (update_where ?P ?f xs) = filter (\<lambda>x. \<not> ?P x) (active_rows xs)" for xs
    by (induction xs) (auto simp: update_where_def)
  then have lanes: "distinct (map s_lane (active_rows (update_where ?P ?f (sessions s))))"
    using inv distinct_map_filter_sub [of s_lane "active_rows (sessions s)" "\<lambda>x. \<not> ?P x"]
    unfolding session_inv_def by metis
  have ids: "map s_id (update_where ?P ?f (sessions s)) = map s_id (sessions s)"
    "map generation_key (update_where ?P ?f (sessions s)) = map generation_key (sessions s)"
    by (simp_all add: map_update_where generation_key_def)
  have t: "\<exists>y \<in> set (update_where ?P ?f (sessions s)). s_id y = tu_session t \<and> s_status y = S_Active"
    if "t \<in> set (turns d)" for t
  proof -
    from that d obtain y where y: "y \<in> set (sessions s)" "s_id y = tu_session t" "s_status y = S_Active"
      unfolding session_inv_def by metis
    with other [OF that] have "y \<in> set (update_where ?P ?f (sessions s))" by (intro update_where_keep) auto
    with y show ?thesis by blast
  qed
  have closed: "\<exists>y \<in> set (update_where ?P ?f (sessions s)). s_id y = sm_session m' \<and> s_status y = S_Closed"
    if m': "m' \<in> set (summaries s @ [m])" for m'
  proof (cases "m' = m")
    case True
    have "?f x \<in> set (update_where ?P ?f (sessions s))" by (rule update_where_mem) (use x in auto)
    moreover have "s_id (?f x) = sm_session m'" "s_status (?f x) = S_Closed" using True m(1) x(2) by simp_all
    ultimately show ?thesis by blast
  next
    case False
    with m' inv obtain y where y: "y \<in> set (sessions s)" "s_id y = sm_session m'" "s_status y = S_Closed"
      unfolding session_inv_def by auto
    then have "y \<in> set (update_where ?P ?f (sessions s))" by (intro update_where_keep) auto
    with y show ?thesis by blast
  qed
  show ?thesis unfolding c
    using d ids lanes t closed m inv
    by (simp add: session_inv_def distinct_map_snoc del: map_append)
qed

lemma session_inv_delete_sessions:
  assumes "session_inv s"
  shows "session_inv (delete_sessions P s)"
proof -
  let ?gone = "\<lambda>n. list_ex (\<lambda>x. P x \<and> s_id x = n) (sessions s)"
  have left: "x \<in> set (sessions (delete_sessions P s))" if "x \<in> set (sessions s)" "\<not> ?gone (s_id x)" for x
    using that by (auto simp: delete_sessions_def set_delete_where list_ex_iff)
  have "distinct (map s_id (sessions (delete_sessions P s)))" "distinct (map generation_key (sessions (delete_sessions P s)))"
    "distinct (map tu_id (turns (delete_sessions P s)))" "distinct (map turn_key (turns (delete_sessions P s)))"
    "distinct (map sm_session (summaries (delete_sessions P s)))"
    using assms by (simp_all add: delete_sessions_def delete_where_def session_inv_def distinct_map_filter_sub)
  moreover have "active_rows (sessions (delete_sessions P s)) = filter (\<lambda>x. \<not> P x) (active_rows (sessions s))"
    by (simp add: delete_sessions_def delete_where_def conj_commute)
  then have "distinct (map s_lane (active_rows (sessions (delete_sessions P s))))"
    using assms distinct_map_filter_sub [of s_lane "active_rows (sessions s)" "\<lambda>x. \<not> P x"]
    unfolding session_inv_def by metis
  moreover have "\<exists>x \<in> set (sessions (delete_sessions P s)). s_id x = tu_session t \<and> s_status x = S_Active"
    if "t \<in> set (turns (delete_sessions P s))" for t
  proof -
    from that have "t \<in> set (turns s)" "\<not> ?gone (tu_session t)"
      by (simp_all add: delete_sessions_def set_delete_where)
    with assms left show ?thesis unfolding session_inv_def by metis
  qed
  moreover have "\<exists>x \<in> set (sessions (delete_sessions P s)). s_id x = sm_session m \<and> s_status x = S_Closed"
    if "m \<in> set (summaries (delete_sessions P s))" for m
  proof -
    from that have "m \<in> set (summaries s)" "\<not> ?gone (sm_session m)"
      by (simp_all add: delete_sessions_def set_delete_where)
    with assms left show ?thesis unfolding session_inv_def by metis
  qed
  moreover have "\<exists>t \<in> set (turns (delete_sessions P s)). tu_id t = f_turn f \<and> tu_session t = f_session f"
    if "f \<in> set (failures (delete_sessions P s))" for f
  proof -
    from that have f: "f \<in> set (failures s)" "\<not> ?gone (f_session f)"
      by (simp_all add: delete_sessions_def set_delete_where)
    with assms obtain t where "t \<in> set (turns s)" "tu_id t = f_turn f" "tu_session t = f_session f"
      unfolding session_inv_def by blast
    with f(2) show ?thesis by (auto simp: delete_sessions_def set_delete_where)
  qed
  ultimately show ?thesis unfolding session_inv_def by blast
qed

lemma session_inv_other:
  assumes "session_inv s" and "sessions s' = sessions s" "turns s' = turns s" "failures s' = failures s"
    "map sm_session (summaries s') = map sm_session (summaries s)"
  shows "session_inv s'"
proof -
  have "\<exists>m \<in> set (summaries s). sm_session m = sm_session m'" if "m' \<in> set (summaries s')" for m'
  proof -
    from that have "sm_session m' \<in> set (map sm_session (summaries s))" unfolding assms(5) [symmetric] by simp
    then show ?thesis by auto
  qed
  then have "\<forall>m \<in> set (summaries s'). \<exists>x \<in> set (sessions s). s_id x = sm_session m \<and> s_status x = S_Closed"
    using assms(1) unfolding session_inv_def by metis
  then show ?thesis using assms(1) unfolding session_inv_def assms(2-5) by simp
qed

lemma ensure_active_session_result:
  assumes "ensure_active_session now user lane_id s = (Inr x, s')"
  shows "(s' = ensure_profile_row user now s \<and> active_session_of lane_id s = Some x)
    \<or> (active_session_of lane_id s = None \<and> x = new_session user lane_id now s
       \<and> s' = (ensure_profile_row user now s)\<lparr>sessions := sessions s @ [x]\<rparr>)"
    and "s_owner x = user" and "0 < user"
  using assms by (auto simp: ensure_active_session_def transaction_Inr result_simps active_session_of_def Let_def
      new_session_def next_generation_def split: option.splits)

lemma load_active_session_Inr:
  assumes "load_active_session sid owner s = Inr epoch"
  obtains x p where "session_of s sid = Some x" "s_owner x = owner" "s_status x = S_Active"
    "profile_of s owner = Some p" "p_epoch p = epoch" "p_state p = L_Active"
  using assms by (auto simp: load_active_session_def split: option.splits if_splits)

lemma extraction_gate_Inr: "extraction_gate sid owner s = Inr y \<longleftrightarrow> has_blocking_extraction_runs owner sid s = Inr False"
  by (cases "has_blocking_extraction_runs owner sid s") (auto simp: extraction_gate_def result_simps)

lemma finalize_commit_result:
  assumes "finalize_commit now sid owner epoch ts content s = (Inr m, s')" and "get_summary sid owner s = None"
  obtains x p where "session_of s sid = Some x" "s_owner x = owner" "s_status x = S_Active" "profile_of s owner = Some p"
    "p_state p = L_Active" "p_epoch p = epoch" "map tu_id (session_turns sid s) = map tu_id ts"
    "has_blocking_extraction_runs owner sid s = Inr False" "\<And>m'. m' \<in> set (summaries s) \<Longrightarrow> sm_session m' \<noteq> sid"
    "sm_session m = sid" "sm_owner m = owner" "sm_content m = content" "sm_count m = int (length ts)"
    "sm_epoch m = epoch" "sm_status m = SM_Active" "s' = close_session sid owner m now s"
proof -
  let ?m = "\<lparr>sm_id = next_rowid sm_id (summaries s), sm_session = sid, sm_owner = owner,
                 sm_content = content, sm_count = int (length ts), sm_epoch = epoch, sm_status = SM_Active,
                 sm_created = now\<rparr>"
  obtain current where c: "load_active_session sid owner s = Inr current"
    using assms by (cases "load_active_session sid owner s") (simp_all add: finalize_commit_def transaction_def)
  have g: "extraction_gate sid owner s = Inr ()"
    using assms c by (cases "extraction_gate sid owner s")
      (auto simp: finalize_commit_def transaction_def guardE_def split: if_splits)
  note g' = g [unfolded extraction_gate_Inr]
  have *: "load_active_session sid owner s = Inr epoch" "map tu_id (session_turns sid s) = map tu_id ts"
    "has_blocking_extraction_runs owner sid s = Inr False" "\<not> list_ex (\<lambda>m. sm_session m = sid) (summaries s)"
    "m = ?m" "s' = close_session sid owner ?m now s"
    using assms c g' by (auto simp: finalize_commit_def transaction_def guardE_def Let_def g split: if_splits)
  from *(1) obtain x p where "session_of s sid = Some x" "s_owner x = owner" "s_status x = S_Active"
    "profile_of s owner = Some p" "p_epoch p = epoch" "p_state p = L_Active" by (rule load_active_session_Inr)
  with * show ?thesis by (intro that [of x p]) (auto simp: list_ex_iff)
qed

lemma finalize_commit_again:
  "get_summary sid owner s = Some m \<Longrightarrow> finalize_commit now sid owner epoch ts content s = (Inr m, s)"
  by (simp add: finalize_commit_def transaction_def)

lemma delete_turn_result:
  assumes "delete_turn owner sid tid s = (Inr r, s')"
  obtains t x s2 where "t \<in> set (turns s)" "tu_id t = tid" "tu_session t = sid" "session_of s sid = Some x"
    "s_owner x = owner" "s_status x = S_Active"
    "sessions s2 = sessions s" "turns s2 = turns s" "failures s2 = failures s"
    "summaries s2 = update_where (\<lambda>m. sm_session m = sid \<and> sm_owner m = owner \<and> sm_status m = SM_Active)
        (\<lambda>m. m\<lparr>sm_status := SM_Invalidated\<rparr>) (summaries s)"
    "memories s2 = delete_where (\<lambda>m. m_user m = owner \<and> m_turn m = Some tid) (memories s)"
    "s' = delete_turns (\<lambda>y. tu_id y \<in> tu_id ` set (deleted_turns t s) \<and> tu_session y = sid) s2"
    "dl_turn r = tid" "dl_turns r = length (deleted_turns t s)"
    "dl_memories r = count_where (\<lambda>m. m_user m = owner \<and> m_turn m = Some tid) (memories s)"
    "dl_summary r \<longleftrightarrow> count_where (\<lambda>m. sm_session m = sid \<and> sm_owner m = owner \<and> sm_status m = SM_Active) (summaries s) = 1"
proof -
  let ?sum = "\<lambda>m. sm_session m = sid \<and> sm_owner m = owner \<and> sm_status m = SM_Active"
  let ?mem = "\<lambda>m. m_user m = owner \<and> m_turn m = Some tid"
  obtain t where t: "find (\<lambda>t. tu_id t = tid \<and> tu_session t = sid) (turns s) = Some t"
    using assms by (auto simp: delete_turn_def transaction_Inr split: option.splits)
  obtain x where x: "session_of s sid = Some x" "s_owner x = owner" "s_status x = S_Active"
    using assms t by (auto simp: delete_turn_def transaction_Inr result_simps split: option.splits)
  let ?s2 = "(delete_memories ?mem s)\<lparr>extractions := delete_where (\<lambda>e. e_owner e = owner \<and> e_session e = sid
        \<and> e_turn e = tid) (extractions (delete_memories ?mem s)),
      summaries := update_where ?sum (\<lambda>m. m\<lparr>sm_status := SM_Invalidated\<rparr>) (summaries (delete_memories ?mem s))\<rparr>"
  show ?thesis
    by (rule that [of t x ?s2])
      (use assms t x in \<open>auto simp: delete_turn_def transaction_Inr result_simps Let_def delete_memories_def
        dest!: find_SomeD\<close>)
qed

interpretation open_tx: transactional "ensure_active_session now user lane_id"
  by unfold_locales (simp add: ensure_active_session_def tx.rollback)

interpretation append_tx: transactional "append_turn now session_id role content response"
  by unfold_locales (simp add: append_turn_def tx.rollback)

interpretation failure_tx: transactional "record_failure now session_id turn_id stage err"
  by unfold_locales (simp add: record_failure_def tx.rollback)

interpretation finalize_tx: transactional "finalize_commit now session_id owner epoch ts content"
  by unfold_locales (simp add: finalize_commit_def tx.rollback)

interpretation delete_tx: transactional "delete_turn owner session_id turn_id"
  by unfold_locales (simp add: delete_turn_def tx.rollback)

lemma session_inv_ensure:
  assumes inv: "session_inv s"
  shows "session_inv (snd (ensure_active_session now user lane_id s))"
proof (rule open_tx.keeps_result [where P = session_inv, OF inv])
  fix x s' assume "ensure_active_session now user lane_id s = (Inr x, s')"
  from ensure_active_session_result(1) [OF this]
  show "session_inv s'"
  proof (elim disjE conjE)
    assume "s' = ensure_profile_row user now s"
    then show ?thesis by (intro session_inv_other [OF inv]) simp_all
  next
    assume none: "active_session_of lane_id s = None" and x: "x = new_session user lane_id now s"
      and s': "s' = (ensure_profile_row user now s)\<lparr>sessions := sessions s @ [x]\<rparr>"
    show ?thesis by (rule session_inv_other [OF session_inv_open [OF inv none]]) (simp_all add: s' x)
  qed
qed

lemma session_inv_append_turn:
  assumes inv: "session_inv s"
  shows "session_inv (snd (append_turn now sid role content response s))"
proof (rule append_tx.keeps_result [where P = session_inv, OF inv])
  fix t s' assume "append_turn now sid role content response s = (Inr t, s')"
  then have "\<exists>x \<in> set (sessions s). s_id x = sid \<and> s_status x = S_Active"
    "s' = s\<lparr>turns := turns s @ [new_turn sid role content response now s]\<rparr>"
    by (auto simp: append_turn_def transaction_Inr result_simps Let_def list_ex_iff)
  with session_inv_append [OF inv] show "session_inv s'" by blast
qed

lemma session_inv_record_failure:
  assumes inv: "session_inv s"
  shows "session_inv (snd (record_failure now sid tid stage err s))"
proof (rule failure_tx.keeps_result [where P = session_inv, OF inv])
  fix f s' assume "record_failure now sid tid stage err s = (Inr f, s')"
  then have "\<exists>t \<in> set (turns s). tu_id t = f_turn f \<and> tu_session t = f_session f" "s' = s\<lparr>failures := failures s @ [f]\<rparr>"
    by (auto simp: record_failure_def transaction_Inr result_simps Let_def list_ex_iff)
  with session_inv_failure [OF inv] show "session_inv s'" by blast
qed

lemma session_inv_finalize_commit:
  assumes inv: "session_inv s"
  shows "session_inv (snd (finalize_commit now sid owner epoch ts content s))"
proof (rule finalize_tx.keeps_result [where P = session_inv, OF inv])
  fix m s' assume f: "finalize_commit now sid owner epoch ts content s = (Inr m, s')"
  show "session_inv s'"
  proof (cases "get_summary sid owner s")
    case None
    obtain x where "session_of s sid = Some x" "s_owner x = owner" "s_status x = S_Active" "sm_session m = sid"
      "\<And>m'. m' \<in> set (summaries s) \<Longrightarrow> sm_session m' \<noteq> sid" "s' = close_session sid owner m now s"
      by (rule finalize_commit_result [OF f None]) blast
    with row_by_Some session_inv_close [OF inv] show ?thesis by metis
  next
    case (Some m')
    with f inv show ?thesis by (simp add: finalize_commit_again)
  qed
qed

lemma session_inv_delete_turn:
  assumes inv: "session_inv s"
  shows "session_inv (snd (delete_turn owner sid tid s))"
proof (rule delete_tx.keeps_result [where P = session_inv, OF inv])
  fix r s' assume d: "delete_turn owner sid tid s = (Inr r, s')"
  obtain Q s2 P where s2: "sessions s2 = sessions s" "turns s2 = turns s" "failures s2 = failures s"
    "summaries s2 = update_where Q (\<lambda>m. m\<lparr>sm_status := SM_Invalidated\<rparr>) (summaries s)" "s' = delete_turns P s2"
    by (rule delete_turn_result [OF d]) blast
  have "session_inv s2" by (rule session_inv_other [OF inv]) (simp_all add: s2 map_update_where)
  with s2(5) session_inv_delete_turns show "session_inv s'" by simp
qed

lemma session_step_inv:
  assumes "session_step s s'" and inv: "session_inv s"
  shows "session_inv s'"
  using assms(1)
  by cases (simp_all add: inv session_inv_ensure session_inv_append_turn session_inv_record_failure
      session_inv_finalize_commit session_inv_delete_turn session_inv_delete_sessions session_inv_other [OF inv])

lemma session_inv_empty: "session_inv empty_db"
  by (simp add: session_inv_def empty_db_def)

lemma session_reachable_inv: "session_reachable s \<Longrightarrow> session_inv s"
  by (induction rule: session_reachable.induct) (auto intro: session_inv_empty session_step_inv)

section \<open>Properties\<close>

text \<open>
C11: Whatever the operations of the store do, in whatever order: a lane has at most one active
session, generations and sequence numbers are never reused, turns belong to active sessions only,
and a session has at most one summary, which exists only when it is closed.
\<close>
theorem transcript_store_invariant:
  assumes "session_reachable s"
  shows "(\<forall>x \<in> set (sessions s). \<forall>y \<in> set (sessions s). s_lane x = s_lane y
           \<and> (s_status x = S_Active \<and> s_status y = S_Active \<or> s_generation x = s_generation y) \<longrightarrow> x = y)
    \<and> (\<forall>t \<in> set (turns s). \<forall>t' \<in> set (turns s). tu_session t = tu_session t' \<and> tu_sequence t = tu_sequence t' \<longrightarrow> t = t')
    \<and> (\<forall>t \<in> set (turns s). \<exists>x \<in> set (sessions s). s_id x = tu_session t \<and> s_status x = S_Active)
    \<and> (\<forall>m \<in> set (summaries s). (\<exists>x \<in> set (sessions s). s_id x = sm_session m \<and> s_status x = S_Closed)
           \<and> (\<forall>m' \<in> set (summaries s). sm_session m' = sm_session m \<longrightarrow> m' = m))"
proof -
  note inv = session_reachable_inv [OF assms, unfolded session_inv_def]
  have "x = y" if "x \<in> set (sessions s)" "y \<in> set (sessions s)" "s_lane x = s_lane y"
    "s_status x = S_Active \<and> s_status y = S_Active \<or> s_generation x = s_generation y" for x y
    using that(4)
  proof
    assume "s_status x = S_Active \<and> s_status y = S_Active"
    with that have "x \<in> set (active_rows (sessions s))" "y \<in> set (active_rows (sessions s))" by simp_all
    with inv that(3) show ?thesis by (metis distinct_map_unique)
  next
    assume "s_generation x = s_generation y"
    with that(3) have "generation_key x = generation_key y" by (simp add: generation_key_def)
    with inv that(1,2) show ?thesis by (metis distinct_map_unique)
  qed
  moreover have "t = t'" if "t \<in> set (turns s)" "t' \<in> set (turns s)" "tu_session t = tu_session t'"
    "tu_sequence t = tu_sequence t'" for t t'
    by (rule distinct_map_unique [where k = turn_key and xs = "turns s"]) (use inv that in \<open>auto simp: turn_key_def\<close>)
  moreover have "m' = m" if "m \<in> set (summaries s)" "m' \<in> set (summaries s)" "sm_session m' = sm_session m" for m m'
    by (rule distinct_map_unique [where k = sm_session and xs = "summaries s"]) (use inv that in auto)
  ultimately show ?thesis using inv by blast
qed

lemma sort_key_uminus:
  fixes k :: "'a \<Rightarrow> int"
  assumes "distinct (map k xs)"
  shows "rev (sort_key (\<lambda>x. - k x) xs) = sort_key k xs"
proof (rule map_sorted_distinct_set_unique [where f = k])
  have "inj_on k (set xs)" using assms by (simp add: distinct_map)
  then show "inj_on k (set (rev (sort_key (\<lambda>x. - k x) xs)) \<union> set (sort_key k xs))" by simp
  have "sorted (map (\<lambda>x. - k x) (sort_key (\<lambda>x. - k x) xs))" by simp
  then show "sorted (map k (rev (sort_key (\<lambda>x. - k x) xs)))"
    by (simp add: rev_map sorted_wrt_rev sorted_wrt_map)
  have "mset (map k (rev (sort_key (\<lambda>x. - k x) xs))) = mset (map k xs)"
    "mset (map k (sort_key k xs)) = mset (map k xs)" by simp_all
  with assms show "distinct (map k (rev (sort_key (\<lambda>x. - k x) xs)))" "distinct (map k (sort_key k xs))"
    by (metis mset_eq_imp_distinct_iff)+
qed (simp_all)

text \<open>
The context window is the transcript's tail. For an active session of the owner in the lane the
turns given to the context are the last \<open>limit\<close> ones before the current turn, in the order of the
transcript; for any other session, lane or owner there are none.
\<close>
theorem context_window_is_tail:
  assumes "session_reachable s" and "0 < limit"
  shows "list_recent_for_context user lane_id sid before limit s =
    Inr (if context_session sid user lane_id s then
      (case find (\<lambda>t. tu_id t = before \<and> tu_session t = sid) (turns s) of None \<Rightarrow> []
       | Some c \<Rightarrow> (let earlier = filter (\<lambda>t. tu_sequence t < tu_sequence c) (session_turns sid s)
           in drop (length earlier - nat limit) earlier)) else [])"
proof -
  have "rev (take (nat limit) (sort_key (\<lambda>t. - tu_sequence t) (filter (\<lambda>t. tu_session t = sid \<and> tu_sequence t < n) (turns s))))
      = (let earlier = filter (\<lambda>t. tu_sequence t < n) (session_turns sid s) in drop (length earlier - nat limit) earlier)"
    (is "rev (take _ (sort_key ?k ?xs)) = _") for n
  proof -
    have "distinct (map turn_key ?xs)"
      using session_reachable_inv [OF assms(1)] by (simp add: session_inv_def distinct_map_filter_sub)
    then have "distinct (map tu_sequence ?xs)"
      by (auto simp: distinct_map inj_on_def turn_key_def)
    from arg_cong [OF sort_key_uminus [OF this], of rev] have "sort_key ?k ?xs = rev (sort_key tu_sequence ?xs)"
      unfolding rev_rev_ident .
    moreover have "sort_key tu_sequence ?xs = filter (\<lambda>t. tu_sequence t < n) (session_turns sid s)"
      by (simp add: session_turns_def filter_sort conj_commute)
    ultimately show ?thesis by (simp only: take_rev rev_rev_ident Let_def)
  qed
  then show ?thesis using assms(2)
    by (simp add: list_recent_for_context_def split: option.split)
qed

lemma exchange_scan_Some:
  "exchange_scan source ts = Some (t, a) \<longleftrightarrow> (\<exists>pre post. ts = pre @ t # a # post \<and> tu_id t = source
     \<and> tu_role t = User \<and> tu_role a = Assistant \<and> (\<forall>x \<in> set pre. tu_id x \<noteq> source))"
proof (induction source ts rule: exchange_scan.induct)
  case (1 source x b ts)
  show ?case
  proof (cases "tu_id x = source")
    case True
    then have eq1: "exchange_scan source (x # b # ts) = Some (t, a) \<longleftrightarrow> tu_role x = User \<and> tu_role b = Assistant \<and> t = x \<and> a = b"
      by auto
    have "pre = []" if "x # b # ts = pre @ t # a # post" "\<forall>y \<in> set pre. tu_id y \<noteq> source" for pre post
      using that True by (cases pre) auto
    then have eq2: "(\<exists>pre post. x # b # ts = pre @ t # a # post \<and> tu_id t = source \<and> tu_role t = User
        \<and> tu_role a = Assistant \<and> (\<forall>y \<in> set pre. tu_id y \<noteq> source))
      \<longleftrightarrow> tu_role x = User \<and> tu_role b = Assistant \<and> t = x \<and> a = b" (is "?l = ?r")
    proof (intro iffI)
      assume ?r
      with True show ?l by (intro exI [of _ "[]"] exI [of _ ts]) simp
    qed fastforce
    show ?thesis unfolding eq1 eq2 ..
  next
    case False
    then have eq1: "exchange_scan source (x # b # ts) = exchange_scan source (b # ts)" by simp
    have eq2: "(\<exists>pre post. x # b # ts = pre @ t # a # post \<and> tu_id t = source \<and> tu_role t = User
        \<and> tu_role a = Assistant \<and> (\<forall>y \<in> set pre. tu_id y \<noteq> source))
      \<longleftrightarrow> (\<exists>pre post. b # ts = pre @ t # a # post \<and> tu_id t = source \<and> tu_role t = User
        \<and> tu_role a = Assistant \<and> (\<forall>y \<in> set pre. tu_id y \<noteq> source))" (is "?l = ?r")
    proof
      assume ?l
      then obtain pre post where p: "x # b # ts = pre @ t # a # post" "tu_id t = source" "tu_role t = User"
        "tu_role a = Assistant" "\<forall>y \<in> set pre. tu_id y \<noteq> source" by blast
      from p(1,2) False obtain pre' where "pre = x # pre'" by (cases pre) auto
      with p show ?r by (intro exI [of _ pre'] exI [of _ post]) simp
    next
      assume ?r
      then obtain pre post where "b # ts = pre @ t # a # post" "tu_id t = source" "tu_role t = User"
        "tu_role a = Assistant" "\<forall>y \<in> set pre. tu_id y \<noteq> source" by blast
      with False show ?l by (intro exI [of _ "x # pre"] exI [of _ post]) simp
    qed
    show ?thesis unfolding eq1 eq2 by (rule 1 [OF False])
  qed
qed (auto simp: Cons_eq_append_conv)

text \<open>
Finalization. When a session without a summary is finalized, whatever the processor and other
connections do meanwhile, either another finalization has stored the summary that is returned, or
the summary returned is the generator's bounded answer for exactly the turns that are then deleted,
no extraction of the session is pending, failed or in progress, and the session is closed with the
lifecycle epoch it was read in; the turns of other sessions stay.
\<close>
theorem finalize_outcome:
  assumes "finalize process generate env now sid owner s = (Inr m, s')" and "get_summary sid owner s = None"
    and "s2 = env (snd (case process of None \<Rightarrow> (Inr (), s) | Some f \<Rightarrow> f s))"
  shows "(get_summary sid owner s2 = Some m \<and> s' = s2)
    \<or> (\<exists>c. generate (session_turns sid s) = Inr (PStr c) \<and> sm_content m = strip c
        \<and> strip c \<noteq> [] \<and> length (strip c) \<le> 4000 \<and> sm_session m = sid \<and> sm_owner m = owner
        \<and> sm_count m = int (length (session_turns sid s)) \<and> m \<in> set (summaries s')
        \<and> map tu_id (session_turns sid s2) = map tu_id (session_turns sid s)
        \<and> has_blocking_extraction_runs owner sid s2 = Inr False
        \<and> owner_current owner (sm_epoch m) s \<and> owner_current owner (sm_epoch m) s2
        \<and> turns s' = filter (\<lambda>t. tu_session t \<noteq> sid) (turns s2)
        \<and> (\<exists>x \<in> set (sessions s'). s_id x = sid \<and> s_owner x = owner \<and> s_status x = S_Closed))"
proof -
  obtain epoch where ep: "load_active_session sid owner s = Inr epoch"
    using assms(1,2) by (auto simp: finalize_def split: sum.splits)
  obtain q s1 where q: "(case process of None \<Rightarrow> (Inr (), s) | Some f \<Rightarrow> f s) = (q, s1)" by force
  have s2: "s2 = env s1" using assms(3) q by simp
  have "q = Inr ()" "extraction_gate sid owner s1 = Inr ()"
    using assms(1,2) ep q by (auto simp: finalize_def Let_def split: sum.splits)
  then obtain content where c: "bindE (generate (session_turns sid s)) (\<lambda>v. case v of PStr content \<Rightarrow> check_summary content
      | _ \<Rightarrow> Inl (ValueError ''session summary cannot be empty'')) = Inr content"
    and f: "finalize_commit now sid owner epoch (session_turns sid s) content s2 = (Inr m, s')"
    using assms(1,2) ep q s2 by (auto simp: finalize_def Let_def split: sum.splits)
  from c obtain text0 where g: "generate (session_turns sid s) = Inr (PStr text0)" "check_summary text0 = Inr content"
  proof -
    obtain v where v: "generate (session_turns sid s) = Inr v" "(case v of PStr content \<Rightarrow> check_summary content
      | _ \<Rightarrow> Inl (ValueError ''session summary cannot be empty'')) = Inr content"
      using c unfolding bindE_eq_Inr by blast
    then show thesis by (cases v) (auto intro: that)
  qed
  then have t: "content = strip text0" "strip text0 \<noteq> []" "length (strip text0) \<le> 4000"
    by (auto simp: check_summary_def result_simps is_blank_def max_summary_chars_def)
  show ?thesis
  proof (cases "get_summary sid owner s2")
    case (Some m')
    with f show ?thesis by (simp add: finalize_commit_again)
  next
    case None
    obtain x p where R: "session_of s2 sid = Some x" "s_owner x = owner" "s_status x = S_Active" "profile_of s2 owner = Some p"
      "p_state p = L_Active" "p_epoch p = epoch" "map tu_id (session_turns sid s2) = map tu_id (session_turns sid s)"
      "has_blocking_extraction_runs owner sid s2 = Inr False" "sm_session m = sid" "sm_owner m = owner"
      "sm_content m = content" "sm_count m = int (length (session_turns sid s))"
      "sm_epoch m = epoch" "s' = close_session sid owner m now s2"
      by (rule finalize_commit_result [OF f None]) blast
    obtain p0 where "profile_of s owner = Some p0" "p_epoch p0 = epoch" "p_state p0 = L_Active"
      using ep by (rule load_active_session_Inr)
    then have "owner_current owner epoch s" "owner_current owner epoch s2"
      using R(4-6) by (simp_all add: owner_current_def)
    moreover have "m \<in> set (summaries s')" "turns s' = filter (\<lambda>t. tu_session t \<noteq> sid) (turns s2)"
      unfolding R(14) by (simp_all add: close_session_def delete_turns_def Let_def delete_where_def)
    moreover have "\<exists>y \<in> set (sessions s'). s_id y = sid \<and> s_owner y = owner \<and> s_status y = S_Closed"
    proof
      show "x\<lparr>s_status := S_Closed, s_closed := Some now\<rparr> \<in> set (sessions s')"
        unfolding R(14) close_session_def Let_def
        by (simp add: delete_turns_def) (rule update_where_mem, use R(2,3) row_by_Some [OF R(1)] in simp_all)
    qed (use R(2) row_by_Some [OF R(1)] in simp)
    ultimately show ?thesis using R(7-14) g t by (intro disjI2 exI [of _ text0] conjI) simp_all
  qed
qed

lemma count_where_zero: "count_where P rows = 0 \<longleftrightarrow> (\<forall>r \<in> set rows. \<not> P r)"
  by (induction rows) auto

text \<open>
Deleting a turn. The turn must be the owner's, in an active session; it goes with the assistant's
answer right after it, and the owner's memories with its number as provenance go with it, whatever
session they come from. No summary is ever invalidated: a session with a summary is closed, and the
turns of a closed session are gone.
\<close>
theorem delete_turn_outcome:
  assumes "session_reachable s" and "delete_turn owner sid tid s = (Inr r, s')"
  shows "(\<exists>t \<in> set (turns s). tu_id t = tid \<and> tu_session t = sid \<and> context_session sid owner (s_lane (the (session_of s sid))) s
        \<and> turns s' = filter (\<lambda>y. \<not> (tu_session y = sid \<and> tu_id y \<in> tu_id ` set (deleted_turns t s))) (turns s))
    \<and> memories s' = filter (\<lambda>m. \<not> (m_user m = owner \<and> m_turn m = Some tid)) (memories s)
    \<and> \<not> dl_summary r \<and> summaries s' = summaries s"
proof -
  note inv = session_reachable_inv [OF assms(1)]
  let ?sum = "\<lambda>m. sm_session m = sid \<and> sm_owner m = owner \<and> sm_status m = SM_Active"
  obtain t x s2 where R: "t \<in> set (turns s)" "tu_id t = tid" "tu_session t = sid" "session_of s sid = Some x"
    "s_owner x = owner" "s_status x = S_Active" "turns s2 = turns s"
    "summaries s2 = update_where ?sum (\<lambda>m. m\<lparr>sm_status := SM_Invalidated\<rparr>) (summaries s)"
    "memories s2 = delete_where (\<lambda>m. m_user m = owner \<and> m_turn m = Some tid) (memories s)"
    "s' = delete_turns (\<lambda>y. tu_id y \<in> tu_id ` set (deleted_turns t s) \<and> tu_session y = sid) s2"
    "dl_summary r \<longleftrightarrow> count_where ?sum (summaries s) = 1"
    by (rule delete_turn_result [OF assms(2)]) blast
  have none: "\<not> ?sum m" if m: "m \<in> set (summaries s)" for m
  proof
    assume a: "?sum m"
    obtain y where "y \<in> set (sessions s)" "s_id y = sid" "s_status y = S_Closed"
      using inv m a unfolding session_inv_def by blast
    moreover have "x \<in> set (sessions s)" "s_id x = sid" using row_by_Some [OF R(4)] by simp_all
    moreover have "distinct (map s_id (sessions s))" using inv by (simp add: session_inv_def)
    ultimately have "y = x" by (metis distinct_map_unique)
    with \<open>s_status y = S_Closed\<close> R(6) show False by simp
  qed
  then have "summaries s2 = summaries s" unfolding R(8) by (rule update_where_False)
  moreover have "count_where ?sum (summaries s) = 0" unfolding count_where_zero using none by blast
  with R(11) have "\<not> dl_summary r" by simp
  moreover have "turns s' = filter (\<lambda>y. \<not> (tu_session y = sid \<and> tu_id y \<in> tu_id ` set (deleted_turns t s))) (turns s)"
    unfolding R(10) by (simp add: delete_turns_def delete_where_def R(7) conj_commute)
  moreover have "memories s' = filter (\<lambda>m. \<not> (m_user m = owner \<and> m_turn m = Some tid)) (memories s)"
    "summaries s' = summaries s2"
    unfolding R(10) by (simp_all add: delete_turns_def delete_where_def R(9))
  moreover have "context_session sid owner (s_lane (the (session_of s sid))) s"
    using R(4-6) by (simp add: context_session_def)
  ultimately show ?thesis using R(1-3) by auto
qed

section \<open>A history\<close>

text \<open>
  The owner opens a session and writes, the assistant answers; the session is finalized. A memory
  taken from the first turn stays. In the next session the first turn gets the row id 1 again.
\<close>

definition demo_memory :: memory_row where
  "demo_memory = \<lparr>m_id = 1, m_user = 7, m_scope = Shared, m_persona = None, m_relationship = None, m_kind = [107],
     m_content = [109], m_session = Some 1, m_status = M_Active, m_created = 100, m_updated = 100, m_version = 1,
     m_source = Automatic, m_category = Some Cat_Fact, m_confidence = None, m_turn = Some 1\<rparr>"

definition demo_session :: "int \<Rightarrow> int option \<Rightarrow> session" where
  "demo_session n shut = \<lparr>s_id = n, s_lane = 1, s_owner = 7, s_generation = n,
     s_status = (if shut = None then S_Active else S_Closed), s_opened = 100, s_closed = shut\<rparr>"

definition demo_turn :: "int \<Rightarrow> int \<Rightarrow> turn_role \<Rightarrow> turn" where
  "demo_turn n session_id role = \<lparr>tu_id = n, tu_session = session_id, tu_sequence = n, tu_role = role, tu_content = [72],
     tu_response = None, tu_created = 100\<rparr>"

definition demo_summary :: summary where
  "demo_summary = \<lparr>sm_id = 1, sm_session = 1, sm_owner = 7, sm_content = [83], sm_count = 2, sm_epoch = 1,
     sm_status = SM_Active, sm_created = 100\<rparr>"

definition demo_talk :: "session list \<Rightarrow> turn list \<Rightarrow> summary list \<Rightarrow> db" where
  "demo_talk xs ts ms = empty_db\<lparr>profiles := [new_profile 7 100], memories := [demo_memory],
     lanes := [\<lparr>l_id = 1, l_conversation = 1, l_key = [75], l_identity = 1, l_version = None\<rparr>],
     sessions := xs, turns := ts, summaries := ms\<rparr>"

lemmas demo_talk_eval = demo_talk_def demo_turn_def demo_session_def demo_summary_def empty_db_def new_profile_def row_by_def
  transaction_def next_rowid_def Let_def

lemma demo_open: "ensure_active_session 100 7 1 (demo_talk [] [] [])
    = (Inr (demo_session 1 None), demo_talk [demo_session 1 None] [] [])"
  "ensure_active_session 100 7 1 (demo_talk [demo_session 1 (Some 100)] [] [demo_summary])
    = (Inr (demo_session 2 None), demo_talk [demo_session 1 (Some 100), demo_session 2 None] [] [demo_summary])"
  by (simp_all add: ensure_active_session_def ensure_profile_row_def active_session_of_def new_session_def
      next_generation_def demo_talk_eval)

lemma demo_append: "append_turn 100 1 User [72] None (demo_talk [demo_session 1 None] [] [])
    = (Inr (demo_turn 1 1 User), demo_talk [demo_session 1 None] [demo_turn 1 1 User] [])"
  "append_turn 100 1 Assistant [72] None (demo_talk [demo_session 1 None] [demo_turn 1 1 User] [])
    = (Inr (demo_turn 2 1 Assistant), demo_talk [demo_session 1 None] [demo_turn 1 1 User, demo_turn 2 1 Assistant] [])"
  "append_turn 100 2 User [72] None (demo_talk [demo_session 1 (Some 100), demo_session 2 None] [] [demo_summary])
    = (Inr (demo_turn 1 2 User), demo_talk [demo_session 1 (Some 100), demo_session 2 None] [demo_turn 1 2 User] [demo_summary])"
  by (simp_all add: append_turn_def new_turn_def next_sequence_def is_blank_def strip_def is_space_def
      sql_nonblank_def demo_talk_eval)

abbreviation demo_spoken :: db where
  "demo_spoken \<equiv> demo_talk [demo_session 1 None] [demo_turn 1 1 User, demo_turn 2 1 Assistant] []"

abbreviation demo_reopened :: db where
  "demo_reopened \<equiv> demo_talk [demo_session 1 (Some 100), demo_session 2 None] [demo_turn 1 2 User] [demo_summary]"

lemma demo_finalize: "finalize_commit 100 1 7 1 [demo_turn 1 1 User, demo_turn 2 1 Assistant] [83] demo_spoken
    = (Inr demo_summary, demo_talk [demo_session 1 (Some 100)] [] [demo_summary])"
  by (simp add: finalize_commit_def get_summary_def load_active_session_def session_turns_def extraction_gate_def
      has_blocking_extraction_runs_def positive_ids_def sql_nonblank_def close_session_def delete_turns_def
      delete_where_def update_where_def demo_talk_eval)

lemma demo_spoken_reachable: "session_reachable demo_spoken"
proof -
  have "session_reachable (demo_talk [] [] [])"
    by (rule session_reachable.step [OF session_reachable.start session_step.other]) (simp_all add: demo_talk_def empty_db_def)
  from session_reachable.step [OF this session_step.open_session [of _ 100 7 1]]
  have "session_reachable (demo_talk [demo_session 1 None] [] [])" by (simp add: demo_open)
  from session_reachable.step [OF this session_step.append [of _ 100 1 User "[72]" None]]
  have "session_reachable (demo_talk [demo_session 1 None] [demo_turn 1 1 User] [])" by (simp add: demo_append)
  from session_reachable.step [OF this session_step.append [of _ 100 1 Assistant "[72]" None]]
  show ?thesis by (simp add: demo_append)
qed

lemma demo_reopened_reachable: "session_reachable demo_reopened"
proof -
  from session_reachable.step [OF demo_spoken_reachable
      session_step.close [of _ 100 1 7 1 "[demo_turn 1 1 User, demo_turn 2 1 Assistant]" "[83]"]]
  have "session_reachable (demo_talk [demo_session 1 (Some 100)] [] [demo_summary])" by (simp add: demo_finalize)
  from session_reachable.step [OF this session_step.open_session [of _ 100 7 1]]
  have "session_reachable (demo_talk [demo_session 1 (Some 100), demo_session 2 None] [] [demo_summary])"
    by (simp add: demo_open)
  from session_reachable.step [OF this session_step.append [of _ 100 2 User "[72]" None]]
  show ?thesis by (simp add: demo_append)
qed

theorem transcript_store_invariant_witness:
  "\<exists>x \<in> set (sessions demo_reopened). s_id x = 2 \<and> s_status x = S_Active"
proof -
  have "demo_turn 1 2 User \<in> set (turns demo_reopened)" by (simp add: demo_talk_def)
  with transcript_store_invariant [OF demo_reopened_reachable]
  obtain x where "x \<in> set (sessions demo_reopened)" "s_id x = tu_session (demo_turn 1 2 User)" "s_status x = S_Active" by blast
  then show ?thesis by (intro bexI [of _ x]) (simp_all add: demo_turn_def)
qed

theorem context_window_is_tail_witness:
  "list_recent_for_context 7 1 1 2 5 demo_spoken = Inr [demo_turn 1 1 User]"
  by (subst context_window_is_tail [OF demo_spoken_reachable])
    (simp_all add: context_session_def session_turns_def demo_talk_eval)

theorem finalize_outcome_witness:
  "turns (snd (finalize None (\<lambda>_. Inr (PStr [83])) id 100 1 7 demo_spoken)) = []"
proof -
  have none: "get_summary 1 7 demo_spoken = None" by (simp add: get_summary_def demo_talk_eval)
  have ts: "session_turns 1 demo_spoken = [demo_turn 1 1 User, demo_turn 2 1 Assistant]"
    by (simp add: session_turns_def demo_talk_eval)
  have load: "load_active_session 1 7 demo_spoken = Inr 1" by (simp add: load_active_session_def demo_talk_eval)
  have gate: "extraction_gate 1 7 demo_spoken = Inr ()"
    by (simp add: extraction_gate_def has_blocking_extraction_runs_def positive_ids_def demo_talk_eval)
  have chk: "check_summary [83] = Inr [83]"
    by (simp add: check_summary_def is_blank_def strip_def is_space_def max_summary_chars_def)
  have f: "finalize None (\<lambda>_. Inr (PStr [83])) id 100 1 7 demo_spoken
      = (Inr demo_summary, demo_talk [demo_session 1 (Some 100)] [] [demo_summary])"
    by (simp add: finalize_def none ts load gate chk demo_finalize Let_def)
  from finalize_outcome [OF f none refl] none f show ?thesis by (auto simp: demo_talk_def demo_turn_def)
qed

theorem delete_turn_outcome_witness:
  "memories (snd (delete_turn 7 2 1 demo_reopened)) = [] \<and> m_session demo_memory = Some 1"
proof -
  obtain r where r: "delete_turn 7 2 1 demo_reopened = (Inr r, snd (delete_turn 7 2 1 demo_reopened))"
    by (simp add: delete_turn_def deleted_turns_def demo_talk_eval)
  from delete_turn_outcome [OF demo_reopened_reachable r] show ?thesis by (simp add: demo_talk_def demo_memory_def)
qed

end
