(* ===== verification/Reminder_Invariant.thy ===== *)
theory Reminder_Invariant
  imports Reminder_Store
begin

text \<open>
  The invariant of the reminder tables and its preservation by every operation of the
  reminder store: keys are unique, runs and outbox rows are aligned with compatible
  statuses, the count a job has emitted is the number of its scheduled runs and never more
  than its rule allows, the statuses of job and task agree, and only tasks that are not
  closed have open runs.
\<close>

section \<open>The invariant\<close>

fun pair_ok :: "run_status \<Rightarrow> outbox_status \<Rightarrow> bool" where
  "pair_ok R_Due O_Pending = True"
| "pair_ok R_Claimed O_Leased = True"
| "pair_ok R_Delivered O_Sent = True"
| "pair_ok R_Failed O_Failed = True"
| "pair_ok R_Missed O_Cancelled = True"
| "pair_ok R_Cancelled O_Cancelled = True"
| "pair_ok _ _ = False"

definition linked :: "run \<Rightarrow> outbox \<Rightarrow> bool" where
  "linked r ob \<longleftrightarrow> o_run ob = rn_id r \<and> o_owner ob = rn_owner r \<and> o_epoch ob = rn_epoch r
     \<and> o_scheduled ob = rn_scheduled r \<and> pair_ok (rn_status r) (o_status ob)"

definition outbox_ok :: "outbox \<Rightarrow> bool" where
  "outbox_ok ob \<longleftrightarrow> 0 \<le> o_attempt ob \<and> o_attempt ob \<le> max_delivery_attempts
     \<and> (o_status ob = O_Pending \<longrightarrow> o_attempt ob < max_delivery_attempts)
     \<and> (o_status ob = O_Leased \<longrightarrow> o_until ob \<noteq> None \<and> 1 \<le> o_attempt ob)
     \<and> (o_status ob = O_Sent \<longrightarrow> o_message ob \<noteq> None \<and> 1 \<le> o_attempt ob)
     \<and> (o_token ob \<noteq> None \<longleftrightarrow> o_status ob \<in> {O_Leased, O_Sent})"

fun status_ok :: "job_status \<Rightarrow> task_status \<Rightarrow> bool" where
  "status_ok J_Draft T_Awaiting = True"
| "status_ok J_Awaiting T_Awaiting = True"
| "status_ok J_Active T_Active = True"
| "status_ok J_NeedsReview T_NeedsReview = True"
| "status_ok J_Completed ts = (ts \<in> {T_Active, T_Completed, T_Cancelled})"
| "status_ok J_Cancelled T_Cancelled = True"
| "status_ok _ _ = False"

definition job_row_ok :: "job \<Rightarrow> bool" where
  "job_row_ok j \<longleftrightarrow> rule_ok (j_rule j) \<and> 0 \<le> j_emitted j
     \<and> (j_next j \<noteq> None \<longleftrightarrow> j_status j = J_Active)
     \<and> (\<forall>c. r_count (j_rule j) = Some c \<longrightarrow> j_emitted j \<le> c \<and> (j_status j = J_Active \<longrightarrow> j_emitted j < c))
     \<and> (j_status j \<in> {J_Draft, J_Awaiting} \<longrightarrow> j_emitted j = 0)"

definition job_task_ok :: "task list \<Rightarrow> job \<Rightarrow> bool" where
  "job_task_ok ts j \<longleftrightarrow> (\<exists>t \<in> set ts. tk_id t = j_task j \<and> tk_owner t = j_owner j
     \<and> tk_epoch t = j_epoch j \<and> status_ok (j_status j) (tk_status t))"

definition emitted_runs :: "int \<Rightarrow> run list \<Rightarrow> nat" where
  "emitted_runs n rs = count_where (\<lambda>r. rn_job r = n \<and> rn_action r = None) rs"

definition job_count_ok :: "run list \<Rightarrow> job \<Rightarrow> bool" where
  "job_count_ok rs j \<longleftrightarrow> j_emitted j = int (emitted_runs (j_id j) rs)"

definition closed_task :: "task \<Rightarrow> bool" where
  "closed_task t \<longleftrightarrow> tk_status t \<in> {T_Cancelled, T_Completed}"

definition open_run :: "run \<Rightarrow> bool" where
  "open_run r \<longleftrightarrow> rn_status r \<in> {R_Due, R_Claimed}"

definition unconfirmed :: "job \<Rightarrow> bool" where
  "unconfirmed j \<longleftrightarrow> j_status j \<in> {J_Draft, J_Awaiting}"

definition run_row_ok :: "task list \<Rightarrow> job list \<Rightarrow> run \<Rightarrow> bool" where
  "run_row_ok ts js r \<longleftrightarrow> (\<exists>j \<in> set js. j_id j = rn_job r \<and> j_owner j = rn_owner r
     \<and> j_epoch j = rn_epoch r \<and> \<not> unconfirmed j
     \<and> (open_run r \<longrightarrow> (\<exists>t \<in> set ts. tk_id t = j_task j \<and> \<not> closed_task t)))"

definition run_key :: "run \<Rightarrow> int \<times> int" where
  "run_key r = (rn_job r, rn_scheduled r)"

definition reminder_inv :: "db \<Rightarrow> bool" where
  "reminder_inv s \<longleftrightarrow>
     distinct (map tk_id (tasks s)) \<and> distinct (map j_id (jobs s)) \<and> distinct (map j_task (jobs s))
     \<and> distinct (map rn_id (runs s)) \<and> distinct (map o_id (outboxes s))
     \<and> distinct (map run_key (runs s))
     \<and> list_all2 linked (runs s) (outboxes s)
     \<and> (\<forall>ob \<in> set (outboxes s). outbox_ok ob)
     \<and> (\<forall>j \<in> set (jobs s). job_row_ok j \<and> job_task_ok (tasks s) j \<and> job_count_ok (runs s) j)
     \<and> (\<forall>r \<in> set (runs s). run_row_ok (tasks s) (jobs s) r)"

lemma reminder_invI:
  assumes "distinct (map tk_id (tasks s))" "distinct (map j_id (jobs s))"
    "distinct (map j_task (jobs s))" "distinct (map rn_id (runs s))"
    "distinct (map o_id (outboxes s))" "distinct (map run_key (runs s))"
    "list_all2 linked (runs s) (outboxes s)"
    "\<And>ob. ob \<in> set (outboxes s) \<Longrightarrow> outbox_ok ob"
    "\<And>j. j \<in> set (jobs s) \<Longrightarrow> job_row_ok j"
    "\<And>j. j \<in> set (jobs s) \<Longrightarrow> job_task_ok (tasks s) j"
    "\<And>j. j \<in> set (jobs s) \<Longrightarrow> job_count_ok (runs s) j"
    "\<And>r. r \<in> set (runs s) \<Longrightarrow> run_row_ok (tasks s) (jobs s) r"
  shows "reminder_inv s"
  using assms unfolding reminder_inv_def by blast

lemma reminder_invD:
  assumes "reminder_inv s"
  shows "distinct (map tk_id (tasks s))" "distinct (map j_id (jobs s))"
    "distinct (map j_task (jobs s))" "distinct (map rn_id (runs s))"
    "distinct (map o_id (outboxes s))" "distinct (map run_key (runs s))"
    "list_all2 linked (runs s) (outboxes s)"
    "\<And>ob. ob \<in> set (outboxes s) \<Longrightarrow> outbox_ok ob"
    "\<And>j. j \<in> set (jobs s) \<Longrightarrow> job_row_ok j"
    "\<And>j. j \<in> set (jobs s) \<Longrightarrow> job_task_ok (tasks s) j"
    "\<And>j. j \<in> set (jobs s) \<Longrightarrow> job_count_ok (runs s) j"
    "\<And>r. r \<in> set (runs s) \<Longrightarrow> run_row_ok (tasks s) (jobs s) r"
  using assms unfolding reminder_inv_def by blast+

text \<open>The invariant speaks of four tables only.\<close>

definition same_reminders :: "db \<Rightarrow> db \<Rightarrow> bool" where
  "same_reminders s s' \<longleftrightarrow> tasks s' = tasks s \<and> jobs s' = jobs s \<and> runs s' = runs s
     \<and> outboxes s' = outboxes s"

lemma reminder_inv_same: "same_reminders s s' \<Longrightarrow> reminder_inv s \<Longrightarrow> reminder_inv s'"
  by (simp add: same_reminders_def reminder_inv_def)

section \<open>Updates of runs and outbox rows\<close>

lemma in_update_where:
  "r \<in> set (update_where P f rows) \<Longrightarrow> \<exists>r0 \<in> set rows. r = (if P r0 then f r0 else r0)"
  unfolding set_update_where by blast

lemma linked_unique_run:
  assumes "reminder_inv s" and "ob \<in> set (outboxes s)"
  shows "\<exists>r \<in> set (runs s). linked r ob \<and> run_of s (o_run ob) = Some r"
proof -
  obtain r where r: "r \<in> set (runs s)" "linked r ob"
    using list_all2_right [OF reminder_invD(7) [OF assms(1)] assms(2)] by blast
  then have "run_of s (rn_id r) = Some r"
    using reminder_invD(4) [OF assms(1)] by (intro row_by_unique)
  with r show ?thesis by (auto simp: linked_def)
qed

lemma job_count_ok_update:
  assumes "\<And>r. P r \<Longrightarrow> rn_job (f r) = rn_job r \<and> rn_action (f r) = rn_action r"
  shows "job_count_ok (update_where P f rs) j = job_count_ok rs j"
  using assms unfolding job_count_ok_def emitted_runs_def by (subst count_where_update) auto

text \<open>A change of runs and outbox rows that keeps keys and links keeps the invariant.\<close>

lemma inv_update_pair:
  assumes inv: "reminder_inv s"
    and f: "\<And>r. P r \<Longrightarrow> rn_id (f r) = rn_id r \<and> rn_job (f r) = rn_job r \<and> rn_owner (f r) = rn_owner r
      \<and> rn_epoch (f r) = rn_epoch r \<and> rn_scheduled (f r) = rn_scheduled r \<and> rn_action (f r) = rn_action r"
    and g: "\<And>ob. Q ob \<Longrightarrow> o_id (g ob) = o_id ob \<and> o_run (g ob) = o_run ob \<and> o_owner (g ob) = o_owner ob
      \<and> o_epoch (g ob) = o_epoch ob \<and> o_scheduled (g ob) = o_scheduled ob"
    and fg: "\<And>r ob. linked r ob \<Longrightarrow> r \<in> set (runs s) \<Longrightarrow> ob \<in> set (outboxes s) \<Longrightarrow>
      pair_ok (rn_status (if P r then f r else r)) (o_status (if Q ob then g ob else ob))"
    and op: "\<And>r. r \<in> set (runs s) \<Longrightarrow> P r \<Longrightarrow> open_run (f r) \<Longrightarrow> open_run r"
    and ok: "\<And>ob. ob \<in> set (outboxes s) \<Longrightarrow> Q ob \<Longrightarrow> outbox_ok ob \<Longrightarrow> outbox_ok (g ob)"
    and s': "same_reminders (s\<lparr>runs := update_where P f (runs s), outboxes := update_where Q g (outboxes s)\<rparr>) s'"
  shows "reminder_inv s'"
proof (rule reminder_inv_same [OF s'], rule reminder_invI; simp)
  note D = reminder_invD [OF inv]
  show "distinct (map tk_id (tasks s))" "distinct (map j_id (jobs s))" "distinct (map j_task (jobs s))"
    by (fact D)+
  show "distinct (map rn_id (update_where P f (runs s)))"
    using D(4) f by (subst map_update_where) auto
  show "distinct (map o_id (update_where Q g (outboxes s)))"
    using D(5) g by (subst map_update_where) auto
  show "distinct (map run_key (update_where P f (runs s)))"
    using D(6) f by (subst map_update_where) (auto simp: run_key_def)
  show "list_all2 linked (update_where P f (runs s)) (update_where Q g (outboxes s))"
    by (rule list_all2_update_where [OF D(7)])
      (use f g fg in \<open>auto simp: linked_def\<close>)
  show "outbox_ok ob" if "ob \<in> set (update_where Q g (outboxes s))" for ob
    using that D(8) ok by (auto simp: set_update_where)
  show "job_row_ok j" "job_task_ok (tasks s) j" "job_count_ok (update_where P f (runs s)) j"
    if "j \<in> set (jobs s)" for j
    using D(9-11) [OF that] f by (auto simp: job_count_ok_update)
  show "run_row_ok (tasks s) (jobs s) r" if "r \<in> set (update_where P f (runs s))" for r
  proof -
    from that obtain r0 where r0: "r0 \<in> set (runs s)" "r = (if P r0 then f r0 else r0)"
      by (auto simp: set_update_where)
    show ?thesis using D(12) [OF r0(1)] r0 f [of r0] op [of r0] unfolding run_row_ok_def by (cases "P r0") auto
  qed
qed

lemma outbox_run_keys: "list_all2 linked rs obs \<Longrightarrow> map o_run obs = map rn_id rs"
  by (induction rule: list_all2_induct) (auto simp: linked_def)

lemma linked_match:
  assumes "reminder_inv s" and "ob \<in> set (outboxes s)"
    and "linked r x" and "x \<in> set (outboxes s)"
  shows "rn_id r = o_run ob \<longleftrightarrow> o_id x = o_id ob" and "o_id x = o_id ob \<Longrightarrow> x = ob"
proof -
  have d: "distinct (map o_run (outboxes s))"
    using outbox_run_keys [OF reminder_invD(7)] reminder_invD(4) assms(1) by simp
  show e: "x = ob" if "o_id x = o_id ob"
    using distinct_map_unique [OF reminder_invD(5) [OF assms(1)] assms(4,2) that] .
  show "rn_id r = o_run ob \<longleftrightarrow> o_id x = o_id ob"
    using e distinct_map_unique [OF d assms(4,2)] assms(3) by (auto simp: linked_def)
qed

lemma pair_ok_open: "pair_ok rs os \<Longrightarrow> os \<in> {O_Pending, O_Leased} \<longleftrightarrow> rs \<in> {R_Due, R_Claimed}"
  by (cases rs; cases os) auto

lemma inv_expire:
  assumes inv: "reminder_inv s" and ob: "ob \<in> set (outboxes s)"
    and st: "o_status ob \<in> {O_Pending, O_Leased}"
  shows "reminder_inv (expire_outbox now ob s)"
proof (rule inv_update_pair [OF inv])
  show "same_reminders (s\<lparr>runs := update_where (\<lambda>r. rn_id r = o_run ob \<and> rn_status r \<in> {R_Due, R_Claimed})
      (\<lambda>r. r\<lparr>rn_status := R_Missed, rn_error := Some (u ''grace_expired''), rn_updated := now\<rparr>) (runs s),
      outboxes := update_where (\<lambda>r. o_id r = o_id ob)
      (\<lambda>r. r\<lparr>o_status := O_Cancelled, o_token := None, o_until := None, o_updated := now\<rparr>) (outboxes s)\<rparr>)
      (expire_outbox now ob s)"
    by (simp add: same_reminders_def expire_outbox_def set_open_run_def set_outbox_def)
next
  fix r x
  assume l: "linked r x" "r \<in> set (runs s)" "x \<in> set (outboxes s)"
  note m = linked_match [OF inv ob l(1,3)]
  have "pair_ok (rn_status r) (o_status x)" using l by (simp add: linked_def)
  then show "pair_ok (rn_status (if rn_id r = o_run ob \<and> rn_status r \<in> {R_Due, R_Claimed}
      then r\<lparr>rn_status := R_Missed, rn_error := Some (u ''grace_expired''), rn_updated := now\<rparr> else r))
      (o_status (if o_id x = o_id ob then x\<lparr>o_status := O_Cancelled, o_token := None,
         o_until := None, o_updated := now\<rparr> else x))"
    using m st pair_ok_open [of "rn_status r" "o_status x"] by auto
qed (auto simp: outbox_ok_def open_run_def)

lemma inv_grant:
  assumes inv: "reminder_inv s" and ob: "ob \<in> set (outboxes s)" and e: "eligible now s ob"
  shows "reminder_inv (grant_outbox now lease_until token ob s)"
proof (rule inv_update_pair [OF inv])
  show "same_reminders (s\<lparr>runs := update_where (\<lambda>r. rn_id r = o_run ob \<and> rn_status r \<in> {R_Due, R_Claimed})
      (\<lambda>r. r\<lparr>rn_status := R_Claimed, rn_claimed := Some now, rn_updated := now\<rparr>) (runs s),
      outboxes := update_where (\<lambda>r. o_id r = o_id ob)
      (\<lambda>r. r\<lparr>o_status := O_Leased, o_attempt := o_attempt r + 1, o_token := Some token,
         o_until := Some lease_until, o_error := None, o_updated := now\<rparr>) (outboxes s)\<rparr>)
      (grant_outbox now lease_until token ob s)"
    by (simp add: same_reminders_def grant_outbox_def set_open_run_def set_outbox_def)
next
  fix r x
  assume l: "linked r x" "r \<in> set (runs s)" "x \<in> set (outboxes s)"
  note m = linked_match [OF inv ob l(1,3)]
  have st: "o_status ob \<in> {O_Pending, O_Leased}" using e by (auto simp: eligible_def)
  have "pair_ok (rn_status r) (o_status x)" using l by (simp add: linked_def)
  then show "pair_ok (rn_status (if rn_id r = o_run ob \<and> rn_status r \<in> {R_Due, R_Claimed}
      then r\<lparr>rn_status := R_Claimed, rn_claimed := Some now, rn_updated := now\<rparr> else r))
      (o_status (if o_id x = o_id ob then x\<lparr>o_status := O_Leased, o_attempt := o_attempt x + 1,
         o_token := Some token, o_until := Some lease_until, o_error := None, o_updated := now\<rparr>
         else x))"
    using m st pair_ok_open [of "rn_status r" "o_status x"] by auto
next
  fix x assume x: "x \<in> set (outboxes s)" "o_id x = o_id ob" "outbox_ok x"
  have "x = ob" using distinct_map_unique [OF reminder_invD(5) [OF inv] x(1) ob x(2)] .
  then show "outbox_ok (x\<lparr>o_status := O_Leased, o_attempt := o_attempt x + 1,
      o_token := Some token, o_until := Some lease_until, o_error := None, o_updated := now\<rparr>)"
    using x(3) e by (auto simp: outbox_ok_def eligible_def)
qed (auto simp: open_run_def)

lemma inv_commit:
  assumes inv: "reminder_inv s" and ob: "ob \<in> set (outboxes s)"
    and l: "o_id ob = le_outbox l" "o_run ob = le_run l" "o_status ob = O_Leased"
      "o_token ob = Some (le_token l)"
  shows "reminder_inv (commit_sent l message now s)"
proof (rule inv_update_pair [OF inv])
  show "same_reminders (s\<lparr>runs := update_where (\<lambda>r. rn_id r = le_run l)
      (\<lambda>r. r\<lparr>rn_status := R_Delivered, rn_delivered := Some now, rn_updated := now\<rparr>) (runs s),
      outboxes := update_where (\<lambda>ob. o_id ob = le_outbox l \<and> o_token ob = Some (le_token l)
           \<and> o_status ob = O_Leased)
         (\<lambda>ob. ob\<lparr>o_status := O_Sent, o_message := Some message, o_until := None,
            o_updated := now\<rparr>) (outboxes s)\<rparr>) (commit_sent l message now s)"
    by (simp add: same_reminders_def commit_sent_def)
next
  fix r x
  assume k: "linked r x" "r \<in> set (runs s)" "x \<in> set (outboxes s)"
  note m = linked_match [OF inv ob k(1,3)]
  have "pair_ok (rn_status r) (o_status x)" using k by (simp add: linked_def)
  then show "pair_ok (rn_status (if rn_id r = le_run l
      then r\<lparr>rn_status := R_Delivered, rn_delivered := Some now, rn_updated := now\<rparr> else r))
      (o_status (if o_id x = le_outbox l \<and> o_token x = Some (le_token l) \<and> o_status x = O_Leased
        then x\<lparr>o_status := O_Sent, o_message := Some message, o_until := None, o_updated := now\<rparr>
        else x))"
    using m l by auto
next
  fix x assume x: "x \<in> set (outboxes s)" "outbox_ok x" "o_id x = le_outbox l
      \<and> o_token x = Some (le_token l) \<and> o_status x = O_Leased"
  then show "outbox_ok (x\<lparr>o_status := O_Sent, o_message := Some message, o_until := None,
      o_updated := now\<rparr>)"
    by (auto simp: outbox_ok_def)
qed (auto simp: open_run_def)

lemma inv_release:
  assumes inv: "reminder_inv s" and ob: "ob \<in> set (outboxes s)"
    and l: "o_id ob = le_outbox l" "o_run ob = le_run l" "o_status ob = O_Leased"
    and st: "ost = O_Failed \<and> rst = R_Failed
      \<or> ost = O_Pending \<and> rst = R_Due \<and> o_attempt ob < max_delivery_attempts"
  shows "reminder_inv (release_outbox l ost rst available err now s)"
proof (rule inv_update_pair [OF inv])
  show "same_reminders (s\<lparr>runs := update_where (\<lambda>r. rn_id r = le_run l)
         (\<lambda>r. r\<lparr>rn_status := rst, rn_error := Some err, rn_updated := now\<rparr>) (runs s),
      outboxes := update_where (\<lambda>ob. o_id ob = le_outbox l)
         (\<lambda>ob. ob\<lparr>o_status := ost, o_available := available, o_token := None, o_until := None,
            o_error := Some err, o_updated := now\<rparr>) (outboxes s)\<rparr>)
      (release_outbox l ost rst available err now s)"
    by (simp add: same_reminders_def release_outbox_def)
next
  fix r x
  assume k: "linked r x" "r \<in> set (runs s)" "x \<in> set (outboxes s)"
  note m = linked_match [OF inv ob k(1,3)]
  have "pair_ok (rn_status r) (o_status x)" using k by (simp add: linked_def)
  then show "pair_ok (rn_status (if rn_id r = le_run l
      then r\<lparr>rn_status := rst, rn_error := Some err, rn_updated := now\<rparr> else r))
      (o_status (if o_id x = le_outbox l then x\<lparr>o_status := ost, o_available := available,
         o_token := None, o_until := None, o_error := Some err, o_updated := now\<rparr> else x))"
    using m l st by auto
next
  fix x assume x: "x \<in> set (outboxes s)" "outbox_ok x" "o_id x = le_outbox l"
  have "x = ob" by (rule distinct_map_unique [OF reminder_invD(5) [OF inv] x(1) ob]) (simp add: x l)
  then show "outbox_ok (x\<lparr>o_status := ost, o_available := available, o_token := None,
      o_until := None, o_error := Some err, o_updated := now\<rparr>)"
    using x(2) st by (auto simp: outbox_ok_def)
next
  fix r assume r: "r \<in> set (runs s)" "rn_id r = le_run l"
    and op: "open_run (r\<lparr>rn_status := rst, rn_error := Some err, rn_updated := now\<rparr>)"
  obtain x where x: "x \<in> set (outboxes s)" "linked r x"
    using list_all2_left [OF reminder_invD(7) [OF inv] r(1)] by blast
  have "x = ob" using linked_match [OF inv ob x(2,1)] r(2) l(2) by simp
  then show "open_run r"
    using x(2) l(3) pair_ok_open [of "rn_status r" "o_status x"] by (auto simp: linked_def open_run_def)
qed auto

section \<open>Updates of jobs and tasks\<close>

text \<open>A change of jobs and tasks that keeps keys and the emitted counts keeps the invariant.\<close>

lemma inv_update_jobs:
  assumes inv: "reminder_inv s"
    and f: "\<And>j. P j \<Longrightarrow> j_id (f j) = j_id j \<and> j_task (f j) = j_task j \<and> j_owner (f j) = j_owner j
      \<and> j_epoch (f j) = j_epoch j \<and> j_emitted (f j) = j_emitted j"
    and g: "\<And>t. Q t \<Longrightarrow> tk_id (g t) = tk_id t \<and> tk_owner (g t) = tk_owner t \<and> tk_epoch (g t) = tk_epoch t"
    and row: "\<And>j. j \<in> set (jobs s) \<Longrightarrow> P j \<Longrightarrow> job_row_ok j \<Longrightarrow> job_row_ok (f j)"
    and st: "\<And>j t. j \<in> set (jobs s) \<Longrightarrow> t \<in> set (tasks s) \<Longrightarrow> tk_id t = j_task j
      \<Longrightarrow> status_ok (j_status j) (tk_status t)
      \<Longrightarrow> status_ok (j_status (if P j then f j else j)) (tk_status (if Q t then g t else t))"
    and conf: "\<And>j. j \<in> set (jobs s) \<Longrightarrow> P j \<Longrightarrow> unconfirmed (f j) \<Longrightarrow> unconfirmed j"
    and closed: "\<And>t j r. t \<in> set (tasks s) \<Longrightarrow> Q t \<Longrightarrow> closed_task (g t) \<Longrightarrow> j \<in> set (jobs s)
      \<Longrightarrow> j_task j = tk_id t \<Longrightarrow> r \<in> set (runs s) \<Longrightarrow> rn_job r = j_id j \<Longrightarrow> \<not> open_run r"
    and s': "same_reminders (s\<lparr>tasks := update_where Q g (tasks s), jobs := update_where P f (jobs s)\<rparr>) s'"
  shows "reminder_inv s'"
proof (rule reminder_inv_same [OF s'], rule reminder_invI; simp)
  note D = reminder_invD [OF inv]
  show "distinct (map tk_id (update_where Q g (tasks s)))"
    using D(1) g by (subst map_update_where) auto
  show "distinct (map j_id (update_where P f (jobs s)))" "distinct (map j_task (update_where P f (jobs s)))"
    using D(2,3) f by (subst map_update_where; auto)+
  show "distinct (map rn_id (runs s))" "distinct (map o_id (outboxes s))"
    "distinct (map run_key (runs s))" "list_all2 linked (runs s) (outboxes s)" by (fact D)+
  show "outbox_ok ob" if "ob \<in> set (outboxes s)" for ob by (rule D(8) [OF that])
  fix j assume "j \<in> set (update_where P f (jobs s))"
  then obtain j0 where j0: "j0 \<in> set (jobs s)" "j = (if P j0 then f j0 else j0)"
    by (auto simp: set_update_where)
  show "job_row_ok j" using D(9) [OF j0(1)] row [OF j0(1)] j0(2) by auto
  show "job_task_ok (update_where Q g (tasks s)) j"
  proof -
    obtain t where t: "t \<in> set (tasks s)" "tk_id t = j_task j0" "tk_owner t = j_owner j0"
      "tk_epoch t = j_epoch j0" "status_ok (j_status j0) (tk_status t)"
      using D(10) [OF j0(1)] by (auto simp: job_task_ok_def)
    have "(if Q t then g t else t) \<in> set (update_where Q g (tasks s))"
      using t(1) by (auto simp: set_update_where)
    moreover have "status_ok (j_status j) (tk_status (if Q t then g t else t))"
      using st [OF j0(1) t(1,2,5)] j0(2) by simp
    moreover have "tk_id (if Q t then g t else t) = j_task j
        \<and> tk_owner (if Q t then g t else t) = j_owner j \<and> tk_epoch (if Q t then g t else t) = j_epoch j"
      using t g [of t] f [of j0] j0(2) by auto
    ultimately show ?thesis unfolding job_task_ok_def by blast
  qed
  show "job_count_ok (runs s) j"
    using D(11) [OF j0(1)] j0 f by (auto simp: job_count_ok_def)
next
  note D = reminder_invD [OF inv]
  fix r assume r: "r \<in> set (runs s)"
  obtain j where j: "j \<in> set (jobs s)" "j_id j = rn_job r" "j_owner j = rn_owner r" "j_epoch j = rn_epoch r"
    and nu: "\<not> unconfirmed j"
    and op: "open_run r \<longrightarrow> (\<exists>t \<in> set (tasks s). tk_id t = j_task j \<and> \<not> closed_task t)"
    using D(12) [OF r] by (auto simp: run_row_ok_def)
  have nu': "\<not> unconfirmed (if P j then f j else j)" using nu conf [OF j(1)] by auto
  have m: "(if P j then f j else j) \<in> set (update_where P f (jobs s))"
    using j(1) by (auto simp: set_update_where)
  have "\<exists>t \<in> set (update_where Q g (tasks s)). tk_id t = j_task (if P j then f j else j) \<and> \<not> closed_task t"
    if o: "open_run r"
  proof -
    obtain t where t: "t \<in> set (tasks s)" "tk_id t = j_task j" "\<not> closed_task t" using op o by blast
    have "\<not> closed_task (if Q t then g t else t)"
      using closed [OF t(1) _ _ j(1) _ r] t o j(2) by auto
    moreover have "(if Q t then g t else t) \<in> set (update_where Q g (tasks s))"
      using t(1) by (auto simp: set_update_where)
    ultimately show ?thesis using t(2) g [of t] f [of j] by (intro bexI) auto
  qed
  then show "run_row_ok (update_where Q g (tasks s)) (update_where P f (jobs s)) r"
    using m j f [of j] nu' unfolding run_row_ok_def by (intro bexI [OF _ m]) auto
qed

text \<open>The job of a task is unique, and so is the task of a job.\<close>

lemma first_job_unique:
  assumes "reminder_inv s" and "first_job n s = Some j"
  shows "j \<in> set (jobs s)" and "j_task j = n"
    and "\<And>j'. j' \<in> set (jobs s) \<Longrightarrow> j_task j' = n \<Longrightarrow> j' = j"
proof -
  show j: "j \<in> set (jobs s)" "j_task j = n"
    using first_by_Some(1) [OF assms(2) [unfolded first_job_def]] by auto
  show "j' = j" if "j' \<in> set (jobs s)" "j_task j' = n" for j'
    using distinct_map_unique [OF reminder_invD(3) [OF assms(1)] that(1) j(1)] that(2) j(2) by simp
qed

lemma owned_task_and_job_Inr:
  assumes "reminder_inv s" and "owned_task_and_job n owner s = Inr (t, j)"
  shows "t \<in> set (tasks s)" "tk_id t = n" "tk_owner t = owner" "j \<in> set (jobs s)" "j_task j = n"
    "status_ok (j_status j) (tk_status t)" "tk_owner t = j_owner j" "tk_epoch t = j_epoch j"
proof -
  have o: "task_of s n = Some t" "tk_owner t = owner" "first_job n s = Some j"
    using assms(2) by (auto simp: owned_task_and_job_def result_simps)
  show t: "t \<in> set (tasks s)" "tk_id t = n" using row_by_Some [OF o(1)] by auto
  show "tk_owner t = owner" by (fact o)
  show j: "j \<in> set (jobs s)" "j_task j = n" using first_job_unique(1,2) [OF assms(1) o(3)] .
  obtain t' where t': "t' \<in> set (tasks s)" "tk_id t' = j_task j" "tk_owner t' = j_owner j"
    "tk_epoch t' = j_epoch j" "status_ok (j_status j) (tk_status t')"
    using reminder_invD(10) [OF assms(1) j(1)] by (auto simp: job_task_ok_def)
  have "t' = t" using distinct_map_unique [OF reminder_invD(1) [OF assms(1)] t'(1) t(1)] t t' j by simp
  with t' show "status_ok (j_status j) (tk_status t)" "tk_owner t = j_owner j" "tk_epoch t = j_epoch j"
    by auto
qed

lemma inv_close:
  assumes inv: "reminder_inv s" and t: "task_of s n = Some t" and nc: "\<not> closed_task t"
    and target: "target = T_Cancelled \<and> jt = J_Cancelled \<or> target = T_Completed \<and> jt = J_Completed"
  shows "reminder_inv (close_task_rows target jt now n s)"
proof -
  define s1 where "s1 = s\<lparr>runs := update_where (\<lambda>r. task_run n s r \<and> rn_status r \<in> {R_Due, R_Claimed})
         (\<lambda>r. r\<lparr>rn_status := R_Cancelled, rn_updated := now\<rparr>) (runs s),
       outboxes := update_where (\<lambda>ob. list_ex (\<lambda>r. rn_id r = o_run ob \<and> task_run n s r) (runs s)
           \<and> o_status ob \<in> {O_Pending, O_Leased})
         (\<lambda>ob. ob\<lparr>o_status := O_Cancelled, o_token := None, o_until := None, o_updated := now\<rparr>)
         (outboxes s)\<rparr>"
  have i1: "reminder_inv s1"
  proof (rule inv_update_pair [OF inv, where s' = s1])
    show "same_reminders (s\<lparr>runs := update_where (\<lambda>r. task_run n s r \<and> rn_status r \<in> {R_Due, R_Claimed})
         (\<lambda>r. r\<lparr>rn_status := R_Cancelled, rn_updated := now\<rparr>) (runs s),
       outboxes := update_where (\<lambda>ob. list_ex (\<lambda>r. rn_id r = o_run ob \<and> task_run n s r) (runs s)
           \<and> o_status ob \<in> {O_Pending, O_Leased})
         (\<lambda>ob. ob\<lparr>o_status := O_Cancelled, o_token := None, o_until := None, o_updated := now\<rparr>)
         (outboxes s)\<rparr>) s1" by (simp add: s1_def same_reminders_def)
  next
    fix r ob assume l: "linked r ob" "r \<in> set (runs s)" "ob \<in> set (outboxes s)"
    have "list_ex (\<lambda>r. rn_id r = o_run ob \<and> task_run n s r) (runs s) \<longleftrightarrow> task_run n s r"
      using l distinct_map_unique [OF reminder_invD(4) [OF inv]]
      unfolding list_ex_iff linked_def by metis
    moreover have "pair_ok (rn_status r) (o_status ob)" using l(1) by (simp add: linked_def)
    ultimately show "pair_ok (rn_status (if task_run n s r \<and> rn_status r \<in> {R_Due, R_Claimed}
        then r\<lparr>rn_status := R_Cancelled, rn_updated := now\<rparr> else r))
      (o_status (if list_ex (\<lambda>r. rn_id r = o_run ob \<and> task_run n s r) (runs s)
          \<and> o_status ob \<in> {O_Pending, O_Leased}
        then ob\<lparr>o_status := O_Cancelled, o_token := None, o_until := None, o_updated := now\<rparr> else ob))"
      using pair_ok_open [of "rn_status r" "o_status ob"] by auto
  qed (auto simp: outbox_ok_def open_run_def)
  show ?thesis
  proof (rule inv_update_jobs [OF i1])
    show "same_reminders (s1\<lparr>tasks := update_where (\<lambda>t. tk_id t = n)
         (\<lambda>t. t\<lparr>tk_status := target, tk_updated := now\<rparr>) (tasks s1),
       jobs := update_where (\<lambda>j. j_task j = n \<and> j_status j \<notin> {J_Cancelled, J_Completed})
         (\<lambda>j. j\<lparr>j_status := jt, j_next := None, j_updated := now\<rparr>) (jobs s1)\<rparr>)
       (close_task_rows target jt now n s)"
      by (simp add: same_reminders_def close_task_rows_def s1_def)
  next
    fix t' j r
    assume a: "t' \<in> set (tasks s1)" "tk_id t' = n" "j \<in> set (jobs s1)" "j_task j = tk_id t'"
      "r \<in> set (runs s1)" "rn_job r = j_id j"
    obtain r0 where r0: "r = (if task_run n s r0 \<and> rn_status r0 \<in> {R_Due, R_Claimed}
        then r0\<lparr>rn_status := R_Cancelled, rn_updated := now\<rparr> else r0)"
      using in_update_where a(5) unfolding s1_def by fastforce
    then have "rn_job r0 = j_id j" using a(6) by (auto split: if_splits)
    then have "task_run n s r0" using a(2-4) by (auto simp: task_run_def list_ex_iff s1_def)
    then show "\<not> open_run r" using r0 by (auto simp: open_run_def)
  next
    fix j t' assume a: "j \<in> set (jobs s1)" "t' \<in> set (tasks s1)" "tk_id t' = j_task j"
      "status_ok (j_status j) (tk_status t')"
    have "t' = t" if "tk_id t' = n"
      using distinct_map_unique [OF reminder_invD(1) [OF inv], of t' t] row_by_Some [OF t] a(2) that
      by (simp add: s1_def)
    then show "status_ok (j_status (if j_task j = n \<and> j_status j \<notin> {J_Cancelled, J_Completed}
        then j\<lparr>j_status := jt, j_next := None, j_updated := now\<rparr> else j))
       (tk_status (if tk_id t' = n then t'\<lparr>tk_status := target, tk_updated := now\<rparr> else t'))"
      using a(3,4) nc target
      by (cases "j_status j"; cases "tk_status t'"; auto simp: closed_task_def)
  qed (use target in \<open>auto simp: job_row_ok_def unconfirmed_def\<close>)
qed

section \<open>Purge\<close>

lemma delete_where_cong:
  "(\<And>r. r \<in> set rows \<Longrightarrow> P r = Q r) \<Longrightarrow> delete_where P rows = delete_where Q rows"
  unfolding delete_where_def by (rule filter_cong) auto

lemma run_owner_job:
  assumes "reminder_inv s" and "r \<in> set (runs s)" and "j \<in> set (jobs s)" and "j_id j = rn_job r"
  shows "j_owner j = rn_owner r \<and> j_epoch j = rn_epoch r"
proof -
  obtain j' where j': "j' \<in> set (jobs s)" "j_id j' = rn_job r" "j_owner j' = rn_owner r"
    "j_epoch j' = rn_epoch r"
    using reminder_invD(12) [OF assms(1,2)] by (auto simp: run_row_ok_def)
  have "j' = j" by (rule distinct_map_unique [OF reminder_invD(2) [OF assms(1)] j'(1) assms(3)])
    (simp add: j' assms)
  with j' show ?thesis by simp
qed

text \<open>The cascade of a purge takes exactly the owner's rows of the four tables.\<close>

lemma delete_owner_tasks:
  assumes inv: "reminder_inv s"
  shows "delete_tasks (\<lambda>t. tk_owner t = owner) s =
    s\<lparr>tasks := delete_where (\<lambda>t. tk_owner t = owner) (tasks s),
      jobs := delete_where (\<lambda>j. j_owner j = owner) (jobs s),
      runs := delete_where (\<lambda>r. rn_owner r = owner) (runs s),
      outboxes := delete_where (\<lambda>ob. o_owner ob = owner) (outboxes s)\<rparr>"
proof -
  define PJ where "PJ = (\<lambda>j :: job. list_ex (\<lambda>t. tk_owner t = owner \<and> tk_id t = j_task j
      \<and> tk_owner t = j_owner j \<and> tk_epoch t = j_epoch j) (tasks s))"
  define PR where "PR = (\<lambda>r :: run. list_ex (\<lambda>j. PJ j \<and> j_id j = rn_job r \<and> j_owner j = rn_owner r
        \<and> j_epoch j = rn_epoch r) (jobs s))"
  define PO where "PO = (\<lambda>ob :: outbox. list_ex (\<lambda>r. PR r \<and> rn_id r = o_run ob \<and> rn_owner r = o_owner ob
        \<and> rn_epoch r = o_epoch ob) (runs s))"
  have pj: "PJ j \<longleftrightarrow> j_owner j = owner" if "j \<in> set (jobs s)" for j
    using reminder_invD(10) [OF inv that] by (auto simp: PJ_def job_task_ok_def list_ex_iff)
  have pr: "PR r \<longleftrightarrow> rn_owner r = owner" if m: "r \<in> set (runs s)" for r
  proof -
    obtain j where "j \<in> set (jobs s)" "j_id j = rn_job r" "j_owner j = rn_owner r" "j_epoch j = rn_epoch r"
      using reminder_invD(12) [OF inv m] by (auto simp: run_row_ok_def)
    with pj show ?thesis by (auto simp: PR_def list_ex_iff)
  qed
  have po: "PO ob \<longleftrightarrow> o_owner ob = owner" if m: "ob \<in> set (outboxes s)" for ob
  proof -
    obtain r where "r \<in> set (runs s)" "linked r ob"
      using list_all2_right [OF reminder_invD(7) [OF inv] m] by blast
    with pr show ?thesis by (auto simp: PO_def list_ex_iff linked_def)
  qed
  have "delete_tasks (\<lambda>t. tk_owner t = owner) s =
    s\<lparr>tasks := delete_where (\<lambda>t. tk_owner t = owner) (tasks s), jobs := delete_where PJ (jobs s),
      runs := delete_where PR (runs s), outboxes := delete_where PO (outboxes s)\<rparr>"
    by (cases s) (simp add: delete_tasks_def delete_jobs_def delete_runs_def PJ_def PR_def PO_def)
  with delete_where_cong [of "jobs s" PJ] delete_where_cong [of "runs s" PR]
    delete_where_cong [of "outboxes s" PO] pj pr po
  show ?thesis by simp
qed

lemma inv_purge:
  assumes inv: "reminder_inv s"
  shows "reminder_inv (delete_tasks (\<lambda>t. tk_owner t = owner) s)"
proof (subst delete_owner_tasks [OF inv], rule reminder_invI; simp)
  note D = reminder_invD [OF inv]
  show "distinct (map tk_id (delete_where (\<lambda>t. tk_owner t = owner) (tasks s)))"
    "distinct (map j_id (delete_where (\<lambda>j. j_owner j = owner) (jobs s)))"
    "distinct (map j_task (delete_where (\<lambda>j. j_owner j = owner) (jobs s)))"
    "distinct (map rn_id (delete_where (\<lambda>r. rn_owner r = owner) (runs s)))"
    "distinct (map o_id (delete_where (\<lambda>ob. o_owner ob = owner) (outboxes s)))"
    "distinct (map run_key (delete_where (\<lambda>r. rn_owner r = owner) (runs s)))"
    using D(1-6) by (auto intro: distinct_map_delete_where)
  show "list_all2 linked (delete_where (\<lambda>r. rn_owner r = owner) (runs s))
      (delete_where (\<lambda>ob. o_owner ob = owner) (outboxes s))"
    by (rule list_all2_delete_where [OF D(7)]) (auto simp: linked_def)
  show "outbox_ok ob" if "ob \<in> set (delete_where (\<lambda>ob. o_owner ob = owner) (outboxes s))" for ob
    using that D(8) by (simp add: set_delete_where)
  fix j assume "j \<in> set (delete_where (\<lambda>j. j_owner j = owner) (jobs s))"
  then have j: "j \<in> set (jobs s)" "j_owner j \<noteq> owner" by (simp_all add: set_delete_where)
  show "job_row_ok j" using D(9) [OF j(1)] .
  show "job_task_ok (delete_where (\<lambda>t. tk_owner t = owner) (tasks s)) j"
    using D(10) [OF j(1)] j(2) by (auto simp: job_task_ok_def set_delete_where)
  have "filter (\<lambda>r. rn_job r = j_id j \<and> rn_action r = None) (delete_where (\<lambda>r. rn_owner r = owner) (runs s))
      = filter (\<lambda>r. rn_job r = j_id j \<and> rn_action r = None) (runs s)"
    unfolding delete_where_def filter_filter
    by (rule filter_cong) (use run_owner_job [OF inv _ j(1)] j(2) in auto)
  then show "job_count_ok (delete_where (\<lambda>r. rn_owner r = owner) (runs s)) j"
    using D(11) [OF j(1)] by (simp add: job_count_ok_def emitted_runs_def count_where_def)
next
  note D = reminder_invD [OF inv]
  fix r assume "r \<in> set (delete_where (\<lambda>r. rn_owner r = owner) (runs s))"
  then have r: "r \<in> set (runs s)" "rn_owner r \<noteq> owner" by (simp_all add: set_delete_where)
  obtain j where j: "j \<in> set (jobs s)" "j_id j = rn_job r" "j_owner j = rn_owner r" "j_epoch j = rn_epoch r"
    and nu: "\<not> unconfirmed j"
    and op: "open_run r \<longrightarrow> (\<exists>t \<in> set (tasks s). tk_id t = j_task j \<and> \<not> closed_task t)"
    using D(12) [OF r(1)] by (auto simp: run_row_ok_def)
  have "\<exists>t \<in> set (delete_where (\<lambda>t. tk_owner t = owner) (tasks s)). tk_id t = j_task j \<and> \<not> closed_task t"
    if o: "open_run r"
  proof -
    obtain t where t: "t \<in> set (tasks s)" "tk_id t = j_task j" "\<not> closed_task t" using op o by blast
    obtain t' where t': "t' \<in> set (tasks s)" "tk_id t' = j_task j" "tk_owner t' = j_owner j"
      using D(10) [OF j(1)] by (auto simp: job_task_ok_def)
    have "t' = t" using distinct_map_unique [OF D(1) t'(1) t(1)] t t' by simp
    with t t' j r show ?thesis by (auto simp: set_delete_where)
  qed
  then show "run_row_ok (delete_where (\<lambda>t. tk_owner t = owner) (tasks s))
      (delete_where (\<lambda>j. j_owner j = owner) (jobs s)) r"
    unfolding run_row_ok_def using j r nu by (intro bexI [of _ j]) (auto simp: set_delete_where)
qed

section \<open>New drafts\<close>

lemma job_count_zero:
  assumes "reminder_inv s"
  shows "emitted_runs (next_rowid j_id (jobs s)) (runs s) = 0"
proof -
  have "\<not> (\<exists>r \<in> set (runs s). rn_job r = next_rowid j_id (jobs s) \<and> rn_action r = None)"
  proof
    assume "\<exists>r \<in> set (runs s). rn_job r = next_rowid j_id (jobs s) \<and> rn_action r = None"
    then obtain r where r: "r \<in> set (runs s)" "rn_job r = next_rowid j_id (jobs s)" by blast
    obtain j where "j \<in> set (jobs s)" "j_id j = rn_job r"
      using reminder_invD(12) [OF assms r(1)] by (auto simp: run_row_ok_def)
    with r(2) next_rowid_fresh [of j_id "jobs s"] show False by (metis image_eqI)
  qed
  then show ?thesis unfolding emitted_runs_def using count_where_pos by blast
qed

lemma inv_append_draft:
  assumes inv: "reminder_inv s" and rule: "rule_ok (dr_rule d)"
    and t: "t = insert_task d epoch now s" and j: "j = insert_job d start (tk_id t) epoch now s"
    and s': "same_reminders (s\<lparr>tasks := tasks s @ [t], jobs := jobs s @ [j]\<rparr>) s'"
  shows "reminder_inv s'"
proof (rule reminder_inv_same [OF s'], rule reminder_invI; (simp del: map_append set_append)?)
  note D = reminder_invD [OF inv]
  have tid: "tk_id t = next_rowid tk_id (tasks s)" and jid: "j_id j = next_rowid j_id (jobs s)"
    and jt: "j_task j = tk_id t"
    by (simp_all add: t j insert_task_def insert_job_def)
  show "distinct (map tk_id (tasks s @ [t]))"
    by (rule distinct_map_append_fresh [OF D(1)]) (unfold tid, rule next_rowid_fresh)
  show "distinct (map j_id (jobs s @ [j]))"
    by (rule distinct_map_append_fresh [OF D(2)]) (unfold jid, rule next_rowid_fresh)
  have "tk_id t \<notin> j_task ` set (jobs s)"
  proof
    assume "tk_id t \<in> j_task ` set (jobs s)"
    then obtain k where k: "k \<in> set (jobs s)" "tk_id t = j_task k" by blast
    then obtain t' where "t' \<in> set (tasks s)" "tk_id t' = tk_id t"
      using D(10) [OF k(1)] by (auto simp: job_task_ok_def)
    then show False using next_rowid_fresh [of tk_id "tasks s"] unfolding tid by (metis image_eqI)
  qed
  then show "distinct (map j_task (jobs s @ [j]))"
    by (intro distinct_map_append_fresh [OF D(3)]) (unfold jt)
  show "distinct (map rn_id (runs s))" "distinct (map o_id (outboxes s))"
    "distinct (map run_key (runs s))" "list_all2 linked (runs s) (outboxes s)" by (fact D)+
  show "outbox_ok ob" if "ob \<in> set (outboxes s)" for ob by (rule D(8) [OF that])
  have "1 \<le> c" if "r_count (dr_rule d) = Some c" for c
    using rule that by (simp add: rule_ok_def)
  then have new: "job_row_ok j"
    using rule by (fastforce simp: j insert_job_def job_row_ok_def)
  have "job_task_ok [t] j" by (simp add: job_task_ok_def j t insert_job_def insert_task_def)
  then have new': "job_task_ok (tasks s @ [t]) j" by (auto simp: job_task_ok_def)
  have new'': "job_count_ok (runs s) j"
    using job_count_zero [OF inv] by (simp add: job_count_ok_def j insert_job_def)
  have mono: "job_task_ok (tasks s @ [t]) k" if "job_task_ok (tasks s) k" for k
    using that by (auto simp: job_task_ok_def)
  show "job_row_ok k" "job_task_ok (tasks s @ [t]) k" "job_count_ok (runs s) k"
    if "k \<in> set (jobs s @ [j])" for k
    using that D(9-11) new new' new'' mono by (cases "k = j"; simp)+
  show "run_row_ok (tasks s @ [t]) (jobs s @ [j]) r" if "r \<in> set (runs s)" for r
    using D(12) [OF that] by (auto simp: run_row_ok_def)
qed

section \<open>New runs\<close>

lemma update_where_ident [simp]: "update_where P (\<lambda>x. x) rows = rows"
  by (simp add: update_where_def)

lemma distinct_run_key_append:
  assumes "distinct (map run_key (runs s))" and "\<not> run_exists (rn_job r) (rn_scheduled r) s"
  shows "distinct (map run_key (runs s @ [r]))"
  using assms by (auto simp: run_key_def run_exists_def list_ex_iff)

text \<open>
  A new pair of rows for a job, together with the advance of the job (and a change of its
  task), keeps the invariant; a scheduled run counts, a snoozed one does not.
\<close>

lemma inv_insert_run:
  assumes inv: "reminder_inv s" and j: "j \<in> set (jobs s)" and t: "t \<in> set (tasks s)" "tk_id t = j_task j"
    and r: "rn_id r = next_rowid rn_id (runs s)" "rn_job r = j_id j" "rn_owner r = j_owner j"
      "rn_epoch r = j_epoch j" "\<not> run_exists (j_id j) (rn_scheduled r) s"
    and ob: "o_id ob = next_rowid o_id (outboxes s)" "linked r ob" "outbox_ok ob"
    and f: "j_id (f j) = j_id j" "j_task (f j) = j_task j" "j_owner (f j) = j_owner j"
      "j_epoch (f j) = j_epoch j" "job_row_ok (f j)"
      "j_emitted (f j) = j_emitted j + (if rn_action r = None then 1 else 0)"
    and conf: "\<not> unconfirmed (f j)"
    and g: "tk_id (g t) = tk_id t" "tk_owner (g t) = tk_owner t" "tk_epoch (g t) = tk_epoch t"
      "status_ok (j_status (f j)) (tk_status (g t))" "\<not> closed_task (g t)"
    and s': "same_reminders (s\<lparr>tasks := update_where (\<lambda>x. tk_id x = j_task j) g (tasks s),
      jobs := update_where (\<lambda>x. j_id x = j_id j) f (jobs s),
      runs := runs s @ [r], outboxes := outboxes s @ [ob]\<rparr>) s'"
  shows "reminder_inv s'"
proof (rule reminder_inv_same [OF s'], rule reminder_invI; (simp del: map_append set_append)?)
  note D = reminder_invD [OF inv]
  define TS JS where "TS = update_where (\<lambda>x. tk_id x = j_task j) g (tasks s)"
    and "JS = update_where (\<lambda>x. j_id x = j_id j) f (jobs s)"
  have uj: "k = j" if "k \<in> set (jobs s)" "j_id k = j_id j" for k
    using distinct_map_unique [OF D(2) that(1) j that(2)] .
  have ut: "x = t" if "x \<in> set (tasks s)" "tk_id x = j_task j" for x
    using distinct_map_unique [OF D(1) that(1) t(1)] that(2) t(2) by simp
  have JS: "JS = map (\<lambda>k. if k = j then f j else k) (jobs s)"
    unfolding JS_def update_where_def by (rule map_cong [OF refl]) (metis uj)
  have TS: "TS = map (\<lambda>x. if x = t then g t else x) (tasks s)"
    unfolding TS_def update_where_def by (rule map_cong [OF refl]) (metis ut t(2))
  show "distinct (map tk_id TS)" "distinct (map j_id JS)" "distinct (map j_task JS)"
  proof -
    have "map tk_id TS = map tk_id (tasks s)" unfolding TS using g(1) by auto
    then show "distinct (map tk_id TS)" using D(1) by simp
    have "map j_id JS = map j_id (jobs s)" "map j_task JS = map j_task (jobs s)"
      unfolding JS using f by auto
    then show "distinct (map j_id JS)" "distinct (map j_task JS)" using D(2,3) by simp_all
  qed
  show "distinct (map rn_id (runs s @ [r]))"
    by (rule distinct_map_append_fresh [OF D(4)]) (unfold r(1), rule next_rowid_fresh)
  show "distinct (map o_id (outboxes s @ [ob]))"
    by (rule distinct_map_append_fresh [OF D(5)]) (unfold ob(1), rule next_rowid_fresh)
  show "distinct (map run_key (runs s @ [r]))"
    by (rule distinct_run_key_append [OF D(6)]) (use r in simp)
  show "list_all2 linked (runs s @ [r]) (outboxes s @ [ob])"
    using D(7) ob(2) by (simp add: list_all2_appendI)
  show "outbox_ok x" if "x \<in> set (outboxes s @ [ob])" for x
    using that D(8) ob(3) by auto
  show "job_row_ok k" if "k \<in> set JS" for k
    using that D(9) f(5) by (auto simp: JS)
  show "job_task_ok TS k" if k: "k \<in> set JS" for k
  proof -
    obtain k0 where k0: "k0 \<in> set (jobs s)" "k = (if k0 = j then f j else k0)"
      using k by (auto simp: JS)
    obtain x where x: "x \<in> set (tasks s)" "tk_id x = j_task k0" "tk_owner x = j_owner k0"
      "tk_epoch x = j_epoch k0" "status_ok (j_status k0) (tk_status x)"
      using D(10) [OF k0(1)] by (auto simp: job_task_ok_def)
    have x': "(if x = t then g t else x) \<in> set TS" using x(1) by (auto simp: TS)
    have "k0 = j \<longleftrightarrow> x = t"
    proof
      assume "x = t"
      then have "j_task k0 = j_task j" using x(2) t(2) by simp
      then show "k0 = j" using distinct_map_unique [OF D(3) k0(1) j] by simp
    next
      assume "k0 = j"
      with x(2) show "x = t" by (intro ut [OF x(1)]) simp
    qed
    then show ?thesis unfolding job_task_ok_def
      using x' k0(2) x f g by (intro bexI [OF _ x']) auto
  qed
  show "job_count_ok (runs s @ [r]) k" if k: "k \<in> set JS" for k
  proof -
    obtain k0 where k0: "k0 \<in> set (jobs s)" "k = (if k0 = j then f j else k0)"
      using k by (auto simp: JS)
    have app: "emitted_runs n (runs s @ [r])
        = emitted_runs n (runs s) + (if rn_job r = n \<and> rn_action r = None then 1 else 0)" for n
      by (simp add: emitted_runs_def)
    note c = D(11) [OF k0(1), unfolded job_count_ok_def]
    show ?thesis
    proof (cases "k0 = j")
      case True
      with k0(2) have "k = f j" by simp
      then show ?thesis using c f(1,6) r(2) unfolding True job_count_ok_def app by simp
    next
      case False
      with uj [OF k0(1)] have "j_id k0 \<noteq> j_id j" by metis
      with False k0(2) c r(2) show ?thesis unfolding job_count_ok_def app by simp
    qed
  qed
  show "run_row_ok TS JS x" if x: "x \<in> set (runs s @ [r])" for x
  proof (cases "x = r")
    case True
    have "f j \<in> set JS" using j by (auto simp: JS)
    moreover have "g t \<in> set TS" using t(1) by (auto simp: TS)
    ultimately show ?thesis unfolding run_row_ok_def True using r f g conf t(2) by (intro bexI [of _ "f j"]) auto
  next
    case False
    with x have "x \<in> set (runs s)" by simp
    then obtain k where k: "k \<in> set (jobs s)" "j_id k = rn_job x" "j_owner k = rn_owner x" "j_epoch k = rn_epoch x"
      and nu: "\<not> unconfirmed k" and op: "open_run x \<longrightarrow> (\<exists>y \<in> set (tasks s). tk_id y = j_task k \<and> \<not> closed_task y)"
      using D(12) unfolding run_row_ok_def by blast
    have k': "(if k = j then f j else k) \<in> set JS" using k(1) by (auto simp: JS)
    have "open_run x \<longrightarrow> (\<exists>y \<in> set TS. tk_id y = j_task k \<and> \<not> closed_task y)"
    proof
      assume "open_run x"
      with op obtain y where y: "y \<in> set (tasks s)" "tk_id y = j_task k" "\<not> closed_task y" by blast
      have "(if y = t then g t else y) \<in> set TS" using y(1) by (auto simp: TS)
      with y g show "\<exists>y \<in> set TS. tk_id y = j_task k \<and> \<not> closed_task y"
        by (intro bexI [of _ "if y = t then g t else y"]) auto
    qed
    then show ?thesis unfolding run_row_ok_def using k f nu conf by (intro bexI [OF _ k']) auto
  qed
qed

section \<open>Materialisation\<close>

lemma advance_job_cursor_Inr:
  assumes "advance_job_cursor zones now j scheduled s = Inr s'"
  shows "s' = complete_job now (j_emitted j + 1) j s
    \<or> s' = review_job now (j_emitted j + 1) j s
    \<or> (\<exists>utc. s' = set_job (j_id j) (\<lambda>r. r\<lparr>j_next := Some utc, j_emitted := j_emitted j + 1,
          j_updated := now\<rparr>) s \<and> (\<forall>c. r_count (j_rule j) = Some c \<longrightarrow> j_emitted j + 1 < c))"
proof -
  obtain z w fl where
    n: "next_occurrence (j_rule j) (Naive (j_start j)) (Some (Naive w)) (j_emitted j + 1) = Inr fl"
    and c: "(case fl of None \<Rightarrow> Inr (complete_job now (j_emitted j + 1) j s)
       | Some w \<Rightarrow>
          (case resolve_local_time zones (Naive w) (j_timezone j) of
             Inl (LocalTimeResolutionError _) \<Rightarrow> Inr (review_job now (j_emitted j + 1) j s)
           | Inl e \<Rightarrow> Inl e
           | Inr utc \<Rightarrow> Inr (set_job (j_id j) (\<lambda>r. r\<lparr>j_next := Some utc,
               j_emitted := j_emitted j + 1, j_updated := now\<rparr>) s))) = (Inr s' :: db result)"
    using assms unfolding advance_job_cursor_def result_simps by blast
  show ?thesis
  proof (cases fl)
    case None
    with c show ?thesis by simp
  next
    case (Some v)
    with n have "\<forall>c. r_count (j_rule j) = Some c \<longrightarrow> j_emitted j + 1 < c"
      by (auto simp: next_occurrence_def next_wall_Some)
    with c Some show ?thesis by (auto split: sum.splits py_error.splits)
  qed
qed

lemma linked_new:
  "pair_ok rst ost \<Longrightarrow> linked (new_run j scheduled rst err action now s)
     (new_outbox (rn_id (new_run j scheduled rst err action now s)) j t scheduled available ost now s)"
  by (simp add: linked_def new_run_def new_outbox_def)

lemma outbox_ok_new: "ost \<in> {O_Pending, O_Cancelled} \<Longrightarrow>
    outbox_ok (new_outbox rid j t scheduled available ost now s)"
  by (auto simp: outbox_ok_def new_outbox_def max_delivery_attempts_def)

lemma job_task_row:
  assumes "reminder_inv s" and "j \<in> set (jobs s)"
  shows "\<exists>t \<in> set (tasks s). tk_id t = j_task j \<and> status_ok (j_status j) (tk_status t)"
  using reminder_invD(10) [OF assms] by (auto simp: job_task_ok_def)

text \<open>What one round does to the database: nothing, or one new pair and the advance of the job.\<close>

definition emitted_step :: "zone_db \<Rightarrow> int \<Rightarrow> job \<Rightarrow> task \<Rightarrow> db \<Rightarrow> db \<Rightarrow> bool" where
  "emitted_step zones now j t s s' \<longleftrightarrow>
     (\<exists>missed failed available f g.
       s' = s\<lparr>tasks := update_where (\<lambda>x. tk_id x = j_task j) g (tasks s),
              jobs := update_where (\<lambda>x. j_id x = j_id j) f (jobs s),
              runs := runs s @ [new_run j (next_of j) (if missed then R_Missed else R_Due)
                (if failed then Some (u ''quiet_hours_invalid'') else None) None now s],
              outboxes := outboxes s @ [new_outbox (next_rowid rn_id (runs s)) j t (next_of j)
                available (if missed then O_Cancelled else O_Pending) now s]\<rparr>
       \<and> \<not> run_exists (j_id j) (next_of j) s
       \<and> (\<forall>x. tk_id (g x) = tk_id x \<and> tk_owner (g x) = tk_owner x \<and> tk_epoch (g x) = tk_epoch x)
       \<and> j_id (f j) = j_id j \<and> j_task (f j) = j_task j \<and> j_owner (f j) = j_owner j
       \<and> j_epoch (f j) = j_epoch j \<and> j_emitted (f j) = j_emitted j + 1
       \<and> (job_row_ok j \<longrightarrow> j_status j = J_Active \<longrightarrow> job_row_ok (f j) \<and> \<not> unconfirmed (f j))
       \<and> (j_status j = J_Active \<longrightarrow> (\<forall>x. tk_status x = T_Active \<longrightarrow>
            status_ok (j_status (f j)) (tk_status (g x)) \<and> \<not> closed_task (g x))))"

lemma materialize_one_Inr:
  assumes "materialize_one zones now (j, t) s = Inr (rs, s')"
  shows "(rs = [] \<and> s' = s \<and> run_exists (j_id j) (next_of j) s) \<or> emitted_step zones now j t s s'"
proof -
  obtain available failed missed where
    c: "(if run_exists (j_id j) (next_of j) s then Inr ([], s)
      else record_occurrence zones now j t available failed missed s) = Inr (rs, s')"
    using assms unfolding materialize_one_def prod.case bindE_eq_Inr
    by (auto simp: bindE_eq_Inr)
  show ?thesis
  proof (cases "run_exists (j_id j) (next_of j) s")
    case True
    with c show ?thesis by simp
  next
    case False
    define r where "r = new_run j (next_of j) (if missed then R_Missed else R_Due)
              (if failed then Some (u ''quiet_hours_invalid'') else None) None now s"
    define ob where "ob = new_outbox (rn_id r) j t (next_of j) available
              (if missed then O_Cancelled else O_Pending) now s"
    have rid: "rn_id r = next_rowid rn_id (runs s)" by (simp add: r_def new_run_def)
    have a: "(if failed then Inr (mark_job_needs_review now j (insert_run r ob s))
        else advance_job_cursor zones now j (next_of j) (insert_run r ob s)) = Inr s'"
      and rs: "rs = [r]"
      using c False unfolding record_occurrence_def Let_def r_def [symmetric] ob_def [symmetric]
      by (simp_all only: if_False result_simps) auto
    have ex: "\<exists>f g. s' = set_task (j_task j) g (set_job (j_id j) f (insert_run r ob s))
       \<and> (\<forall>x. tk_id (g x) = tk_id x \<and> tk_owner (g x) = tk_owner x \<and> tk_epoch (g x) = tk_epoch x)
       \<and> j_id (f j) = j_id j \<and> j_task (f j) = j_task j \<and> j_owner (f j) = j_owner j
       \<and> j_epoch (f j) = j_epoch j \<and> j_emitted (f j) = j_emitted j + 1
       \<and> (job_row_ok j \<longrightarrow> j_status j = J_Active \<longrightarrow> job_row_ok (f j) \<and> \<not> unconfirmed (f j))
       \<and> (j_status j = J_Active \<longrightarrow> (\<forall>x. tk_status x = T_Active \<longrightarrow>
            status_ok (j_status (f j)) (tk_status (g x)) \<and> \<not> closed_task (g x)))"
    proof (cases failed)
      case True
      with a show ?thesis
        by (intro exI [of _ "\<lambda>r. r\<lparr>j_status := J_NeedsReview, j_next := None,
            j_emitted := j_emitted r + 1, j_updated := now\<rparr>"]
            exI [of _ "\<lambda>r. r\<lparr>tk_status := T_NeedsReview, tk_updated := now\<rparr>"])
          (auto simp: mark_job_needs_review_def job_row_ok_def unconfirmed_def closed_task_def)
    next
      case False
      with a have "advance_job_cursor zones now j (next_of j) (insert_run r ob s) = Inr s'" by simp
      from advance_job_cursor_Inr [OF this] show ?thesis
      proof (elim disjE exE conjE)
        assume "s' = complete_job now (j_emitted j + 1) j (insert_run r ob s)"
        then show ?thesis
          by (intro exI [of _ "\<lambda>r. r\<lparr>j_status := J_Completed, j_next := None,
              j_emitted := j_emitted j + 1, j_updated := now\<rparr>"] exI [of _ "\<lambda>x. x"])
            (auto simp: complete_job_def job_row_ok_def unconfirmed_def closed_task_def set_task_def)
      next
        assume "s' = review_job now (j_emitted j + 1) j (insert_run r ob s)"
        then show ?thesis
          by (intro exI [of _ "\<lambda>r. r\<lparr>j_status := J_NeedsReview, j_next := None,
              j_emitted := j_emitted j + 1, j_updated := now\<rparr>"]
              exI [of _ "\<lambda>r. r\<lparr>tk_status := T_NeedsReview, tk_updated := now\<rparr>"])
            (auto simp: review_job_def job_row_ok_def unconfirmed_def closed_task_def)
      next
        fix utc assume "s' = set_job (j_id j) (\<lambda>r. r\<lparr>j_next := Some utc,
            j_emitted := j_emitted j + 1, j_updated := now\<rparr>) (insert_run r ob s)"
          and "\<forall>c. r_count (j_rule j) = Some c \<longrightarrow> j_emitted j + 1 < c"
        then show ?thesis
          by (intro exI [of _ "\<lambda>r. r\<lparr>j_next := Some utc, j_emitted := j_emitted j + 1,
              j_updated := now\<rparr>"] exI [of _ "\<lambda>x. x"])
            (auto simp: job_row_ok_def unconfirmed_def closed_task_def set_task_def)
      qed
    qed
    then obtain f g where fg: "s' = set_task (j_task j) g (set_job (j_id j) f (insert_run r ob s))"
      and keep: "(\<forall>x. tk_id (g x) = tk_id x \<and> tk_owner (g x) = tk_owner x \<and> tk_epoch (g x) = tk_epoch x)
       \<and> j_id (f j) = j_id j \<and> j_task (f j) = j_task j \<and> j_owner (f j) = j_owner j
       \<and> j_epoch (f j) = j_epoch j \<and> j_emitted (f j) = j_emitted j + 1
       \<and> (job_row_ok j \<longrightarrow> j_status j = J_Active \<longrightarrow> job_row_ok (f j) \<and> \<not> unconfirmed (f j))
       \<and> (j_status j = J_Active \<longrightarrow> (\<forall>x. tk_status x = T_Active \<longrightarrow>
            status_ok (j_status (f j)) (tk_status (g x)) \<and> \<not> closed_task (g x)))" by blast
    have "s' = s\<lparr>tasks := update_where (\<lambda>x. tk_id x = j_task j) g (tasks s),
              jobs := update_where (\<lambda>x. j_id x = j_id j) f (jobs s),
              runs := runs s @ [r], outboxes := outboxes s @ [ob]\<rparr>"
      unfolding fg by (cases s) (simp add: set_task_def set_job_def insert_run_def)
    then have "emitted_step zones now j t s s'"
      unfolding emitted_step_def r_def ob_def rid using False keep
      by (intro exI [of _ missed] exI [of _ failed] exI [of _ available] exI [of _ f] exI [of _ g])
        (simp add: new_run_def)
    then show ?thesis by blast
  qed
qed

lemma inv_emitted_step:
  assumes inv: "reminder_inv s" and j: "j \<in> set (jobs s)" "j_status j = J_Active"
    and e: "emitted_step zones now j t s s'"
  shows "reminder_inv s'"
proof -
  obtain missed failed available f g where
    s': "s' = s\<lparr>tasks := update_where (\<lambda>x. tk_id x = j_task j) g (tasks s),
              jobs := update_where (\<lambda>x. j_id x = j_id j) f (jobs s),
              runs := runs s @ [new_run j (next_of j) (if missed then R_Missed else R_Due)
                (if failed then Some (u ''quiet_hours_invalid'') else None) None now s],
              outboxes := outboxes s @ [new_outbox (next_rowid rn_id (runs s)) j t (next_of j)
                available (if missed then O_Cancelled else O_Pending) now s]\<rparr>"
    and ne: "\<not> run_exists (j_id j) (next_of j) s"
    and g: "\<And>x. tk_id (g x) = tk_id x" "\<And>x. tk_owner (g x) = tk_owner x" "\<And>x. tk_epoch (g x) = tk_epoch x"
    and f: "j_id (f j) = j_id j" "j_task (f j) = j_task j" "j_owner (f j) = j_owner j"
      "j_epoch (f j) = j_epoch j" "j_emitted (f j) = j_emitted j + 1"
    and row: "job_row_ok j \<longrightarrow> j_status j = J_Active \<longrightarrow> job_row_ok (f j) \<and> \<not> unconfirmed (f j)"
    and st: "j_status j = J_Active \<longrightarrow> (\<forall>x. tk_status x = T_Active \<longrightarrow>
            status_ok (j_status (f j)) (tk_status (g x)) \<and> \<not> closed_task (g x))"
    using e unfolding emitted_step_def by blast
  obtain t0 where t0: "t0 \<in> set (tasks s)" "tk_id t0 = j_task j" "status_ok (j_status j) (tk_status t0)"
    using job_task_row [OF inv j(1)] by blast
  then have ta: "tk_status t0 = T_Active" using j(2) by (cases "tk_status t0") auto
  show ?thesis
  proof (rule inv_insert_run [OF inv j(1) t0(1,2), where f = f and g = g])
    show "linked (new_run j (next_of j) (if missed then R_Missed else R_Due)
                (if failed then Some (u ''quiet_hours_invalid'') else None) None now s)
          (new_outbox (next_rowid rn_id (runs s)) j t (next_of j)
                available (if missed then O_Cancelled else O_Pending) now s)"
      by (simp add: linked_def new_run_def new_outbox_def)
    show "outbox_ok (new_outbox (next_rowid rn_id (runs s)) j t (next_of j)
                available (if missed then O_Cancelled else O_Pending) now s)"
      by (rule outbox_ok_new) simp
  qed (use ne f g row st ta j reminder_invD(9) [OF inv j(1)] in
      \<open>auto simp: s' same_reminders_def new_run_def new_outbox_def\<close>)
qed

lemma emitted_step_frame:
  assumes "emitted_step zones now j t s s'" and "k \<in> set (jobs s)" and "j_id k \<noteq> j_id j"
  shows "k \<in> set (jobs s')"
proof -
  obtain f where "jobs s' = update_where (\<lambda>x. j_id x = j_id j) f (jobs s)"
    using assms(1) by (auto simp: emitted_step_def)
  then show ?thesis using assms(2,3) by (auto simp: set_update_where image_iff)
qed

lemma emitted_step_runs:
  assumes "emitted_step zones now j t s s'"
  shows "\<exists>r. runs s' = runs s @ [r] \<and> run_key r = (j_id j, next_of j) \<and> rn_action r = None
    \<and> rn_owner r = j_owner j \<and> rn_epoch r = j_epoch j \<and> rn_status r \<in> {R_Due, R_Missed}"
  using assms by (auto simp: emitted_step_def run_key_def new_run_def)

lemma run_exists_append:
  "runs s' = runs s @ [r] \<Longrightarrow> rn_job r \<noteq> n \<Longrightarrow> run_exists n x s' = run_exists n x s"
  by (simp add: run_exists_def)

lemma materialize_one_rs:
  assumes "materialize_one zones now (j, t) s = Inr (rs, s')"
  shows "runs s' = runs s @ rs"
    and "map run_key rs = (if run_exists (j_id j) (next_of j) s then [] else [(j_id j, next_of j)])"
proof -
  obtain available failed missed where
    c: "(if run_exists (j_id j) (next_of j) s then Inr ([], s)
      else record_occurrence zones now j t available failed missed s) = Inr (rs, s')"
    using assms unfolding materialize_one_def prod.case bindE_eq_Inr
    by (auto simp: bindE_eq_Inr)
  show "runs s' = runs s @ rs"
    using c by (auto simp: record_occurrence_def Let_def bindE_eq_Inr insert_run_def
        mark_job_needs_review_def set_job_def set_task_def complete_job_def review_job_def
        dest!: advance_job_cursor_Inr split: if_splits)
  show "map run_key rs = (if run_exists (j_id j) (next_of j) s then [] else [(j_id j, next_of j)])"
    using c by (auto simp: record_occurrence_def Let_def bindE_eq_Inr run_key_def new_run_def
        split: if_splits)
qed

lemma materialize_jobs_Inr:
  assumes "reminder_inv s" and "distinct (map (j_id \<circ> fst) jts)"
    and "\<And>j t. (j, t) \<in> set jts \<Longrightarrow> j \<in> set (jobs s) \<and> j_status j = J_Active"
    and "materialize_jobs zones now jts s = Inr (rs, s')"
  shows "reminder_inv s' \<and> runs s' = runs s @ rs
    \<and> map run_key rs = map (\<lambda>(j, t). (j_id j, next_of j))
        (filter (\<lambda>(j, t). \<not> run_exists (j_id j) (next_of j) s) jts)"
  using assms
proof (induction jts arbitrary: s rs)
  case (Cons jt jts)
  obtain j t where jt: "jt = (j, t)" by (cases jt)
  obtain rs1 s1 rs2 where m1: "materialize_one zones now (j, t) s = Inr (rs1, s1)"
    and m2: "materialize_jobs zones now jts s1 = Inr (rs2, s')" and rs: "rs = rs1 @ rs2"
    using Cons.prems(4) unfolding jt by (auto simp: bindE_eq_Inr)
  have j: "j \<in> set (jobs s)" "j_status j = J_Active" using Cons.prems(3) jt by auto
  note k = materialize_one_rs [OF m1]
  from materialize_one_Inr [OF m1] have inv1: "reminder_inv s1"
    using inv_emitted_step [OF Cons.prems(1) j] Cons.prems(1) by blast
  have other: "x \<in> set (jobs s1) \<and> j_status x = J_Active" if "(x, y) \<in> set jts" for x y
  proof -
    have "x \<in> set (jobs s)" "j_status x = J_Active" "j_id x \<noteq> j_id j"
      using that Cons.prems(2) Cons.prems(3) [of x y] jt by (auto simp: rev_image_eqI)
    with materialize_one_Inr [OF m1] emitted_step_frame show ?thesis by blast
  qed
  have d: "distinct (map (j_id \<circ> fst) jts)" using Cons.prems(2) by (simp add: comp_def)
  note IH = Cons.IH [OF inv1 d other m2]
  have same: "run_exists (j_id x) n s1 = run_exists (j_id x) n s" if "(x, y) \<in> set jts" for x y n
  proof -
    have "j_id x \<noteq> j_id j" using that Cons.prems(2) jt by (auto simp: rev_image_eqI)
    with materialize_one_Inr [OF m1] show ?thesis
      using emitted_step_runs run_exists_append by (fastforce simp: run_key_def)
  qed
  have "filter (\<lambda>(j, t). \<not> run_exists (j_id j) (next_of j) s1) jts
      = filter (\<lambda>(j, t). \<not> run_exists (j_id j) (next_of j) s) jts"
    by (rule filter_cong) (use same in auto)
  with IH k show ?case unfolding jt rs by auto
qed simp

lemma due_jobs_mem:
  assumes "(j, t) \<in> set (due_jobs now n s)"
  shows "j \<in> set (jobs s)" "job_due now s j" "task_of s (j_task j) = Some t"
proof -
  obtain k where k: "k \<in> set (take n (sort_key (\<lambda>j. (next_of j, j_id j)) (filter (job_due now s) (jobs s))))"
    "(j, t) \<in> set (case task_of s (j_task k) of None \<Rightarrow> [] | Some t \<Rightarrow> [(k, t)])"
    using assms unfolding due_jobs_def by auto
  have "k \<in> set (jobs s) \<and> job_due now s k"
    using set_take_subset [of n] k(1) by force
  with k(2) show "j \<in> set (jobs s)" "job_due now s j" "task_of s (j_task j) = Some t"
    by (auto split: option.splits)
qed

lemma due_jobs_fst:
  "map fst (due_jobs now n s) = take n (sort_key (\<lambda>j. (next_of j, j_id j)) (filter (job_due now s) (jobs s)))"
proof -
  have "map fst (concat (map (\<lambda>j. case task_of s (j_task j) of None \<Rightarrow> [] | Some t \<Rightarrow> [(j, t)]) js)) = js"
    if "\<forall>j \<in> set js. job_due now s j" for js
    using that by (induction js) (auto simp: job_due_def split: option.splits)
  moreover have "\<forall>j \<in> set (take n (sort_key (\<lambda>j. (next_of j, j_id j)) (filter (job_due now s) (jobs s)))).
      job_due now s j"
    using set_take_subset [of n] by force
  ultimately show ?thesis unfolding due_jobs_def by blast
qed

lemma due_jobs_distinct:
  assumes "reminder_inv s"
  shows "distinct (map (j_id \<circ> fst) (due_jobs now n s))"
proof -
  have "distinct (map j_id (sort_key (\<lambda>j. (next_of j, j_id j)) (filter (job_due now s) (jobs s))))"
  proof -
    have "distinct (map j_id (filter (job_due now s) (jobs s)))"
      using reminder_invD(2) [OF assms] by (rule distinct_map_filter)
    then show ?thesis by (simp only: distinct_map distinct_sort set_sort)
  qed
  then have "distinct (take n (map j_id (sort_key (\<lambda>j. (next_of j, j_id j)) (filter (job_due now s) (jobs s)))))"
    by (rule distinct_take)
  then show ?thesis unfolding map_map [symmetric] due_jobs_fst by (simp add: take_map)
qed

section \<open>The lease loop\<close>

definition past_deadline :: "int \<Rightarrow> db \<Rightarrow> outbox \<Rightarrow> bool" where
  "past_deadline now s ob \<longleftrightarrow> (case delivery_deadline ob s of Inl _ \<Rightarrow> False | Inr d \<Rightarrow> d < now)"

lemma delivery_deadline_expire [simp]:
  "delivery_deadline ob' (expire_outbox now ob s) = delivery_deadline ob' s"
  by (simp add: delivery_deadline_def)

lemma past_deadline_expire [simp]: "past_deadline t (expire_outbox now ob s) = past_deadline t s"
  by (rule ext) (simp add: past_deadline_def)

lemma outboxes_expire_mem:
  "x \<in> set (outboxes (expire_outbox now ob s)) \<Longrightarrow> o_status x \<noteq> O_Cancelled \<Longrightarrow>
     x \<in> set (outboxes s) \<and> o_id x \<noteq> o_id ob"
  "x \<in> set (outboxes s) \<Longrightarrow> o_id x \<noteq> o_id ob \<Longrightarrow> x \<in> set (outboxes (expire_outbox now ob s))"
  by (auto simp: set_update_where)

lemma outbox_job_exists:
  assumes "reminder_inv s" and "ob \<in> set (outboxes s)"
  shows "\<exists>j. outbox_job ob s = Some j"
proof -
  obtain r where r: "r \<in> set (runs s)" "run_of s (o_run ob) = Some r"
    using linked_unique_run [OF assms] by blast
  obtain j where "j \<in> set (jobs s)" "j_id j = rn_job r"
    using reminder_invD(12) [OF assms(1) r(1)] by (auto simp: run_row_ok_def)
  then have "job_of s (rn_job r) = Some j"
    using row_by_unique [OF reminder_invD(2) [OF assms(1)]] by metis
  with r(2) show ?thesis by (simp add: outbox_job_def)
qed

lemma outbox_job_grant [simp]: "outbox_job ob' (grant_outbox now lu token ob s) = outbox_job ob' s"
proof -
  have "runs (grant_outbox now lu token ob s) = update_where
      (\<lambda>r. rn_id r = o_run ob \<and> rn_status r \<in> {R_Due, R_Claimed})
      (\<lambda>r. r\<lparr>rn_status := R_Claimed, rn_claimed := Some now, rn_updated := now\<rparr>) (runs s)"
    "jobs (grant_outbox now lu token ob s) = jobs s"
    by (simp_all add: grant_outbox_def set_open_run_def set_outbox_def)
  then show ?thesis
    by (simp add: outbox_job_def row_by_update split: option.split)
qed

definition granted_row :: "int \<Rightarrow> int \<Rightarrow> pystr \<Rightarrow> outbox \<Rightarrow> outbox" where
  "granted_row now lu token ob = ob\<lparr>o_status := O_Leased, o_attempt := o_attempt ob + 1,
     o_token := Some token, o_until := Some lu, o_error := None, o_updated := now\<rparr>"

lemma outboxes_grant:
  "outboxes (grant_outbox now lu token ob s) = update_where (\<lambda>r. o_id r = o_id ob) (granted_row now lu token) (outboxes s)"
  by (simp add: grant_outbox_def set_open_run_def set_outbox_def granted_row_def [abs_def])

definition lease_of :: "int \<Rightarrow> pystr \<Rightarrow> outbox \<Rightarrow> job \<Rightarrow> delivery_lease" where
  "lease_of lu token ob j =
     \<lparr>le_outbox = o_id ob, le_run = o_run ob, le_task = j_task j, le_owner = o_owner ob,
      le_epoch = o_epoch ob, le_chat = o_chat ob, le_text = o_text ob,
      le_scheduled = o_scheduled ob, le_attempt = o_attempt ob + 1, le_token = token, le_until = lu\<rparr>"

lemma read_lease_grant:
  assumes inv: "reminder_inv s" and ob: "ob \<in> set (outboxes s)" and j: "outbox_job ob s = Some j"
  shows "read_lease (o_id ob) (grant_outbox now lu token ob s) = Inr (lease_of lu token ob j)"
proof -
  have o: "outbox_of s (o_id ob) = Some ob" by (rule row_by_unique [OF reminder_invD(5) [OF inv] ob])
  have "outbox_of (grant_outbox now lu token ob s) (o_id ob) = Some (granted_row now lu token ob)"
    unfolding outboxes_grant by (subst row_by_update) (simp_all add: granted_row_def o)
  moreover have "outbox_job (granted_row now lu token ob) s' = outbox_job ob s'" for s'
    by (simp add: outbox_job_def granted_row_def)
  ultimately show ?thesis
    using j by (simp add: read_lease_def lease_from_row_def lease_of_def granted_row_def)
qed

abbreviation lease_key :: "outbox \<Rightarrow> int \<times> int" where
  "lease_key ob \<equiv> (o_available ob, o_id ob)"

text \<open>What the loop does to the database: it cancels expired candidates, and may lease one.\<close>

inductive expired_from :: "int \<Rightarrow> db \<Rightarrow> db \<Rightarrow> bool" for now where
  expired_refl: "expired_from now s s"
| expired_step: "ob \<in> set (outboxes s) \<Longrightarrow> eligible now s ob \<Longrightarrow> past_deadline now s ob
    \<Longrightarrow> expired_from now (expire_outbox now ob s) s' \<Longrightarrow> expired_from now s s'"

lemma expired_from_inv:
  assumes "expired_from now s s'" and "reminder_inv s"
  shows "reminder_inv s' \<and> eligible now s' = eligible now s \<and> past_deadline now s' = past_deadline now s
    \<and> profiles s' = profiles s
    \<and> (\<forall>x \<in> set (outboxes s). \<not> (eligible now s x \<and> past_deadline now s x) \<longrightarrow> x \<in> set (outboxes s'))
    \<and> (\<forall>x \<in> set (outboxes s'). o_status x \<noteq> O_Cancelled \<longrightarrow> x \<in> set (outboxes s))"
  using assms
proof (induction rule: expired_from.induct)
  case (expired_step ob s s')
  have inv1: "reminder_inv (expire_outbox now ob s)"
    using expired_step by (intro inv_expire) (auto simp: eligible_def)
  have keep: "x \<in> set (outboxes (expire_outbox now ob s))"
    if "x \<in> set (outboxes s)" "\<not> (eligible now s x \<and> past_deadline now s x)" for x
  proof -
    have "x \<noteq> ob" using that(2) expired_step(2,3) by blast
    then have "o_id x \<noteq> o_id ob"
      using distinct_map_unique [OF reminder_invD(5) [OF expired_step.prems] that(1) expired_step(1)] by blast
    then show ?thesis by (rule outboxes_expire_mem(2) [OF that(1)])
  qed
  note IH = expired_step.IH [OF inv1]
  show ?case
  proof (intro conjI ballI impI)
    show "x \<in> set (outboxes s')" if "x \<in> set (outboxes s)"
      "\<not> (eligible now s x \<and> past_deadline now s x)" for x
      using IH keep [OF that] that(2) by simp
    show "x \<in> set (outboxes s)" if "x \<in> set (outboxes s')" "o_status x \<noteq> O_Cancelled" for x
      using IH outboxes_expire_mem(1) [of x now ob s] that by blast
  qed (use IH in auto)
qed auto

text \<open>
  The loop from a state of the invariant: either it raises the overflow of a deadline, or it
  expires some rows, and then finds no eligible row left, or leases the first eligible one.
\<close>

lemma lease_loop_cases:
  assumes "reminder_inv s"
  shows "(\<exists>m. lease_loop now lu token s = Inl (OverflowError m))
    \<or> (\<exists>s0. expired_from now s s0 \<and> lease_loop now lu token s = Inr (None, s0)
        \<and> next_eligible now s0 = None)
    \<or> (\<exists>s0 ob j. expired_from now s s0 \<and> next_eligible now s0 = Some ob \<and> outbox_job ob s0 = Some j
        \<and> \<not> past_deadline now s0 ob
        \<and> lease_loop now lu token s = Inr (Some (lease_of lu token ob j), grant_outbox now lu token ob s0))"
  using assms
proof (induction now lu token s rule: lease_loop.induct)
  case (1 now lu token s)
  show ?case
  proof (cases "next_eligible now s")
    case None
    then show ?thesis by (auto simp: lease_loop.simps [of now lu token s] intro: expired_refl)
  next
    case (Some ob)
    note ob = next_eligible_Some(1,2) [OF Some]
    obtain j where j: "outbox_job ob s = Some j" using outbox_job_exists [OF 1(2) ob(1)] by blast
    show ?thesis
    proof (cases "delivery_deadline ob s")
      case (Inl e)
      then have "\<exists>m. e = OverflowError m"
        using j by (auto simp: delivery_deadline_def datetime_add_def split: if_splits)
      with Inl Some show ?thesis by (auto simp: lease_loop.simps [of now lu token s])
    next
      case (Inr d)
      show ?thesis
      proof (cases "d < now")
        case True
        have inv1: "reminder_inv (expire_outbox now ob s)"
          using ob by (intro inv_expire [OF 1(2)]) (auto simp: eligible_def)
        have eq: "lease_loop now lu token s = lease_loop now lu token (expire_outbox now ob s)"
          using Some Inr True by (simp add: lease_loop.simps [of now lu token s])
        have past: "past_deadline now s ob" using Inr True by (simp add: past_deadline_def)
        note first = expired_step [OF ob past]
        from 1(1) [OF Some Inr True inv1] show ?thesis unfolding eq using first by blast
      next
        case False
        have "lease_loop now lu token s = Inr (Some (lease_of lu token ob j), grant_outbox now lu token ob s)"
          using Some Inr False read_lease_grant [OF 1(2) ob(1) j]
          by (simp add: lease_loop.simps [of now lu token s] Let_def)
        moreover have "\<not> past_deadline now s ob" using Inr False by (simp add: past_deadline_def)
        ultimately show ?thesis using expired_refl Some j by blast
      qed
    qed
  qed
qed

lemma lease_delivery_cases:
  assumes "reminder_inv s"
  shows "(\<exists>e. lease_delivery now token secs s = (Inl e, s) \<and> (e = ValueError ''delivery lease duration is invalid''
        \<or> (\<exists>m. e = OverflowError m)))
    \<or> (\<exists>s0. expired_from now s s0 \<and> lease_delivery now token secs s = (Inr None, s0)
        \<and> next_eligible now s0 = None)
    \<or> (\<exists>s0 ob j lu. expired_from now s s0 \<and> next_eligible now s0 = Some ob \<and> outbox_job ob s0 = Some j
        \<and> \<not> past_deadline now s0 ob \<and> lu = now + seconds secs
        \<and> lease_delivery now token secs s
          = (Inr (Some (lease_of lu token ob j)), grant_outbox now lu token ob s0))"
proof (cases "secs < 1 \<or> 3600 < secs")
  case True
  then show ?thesis by (auto simp: lease_delivery_def transaction_def)
next
  case False
  show ?thesis
  proof (cases "valid_datetime (now + seconds secs)")
    case True
    then have "datetime_add now (seconds secs) = Inr (now + seconds secs)" by (simp add: datetime_add_def)
    with lease_loop_cases [OF assms, of now "now + seconds secs" token] False show ?thesis
      by (auto simp: lease_delivery_def transaction_def)
  next
    case no: False
    with False show ?thesis by (auto simp: lease_delivery_def transaction_def datetime_add_def)
  qed
qed

end
