(* ===== verification/Reminder_System.thy ===== *)
theory Reminder_System
  imports Reminder_Invariant
begin

text \<open>
  The reminder store as a state machine: the database together with the leases handed out
  so far, a step for every operation of the store and for everything the rest of the program
  does to other tables, the states reachable from the empty database, and what holds in all
  of them.
\<close>

section \<open>Every operation is a good step\<close>

definition closed_box :: "outbox \<Rightarrow> bool" where
  "closed_box ob \<longleftrightarrow> o_status ob \<in> {O_Sent, O_Failed, O_Cancelled}"

text \<open>Rows of the new database have no token or the token of the row they were.\<close>

definition tokens_from :: "db \<Rightarrow> db \<Rightarrow> bool" where
  "tokens_from s s' \<longleftrightarrow> (\<forall>x \<in> set (outboxes s'). o_token x = None
     \<or> (\<exists>ob \<in> set (outboxes s). o_id x = o_id ob \<and> o_run x = o_run ob \<and> o_owner x = o_owner ob
          \<and> o_epoch x = o_epoch ob \<and> o_token x = o_token ob))"

text \<open>A closed row stays as it is until the rows of its owner are purged.\<close>

definition closed_kept :: "db \<Rightarrow> db \<Rightarrow> bool" where
  "closed_kept s s' \<longleftrightarrow> (\<forall>ob \<in> set (outboxes s). closed_box ob \<longrightarrow>
     ob \<in> set (outboxes s') \<or> (\<forall>x \<in> set (outboxes s'). o_owner x \<noteq> o_owner ob))"

definition good_step :: "db \<Rightarrow> db \<Rightarrow> bool" where
  "good_step s s' \<longleftrightarrow> reminder_inv s' \<and> tokens_from s s' \<and> closed_kept s s'"

lemma good_step_same_outboxes:
  "reminder_inv s' \<Longrightarrow> outboxes s' = outboxes s \<Longrightarrow> good_step s s'"
  by (auto simp: good_step_def tokens_from_def closed_kept_def)

lemma good_step_refl: "reminder_inv s \<Longrightarrow> good_step s s"
  by (rule good_step_same_outboxes) simp_all

lemma good_step_append:
  assumes "reminder_inv s'" and "outboxes s' = outboxes s @ [ob]" and "o_token ob = None"
  shows "good_step s s'"
  using assms by (auto simp: good_step_def tokens_from_def closed_kept_def)

lemma good_step_update:
  assumes "reminder_inv s'" and "outboxes s' = update_where Q g (outboxes s)"
    and "\<And>ob. ob \<in> set (outboxes s) \<Longrightarrow> Q ob \<Longrightarrow> \<not> closed_box ob"
    and "\<And>ob. ob \<in> set (outboxes s) \<Longrightarrow> Q ob \<Longrightarrow> o_token (g ob) = None
      \<or> (o_id (g ob) = o_id ob \<and> o_run (g ob) = o_run ob \<and> o_owner (g ob) = o_owner ob
         \<and> o_epoch (g ob) = o_epoch ob \<and> o_token (g ob) = o_token ob)"
  shows "good_step s s'"
proof -
  have "tokens_from s s'" unfolding tokens_from_def
  proof
    fix x assume "x \<in> set (outboxes s')"
    then obtain ob where ob: "ob \<in> set (outboxes s)" "x = (if Q ob then g ob else ob)"
      using in_update_where assms(2) by metis
    then show "o_token x = None \<or> (\<exists>ob \<in> set (outboxes s). o_id x = o_id ob \<and> o_run x = o_run ob
        \<and> o_owner x = o_owner ob \<and> o_epoch x = o_epoch ob \<and> o_token x = o_token ob)"
    proof (cases "Q ob")
      case True
      with ob(2) have "x = g ob" by simp
      with assms(4) [OF ob(1) True] ob(1) show ?thesis by blast
    next
      case False
      with ob(2) have "x = ob" by simp
      with ob(1) show ?thesis by blast
    qed
  qed
  moreover have "closed_kept s s'" unfolding closed_kept_def
  proof (intro ballI impI disjI1)
    fix ob assume ob: "ob \<in> set (outboxes s)" "closed_box ob"
    then have "\<not> Q ob" using assms(3) by metis
    then have "ob = (if Q ob then g ob else ob)" by simp
    then show "ob \<in> set (outboxes s')" unfolding assms(2) set_update_where using ob(1)
      by (rule image_eqI)
  qed
  ultimately show ?thesis using assms(1) by (simp add: good_step_def)
qed

lemma tokens_from_trans: "tokens_from s s1 \<Longrightarrow> tokens_from s1 s2 \<Longrightarrow> tokens_from s s2"
  unfolding tokens_from_def by metis

lemma good_step_transaction:
  assumes "reminder_inv s" and "\<And>a s'. f s = Inr (a, s') \<Longrightarrow> good_step s s'"
  shows "good_step s (snd (transaction f s))"
  using assms good_step_refl [OF assms(1)] by (cases "f s") (auto simp: transaction_def)

subsection \<open>Drafts and confirmation\<close>

lemma good_create_draft:
  assumes "reminder_inv s" and "rule_ok (dr_rule d)"
  shows "good_step s (snd (create_draft zones now d s))"
  unfolding create_draft_def
proof (rule good_step_transaction [OF assms(1)])
  fix a s' assume "bindE (validate_draft zones d) (\<lambda>start.
     bindE (active_profile (dr_owner d) s) (\<lambda>p.
     guardE (\<not> list_ex (\<lambda>r. pr_id r = dr_persona d \<and> pr_active r) (personas s))
       (ValueError ''active reminder persona does not exist'')
     (guardE (\<not> sql_nonblank (strip (dr_text d))) (IntegrityError ''CHECK constraint failed'')
     (let t = insert_task d (p_epoch p) now s;
          j = insert_job d start (tk_id t) (p_epoch p) now s
      in Inr ((t, j), s\<lparr>tasks := tasks s @ [t], jobs := jobs s @ [j]\<rparr>))))) = Inr (a, s')"
  then show "good_step s s'"
    unfolding result_simps Let_def
  proof (elim exE conjE)
    fix start p
    assume "Inr ((insert_task d (p_epoch p) now s,
           insert_job d start (tk_id (insert_task d (p_epoch p) now s)) (p_epoch p) now s),
        s\<lparr>tasks := tasks s @ [insert_task d (p_epoch p) now s],
          jobs := jobs s @ [insert_job d start (tk_id (insert_task d (p_epoch p) now s))
            (p_epoch p) now s]\<rparr>) = (Inr (a, s') :: ((task \<times> job) \<times> db) result)"
    then have s': "s' = s\<lparr>tasks := tasks s @ [insert_task d (p_epoch p) now s],
      jobs := jobs s @ [insert_job d start (tk_id (insert_task d (p_epoch p) now s)) (p_epoch p) now s]\<rparr>"
      by simp
    have "reminder_inv s'"
      by (rule inv_append_draft [OF assms refl refl]) (simp add: s' same_reminders_def)
    then show "good_step s s'" by (rule good_step_same_outboxes) (simp add: s')
  qed
qed

lemma job_by_id_Inr: "job_by_id n s = Inr j \<Longrightarrow> j \<in> set (jobs s)"
  unfolding job_by_id_def result_simps using row_by_Some by metis

lemma good_mark_awaiting:
  assumes inv: "reminder_inv s"
  shows "good_step s (snd (mark_awaiting_confirmation now task_id owner s))"
  unfolding mark_awaiting_confirmation_def
proof (rule good_step_transaction [OF inv])
  fix a s'
  assume run: "bindE (owned_task_and_job task_id owner s) (\<lambda>(t, j).
     bindE (if j_status j = J_Draft then
              (let s' = s\<lparr>jobs := update_where (\<lambda>r. j_id r = j_id j \<and> j_status r = J_Draft)
                     (\<lambda>r. r\<lparr>j_status := J_Awaiting, j_updated := now\<rparr>) (jobs s)\<rparr>
               in bindE (job_by_id (j_id j) s') (\<lambda>j'. Inr (j', s')))
            else if j_status j \<in> {J_Awaiting, J_Active, J_NeedsReview} then Inr (j, s)
            else Inl (RuntimeError ''reminder job cannot await confirmation'')) (\<lambda>(j', s').
     bindE (ensure_current_epoch t s') (\<lambda>_. Inr (j', s')))) = Inr (a, s')"
  then have "s' = s \<or> (\<exists>j :: job. s' = s\<lparr>jobs := update_where (\<lambda>r. j_id r = j_id j \<and> j_status r = J_Draft)
                     (\<lambda>r. r\<lparr>j_status := J_Awaiting, j_updated := now\<rparr>) (jobs s)\<rparr>)"
    by (auto simp: bindE_eq_Inr Let_def split: if_splits)
  then show "good_step s s'"
  proof
    assume "s' = s" then show ?thesis using good_step_refl [OF inv] by simp
  next
    assume "\<exists>j :: job. s' = s\<lparr>jobs := update_where (\<lambda>r. j_id r = j_id j \<and> j_status r = J_Draft)
                     (\<lambda>r. r\<lparr>j_status := J_Awaiting, j_updated := now\<rparr>) (jobs s)\<rparr>"
    then obtain j :: job where s': "s' = s\<lparr>jobs := update_where (\<lambda>r. j_id r = j_id j \<and> j_status r = J_Draft)
                     (\<lambda>r. r\<lparr>j_status := J_Awaiting, j_updated := now\<rparr>) (jobs s)\<rparr>" by blast
    have "reminder_inv s'"
    proof (rule inv_update_jobs [OF inv, where Q = "\<lambda>_. False" and g = "\<lambda>t. t"
          and P = "\<lambda>r. j_id r = j_id j \<and> j_status r = J_Draft"
          and f = "\<lambda>r. r\<lparr>j_status := J_Awaiting, j_updated := now\<rparr>"])
      fix k t assume "status_ok (j_status k) (tk_status t)"
      then show "status_ok (j_status (if j_id k = j_id j \<and> j_status k = J_Draft
          then k\<lparr>j_status := J_Awaiting, j_updated := now\<rparr> else k)) (tk_status (if False then t else t))"
        by (cases "tk_status t") auto
    qed (auto simp: s' same_reminders_def job_row_ok_def unconfirmed_def)
    then show ?thesis by (rule good_step_same_outboxes) (simp add: s')
  qed
qed

lemma good_activate:
  assumes inv: "reminder_inv s"
  shows "good_step s (snd (activate zones now task_id owner s))"
  unfolding activate_def
proof (rule good_step_transaction [OF inv])
  fix a s'
  assume "bindE (owned_task_and_job task_id owner s) (\<lambda>(t, j).
     bindE (ensure_current_epoch t s) (\<lambda>_.
     if j_status j \<in> {J_Active, J_NeedsReview} then Inr (j, s)
     else guardE (j_status j \<noteq> J_Awaiting)
       (RuntimeError ''reminder job is not awaiting confirmation'')
     (bindE (first_instant zones j) (\<lambda>first_utc.
       let s' = (case first_utc of
            None \<Rightarrow> set_task task_id (\<lambda>r. r\<lparr>tk_status := T_NeedsReview, tk_updated := now\<rparr>)
              (set_job (j_id j) (\<lambda>r. r\<lparr>j_status := J_NeedsReview, j_next := None,
                 j_updated := now\<rparr>) s)
          | Some utc \<Rightarrow> set_task task_id (\<lambda>r. r\<lparr>tk_status := T_Active, tk_updated := now\<rparr>)
              (set_job (j_id j) (\<lambda>r. r\<lparr>j_status := J_Active, j_next := Some utc,
                 j_updated := now\<rparr>) s))
       in bindE (job_by_id (j_id j) s') (\<lambda>j'. Inr (j', s')))))) = Inr (a, s')"
  then obtain t j where o: "owned_task_and_job task_id owner s = Inr (t, j)"
    and c: "s' = s \<or> (j_status j = J_Awaiting \<and> (\<exists>jst tst nx.
      s' = set_task task_id (\<lambda>r. r\<lparr>tk_status := tst, tk_updated := now\<rparr>)
              (set_job (j_id j) (\<lambda>r. r\<lparr>j_status := jst, j_next := nx, j_updated := now\<rparr>) s)
      \<and> (jst = J_NeedsReview \<and> tst = T_NeedsReview \<and> nx = None
         \<or> jst = J_Active \<and> tst = T_Active \<and> nx \<noteq> None)))"
    by (auto simp: bindE_eq_Inr guardE_def Let_def split: if_splits option.splits)
  show "good_step s s'"
  proof (cases "s' = s")
    case True then show ?thesis using good_step_refl [OF inv] by simp
  next
    case False
    with c obtain jst tst nx where aw: "j_status j = J_Awaiting"
      and s': "s' = set_task task_id (\<lambda>r. r\<lparr>tk_status := tst, tk_updated := now\<rparr>)
              (set_job (j_id j) (\<lambda>r. r\<lparr>j_status := jst, j_next := nx, j_updated := now\<rparr>) s)"
      and st: "jst = J_NeedsReview \<and> tst = T_NeedsReview \<and> nx = None
         \<or> jst = J_Active \<and> tst = T_Active \<and> nx \<noteq> None" by blast
    note O = owned_task_and_job_Inr [OF inv o]
    have uj: "k = j" if "k \<in> set (jobs s)" "j_id k = j_id j" for k
      using distinct_map_unique [OF reminder_invD(2) [OF inv] that(1) O(4) that(2)] .
    have uk: "k = j" if "k \<in> set (jobs s)" "j_task k = task_id" for k
      using distinct_map_unique [OF reminder_invD(3) [OF inv] that(1) O(4)] that(2) O(5) by simp
    have "reminder_inv s'"
    proof (rule inv_update_jobs [OF inv, where P = "\<lambda>k. j_id k = j_id j" and Q = "\<lambda>t. tk_id t = task_id"
          and f = "\<lambda>r. r\<lparr>j_status := jst, j_next := nx, j_updated := now\<rparr>"
          and g = "\<lambda>r. r\<lparr>tk_status := tst, tk_updated := now\<rparr>"])
      fix k assume k: "k \<in> set (jobs s)" "j_id k = j_id j" "job_row_ok k"
      have "k = j" by (rule uj [OF k(1,2)])
      moreover have "1 \<le> n" if "r_count (j_rule j) = Some n" for n
        using k(3) that unfolding \<open>k = j\<close> job_row_ok_def rule_ok_def by blast
      ultimately show "job_row_ok (k\<lparr>j_status := jst, j_next := nx, j_updated := now\<rparr>)"
        using k(3) st aw by (fastforce simp: job_row_ok_def)
    next
      fix k x assume k: "k \<in> set (jobs s)" "x \<in> set (tasks s)" "tk_id x = j_task k"
        "status_ok (j_status k) (tk_status x)"
      have "j_id k = j_id j \<longleftrightarrow> tk_id x = task_id"
        using uj [OF k(1)] uk [OF k(1)] k(3) O(5) by metis
      then show "status_ok (j_status (if j_id k = j_id j then k\<lparr>j_status := jst, j_next := nx,
          j_updated := now\<rparr> else k))
        (tk_status (if tk_id x = task_id then x\<lparr>tk_status := tst, tk_updated := now\<rparr> else x))"
        using k(4) st by auto
    qed (use st in \<open>auto simp: s' same_reminders_def set_task_def set_job_def closed_task_def unconfirmed_def\<close>)
    then show ?thesis by (rule good_step_same_outboxes) (simp add: s' set_task_def set_job_def)
  qed
qed

subsection \<open>Materialisation and snooze\<close>

lemma good_step_append_list:
  assumes "reminder_inv s'" and "outboxes s' = outboxes s @ obs" and "\<forall>ob \<in> set obs. o_token ob = None"
  shows "good_step s s'"
  using assms by (auto simp: good_step_def tokens_from_def closed_kept_def)

lemma materialize_jobs_outboxes:
  "materialize_jobs zones now jts s = Inr (rs, s') \<Longrightarrow>
     \<exists>obs. outboxes s' = outboxes s @ obs \<and> (\<forall>ob \<in> set obs. o_token ob = None)"
proof (induction jts arbitrary: s rs)
  case (Cons jt jts)
  obtain j t where jt: "jt = (j, t)" by (cases jt)
  obtain rs1 s1 rs2 where m1: "materialize_one zones now (j, t) s = Inr (rs1, s1)"
    and m2: "materialize_jobs zones now jts s1 = Inr (rs2, s')"
    using Cons.prems unfolding jt by (auto simp: bindE_eq_Inr)
  have "\<exists>obs. outboxes s1 = outboxes s @ obs \<and> (\<forall>ob \<in> set obs. o_token ob = None)"
    using materialize_one_Inr [OF m1] by (auto simp: emitted_step_def new_outbox_def)
  with Cons.IH [OF m2] show ?case by auto
qed simp

lemma materialize_due_Inr:
  assumes inv: "reminder_inv s" and m: "materialize_due zones now limit s = (Inr rs, s')"
  shows "1 \<le> limit \<and> limit \<le> 1000 \<and> reminder_inv s' \<and> runs s' = runs s @ rs
    \<and> map run_key rs = map (\<lambda>(j, t). (j_id j, next_of j))
        (filter (\<lambda>(j, t). \<not> run_exists (j_id j) (next_of j) s) (due_jobs now (nat limit) s))
    \<and> (\<exists>obs. outboxes s' = outboxes s @ obs \<and> (\<forall>ob \<in> set obs. o_token ob = None))"
proof -
  have l: "1 \<le> limit \<and> limit \<le> 1000"
    and mj: "materialize_jobs zones now (due_jobs now (nat limit) s) s = Inr (rs, s')"
    using m by (auto simp: materialize_due_def transaction_Inr guardE_eq_Inr)
  have act: "j \<in> set (jobs s) \<and> j_status j = J_Active" if "(j, t) \<in> set (due_jobs now (nat limit) s)" for j t
    using due_jobs_mem(1,2) [OF that] by (simp add: job_due_def)
  have "reminder_inv s' \<and> runs s' = runs s @ rs
    \<and> map run_key rs = map (\<lambda>(j, t). (j_id j, next_of j))
        (filter (\<lambda>(j, t). \<not> run_exists (j_id j) (next_of j) s) (due_jobs now (nat limit) s))"
    by (rule materialize_jobs_Inr [OF inv due_jobs_distinct [OF inv] _ mj]) (erule act)
  with l materialize_jobs_outboxes [OF mj] show ?thesis by blast
qed

lemma good_materialize_due:
  assumes inv: "reminder_inv s"
  shows "good_step s (snd (materialize_due zones now limit s))"
proof (cases "materialize_due zones now limit s")
  case (Pair r s')
  show ?thesis
  proof (cases r)
    case (Inl e)
    with Pair have "s' = s" by (auto simp: materialize_due_def transaction_Inl)
    with Pair show ?thesis using good_step_refl [OF inv] by simp
  next
    case (Inr rs)
    with Pair have m: "materialize_due zones now limit s = (Inr rs, s')" by simp
    obtain obs where "reminder_inv s'" "outboxes s' = outboxes s @ obs" "\<forall>ob \<in> set obs. o_token ob = None"
      using materialize_due_Inr [OF inv m] by blast
    then have "good_step s s'" by (rule good_step_append_list)
    with Pair show ?thesis by simp
  qed
qed

lemma good_snooze_task:
  assumes inv: "reminder_inv s"
  shows "good_step s (snd (snooze_task zones now task_id owner action delay s))"
  unfolding snooze_task_def
proof (rule good_step_transaction [OF inv])
  fix a s'
  assume "guardE (is_blank action) (ValueError ''reminder snooze action token cannot be empty'')
     (guardE (128 < length action) (ValueError ''reminder snooze action token is too long'')
     (guardE (delay < 60 \<or> 604800 < delay) (ValueError ''reminder snooze delay is invalid'')
     (case find (\<lambda>r. rn_action r = Some action \<and> job_of s (rn_job r) \<noteq> None) (runs s) of
        Some r \<Rightarrow>
          guardE (rn_owner r \<noteq> owner \<or> \<not> task_run task_id s r)
            (RuntimeError ''reminder snooze action token was reused'') (Inr (r, s))
      | None \<Rightarrow>
          bindE (owned_task_and_job task_id owner s) (\<lambda>(t, j).
          bindE (ensure_current_epoch t s) (\<lambda>_.
          guardE (tk_status t \<noteq> T_Active)
            (RuntimeError ''only an active reminder can be snoozed'')
          (snooze_insert zones now t (j\<lparr>j_owner := owner\<rparr>) action delay s)))))) = Inr (a, s')"
  then have "s' = s \<or> (\<exists>t j. owned_task_and_job task_id owner s = Inr (t, j) \<and> tk_status t = T_Active
      \<and> snooze_insert zones now t (j\<lparr>j_owner := owner\<rparr>) action delay s = Inr (a, s'))"
    by (auto simp: bindE_eq_Inr guardE_eq_Inr split: option.splits)
  then show "good_step s s'"
  proof (elim disjE exE conjE)
    assume "s' = s" then show ?thesis using good_step_refl [OF inv] by simp
  next
    fix t j assume o: "owned_task_and_job task_id owner s = Inr (t, j)" and ta: "tk_status t = T_Active"
      and sn: "snooze_insert zones now t (j\<lparr>j_owner := owner\<rparr>) action delay s = Inr (a, s')"
    note O = owned_task_and_job_Inr [OF inv o]
    have conf: "\<not> unconfirmed j" using O(6) ta by (cases "j_status j") (auto simp: unconfirmed_def)
    have jo: "j\<lparr>j_owner := owner\<rparr> = j" using O(3,7) by (cases j) simp
    obtain scheduled available missed where ne: "\<not> run_exists (j_id j) scheduled s"
      and s': "s' = insert_run (new_run j scheduled (if missed then R_Missed else R_Due) None (Some action) now s)
         (new_outbox (rn_id (new_run j scheduled (if missed then R_Missed else R_Due) None (Some action) now s))
            j t scheduled available (if missed then O_Cancelled else O_Pending) now s) s"
      using sn unfolding jo snooze_insert_def Let_def by (auto simp: bindE_eq_Inr guardE_eq_Inr)
    define r where "r = new_run j scheduled (if missed then R_Missed else R_Due) None (Some action) now s"
    define ob where "ob = new_outbox (rn_id r) j t scheduled available (if missed then O_Cancelled else O_Pending) now s"
    have s2: "s' = s\<lparr>runs := runs s @ [r], outboxes := outboxes s @ [ob]\<rparr>"
      unfolding s' r_def ob_def insert_run_def by (rule refl)
    have "reminder_inv s'"
    proof (rule inv_insert_run [OF inv O(4,1), where r = r and ob = ob and f = "\<lambda>x. x" and g = "\<lambda>x. x"])
      show "linked r ob" unfolding r_def ob_def by (rule linked_new) simp
      show "outbox_ok ob" unfolding ob_def by (rule outbox_ok_new) simp
    qed (use O ne ta conf reminder_invD(9) [OF inv O(4)] in
        \<open>auto simp: r_def new_run_def ob_def new_outbox_def s2 same_reminders_def closed_task_def\<close>)
    then show ?thesis by (rule good_step_append [where ob = ob]) (simp_all add: s2 ob_def new_outbox_def)
  qed
qed

subsection \<open>Completion, cancellation, purge\<close>

lemma ensure_current_epoch_Inr:
  "ensure_current_epoch t s = Inr x \<longleftrightarrow> owner_current (tk_owner t) (tk_epoch t) s"
  by (auto simp: ensure_current_epoch_def active_profile_def owner_current_def bindE_eq_Inr guardE_eq_Inr
      split: option.splits if_splits)

lemma finish_task_cases:
  assumes "finish_task target now n owner s = (Inr a, s')"
  shows "\<exists>t. task_of s n = Some t \<and> tk_owner t = owner \<and> owner_current owner (tk_epoch t) s
    \<and> ((tk_status t = target \<and> s' = s)
       \<or> (\<not> closed_task t \<and> s' = close_task_rows target
            (if target = T_Cancelled then J_Cancelled else J_Completed) now n s))"
  using assms unfolding finish_task_def transaction_Inr
  by (auto simp: bindE_eq_Inr guardE_eq_Inr of_option_eq ensure_current_epoch_Inr Let_def closed_task_def
      split: if_splits)

lemma good_finish_task:
  assumes inv: "reminder_inv s" and target: "target \<in> {T_Cancelled, T_Completed}"
  shows "good_step s (snd (finish_task target now n owner s))"
proof (cases "finish_task target now n owner s")
  case (Pair r s')
  show ?thesis
  proof (cases r)
    case (Inl e)
    with Pair have "s' = s" by (auto simp: finish_task_def transaction_Inl)
    with Pair show ?thesis using good_step_refl [OF inv] by simp
  next
    case (Inr a)
    with finish_task_cases Pair obtain t where t: "task_of s n = Some t"
      and c: "s' = s \<or> (\<not> closed_task t \<and> s' = close_task_rows target
            (if target = T_Cancelled then J_Cancelled else J_Completed) now n s)" by metis
    show ?thesis
    proof (cases "s' = s")
      case True
      with Pair show ?thesis using good_step_refl [OF inv] by simp
    next
      case False
      with c have nc: "\<not> closed_task t" and s': "s' = close_task_rows target
            (if target = T_Cancelled then J_Cancelled else J_Completed) now n s" by auto
      have "reminder_inv s'" unfolding s'
        by (rule inv_close [OF inv t nc]) (use target in auto)
      moreover have "outboxes s' = update_where (\<lambda>ob. list_ex (\<lambda>r. rn_id r = o_run ob \<and> task_run n s r) (runs s)
           \<and> o_status ob \<in> {O_Pending, O_Leased})
         (\<lambda>ob. ob\<lparr>o_status := O_Cancelled, o_token := None, o_until := None, o_updated := now\<rparr>)
         (outboxes s)" by (simp add: s' close_task_rows_def)
      ultimately have "good_step s s'" by (rule good_step_update) (auto simp: closed_box_def)
      with Pair show ?thesis by simp
    qed
  qed
qed

lemma good_purge_owner:
  assumes inv: "reminder_inv s"
  shows "good_step s (snd (purge_owner owner epoch s))"
  unfolding purge_owner_def
proof (rule good_step_transaction [OF inv])
  fix a s'
  assume "(case profile_of s owner of
       None \<Rightarrow> Inl (RuntimeError ''reminder purge lifecycle fence is invalid'')
     | Some p \<Rightarrow>
         guardE (p_epoch p \<noteq> epoch \<or> p_state p \<noteq> L_Reset)
           (RuntimeError ''reminder purge lifecycle fence is invalid'')
         (Inr ((), delete_tasks (\<lambda>t. tk_owner t = owner) s))) = Inr (a, s')"
  then have s': "s' = delete_tasks (\<lambda>t. tk_owner t = owner) s"
    by (auto simp: guardE_eq_Inr split: option.splits)
  have "outboxes s' = delete_where (\<lambda>ob. o_owner ob = owner) (outboxes s)"
    unfolding s' delete_owner_tasks [OF inv] by simp
  then show "good_step s s'"
    using inv_purge [OF inv] unfolding good_step_def tokens_from_def closed_kept_def s'
    by (fastforce simp: set_delete_where)
qed

subsection \<open>Deliveries\<close>

lemma good_expired_from:
  assumes "expired_from now s s'" and "reminder_inv s"
  shows "good_step s s'"
  using assms
proof (induction rule: expired_from.induct)
  case (expired_refl s)
  then show ?case by (rule good_step_refl)
next
  case (expired_step ob s s')
  have inv1: "reminder_inv (expire_outbox now ob s)"
    using expired_step by (intro inv_expire) (auto simp: eligible_def)
  have one: "good_step s (expire_outbox now ob s)"
  proof (rule good_step_update [OF inv1 outboxes_expire])
    fix x assume x: "x \<in> set (outboxes s)" "o_id x = o_id ob"
    have "x = ob"
      by (rule distinct_map_unique [OF reminder_invD(5) [OF expired_step.prems] x(1) expired_step(1) x(2)])
    then show "\<not> closed_box x" using expired_step(2) by (auto simp: closed_box_def eligible_def)
  qed simp
  note two = expired_step.IH [OF inv1]
  have ci: "closed_box ob' \<Longrightarrow> \<not> (eligible now s ob' \<and> past_deadline now s ob')" for ob'
    by (auto simp: closed_box_def eligible_def)
  have "expired_from now s s'" using expired_step(1-4) by (rule expired_from.expired_step)
  then have "closed_kept s s'" using expired_from_inv [OF _ expired_step.prems] ci
    by (simp add: closed_kept_def)
  with one two show ?case unfolding good_step_def using tokens_from_trans by blast
qed

text \<open>Granting a lease: the row gets the new token, every other row keeps what it had.\<close>

lemma outboxes_grant_mem:
  assumes "reminder_inv s" and "ob \<in> set (outboxes s)" and "x \<in> set (outboxes (grant_outbox now lu token ob s))"
  shows "x = granted_row now lu token ob \<or> (x \<in> set (outboxes s) \<and> o_id x \<noteq> o_id ob)"
proof -
  have "x \<in> (\<lambda>y. if o_id y = o_id ob then granted_row now lu token y else y) ` set (outboxes s)"
    using assms(3) unfolding outboxes_grant set_update_where .
  then obtain y where y: "y \<in> set (outboxes s)"
    "x = (if o_id y = o_id ob then granted_row now lu token y else y)" by (rule imageE)
  then show ?thesis
    using distinct_map_unique [OF reminder_invD(5) [OF assms(1)] y(1) assms(2)] by auto
qed

lemma granted_row_mem:
  "ob \<in> set (outboxes s) \<Longrightarrow> granted_row now lu token ob \<in> set (outboxes (grant_outbox now lu token ob s))"
  unfolding outboxes_grant set_update_where by (auto simp: image_iff)

lemma good_grant:
  assumes inv: "reminder_inv s" and n: "next_eligible now s = Some ob"
  shows "reminder_inv (grant_outbox now lu token ob s) \<and> closed_kept s (grant_outbox now lu token ob s)"
proof
  note ob = next_eligible_Some(1,2) [OF n]
  show "reminder_inv (grant_outbox now lu token ob s)" by (rule inv_grant [OF inv ob])
  show "closed_kept s (grant_outbox now lu token ob s)" unfolding closed_kept_def
  proof (intro ballI impI disjI1)
    fix x assume x: "x \<in> set (outboxes s)" "closed_box x"
    have "o_id x \<noteq> o_id ob"
    proof
      assume "o_id x = o_id ob"
      then have "x = ob" by (rule distinct_map_unique [OF reminder_invD(5) [OF inv] x(1) ob(1)])
      then show False using x(2) ob(2) by (auto simp: closed_box_def eligible_def)
    qed
    then have "x = (if o_id x = o_id ob then granted_row now lu token x else x)" by simp
    then show "x \<in> set (outboxes (grant_outbox now lu token ob s))"
      unfolding outboxes_grant set_update_where using x(1) by (rule image_eqI)
  qed
qed

section \<open>Issued leases\<close>

definition leases_ok :: "db \<Rightarrow> delivery_lease list \<Rightarrow> bool" where
  "leases_ok s ls \<longleftrightarrow> distinct (map le_token ls)
     \<and> (\<forall>ob \<in> set (outboxes s). \<forall>tk. o_token ob = Some tk \<longrightarrow>
          (\<exists>l \<in> set ls. le_token l = tk \<and> le_outbox l = o_id ob \<and> le_run l = o_run ob
             \<and> le_owner l = o_owner ob \<and> le_epoch l = o_epoch ob))"

lemma leases_ok_match:
  assumes "leases_ok s ls" and "l \<in> set ls" and "ob \<in> set (outboxes s)" and "o_token ob = Some (le_token l)"
  shows "le_outbox l = o_id ob \<and> le_run l = o_run ob \<and> le_owner l = o_owner ob \<and> le_epoch l = o_epoch ob"
proof -
  obtain l' where l': "l' \<in> set ls" "le_token l' = le_token l" "le_outbox l' = o_id ob"
    "le_run l' = o_run ob" "le_owner l' = o_owner ob" "le_epoch l' = o_epoch ob"
    using assms(1,3,4) unfolding leases_ok_def by blast
  have "l' = l" using distinct_map_unique [of le_token ls l' l] assms(1,2) l'(1,2)
    by (simp add: leases_ok_def)
  with l' show ?thesis by simp
qed

lemma leases_ok_tokens: "leases_ok s ls \<Longrightarrow> tokens_from s s' \<Longrightarrow> leases_ok s' ls"
  unfolding leases_ok_def tokens_from_def by (metis option.distinct(1))

lemma token_text_Some: "o_token ob = Some t \<Longrightarrow> token_text ob = t"
  by (simp add: token_text_def)

lemma outbox_of_iff:
  "reminder_inv s \<Longrightarrow> outbox_of s n = Some ob \<longleftrightarrow> ob \<in> set (outboxes s) \<and> o_id ob = n"
  using row_by_Some_iff [OF reminder_invD(5)] .

text \<open>The outcomes of \<open>mark_delivery_sent\<close> under a lease that was handed out.\<close>

lemma mark_delivery_sent_cases:
  assumes inv: "reminder_inv s" and ls: "leases_ok s ls" and l: "l \<in> set ls"
    and m: "mark_delivery_sent now l message s = (r, s')"
  shows "(\<exists>e. r = Inl e \<and> s' = s)
    \<or> (r = Inr True \<and> s' = s \<and> (\<exists>ob \<in> set (outboxes s). o_id ob = le_outbox l
         \<and> o_token ob = Some (le_token l) \<and> o_status ob = O_Sent \<and> o_message ob = Some message
         \<and> owner_current (le_owner l) (le_epoch l) s))
    \<or> (r = Inr True \<and> s' = commit_sent l message now s \<and> 0 < message
         \<and> owner_current (le_owner l) (le_epoch l) s
         \<and> (\<exists>ob \<in> set (outboxes s). o_id ob = le_outbox l \<and> o_run ob = le_run l
              \<and> o_token ob = Some (le_token l) \<and> o_status ob = O_Leased))
    \<or> (r = Inr False \<and> s' = record_external_commit l now s
         \<and> \<not> (owner_current (le_owner l) (le_epoch l) s
              \<and> (\<exists>ob \<in> set (outboxes s). o_token ob = Some (le_token l))))"
proof -
  define body :: "(bool \<times> db) result" where "body = (case outbox_of s (le_outbox l) of
        None \<Rightarrow> Inr (False, record_external_commit l now s)
      | Some ob \<Rightarrow>
          if lease_matches l ob s \<and> o_status ob = O_Sent then
            guardE (o_message ob \<noteq> Some message)
              (RuntimeError ''delivery was committed with another message id'') (Inr (True, s))
          else if lease_matches l ob s \<and> o_status ob = O_Leased then
            Inr (True, commit_sent l message now s)
          else Inr (False, record_external_commit l now s))"
  have mb: "mark_delivery_sent now l message s
      = (if message \<le> 0 then (Inl (ValueError ''Telegram message id must be positive''), s)
         else transaction (\<lambda>_. body) s)"
    by (simp add: mark_delivery_sent_def transaction_def body_def)
  show ?thesis
  proof (cases "message \<le> 0")
    case True
    with m mb have "r = Inl (ValueError ''Telegram message id must be positive'')" "s' = s" by simp_all
    then show ?thesis by blast
  next
    case False
    with m mb have t: "transaction (\<lambda>_. body) s = (r, s')" by simp
    have tok: "o_token ob = Some (le_token l) \<longleftrightarrow> token_text ob = le_token l"
      if "ob \<in> set (outboxes s)" "o_status ob \<in> {O_Leased, O_Sent}" for ob
      using reminder_invD(8) [OF inv that(1)] that(2) by (auto simp: outbox_ok_def token_text_def)
    have no: "\<not> (\<exists>ob \<in> set (outboxes s). o_token ob = Some (le_token l))"
      if n: "\<And>ob. outbox_of s (le_outbox l) = Some ob \<Longrightarrow> o_token ob \<noteq> Some (le_token l)"
    proof
      assume "\<exists>ob \<in> set (outboxes s). o_token ob = Some (le_token l)"
      then obtain ob where ob: "ob \<in> set (outboxes s)" "o_token ob = Some (le_token l)" by blast
      then have "outbox_of s (le_outbox l) = Some ob"
        using leases_ok_match [OF ls l ob] outbox_of_iff [OF inv] by simp
      with n ob(2) show False by blast
    qed
    show ?thesis
    proof (cases "outbox_of s (le_outbox l)")
      case None
      then have "r = Inr False" "s' = record_external_commit l now s"
        using t by (simp_all add: body_def transaction_def)
      with no None show ?thesis by auto
    next
      case (Some ob)
      then have ob: "ob \<in> set (outboxes s)" "o_id ob = le_outbox l" using outbox_of_iff [OF inv] by auto
      have ook: "outbox_ok ob" by (rule reminder_invD(8) [OF inv ob(1)])
      consider (sent) "lease_matches l ob s" "o_status ob = O_Sent"
        | (leased) "lease_matches l ob s" "o_status ob = O_Leased"
        | (none) "\<not> (lease_matches l ob s \<and> o_status ob \<in> {O_Sent, O_Leased})" by auto
      then show ?thesis
      proof cases
        case sent
        then have "o_token ob = Some (le_token l)" "owner_current (le_owner l) (le_epoch l) s"
          using tok [OF ob(1)] by (auto simp: lease_matches_def)
        with t Some sent ob show ?thesis
          by (auto simp: body_def transaction_def guardE_def split: if_splits)
      next
        case leased
        then have k: "o_token ob = Some (le_token l)" "owner_current (le_owner l) (le_epoch l) s"
          using tok [OF ob(1)] by (auto simp: lease_matches_def)
        have "o_run ob = le_run l" using leases_ok_match [OF ls l ob(1) k(1)] by simp
        with t Some leased ob k False show ?thesis
          by (auto simp: body_def transaction_def)
      next
        case none
        then have "r = Inr False" "s' = record_external_commit l now s"
          using t Some by (auto simp: body_def transaction_def split: if_splits)
        moreover have "\<not> (owner_current (le_owner l) (le_epoch l) s
            \<and> (\<exists>ob \<in> set (outboxes s). o_token ob = Some (le_token l)))"
        proof
          assume a: "owner_current (le_owner l) (le_epoch l) s
            \<and> (\<exists>ob \<in> set (outboxes s). o_token ob = Some (le_token l))"
          then have k: "o_token ob = Some (le_token l)" using no Some by auto
          then have "o_status ob \<in> {O_Leased, O_Sent}" using ook by (simp add: outbox_ok_def)
          moreover have "lease_matches l ob s"
            using leases_ok_match [OF ls l ob(1) k] a token_text_Some [OF k] by (simp add: lease_matches_def)
          ultimately show False using none by auto
        qed
        ultimately show ?thesis by blast
      qed
    qed
  qed
qed

lemma same_reminders_audit: "same_reminders s (record_external_commit l now s)"
  by (simp add: same_reminders_def record_external_commit_def)

lemma good_mark_delivery_sent:
  assumes inv: "reminder_inv s" and ls: "leases_ok s ls" and l: "l \<in> set ls"
  shows "good_step s (snd (mark_delivery_sent now l message s))"
proof (cases "mark_delivery_sent now l message s")
  case (Pair r s')
  from mark_delivery_sent_cases [OF inv ls l Pair] show ?thesis
  proof (elim disjE conjE exE bexE)
    assume c: "s' = commit_sent l message now s"
    fix ob assume ob: "ob \<in> set (outboxes s)" "o_id ob = le_outbox l" "o_run ob = le_run l"
      "o_token ob = Some (le_token l)" "o_status ob = O_Leased"
    have "good_step s (commit_sent l message now s)"
    proof (rule good_step_update)
      show "reminder_inv (commit_sent l message now s)"
        by (rule inv_commit [OF inv ob(1,2,3,5,4)])
      show "outboxes (commit_sent l message now s) =
        update_where (\<lambda>ob. o_id ob = le_outbox l \<and> o_token ob = Some (le_token l) \<and> o_status ob = O_Leased)
         (\<lambda>ob. ob\<lparr>o_status := O_Sent, o_message := Some message, o_until := None,
            o_updated := now\<rparr>) (outboxes s)" by (simp add: commit_sent_def)
    qed (auto simp: closed_box_def)
    then show ?thesis using Pair c by simp
  next
    assume "s' = record_external_commit l now s"
    moreover have "reminder_inv (record_external_commit l now s)"
      by (rule reminder_inv_same [OF same_reminders_audit inv])
    ultimately show ?thesis using Pair same_reminders_audit [of s l now]
      by (intro good_step_same_outboxes) (simp_all add: same_reminders_def)
  qed (use Pair good_step_refl [OF inv] in simp_all)
qed

text \<open>Releasing a delivery: the row becomes free again, or fails after the last attempt.\<close>

lemma release_delivery_cases:
  assumes inv: "reminder_inv s" and ls: "leases_ok s ls" and l: "l \<in> set ls"
    and m: "release_delivery now l err delay s = (r, s')"
  shows "(\<exists>e. r = Inl e \<and> s' = s) \<or> r = Inr False \<and> s' = s
    \<or> (\<exists>ob \<in> set (outboxes s). o_id ob = le_outbox l \<and> o_run ob = le_run l
         \<and> o_token ob = Some (le_token l) \<and> o_status ob = O_Leased \<and> r = Inr True
         \<and> owner_current (o_owner ob) (le_epoch l) s
         \<and> (if o_attempt ob < max_delivery_attempts
            then s' = release_outbox l O_Pending R_Due (now + seconds delay) err now s
            else s' = release_outbox l O_Failed R_Failed (o_available ob) err now s))"
proof (cases "leased_row l s")
  case None
  with m show ?thesis by (auto simp: release_delivery_def transaction_def guardE_def split: if_splits)
next
  case (Some ob)
  then have ob: "ob \<in> set (outboxes s)" "o_id ob = le_outbox l" "o_token ob = Some (le_token l)"
    "o_status ob = O_Leased"
    by (auto simp: leased_row_def find_Some_iff)
  have "o_run ob = le_run l" using leases_ok_match [OF ls l ob(1,3)] by simp
  define body :: "(bool \<times> db) result" where "body =
     guardE (\<not> error_kind_ok err) (ValueError ''delivery error kind is invalid'')
     (guardE (delay < 1 \<or> 3600 < delay) (ValueError ''delivery retry delay is invalid'')
     (if \<not> owner_current (o_owner ob) (le_epoch l) s then Inr (False, s)
      else if max_delivery_attempts \<le> o_attempt ob then
        Inr (True, release_outbox l O_Failed R_Failed (o_available ob) err now s)
      else bindE (datetime_add now (seconds delay)) (\<lambda>available.
        Inr (True, release_outbox l O_Pending R_Due available err now s))))"
  have t: "transaction (\<lambda>_. body) s = (r, s')"
    using m Some by (simp add: release_delivery_def transaction_def body_def)
  show ?thesis
  proof (cases body)
    case (Inl e)
    with t have "r = Inl e" "s' = s" by (simp_all add: transaction_def)
    then show ?thesis by blast
  next
    case (Inr q)
    then have q: "r = Inr (fst q)" "s' = snd q" using t by (simp_all add: transaction_def split: prod.splits)
    from Inr consider (no) "q = (False, s)"
      | (yes) "owner_current (o_owner ob) (le_epoch l) s" "fst q"
        "snd q = (if o_attempt ob < max_delivery_attempts
          then release_outbox l O_Pending R_Due (now + seconds delay) err now s
          else release_outbox l O_Failed R_Failed (o_available ob) err now s)"
      by (auto simp: body_def guardE_def bindE_eq_Inr datetime_add_def split: if_splits)
    then show ?thesis
    proof cases
      case no
      with q show ?thesis by simp
    next
      case yes
      with q have "r = Inr True" by simp
      with yes q ob \<open>o_run ob = le_run l\<close> show ?thesis by (intro disjI2 bexI [of _ ob]) simp_all
    qed
  qed
qed

lemma good_release_delivery:
  assumes inv: "reminder_inv s" and ls: "leases_ok s ls" and l: "l \<in> set ls"
  shows "good_step s (snd (release_delivery now l err delay s))"
proof (cases "release_delivery now l err delay s")
  case (Pair r s')
  have rel: "good_step s (release_outbox l ost rst available err now s)"
    if ob: "ob \<in> set (outboxes s)" "o_id ob = le_outbox l" "o_run ob = le_run l" "o_status ob = O_Leased"
      and st: "ost = O_Failed \<and> rst = R_Failed
        \<or> ost = O_Pending \<and> rst = R_Due \<and> o_attempt ob < max_delivery_attempts" for ob ost rst available
  proof (rule good_step_update)
    show "reminder_inv (release_outbox l ost rst available err now s)" by (rule inv_release [OF inv ob st])
    show "outboxes (release_outbox l ost rst available err now s)
      = update_where (\<lambda>ob. o_id ob = le_outbox l) (\<lambda>ob. ob\<lparr>o_status := ost, o_available := available,
          o_token := None, o_until := None, o_error := Some err, o_updated := now\<rparr>) (outboxes s)"
      by (simp add: release_outbox_def)
    fix x assume x: "x \<in> set (outboxes s)" "o_id x = le_outbox l"
    have "x = ob" using distinct_map_unique [OF reminder_invD(5) [OF inv] x(1) ob(1)] x(2) ob(2) by simp
    then show "\<not> closed_box x" using ob(4) by (simp add: closed_box_def)
  qed simp
  from release_delivery_cases [OF inv ls l Pair] show ?thesis
  proof (elim disjE bexE conjE exE)
    fix ob assume "ob \<in> set (outboxes s)" "o_id ob = le_outbox l" "o_run ob = le_run l" "o_status ob = O_Leased"
      "if o_attempt ob < max_delivery_attempts
       then s' = release_outbox l O_Pending R_Due (now + seconds delay) err now s
       else s' = release_outbox l O_Failed R_Failed (o_available ob) err now s"
    then show ?thesis using rel Pair by (auto split: if_splits)
  qed (use Pair good_step_refl [OF inv] in simp_all)
qed

text \<open>A lease with a fresh token joins the leases handed out.\<close>

lemma leases_ok_grant:
  assumes inv: "reminder_inv s" and ls: "leases_ok s ls" and n: "next_eligible now s = Some ob"
    and j: "outbox_job ob s = Some j" and fresh: "token \<notin> le_token ` set ls"
  shows "leases_ok (grant_outbox now lu token ob s) (lease_of lu token ob j # ls)"
  unfolding leases_ok_def
proof (intro conjI ballI allI impI)
  show "distinct (map le_token (lease_of lu token ob j # ls))"
    using ls fresh by (simp add: leases_ok_def lease_of_def)
  fix x tk assume x: "x \<in> set (outboxes (grant_outbox now lu token ob s))" "o_token x = Some tk"
  note ob = next_eligible_Some(1) [OF n]
  from outboxes_grant_mem [OF inv ob x(1)]
  show "\<exists>l \<in> set (lease_of lu token ob j # ls). le_token l = tk \<and> le_outbox l = o_id x
      \<and> le_run l = o_run x \<and> le_owner l = o_owner x \<and> le_epoch l = o_epoch x"
  proof
    assume "x = granted_row now lu token ob"
    with x(2) show ?thesis by (simp add: granted_row_def lease_of_def)
  next
    assume "x \<in> set (outboxes s) \<and> o_id x \<noteq> o_id ob"
    with ls x(2) have "\<exists>l \<in> set ls. le_token l = tk \<and> le_outbox l = o_id x
      \<and> le_run l = o_run x \<and> le_owner l = o_owner x \<and> le_epoch l = o_epoch x"
      unfolding leases_ok_def by blast
    then show ?thesis by (auto intro: bexI)
  qed
qed

section \<open>The step relation\<close>

text \<open>
  A state is the database and the leases handed out so far. \<open>other\<close> is whatever the rest
  of the program does to tables the reminder store does not write: profiles (the lifecycle
  epoch included), personas, sessions, memory.
\<close>

inductive reminder_step ::
    "zone_db \<Rightarrow> db \<times> delivery_lease list \<Rightarrow> db \<times> delivery_lease list \<Rightarrow> bool" for zones where
  create: "rule_ok (dr_rule d) \<Longrightarrow> create_draft zones now d s = (r, s')
    \<Longrightarrow> reminder_step zones (s, ls) (s', ls)"
| mark: "mark_awaiting_confirmation now n owner s = (r, s') \<Longrightarrow> reminder_step zones (s, ls) (s', ls)"
| confirm: "activate zones now n owner s = (r, s') \<Longrightarrow> reminder_step zones (s, ls) (s', ls)"
| materialize: "materialize_due zones now limit s = (r, s') \<Longrightarrow> reminder_step zones (s, ls) (s', ls)"
| lease_none: "lease_delivery now token secs s = (Inr None, s') \<Longrightarrow> reminder_step zones (s, ls) (s', ls)"
| lease_some: "token \<notin> le_token ` set ls \<Longrightarrow> lease_delivery now token secs s = (Inr (Some l), s')
    \<Longrightarrow> reminder_step zones (s, ls) (s', l # ls)"
| sent: "l \<in> set ls \<Longrightarrow> mark_delivery_sent now l message s = (r, s')
    \<Longrightarrow> reminder_step zones (s, ls) (s', ls)"
| release: "l \<in> set ls \<Longrightarrow> release_delivery now l err delay s = (r, s')
    \<Longrightarrow> reminder_step zones (s, ls) (s', ls)"
| snooze: "snooze_task zones now n owner action delay s = (r, s')
    \<Longrightarrow> reminder_step zones (s, ls) (s', ls)"
| cancel: "cancel_task now n owner s = (r, s') \<Longrightarrow> reminder_step zones (s, ls) (s', ls)"
| complete: "complete_task now n owner s = (r, s') \<Longrightarrow> reminder_step zones (s, ls) (s', ls)"
| purge: "purge_owner owner epoch s = (r, s') \<Longrightarrow> reminder_step zones (s, ls) (s', ls)"
| other: "same_reminders s s' \<Longrightarrow> reminder_step zones (s, ls) (s', ls)"

inductive reminder_reachable :: "zone_db \<Rightarrow> db \<times> delivery_lease list \<Rightarrow> bool" for zones where
  start: "reminder_reachable zones (empty_db, [])"
| step: "reminder_reachable zones st \<Longrightarrow> reminder_step zones st st' \<Longrightarrow> reminder_reachable zones st'"

definition sys_inv :: "db \<times> delivery_lease list \<Rightarrow> bool" where
  "sys_inv st \<longleftrightarrow> reminder_inv (fst st) \<and> leases_ok (fst st) (snd st)"

lemma sys_inv_good:
  assumes "sys_inv (s, ls)" and "good_step s s'"
  shows "sys_inv (s', ls) \<and> closed_kept s s'"
  using assms leases_ok_tokens by (auto simp: sys_inv_def good_step_def)

lemma operation_good:
  assumes "sys_inv (s, ls)" and "reminder_inv s \<Longrightarrow> leases_ok s ls \<Longrightarrow> good_step s (snd (f s))"
    and "f s = (r, s')"
  shows "sys_inv (s', ls) \<and> closed_kept (fst (s, ls)) (fst (s', ls))"
  using assms sys_inv_good [OF assms(1), of s'] by (simp add: sys_inv_def)

lemma lease_delivery_step:
  assumes inv: "sys_inv (s, ls)" and fresh: "token \<notin> le_token ` set ls"
    and run: "lease_delivery now token secs s = (Inr (Some l), s')"
  shows "sys_inv (s', l # ls) \<and> closed_kept s s'"
proof -
  have I: "reminder_inv s" and L: "leases_ok s ls" using inv by (simp_all add: sys_inv_def)
  from lease_delivery_cases [OF I, of now token secs] run
  obtain s0 ob j lu where e: "expired_from now s s0" and n: "next_eligible now s0 = Some ob"
    and j: "outbox_job ob s0 = Some j" and l: "l = lease_of lu token ob j"
    and s': "s' = grant_outbox now lu token ob s0" by auto
  have g: "good_step s s0" by (rule good_expired_from [OF e I])
  then have I0: "reminder_inv s0" and L0: "leases_ok s0 ls"
    using leases_ok_tokens [OF L] by (simp_all add: good_step_def)
  note gr = good_grant [OF I0 n, of lu token]
  have "closed_kept s s'" unfolding closed_kept_def
  proof (intro ballI impI)
    fix x assume x: "x \<in> set (outboxes s)" "closed_box x"
    have "\<not> (eligible now s x \<and> past_deadline now s x)"
      using x(2) by (auto simp: closed_box_def eligible_def)
    with expired_from_inv [OF e I] x(1) have "x \<in> set (outboxes s0)" by blast
    then show "x \<in> set (outboxes s') \<or> (\<forall>y \<in> set (outboxes s'). o_owner y \<noteq> o_owner x)"
      using gr x(2) by (simp add: s' closed_kept_def)
  qed
  with gr leases_ok_grant [OF I0 L0 n j fresh] show ?thesis by (simp add: sys_inv_def s' l)
qed

lemma reminder_step_good:
  assumes "reminder_step zones st st'" and "sys_inv st"
  shows "sys_inv st' \<and> closed_kept (fst st) (fst st')"
  using assms
proof (induction rule: reminder_step.induct)
  case (lease_none now token secs s s' ls)
  have I: "reminder_inv s" using lease_none(2) by (simp add: sys_inv_def)
  from lease_delivery_cases [OF I, of now token secs] lease_none(1) have "expired_from now s s'" by auto
  from sys_inv_good [OF lease_none(2) good_expired_from [OF this I]] show ?case by simp
next
  case (lease_some token ls now secs s l s')
  from lease_delivery_step [OF lease_some(3,1,2)] show ?case by simp
next
  case (other s s' ls)
  have "good_step s s'"
    using other good_step_same_outboxes [OF reminder_inv_same [OF other(1)]]
    by (simp add: sys_inv_def same_reminders_def)
  from sys_inv_good [OF other(2) this] show ?case by simp
next
  case (create d now s r s' ls)
  show ?case by (rule operation_good [where f = "create_draft zones now d", OF _ good_create_draft])
      (use create in \<open>simp_all\<close>)
next
  case (mark now n owner s r s' ls)
  show ?case by (rule operation_good [where f = "mark_awaiting_confirmation now n owner", OF _ good_mark_awaiting])
      (use mark in \<open>simp_all\<close>)
next
  case (confirm now n owner s r s' ls)
  show ?case by (rule operation_good [where f = "activate zones now n owner", OF _ good_activate])
      (use confirm in \<open>simp_all\<close>)
next
  case (materialize now limit s r s' ls)
  show ?case by (rule operation_good [where f = "materialize_due zones now limit", OF _ good_materialize_due])
      (use materialize in \<open>simp_all\<close>)
next
  case (sent l ls now message s r s')
  show ?case by (rule operation_good [where f = "mark_delivery_sent now l message", OF _ good_mark_delivery_sent])
      (use sent in \<open>simp_all\<close>)
next
  case (release l ls now err delay s r s')
  show ?case by (rule operation_good [where f = "release_delivery now l err delay", OF _ good_release_delivery])
      (use release in \<open>simp_all\<close>)
next
  case (snooze now n owner action delay s r s' ls)
  show ?case by (rule operation_good [where f = "snooze_task zones now n owner action delay", OF _ good_snooze_task])
      (use snooze in \<open>simp_all\<close>)
next
  case (cancel now n owner s r s' ls)
  show ?case by (rule operation_good [where f = "finish_task T_Cancelled now n owner", OF _ good_finish_task])
      (use cancel in \<open>simp_all add: cancel_task_def\<close>)
next
  case (complete now n owner s r s' ls)
  show ?case by (rule operation_good [where f = "finish_task T_Completed now n owner", OF _ good_finish_task])
      (use complete in \<open>simp_all add: complete_task_def\<close>)
next
  case (purge owner epoch s r s' ls)
  show ?case by (rule operation_good [where f = "purge_owner owner epoch", OF _ good_purge_owner])
      (use purge in \<open>simp_all\<close>)
qed

lemma sys_inv_start: "sys_inv (empty_db, [])"
  by (simp add: sys_inv_def reminder_inv_def leases_ok_def empty_db_def)

lemma reachable_sys_inv: "reminder_reachable zones st \<Longrightarrow> sys_inv st"
  by (induction rule: reminder_reachable.induct) (auto simp: sys_inv_start dest: reminder_step_good)

end
