(* ===== verification/Reminder_Example.thy ===== *)
theory Reminder_Example
  imports Reminder_System
begin

text \<open>
  One concrete history of the reminder store: owner 7 creates a daily reminder with two
  occurrences, confirms it, the first occurrence becomes a run and its delivery is leased and
  sent. Every step is evaluated, so the last state is a reachable one on which the properties
  can be applied.
\<close>

definition demo_zones :: zone_db where
  "demo_zones = (\<lambda>_. Some \<lparr>z_initial = 0, z_trans = []\<rparr>)"

definition demo_rule :: recurrence_rule where
  "demo_rule = \<lparr>r_kind = DAILY, r_interval = 1, r_weekdays = [], r_monthday = None,
     r_count = Some 2, r_until = None\<rparr>"

definition demo_draft :: reminder_draft where
  "demo_draft = \<lparr>dr_owner = 7, dr_persona = 3, dr_chat = 70, dr_text = [82],
     dr_start = Naive 63771674400000000, dr_timezone = [90], dr_rule = demo_rule, dr_grace = 3600,
     dr_quiet_start = None, dr_quiet_end = None, dr_urgent = False\<rparr>"

definition demo_state :: "task list \<Rightarrow> job list \<Rightarrow> run list \<Rightarrow> outbox list \<Rightarrow> db" where
  "demo_state ts js rs obs = empty_db\<lparr>
     profiles := [\<lparr>p_user = 7, p_timezone = [90], p_created = 0, p_epoch = 1,
       p_state = L_Active, p_quiet_start = None, p_quiet_end = None\<rparr>],
     personas := [\<lparr>pr_id = 3, pr_profile = [76], pr_key = [76], pr_display = [76], pr_prompt = [76],
       pr_identity = 1, pr_active = True\<rparr>],
     tasks := ts, jobs := js, runs := rs, outboxes := obs\<rparr>"

definition demo_task :: "task_status \<Rightarrow> int \<Rightarrow> task" where
  "demo_task st t = \<lparr>tk_id = 1, tk_owner = 7, tk_persona = 3, tk_chat = 70, tk_epoch = 1,
     tk_text = [82], tk_status = st, tk_created = 100, tk_updated = t\<rparr>"

definition demo_job :: "job_status \<Rightarrow> int option \<Rightarrow> int \<Rightarrow> int \<Rightarrow> job" where
  "demo_job st nx e t = \<lparr>j_id = 1, j_task = 1, j_owner = 7, j_epoch = 1, j_status = st,
     j_timezone = [90], j_start = 63771674400000000, j_rule = demo_rule, j_next = nx, j_emitted = e,
     j_grace = 3600, j_quiet_start = None, j_quiet_end = None, j_urgent = False, j_created = 100,
     j_updated = t\<rparr>"

definition demo_run :: "run_status \<Rightarrow> int option \<Rightarrow> int option \<Rightarrow> int \<Rightarrow> run" where
  "demo_run st cl dl t = \<lparr>rn_id = 1, rn_job = 1, rn_owner = 7, rn_epoch = 1,
     rn_scheduled = 63771674400000000, rn_status = st, rn_claimed = cl, rn_delivered = dl,
     rn_error = None, rn_action = None, rn_created = 63771674400000000, rn_updated = t\<rparr>"

definition demo_box :: "outbox_status \<Rightarrow> int \<Rightarrow> pystr option \<Rightarrow> int option \<Rightarrow> int option \<Rightarrow> int \<Rightarrow> outbox" where
  "demo_box st a tok lu msg t = \<lparr>o_id = 1, o_run = 1, o_owner = 7, o_epoch = 1, o_chat = 70,
     o_text = [82], o_scheduled = 63771674400000000, o_available = 63771674400000000,
     o_status = st, o_attempt = a, o_token = tok, o_until = lu, o_message = msg, o_error = None,
     o_created = 63771674400000000, o_updated = t\<rparr>"

lemmas demo_rows = demo_task_def demo_job_def demo_run_def demo_box_def

lemmas demo_eval = demo_zones_def demo_state_def demo_draft_def demo_rule_def empty_db_def demo_rows
  transaction_def row_by_def next_rowid_def update_where_def set_task_def set_job_def
  owned_task_and_job_def first_job_def job_by_id_def task_by_id_def ensure_current_epoch_def
  first_by_def active_profile_def seconds_def resolve_eval

lemma demo_create:
  "create_draft demo_zones 100 demo_draft (demo_state [] [] [] [])
     = (Inr (demo_task T_Awaiting 100, demo_job J_Draft None 0 100),
        demo_state [demo_task T_Awaiting 100] [demo_job J_Draft None 0 100] [] [])"
  by (simp add: create_draft_def validate_draft_def active_profile_def validate_timezone_def
      validate_quiet_policy_def sql_nonblank_def insert_task_def insert_job_def demo_eval Let_def)

lemma demo_mark:
  "mark_awaiting_confirmation 101 1 7
      (demo_state [demo_task T_Awaiting 100] [demo_job J_Draft None 0 100] [] [])
     = (Inr (demo_job J_Awaiting None 0 101),
        demo_state [demo_task T_Awaiting 100] [demo_job J_Awaiting None 0 101] [] [])"
  by (simp add: mark_awaiting_confirmation_def demo_eval Let_def)

lemma demo_first: "next_occurrence demo_rule (Naive 63771674400000000) None 0 = Inr (Some 63771674400000000)"
  by code_simp

lemma demo_second: "next_occurrence demo_rule (Naive 63771674400000000) (Some (Naive 63771674400000000)) 1 = Inr (Some 63771760800000000)"
  by code_simp

lemma demo_resolve: "resolve_local_time demo_zones (Naive 63771674400000000) [90] = Inr 63771674400000000"
  "resolve_local_time demo_zones (Naive 63771760800000000) [90] = Inr 63771760800000000"
  by (simp_all add: resolve_eval demo_zones_def)

lemma demo_activate:
  "activate demo_zones 102 1 7
      (demo_state [demo_task T_Awaiting 100] [demo_job J_Awaiting None 0 101] [] [])
     = (Inr (demo_job J_Active (Some 63771674400000000) 0 102),
        demo_state [demo_task T_Active 102] [demo_job J_Active (Some 63771674400000000) 0 102] [] [])"
proof -
  have "first_instant demo_zones (demo_job J_Awaiting None 0 101) = Inr (Some 63771674400000000)"
    by (simp add: first_instant_def demo_job_def demo_first demo_resolve)
  moreover have "owned_task_and_job 1 7 (demo_state [demo_task T_Awaiting 100] [demo_job J_Awaiting None 0 101] [] [])
    = Inr (demo_task T_Awaiting 100, demo_job J_Awaiting None 0 101)" by (simp add: demo_eval)
  ultimately show ?thesis by (simp add: activate_def) (simp add: demo_eval Let_def)
qed

abbreviation demo_active :: db where
  "demo_active \<equiv> demo_state [demo_task T_Active 102]
     [demo_job J_Active (Some 63771674400000000) 0 102] [] []"

abbreviation demo_due :: db where
  "demo_due \<equiv> demo_state [demo_task T_Active 102]
     [demo_job J_Active (Some 63771760800000000) 1 63771674400000000]
     [demo_run R_Due None None 63771674400000000]
     [demo_box O_Pending 0 None None None 63771674400000000]"

lemma demo_due_jobs:
  "due_jobs 63771674400000000 10 demo_active
     = [(demo_job J_Active (Some 63771674400000000) 0 102, demo_task T_Active 102)]"
  by (simp add: due_jobs_def job_due_def next_of_def demo_eval)

lemma demo_advance:
  "advance_job_cursor demo_zones 63771674400000000 (demo_job J_Active (Some 63771674400000000) 0 102)
      63771674400000000 s
   = Inr (set_job 1 (\<lambda>r. r\<lparr>j_next := Some 63771760800000000, j_emitted := 1,
       j_updated := 63771674400000000\<rparr>) s)"
proof -
  have "astimezone_local \<lparr>z_initial = 0, z_trans = []\<rparr> 63771674400000000 = Inr 63771674400000000"
    by (simp add: resolve_eval)
  then show ?thesis
    by (simp add: advance_job_cursor_def demo_job_def demo_zones_def demo_second
        demo_resolve [unfolded demo_zones_def])
qed

lemma next_of_job: "next_of (demo_job st nx e t) = (case nx of Some n \<Rightarrow> n | None \<Rightarrow> 0)"
  by (simp add: next_of_def demo_job_def)

lemma demo_materialize:
  "materialize_due demo_zones 63771674400000000 10 demo_active
     = (Inr [demo_run R_Due None None 63771674400000000], demo_due)"
proof -
  have "release_time demo_zones (demo_job J_Active (Some 63771674400000000) 0 102) 63771674400000000
     = Inr (63771674400000000, False)"
    by (simp add: release_time_def quiet_hours_available_at_def demo_eval)
  moreover have "run_exists 1 63771674400000000 demo_active = False"
    by (simp add: run_exists_def demo_eval)
  moreover have "datetime_add 63771674400000000 (seconds 3600) = Inr 63771678000000000"
    by (simp add: demo_eval)
  moreover have "j_id (demo_job J_Active (Some 63771674400000000) 0 102) = 1"
    "j_grace (demo_job J_Active (Some 63771674400000000) 0 102) = 3600" by (simp_all add: demo_job_def)
  ultimately have "materialize_one demo_zones 63771674400000000
      (demo_job J_Active (Some 63771674400000000) 0 102, demo_task T_Active 102) demo_active
    = Inr ([demo_run R_Due None None 63771674400000000], demo_due)"
    by (simp add: materialize_one_def record_occurrence_def next_of_job demo_advance Let_def
        del: One_nat_def)
      (simp add: insert_run_def new_run_def new_outbox_def demo_eval)
  then show ?thesis
    by (simp add: materialize_due_def transaction_def demo_due_jobs)
qed

abbreviation demo_leased :: db where
  "demo_leased \<equiv> demo_state [demo_task T_Active 102]
     [demo_job J_Active (Some 63771760800000000) 1 63771674400000000]
     [demo_run R_Claimed (Some 63771674460000000) None 63771674460000000]
     [demo_box O_Leased 1 (Some [84]) (Some 63771674520000000) None 63771674460000000]"

definition demo_lease :: delivery_lease where
  "demo_lease = \<lparr>le_outbox = 1, le_run = 1, le_task = 1, le_owner = 7, le_epoch = 1, le_chat = 70,
     le_text = [82], le_scheduled = 63771674400000000, le_attempt = 1, le_token = [84],
     le_until = 63771674520000000\<rparr>"

lemma demo_lease_step:
  "lease_delivery 63771674460000000 [84] 60 demo_due = (Inr (Some demo_lease), demo_leased)"
proof -
  have 1: "next_eligible 63771674460000000 demo_due = Some (demo_box O_Pending 0 None None None 63771674400000000)"
    by (simp add: next_eligible_def eligible_def outbox_job_def owner_current_def demo_eval max_delivery_attempts_def)
  have 2: "delivery_deadline (demo_box O_Pending 0 None None None 63771674400000000) demo_due = Inr 63771678000000000"
    by (simp add: delivery_deadline_def outbox_job_def demo_eval)
  have 3: "grant_outbox 63771674460000000 63771674520000000 [84] (demo_box O_Pending 0 None None None 63771674400000000) demo_due
    = demo_leased"
    by (simp add: grant_outbox_def set_open_run_def set_outbox_def demo_eval)
  have 4: "read_lease 1 demo_leased = Inr demo_lease"
    by (simp add: read_lease_def lease_from_row_def outbox_job_def demo_eval demo_lease_def)
  have "o_id (demo_box O_Pending 0 None None None 63771674400000000) = 1" by (simp add: demo_box_def)
  with 1 2 3 4 show ?thesis
    by (simp add: lease_delivery_def transaction_def lease_loop.simps Let_def datetime_add_def valid_datetime_def seconds_def)
qed

abbreviation demo_sent :: db where
  "demo_sent \<equiv> demo_state [demo_task T_Active 102]
     [demo_job J_Active (Some 63771760800000000) 1 63771674400000000]
     [demo_run R_Delivered (Some 63771674460000000) (Some 63771674470000000) 63771674470000000]
     [demo_box O_Sent 1 (Some [84]) None (Some 900) 63771674470000000]"

lemma demo_mark_sent:
  "mark_delivery_sent 63771674470000000 demo_lease 900 demo_leased = (Inr True, demo_sent)"
  by (simp add: mark_delivery_sent_def lease_matches_def token_text_def owner_current_def commit_sent_def demo_lease_def
      demo_eval)

section \<open>The states of the history are reachable\<close>

lemma rule_ok_demo: "rule_ok (dr_rule demo_draft)"
  by (simp add: rule_ok_def demo_draft_def demo_rule_def)

lemma demo_reachable_awaiting:
  "reminder_reachable demo_zones
     (demo_state [demo_task T_Awaiting 100] [demo_job J_Awaiting None 0 101] [] [], [])"
proof -
  have "same_reminders empty_db (demo_state [] [] [] [])"
    by (simp add: same_reminders_def demo_state_def empty_db_def)
  then have "reminder_reachable demo_zones (demo_state [] [] [] [], [])"
    by (rule reminder_reachable.step [OF reminder_reachable.start reminder_step.other])
  then have "reminder_reachable demo_zones
      (demo_state [demo_task T_Awaiting 100] [demo_job J_Draft None 0 100] [] [], [])"
    by (rule reminder_reachable.step) (rule reminder_step.create [OF rule_ok_demo demo_create])
  then show ?thesis by (rule reminder_reachable.step) (rule reminder_step.mark [OF demo_mark])
qed

lemma demo_reachable_active: "reminder_reachable demo_zones (demo_active, [])"
  by (rule reminder_reachable.step [OF demo_reachable_awaiting reminder_step.confirm [OF demo_activate]])

lemma demo_reachable_due: "reminder_reachable demo_zones (demo_due, [])"
  by (rule reminder_reachable.step [OF demo_reachable_active reminder_step.materialize [OF demo_materialize]])

lemma demo_reachable_leased: "reminder_reachable demo_zones (demo_leased, [demo_lease])"
  by (rule reminder_reachable.step [OF demo_reachable_due reminder_step.lease_some [OF _ demo_lease_step]]) simp

lemma demo_reachable_sent: "reminder_reachable demo_zones (demo_sent, [demo_lease])"
  by (rule reminder_reachable.step [OF demo_reachable_leased reminder_step.sent [OF _ demo_mark_sent]]) simp

end
