(* ===== verification/Reminder_Properties.thy ===== *)
theory Reminder_Properties
  imports Reminder_Example
begin

text \<open>
  The properties of the reminder store in the states reachable from the empty database, each
  with a witness on the history of Reminder_Example.
\<close>

section \<open>What every reachable state satisfies\<close>

lemma reachable_inv:
  "reminder_reachable zones (s, ls) \<Longrightarrow> reminder_inv s" "reminder_reachable zones (s, ls) \<Longrightarrow> leases_ok s ls"
  using reachable_sys_inv by (auto simp: sys_inv_def)

lemma run_row_job:
  assumes "reminder_inv s" and "r \<in> set (runs s)" and "j \<in> set (jobs s)" and "rn_job r = j_id j"
  shows "\<not> unconfirmed j" and "open_run r \<Longrightarrow> \<exists>t \<in> set (tasks s). tk_id t = j_task j \<and> \<not> closed_task t"
proof -
  obtain k where k: "k \<in> set (jobs s)" "j_id k = rn_job r" "\<not> unconfirmed k"
    "open_run r \<Longrightarrow> \<exists>t \<in> set (tasks s). tk_id t = j_task k \<and> \<not> closed_task t"
    using reminder_invD(12) [OF assms(1,2)] unfolding run_row_ok_def by blast
  have "k = j" by (rule distinct_map_unique [OF reminder_invD(2) [OF assms(1)] k(1) assms(3)]) (simp add: k(2) assms(4))
  with k(3,4) show "\<not> unconfirmed j"
    "open_run r \<Longrightarrow> \<exists>t \<in> set (tasks s). tk_id t = j_task j \<and> \<not> closed_task t" by simp_all
qed

lemma open_outbox_task:
  assumes inv: "reminder_inv s" and ob: "ob \<in> set (outboxes s)" and j: "outbox_job ob s = Some j"
    and st: "o_status ob \<in> {O_Pending, O_Leased}"
  shows "\<exists>t \<in> set (tasks s). tk_id t = j_task j \<and> \<not> closed_task t"
proof -
  obtain r where r: "r \<in> set (runs s)" "linked r ob"
    using list_all2_right [OF reminder_invD(7) [OF inv] ob] by blast
  have "run_of s (o_run ob) = Some r"
    using row_by_unique [OF reminder_invD(4) [OF inv] r(1)] r(2) by (simp add: linked_def)
  with j have "job_of s (rn_job r) = Some j" by (simp add: outbox_job_def)
  then have jj: "j \<in> set (jobs s)" "rn_job r = j_id j" using row_by_Some by (metis, metis)
  have "open_run r" using r(2) st pair_ok_open [of "rn_status r" "o_status ob"]
    by (simp add: linked_def open_run_def)
  then show ?thesis by (rule run_row_job(2) [OF inv r(1) jj])
qed

lemma expired_from_jobs:
  "expired_from now s s' \<Longrightarrow> outbox_job ob s' = outbox_job ob s \<and> tasks s' = tasks s"
  by (induction rule: expired_from.induct)
    (simp_all add: expire_outbox_def set_open_run_def set_outbox_def outbox_job_def row_by_update split: option.split)

text \<open>
C1: In every reachable state a job has at most one run for a scheduled instant, and the runs
correspond one to one to the outbox rows: same owner, epoch and scheduled time, and statuses
that belong together. No row has been attempted more than three times, and a row has a lease
token exactly while it is leased or sent.
\<close>
theorem one_run_one_delivery:
  assumes "reminder_reachable zones (s, ls)"
  shows "distinct (map (\<lambda>r. (rn_job r, rn_scheduled r)) (runs s))
    \<and> map o_run (outboxes s) = map rn_id (runs s) \<and> list_all2 linked (runs s) (outboxes s)
    \<and> (\<forall>ob \<in> set (outboxes s). 0 \<le> o_attempt ob \<and> o_attempt ob \<le> 3
        \<and> (o_token ob \<noteq> None \<longleftrightarrow> o_status ob \<in> {O_Leased, O_Sent}))"
proof -
  note inv = reachable_inv(1) [OF assms]
  have "run_key = (\<lambda>r. (rn_job r, rn_scheduled r))" by (simp add: run_key_def [abs_def])
  then have "distinct (map (\<lambda>r. (rn_job r, rn_scheduled r)) (runs s))"
    using reminder_invD(6) [OF inv] by simp
  moreover have "0 \<le> o_attempt ob \<and> o_attempt ob \<le> 3 \<and> (o_token ob \<noteq> None \<longleftrightarrow> o_status ob \<in> {O_Leased, O_Sent})"
    if "ob \<in> set (outboxes s)" for ob
    using reminder_invD(8) [OF inv that] by (simp add: outbox_ok_def max_delivery_attempts_def)
  ultimately show ?thesis using reminder_invD(7) [OF inv] outbox_run_keys by blast
qed

theorem one_run_one_delivery_witness:
  "map o_run (outboxes demo_sent) = map rn_id (runs demo_sent) \<and> length (outboxes demo_sent) = 1"
  using one_run_one_delivery [OF demo_reachable_sent] by (simp add: demo_state_def)

text \<open>
C3: A recurrence with a count never produces more scheduled runs than the count, whatever
snoozes, retries and passes happen, and the stored counter is exactly the number of scheduled
runs of the job.
\<close>
theorem count_never_exceeded:
  assumes "reminder_reachable zones (s, ls)" and "j \<in> set (jobs s)"
  shows "j_emitted j = int (emitted_runs (j_id j) (runs s))
    \<and> (case r_count (j_rule j) of None \<Rightarrow> True | Some c \<Rightarrow> int (emitted_runs (j_id j) (runs s)) \<le> c)"
proof -
  note inv = reachable_inv(1) [OF assms(1)]
  have "j_emitted j = int (emitted_runs (j_id j) (runs s))"
    using reminder_invD(11) [OF inv assms(2)] by (simp add: job_count_ok_def)
  moreover have "j_emitted j \<le> c" if "r_count (j_rule j) = Some c" for c
    using reminder_invD(9) [OF inv assms(2)] that by (simp add: job_row_ok_def)
  ultimately show ?thesis by (auto split: option.split)
qed

theorem count_never_exceeded_witness:
  "int (emitted_runs 1 (runs demo_sent)) \<le> 2"
  using count_never_exceeded [OF demo_reachable_sent, of "demo_job J_Active (Some 63771760800000000) 1 63771674400000000"]
  by (simp add: demo_state_def demo_job_def demo_rule_def)

text \<open>
A job that its owner has not confirmed yet has no run at all.
\<close>
theorem unconfirmed_job_has_no_run:
  assumes "reminder_reachable zones (s, ls)" and "j \<in> set (jobs s)" and "j_status j \<in> {J_Draft, J_Awaiting}"
  shows "list_runs (j_id j) owner s = [] \<and> (\<forall>r \<in> set (runs s). rn_job r \<noteq> j_id j)"
proof -
  note inv = reachable_inv(1) [OF assms(1)]
  have "\<forall>r \<in> set (runs s). rn_job r \<noteq> j_id j"
    using run_row_job(1) [OF inv _ assms(2)] assms(3) by (auto simp: unconfirmed_def)
  then show ?thesis by (auto simp: list_runs_def filter_empty_conv)
qed

theorem unconfirmed_job_has_no_run_witness:
  "list_runs 1 7 (demo_state [demo_task T_Awaiting 100] [demo_job J_Awaiting None 0 101] [] []) = []"
  using unconfirmed_job_has_no_run [OF demo_reachable_awaiting, of "demo_job J_Awaiting None 0 101" 7]
  by (simp add: demo_state_def demo_job_def)

section \<open>Leasing a delivery\<close>

text \<open>What a granted lease says about the database before and after.\<close>

lemma leased_from:
  assumes "reminder_reachable zones (s, ls)" and "lease_delivery now token secs s = (Inr (Some l), s')"
  obtains s0 ob j where "expired_from now s s0" and "next_eligible now s0 = Some ob" and "outbox_job ob s = Some j"
    and "\<not> past_deadline now s ob" and "l = lease_of (now + seconds secs) token ob j"
    and "s' = grant_outbox now (now + seconds secs) token ob s0" and "ob \<in> set (outboxes s)" and "eligible now s ob"
    and "reminder_inv s0"
proof -
  note inv = reachable_inv(1) [OF assms(1)]
  from lease_delivery_cases [OF inv, of now token secs] assms(2)
  obtain s0 ob j where *: "expired_from now s s0" "next_eligible now s0 = Some ob" "outbox_job ob s0 = Some j"
    "\<not> past_deadline now s0 ob" "l = lease_of (now + seconds secs) token ob j"
    "s' = grant_outbox now (now + seconds secs) token ob s0" by auto
  note E = expired_from_inv [OF *(1) inv]
  note ob = next_eligible_Some(1,2) [OF *(2)]
  have "o_status ob \<noteq> O_Cancelled" using ob(2) by (auto simp: eligible_def)
  then have "ob \<in> set (outboxes s)" using E ob(1) by blast
  moreover have "outbox_job ob s = Some j" using expired_from_jobs [OF *(1)] *(3) by simp
  ultimately show thesis using that * E ob(2) by metis
qed

text \<open>A row that is not eligible is not touched and not leased.\<close>

lemma not_eligible_kept:
  assumes "reminder_reachable zones (s, ls)" and "lease_delivery now token secs s = (r, s')"
    and "ob \<in> set (outboxes s)" and "\<not> eligible now s ob"
  shows "ob \<in> set (outboxes s') \<and> (\<forall>l. r = Inr (Some l) \<longrightarrow> le_outbox l \<noteq> o_id ob)"
proof -
  note inv = reachable_inv(1) [OF assms(1)]
  from lease_delivery_cases [OF inv, of now token secs] assms(2)
  consider "\<exists>e. r = Inl e" "s' = s" | "expired_from now s s'" "r = Inr None" | l where "r = Inr (Some l)" by auto
  then show ?thesis
  proof cases
    case 1
    with assms(3) show ?thesis by auto
  next
    case 2
    with expired_from_inv [OF 2(1) inv] assms(3,4) show ?thesis by blast
  next
    case (3 l)
    obtain s0 x j where *: "expired_from now s s0" "next_eligible now s0 = Some x"
      "l = lease_of (now + seconds secs) token x j" "s' = grant_outbox now (now + seconds secs) token x s0"
      "x \<in> set (outboxes s)" "eligible now s x" "reminder_inv s0"
      using leased_from [OF assms(1), of now token secs l s'] assms(2) 3 by metis
    have kept: "ob \<in> set (outboxes s0)" using expired_from_inv [OF *(1) inv] assms(3,4) by blast
    have ne: "o_id ob \<noteq> o_id x"
      using distinct_map_unique [OF reminder_invD(5) [OF inv] assms(3) *(5)] assms(4) *(6) by metis
    then have "ob = (if o_id ob = o_id x then granted_row now (now + seconds secs) token ob else ob)" by simp
    then have "ob \<in> set (outboxes s')" unfolding *(4) outboxes_grant set_update_where using kept
      by (rule image_eqI)
    moreover have "le_outbox l = o_id x" by (simp add: *(3) lease_of_def)
    ultimately show ?thesis using ne 3 by auto
  qed
qed

text \<open>
C4: A granted lease is sound: its row was waiting, or leased with a lease that had run out;
the row was available, had fewer than three attempts, and its grace period had not passed;
the owner exists, is active and still in the epoch of the row; the task of the lease is not
cancelled or completed; the lease carries the row's text and the token given, and the row is
the first such row in the order of availability. Afterwards the row is leased under the token.
\<close>
theorem lease_delivery_sound:
  assumes "reminder_reachable zones (s, ls)" and "lease_delivery now token secs s = (Inr (Some l), s')"
  shows "\<exists>ob \<in> set (outboxes s). le_outbox l = o_id ob \<and> le_text l = o_text ob \<and> le_token l = token
      \<and> (o_status ob = O_Pending \<or> o_status ob = O_Leased \<and> (\<exists>t. o_until ob = Some t \<and> t \<le> now))
      \<and> o_available ob \<le> now \<and> o_attempt ob < 3 \<and> le_attempt l = o_attempt ob + 1
      \<and> \<not> past_deadline now s ob \<and> owner_current (le_owner l) (le_epoch l) s
      \<and> (\<exists>t \<in> set (tasks s). tk_id t = le_task l \<and> tk_status t \<notin> {T_Cancelled, T_Completed})
      \<and> (\<forall>ob' \<in> set (outboxes s). eligible now s ob' \<and> \<not> past_deadline now s ob' \<longrightarrow>
           (o_available ob, o_id ob) \<le> (o_available ob', o_id ob'))
      \<and> granted_row now (now + seconds secs) token ob \<in> set (outboxes s')"
proof -
  note inv = reachable_inv(1) [OF assms(1)]
  obtain s0 ob j where *: "expired_from now s s0" "next_eligible now s0 = Some ob" "outbox_job ob s = Some j"
    "\<not> past_deadline now s ob" "l = lease_of (now + seconds secs) token ob j"
    "s' = grant_outbox now (now + seconds secs) token ob s0" "ob \<in> set (outboxes s)" "eligible now s ob"
    "reminder_inv s0" using leased_from [OF assms] .
  note E = expired_from_inv [OF *(1) inv]
  have "\<exists>t \<in> set (tasks s). tk_id t = j_task j \<and> \<not> closed_task t"
    using *(8) by (intro open_outbox_task [OF inv *(7,3)]) (auto simp: eligible_def)
  moreover have "(o_available ob, o_id ob) \<le> (o_available ob', o_id ob')"
    if "ob' \<in> set (outboxes s)" "eligible now s ob'" "\<not> past_deadline now s ob'" for ob'
    using next_eligible_Some(3) [OF *(2), of ob'] E that by metis
  moreover have "granted_row now (now + seconds secs) token ob \<in> set (outboxes s')"
    unfolding *(6) using next_eligible_Some(1) [OF *(2)] by (rule granted_row_mem)
  moreover have "owner_current (le_owner l) (le_epoch l) s" "le_outbox l = o_id ob" "le_text l = o_text ob"
    "le_token l = token" "le_attempt l = o_attempt ob + 1" "le_task l = j_task j"
    using *(5,8) by (auto simp: lease_of_def eligible_def)
  moreover have "o_attempt ob < 3" "o_available ob \<le> now"
    "o_status ob = O_Pending \<or> o_status ob = O_Leased \<and> (\<exists>t. o_until ob = Some t \<and> t \<le> now)"
    using *(8) by (auto simp: eligible_def max_delivery_attempts_def split: option.splits)
  ultimately show ?thesis using *(4,7) unfolding closed_task_def by (intro bexI [of _ ob]) simp_all
qed

theorem lease_delivery_sound_witness:
  "\<exists>ob \<in> set (outboxes demo_due). le_outbox demo_lease = o_id ob \<and> o_attempt ob < 3
     \<and> owner_current 7 1 demo_due"
proof -
  have "le_owner demo_lease = 7" "le_epoch demo_lease = 1" by (simp_all add: demo_lease_def)
  with lease_delivery_sound [OF demo_reachable_due demo_lease_step] show ?thesis by auto
qed

text \<open>
When no lease is granted, no row is left that could be delivered: every eligible row is
past its grace period and has been cancelled. Nothing but an invalid duration or an overflowing
date makes the operation raise, and then it changes nothing.
\<close>
theorem lease_delivery_none_or_error:
  assumes "reminder_reachable zones (s, ls)" and "lease_delivery now token secs s = (r, s')"
    and "\<forall>l. r \<noteq> Inr (Some l)"
  shows "r = Inr None \<and> (\<forall>ob \<in> set (outboxes s). eligible now s ob \<longrightarrow> past_deadline now s ob \<and> ob \<notin> set (outboxes s'))
    \<or> s' = s \<and> (r = Inl (ValueError ''delivery lease duration is invalid'') \<or> (\<exists>m. r = Inl (OverflowError m)))"
proof -
  note inv = reachable_inv(1) [OF assms(1)]
  from lease_delivery_cases [OF inv, of now token secs] assms(2,3)
  consider (err) e where "r = Inl e" "s' = s"
      "e = ValueError ''delivery lease duration is invalid'' \<or> (\<exists>m. e = OverflowError m)"
    | (none) "expired_from now s s'" "r = Inr None" "next_eligible now s' = None" by auto
  then show ?thesis
  proof cases
    case err
    then show ?thesis by blast
  next
    case none
    note E = expired_from_inv [OF none(1) inv]
    have "past_deadline now s ob \<and> ob \<notin> set (outboxes s')"
      if ob: "ob \<in> set (outboxes s)" "eligible now s ob" for ob
      using E none(3) ob unfolding next_eligible_None by metis
    with none(2) show ?thesis by blast
  qed
qed

theorem lease_delivery_none_or_error_witness:
  "lease_delivery 63771674480000000 [85] 60 demo_sent = (Inr None, demo_sent)
   \<and> filter (eligible 63771674480000000 demo_sent) (outboxes demo_sent) = []"
proof -
  have 1: "lease_delivery 63771674480000000 [85] 60 demo_sent = (Inr None, demo_sent)"
    by (simp add: lease_delivery_def lease_loop.simps next_eligible_def eligible_def demo_eval)
  from lease_delivery_none_or_error [OF demo_reachable_sent 1] have
    "\<forall>ob \<in> set (outboxes demo_sent). eligible 63771674480000000 demo_sent ob
         \<longrightarrow> ob \<notin> set (outboxes demo_sent)" by auto
  with 1 show ?thesis by (simp add: filter_empty_conv)
qed

text \<open>
C31: While a lease has not run out its row cannot be leased again: any other lease is for
another row, and the row stays as it is.
\<close>
theorem held_lease_is_exclusive:
  assumes "reminder_reachable zones (s, ls)" and "ob \<in> set (outboxes s)" and "o_status ob = O_Leased"
    and "o_until ob = Some t" and "now < t" and "lease_delivery now token secs s = (r, s')"
  shows "ob \<in> set (outboxes s') \<and> (\<forall>l. r = Inr (Some l) \<longrightarrow> le_outbox l \<noteq> o_id ob)"
  using assms(2-5) by (intro not_eligible_kept [OF assms(1,6)]) (auto simp: eligible_def)

theorem held_lease_is_exclusive_witness:
  "fst (lease_delivery 63771674470000000 [85] 60 demo_leased) \<noteq> Inr (Some demo_lease)"
  using held_lease_is_exclusive [OF demo_reachable_leased, of
      "demo_box O_Leased 1 (Some [84]) (Some 63771674520000000) None 63771674460000000" 63771674520000000
      63771674470000000 "[85]" 60, OF _ _ _ _ prod.collapse [symmetric]]
  by (auto simp: demo_state_def demo_box_def demo_lease_def)

text \<open>
A delivery whose third attempt was leased and never reported is stuck: it is not eligible
at any time, so no later call of \<open>lease_delivery\<close> returns it or changes its row.
\<close>
theorem exhausted_lease_is_stuck:
  assumes "reminder_reachable zones (s, ls)" and "ob \<in> set (outboxes s)" and "o_attempt ob = 3"
    and "lease_delivery now token secs s = (r, s')"
  shows "ob \<in> set (outboxes s') \<and> (\<forall>l. r = Inr (Some l) \<longrightarrow> le_outbox l \<noteq> o_id ob)"
  using assms(2,3) by (intro not_eligible_kept [OF assms(1,4)]) (auto simp: eligible_def max_delivery_attempts_def)

text \<open>The history goes on: the lease runs out twice and is taken again.\<close>

definition demo_held :: "int \<Rightarrow> pystr \<Rightarrow> int \<Rightarrow> int \<Rightarrow> db" where
  "demo_held a token t lu = demo_state [demo_task T_Active 102]
     [demo_job J_Active (Some 63771760800000000) 1 63771674400000000]
     [demo_run R_Claimed (Some t) None t] [demo_box O_Leased a (Some token) (Some lu) None t]"

lemma demo_held_again:
  assumes "a < 3" and "t1 \<le> t" and "63771674400000000 \<le> t" and "t \<le> 63771678000000000"
  shows "lease_delivery t token 60 (demo_held a tok t0 t1) = (Inr (Some (demo_lease\<lparr>le_attempt := a + 1,
     le_token := token, le_until := t + 60000000\<rparr>)), demo_held (a + 1) token t (t + 60000000))"
proof -
  have 1: "next_eligible t (demo_held a tok t0 t1) = Some (demo_box O_Leased a (Some tok) (Some t1) None t0)"
    using assms by (simp add: next_eligible_def eligible_def outbox_job_def owner_current_def
        demo_held_def demo_eval max_delivery_attempts_def)
  have 2: "delivery_deadline (demo_box O_Leased a (Some tok) (Some t1) None t0) (demo_held a tok t0 t1)
    = Inr 63771678000000000"
    by (simp add: delivery_deadline_def outbox_job_def demo_held_def demo_eval)
  have 3: "grant_outbox t (t + 60000000) token (demo_box O_Leased a (Some tok) (Some t1) None t0)
      (demo_held a tok t0 t1) = demo_held (a + 1) token t (t + 60000000)"
    by (simp add: grant_outbox_def set_open_run_def set_outbox_def demo_held_def demo_eval)
  have 4: "read_lease 1 (demo_held (a + 1) token t (t + 60000000))
    = Inr (demo_lease\<lparr>le_attempt := a + 1, le_token := token, le_until := t + 60000000\<rparr>)"
    by (simp add: read_lease_def lease_from_row_def outbox_job_def demo_held_def demo_eval demo_lease_def)
  have "o_id (demo_box O_Leased a (Some tok) (Some t1) None t0) = 1" by (simp add: demo_box_def)
  moreover have "datetime_add t (seconds 60) = Inr (t + 60000000)"
    using assms(3,4) by (simp add: datetime_add_def valid_datetime_def seconds_def)
  ultimately show ?thesis using 1 2 3 4 assms(4)
    by (simp add: lease_delivery_def transaction_def lease_loop.simps Let_def)
qed

lemma demo_reachable_exhausted:
  "\<exists>ls. reminder_reachable demo_zones (demo_held 3 [86] 63771674580000000 63771674640000000, ls)"
proof -
  have "demo_held 1 [84] 63771674460000000 63771674520000000 = demo_leased" by (simp add: demo_held_def)
  then have "reminder_reachable demo_zones (demo_held 1 [84] 63771674460000000 63771674520000000, [demo_lease])"
    using demo_reachable_leased by simp
  from reminder_reachable.step [OF this reminder_step.lease_some [OF _ demo_held_again [of 1 _ 63771674520000000 "[85]"]]]
  have "\<exists>l. le_token l = [85] \<and> reminder_reachable demo_zones
     (demo_held 2 [85] 63771674520000000 63771674580000000, [l, demo_lease])"
    by (force simp: demo_lease_def)
  then obtain l where l: "le_token l = [85]"
    "reminder_reachable demo_zones (demo_held 2 [85] 63771674520000000 63771674580000000, [l, demo_lease])"
    by blast
  from reminder_reachable.step [OF l(2) reminder_step.lease_some [OF _ demo_held_again [of 2 _ 63771674580000000 "[86]"]]] l(1)
  show ?thesis by (force simp: demo_lease_def)
qed

theorem exhausted_lease_is_stuck_witness:
  "demo_box O_Leased 3 (Some [86]) (Some 63771674640000000) None 63771674580000000
     \<in> set (outboxes (snd (lease_delivery 63771677000000000 [87] 60
          (demo_held 3 [86] 63771674580000000 63771674640000000))))"
proof -
  obtain ls where "reminder_reachable demo_zones (demo_held 3 [86] 63771674580000000 63771674640000000, ls)"
    using demo_reachable_exhausted ..
  from exhausted_lease_is_stuck [OF this _ _ prod.collapse [symmetric]] show ?thesis
    by (simp add: demo_held_def demo_state_def demo_box_def)
qed

section \<open>Reporting a delivery\<close>

text \<open>
Reporting a delivery with a lease that was handed out succeeds exactly when the row still
has the token of the lease and the owner is still in the epoch of the lease. After a success
the row is sent with the message of the report; after a refusal no task, job, run or outbox row
has changed. Since a sent row keeps its token, a delivery is committed under one lease only.
\<close>
theorem mark_delivery_sent_outcome:
  assumes "reminder_reachable zones (s, ls)" and "l \<in> set ls"
    and "mark_delivery_sent now l message s = (Inr ok, s')"
  shows "ok = (owner_current (le_owner l) (le_epoch l) s
        \<and> (\<exists>ob \<in> set (outboxes s). o_token ob = Some (le_token l)))
    \<and> (ok \<longrightarrow> (\<exists>ob \<in> set (outboxes s'). o_id ob = le_outbox l \<and> o_status ob = O_Sent
         \<and> o_token ob = Some (le_token l) \<and> o_message ob = Some message))
    \<and> (\<not> ok \<longrightarrow> tasks s' = tasks s \<and> jobs s' = jobs s \<and> runs s' = runs s \<and> outboxes s' = outboxes s)"
proof -
  note inv = reachable_inv [OF assms(1)]
  from mark_delivery_sent_cases [OF inv assms(2,3)] consider
      (again) ob where "ok" "s' = s" "ob \<in> set (outboxes s)" "o_id ob = le_outbox l" "o_token ob = Some (le_token l)"
        "o_status ob = O_Sent" "o_message ob = Some message" "owner_current (le_owner l) (le_epoch l) s"
    | (commit) ob where "ok" "s' = commit_sent l message now s" "owner_current (le_owner l) (le_epoch l) s"
        "ob \<in> set (outboxes s)" "o_id ob = le_outbox l" "o_token ob = Some (le_token l)" "o_status ob = O_Leased"
    | (refused) "\<not> ok" "s' = record_external_commit l now s" "\<not> (owner_current (le_owner l) (le_epoch l) s
              \<and> (\<exists>ob \<in> set (outboxes s). o_token ob = Some (le_token l)))" by auto
  then show ?thesis
  proof cases
    case again
    then show ?thesis by blast
  next
    case commit
    define f where "f x = x\<lparr>o_status := O_Sent, o_message := Some message, o_until := None, o_updated := now\<rparr>"
      for x :: outbox
    have "outboxes s' = update_where (\<lambda>ob. o_id ob = le_outbox l \<and> o_token ob = Some (le_token l)
        \<and> o_status ob = O_Leased) f (outboxes s)"
      by (simp add: commit(2) commit_sent_def f_def [abs_def])
    then have "f ob \<in> set (outboxes s')" using commit by (simp add: update_where_mem)
    moreover have "o_id (f ob) = le_outbox l" "o_status (f ob) = O_Sent" "o_token (f ob) = Some (le_token l)"
      "o_message (f ob) = Some message" using commit by (simp_all add: f_def)
    ultimately show ?thesis using commit by blast
  next
    case refused
    with same_reminders_audit [of s l now] show ?thesis by (auto simp: same_reminders_def)
  qed
qed

theorem mark_delivery_sent_outcome_witness:
  "owner_current 7 1 demo_leased \<and> (\<exists>ob \<in> set (outboxes demo_sent). o_message ob = Some 900)"
proof -
  have "le_owner demo_lease = 7" "le_epoch demo_lease = 1" by (simp_all add: demo_lease_def)
  with mark_delivery_sent_outcome [OF demo_reachable_leased _ demo_mark_sent] show ?thesis by auto
qed

text \<open>
Releasing a delivery gives it back for another attempt, after the delay, while it has been
attempted fewer than three times, and fails it after the third attempt; the run follows its
row. A release under a lease that no longer holds the row changes nothing.
\<close>
theorem release_delivery_outcome:
  assumes "reminder_reachable zones (s, ls)" and "l \<in> set ls"
    and "release_delivery now l err delay s = (Inr ok, s')"
  shows "if ok then \<exists>ob \<in> set (outboxes s). o_id ob = le_outbox l \<and> o_token ob = Some (le_token l)
       \<and> o_status ob = O_Leased
       \<and> (\<exists>x \<in> set (outboxes s'). o_id x = o_id ob \<and> o_token x = None \<and> o_attempt x = o_attempt ob
            \<and> (if o_attempt ob < 3 then o_status x = O_Pending \<and> o_available x = now + seconds delay
               else o_status x = O_Failed))
       \<and> (\<forall>r \<in> set (runs s'). rn_id r = o_run ob \<longrightarrow>
            rn_status r = (if o_attempt ob < 3 then R_Due else R_Failed))
     else s' = s"
proof -
  note inv = reachable_inv [OF assms(1)]
  from release_delivery_cases [OF inv assms(2,3)] consider (no) "\<not> ok" "s' = s"
    | (yes) ob where "ob \<in> set (outboxes s)" "o_id ob = le_outbox l" "o_run ob = le_run l"
         "o_token ob = Some (le_token l)" "o_status ob = O_Leased" "ok"
         "if o_attempt ob < max_delivery_attempts
          then s' = release_outbox l O_Pending R_Due (now + seconds delay) err now s
          else s' = release_outbox l O_Failed R_Failed (o_available ob) err now s" by auto
  then show ?thesis
  proof cases
    case no
    then show ?thesis by simp
  next
    case yes
    define st where "st = (if o_attempt ob < 3 then O_Pending else O_Failed)"
    define av where "av = (if o_attempt ob < 3 then now + seconds delay else o_available ob)"
    have s': "s' = release_outbox l st (if o_attempt ob < 3 then R_Due else R_Failed) av err now s"
      using yes(7) by (auto simp: st_def av_def max_delivery_attempts_def)
    define f where "f x = x\<lparr>o_status := st, o_available := av, o_token := None,
       o_until := None, o_error := Some err, o_updated := now\<rparr>" for x :: outbox
    have "outboxes s' = update_where (\<lambda>ob. o_id ob = le_outbox l) f (outboxes s)"
      by (simp add: s' release_outbox_def f_def [abs_def])
    then have "f ob \<in> set (outboxes s')" using yes by (simp add: update_where_mem)
    then have "\<exists>x \<in> set (outboxes s'). o_id x = o_id ob \<and> o_token x = None \<and> o_attempt x = o_attempt ob
        \<and> (if o_attempt ob < 3 then o_status x = O_Pending \<and> o_available x = now + seconds delay
           else o_status x = O_Failed)"
      by (rule bexI [rotated]) (simp add: f_def st_def av_def)
    moreover have "rn_status r = (if o_attempt ob < 3 then R_Due else R_Failed)"
      if "r \<in> set (runs s')" "rn_id r = o_run ob" for r
      using that yes(3) by (auto simp: s' release_outbox_def set_update_where split: if_splits)
    ultimately show ?thesis unfolding if_P [OF yes(6)] using yes(1,2,4,5) by blast
  qed
qed

theorem release_delivery_outcome_witness:
  "fst (release_delivery 63771674470000000 demo_lease (u ''timeout'') 30 demo_leased) = Inr True
   \<and> (\<exists>x \<in> set (outboxes (snd (release_delivery 63771674470000000 demo_lease (u ''timeout'') 30 demo_leased))).
        o_attempt x = 1 \<and> o_status x = O_Pending \<and> o_available x = 63771674470000000 + seconds 30)"
proof -
  have 1: "error_kind_ok (u ''timeout'')" by code_simp
  have 2: "leased_row demo_lease demo_leased
    = Some (demo_box O_Leased 1 (Some [84]) (Some 63771674520000000) None 63771674460000000)"
    by (simp add: leased_row_def demo_lease_def demo_eval)
  have 3: "owner_current 7 1 demo_leased" by (simp add: owner_current_def demo_eval)
  have 4: "datetime_add 63771674470000000 (seconds 30) = Inr (63771674470000000 + seconds 30)"
    by (simp add: seconds_def datetime_add_def valid_datetime_def)
  have run: "fst (release_delivery 63771674470000000 demo_lease (u ''timeout'') 30 demo_leased) = Inr True"
    using 1 2 3 4 by (simp add: release_delivery_def transaction_def demo_lease_def demo_box_def max_delivery_attempts_def)
  have att: "o_attempt ob = 1" if "ob \<in> set (outboxes demo_leased)" for ob
    using that by (simp add: demo_state_def demo_box_def)
  have "release_delivery 63771674470000000 demo_lease (u ''timeout'') 30 demo_leased
     = (Inr True, snd (release_delivery 63771674470000000 demo_lease (u ''timeout'') 30 demo_leased))"
    using run by (simp add: prod_eq_iff)
  from release_delivery_outcome [OF demo_reachable_leased _ this] att run show ?thesis by force
qed

text \<open>
C2: A row that is sent, failed or cancelled never changes again: after any step it is still
there, or the rows of its owner have been purged.
\<close>
theorem closed_rows_are_final:
  assumes "reminder_reachable zones st" and "reminder_step zones st st'"
    and "ob \<in> set (outboxes (fst st))" and "o_status ob \<in> {O_Sent, O_Failed, O_Cancelled}"
  shows "ob \<in> set (outboxes (fst st')) \<or> (\<forall>x \<in> set (outboxes (fst st')). o_owner x \<noteq> o_owner ob)"
proof -
  have "closed_kept (fst st) (fst st')"
    using reminder_step_good [OF assms(2) reachable_sys_inv [OF assms(1)]] by simp
  with assms(3,4) show ?thesis unfolding closed_kept_def closed_box_def by blast
qed

theorem closed_rows_are_final_witness:
  "demo_box O_Sent 1 (Some [84]) None (Some 900) 63771674470000000
     \<in> set (outboxes (snd (cancel_task 63771674480000000 1 7 demo_sent)))"
proof -
  have own: "\<exists>x \<in> set (outboxes (snd (cancel_task 63771674480000000 1 7 demo_sent))). o_owner x = 7"
    by (simp add: cancel_task_def finish_task_def close_task_rows_def demo_eval Let_def)
  have "reminder_step demo_zones (demo_sent, [demo_lease])
     (snd (cancel_task 63771674480000000 1 7 demo_sent), [demo_lease])"
    by (rule reminder_step.cancel) (rule prod.collapse [symmetric])
  from closed_rows_are_final [OF demo_reachable_sent this,
      of "demo_box O_Sent 1 (Some [84]) None (Some 900) 63771674470000000"]
  show ?thesis using own by (simp add: demo_state_def demo_box_def) blast
qed

section \<open>Materialisation\<close>

text \<open>
  What a pass makes of a due job, told from the functions of the schedule alone: status and cursor after its
  occurrence at \<open>next_of j\<close>. It needs review when its quiet hours or its next wall time have no instant.
\<close>

definition cursor_after :: "zone_db \<Rightarrow> job \<Rightarrow> job_status \<times> int option" where
  "cursor_after zones j = (case (release_time zones j (next_of j), zones (j_timezone j)) of
       (Inr (_, False), Some z) \<Rightarrow>
         (case bindE (astimezone_local z (next_of j)) (\<lambda>c. next_occurrence (j_rule j) (Naive (j_start j)) (Some (Naive c)) (j_emitted j + 1)) of
            Inr None \<Rightarrow> (J_Completed, None)
          | Inr (Some w) \<Rightarrow> (case resolve_local_time zones (Naive w) (j_timezone j) of Inr n \<Rightarrow> (J_Active, Some n) | Inl _ \<Rightarrow> (J_NeedsReview, None))
          | Inl _ \<Rightarrow> (J_NeedsReview, None))
     | _ \<Rightarrow> (J_NeedsReview, None))"

definition moved_on :: "zone_db \<Rightarrow> int \<Rightarrow> job \<Rightarrow> job" where
  "moved_on zones now j = j\<lparr>j_status := fst (cursor_after zones j), j_next := snd (cursor_after zones j),
     j_emitted := j_emitted j + 1, j_updated := now\<rparr>"

text \<open>The run and the delivery of one occurrence of the job \<open>j\<close> of the task \<open>t\<close>.\<close>

definition occurrence :: "zone_db \<Rightarrow> int \<Rightarrow> job \<Rightarrow> task \<Rightarrow> run \<Rightarrow> outbox \<Rightarrow> bool" where
  "occurrence zones now j t r ob \<longleftrightarrow> rn_job r = j_id j \<and> rn_scheduled r = next_of j
     \<and> release_time zones j (next_of j) = Inr (o_available ob, rn_error r \<noteq> None)
     \<and> (if rn_error r \<noteq> None \<or> next_of j + seconds (j_grace j) < max now (o_available ob)
        then rn_status r = R_Missed \<and> o_status ob = O_Cancelled else rn_status r = R_Due \<and> o_status ob = O_Pending)
     \<and> o_run ob = rn_id r \<and> o_scheduled ob = next_of j \<and> o_chat ob = tk_chat t \<and> o_text ob = tk_text t
     \<and> o_attempt ob = 0 \<and> o_token ob = None"

lemma update_where_own:
  assumes "j \<in> set (jobs s)" and "f j = k"
  shows "k \<in> set (update_where (\<lambda>x. j_id x = j_id j) f (jobs s))"
  using assms update_where_mem [of j "jobs s" "\<lambda>x. j_id x = j_id j" f] by simp

lemma advance_job_cursor_moves:
  assumes "advance_job_cursor zones now j (next_of j) s = Inr s'" and "release_time zones j (next_of j) = Inr (a, False)"
    and "j \<in> set (jobs s)" and "j_status j = J_Active"
  shows "moved_on zones now j \<in> set (jobs s') \<and> outboxes s' = outboxes s"
proof -
  obtain z c fl where z: "zones (j_timezone j) = Some z" and c: "astimezone_local z (next_of j) = Inr c"
    and fl: "next_occurrence (j_rule j) (Naive (j_start j)) (Some (Naive c)) (j_emitted j + 1) = Inr fl"
    and w: "(case fl of None \<Rightarrow> Inr (complete_job now (j_emitted j + 1) j s)
       | Some w \<Rightarrow> (case resolve_local_time zones (Naive w) (j_timezone j) of
             Inl (LocalTimeResolutionError _) \<Rightarrow> Inr (review_job now (j_emitted j + 1) j s)
           | Inl e \<Rightarrow> Inl e
           | Inr utc \<Rightarrow> Inr (set_job (j_id j) (\<lambda>r. r\<lparr>j_next := Some utc,
               j_emitted := j_emitted j + 1, j_updated := now\<rparr>) s))) = Inr s'"
    using assms(1) by (auto simp: advance_job_cursor_def bindE_eq_Inr of_option_def split: option.splits)
  note after = cursor_after_def assms(2) z c fl
  show ?thesis
  proof (cases fl)
    case None
    with w show ?thesis using assms(3)
      by (auto simp: complete_job_def set_job_def set_task_def moved_on_def after intro!: update_where_own)
  next
    case (Some x)
    then show ?thesis
    proof (cases "resolve_local_time zones (Naive x) (j_timezone j)")
      case (Inl e)
      with w Some obtain m where "e = LocalTimeResolutionError m" by (cases e) auto
      with w Some Inl assms(3) show ?thesis
        by (auto simp: review_job_def set_job_def set_task_def moved_on_def after intro!: update_where_own)
    next
      case (Inr n)
      with w Some assms(3,4) show ?thesis by (auto simp: set_job_def moved_on_def after intro!: update_where_own)
    qed
  qed
qed

lemma materialize_one_moves:
  assumes "materialize_one zones now (j, t) s = Inr (rs, s')" and "\<not> run_exists (j_id j) (next_of j) s"
    and "j \<in> set (jobs s)" and "j_status j = J_Active"
  shows "moved_on zones now j \<in> set (jobs s') \<and> (\<exists>r ob. rs = [r] \<and> outboxes s' = outboxes s @ [ob] \<and> occurrence zones now j t r ob)"
proof -
  obtain available failed deadline where rel: "release_time zones j (next_of j) = Inr (available, failed)"
    and dl: "deadline = next_of j + seconds (j_grace j)"
    and c: "record_occurrence zones now j t available failed (failed \<or> deadline < now \<or> deadline < available) s = Inr (rs, s')"
    using assms(1,2) by (auto simp: materialize_one_def bindE_eq_Inr datetime_add_def split: if_splits)
  define missed where "missed \<longleftrightarrow> failed \<or> deadline < now \<or> deadline < available"
  define r where "r = new_run j (next_of j) (if missed then R_Missed else R_Due)
    (if failed then Some (u ''quiet_hours_invalid'') else None) None now s"
  define ob where "ob = new_outbox (rn_id r) j t (next_of j) available (if missed then O_Cancelled else O_Pending) now s"
  have a: "(if failed then Inr (mark_job_needs_review now j (insert_run r ob s))
      else advance_job_cursor zones now j (next_of j) (insert_run r ob s)) = Inr s'" and rs: "rs = [r]"
    using c unfolding record_occurrence_def Let_def missed_def [symmetric] r_def [symmetric] ob_def [symmetric]
    by (auto simp: bindE_eq_Inr)
  have m: "moved_on zones now j \<in> set (jobs s') \<and> outboxes s' = outboxes s @ [ob]"
  proof (cases failed)
    case True
    with rel have "cursor_after zones j = (J_NeedsReview, None)" by (simp add: cursor_after_def)
    with a True assms(3) show ?thesis
      by (auto simp: mark_job_needs_review_def set_job_def set_task_def insert_run_def moved_on_def intro!: update_where_own)
  next
    case False
    with a have "advance_job_cursor zones now j (next_of j) (insert_run r ob s) = Inr s'" by simp
    from advance_job_cursor_moves [OF this] rel False assms(3,4) show ?thesis by (simp add: insert_run_def)
  qed
  have "occurrence zones now j t r ob"
    using rel dl by (auto simp: occurrence_def r_def ob_def new_run_def new_outbox_def missed_def)
  with m rs show ?thesis by blast
qed

lemma materialize_jobs_move:
  assumes "reminder_inv s" and "distinct (map (j_id \<circ> fst) jts)"
    and "\<forall>(j, t) \<in> set jts. j \<in> set (jobs s) \<and> j_status j = J_Active"
    and "materialize_jobs zones now jts s = Inr (rs, s')"
  shows "(\<forall>(j, t) \<in> set jts. \<not> run_exists (j_id j) (next_of j) s \<longrightarrow> moved_on zones now j \<in> set (jobs s'))
    \<and> (\<forall>k \<in> set (jobs s). (\<forall>(j, t) \<in> set jts. j_id j = j_id k \<longrightarrow> run_exists (j_id j) (next_of j) s) \<longrightarrow> k \<in> set (jobs s'))
    \<and> (\<exists>obs. outboxes s' = outboxes s @ obs \<and> list_all2 (\<lambda>r ob. \<exists>(j, t) \<in> set jts. occurrence zones now j t r ob) rs obs)"
  using assms
proof (induction jts arbitrary: s rs)
  case (Cons jt jts)
  obtain j t where jt: "jt = (j, t)" by (cases jt)
  obtain rs1 s1 rs2 where m1: "materialize_one zones now (j, t) s = Inr (rs1, s1)"
    and m2: "materialize_jobs zones now jts s1 = Inr (rs2, s')" and rs: "rs = rs1 @ rs2"
    using Cons.prems(4) unfolding jt by (auto simp: bindE_eq_Inr)
  have j: "j \<in> set (jobs s)" "j_status j = J_Active" using Cons.prems(3) jt by auto
  have other: "j_id x \<noteq> j_id j" if "(x, y) \<in> set jts" for x y
    using that Cons.prems(2) jt by (auto simp: rev_image_eqI)
  from materialize_one_Inr [OF m1] have inv1: "reminder_inv s1"
    using inv_emitted_step [OF Cons.prems(1) j] Cons.prems(1) by blast
  have frame: "k \<in> set (jobs s1)" if "k \<in> set (jobs s)" "j_id k \<noteq> j_id j \<or> run_exists (j_id j) (next_of j) s" for k
    using materialize_one_Inr [OF m1] emitted_step_frame [OF _ that(1)] that emitted_step_def by blast
  have same: "run_exists n x s1 = run_exists n x s" if "n \<noteq> j_id j" for n x
    using materialize_one_Inr [OF m1] emitted_step_runs run_exists_append that by (fastforce simp: run_key_def)
  have d: "distinct (map (j_id \<circ> fst) jts)" using Cons.prems(2) by (simp add: comp_def)
  have act: "\<forall>(x, y) \<in> set jts. x \<in> set (jobs s1) \<and> j_status x = J_Active"
    using Cons.prems(3) other frame by fastforce
  note IH = Cons.IH [OF inv1 d act m2]
  have one: "\<exists>obs. outboxes s1 = outboxes s @ obs \<and> list_all2 (occurrence zones now j t) rs1 obs"
  proof (cases "run_exists (j_id j) (next_of j) s")
    case True
    with m1 have "rs1 = [] \<and> s1 = s" by (auto simp: materialize_one_def bindE_eq_Inr)
    then show ?thesis by simp
  next
    case False
    then show ?thesis using materialize_one_moves [OF m1 _ j] by auto
  qed
  show ?case
  proof (intro conjI)
    have "moved_on zones now j \<in> set (jobs s')" if "\<not> run_exists (j_id j) (next_of j) s"
    proof -
      have "moved_on zones now j \<in> set (jobs s1)" using materialize_one_moves [OF m1 that j] by blast
      moreover have "j_id (moved_on zones now j) = j_id j" by (simp add: moved_on_def)
      ultimately show ?thesis using IH other by fastforce
    qed
    moreover have "moved_on zones now x \<in> set (jobs s')" if "(x, y) \<in> set jts" "\<not> run_exists (j_id x) (next_of x) s" for x y
      using IH that same [OF other [OF that(1)]] by fastforce
    ultimately show "\<forall>(j, t) \<in> set (jt # jts). \<not> run_exists (j_id j) (next_of j) s \<longrightarrow> moved_on zones now j \<in> set (jobs s')"
      using jt by auto
    show "\<forall>k \<in> set (jobs s). (\<forall>(j, t) \<in> set (jt # jts). j_id j = j_id k \<longrightarrow> run_exists (j_id j) (next_of j) s) \<longrightarrow> k \<in> set (jobs s')"
    proof (intro ballI impI)
      fix k assume k: "k \<in> set (jobs s)" "\<forall>(j, t) \<in> set (jt # jts). j_id j = j_id k \<longrightarrow> run_exists (j_id j) (next_of j) s"
      have "j_id k \<noteq> j_id j \<or> run_exists (j_id j) (next_of j) s" using k(2) jt by auto
      then have "k \<in> set (jobs s1)" by (rule frame [OF k(1)])
      moreover have "\<forall>(x, y) \<in> set jts. j_id x = j_id k \<longrightarrow> run_exists (j_id x) (next_of x) s1"
        using k(2) same other by fastforce
      ultimately show "k \<in> set (jobs s')" using IH by blast
    qed
    from IH one obtain obs obs2 where "outboxes s' = (outboxes s @ obs) @ obs2" "list_all2 (occurrence zones now j t) rs1 obs"
      "list_all2 (\<lambda>r ob. \<exists>(j, t) \<in> set jts. occurrence zones now j t r ob) rs2 obs2" by auto
    then show "\<exists>obs. outboxes s' = outboxes s @ obs \<and> list_all2 (\<lambda>r ob. \<exists>(j, t) \<in> set (jt # jts). occurrence zones now j t r ob) rs obs"
      unfolding rs jt by (intro exI [of _ "obs @ obs2"]) (auto intro!: list_all2_appendI elim!: list_all2_mono)
  qed
qed simp

text \<open>
C32: A successful pass of \<open>materialize_due\<close> appends to the runs exactly one run for each of the due jobs in
the limit (active jobs of current owners whose cursor has come, in the order of cursor and id) that has
no run at its cursor yet, in that order, and for each run its delivery, with the chat and the text of the task,
due or missed by its grace period. The cursor of each of these jobs moves to the next occurrence of its rule,
or the job is completed or put under review, and its count goes up by one; every other job stays as it is.
\<close>
theorem materialize_due_exact:
  assumes "reminder_reachable zones (s, ls)" and "materialize_due zones now limit s = (Inr rs, s')"
  shows "let due = take (nat limit) (sort_key (\<lambda>j. (next_of j, j_id j)) (filter (job_due now s) (jobs s)));
      fresh = filter (\<lambda>j. \<not> run_exists (j_id j) (next_of j) s) due in
    runs s' = runs s @ rs \<and> map (\<lambda>r. (rn_job r, rn_scheduled r)) rs = map (\<lambda>j. (j_id j, next_of j)) fresh
    \<and> (\<exists>obs. outboxes s' = outboxes s @ obs
        \<and> list_all2 (\<lambda>r ob. \<exists>j \<in> set fresh. \<exists>t. task_of s (j_task j) = Some t \<and> occurrence zones now j t r ob) rs obs)
    \<and> (\<forall>j \<in> set fresh. moved_on zones now j \<in> set (jobs s'))
    \<and> (\<forall>j \<in> set (jobs s). j \<notin> set fresh \<longrightarrow> j \<in> set (jobs s'))"
proof -
  define jts where "jts = due_jobs now (nat limit) s"
  define fresh where "fresh = filter (\<lambda>j. \<not> run_exists (j_id j) (next_of j) s) (map fst jts)"
  have F: "filter (\<lambda>j. \<not> run_exists (j_id j) (next_of j) s)
      (take (nat limit) (sort_key (\<lambda>j. (next_of j, j_id j)) (filter (job_due now s) (jobs s)))) = fresh"
    by (simp add: fresh_def jts_def due_jobs_fst)
  note inv = reachable_inv(1) [OF assms(1)]
  note M = materialize_due_Inr [OF inv assms(2)]
  have mj: "materialize_jobs zones now jts s = Inr (rs, s')"
    using assms(2) by (auto simp: materialize_due_def transaction_Inr guardE_eq_Inr jts_def)
  have mem: "j \<in> set (jobs s) \<and> j_status j = J_Active \<and> task_of s (j_task j) = Some t" if "(j, t) \<in> set jts" for j t
    using due_jobs_mem [OF that [unfolded jts_def]] by (simp add: job_due_def)
  have "distinct (map (j_id \<circ> fst) jts)" unfolding jts_def by (rule due_jobs_distinct [OF inv])
  note J = materialize_jobs_move [OF inv this _ mj]
  have J: "(\<forall>(j, t) \<in> set jts. \<not> run_exists (j_id j) (next_of j) s \<longrightarrow> moved_on zones now j \<in> set (jobs s'))"
    "(\<forall>k \<in> set (jobs s). (\<forall>(j, t) \<in> set jts. j_id j = j_id k \<longrightarrow> run_exists (j_id j) (next_of j) s) \<longrightarrow> k \<in> set (jobs s'))"
    "\<exists>obs. outboxes s' = outboxes s @ obs \<and> list_all2 (\<lambda>r ob. \<exists>(j, t) \<in> set jts. occurrence zones now j t r ob) rs obs"
    using J mem by blast+
  have keys: "map (\<lambda>r. (rn_job r, rn_scheduled r)) rs = map (\<lambda>j. (j_id j, next_of j)) fresh"
  proof -
    have "map (\<lambda>(j, t). (j_id j, next_of j)) (filter (\<lambda>(j, t). \<not> run_exists (j_id j) (next_of j) s) xs)
        = map (\<lambda>j. (j_id j, next_of j)) (filter (\<lambda>j. \<not> run_exists (j_id j) (next_of j) s) (map fst xs))" for xs :: "(job \<times> task) list"
      by (induction xs) auto
    with M show ?thesis by (simp add: fresh_def jts_def run_key_def [abs_def])
  qed
  have fresh_mem: "j \<in> set fresh \<longleftrightarrow> (\<exists>t. (j, t) \<in> set jts) \<and> \<not> run_exists (j_id j) (next_of j) s" for j
    by (force simp: fresh_def)
  have ids: "j = k" if "j \<in> set (jobs s)" "k \<in> set (jobs s)" "j_id j = j_id k" for j k
    using reminder_invD(2) [OF inv] that by (auto simp: distinct_map dest: inj_onD)
  obtain obs where obs: "outboxes s' = outboxes s @ obs" "list_all2 (\<lambda>r ob. \<exists>(j, t) \<in> set jts. occurrence zones now j t r ob) rs obs"
    using J(3) by blast
  have "list_all2 (\<lambda>r ob. \<exists>j \<in> set fresh. \<exists>t. task_of s (j_task j) = Some t \<and> occurrence zones now j t r ob) rs obs"
    unfolding list_all2_conv_all_nth
  proof (intro conjI allI impI)
    show "length rs = length obs" using obs(2) by (rule list_all2_lengthD)
    fix i assume i: "i < length rs"
    with obs(2) obtain j t where o: "(j, t) \<in> set jts" "occurrence zones now j t (rs ! i) (obs ! i)"
      by (fastforce simp: list_all2_conv_all_nth)
    have "(rn_job (rs ! i), rn_scheduled (rs ! i)) \<in> set (map (\<lambda>j. (j_id j, next_of j)) fresh)"
      unfolding keys [symmetric] using i by simp
    then obtain k where k: "k \<in> set fresh" "j_id k = rn_job (rs ! i)" by auto
    moreover have "k \<in> set (jobs s)" using k(1) mem by (auto simp: fresh_mem)
    ultimately have "k = j" using ids mem [OF o(1)] o(2) by (auto simp: occurrence_def)
    with o k mem show "\<exists>j \<in> set fresh. \<exists>t. task_of s (j_task j) = Some t \<and> occurrence zones now j t (rs ! i) (obs ! i)" by blast
  qed
  moreover have "\<forall>j \<in> set fresh. moved_on zones now j \<in> set (jobs s')" using J(1) by (auto simp: fresh_mem)
  moreover have "k \<in> set (jobs s')" if k: "k \<in> set (jobs s)" "k \<notin> set fresh" for k
  proof -
    have "run_exists (j_id j) (next_of j) s" if "(j, t) \<in> set jts" "j_id j = j_id k" for j t
      using ids [of j k] mem [OF that(1)] k that by (auto simp: fresh_mem)
    with J(2) k(1) show ?thesis by blast
  qed
  ultimately show ?thesis unfolding F Let_def using M keys obs(1) by blast
qed

theorem materialize_due_exact_witness:
  "runs demo_due = runs demo_active @ [demo_run R_Due None None 63771674400000000]
    \<and> moved_on demo_zones 63771674400000000 (demo_job J_Active (Some 63771674400000000) 0 102) \<in> set (jobs demo_due)"
proof -
  have "take (nat 10) (sort_key (\<lambda>j. (next_of j, j_id j)) (filter (job_due 63771674400000000 demo_active) (jobs demo_active)))
    = [demo_job J_Active (Some 63771674400000000) 0 102]"
    unfolding due_jobs_fst [symmetric] using demo_due_jobs by simp
  moreover have "\<not> run_exists (j_id k) (next_of k) demo_active" for k by (simp add: run_exists_def demo_eval)
  ultimately show ?thesis
    using materialize_due_exact [OF demo_reachable_active demo_materialize] unfolding Let_def by simp
qed

text \<open>A job whose cursor already has a run is left alone by a pass.\<close>

lemma materialize_jobs_collided:
  assumes "k \<in> set (jobs s)" and "run_exists (j_id k) (next_of k) s"
    and "\<forall>(j, t) \<in> set jts. j_id j = j_id k \<longrightarrow> j = k"
    and "materialize_jobs zones now jts s = Inr (rs, s')"
  shows "k \<in> set (jobs s') \<and> run_exists (j_id k) (next_of k) s'"
  using assms
proof (induction jts arbitrary: s rs)
  case (Cons jt jts)
  obtain j t where jt: "jt = (j, t)" by (cases jt)
  obtain rs1 s1 rs2 where m1: "materialize_one zones now (j, t) s = Inr (rs1, s1)"
    and m2: "materialize_jobs zones now jts s1 = Inr (rs2, s')"
    using Cons.prems(4) unfolding jt by (auto simp: bindE_eq_Inr)
  have r1: "run_exists (j_id k) (next_of k) s1"
    using Cons.prems(2) materialize_one_rs(1) [OF m1] by (auto simp: run_exists_def)
  from materialize_one_Inr [OF m1] have "k \<in> set (jobs s1)"
  proof
    assume e: "emitted_step zones now j t s s1"
    then have "\<not> run_exists (j_id j) (next_of j) s" by (auto simp: emitted_step_def)
    then have "j_id k \<noteq> j_id j" using Cons.prems(2,3) unfolding jt by auto
    then show ?thesis by (rule emitted_step_frame [OF e Cons.prems(1)])
  qed (use Cons.prems(1) in simp)
  from Cons.IH [OF this r1 _ m2] Cons.prems(3) show ?case by simp
qed simp

text \<open>
A due job that already has a run at its cursor (a snooze can have put one there) is skipped
without moving the cursor: the pass adds no run for it, its row does not change, and it is due
again, with the same collision, on every later pass.
\<close>
theorem collided_cursor_is_never_advanced:
  assumes "reminder_reachable zones (s, ls)" and "j \<in> set (jobs s)" and "run_exists (j_id j) (next_of j) s"
    and "materialize_due zones now limit s = (Inr rs, s')"
  shows "j \<in> set (jobs s') \<and> run_exists (j_id j) (next_of j) s' \<and> (\<forall>r \<in> set rs. rn_job r \<noteq> j_id j)"
proof -
  note inv = reachable_inv(1) [OF assms(1)]
  have mj: "materialize_jobs zones now (due_jobs now (nat limit) s) s = Inr (rs, s')"
    using assms(4) by (auto simp: materialize_due_def transaction_Inr guardE_eq_Inr)
  have uq: "i = j" if "(i, t) \<in> set (due_jobs now (nat limit) s)" "j_id i = j_id j" for i t
    by (rule distinct_map_unique [OF reminder_invD(2) [OF inv] due_jobs_mem(1) [OF that(1)] assms(2) that(2)])
  have "rn_job r \<noteq> j_id j" if r: "r \<in> set rs" for r
  proof
    assume e: "rn_job r = j_id j"
    have "map run_key rs = map (\<lambda>(j, t). (j_id j, next_of j))
        (filter (\<lambda>(j, t). \<not> run_exists (j_id j) (next_of j) s) (due_jobs now (nat limit) s))"
      using materialize_due_Inr [OF inv assms(4)] by blast
    moreover have "run_key r \<in> set (map run_key rs)" using r by simp
    ultimately have "run_key r \<in> set (map (\<lambda>(j, t). (j_id j, next_of j))
        (filter (\<lambda>(j, t). \<not> run_exists (j_id j) (next_of j) s) (due_jobs now (nat limit) s)))" by (simp only:)
    then obtain i t where i: "(i, t) \<in> set (due_jobs now (nat limit) s)" "\<not> run_exists (j_id i) (next_of i) s"
      "run_key r = (j_id i, next_of i)" unfolding mem_map_filter_pairs by blast
    have "j_id i = j_id j" using e i(3) by (simp add: run_key_def)
    then have "i = j" by (rule uq [OF i(1)])
    with i(2) assms(3) show False by simp
  qed
  with materialize_jobs_collided [OF assms(2,3) _ mj] uq show ?thesis by blast
qed

section \<open>Snooze, completion and purge\<close>

lemma snooze_task_Inr:
  assumes inv: "reminder_inv s" and run: "snooze_task zones now n owner action delay s = (Inr r, s')"
  shows "\<not> is_blank action \<and> length action \<le> 128 \<and> rn_owner r = owner \<and> task_run n s r
    \<and> find (\<lambda>r. rn_action r = Some action \<and> job_of s' (rn_job r) \<noteq> None) (runs s') = Some r
    \<and> jobs s' = jobs s \<and> (s' = s \<or> runs s' = runs s @ [r])"
proof (cases "find (\<lambda>r. rn_action r = Some action \<and> job_of s (rn_job r) \<noteq> None) (runs s)")
  case (Some x)
  with run show ?thesis
    by (auto simp: snooze_task_def transaction_Inr guardE_eq_Inr)
next
  case None
  then obtain t j where o: "owned_task_and_job n owner s = Inr (t, j)"
    and sn: "snooze_insert zones now t (j\<lparr>j_owner := owner\<rparr>) action delay s = Inr (r, s')"
    and a: "\<not> is_blank action" "length action \<le> 128"
    using run by (auto simp: snooze_task_def transaction_Inr guardE_eq_Inr bindE_eq_Inr)
  note O = owned_task_and_job_Inr [OF inv o]
  from sn have r: "rn_job r = j_id j" "rn_owner r = owner" "rn_action r = Some action"
    and s': "runs s' = runs s @ [r]" "jobs s' = jobs s"
    by (auto simp: snooze_insert_def bindE_eq_Inr guardE_eq_Inr Let_def insert_run_def new_run_def)
  have "job_of s (j_id j) = Some j" by (rule row_by_unique [OF reminder_invD(2) [OF inv] O(4)])
  moreover have "task_run n s r" using O(4,5) r(1) by (auto simp: task_run_def list_ex_iff)
  moreover have "find (\<lambda>r. rn_action r = Some action \<and> job_of s (rn_job r) \<noteq> None) (runs s @ [r]) = Some r"
    using None r(1,3) calculation(1) by (simp add: find_append)
  ultimately show ?thesis using a r(2) by (simp add: s')
qed

text \<open>
A snooze is idempotent under its action token: once it has succeeded, the same request,
whenever it comes and whatever delay it names, returns the same run and changes nothing, so one
confirmed action adds at most one run.
\<close>
theorem snooze_is_idempotent:
  assumes "reminder_reachable zones (s, ls)" and "snooze_task zones now n owner action delay s = (Inr r, s')"
    and "60 \<le> delay'" and "delay' \<le> 604800"
  shows "snooze_task zones now' n owner action delay' s' = (Inr r, s') \<and> length (runs s') \<le> length (runs s) + 1"
proof -
  note S = snooze_task_Inr [OF reachable_inv(1) [OF assms(1)] assms(2)]
  have "task_run n s' r = task_run n s r" using S by (simp add: task_run_def)
  then have "snooze_task zones now' n owner action delay' s' = (Inr r, s')"
    using S assms(3,4) by (auto simp: snooze_task_def transaction_Inr guardE_eq_Inr)
  with S show ?thesis by auto
qed

text \<open>The owner snoozes by one minute, one minute before the first occurrence.\<close>

definition demo_snoozed_run :: run where
  "demo_snoozed_run = (demo_run R_Due None None 63771674340000000)\<lparr>rn_action := Some [65],
     rn_created := 63771674340000000\<rparr>"

definition demo_snoozed :: db where
  "demo_snoozed = demo_state [demo_task T_Active 102] [demo_job J_Active (Some 63771674400000000) 0 102]
     [demo_snoozed_run]
     [(demo_box O_Pending 0 None None None 63771674340000000)\<lparr>o_created := 63771674340000000\<rparr>]"

lemma demo_snooze:
  "snooze_task demo_zones 63771674340000000 1 7 [65] 60 demo_active = (Inr demo_snoozed_run, demo_snoozed)"
proof -
  have "owned_task_and_job 1 7 demo_active
     = Inr (demo_task T_Active 102, demo_job J_Active (Some 63771674400000000) 0 102)"
    by (simp add: demo_eval)
  moreover have "ensure_current_epoch (demo_task T_Active 102) demo_active = Inr ()" by (simp add: demo_eval)
  moreover have "runs demo_active = []" "\<not> is_blank ([65] :: pystr)"
    by (simp_all add: demo_state_def empty_db_def is_blank_def is_space_def strip_def)
  moreover have "(demo_job J_Active (Some 63771674400000000) 0 102)\<lparr>j_owner := 7\<rparr>
     = demo_job J_Active (Some 63771674400000000) 0 102" by (simp add: demo_job_def)
  moreover have "snooze_insert demo_zones 63771674340000000 (demo_task T_Active 102)
      (demo_job J_Active (Some 63771674400000000) 0 102) [65] 60 demo_active
    = Inr (demo_snoozed_run, demo_snoozed)"
    by (simp add: snooze_insert_def quiet_hours_available_at_def run_exists_def demo_snoozed_run_def
        demo_snoozed_def insert_run_def new_run_def new_outbox_def demo_eval Let_def)
  moreover have "tk_status (demo_task T_Active 102) = T_Active" by (simp add: demo_task_def)
  ultimately show ?thesis by (simp add: snooze_task_def transaction_def)
qed

lemma demo_reachable_snoozed: "reminder_reachable demo_zones (demo_snoozed, [])"
  by (rule reminder_reachable.step [OF demo_reachable_active reminder_step.snooze [OF demo_snooze]])

theorem collided_cursor_is_never_advanced_witness:
  "materialize_due demo_zones 63771674400000000 10 demo_snoozed = (Inr [], demo_snoozed)
   \<and> run_exists 1 63771674400000000 demo_snoozed"
proof -
  let ?j = "demo_job J_Active (Some 63771674400000000) 0 102"
  have j: "?j \<in> set (jobs demo_snoozed)" "j_id ?j = 1" "next_of ?j = 63771674400000000" "j_grace ?j = 3600"
    by (simp_all add: demo_snoozed_def demo_state_def next_of_job) (simp_all add: demo_job_def)
  have x: "run_exists 1 63771674400000000 demo_snoozed"
    by (simp add: run_exists_def demo_snoozed_def demo_snoozed_run_def demo_state_def demo_run_def)
  have "due_jobs 63771674400000000 10 demo_snoozed = [(?j, demo_task T_Active 102)]"
    by (simp add: due_jobs_def job_due_def next_of_def demo_snoozed_def demo_eval)
  moreover have "release_time demo_zones ?j 63771674400000000 = Inr (63771674400000000, False)"
    by (simp add: release_time_def quiet_hours_available_at_def demo_eval)
  moreover have "datetime_add 63771674400000000 (seconds 3600) = Inr 63771678000000000"
    by (simp add: demo_eval)
  ultimately have m: "materialize_due demo_zones 63771674400000000 10 demo_snoozed = (Inr [], demo_snoozed)"
    using x j by (simp add: materialize_due_def transaction_def materialize_one_def)
  from collided_cursor_is_never_advanced [OF demo_reachable_snoozed j(1) _ m] x m j show ?thesis by simp
qed

theorem snooze_is_idempotent_witness:
  "snooze_task demo_zones 63771674350000000 1 7 [65] 3600 demo_snoozed = (Inr demo_snoozed_run, demo_snoozed)"
  using snooze_is_idempotent [OF demo_reachable_active demo_snooze] by simp

lemma finish_task_result:
  assumes inv: "reminder_inv s" and run: "finish_task target now n owner s = (Inr a, s')"
  shows "a \<in> set (tasks s') \<and> tk_id a = n \<and> tk_owner a = owner \<and> tk_status a = target"
proof -
  obtain t where t: "task_of s n = Some t" "tk_owner t = owner" and c: "(tk_status t = target \<and> s' = s \<and> a = t)
       \<or> (s' = close_task_rows target
            (if target = T_Cancelled then J_Cancelled else J_Completed) now n s \<and> task_by_id n s' = Inr a)"
    using run unfolding finish_task_def transaction_Inr
    by (auto simp: bindE_eq_Inr guardE_eq_Inr of_option_eq Let_def split: if_splits)
  note m = row_by_Some [OF t(1)]
  from c show ?thesis
  proof (elim disjE conjE)
    assume s': "s' = close_task_rows target (if target = T_Cancelled then J_Cancelled else J_Completed) now n s"
      and "task_by_id n s' = Inr a"
    then have "task_of s' n = Some a" by (simp add: task_by_id_def of_option_eq)
    moreover have "task_of s' n = Some (t\<lparr>tk_status := target, tk_updated := now\<rparr>)"
      unfolding s' using t m by (simp add: close_task_rows_def row_by_update)
    ultimately have "a = t\<lparr>tk_status := target, tk_updated := now\<rparr>" by simp
    with row_by_Some [OF \<open>task_of s' n = Some a\<close>] t m show ?thesis by simp
  qed (use m t in auto)
qed

text \<open>
When \<open>cancel_task\<close> or \<open>complete_task\<close> succeeds, the task belongs to the caller and has the
terminal status, its job has no cursor any more, none of its runs is open, and no outbox row of
it can be leased, at any time.
\<close>
theorem finished_task_is_closed:
  assumes "reminder_reachable zones (s, ls)" and "target \<in> {T_Cancelled, T_Completed}"
    and "finish_task target now n owner s = (Inr t, s')"
  shows "t \<in> set (tasks s') \<and> tk_id t = n \<and> tk_owner t = owner \<and> tk_status t = target
    \<and> (\<forall>j \<in> set (jobs s'). j_task j = n \<longrightarrow> j_next j = None \<and> j_status j \<in> {J_Cancelled, J_Completed})
    \<and> (\<forall>ob \<in> set (outboxes s'). \<forall>j. outbox_job ob s' = Some j \<and> j_task j = n \<longrightarrow> \<not> eligible now' s' ob)"
proof -
  note inv = reachable_inv(1) [OF assms(1)]
  have "reminder_inv s'"
    using good_finish_task [OF inv assms(2), of now n owner] assms(3) by (simp add: good_step_def)
  note inv' = this
  have t: "t \<in> set (tasks s')" "tk_id t = n" "tk_owner t = owner" "tk_status t = target"
    using finish_task_result [OF inv assms(3)] by simp_all
  have js: "j_next j = None \<and> j_status j \<in> {J_Cancelled, J_Completed}" if j: "j \<in> set (jobs s')" "j_task j = n" for j
  proof -
    obtain x where x: "x \<in> set (tasks s')" "tk_id x = j_task j" "status_ok (j_status j) (tk_status x)"
      using reminder_invD(10) [OF inv' j(1)] by (auto simp: job_task_ok_def)
    have "x = t" using distinct_map_unique [OF reminder_invD(1) [OF inv'] x(1) t(1)] x(2) j(2) t(2) by simp
    then have "j_status j \<in> {J_Cancelled, J_Completed}" using x(3) t(4) assms(2) by (cases "j_status j") auto
    then show ?thesis using reminder_invD(9) [OF inv' j(1)] by (auto simp: job_row_ok_def)
  qed
  have "\<not> eligible now' s' ob" if ob: "ob \<in> set (outboxes s')" "outbox_job ob s' = Some j" "j_task j = n" for ob j
  proof
    assume "eligible now' s' ob"
    then have "o_status ob \<in> {O_Pending, O_Leased}" by (auto simp: eligible_def)
    from open_outbox_task [OF inv' ob(1,2) this] obtain x where x: "x \<in> set (tasks s')" "tk_id x = j_task j"
      "\<not> closed_task x" by blast
    have "x = t" using distinct_map_unique [OF reminder_invD(1) [OF inv'] x(1) t(1)] x(2) ob(3) t(2) by simp
    with x(3) t(4) assms(2) show False by (auto simp: closed_task_def)
  qed
  with t js show ?thesis by blast
qed

theorem finished_task_is_closed_witness:
  "filter (\<lambda>j. j_task j = 1 \<and> j_next j \<noteq> None)
     (jobs (snd (cancel_task 63771674480000000 1 7 demo_leased))) = []"
proof -
  have "\<exists>t s'. cancel_task 63771674480000000 1 7 demo_leased = (Inr t, s')"
    by (simp add: cancel_task_def finish_task_def close_task_rows_def demo_eval Let_def)
  then obtain t s' where c: "finish_task T_Cancelled 63771674480000000 1 7 demo_leased = (Inr t, s')"
    unfolding cancel_task_def by blast
  from finished_task_is_closed [OF demo_reachable_leased _ c] c show ?thesis
    by (simp add: cancel_task_def filter_empty_conv)
qed

text \<open>
A purge needs the lifecycle fence of a reset at the given epoch. Then it deletes exactly
the tasks, jobs, runs and outbox rows of the owner, the rows of the other owners stay as they
are and in their order; without the fence it raises and changes nothing.
\<close>
theorem purge_owner_exact:
  assumes "reminder_reachable zones (s, ls)"
  shows "purge_owner owner epoch s =
    (if list_ex (\<lambda>p. p_user p = owner) (profiles s)
        \<and> (\<exists>p. profile_of s owner = Some p \<and> p_epoch p = epoch \<and> p_state p = L_Reset)
     then (Inr (), s\<lparr>tasks := filter (\<lambda>t. tk_owner t \<noteq> owner) (tasks s),
            jobs := filter (\<lambda>j. j_owner j \<noteq> owner) (jobs s),
            runs := filter (\<lambda>r. rn_owner r \<noteq> owner) (runs s),
            outboxes := filter (\<lambda>ob. o_owner ob \<noteq> owner) (outboxes s)\<rparr>)
     else (Inl (RuntimeError ''reminder purge lifecycle fence is invalid''), s))"
proof (cases "profile_of s owner")
  case None
  then show ?thesis by (simp add: purge_owner_def transaction_def)
next
  case (Some p)
  then have "list_ex (\<lambda>p. p_user p = owner) (profiles s)" using row_by_Some [OF Some] by (auto simp: list_ex_iff)
  with Some show ?thesis
    using delete_owner_tasks [OF reachable_inv(1) [OF assms], of owner]
    by (auto simp: purge_owner_def transaction_def guardE_def delete_where_def)
qed

theorem purge_owner_exact_witness:
  "purge_owner 7 1 demo_sent = (Inl (RuntimeError ''reminder purge lifecycle fence is invalid''), demo_sent)"
  unfolding purge_owner_exact [OF demo_reachable_sent] by (simp add: demo_state_def row_by_def)

lemma first_job_is:
  assumes inv: "reminder_inv s" and j: "j \<in> set (jobs s)"
  shows "first_job (j_task j) s = Some j"
proof (cases "first_job (j_task j) s")
  case None
  with j show ?thesis by (auto simp: first_job_def filter_empty_conv)
next
  case (Some k)
  note k = first_job_unique(1,2) [OF inv Some]
  have "k = j" by (rule distinct_map_unique [OF reminder_invD(3) [OF inv] k(1) j k(2)])
  with Some show ?thesis by simp
qed

lemma activate_Inr:
  assumes "activate zones now n owner s = (Inr j, s')"
  shows "\<exists>t0 j0. owned_task_and_job n owner s = Inr (t0, j0) \<and> ensure_current_epoch t0 s = Inr ()
    \<and> (s' = s \<and> j = j0 \<and> j_status j0 \<in> {J_Active, J_NeedsReview}
      \<or> (\<exists>jst tst nx. s' = set_task n (\<lambda>r. r\<lparr>tk_status := tst, tk_updated := now\<rparr>)
              (set_job (j_id j0) (\<lambda>r. r\<lparr>j_status := jst, j_next := nx, j_updated := now\<rparr>) s)
          \<and> jst \<in> {J_Active, J_NeedsReview} \<and> job_of s' (j_id j0) = Some j))"
proof -
  define upd where "upd k nx = (case nx of
            None \<Rightarrow> set_task n (\<lambda>r. r\<lparr>tk_status := T_NeedsReview, tk_updated := now\<rparr>)
              (set_job (j_id k) (\<lambda>r. r\<lparr>j_status := J_NeedsReview, j_next := None,
                 j_updated := now\<rparr>) s)
          | Some utc \<Rightarrow> set_task n (\<lambda>r. r\<lparr>tk_status := T_Active, tk_updated := now\<rparr>)
              (set_job (j_id k) (\<lambda>r. r\<lparr>j_status := J_Active, j_next := Some utc,
                 j_updated := now\<rparr>) s))" for k :: job and nx
  have "bindE (owned_task_and_job n owner s) (\<lambda>(t, j).
     bindE (ensure_current_epoch t s) (\<lambda>_.
     if j_status j \<in> {J_Active, J_NeedsReview} then Inr (j, s)
     else guardE (j_status j \<noteq> J_Awaiting)
       (RuntimeError ''reminder job is not awaiting confirmation'')
     (bindE (first_instant zones j) (\<lambda>first_utc.
       bindE (job_by_id (j_id j) (upd j first_utc)) (\<lambda>j'. Inr (j', upd j first_utc)))))) = Inr (j, s')"
    using assms unfolding activate_def transaction_Inr Let_def upd_def .
  then obtain t0 j0 where o: "owned_task_and_job n owner s = Inr (t0, j0)" "ensure_current_epoch t0 s = Inr ()"
    and c: "(j_status j0 \<in> {J_Active, J_NeedsReview} \<and> s' = s \<and> j = j0)
      \<or> (\<exists>nx. s' = upd j0 nx \<and> job_of s' (j_id j0) = Some j)"
    by (auto simp: bindE_eq_Inr guardE_eq_Inr of_option_eq job_by_id_def split: if_splits)
  from c show ?thesis
  proof (elim disjE exE conjE)
    assume "j_status j0 \<in> {J_Active, J_NeedsReview}" "s' = s" "j = j0"
    with o show ?thesis by blast
  next
    fix nx assume s': "s' = upd j0 nx" and j: "job_of s' (j_id j0) = Some j"
    show ?thesis
    proof (cases nx)
      case None
      then have "s' = set_task n (\<lambda>r. r\<lparr>tk_status := T_NeedsReview, tk_updated := now\<rparr>)
              (set_job (j_id j0) (\<lambda>r. r\<lparr>j_status := J_NeedsReview, j_next := None, j_updated := now\<rparr>) s)"
        using s' by (simp add: upd_def)
      with o j show ?thesis by blast
    next
      case (Some w)
      then have "s' = set_task n (\<lambda>r. r\<lparr>tk_status := T_Active, tk_updated := now\<rparr>)
              (set_job (j_id j0) (\<lambda>r. r\<lparr>j_status := J_Active, j_next := Some w, j_updated := now\<rparr>) s)"
        using s' by (simp add: upd_def)
      with o j show ?thesis by blast
    qed
  qed
qed

text \<open>
Confirming is idempotent: once \<open>activate\<close> has succeeded, repeating it returns the same job
and changes nothing, so a second tap on the confirmation cannot restart a schedule.
\<close>
theorem activate_is_idempotent:
  assumes "reminder_reachable zones (s, ls)" and "activate zones now n owner s = (Inr j, s')"
  shows "activate zones now' n owner s' = (Inr j, s') \<and> j \<in> set (jobs s') \<and> j_task j = n
    \<and> j_owner j = owner \<and> j_status j \<in> {J_Active, J_NeedsReview}"
proof -
  note inv = reachable_inv(1) [OF assms(1)]
  have inv': "reminder_inv s'" using good_activate [OF inv, of zones now n owner] assms(2) by (simp add: good_step_def)
  obtain t0 j0 where o: "owned_task_and_job n owner s = Inr (t0, j0)"
    and e: "ensure_current_epoch t0 s = Inr ()"
    and c: "s' = s \<and> j = j0 \<and> j_status j0 \<in> {J_Active, J_NeedsReview}
      \<or> (\<exists>jst tst nx. s' = set_task n (\<lambda>r. r\<lparr>tk_status := tst, tk_updated := now\<rparr>)
              (set_job (j_id j0) (\<lambda>r. r\<lparr>j_status := jst, j_next := nx, j_updated := now\<rparr>) s)
          \<and> jst \<in> {J_Active, J_NeedsReview} \<and> job_of s' (j_id j0) = Some j)"
    using activate_Inr [OF assms(2)] by blast
  note O = owned_task_and_job_Inr [OF inv o]
  from c show ?thesis
  proof (elim disjE exE conjE)
    assume "s' = s" "j = j0" "j_status j0 \<in> {J_Active, J_NeedsReview}"
    with o e O show ?thesis by (auto simp: activate_def transaction_def)
  next
    fix jst tst nx
    define f where "f r = r\<lparr>j_status := jst, j_next := nx, j_updated := now\<rparr>" for r :: job
    assume s': "s' = set_task n (\<lambda>r. r\<lparr>tk_status := tst, tk_updated := now\<rparr>)
              (set_job (j_id j0) (\<lambda>r. r\<lparr>j_status := jst, j_next := nx, j_updated := now\<rparr>) s)"
      and jst: "jst \<in> {J_Active, J_NeedsReview}" and j: "job_of s' (j_id j0) = Some j"
    have s2: "jobs s' = update_where (\<lambda>r. j_id r = j_id j0) f (jobs s)"
      "tasks s' = update_where (\<lambda>t. tk_id t = n) (\<lambda>r. r\<lparr>tk_status := tst, tk_updated := now\<rparr>) (tasks s)"
      "profiles s' = profiles s"
      by (simp_all add: s' set_task_def set_job_def f_def [abs_def])
    have "job_of s (j_id j0) = Some j0" by (rule row_by_unique [OF reminder_invD(2) [OF inv] O(4)])
    with j have jj: "j = f j0" unfolding s2 by (simp add: row_by_update f_def)
    have m: "j \<in> set (jobs s')" using row_by_Some [OF j] by simp
    have "task_of s n = Some t0" using o by (auto simp: owned_task_and_job_def result_simps)
    then have t: "task_of s' n = Some (t0\<lparr>tk_status := tst, tk_updated := now\<rparr>)"
      unfolding s2 using O(2) by (simp add: row_by_update)
    have "first_job n s' = Some j" using first_job_is [OF inv' m] jj O(5) by (simp add: f_def)
    with t O(3) have "owned_task_and_job n owner s' = Inr (t0\<lparr>tk_status := tst, tk_updated := now\<rparr>, j)"
      by (simp add: owned_task_and_job_def)
    moreover have "ensure_current_epoch (t0\<lparr>tk_status := tst, tk_updated := now\<rparr>) s' = Inr ()"
      using e by (simp add: ensure_current_epoch_def active_profile_def s2)
    ultimately show ?thesis using jj jst m O by (auto simp: activate_def transaction_def f_def)
  qed
qed

theorem activate_is_idempotent_witness:
  "fst (activate demo_zones 500 1 7 demo_active) = Inr (demo_job J_Active (Some 63771674400000000) 0 102)"
  using activate_is_idempotent [OF demo_reachable_awaiting demo_activate] by simp

end
