(* ===== verification/Memory_Store.thy ===== *)
theory Memory_Store
  imports Conversations Extraction_Runs
begin

text \<open>
  The memory store of \<open>memory.py\<close>: manual and automatic memories with their scopes, optimistic
  updates with a revision history, the selection for a persona's context, relationships, and the
  activation of an extraction run. \<open>now\<close> is the value of the store's clock; \<open>env\<close> is what other
  connections do between a read and the transaction that follows it.
\<close>

section \<open>New memories\<close>

record new_memory =
  nm_user :: int
  nm_scope :: memory_scope
  nm_kind :: pystr
  nm_content :: pystr
  nm_persona :: "int option"
  nm_relationship :: "int option"
  nm_session :: "int option"
  nm_created :: "int option"
  nm_updated :: "int option"
  nm_source :: memory_source
  nm_category :: "memory_category option"
  nm_confidence :: "rat option"
  nm_turn :: "int option"

definition validate_memory_metadata ::
    "memory_source \<Rightarrow> memory_category option \<Rightarrow> rat option \<Rightarrow> int option \<Rightarrow> unit result" where
  "validate_memory_metadata source category confidence turn_id =
     guardE (source = Automatic \<and> category = None) (ValueError ''automatic memory requires a category'')
     (guardE (case confidence of None \<Rightarrow> False | Some c \<Rightarrow> \<not> (0 \<le> c \<and> c \<le> 1))
        (ValueError ''memory confidence must be between 0 and 1'')
     (bindE (case turn_id of None \<Rightarrow> Inr () | Some n \<Rightarrow> positive_ids [n] (Inr ())) (\<lambda>_.
      guardE (source = Automatic \<and> turn_id = None) (ValueError ''automatic memory requires turn provenance'')
        (Inr ()))))"

definition normalize_memory_metadata :: "new_memory \<Rightarrow> unit result" where
  "normalize_memory_metadata m =
     validate_memory_metadata (nm_source m) (nm_category m) (nm_confidence m) (nm_turn m)"

text \<open>The checks and foreign keys of a memory row.\<close>

definition scope_shape :: "memory_scope \<Rightarrow> int option \<Rightarrow> int option \<Rightarrow> bool" where
  "scope_shape scope persona_id relationship_id = (case scope of
     Shared \<Rightarrow> persona_id = None \<and> relationship_id = None
   | Persona_Private \<Rightarrow> persona_id \<noteq> None \<and> relationship_id = None
   | Relationship_Scope \<Rightarrow> persona_id = None \<and> relationship_id \<noteq> None)"

definition memory_refused :: "new_memory \<Rightarrow> db \<Rightarrow> bool" where
  "memory_refused m s \<longleftrightarrow> \<not> sql_nonblank (nm_kind m) \<or> \<not> sql_nonblank (nm_content m)
     \<or> \<not> scope_shape (nm_scope m) (nm_persona m) (nm_relationship m)
     \<or> (case nm_persona m of None \<Rightarrow> False | Some n \<Rightarrow> row_by pr_id (personas s) n = None)
     \<or> (case nm_relationship m of None \<Rightarrow> False
        | Some n \<Rightarrow> \<not> list_ex (\<lambda>r. re_id r = n \<and> re_user r = nm_user m) (relationships s))"

definition memory_from :: "new_memory \<Rightarrow> int \<Rightarrow> int \<Rightarrow> db \<Rightarrow> memory_row" where
  "memory_from m created updated s = \<lparr>m_id = next_rowid m_id (memories s), m_user = nm_user m, m_scope = nm_scope m,
     m_persona = nm_persona m, m_relationship = nm_relationship m, m_kind = nm_kind m, m_content = nm_content m,
     m_session = nm_session m, m_status = M_Active, m_created = created, m_updated = updated, m_version = 1,
     m_source = nm_source m, m_category = nm_category m, m_confidence = nm_confidence m, m_turn = nm_turn m\<rparr>"

text \<open>The same automatic memory, stored before.\<close>

definition same_automatic :: "new_memory \<Rightarrow> memory_row \<Rightarrow> bool" where
  "same_automatic m r \<longleftrightarrow> m_user r = nm_user m \<and> m_scope r = nm_scope m \<and> m_persona r = nm_persona m
     \<and> m_relationship r = nm_relationship m \<and> m_kind r = nm_kind m \<and> m_content r = nm_content m
     \<and> m_session r = nm_session m \<and> m_status r = M_Active \<and> m_source r = Automatic
     \<and> nm_category m \<noteq> None \<and> m_category r = nm_category m \<and> m_confidence r = nm_confidence m
     \<and> nm_turn m \<noteq> None \<and> m_turn r = nm_turn m"

definition or_else :: "int option \<Rightarrow> int \<Rightarrow> int" where
  "or_else x d = (case x of None \<Rightarrow> d | Some n \<Rightarrow> n)"

definition create_in_transaction :: "int \<Rightarrow> new_memory \<Rightarrow> db \<Rightarrow> (memory_row \<times> db) result" where
  "create_in_transaction timestamp m s =
     (let created = or_else (nm_created m) timestamp;
          updated = or_else (nm_updated m) created;
          s1 = ensure_profile_row (nm_user m) created s
      in case (if nm_source m = Automatic then find (same_automatic m) (memories s1) else None) of
           Some r \<Rightarrow> Inr (r, s1)
         | None \<Rightarrow> guardE (memory_refused m s1) (IntegrityError ''constraint failed'')
             (let r = memory_from m created updated s1 in Inr (r, s1\<lparr>memories := memories s1 @ [r]\<rparr>)))"

definition create_memory :: "int \<Rightarrow> new_memory \<Rightarrow> (db, memory_row) op" where
  "create_memory now m = transaction (\<lambda>s. bindE (normalize_memory_metadata m) (\<lambda>_. create_in_transaction now m s))"

section \<open>Reading\<close>

definition select_memory :: "int \<Rightarrow> int \<Rightarrow> db \<Rightarrow> memory_row option" where
  "select_memory memory_id user s =
     find (\<lambda>m. m_id m = memory_id \<and> m_user m = user \<and> m_status m = M_Active) (memories s)"

text \<open>\<open>ORDER BY updated_at DESC, id DESC\<close>.\<close>

definition newest_first :: "memory_row list \<Rightarrow> memory_row list" where
  "newest_first = sort_key (\<lambda>m. (- m_updated m, - m_id m))"

definition list_for_user :: "int \<Rightarrow> int \<Rightarrow> int \<Rightarrow> db \<Rightarrow> memory_row list result" where
  "list_for_user user page page_size s =
     guardE (page < 1) (ValueError ''memory page must be positive'')
     (guardE (page_size < 1) (ValueError ''memory page size must be positive'')
       (Inr (take (nat page_size) (drop (nat ((page - 1) * page_size))
          (newest_first (filter (\<lambda>m. m_user m = user \<and> m_status m = M_Active) (memories s)))))))"

definition count_for_user :: "int \<Rightarrow> db \<Rightarrow> nat" where
  "count_for_user user s = count_where (\<lambda>m. m_user m = user \<and> m_status m = M_Active) (memories s)"

record memory_limits =
  lim_shared :: int
  lim_private :: int
  lim_relationship :: int
  lim_total :: int

definition make_limits :: "int \<Rightarrow> int \<Rightarrow> int \<Rightarrow> int \<Rightarrow> memory_limits result" where
  "make_limits a b c d = guardE (a < 0 \<or> b < 0 \<or> c < 0 \<or> d < 0) (ValueError ''memory limits cannot be negative'')
     (Inr \<lparr>lim_shared = a, lim_private = b, lim_relationship = c, lim_total = d\<rparr>)"

definition default_limits :: memory_limits where
  "default_limits = \<lparr>lim_shared = 20, lim_private = 20, lim_relationship = 20, lim_total = 60\<rparr>"

record memory_context =
  mc_shared :: "memory_row list"
  mc_private :: "memory_row list"
  mc_relationship :: "memory_row list"
  mc_state :: "relationship option"

definition context_records :: "memory_context \<Rightarrow> memory_row list" where
  "context_records c = newest_first (mc_shared c @ mc_private c @ mc_relationship c)"

definition list_records :: "(memory_row \<Rightarrow> bool) \<Rightarrow> int \<Rightarrow> db \<Rightarrow> memory_row list" where
  "list_records P limit s = take (nat limit) (newest_first (filter (\<lambda>m. m_status m = M_Active \<and> P m) (memories s)))"

definition get_relationship :: "int \<Rightarrow> int \<Rightarrow> db \<Rightarrow> relationship option" where
  "get_relationship user persona_id s = find (\<lambda>r. re_user r = user \<and> re_persona r = persona_id) (relationships s)"

definition list_for_context :: "int \<Rightarrow> int \<Rightarrow> memory_limits \<Rightarrow> db \<Rightarrow> memory_context" where
  "list_for_context user persona_id limits s =
     (let sh = list_records (\<lambda>m. m_user m = user \<and> m_scope m = Shared) (lim_shared limits) s;
          pp = list_records (\<lambda>m. m_user m = user \<and> m_scope m = Persona_Private \<and> m_persona m = Some persona_id)
            (lim_private limits) s;
          rl = list_records (\<lambda>m. m_user m = user \<and> m_scope m = Relationship_Scope
              \<and> list_ex (\<lambda>r. Some (re_id r) = m_relationship m \<and> re_user r = m_user m \<and> re_persona r = persona_id)
                  (relationships s)) (lim_relationship limits) s;
          ids = map m_id (take (nat (lim_total limits)) (newest_first (sh @ pp @ rl)));
          keep = filter (\<lambda>m. m_id m \<in> set ids)
      in \<lparr>mc_shared = keep sh, mc_private = keep pp, mc_relationship = keep rl,
          mc_state = get_relationship user persona_id s\<rparr>)"

section \<open>Updates, revisions, deletion\<close>

definition updated_row ::
    "pystr \<Rightarrow> pystr \<Rightarrow> memory_category option \<Rightarrow> rat option \<Rightarrow> int \<Rightarrow> memory_row \<Rightarrow> memory_row" where
  "updated_row kind content category confidence now m = m\<lparr>m_kind := kind, m_content := content,
     m_category := category, m_confidence := confidence, m_version := m_version m + 1, m_updated := now\<rparr>"

definition write_update ::
    "int \<Rightarrow> int \<Rightarrow> int \<Rightarrow> int \<Rightarrow> pystr \<Rightarrow> pystr \<Rightarrow> memory_category option \<Rightarrow> rat option \<Rightarrow> (db, memory_row) op" where
  "write_update now memory_id user expected kind content category confidence = transaction (\<lambda>s.
     let s1 = ensure_profile_row user now s in
     case find (\<lambda>m. m_id m = memory_id \<and> m_user m = user \<and> m_status m = M_Active \<and> m_version m = expected) (memories s1) of
       None \<Rightarrow> Inl (MemoryVersionConflict ''memory version changed'')
     | Some m \<Rightarrow>
         guardE (\<not> sql_nonblank kind \<or> \<not> sql_nonblank content) (IntegrityError ''CHECK constraint failed'')
         (let m' = updated_row kind content category confidence now m in
          guardE (list_ex (\<lambda>v. rv_memory v = memory_id \<and> rv_version v = m_version m') (revisions s1))
            (IntegrityError ''UNIQUE constraint failed'')
          (Inr (m', s1\<lparr>memories := update_where (\<lambda>m. m_id m = memory_id \<and> m_user m = user \<and> m_status m = M_Active
                  \<and> m_version m = expected) (updated_row kind content category confidence now) (memories s1),
              revisions := revisions s1 @ [\<lparr>rv_id = next_rowid rv_id (revisions s1), rv_memory = memory_id,
                rv_owner = user, rv_version = m_version m', rv_content = m_content m', rv_category = m_category m',
                rv_confidence = m_confidence m', rv_changed = now\<rparr>]\<rparr>))))"

definition update_memory ::
    "(db \<Rightarrow> db) \<Rightarrow> int \<Rightarrow> int \<Rightarrow> int \<Rightarrow> pystr \<Rightarrow> pystr option \<Rightarrow> memory_category option \<Rightarrow> rat option \<Rightarrow> int option
      \<Rightarrow> (db, memory_row) op" where
  "update_memory env now memory_id user content kind category confidence expected s =
     (case select_memory memory_id user s of
        None \<Rightarrow> (Inl (KeyError ''memory record not found''), s)
      | Some current \<Rightarrow>
         (let category' = (case category of None \<Rightarrow> m_category current | Some c \<Rightarrow> Some c);
              confidence' = (case confidence of None \<Rightarrow> m_confidence current | Some c \<Rightarrow> Some c)
          in case validate_memory_metadata (m_source current) category' confidence' (m_turn current) of
               Inl e \<Rightarrow> (Inl e, s)
             | Inr _ \<Rightarrow> write_update now memory_id user (or_else expected (m_version current))
                 (case kind of None \<Rightarrow> m_kind current | Some k \<Rightarrow> k) content category' confidence' (env s)))"

definition list_revisions :: "int \<Rightarrow> int \<Rightarrow> db \<Rightarrow> revision list result" where
  "list_revisions memory_id user s = positive_ids [memory_id, user]
     (Inr (sort_key rv_version (filter (\<lambda>v. rv_memory v = memory_id \<and> rv_owner v = user) (revisions s))))"

definition delete_memory :: "int \<Rightarrow> int \<Rightarrow> (db, bool) op" where
  "delete_memory memory_id user = transaction (\<lambda>s.
     let P = (\<lambda>m. m_id m = memory_id \<and> m_user m = user) in
     Inr (count_where P (memories s) = 1, delete_memories P s))"

definition delete_by_provenance_turn :: "int \<Rightarrow> int \<Rightarrow> (db, nat) op" where
  "delete_by_provenance_turn turn_id user = transaction (\<lambda>s. positive_ids [turn_id, user]
     (let P = (\<lambda>m. m_turn m = Some turn_id \<and> m_user m = user) in
      Inr (count_where P (memories s), delete_memories P s)))"

definition promote_to_shared :: "int \<Rightarrow> int \<Rightarrow> int \<Rightarrow> (db, memory_row) op" where
  "promote_to_shared now memory_id user = transaction (\<lambda>s.
     case select_memory memory_id user s of
       None \<Rightarrow> Inl (KeyError ''memory record not found'')
     | Some m \<Rightarrow>
        (let s' = s\<lparr>memories := update_where (\<lambda>m. m_id m = memory_id \<and> m_user m = user \<and> m_status m = M_Active)
               (\<lambda>m. m\<lparr>m_scope := Shared, m_persona := None, m_relationship := None, m_updated := now\<rparr>) (memories s)\<rparr>
         in bindE (of_option (RuntimeError ''memory record disappeared after promotion'') (select_memory memory_id user s'))
              (\<lambda>m'. Inr (m', s'))))"

section \<open>Relationships\<close>

definition ensure_relationship :: "int \<Rightarrow> int \<Rightarrow> int \<Rightarrow> (db, relationship) op" where
  "ensure_relationship now user persona_id = transaction (\<lambda>s.
     case get_relationship user persona_id s of
       Some r \<Rightarrow> Inr (r, s)
     | None \<Rightarrow>
         guardE (row_by pr_id (personas s) persona_id = None) (IntegrityError ''FOREIGN KEY constraint failed'')
         (let r = \<lparr>re_id = next_rowid re_id (relationships s), re_user = user, re_persona = persona_id, re_summary = [],
               re_state = u ''{}'', re_version = 1, re_updated = now\<rparr>
          in Inr (r, s\<lparr>relationships := relationships s @ [r]\<rparr>)))"

text \<open>\<open>loads\<close> is \<open>json.loads\<close>, \<open>valid\<close> SQLite's \<open>json_valid\<close>.\<close>

definition update_relationship ::
    "(pystr \<Rightarrow> pyval result) \<Rightarrow> (pystr \<Rightarrow> bool) \<Rightarrow> int \<Rightarrow> int \<Rightarrow> int \<Rightarrow> pystr \<Rightarrow> pystr \<Rightarrow> int option \<Rightarrow> (db, relationship) op" where
  "update_relationship loads valid now user persona_id summary_text state expected = transaction (\<lambda>s.
     bindE (loads state) (\<lambda>_.
     case get_relationship user persona_id s of
       None \<Rightarrow> Inl (KeyError ''relationship not found'')
     | Some r \<Rightarrow>
         if expected \<noteq> None \<and> expected \<noteq> Some (re_version r)
         then Inl (RelationshipVersionConflict ''relationship version changed'')
         else guardE (\<not> valid state) (IntegrityError ''CHECK constraint failed'')
          (let f = (\<lambda>r. r\<lparr>re_summary := summary_text, re_state := state, re_version := re_version r + 1, re_updated := now\<rparr>)
           in Inr (f r, s\<lparr>relationships := update_where (\<lambda>r. re_user r = user \<and> re_persona r = persona_id) f
                (relationships s)\<rparr>))))"

section \<open>Personas of the store\<close>

definition register_persona :: "(pyval \<Rightarrow> pystr) \<Rightarrow> int \<Rightarrow> persona \<Rightarrow> (db, int) op" where
  "register_persona digest now p = transaction (\<lambda>s.
     bindE (ensure_persona_version digest now p s) (\<lambda>((pid, _), s'). Inr (pid, s')))"

definition memory_persona_id :: "pystr \<Rightarrow> db \<Rightarrow> int option" where
  "memory_persona_id key s = map_option pr_id (persona_row_of key s)"

definition persona_version_for_identity ::
    "(pystr \<Rightarrow> pystr) \<Rightarrow> pystr \<Rightarrow> int \<Rightarrow> db \<Rightarrow> persona_version option result" where
  "persona_version_for_identity casefold key identity s =
     (case Option.bind (persona_row_of key s) (\<lambda>r. version_of (pr_id r) identity (persona_versions s)) of
        None \<Rightarrow> Inr None
      | Some v \<Rightarrow> bindE (persona_version_from_row casefold key v) (\<lambda>x. Inr (Some x)))"

section \<open>Activation of an extraction\<close>

definition check_extracted :: "int \<Rightarrow> extraction \<Rightarrow> new_memory \<Rightarrow> unit result" where
  "check_extracted owner e m =
     guardE (nm_user m \<noteq> owner) (PermissionError ''automatic memory owner does not match run'')
     (guardE (nm_source m \<noteq> Automatic) (ValueError ''extraction activation requires automatic memory'')
     (guardE (nm_session m \<noteq> Some (e_session e)) (ValueError ''automatic memory session provenance does not match run'')
     (guardE (nm_turn m \<noteq> Some (e_turn e)) (ValueError ''automatic memory turn provenance does not match run'')
       (Inr ()))))"

fun create_all :: "int \<Rightarrow> new_memory list \<Rightarrow> db \<Rightarrow> (memory_row list \<times> db) result" where
  "create_all timestamp [] s = Inr ([], s)"
| "create_all timestamp (m # ms) s = bindE (create_in_transaction timestamp m s) (\<lambda>(r, s1).
     bindE (create_all timestamp ms s1) (\<lambda>(rs, s2). Inr (r # rs, s2)))"

definition complete_run :: "int \<Rightarrow> int \<Rightarrow> extraction \<Rightarrow> db \<Rightarrow> db result" where
  "complete_run now owner e s =
     (let P = (\<lambda>x. e_id x = e_id e \<and> e_owner x = owner \<and> e_status x = E_Processing \<and> e_epoch x = e_epoch e) in
      guardE (count_where P (extractions s) \<noteq> 1) (RuntimeError ''extraction run completion was lost'')
      (Inr (s\<lparr>extractions := update_where P (moved E_Completed 0 None now) (extractions s)\<rparr>)))"

definition activate_extraction :: "int \<Rightarrow> int \<Rightarrow> int \<Rightarrow> new_memory list \<Rightarrow> (db, memory_row list) op" where
  "activate_extraction now run_id owner ms = transaction (\<lambda>s.
     bindE (mapE normalize_memory_metadata ms) (\<lambda>_.
     bindE (fenced_run run_id owner E_Processing ''extraction run is not processing'' s) (\<lambda>e.
     bindE (mapE (check_extracted owner e) ms) (\<lambda>_.
     bindE (create_all now ms s) (\<lambda>(rows, s1).
     bindE (complete_run now owner e s1) (\<lambda>s2. Inr (rows, s2)))))))"

end
