(* ===== verification/Memory_Properties.thy ===== *)
theory Memory_Properties
  imports Memory_Store "HOL-Library.Multiset"
begin

text \<open>
  What the memory store guarantees: every memory has its full revision history, updates are
  optimistic, the selection for a persona never shows another persona's memories, automatic
  memories are stored once, and an extraction is activated once.
\<close>

section \<open>Revision histories\<close>

definition versions_of :: "int \<Rightarrow> revision list \<Rightarrow> int list" where
  "versions_of n vs = map rv_version (filter (\<lambda>v. rv_memory v = n) vs)"

definition last_content :: "int \<Rightarrow> revision list \<Rightarrow> pystr" where
  "last_content n vs = rv_content (last (filter (\<lambda>v. rv_memory v = n) vs))"

definition history_ok :: "db \<Rightarrow> memory_row \<Rightarrow> bool" where
  "history_ok s m \<longleftrightarrow> 1 \<le> m_version m \<and> versions_of (m_id m) (revisions s) = [2..m_version m]
     \<and> (1 < m_version m \<longrightarrow> last_content (m_id m) (revisions s) = m_content m)
     \<and> (\<forall>v \<in> set (revisions s). rv_memory v = m_id m \<longrightarrow> rv_owner v = m_user m)"

definition history_inv :: "db \<Rightarrow> bool" where
  "history_inv s \<longleftrightarrow> distinct (map m_id (memories s)) \<and> (\<forall>m \<in> set (memories s). history_ok s m)
     \<and> (\<forall>v \<in> set (revisions s). \<exists>m \<in> set (memories s). m_id m = rv_memory v)"

text \<open>
  The steps that touch memories or revisions: all operations of the store, the deletions of the
  other components (by any condition), and anything that leaves the two tables alone.
\<close>

inductive memory_step :: "db \<Rightarrow> db \<Rightarrow> bool" where
  create: "memory_step s (snd (create_memory now m s))"
| activation: "memory_step s (snd (activate_extraction now run_id owner ms s))"
| update: "memory_step s (snd (write_update now n user expected kind content category confidence s))"
| promote: "memory_step s (snd (promote_to_shared now n user s))"
| delete: "memory_step s (snd (delete_memory n user s))"
| delete_turn: "memory_step s (snd (delete_by_provenance_turn n user s))"
| purge: "memory_step s (delete_memories P s)"
| purge_relationships: "memory_step s (delete_relationships R s)"
| other: "memories s' = memories s \<Longrightarrow> revisions s' = revisions s \<Longrightarrow> memory_step s s'"

inductive memory_reachable :: "db \<Rightarrow> bool" where
  start: "memory_reachable empty_db"
| step: "memory_reachable s \<Longrightarrow> memory_step s s' \<Longrightarrow> memory_reachable s'"

lemma history_other: "memories s' = memories s \<Longrightarrow> revisions s' = revisions s \<Longrightarrow> history_inv s \<Longrightarrow> history_inv s'"
  by (simp add: history_inv_def history_ok_def)

lemma history_delete:
  assumes "history_inv s"
  shows "history_inv (delete_memories P s)"
proof -
  let ?gone = "\<lambda>v. list_ex (\<lambda>m. P m \<and> m_id m = rv_memory v) (memories s)"
  have keep: "filter (\<lambda>v. rv_memory v = m_id m) (delete_where ?gone (revisions s)) = filter (\<lambda>v. rv_memory v = m_id m) (revisions s)"
    if m: "m \<in> set (memories s)" "\<not> P m" for m
  proof -
    have "\<not> ?gone v" if "rv_memory v = m_id m" for v
    proof
      assume "?gone v"
      then obtain m' where "m' \<in> set (memories s)" "P m'" "m_id m' = rv_memory v" unfolding list_ex_iff by blast
      with assms m that show False unfolding history_inv_def by (metis distinct_map_unique)
    qed
    then show ?thesis unfolding delete_where_def filter_filter by (intro filter_cong) auto
  qed
  have "history_ok (delete_memories P s) m" if "m \<in> set (memories s)" "\<not> P m" for m
    using assms that keep [OF that]
    by (auto simp: history_inv_def history_ok_def versions_of_def last_content_def delete_memories_def set_delete_where)
  moreover have "\<exists>m \<in> set (memories (delete_memories P s)). m_id m = rv_memory v"
    if "v \<in> set (revisions (delete_memories P s))" for v
  proof -
    from that have "v \<in> set (revisions s)" "\<not> ?gone v" by (auto simp: delete_memories_def set_delete_where)
    moreover from this assms obtain m where m: "m \<in> set (memories s)" "m_id m = rv_memory v"
      unfolding history_inv_def by blast
    ultimately have "\<not> P m" by (auto simp: list_ex_iff)
    with m show ?thesis by (intro bexI [of _ m]) (simp_all add: delete_memories_def set_delete_where)
  qed
  moreover have "distinct (map m_id (memories (delete_memories P s)))"
    using assms by (simp add: history_inv_def delete_memories_def delete_where_def distinct_map_filter_sub)
  moreover have "set (memories (delete_memories P s)) = {m \<in> set (memories s). \<not> P m}"
    by (simp add: delete_memories_def set_delete_where)
  ultimately show ?thesis unfolding history_inv_def by blast
qed

lemma history_insert:
  assumes inv: "history_inv s" and m: "m_id m = next_rowid m_id (memories s)" "m_version m = 1"
  shows "history_inv (s\<lparr>memories := memories s @ [m]\<rparr>)"
proof -
  have fresh: "m_id x \<noteq> m_id m" if "x \<in> set (memories s)" for x
    using next_rowid_gt [OF that, of m_id] m(1) by simp
  have "rv_memory v \<noteq> m_id m" if "v \<in> set (revisions s)" for v
    using inv fresh that unfolding history_inv_def by metis
  then have "history_ok s m" using m(2) by (simp add: history_ok_def versions_of_def filter_empty_conv)
  with inv fresh show ?thesis
    by (auto simp: history_inv_def history_ok_def distinct_map_snoc simp del: map_append)
qed

lemma create_in_transaction_cases:
  assumes "create_in_transaction now m s = Inr (r, s')"
  shows "(s' = ensure_profile_row (nm_user m) (or_else (nm_created m) now) s \<and> r \<in> set (memories s)
       \<and> nm_source m = Automatic \<and> same_automatic m r)
    \<or> ((nm_source m = Automatic \<longrightarrow> (\<forall>x \<in> set (memories s). \<not> same_automatic m x))
       \<and> r = memory_from m (or_else (nm_created m) now) (or_else (nm_updated m) (or_else (nm_created m) now)) s
       \<and> s' = (ensure_profile_row (nm_user m) (or_else (nm_created m) now) s)\<lparr>memories := memories s @ [r]\<rparr>)"
proof -
  let ?s1 = "ensure_profile_row (nm_user m) (or_else (nm_created m) now) s"
  have same: "memories ?s1 = memories s" by simp
  have mf: "memory_from m c d ?s1 = memory_from m c d s" for c d by (simp add: memory_from_def same)
  show ?thesis
  proof (cases "if nm_source m = Automatic then find (same_automatic m) (memories s) else None")
    case None
    let ?r = "memory_from m (or_else (nm_created m) now) (or_else (nm_updated m) (or_else (nm_created m) now)) s"
    have "create_in_transaction now m s = guardE (memory_refused m ?s1) (IntegrityError ''constraint failed'')
        (Inr (?r, ?s1\<lparr>memories := memories s @ [?r]\<rparr>))"
      unfolding create_in_transaction_def Let_def same None by (simp add: mf)
    with assms have "r = ?r" "s' = ?s1\<lparr>memories := memories s @ [?r]\<rparr>" by (auto simp: guardE_def split: if_splits)
    moreover have "nm_source m = Automatic \<longrightarrow> (\<forall>x \<in> set (memories s). \<not> same_automatic m x)"
      using None by (auto dest: find_NoneD)
    ultimately show ?thesis by simp
  next
    case (Some x)
    then have "nm_source m = Automatic" "x \<in> set (memories s)" "same_automatic m x"
      by (auto split: if_splits dest: find_SomeD)
    with Some assms show ?thesis by (simp add: create_in_transaction_def Let_def same)
  qed
qed

lemma history_create:
  assumes inv: "history_inv s" and c: "create_in_transaction now m s = Inr (r, s')"
  shows "history_inv s'"
proof -
  let ?s1 = "ensure_profile_row (nm_user m) (or_else (nm_created m) now) s"
  have ok: "history_inv ?s1" by (rule history_other [OF _ _ inv]) simp_all
  from create_in_transaction_cases [OF c] show ?thesis
  proof (elim disjE conjE)
    assume r: "r = memory_from m (or_else (nm_created m) now) (or_else (nm_updated m) (or_else (nm_created m) now)) s"
      and s': "s' = ?s1\<lparr>memories := memories s @ [r]\<rparr>"
    have "history_inv (?s1\<lparr>memories := memories ?s1 @ [r]\<rparr>)"
      by (rule history_insert [OF ok]) (simp_all add: r memory_from_def ensure_profile_row_def)
    moreover have "memories ?s1 = memories s" by simp
    ultimately show ?thesis unfolding s' by simp
  qed (use ok in simp)
qed

lemma history_create_all:
  "history_inv s \<Longrightarrow> create_all now ms s = Inr (rs, s') \<Longrightarrow> history_inv s'"
  by (induction now ms s arbitrary: rs s' rule: create_all.induct) (auto simp: result_simps dest: history_create)

interpretation create_tx: transactional "create_memory now m"
  by unfold_locales (simp add: create_memory_def tx.rollback)

interpretation activation_tx: transactional "activate_extraction now run_id owner ms"
  by unfold_locales (simp add: activate_extraction_def tx.rollback)

interpretation update_tx: transactional "write_update now n user expected kind content category confidence"
  by unfold_locales (simp add: write_update_def tx.rollback)

interpretation promote_tx: transactional "promote_to_shared now n user"
  by unfold_locales (simp add: promote_to_shared_def tx.rollback)

text \<open>A successful update, in full.\<close>

lemma write_update_result:
  assumes "write_update now n user expected kind content category confidence s = (Inr m', s')"
  obtains m where "m \<in> set (memories s)" "m_id m = n" "m_user m = user" "m_status m = M_Active" "m_version m = expected"
    "m' = updated_row kind content category confidence now m"
    "memories s' = update_where (\<lambda>m. m_id m = n \<and> m_user m = user \<and> m_status m = M_Active \<and> m_version m = expected)
       (updated_row kind content category confidence now) (memories s)"
    "revisions s' = revisions s @ [\<lparr>rv_id = next_rowid rv_id (revisions s), rv_memory = n, rv_owner = user,
       rv_version = m_version m', rv_content = m_content m', rv_category = m_category m',
       rv_confidence = m_confidence m', rv_changed = now\<rparr>]"
    "\<forall>v \<in> set (revisions s). \<not> (rv_memory v = n \<and> rv_version v = m_version m')"
proof -
  have same: "memories (ensure_profile_row user now s) = memories s" "revisions (ensure_profile_row user now s) = revisions s"
    by simp_all
  obtain m where m: "find (\<lambda>m. m_id m = n \<and> m_user m = user \<and> m_status m = M_Active \<and> m_version m = expected) (memories s) = Some m"
    using assms by (auto simp: write_update_def transaction_Inr Let_def same split: option.splits)
  note mm = find_SomeD [OF m]
  show ?thesis
    by (rule that [of m]) (use assms m mm in \<open>auto simp: write_update_def transaction_Inr Let_def same result_simps list_ex_iff\<close>)
qed

lemma updated_row_simps [simp]: "m_id (updated_row k c g f now m) = m_id m" "m_user (updated_row k c g f now m) = m_user m"
  "m_version (updated_row k c g f now m) = m_version m + 1" "m_content (updated_row k c g f now m) = c"
  by (simp_all add: updated_row_def)

lemma history_update:
  assumes inv: "history_inv s" and w: "write_update now n user expected kind content category confidence s = (Inr m', s')"
  shows "history_inv s'"
proof -
  obtain m where m: "m \<in> set (memories s)" "m_id m = n" "m_user m = user" "m_status m = M_Active" "m_version m = expected"
    and m': "m' = updated_row kind content category confidence now m"
    and ms: "memories s' = update_where (\<lambda>m. m_id m = n \<and> m_user m = user \<and> m_status m = M_Active \<and> m_version m = expected)
       (updated_row kind content category confidence now) (memories s)" (is "_ = update_where ?P ?f _")
    and vs: "revisions s' = revisions s @ [\<lparr>rv_id = next_rowid rv_id (revisions s), rv_memory = n, rv_owner = user,
       rv_version = m_version m', rv_content = m_content m', rv_category = m_category m',
       rv_confidence = m_confidence m', rv_changed = now\<rparr>]"
    by (rule write_update_result [OF w]) blast
  have ids: "distinct (map m_id (memories s))" using inv by (simp add: history_inv_def)
  have only: "x = m" if "x \<in> set (memories s)" "m_id x = n" for x
    using ids that m by (metis distinct_map_unique)
  have old: "history_ok s x" if "x \<in> set (memories s)" for x using inv that by (simp add: history_inv_def)
  have new: "history_ok s' (?f m)"
    using old [OF m(1)] m by (simp add: history_ok_def versions_of_def last_content_def vs m' upto_rec2)
  have other: "history_ok s' x" if "x \<in> set (memories s)" "m_id x \<noteq> n" for x
    using old [OF that(1)] that(2) by (simp add: history_ok_def versions_of_def last_content_def vs)
  have "history_ok s' x" if x: "x \<in> set (memories s')" for x
  proof -
    from x obtain y where y: "y \<in> set (memories s)" "x = (if ?P y then ?f y else y)"
      unfolding ms by (auto simp: set_update_where)
    show ?thesis
    proof (cases "m_id y = n")
      case True
      then have "y = m" by (rule only [OF y(1)])
      with y(2) m new show ?thesis by simp
    next
      case False
      with y other show ?thesis by simp
    qed
  qed
  moreover have "distinct (map m_id (memories s'))" unfolding ms using ids by (simp add: map_update_where)
  moreover have "\<exists>x \<in> set (memories s'). m_id x = rv_memory v" if "v \<in> set (revisions s')" for v
  proof -
    have "v \<in> set (revisions s) \<or> rv_memory v = n" using that by (auto simp: vs)
    then obtain x where x: "x \<in> set (memories s)" "m_id x = rv_memory v"
      using inv m(1,2) unfolding history_inv_def by blast
    from update_where_kept [OF x(1), of m_id ?f ?P] x(2) show ?thesis unfolding ms by simp
  qed
  ultimately show ?thesis unfolding history_inv_def by blast
qed

lemma history_map:
  assumes "history_inv s" and "revisions s' = revisions s" and "memories s' = update_where P f (memories s)"
    and "\<And>m. m_id (f m) = m_id m" "\<And>m. m_user (f m) = m_user m" "\<And>m. m_version (f m) = m_version m"
      "\<And>m. m_content (f m) = m_content m"
  shows "history_inv s'"
proof -
  have "history_ok s' x" if "x \<in> set (memories s')" for x
  proof -
    from that obtain y where "y \<in> set (memories s)" "x = (if P y then f y else y)"
      unfolding assms(3) by (auto simp: set_update_where)
    with assms show ?thesis by (auto simp: history_inv_def history_ok_def)
  qed
  moreover have "\<exists>x \<in> set (memories s'). m_id x = rv_memory v" if "v \<in> set (revisions s')" for v
  proof -
    from that assms(1,2) obtain x where x: "x \<in> set (memories s)" "m_id x = rv_memory v"
      unfolding history_inv_def by auto
    from update_where_kept [OF x(1), of m_id f P] x(2) assms(4) show ?thesis unfolding assms(3) by simp
  qed
  ultimately show ?thesis using assms(1,3,4) by (simp add: history_inv_def map_update_where)
qed

lemma memory_step_history:
  assumes "memory_step s s'" and inv: "history_inv s"
  shows "history_inv s'"
  using assms(1)
proof cases
  case (create now m)
  show ?thesis unfolding create
    by (rule create_tx.keeps_result [where P = history_inv, OF inv])
      (auto simp: create_memory_def transaction_Inr result_simps intro: history_create [OF inv])
next
  case (activation now run_id owner ms)
  show ?thesis unfolding activation
  proof (rule activation_tx.keeps_result [where P = history_inv, OF inv])
    fix rs s2 assume "activate_extraction now run_id owner ms s = (Inr rs, s2)"
    then obtain s1 e where "create_all now ms s = Inr (rs, s1)" "complete_run now owner e s1 = Inr s2"
      unfolding activate_extraction_def transaction_Inr bindE_eq_Inr by (auto simp: result_simps)
    then have "history_inv s1" "memories s2 = memories s1" "revisions s2 = revisions s1"
      using history_create_all [OF inv] by (auto simp: complete_run_def result_simps Let_def)
    then show "history_inv s2" using history_other by metis
  qed
next
  case (update now n user expected kind content category confidence)
  show ?thesis unfolding update
    by (rule update_tx.keeps_result [where P = history_inv, OF inv]) (rule history_update [OF inv])
next
  case (promote now n user)
  show ?thesis unfolding promote
    by (rule promote_tx.keeps_result [where P = history_inv, OF inv], rule history_map [OF inv,
        where P = "\<lambda>m. m_id m = n \<and> m_user m = user \<and> m_status m = M_Active"
        and f = "\<lambda>m. m\<lparr>m_scope := Shared, m_persona := None, m_relationship := None, m_updated := now\<rparr>"])
      (auto simp: promote_to_shared_def transaction_Inr result_simps Let_def split: option.splits)
next
  case (delete n user)
  then show ?thesis using history_delete [OF inv] by (simp add: delete_memory_def transaction_def Let_def)
next
  case (delete_turn n user)
  then show ?thesis using inv history_delete [OF inv]
    by (simp add: delete_by_provenance_turn_def transaction_def positive_ids_def guardE_def Let_def)
next
  case (purge P)
  then show ?thesis using history_delete [OF inv] by simp
next
  case (purge_relationships R)
  have "memories s' = memories (delete_memories (\<lambda>m. list_ex (\<lambda>r. R r \<and> m_relationship m = Some (re_id r)
        \<and> re_user r = m_user m) (relationships s)) s)"
    "revisions s' = revisions (delete_memories (\<lambda>m. list_ex (\<lambda>r. R r \<and> m_relationship m = Some (re_id r)
        \<and> re_user r = m_user m) (relationships s)) s)"
    using purge_relationships by (simp_all add: delete_relationships_def)
  then show ?thesis by (rule history_other) (rule history_delete [OF inv])
next
  case other
  then show ?thesis using inv by (rule history_other)
qed

lemma memory_reachable_history: "memory_reachable s \<Longrightarrow> history_inv s"
proof (induction rule: memory_reachable.induct)
  case start
  show ?case by (simp add: history_inv_def empty_db_def)
qed (rule memory_step_history)

text \<open>
C33: Every memory carries its whole history. In every state the operations can reach, the revisions
of a memory are those of its versions from the second to the present one, each once and in order;
they belong to the owner of the memory, the newest has the present content, and no revision is left
of a memory that is gone.
\<close>
theorem revision_history_complete:
  assumes "memory_reachable s" and "m \<in> set (memories s)" and "0 < m_id m" and "0 < m_user m"
  shows "\<exists>vs. list_revisions (m_id m) (m_user m) s = Inr vs \<and> map rv_version vs = [2..m_version m]
    \<and> 1 \<le> m_version m \<and> (vs \<noteq> [] \<longrightarrow> rv_content (last vs) = m_content m)
    \<and> (\<forall>v \<in> set (revisions s). \<exists>m' \<in> set (memories s). m_id m' = rv_memory v \<and> m_user m' = rv_owner v)"
proof -
  note inv = memory_reachable_history [OF assms(1)]
  have ok: "history_ok s x" if "x \<in> set (memories s)" for x using inv that by (simp add: history_inv_def)
  let ?vs = "filter (\<lambda>v. rv_memory v = m_id m) (revisions s)"
  note m = ok [OF assms(2), unfolded history_ok_def versions_of_def last_content_def]
  have eq: "filter (\<lambda>v. rv_memory v = m_id m \<and> rv_owner v = m_user m) (revisions s) = ?vs"
    by (rule filter_cong) (use m in auto)
  have "sorted (map rv_version ?vs)" using m by simp
  then have "sort_key rv_version ?vs = ?vs" by (rule sort_key_id_if_sorted)
  then have l: "list_revisions (m_id m) (m_user m) s = Inr ?vs"
    using assms(3,4) eq by (simp add: list_revisions_def positive_ids_def)
  have "1 < m_version m" if "?vs \<noteq> []"
  proof (rule ccontr)
    assume "\<not> 1 < m_version m"
    then have "[2..m_version m] = []" by simp
    with m that show False by (metis map_is_Nil_conv)
  qed
  moreover have "\<exists>m' \<in> set (memories s). m_id m' = rv_memory v \<and> m_user m' = rv_owner v" if "v \<in> set (revisions s)" for v
    using inv ok that unfolding history_inv_def history_ok_def by metis
  ultimately show ?thesis using l m by (intro exI [of _ ?vs]) simp
qed

section \<open>Optimistic updates\<close>

text \<open>The history never makes an update fail.\<close>

lemma write_update_no_clash:
  assumes "history_inv s" and "write_update now n user expected kind content category confidence s = (Inl e, s')"
  shows "e \<noteq> IntegrityError ''UNIQUE constraint failed''"
proof
  assume "e = IntegrityError ''UNIQUE constraint failed''"
  with assms(2) obtain m v where m: "find (\<lambda>m. m_id m = n \<and> m_user m = user \<and> m_status m = M_Active
      \<and> m_version m = expected) (memories s) = Some m"
    and v: "v \<in> set (revisions s)" "rv_memory v = n" "rv_version v = m_version m + 1"
    by (auto simp: write_update_def transaction_Inl Let_def guardE_def list_ex_iff split: option.splits if_splits)
  have "m \<in> set (memories s)" "m_id m = n" using find_SomeD [OF m] by auto
  with assms(1) have "versions_of n (revisions s) = [2..m_version m]" by (auto simp: history_inv_def history_ok_def)
  moreover have "rv_version v \<in> set (versions_of n (revisions s))" using v(1,2) by (auto simp: versions_of_def)
  ultimately show False using v(3) by simp
qed

text \<open>An update is refused before anything is written, or is the write of the chosen values.\<close>

lemma update_memory_cases:
  assumes "update_memory env now n user content kind category confidence expected s = (r, s')"
  obtains (refused) e where "r = Inl e" "s' = s" "e \<noteq> IntegrityError ''UNIQUE constraint failed''"
  | (written) current kind' cat con where "select_memory n user s = Some current"
      "write_update now n user (or_else expected (m_version current)) kind' content cat con (env s) = (r, s')"
proof (cases "select_memory n user s")
  case None
  with assms show ?thesis by (auto simp: update_memory_def intro: refused)
next
  case (Some current)
  let ?cat = "case category of None \<Rightarrow> m_category current | Some c \<Rightarrow> Some c"
  let ?con = "case confidence of None \<Rightarrow> m_confidence current | Some c \<Rightarrow> Some c"
  show ?thesis
  proof (cases "validate_memory_metadata (m_source current) ?cat ?con (m_turn current)")
    case (Inl e)
    then have "e \<noteq> IntegrityError ''UNIQUE constraint failed''"
      by (auto simp: validate_memory_metadata_def result_simps positive_ids_def split: option.splits if_splits)
    then show ?thesis using Inl Some assms by (intro refused [of e]) (simp_all add: update_memory_def Let_def)
  next
    case (Inr y)
    with Some assms show ?thesis by (intro written [OF Some]) (simp add: update_memory_def Let_def)
  qed
qed

text \<open>
An update is written over exactly the version it was made from. Whatever other connections did
since the record was read, a successful update replaces the record of the user that still has the
expected version, gives it the next version and leaves the other memories alone; a failed update
changes nothing; and the history never makes an update fail.
\<close>
theorem memory_update_is_optimistic:
  assumes "memory_reachable (env s)"
    and "update_memory env now n user content kind category confidence expected s = (r, s')"
  shows "(\<forall>m'. r = Inr m' \<longrightarrow> (\<exists>current m. select_memory n user s = Some current
        \<and> m \<in> set (memories (env s)) \<and> m_id m = n \<and> m_user m = user
        \<and> m_version m = or_else expected (m_version current) \<and> m_version m' = m_version m + 1
        \<and> m_content m' = content \<and> m' \<in> set (memories s')
        \<and> (\<forall>x \<in> set (memories (env s)). m_id x \<noteq> n \<longrightarrow> x \<in> set (memories s'))
        \<and> length (memories s') = length (memories (env s))))
    \<and> (\<forall>e. r = Inl e \<longrightarrow> (s' = s \<or> s' = env s) \<and> e \<noteq> IntegrityError ''UNIQUE constraint failed'')"
  using assms(2)
proof (cases rule: update_memory_cases)
  case (written current kind' cat con)
  let ?v = "or_else expected (m_version current)"
  show ?thesis
  proof (cases r)
    case (Inl e)
    with written(2) have "s' = env s" using update_tx.error_unchanged by blast
    moreover have "e \<noteq> IntegrityError ''UNIQUE constraint failed''"
      using memory_reachable_history [OF assms(1)] written(2) [unfolded Inl] by (rule write_update_no_clash)
    ultimately show ?thesis using Inl by simp
  next
    case (Inr m')
    obtain m where R: "m \<in> set (memories (env s))" "m_id m = n" "m_user m = user" "m_status m = M_Active"
      "m_version m = ?v" "m' = updated_row kind' content cat con now m"
      "memories s' = update_where (\<lambda>x. m_id x = n \<and> m_user x = user \<and> m_status x = M_Active \<and> m_version x = ?v)
         (updated_row kind' content cat con now) (memories (env s))"
      by (rule write_update_result [OF written(2) [unfolded Inr]]) blast
    have "m' \<in> set (memories s')" unfolding R(6,7) by (rule update_where_mem) (use R in simp_all)
    moreover have "x \<in> set (memories s')" if "x \<in> set (memories (env s))" "m_id x \<noteq> n" for x
      unfolding R(7) using that by (intro update_where_keep) simp_all
    ultimately show ?thesis using written(1) Inr R
      by (intro conjI allI impI exI [of _ current] exI [of _ m]) simp_all
  qed
qed simp

section \<open>What a persona sees\<close>

lemma take_sort_key_le:
  fixes k :: "'a \<Rightarrow> 'k::linorder"
  assumes "x \<in> set (take n (sort_key k xs))" and "y \<in> set xs" and "y \<notin> set (take n (sort_key k xs))"
  shows "k x \<le> k y"
proof -
  have "y \<in> set (take n (sort_key k xs) @ drop n (sort_key k xs))" using assms(2) by simp
  then have "y \<in> set (drop n (sort_key k xs))" using assms(3) by (simp only: set_append) blast
  moreover have "sorted (map k (take n (sort_key k xs)) @ map k (drop n (sort_key k xs)))"
    unfolding map_append [symmetric] append_take_drop_id by simp
  ultimately show ?thesis using assms(1) by (auto simp: sorted_append)
qed

definition visible_to :: "int \<Rightarrow> int \<Rightarrow> db \<Rightarrow> memory_row \<Rightarrow> bool" where
  "visible_to user persona_id s m \<longleftrightarrow> m \<in> set (memories s) \<and> m_status m = M_Active \<and> m_user m = user
     \<and> (m_scope m = Shared
        \<or> m_scope m = Persona_Private \<and> m_persona m = Some persona_id
        \<or> m_scope m = Relationship_Scope \<and> (\<exists>r \<in> set (relationships s). Some (re_id r) = m_relationship m
            \<and> re_user r = user \<and> re_persona r = persona_id))"

definition newer :: "memory_row \<Rightarrow> memory_row \<Rightarrow> bool" where
  "newer x y \<longleftrightarrow> (m_updated y, m_id y) \<le> (m_updated x, m_id x)"

lemma newer_key: "newer x y \<longleftrightarrow> (- m_updated x, - m_id x) \<le> (- m_updated y, - m_id y)"
  by (auto simp: newer_def)

lemma list_records_set:
  "m \<in> set (list_records P n s) \<Longrightarrow> m \<in> set (memories s) \<and> m_status m = M_Active \<and> P m"
  "length (list_records P n s) \<le> nat n"
  by (auto simp: list_records_def newest_first_def dest: in_set_takeD)

lemma list_records_newest:
  assumes "x \<in> set (list_records P n s)" and "y \<in> set (memories s)" "m_status y = M_Active" "P y"
    and "y \<notin> set (list_records P n s)"
  shows "newer x y"
  unfolding newer_key
  by (rule take_sort_key_le [where n = "nat n" and xs = "filter (\<lambda>m. m_status m = M_Active \<and> P m) (memories s)"])
    (use assms in \<open>auto simp: list_records_def newest_first_def\<close>)

lemma distinct_map_sort_key: "distinct (map f (sort_key k xs)) \<longleftrightarrow> distinct (map f xs)"
  by (rule mset_eq_imp_distinct_iff) simp

lemma distinct_list_records:
  assumes "distinct (map m_id (memories s))"
  shows "distinct (map m_id (list_records P n s))"
  using distinct_map_filter_sub [OF assms]
  by (simp add: list_records_def newest_first_def take_map [symmetric] distinct_map_sort_key distinct_take)

text \<open>The three scopes of a selection, its candidates and the newest of them.\<close>

definition in_scope :: "int \<Rightarrow> int \<Rightarrow> db \<Rightarrow> memory_scope \<Rightarrow> memory_row \<Rightarrow> bool" where
  "in_scope user persona_id s sc = (\<lambda>m. case sc of
      Shared \<Rightarrow> m_user m = user \<and> m_scope m = Shared
    | Persona_Private \<Rightarrow> m_user m = user \<and> m_scope m = Persona_Private \<and> m_persona m = Some persona_id
    | Relationship_Scope \<Rightarrow> m_user m = user \<and> m_scope m = Relationship_Scope
        \<and> list_ex (\<lambda>r. Some (re_id r) = m_relationship m \<and> re_user r = m_user m \<and> re_persona r = persona_id) (relationships s))"

definition scope_limit :: "memory_limits \<Rightarrow> memory_scope \<Rightarrow> int" where
  "scope_limit limits sc = (case sc of Shared \<Rightarrow> lim_shared limits | Persona_Private \<Rightarrow> lim_private limits
    | Relationship_Scope \<Rightarrow> lim_relationship limits)"

definition selected :: "int \<Rightarrow> int \<Rightarrow> memory_limits \<Rightarrow> db \<Rightarrow> memory_scope \<Rightarrow> memory_row list" where
  "selected user persona_id limits s sc = list_records (in_scope user persona_id s sc) (scope_limit limits sc) s"

definition candidates :: "int \<Rightarrow> int \<Rightarrow> memory_limits \<Rightarrow> db \<Rightarrow> memory_row list" where
  "candidates user persona_id limits s = selected user persona_id limits s Shared
     @ selected user persona_id limits s Persona_Private @ selected user persona_id limits s Relationship_Scope"

definition newest_candidates :: "int \<Rightarrow> int \<Rightarrow> memory_limits \<Rightarrow> db \<Rightarrow> memory_row list" where
  "newest_candidates user persona_id limits s =
     take (nat (lim_total limits)) (newest_first (candidates user persona_id limits s))"

definition kept_of :: "memory_row list \<Rightarrow> memory_row list \<Rightarrow> memory_row list" where
  "kept_of tops = filter (\<lambda>m. m_id m \<in> m_id ` set tops)"

lemma list_for_context_parts:
  "mc_shared (list_for_context user persona_id limits s) =
     kept_of (newest_candidates user persona_id limits s) (selected user persona_id limits s Shared)"
  "mc_private (list_for_context user persona_id limits s) =
     kept_of (newest_candidates user persona_id limits s) (selected user persona_id limits s Persona_Private)"
  "mc_relationship (list_for_context user persona_id limits s) =
     kept_of (newest_candidates user persona_id limits s) (selected user persona_id limits s Relationship_Scope)"
  by (simp_all add: list_for_context_def Let_def kept_of_def newest_candidates_def candidates_def selected_def in_scope_def
      scope_limit_def)

lemma context_records_kept:
  "context_records (list_for_context user persona_id limits s) =
     newest_first (kept_of (newest_candidates user persona_id limits s) (candidates user persona_id limits s))"
  by (simp add: context_records_def list_for_context_parts candidates_def kept_of_def)

lemma in_scope_scope: "in_scope user persona_id s sc m \<Longrightarrow> m_scope m = sc"
  by (cases sc) (simp_all add: in_scope_def)

lemma visible_in_scope: "visible_to user persona_id s m \<longleftrightarrow>
    m \<in> set (memories s) \<and> m_status m = M_Active \<and> in_scope user persona_id s (m_scope m) m"
  by (cases "m_scope m") (auto simp: visible_to_def in_scope_def list_ex_iff)

lemma selected_visible:
  "m \<in> set (selected user persona_id limits s sc) \<Longrightarrow> visible_to user persona_id s m \<and> m_scope m = sc"
  unfolding visible_in_scope selected_def using list_records_set(1) in_scope_scope by metis

lemma candidates_iff: "m \<in> set (candidates user persona_id limits s) \<longleftrightarrow>
    m \<in> set (selected user persona_id limits s (m_scope m))"
  using selected_visible [of m user persona_id limits s] by (cases "m_scope m") (force simp: candidates_def)+

lemma candidates_visible: "m \<in> set (candidates user persona_id limits s) \<Longrightarrow> visible_to user persona_id s m"
  unfolding candidates_iff using selected_visible by blast

lemma candidates_distinct:
  assumes "distinct (map m_id (memories s))"
  shows "distinct (map m_id (candidates user persona_id limits s))"
proof -
  let ?L = "selected user persona_id limits s"
  have "distinct (map m_id (?L sc))" for sc unfolding selected_def by (rule distinct_list_records [OF assms])
  moreover have "m_id ` set (?L sc) \<inter> m_id ` set (?L sc') = {}" if "sc \<noteq> sc'" for sc sc'
  proof (rule ccontr)
    assume "m_id ` set (?L sc) \<inter> m_id ` set (?L sc') \<noteq> {}"
    then obtain x y where xy: "x \<in> set (?L sc)" "y \<in> set (?L sc')" "m_id x = m_id y" by auto
    then have "x = y" using selected_visible visible_in_scope distinct_map_unique [OF assms] by metis
    with selected_visible [OF xy(1)] selected_visible [OF xy(2)] that show False by simp
  qed
  ultimately show ?thesis by (simp add: candidates_def Int_Un_distrib)
qed

lemma newest_candidates_sub: "set (newest_candidates user persona_id limits s) \<subseteq> set (candidates user persona_id limits s)"
  unfolding newest_candidates_def newest_first_def using set_take_subset by (metis set_sort)

lemma context_records_set:
  assumes "distinct (map m_id (memories s))"
  shows "set (context_records (list_for_context user persona_id limits s)) = set (newest_candidates user persona_id limits s)"
proof -
  have "x = y" if "x \<in> set (candidates user persona_id limits s)" "y \<in> set (candidates user persona_id limits s)" "m_id x = m_id y" for x y
    using distinct_map_unique [OF candidates_distinct [OF assms]] that by metis
  then have "{x \<in> set (candidates user persona_id limits s). m_id x \<in> m_id ` set (newest_candidates user persona_id limits s)}
      = set (newest_candidates user persona_id limits s)"
    using newest_candidates_sub [of user persona_id limits s] by blast
  then show ?thesis by (simp add: context_records_kept newest_first_def kept_of_def)
qed

lemma context_records_distinct:
  assumes "distinct (map m_id (memories s))"
  shows "distinct (map m_id (context_records (list_for_context user persona_id limits s)))"
  unfolding context_records_kept newest_first_def distinct_map_sort_key kept_of_def
  by (rule distinct_map_filter_sub [OF candidates_distinct [OF assms]])

lemma context_records_bounded:
  assumes "distinct (map m_id (memories s))"
  shows "length (context_records (list_for_context user persona_id limits s)) \<le> nat (lim_total limits)"
proof -
  let ?c = "context_records (list_for_context user persona_id limits s)"
  have "length ?c = card (m_id ` set ?c)" using distinct_card [OF context_records_distinct [OF assms]] by simp
  also have "\<dots> \<le> length (newest_candidates user persona_id limits s)"
    unfolding context_records_set [OF assms] by (metis card_length length_map list.set_map)
  finally show ?thesis by (simp add: newest_candidates_def)
qed

lemma context_records_sorted: "sorted_wrt newer (context_records (list_for_context user persona_id limits s))"
proof -
  have "sorted (map (\<lambda>m. (- m_updated m, - m_id m)) (newest_first xs))" for xs by (simp add: newest_first_def)
  then show ?thesis unfolding context_records_kept sorted_map
    by (rule sorted_wrt_mono_rel [rotated]) (simp add: newer_key)
qed

lemma context_parts_bounded:
  "length (mc_shared (list_for_context user persona_id limits s)) \<le> nat (lim_shared limits)"
  "length (mc_private (list_for_context user persona_id limits s)) \<le> nat (lim_private limits)"
  "length (mc_relationship (list_for_context user persona_id limits s)) \<le> nat (lim_relationship limits)"
proof -
  have "length (kept_of t (selected user persona_id limits s sc)) \<le> nat (scope_limit limits sc)" for t sc
    using list_records_set(2) length_filter_le unfolding kept_of_def selected_def by (rule le_trans [rotated])
  from this [of _ Shared] this [of _ Persona_Private] this [of _ Relationship_Scope]
  show "length (mc_shared (list_for_context user persona_id limits s)) \<le> nat (lim_shared limits)"
    "length (mc_private (list_for_context user persona_id limits s)) \<le> nat (lim_private limits)"
    "length (mc_relationship (list_for_context user persona_id limits s)) \<le> nat (lim_relationship limits)"
    by (simp_all add: list_for_context_parts scope_limit_def)
qed

lemma left_out_is_older:
  assumes "x \<in> set (newest_candidates user persona_id limits s)" and "visible_to user persona_id s m" "m_scope m = m_scope x"
    and "m \<notin> set (newest_candidates user persona_id limits s)"
  shows "newer x m"
proof (cases "m \<in> set (candidates user persona_id limits s)")
  case True
  with assms(1,4) show ?thesis unfolding newer_key newest_candidates_def newest_first_def by (intro take_sort_key_le)
next
  case False
  then have "m \<notin> set (selected user persona_id limits s (m_scope x))" using candidates_iff assms(3) by metis
  moreover have "x \<in> set (selected user persona_id limits s (m_scope x))"
    using assms(1) newest_candidates_sub candidates_iff by blast
  moreover have "m \<in> set (memories s)" "m_status m = M_Active" "in_scope user persona_id s (m_scope x) m"
    using assms(2,3) by (simp_all add: visible_in_scope)
  ultimately show ?thesis unfolding selected_def by (intro list_records_newest)
qed

text \<open>
What a persona is shown. The selection for a user and a persona holds active memories of that
user only, and of the scoped ones only those of that persona or of its relationship to the user; it
is within every limit, holds no record twice and is ordered newest first; a visible record that is
left out is older than every record of its scope that is shown.
\<close>
theorem context_shows_only_visible:
  assumes "memory_reachable s" and "c = list_for_context user persona_id limits s"
  shows "(\<forall>m \<in> set (context_records c). visible_to user persona_id s m)
    \<and> length (context_records c) \<le> nat (lim_total limits)
    \<and> length (mc_shared c) \<le> nat (lim_shared limits) \<and> length (mc_private c) \<le> nat (lim_private limits)
    \<and> length (mc_relationship c) \<le> nat (lim_relationship limits)
    \<and> distinct (map m_id (context_records c))
    \<and> sorted_wrt newer (context_records c)
    \<and> (\<forall>x \<in> set (context_records c). \<forall>m. visible_to user persona_id s m \<and> m_scope m = m_scope x
         \<and> m \<notin> set (context_records c) \<longrightarrow> newer x m)"
proof -
  have ids: "distinct (map m_id (memories s))"
    using memory_reachable_history [OF assms(1)] by (simp add: history_inv_def)
  note rec = context_records_set [OF ids, of user persona_id limits]
  have vis: "visible_to user persona_id s m" if "m \<in> set (context_records c)" for m
    using that newest_candidates_sub candidates_visible unfolding assms(2) rec by blast
  have old: "newer x m" if "x \<in> set (context_records c)" "visible_to user persona_id s m" "m_scope m = m_scope x"
    "m \<notin> set (context_records c)" for x m
    using that unfolding assms(2) rec by (intro left_out_is_older)
  show ?thesis
    using vis old unfolding assms(2)
    by (intro conjI ballI allI impI)
      (simp_all add: context_records_distinct [OF ids] context_records_bounded [OF ids] context_records_sorted context_parts_bounded)
qed

section \<open>Automatic memories\<close>

text \<open>
An automatic memory is stored once. Creating the same automatic memory again, at any later time,
returns the row that is there and changes nothing.
\<close>
theorem automatic_memory_stored_once:
  assumes "create_memory now m s = (Inr r, s')" and "nm_source m = Automatic"
  shows "create_memory now' m s' = (Inr r, s')"
proof -
  let ?c = "or_else (nm_created m) now"
  let ?s1 = "ensure_profile_row (nm_user m) ?c s"
  have n: "normalize_memory_metadata m = Inr ()" and c: "create_in_transaction now m s = Inr (r, s')"
    using assms(1) by (auto simp: create_memory_def transaction_Inr result_simps)
  have meta: "nm_category m \<noteq> None" "nm_turn m \<noteq> None"
    using n assms(2) by (auto simp: normalize_memory_metadata_def validate_memory_metadata_def result_simps)
  have "profile_of s' (nm_user m) \<noteq> None" and found: "find (same_automatic m) (memories s') = Some r"
  proof -
    from create_in_transaction_cases [OF c] show "profile_of s' (nm_user m) \<noteq> None"
      using ensure_profile_row_present [of "nm_user m" ?c s] by auto
    have same: "memories ?s1 = memories s" by simp
    show "find (same_automatic m) (memories s') = Some r"
    proof (cases "find (same_automatic m) (memories s)")
      case None
      have "\<not> same_automatic m x" if "x \<in> set (memories s)" for x using find_NoneD [OF None that] .
      with create_in_transaction_cases [OF c]
      have r: "r = memory_from m ?c (or_else (nm_updated m) ?c) s" and s': "s' = ?s1\<lparr>memories := memories s @ [r]\<rparr>" by auto
      have "same_automatic m r" using assms(2) meta by (simp add: r memory_from_def same_automatic_def)
      then show ?thesis using None by (simp add: s' find_append)
    next
      case (Some x)
      then have "create_in_transaction now m s = Inr (x, ?s1)" using assms(2) by (simp add: create_in_transaction_def Let_def same)
      with c have "x = r" "?s1 = s'" by simp_all
      with Some same show ?thesis by auto
    qed
  qed
  then have "create_in_transaction now' m s' = Inr (r, s')"
    using assms(2) by (simp add: create_in_transaction_def Let_def ensure_profile_row_again)
  with n show ?thesis by (simp add: create_memory_def transaction_def)
qed

lemma create_all_extends:
  "create_all now ms s = Inr (rows, s') \<Longrightarrow> (\<forall>m \<in> set ms. nm_source m = Automatic) \<Longrightarrow>
     set (memories s) \<subseteq> set (memories s') \<and> set rows \<subseteq> set (memories s') \<and> length rows = length ms
     \<and> set (memories s') \<subseteq> set (memories s) \<union> set rows
     \<and> list_all2 (\<lambda>m r. m_user r = nm_user m \<and> m_content r = nm_content m \<and> m_source r = Automatic
         \<and> m_session r = nm_session m \<and> m_turn r = nm_turn m) ms rows
     \<and> extractions s' = extractions s \<and> sessions s' = sessions s"
proof (induction now ms s arbitrary: rows s' rule: create_all.induct)
  case (2 now m ms s)
  obtain r s1 rs where c: "create_in_transaction now m s = Inr (r, s1)" and cs: "create_all now ms s1 = Inr (rs, s')"
    and rows: "rows = r # rs" using "2.prems"(1) by (auto simp: result_simps)
  have IH: "set (memories s1) \<subseteq> set (memories s') \<and> set rs \<subseteq> set (memories s') \<and> length rs = length ms
     \<and> set (memories s') \<subseteq> set (memories s1) \<union> set rs
     \<and> list_all2 (\<lambda>m r. m_user r = nm_user m \<and> m_content r = nm_content m \<and> m_source r = Automatic
         \<and> m_session r = nm_session m \<and> m_turn r = nm_turn m) ms rs
     \<and> extractions s' = extractions s1 \<and> sessions s' = sessions s1"
    using "2.IH" [OF cs] "2.prems"(2) by simp
  have "set (memories s) \<subseteq> set (memories s1)" "r \<in> set (memories s1)" "set (memories s1) \<subseteq> set (memories s) \<union> {r}"
    "extractions s1 = extractions s" "sessions s1 = sessions s"
    "m_user r = nm_user m" "m_content r = nm_content m" "m_source r = Automatic" "m_session r = nm_session m" "m_turn r = nm_turn m"
    using create_in_transaction_cases [OF c] "2.prems"(2)
    by (auto simp: same_automatic_def memory_from_def)
  with IH rows show ?case by auto
qed simp

lemma activate_extraction_result:
  assumes "run_ids_ok s" and "activate_extraction now n owner ms s = (Inr rows, s')"
  obtains e s1 where "extraction_of n owner s = Some e" "e_status e = E_Processing" "owner_current owner (e_epoch e) s"
    "\<And>m. m \<in> set ms \<Longrightarrow> check_extracted owner e m = Inr ()" "create_all now ms s = Inr (rows, s1)"
    "complete_run now owner e s1 = Inr s'" "row_by e_id (extractions s) n = Some e" "e_owner e = owner" "e_id e = n"
proof -
  from assms(2) [unfolded activate_extraction_def transaction_Inr] obtain e us s1 where
    e: "fenced_run n owner E_Processing ''extraction run is not processing'' s = Inr e"
    and chk: "mapE (check_extracted owner e) ms = Inr us" and c: "create_all now ms s = Inr (rows, s1)"
    and fin: "complete_run now owner e s1 = Inr s'"
    unfolding bindE_eq_Inr by (auto simp: result_simps)
  from e have p: "extraction_of n owner s = Some e" "owner_current owner (e_epoch e) s" "e_status e = E_Processing"
    by (auto simp: fenced_run_def owner_current_def result_simps split: option.splits)
  have "row_by e_id (extractions s) n = Some e" "e_owner e = owner" "e_id e = n"
    using extraction_of_row [OF assms(1)] p(1) row_by_Some by metis+
  moreover have "check_extracted owner e m = Inr ()" if "m \<in> set ms" for m
    using list_all2_left [of "\<lambda>m y. check_extracted owner e m = Inr y" ms us m] chk that by (auto simp: mapE_Inr)
  ultimately show thesis using that p c fin by blast
qed

text \<open>The completion moves the run and nothing else, and a completed run cannot be activated.\<close>

lemma complete_run_moves:
  assumes "complete_run now owner e s = Inr s'" and "row_by e_id (extractions s) (e_id e) = Some e" "e_owner e = owner"
    and "e_status e = E_Processing" "run_ids_ok s"
  shows "row_by e_id (extractions s') (e_id e) = Some (moved E_Completed 0 None now e)" "memories s' = memories s"
    "run_ids_ok s'"
proof -
  let ?P = "\<lambda>x. e_id x = e_id e \<and> e_owner x = owner \<and> e_status x = E_Processing \<and> e_epoch x = e_epoch e"
  have s': "s' = s\<lparr>extractions := update_where ?P (moved E_Completed 0 None now) (extractions s)\<rparr>"
    using assms(1) by (simp add: complete_run_def Let_def result_simps)
  show "row_by e_id (extractions s') (e_id e) = Some (moved E_Completed 0 None now e)"
    unfolding s' using assms(2-4) by (simp add: row_by_update)
  show "memories s' = memories s" "run_ids_ok s'"
    using assms(5) by (simp_all add: s' run_ids_ok_def map_update_where)
qed

lemma completed_run_refused:
  assumes "run_ids_ok s" and "row_by e_id (extractions s) n = Some e" "e_status e = E_Completed"
  shows "fst (activate_extraction now n owner ms s) \<in> range Inl \<and> snd (activate_extraction now n owner ms s) = s"
proof -
  have "\<exists>x. fenced_run n owner E_Processing ''extraction run is not processing'' s = Inl x"
    using extraction_of_row [OF assms(1)] assms(2,3)
    by (auto simp: fenced_run_def guardE_def split: option.split)
  then obtain x where x: "fenced_run n owner E_Processing ''extraction run is not processing'' s = Inl x" ..
  show ?thesis by (cases "mapE normalize_memory_metadata ms") (simp_all add: activate_extraction_def transaction_def x)
qed

text \<open>
An extraction is activated once. A successful activation stores one row for each extracted memory,
all of them the owner's, automatic and with the session and turn of the run as provenance, adds
nothing else and removes nothing, and completes the run; any later activation of the run is refused
and changes nothing, and so is one that fails.
\<close>
theorem extraction_activated_once:
  assumes "run_ids_ok s" and "activate_extraction now n owner ms s = (r, s')"
  shows "(\<forall>rows. r = Inr rows \<longrightarrow> (\<exists>e. extraction_of n owner s = Some e \<and> e_status e = E_Processing
        \<and> owner_current owner (e_epoch e) s
        \<and> list_all2 (\<lambda>m x. m_content x = nm_content m \<and> m_user x = owner \<and> m_source x = Automatic
             \<and> m_session x = Some (e_session e) \<and> m_turn x = Some (e_turn e)) ms rows
        \<and> set (memories s') = set (memories s) \<union> set rows
        \<and> view_of s' n = Some (E_Completed, e_attempt e)
        \<and> (\<forall>ms' now'. fst (activate_extraction now' n owner ms' s') \<in> range Inl
             \<and> snd (activate_extraction now' n owner ms' s') = s')))
    \<and> (\<forall>x. r = Inl x \<longrightarrow> s' = s)"
proof (cases r)
  case (Inl x)
  with assms(2) activation_tx.error_unchanged show ?thesis by blast
next
  case (Inr rows)
  obtain e s1 where e: "extraction_of n owner s = Some e" "e_status e = E_Processing" "owner_current owner (e_epoch e) s"
    and chk: "\<And>m. m \<in> set ms \<Longrightarrow> check_extracted owner e m = Inr ()" and c: "create_all now ms s = Inr (rows, s1)"
    and fin: "complete_run now owner e s1 = Inr s'"
    and row: "row_by e_id (extractions s) n = Some e" "e_owner e = owner" "e_id e = n"
    by (rule activate_extraction_result [OF assms(1) assms(2) [unfolded Inr]]) blast
  have ex: "nm_user m = owner \<and> nm_source m = Automatic \<and> nm_session m = Some (e_session e) \<and> nm_turn m = Some (e_turn e)"
    if m: "m \<in> set ms" for m
    using chk [OF m] by (auto simp: check_extracted_def result_simps)
  have C: "set (memories s) \<subseteq> set (memories s1)" "set rows \<subseteq> set (memories s1)"
    "set (memories s1) \<subseteq> set (memories s) \<union> set rows" "extractions s1 = extractions s"
    "list_all2 (\<lambda>m r. m_user r = nm_user m \<and> m_content r = nm_content m \<and> m_source r = Automatic
         \<and> m_session r = nm_session m \<and> m_turn r = nm_turn m) ms rows"
    using create_all_extends [OF c] ex by blast+
  have prov: "list_all2 (\<lambda>m x. m_content x = nm_content m \<and> m_user x = owner \<and> m_source x = Automatic
             \<and> m_session x = Some (e_session e) \<and> m_turn x = Some (e_turn e)) ms rows"
    using C(5) by (rule list.rel_mono_strong) (use ex in auto)
  have ok1: "run_ids_ok s1" using assms(1) by (simp add: run_ids_ok_def C(4))
  note M = complete_run_moves [OF fin _ row(2) e(2) ok1, unfolded C(4) row(3), OF row(1)]
  have "set (memories s') = set (memories s) \<union> set rows" using C(1-3) M(2) by auto
  moreover have "view_of s' n = Some (E_Completed, e_attempt e)" using M(1) by (simp add: view_of_def)
  moreover note completed_run_refused [OF M(3,1)]
  ultimately show ?thesis using Inr e prov by (intro conjI allI impI) auto
qed

section \<open>A history\<close>

definition demo_new_memory :: new_memory where
  "demo_new_memory = \<lparr>nm_user = 7, nm_scope = Shared, nm_kind = [107], nm_content = [109], nm_persona = None,
     nm_relationship = None, nm_session = Some 1, nm_created = None, nm_updated = None, nm_source = Automatic,
     nm_category = Some Cat_Fact, nm_confidence = Some 1, nm_turn = Some 3\<rparr>"

definition demo_row :: "pystr \<Rightarrow> int \<Rightarrow> int \<Rightarrow> memory_row" where
  "demo_row content version updated = \<lparr>m_id = 1, m_user = 7, m_scope = Shared, m_persona = None, m_relationship = None,
     m_kind = [107], m_content = content, m_session = Some 1, m_status = M_Active, m_created = 100, m_updated = updated,
     m_version = version, m_source = Automatic, m_category = Some Cat_Fact, m_confidence = Some 1, m_turn = Some 3\<rparr>"

definition demo_memories :: "memory_row list \<Rightarrow> revision list \<Rightarrow> extraction list \<Rightarrow> db" where
  "demo_memories ms vs es = empty_db\<lparr>profiles := [new_profile 7 100], memories := ms, revisions := vs, extractions := es\<rparr>"

definition demo_revision :: revision where
  "demo_revision = \<lparr>rv_id = 1, rv_memory = 1, rv_owner = 7, rv_version = 2, rv_content = [110],
     rv_category = Some Cat_Fact, rv_confidence = Some 1, rv_changed = 120\<rparr>"

lemmas demo_memory_eval = demo_memories_def demo_row_def demo_revision_def empty_db_def new_profile_def row_by_def
  transaction_def next_rowid_def Let_def ensure_profile_row_def update_where_def

lemma demo_metadata: "normalize_memory_metadata demo_new_memory = Inr ()"
  by (simp add: normalize_memory_metadata_def validate_memory_metadata_def demo_new_memory_def positive_ids_def)

lemma demo_stored: "create_memory 100 demo_new_memory (demo_memories [] [] es)
    = (Inr (demo_row [109] 1 100), demo_memories [demo_row [109] 1 100] [] es)"
  by (simp add: create_memory_def demo_metadata create_in_transaction_def memory_refused_def sql_nonblank_def
      scope_shape_def memory_from_def or_else_def demo_memory_eval) (simp add: demo_new_memory_def)

lemma demo_update: "write_update 120 1 7 1 [107] [110] (Some Cat_Fact) (Some 1) (demo_memories [demo_row [109] 1 100] [] [])
    = (Inr (demo_row [110] 2 120), demo_memories [demo_row [110] 2 120] [demo_revision] [])"
  by (simp add: write_update_def sql_nonblank_def updated_row_def demo_memory_eval)

lemma demo_memory_reachable: "memory_reachable (demo_memories [demo_row [109] 1 100] [] [])"
proof -
  have "memory_reachable (demo_memories [] [] [])"
    by (rule memory_reachable.step [OF memory_reachable.start memory_step.other]) (simp_all add: demo_memories_def empty_db_def)
  from memory_reachable.step [OF this memory_step.create [of _ 100 demo_new_memory]] show ?thesis by (simp add: demo_stored)
qed

lemma demo_updated_reachable: "memory_reachable (demo_memories [demo_row [110] 2 120] [demo_revision] [])"
  using memory_reachable.step [OF demo_memory_reachable
      memory_step.update [of _ 120 1 7 1 "[107]" "[110]" "Some Cat_Fact" "Some 1"]]
  by (simp add: demo_update)

theorem revision_history_complete_witness:
  "\<exists>vs. list_revisions 1 7 (demo_memories [demo_row [110] 2 120] [demo_revision] []) = Inr vs \<and> map rv_version vs = [2]"
  using revision_history_complete [OF demo_updated_reachable, of "demo_row [110] 2 120"]
  by (auto simp: demo_memories_def demo_row_def)

theorem memory_update_is_optimistic_witness:
  "length (memories (snd (update_memory id 120 1 7 [110] None None None None (demo_memories [demo_row [109] 1 100] [] [])))) = 1"
proof -
  let ?s = "demo_memories [demo_row [109] 1 100] [] []"
  have sel: "select_memory 1 7 ?s = Some (demo_row [109] 1 100)" by (simp add: select_memory_def demo_memory_eval)
  have u: "update_memory id 120 1 7 [110] None None None None ?s
      = (Inr (demo_row [110] 2 120), demo_memories [demo_row [110] 2 120] [demo_revision] [])"
    using demo_update unfolding update_memory_def sel
    by (simp add: demo_row_def validate_memory_metadata_def positive_ids_def or_else_def Let_def)
  have "memory_reachable (id ?s)" using demo_memory_reachable by simp
  from memory_update_is_optimistic [OF this u] u show ?thesis by (simp add: demo_memories_def)
qed

theorem context_shows_only_visible_witness:
  "visible_to 7 1 (demo_memories [demo_row [109] 1 100] [] []) (demo_row [109] 1 100)
   \<and> length (context_records (list_for_context 7 1 default_limits (demo_memories [demo_row [109] 1 100] [] []))) \<le> 60"
proof -
  let ?s = "demo_memories [demo_row [109] 1 100] [] []"
  have "visible_to 7 1 ?s (demo_row [109] 1 100)" by (simp add: visible_to_def demo_memory_eval)
  with context_shows_only_visible [OF demo_memory_reachable refl, of 7 1 default_limits] show ?thesis
    by (simp add: default_limits_def)
qed

theorem automatic_memory_stored_once_witness:
  "create_memory 200 demo_new_memory (demo_memories [demo_row [109] 1 100] [] [])
     = (Inr (demo_row [109] 1 100), demo_memories [demo_row [109] 1 100] [] [])"
  by (rule automatic_memory_stored_once [OF demo_stored]) (simp add: demo_new_memory_def)

theorem extraction_activated_once_witness:
  "view_of (snd (activate_extraction 105 1 7 [demo_new_memory] (demo_memories [] [] [demo_extraction E_Processing 1 100]))) 1
     = Some (E_Completed, 1)"
proof -
  let ?s = "demo_memories [] [] [demo_extraction E_Processing 1 100]"
  have ok: "run_ids_ok ?s" by (simp add: run_ids_ok_def demo_memories_def)
  have x: "extraction_of 1 7 ?s = Some (demo_extraction E_Processing 1 100)"
    by (simp add: extraction_of_def demo_memories_def demo_extraction_def)
  have f: "fenced_run 1 7 E_Processing ''extraction run is not processing'' ?s = Inr (demo_extraction E_Processing 1 100)"
    unfolding fenced_run_def x by (simp add: demo_memory_eval demo_extraction_def)
  have c: "\<exists>r s1. create_in_transaction 105 demo_new_memory ?s = Inr (r, s1) \<and> extractions s1 = [demo_extraction E_Processing 1 100]"
    by (simp add: create_in_transaction_def memory_refused_def sql_nonblank_def
      scope_shape_def demo_memory_eval) (simp add: demo_new_memory_def)
  then obtain r s1 where c: "create_in_transaction 105 demo_new_memory ?s = Inr (r, s1)"
    "extractions s1 = [demo_extraction E_Processing 1 100]" by blast
  have k: "check_extracted 7 (demo_extraction E_Processing 1 100) demo_new_memory = Inr ()"
    by (simp add: check_extracted_def demo_new_memory_def demo_extraction_def)
  obtain rows s' where a: "activate_extraction 105 1 7 [demo_new_memory] ?s = (Inr rows, s')"
    using c by (simp add: activate_extraction_def transaction_def demo_metadata f k complete_run_def Let_def)
      (simp add: demo_extraction_def)
  from extraction_activated_once [OF ok a] x a show ?thesis by (auto simp: demo_extraction_def)
qed

end
