(* ===== verification/Presentation.thy ===== *)
theory Presentation
  imports Py_Text
begin

text \<open>
  The Telegram presentation helpers of \<open>telegram_presentation.py\<close>: the callback data of the
  inline buttons and its readers, the splitting of long texts, the rendering of web sources, and
  the command parser. Each writer is proved to be undone by its reader, the splitter to lose
  nothing but line breaks and blanks at its cuts, and the source list to stay within the limits
  of a message with every title and address escaped.
\<close>

section \<open>Decimal text, \<open>str.isdigit\<close> and \<open>int\<close>\<close>

text \<open>
  The code points of value zero of the decimal digit blocks, ten consecutive digits each, and the
  digits that are no decimal digits (superscripts, circled digits and the like): \<open>isdigit\<close> is
  true of both, \<open>int\<close> reads the first kind only.
\<close>

definition digit_zeros :: "nat list" where
  "digit_zeros = [48, 1632, 1776, 1984, 2406, 2534, 2662, 2790, 2918, 3046, 3174, 3302, 3430, 3558,
     3664, 3792, 3872, 4160, 4240, 6112, 6160, 6470, 6608, 6784, 6800, 6992, 7088, 7232, 7248, 42528,
     43216, 43264, 43472, 43504, 43600, 44016, 65296, 66720, 68912, 69734, 69872, 69942, 70096, 70384,
     70736, 70864, 71248, 71360, 71472, 71904, 72016, 72784, 73040, 73120, 73552, 92768, 92864, 93008,
     120782, 120792, 120802, 120812, 120822, 123200, 123632, 124144, 125264, 130032]"

definition other_digits :: "(nat \<times> nat) list" where
  "other_digits = [(178, 179), (185, 185), (4969, 4977), (6618, 6618), (8304, 8304), (8308, 8313),
     (8320, 8329), (9312, 9320), (9332, 9340), (9352, 9360), (9450, 9450), (9461, 9469), (9471, 9471),
     (10102, 10110), (10112, 10120), (10122, 10130), (68160, 68163), (69216, 69224), (69714, 69722),
     (127232, 127242)]"

definition decimal_value :: "nat \<Rightarrow> nat option" where
  "decimal_value c = map_option (\<lambda>z. c - z) (find (\<lambda>z. z \<le> c \<and> c < z + 10) digit_zeros)"

definition digit_char :: "nat \<Rightarrow> bool" where
  "digit_char c \<longleftrightarrow> decimal_value c \<noteq> None \<or> list_ex (\<lambda>(a, b). a \<le> c \<and> c \<le> b) other_digits"

definition isdigit :: "pystr \<Rightarrow> bool" where
  "isdigit s \<longleftrightarrow> s \<noteq> [] \<and> list_all digit_char s"

fun read_decimal :: "nat \<Rightarrow> pystr \<Rightarrow> nat result" where
  "read_decimal acc [] = Inr acc"
| "read_decimal acc (c # cs) =
     (case decimal_value c of None \<Rightarrow> Inl (ValueError ''invalid literal for int()'')
      | Some v \<Rightarrow> read_decimal (acc * 10 + v) cs)"

text \<open>\<open>int(s)\<close> for a text of digits; more than 4300 of them are refused.\<close>

definition int_of_digits :: "pystr \<Rightarrow> int result" where
  "int_of_digits s =
     guardE (4300 < length s) (ValueError ''Exceeds the limit (4300 digits) for integer string conversion'')
       (bindE (read_decimal 0 s) (\<lambda>n. Inr (int n)))"

lemma decimal_value_ascii: "is_digit c \<Longrightarrow> decimal_value c = Some (c - 48)"
  by (auto simp: decimal_value_def digit_zeros_def is_digit_def)

lemma read_decimal_ascii:
  "list_all is_digit s \<Longrightarrow> read_decimal acc s = Inr (foldl (\<lambda>n c. n * 10 + (c - 48)) acc s)"
  by (induction s arbitrary: acc) (auto simp: decimal_value_ascii)

lemma int_of_show_nat: "length (show_nat n) \<le> 4300 \<Longrightarrow> int_of_digits (show_nat n) = Inr (int n)"
  using read_decimal_ascii [OF show_nat_digits, of 0 n] read_show_nat [of n]
  by (simp add: int_of_digits_def guardE_def read_nat_def)

lemma isdigit_show_nat: "isdigit (show_nat n)"
proof -
  have "list_all digit_char (show_nat n)"
    using show_nat_digits [of n] decimal_value_ascii by (auto simp: list_all_iff digit_char_def)
  then show ?thesis by (simp add: isdigit_def)
qed

section \<open>Callback data\<close>

definition persona_prefix :: pystr where "persona_prefix = u ''persona:v1:''"
definition confirm_prefix :: pystr where "confirm_prefix = u ''confirm:v1:''"
definition cancel_prefix :: pystr where "cancel_prefix = u ''cancel:v1:''"
definition memories_prefix :: pystr where "memories_prefix = u ''mem:v1:''"
definition forget_prefix :: pystr where "forget_prefix = u ''forget:v1:''"

definition callback_limit :: nat where "callback_limit = 64"

definition persona_callback_data :: "pystr \<Rightarrow> pystr result" where
  "persona_callback_data key =
     guardE (key = []) (ValueError ''persona key cannot be empty'')
     (let data = persona_prefix @ key in
      bindE (utf8_length data) (\<lambda>n.
        guardE (callback_limit < n) (ValueError ''persona callback data exceeds Telegram limit'') (Inr data)))"

definition parse_persona_callback_data :: "pystr \<Rightarrow> pystr option result" where
  "parse_persona_callback_data data =
     (if \<not> starts_with persona_prefix data then Inr None
      else bindE (utf8_length data) (\<lambda>n.
        if callback_limit < n then Inr None
        else let key = drop (length persona_prefix) data in Inr (if key = [] then None else Some key)))"

definition confirmation_callback_data :: "pystr \<Rightarrow> pystr \<Rightarrow> pystr result" where
  "confirmation_callback_data action token =
     guardE (action \<noteq> u ''confirm'' \<and> action \<noteq> u ''cancel'')
       (ValueError ''confirmation action must be confirm or cancel'')
     (guardE (token = []) (ValueError ''confirmation token cannot be empty'')
     (let data = (if action = u ''confirm'' then confirm_prefix else cancel_prefix) @ token in
      bindE (utf8_length data) (\<lambda>n.
        guardE (callback_limit < n) (ValueError ''confirmation callback data exceeds Telegram limit'')
          (Inr data))))"

definition parse_confirmation_callback_data :: "pystr \<Rightarrow> (pystr \<times> pystr) option result" where
  "parse_confirmation_callback_data data =
     bindE (utf8_length data) (\<lambda>n.
       if callback_limit < n then Inr None
       else if starts_with confirm_prefix data then
         (let token = drop (length confirm_prefix) data
          in Inr (if token = [] then None else Some (u ''confirm'', token)))
       else if starts_with cancel_prefix data then
         (let token = drop (length cancel_prefix) data
          in Inr (if token = [] then None else Some (u ''cancel'', token)))
       else Inr None)"

definition memories_page_callback_data :: "int \<Rightarrow> pystr result" where
  "memories_page_callback_data page =
     guardE (page < 1) (ValueError ''memories page must be a positive integer'')
       (Inr (memories_prefix @ show_int page))"

definition parse_numbered :: "pystr \<Rightarrow> pystr \<Rightarrow> int option result" where
  "parse_numbered prefix data =
     (if \<not> starts_with prefix data then Inr None
      else let raw = drop (length prefix) data in
        if \<not> isdigit raw then Inr None
        else bindE (int_of_digits raw) (\<lambda>n. Inr (if 1 \<le> n then Some n else None)))"

definition parse_memories_page_callback_data :: "pystr \<Rightarrow> int option result" where
  "parse_memories_page_callback_data = parse_numbered memories_prefix"

definition forget_callback_data :: "int \<Rightarrow> pystr result" where
  "forget_callback_data memory_id =
     guardE (memory_id < 1) (ValueError ''memory id must be a positive integer'')
       (Inr (forget_prefix @ show_int memory_id))"

definition parse_forget_callback_data :: "pystr \<Rightarrow> int option result" where
  "parse_forget_callback_data = parse_numbered forget_prefix"

lemma parse_numbered_show:
  assumes "1 \<le> n" and "length (show_int n) \<le> 4300"
  shows "parse_numbered prefix (prefix @ show_int n) = Inr (Some n)"
  using assms isdigit_show_nat [of "nat n"] int_of_show_nat [of "nat n"]
  by (simp add: parse_numbered_def show_int_def)

lemma callback_prefixes [simp]:
  "\<not> starts_with confirm_prefix (cancel_prefix @ s)"
  by (simp add: starts_with_def confirm_prefix_def cancel_prefix_def u_def)

lemma drop_prefix [simp]: "drop (length p) (p @ s) = s"
  by simp

lemma persona_read_back:
  assumes "persona_callback_data key = Inr data"
  shows "parse_persona_callback_data data = Inr (Some key)"
proof -
  obtain n where "key \<noteq> []" "utf8_length (persona_prefix @ key) = Inr n" "\<not> callback_limit < n"
      "data = persona_prefix @ key"
    using assms unfolding persona_callback_data_def result_simps Let_def by blast
  then show ?thesis by (simp add: parse_persona_callback_data_def)
qed

lemma confirm_not_cancel [simp]: "u ''confirm'' \<noteq> u ''cancel''" "u ''cancel'' \<noteq> u ''confirm''"
  by (simp_all add: u_def)

lemma confirmation_read_back:
  assumes "confirmation_callback_data action token = Inr data"
  shows "parse_confirmation_callback_data data = Inr (Some (action, token))"
proof -
  define prefix where "prefix = (if action = u ''confirm'' then confirm_prefix else cancel_prefix)"
  obtain n where n: "token \<noteq> []" "utf8_length (prefix @ token) = Inr n" "\<not> callback_limit < n"
      "data = prefix @ token" "action = u ''confirm'' \<or> action = u ''cancel''"
    using assms unfolding confirmation_callback_data_def result_simps Let_def prefix_def by blast
  from n(5) show ?thesis
  proof
    assume a: "action = u ''confirm''"
    with n have "data = confirm_prefix @ token" "utf8_length data = Inr n" by (simp_all add: prefix_def)
    with n(1,3) a show ?thesis by (simp add: parse_confirmation_callback_data_def)
  next
    assume a: "action = u ''cancel''"
    with n have "data = cancel_prefix @ token" "utf8_length data = Inr n" by (simp_all add: prefix_def)
    with n(1,3) a show ?thesis by (simp add: parse_confirmation_callback_data_def)
  qed
qed

text \<open>
Every callback data the program writes is read back: the persona key, the confirmation action
with its token, the page and the memory id; and a confirmation written for one action is never
read as the other.
\<close>
theorem callback_round_trips:
  shows "(\<forall>key data. persona_callback_data key = Inr data \<longrightarrow> parse_persona_callback_data data = Inr (Some key))
    \<and> (\<forall>action token data. confirmation_callback_data action token = Inr data
         \<longrightarrow> parse_confirmation_callback_data data = Inr (Some (action, token)))
    \<and> (\<forall>n data. length (show_int n) \<le> 4300 \<and> memories_page_callback_data n = Inr data
         \<longrightarrow> parse_memories_page_callback_data data = Inr (Some n))
    \<and> (\<forall>n data. length (show_int n) \<le> 4300 \<and> forget_callback_data n = Inr data
         \<longrightarrow> parse_forget_callback_data data = Inr (Some n))"
proof (intro conjI allI impI)
  fix key data assume "persona_callback_data key = Inr data"
  then show "parse_persona_callback_data data = Inr (Some key)"
    by (rule persona_read_back)
next
  fix action token data assume "confirmation_callback_data action token = Inr data"
  then show "parse_confirmation_callback_data data = Inr (Some (action, token))"
    by (rule confirmation_read_back)
next
  fix n data assume "length (show_int n) \<le> 4300 \<and> memories_page_callback_data n = Inr data"
  then show "parse_memories_page_callback_data data = Inr (Some n)"
    by (auto simp: memories_page_callback_data_def parse_memories_page_callback_data_def result_simps
        intro: parse_numbered_show)
next
  fix n data assume "length (show_int n) \<le> 4300 \<and> forget_callback_data n = Inr data"
  then show "parse_forget_callback_data data = Inr (Some n)"
    by (auto simp: forget_callback_data_def parse_forget_callback_data_def result_simps
        intro: parse_numbered_show)
qed

theorem callback_round_trips_witness:
  "parse_confirmation_callback_data (cancel_prefix @ [84, 49]) = Inr (Some (u ''cancel'', [84, 49]))
   \<and> parse_forget_callback_data (forget_prefix @ show_int 42) = Inr (Some 42)"
proof -
  have 1: "confirmation_callback_data (u ''cancel'') [84, 49] = Inr (cancel_prefix @ [84, 49])"
    by (simp add: confirmation_callback_data_def utf8_length_def u_def cancel_prefix_def is_surrogate_def
        utf8_width_def callback_limit_def)
  have 2: "forget_callback_data 42 = Inr (forget_prefix @ show_int 42)" by (simp add: forget_callback_data_def)
  have "length (show_int 42) \<le> 4300" by (simp add: show_int_def show_nat.simps)
  with callback_round_trips 1 2 show ?thesis by blast
qed

text \<open>
\<open>str.isdigit\<close> accepts digits that \<open>int\<close> does not read: on data whose number holds a
superscript or circled digit, and no other sign than digits, the page and the forget reader
raise \<open>ValueError\<close> instead of returning nothing.
\<close>
theorem numbered_callback_raises:
  assumes "list_all digit_char raw" and "raw \<noteq> []" and "length raw \<le> 4300"
    and "\<exists>c \<in> set raw. decimal_value c = None"
  shows "parse_memories_page_callback_data (memories_prefix @ raw) = Inl (ValueError ''invalid literal for int()'')
    \<and> parse_forget_callback_data (forget_prefix @ raw) = Inl (ValueError ''invalid literal for int()'')"
proof -
  have "read_decimal acc cs = Inl (ValueError ''invalid literal for int()'')"
    if "\<exists>c \<in> set cs. decimal_value c = None" for acc cs
    using that by (induction cs arbitrary: acc) (auto split: option.split)
  from this [OF assms(4)] assms(1-3) show ?thesis
    by (simp add: parse_memories_page_callback_data_def parse_forget_callback_data_def parse_numbered_def
        isdigit_def int_of_digits_def guardE_def)
qed

theorem numbered_callback_raises_witness:
  "parse_forget_callback_data (forget_prefix @ [178]) = Inl (ValueError ''invalid literal for int()'')"
proof -
  have "decimal_value 178 = None" by (simp add: decimal_value_def digit_zeros_def)
  moreover have "list_all digit_char [178]" by (simp add: digit_char_def other_digits_def)
  ultimately show ?thesis using numbered_callback_raises [of "[178]"] by simp
qed

section \<open>Splitting a long text\<close>

text \<open>\<open>s.rfind(p)\<close>, \<open>None\<close> for -1.\<close>

definition rfind :: "pystr \<Rightarrow> pystr \<Rightarrow> nat option" where
  "rfind p s = (if length s < length p then None
     else find (\<lambda>i. starts_with p (drop i s)) (rev [0..<length s - length p + 1]))"

definition split_boundary :: "pystr \<Rightarrow> nat \<Rightarrow> nat" where
  "split_boundary text limit =
     (let window = take limit text;
          cut = (\<lambda>p. case rfind p window of Some n \<Rightarrow> 0 < n | None \<Rightarrow> False)
      in if cut [10, 10] then the (rfind [10, 10] window)
         else if cut [10] then the (rfind [10] window)
         else if cut [32] then the (rfind [32] window)
         else limit)"

definition skip_breaks :: "pystr \<Rightarrow> pystr" where
  "skip_breaks s = dropWhile (\<lambda>c. c = 32) (dropWhile (\<lambda>c. c = 10) s)"

lemma rfind_Some: "rfind p s = Some n \<Longrightarrow> n \<le> length s - length p \<and> starts_with p (drop n s)"
  by (auto simp: rfind_def split: if_splits dest!: find_SomeD)

lemma split_boundary_bounds:
  assumes "1 \<le> limit" and "limit < length text"
  shows "1 \<le> split_boundary text limit \<and> split_boundary text limit \<le> limit"
proof -
  have "n \<le> limit" if "rfind p (take limit text) = Some n" for p n
    using rfind_Some [OF that] assms(2) by auto
  then show ?thesis using assms(1)
    by (auto simp: split_boundary_def Let_def split: option.splits)
qed

lemma skip_breaks_split:
  "\<exists>a b. s = replicate a 10 @ replicate b 32 @ skip_breaks s"
proof -
  have t: "\<exists>k. xs = replicate k c @ dropWhile (\<lambda>x. x = c) xs" for xs and c :: nat
  proof (induction xs)
    case (Cons x xs)
    then show ?case
    proof (cases "x = c")
      case True
      with Cons obtain k where "xs = replicate k c @ dropWhile (\<lambda>x. x = c) xs" by blast
      with True have "x # xs = replicate (Suc k) c @ dropWhile (\<lambda>x. x = c) (x # xs)" by simp
      then show ?thesis by blast
    qed (auto intro: exI [of _ 0])
  qed simp
  obtain a where a: "s = replicate a 10 @ dropWhile (\<lambda>c. c = 10) s" using t by blast
  obtain b where "dropWhile (\<lambda>c. c = 10) s = replicate b 32 @ dropWhile (\<lambda>c. c = 32) (dropWhile (\<lambda>c. c = 10) s)"
    using t by blast
  with a show ?thesis unfolding skip_breaks_def by metis
qed

lemma length_skip_breaks: "length (skip_breaks s) \<le> length s"
proof -
  obtain a b where "s = replicate a 10 @ replicate b 32 @ skip_breaks s" using skip_breaks_split by blast
  then have "length s = a + b + length (skip_breaks s)" by (metis length_append length_replicate add.assoc)
  then show ?thesis by simp
qed

text \<open>
  The \<open>while\<close> loop, with the chunks so far; every round takes at least one character off. The
  caller has refused a limit below one.
\<close>

function split_loop :: "nat \<Rightarrow> pystr list \<Rightarrow> pystr \<Rightarrow> pystr list" where
  "split_loop limit chunks remaining =
     (if limit < 1 \<or> length remaining \<le> limit
      then (if remaining \<noteq> [] \<or> chunks = [] then chunks @ [remaining] else chunks)
      else let boundary = split_boundary remaining limit;
               chunks' = chunks @ [take boundary remaining];
               rest = skip_breaks (drop boundary remaining)
           in if rest = [] then chunks' else split_loop limit chunks' rest)"
  by pat_completeness auto

termination split_loop
proof (relation "measure (\<lambda>(_, _, r). length r)", goal_cases)
  case (2 limit chunks remaining boundary chunks' rest)
  have "1 \<le> boundary" using 2 split_boundary_bounds [of limit remaining] by simp
  moreover have "length rest \<le> length remaining - boundary" using 2 length_skip_breaks [of "drop boundary remaining"] by simp
  ultimately show ?case using 2(1,4) by (auto simp del: length_0_conv)
qed simp

declare split_loop.simps [simp del]

definition split_telegram_text :: "pystr \<Rightarrow> int \<Rightarrow> pystr list result" where
  "split_telegram_text text limit =
     guardE (limit < 1) (ValueError ''split limit must be positive'') (Inr (split_loop (nat limit) [] text))"

text \<open>The separators dropped at the cuts: line breaks, then blanks.\<close>

definition break_text :: "pystr \<Rightarrow> bool" where
  "break_text g \<longleftrightarrow> (\<exists>a b. g = replicate a 10 @ replicate b 32)"

text \<open>Chunks and the separators after them, put together again.\<close>

fun interleave :: "pystr list \<Rightarrow> pystr list \<Rightarrow> pystr" where
  "interleave (c # cs) (g # gs) = c @ g @ interleave cs gs"
| "interleave _ _ = []"

lemma interleave_snoc:
  "length cs = length gs \<Longrightarrow> interleave (cs @ [c]) (gs @ [g]) = interleave cs gs @ c @ g"
  by (induction cs gs rule: list_induct2) auto

lemma split_loop_correct:
  assumes "1 \<le> limit" and "length chunks = length gaps" and "list_all break_text gaps"
    and "\<forall>c \<in> set chunks. c \<noteq> [] \<and> length c \<le> limit" and "chunks = [] \<or> remaining \<noteq> []"
  shows "\<exists>gs. length (split_loop limit chunks remaining) = length gs \<and> list_all break_text gs
    \<and> interleave (split_loop limit chunks remaining) gs = interleave chunks gaps @ remaining
    \<and> (\<forall>c \<in> set (split_loop limit chunks remaining). length c \<le> limit \<and> (c = [] \<longrightarrow> chunks = [] \<and> remaining = []))
    \<and> split_loop limit chunks remaining \<noteq> []"
  using assms
proof (induction limit chunks remaining arbitrary: gaps rule: split_loop.induct)
  case (1 limit chunks remaining)
  have e: "break_text []" unfolding break_text_def by (intro exI [of _ 0]) simp
  show ?case
  proof (cases "length remaining \<le> limit")
    case True
    then have "split_loop limit chunks remaining = chunks @ [remaining]"
      using 1(6) by (auto simp: split_loop.simps [of limit chunks])
    with True 1(3-6) e show ?thesis
      by (intro exI [of _ "gaps @ [[]]"]) (auto simp: interleave_snoc)
  next
    case False
    define b where "b = split_boundary remaining limit"
    define rest where "rest = skip_breaks (drop b remaining)"
    have b: "1 \<le> b" "b \<le> limit" using split_boundary_bounds [OF 1(2)] False by (auto simp: b_def)
    obtain x y where xy: "drop b remaining = replicate x 10 @ replicate y 32 @ rest"
      unfolding rest_def using skip_breaks_split by blast
    define g :: pystr where "g = replicate x 10 @ replicate y 32"
    have g: "break_text g" unfolding g_def break_text_def by blast
    have rem: "remaining = take b remaining @ g @ rest" using xy by (metis append_take_drop_id append.assoc g_def)
    have ch: "take b remaining \<noteq> []" "length (take b remaining) \<le> limit" using b False by auto
    have il: "interleave (chunks @ [take b remaining]) (gaps @ [g]) @ rest = interleave chunks gaps @ remaining"
      using rem by (simp add: interleave_snoc [OF 1(3)])
    show ?thesis
    proof (cases "rest = []")
      case True
      then have "split_loop limit chunks remaining = chunks @ [take b remaining]"
        using False 1(2) by (simp add: split_loop.simps [of limit chunks] b_def rest_def Let_def)
      with True il g ch 1(3-5) show ?thesis by (intro exI [of _ "gaps @ [g]"]) auto
    next
      case r: False
      then have eq: "split_loop limit chunks remaining = split_loop limit (chunks @ [take b remaining]) rest"
        using False 1(2) by (simp add: split_loop.simps [of limit chunks] b_def rest_def Let_def)
      have "\<not> (limit < 1 \<or> length remaining \<le> limit)" using False 1(2) by simp
      from 1(1) [OF this b_def refl rest_def r 1(2), of "gaps @ [g]"] ch g 1(3-5) r
      show ?thesis unfolding eq il [symmetric] by simp
    qed
  qed
qed

text \<open>
Splitting a text for Telegram loses nothing but line breaks and blanks: every chunk fits the
limit and is not empty unless the text is, and the chunks in their order, with line breaks
followed by blanks put back between them, are the text.
\<close>
theorem split_telegram_text_lossless:
  assumes "split_telegram_text text limit = Inr chunks"
  shows "chunks \<noteq> [] \<and> (\<forall>c \<in> set chunks. length c \<le> nat limit \<and> (c = [] \<longrightarrow> text = []))
    \<and> (\<exists>gaps. length gaps = length chunks \<and> list_all break_text gaps \<and> interleave chunks gaps = text)"
proof -
  have c: "chunks = split_loop (nat limit) [] text" and pos: "1 \<le> nat limit"
    using assms by (auto simp: split_telegram_text_def guardE_def split: if_splits)
  show ?thesis using pos split_loop_correct [of "nat limit" "[]" "[]" "text"] by (auto simp: c)
qed

theorem split_telegram_text_lossless_witness:
  "\<exists>gaps. length gaps = 2 \<and> list_all break_text gaps \<and> interleave [[97, 98], [99]] gaps = [97, 98, 10, 32, 99]"
proof -
  have "split_telegram_text [97, 98, 10, 32, 99] 3 = Inr [[97, 98], [99]]" by code_simp
  from split_telegram_text_lossless [OF this] show ?thesis by (simp add: numeral_2_eq_2)
qed

section \<open>Commands\<close>

record telegram_command =
  tc_name :: pystr
  tc_arguments :: "pystr list"

text \<open>\<open>casefold\<close> stands for \<open>str.casefold\<close>.\<close>

definition parse_telegram_command :: "(pystr \<Rightarrow> pystr) \<Rightarrow> pystr \<Rightarrow> telegram_command option" where
  "parse_telegram_command casefold text =
     (case split_ws (strip text) of
        [] \<Rightarrow> None
      | first # rest \<Rightarrow>
          if \<not> starts_with [47] first then None
          else let token = drop 1 first in
            if token = [] then None
            else let name = takeWhile (\<lambda>c. c \<noteq> 64) token;
                     separator = 64 \<in> set token;
                     bot = drop 1 (dropWhile (\<lambda>c. c \<noteq> 64) token)
                 in if separator \<and> bot = [] then None
                    else if name = [] then None
                    else Some \<lparr>tc_name = casefold name, tc_arguments = rest\<rparr>)"

text \<open>
A message is a command only if its first word is a slash, a name and possibly a bot name
after an at sign; the name has no space and no at sign before folding, and the arguments are the
other words, none of them empty or with a space in it.
\<close>
theorem parse_telegram_command_shape:
  assumes "parse_telegram_command casefold text = Some cmd"
  shows "\<exists>name bot. split_ws (strip text) = (47 # name @ bot) # tc_arguments cmd \<and> tc_name cmd = casefold name
    \<and> name \<noteq> [] \<and> 64 \<notin> set name \<and> (bot = [] \<or> (\<exists>b. b \<noteq> [] \<and> bot = 64 # b))
    \<and> (\<forall>w \<in> set (tc_arguments cmd). w \<noteq> [] \<and> list_all (\<lambda>c. \<not> is_space c) w)"
proof -
  obtain first rest where sp: "split_ws (strip text) = first # rest"
    using assms by (cases "split_ws (strip text)") (auto simp: parse_telegram_command_def)
  define token where "token = drop 1 first"
  define name where "name = takeWhile (\<lambda>c. c \<noteq> 64) token"
  define bot where "bot = dropWhile (\<lambda>c. c \<noteq> 64) token"
  have "(if \<not> starts_with [47] first then None
          else if token = [] then None
          else if 64 \<in> set token \<and> drop 1 bot = [] then None
          else if name = [] then None
          else Some \<lparr>tc_name = casefold name, tc_arguments = rest\<rparr>) = Some cmd"
    using assms sp unfolding parse_telegram_command_def token_def name_def bot_def Let_def by simp
  then have c: "starts_with [47] first" "\<not> (64 \<in> set token \<and> drop 1 bot = [])" "name \<noteq> []"
      "cmd = \<lparr>tc_name = casefold name, tc_arguments = rest\<rparr>"
    by (simp_all split: if_splits)
  have "first = 47 # token" using c(1) by (cases first) (auto simp: starts_with_def token_def)
  moreover have "token = name @ bot" by (simp add: name_def bot_def)
  moreover have "64 \<notin> set name" unfolding name_def by (auto dest: set_takeWhileD)
  moreover have "bot = [] \<or> (\<exists>b. b \<noteq> [] \<and> bot = 64 # b)"
  proof (cases bot)
    case (Cons x b)
    have "bot = [] \<or> hd bot = 64" unfolding bot_def using hd_dropWhile [of "\<lambda>c. c \<noteq> 64" token] by blast
    with Cons have "x = 64" by simp
    moreover have "64 \<in> set token" using Cons \<open>x = 64\<close> \<open>token = name @ bot\<close> by simp
    ultimately show ?thesis using Cons c(2) by simp
  qed simp
  moreover have "\<forall>w \<in> set rest. w \<noteq> [] \<and> list_all (\<lambda>c. \<not> is_space c) w"
    using split_ws_words [of _ "strip text"] sp by simp
  ultimately show ?thesis using sp c(3,4) by auto
qed

theorem parse_telegram_command_shape_witness:
  "\<exists>name. tc_name \<lparr>tc_name = [110], tc_arguments = []\<rparr> = id name \<and> name \<noteq> [] \<and> 64 \<notin> set name"
proof -
  have "split_ws (strip [47, 110, 64, 98, 10]) = [[47, 110, 64, 98]]"
    by (simp add: split_ws.simps strip_def is_space_def Let_def)
  then have "parse_telegram_command id [47, 110, 64, 98, 10] = Some \<lparr>tc_name = [110], tc_arguments = []\<rparr>"
    by (simp add: parse_telegram_command_def starts_with_def)
  from parse_telegram_command_shape [OF this] show ?thesis by auto
qed

section \<open>Web sources\<close>

record web_source =
  ws_title :: pystr
  ws_url :: pystr

text \<open>\<open>html.escape(s, quote=True)\<close>.\<close>

definition escape_char :: "nat \<Rightarrow> pystr" where
  "escape_char c =
     (if c = 38 then u ''&amp;'' else if c = 60 then u ''&lt;'' else if c = 62 then u ''&gt;''
      else if c = 34 then u ''&quot;'' else if c = 39 then u ''&#x27;'' else [c])"

definition escape_html :: "pystr \<Rightarrow> pystr" where
  "escape_html s = concat (map escape_char s)"

text \<open>\<open>urlsplit\<close> gives scheme and host name, or raises \<open>ValueError\<close>.\<close>

definition is_http_url :: "(pystr \<Rightarrow> (pystr \<times> pystr option) result) \<Rightarrow> pystr \<Rightarrow> bool" where
  "is_http_url urlsplit value =
     (case urlsplit value of Inl _ \<Rightarrow> False
      | Inr (scheme, host) \<Rightarrow> (scheme = u ''http'' \<or> scheme = u ''https'') \<and> host \<noteq> None \<and> host \<noteq> Some [])"

definition source_count_limit :: nat where "source_count_limit = 5"
definition source_title_limit :: nat where "source_title_limit = 96"
definition source_url_limit :: nat where "source_url_limit = 512"
definition message_limit :: nat where "message_limit = 4096"

definition sources_header :: pystr where
  "sources_header = u ''<b>'' @ [1048, 1089, 1090, 1086, 1095, 1085, 1080, 1082, 1080, 58] @ u ''</b>''"

definition source_title :: "web_source \<Rightarrow> pystr" where
  "source_title w = join_with 32 (split_ws (ws_title w))"

definition short_title :: "pystr \<Rightarrow> pystr" where
  "short_title title = (if source_title_limit < length title
     then rstrip (take (source_title_limit - 1) title) @ [8230] else title)"

definition source_line :: "nat \<Rightarrow> pystr \<Rightarrow> pystr \<Rightarrow> pystr" where
  "source_line n title url = show_nat n @ u ''. <a href=\"'' @ escape_html url @ u ''\">'' @ escape_html title @ u ''</a>''"

fun render_loop ::
    "(pystr \<Rightarrow> (pystr \<times> pystr option) result) \<Rightarrow> pystr list \<Rightarrow> pystr list \<Rightarrow> web_source list \<Rightarrow> pystr list" where
  "render_loop urlsplit lines seen [] = lines"
| "render_loop urlsplit lines seen (w # ws) =
     (if source_count_limit < length lines then lines
      else let title = source_title w; url = strip (ws_url w) in
        if title = [] \<or> url \<in> set seen \<or> \<not> is_http_url urlsplit url then render_loop urlsplit lines seen ws
        else if source_url_limit < length url then render_loop urlsplit lines seen ws
        else let line = source_line (length lines) (short_title title) url in
          if message_limit < length (join_with 10 (lines @ [line])) then lines
          else render_loop urlsplit (lines @ [line]) (url # seen) ws)"

definition render_sources_html ::
    "(pystr \<Rightarrow> (pystr \<times> pystr option) result) \<Rightarrow> web_source list \<Rightarrow> pystr" where
  "render_sources_html urlsplit sources =
     (let lines = render_loop urlsplit [sources_header] [] sources
      in if 1 < length lines then join_with 10 lines else [])"

text \<open>The markup characters are gone from an escaped text.\<close>

lemma entities: "u ''&amp;'' = [38, 97, 109, 112, 59]" "u ''&lt;'' = [38, 108, 116, 59]"
  "u ''&gt;'' = [38, 103, 116, 59]" "u ''&quot;'' = [38, 113, 117, 111, 116, 59]"
  "u ''&#x27;'' = [38, 35, 120, 50, 55, 59]"
  by (simp_all add: u_def)

lemma escape_char_safe: "set (escape_char c) \<inter> {60, 62, 34, 39} = {}"
  by (simp add: escape_char_def entities)

lemma escape_html_safe: "set (escape_html s) \<inter> {60, 62, 34, 39} = {}"
  using escape_char_safe by (auto simp: escape_html_def)

text \<open>The state of the loop: the header, then one line for each accepted entry, numbered from one.\<close>

definition source_lines :: "(pystr \<times> pystr) list \<Rightarrow> pystr list" where
  "source_lines es = map (\<lambda>i. source_line (i + 1) (fst (es ! i)) (snd (es ! i))) [0..<length es]"

definition entries_ok ::
    "(pystr \<Rightarrow> (pystr \<times> pystr option) result) \<Rightarrow> web_source list \<Rightarrow> (pystr \<times> pystr) list \<Rightarrow> bool" where
  "entries_ok urlsplit sources es \<longleftrightarrow> length es \<le> source_count_limit \<and> distinct (map snd es)
     \<and> (\<forall>(title, url) \<in> set es. is_http_url urlsplit url \<and> length url \<le> source_url_limit \<and> title \<noteq> []
          \<and> length title \<le> source_title_limit
          \<and> (\<exists>w \<in> set sources. url = strip (ws_url w) \<and> title = short_title (source_title w)))"

lemma source_lines_snoc:
  "source_lines (es @ [e]) = source_lines es @ [source_line (Suc (length es)) (fst e) (snd e)]"
  by (simp add: source_lines_def nth_append cong: map_cong)

lemma length_source_lines [simp]: "length (source_lines es) = length es"
  by (simp add: source_lines_def)

lemma short_title_length: "length (short_title t) \<le> source_title_limit"
  using length_rstrip [of "take (source_title_limit - 1) t"] by (auto simp: short_title_def source_title_limit_def)

lemma short_title_nonempty: "t \<noteq> [] \<Longrightarrow> short_title t \<noteq> []"
  by (simp add: short_title_def)

lemma render_loop_entries:
  assumes "entries_ok urlsplit all es" and "set seen = set (map snd es)" and "set ws \<subseteq> set all"
    and "length (join_with 10 (sources_header # source_lines es)) \<le> message_limit"
  shows "\<exists>es'. render_loop urlsplit (sources_header # source_lines es) seen ws = sources_header # source_lines es'
    \<and> entries_ok urlsplit all es' \<and> length (join_with 10 (sources_header # source_lines es')) \<le> message_limit"
  using assms
proof (induction ws arbitrary: es seen)
  case Nil
  then show ?case by auto
next
  case (Cons w ws)
  define title where "title = source_title w"
  define url where "url = strip (ws_url w)"
  define line where "line = source_line (Suc (length es)) (short_title title) url"
  let ?L = "sources_header # source_lines es"
  have skip: ?case if "render_loop urlsplit ?L seen (w # ws) = render_loop urlsplit ?L seen ws"
    unfolding that by (rule Cons.IH) (use Cons.prems in auto)
  have stop: ?case if "render_loop urlsplit ?L seen (w # ws) = ?L"
    unfolding that using Cons.prems by blast
  show ?case
  proof (cases "source_count_limit < length ?L \<or> title = [] \<or> url \<in> set seen \<or> \<not> is_http_url urlsplit url
      \<or> source_url_limit < length url \<or> message_limit < length (join_with 10 (?L @ [line]))")
    case True
    then consider "source_count_limit < length ?L"
      | "\<not> source_count_limit < length ?L"
        "title = [] \<or> url \<in> set seen \<or> \<not> is_http_url urlsplit url \<or> source_url_limit < length url"
      | "\<not> source_count_limit < length ?L"
        "\<not> (title = [] \<or> url \<in> set seen \<or> \<not> is_http_url urlsplit url \<or> source_url_limit < length url)"
        "message_limit < length (join_with 10 (?L @ [line]))" by blast
    then show ?thesis
    proof cases
      case 1
      then show ?thesis by (intro stop) simp
    next
      case 2
      then show ?thesis by (intro skip) (auto simp: title_def url_def Let_def)
    next
      case 3
      then show ?thesis by (intro stop) (simp add: title_def url_def line_def Let_def)
    qed
  next
    case False
    then have step: "render_loop urlsplit ?L seen (w # ws) = render_loop urlsplit (?L @ [line]) (url # seen) ws"
      by (simp add: title_def url_def line_def Let_def)
    have L: "?L @ [line] = sources_header # source_lines (es @ [(short_title title, url)])"
      by (simp add: source_lines_snoc line_def)
    have ok: "entries_ok urlsplit all (es @ [(short_title title, url)])"
      using Cons.prems(1-3) False short_title_length short_title_nonempty
      by (auto simp: entries_ok_def title_def url_def)
    show ?thesis unfolding step L
      by (rule Cons.IH [OF ok]) (use Cons.prems False L in auto)
  qed
qed

text \<open>
The rendered list of web sources is empty, or a message within Telegram's 4096 characters: the
header and one to five numbered lines for distinct http or https addresses of at most 512
characters, each with a title of at most 96 characters;
no character of a title or of an address can open or close a tag or an attribute.
\<close>
theorem rendered_sources_bounded_and_escaped:
  shows "render_sources_html urlsplit sources = [] \<or>
    (\<exists>es. render_sources_html urlsplit sources = join_with 10 (sources_header # source_lines es)
       \<and> 1 \<le> length es \<and> length es \<le> 5 \<and> length (render_sources_html urlsplit sources) \<le> 4096
       \<and> distinct (map snd es)
       \<and> (\<forall>(title, url) \<in> set es. is_http_url urlsplit url \<and> length url \<le> 512
            \<and> title \<noteq> [] \<and> length title \<le> 96
            \<and> set (escape_html title) \<inter> {60, 62, 34, 39} = {} \<and> set (escape_html url) \<inter> {60, 62, 34, 39} = {}))"
proof -
  have h: "length (join_with 10 (sources_header # source_lines [])) \<le> message_limit"
    by (simp add: source_lines_def sources_header_def message_limit_def u_def)
  have "entries_ok urlsplit sources []" by (simp add: entries_ok_def)
  from render_loop_entries [OF this _ _ h, of "[]" sources]
  obtain es where es: "render_loop urlsplit [sources_header] [] sources = sources_header # source_lines es"
    "entries_ok urlsplit sources es" "length (join_with 10 (sources_header # source_lines es)) \<le> message_limit"
    by (auto simp: source_lines_def [of "[]"])
  show ?thesis
  proof (cases "es = []")
    case True
    with es(1) show ?thesis by (simp add: render_sources_html_def)
  next
    case False
    then have "render_sources_html urlsplit sources = join_with 10 (sources_header # source_lines es)" "1 \<le> length es"
      using es(1) by (simp_all add: render_sources_html_def Suc_le_eq)
    moreover have "length es \<le> 5" "distinct (map snd es)"
      using es(2) by (simp_all add: entries_ok_def source_count_limit_def)
    moreover have "\<forall>(title, url) \<in> set es. is_http_url urlsplit url \<and> length url \<le> 512
            \<and> title \<noteq> [] \<and> length title \<le> 96
            \<and> set (escape_html title) \<inter> {60, 62, 34, 39} = {} \<and> set (escape_html url) \<inter> {60, 62, 34, 39} = {}"
      using es(2) escape_html_safe by (auto simp: entries_ok_def source_url_limit_def source_title_limit_def)
    ultimately show ?thesis using es(3) unfolding message_limit_def
      by (intro disjI2 exI [of _ es] conjI) simp_all
  qed
qed

theorem rendered_sources_bounded_and_escaped_witness:
  "let out = render_sources_html (\<lambda>_. Inr (u ''https'', Some (u ''e'')))
       [\<lparr>ws_title = u ''a<b'', ws_url = u ''https://e''\<rparr>]
   in out \<noteq> [] \<and> length out \<le> 4096"
proof -
  let ?s = "\<lambda>_ :: pystr. Inr (u ''https'', Some (u ''e'')) :: (pystr \<times> pystr option) result"
  let ?w = "[\<lparr>ws_title = u ''a<b'', ws_url = u ''https://e''\<rparr>]"
  have "source_title (hd ?w) \<noteq> []"
    by (simp add: source_title_def u_def is_space_def split_ws.simps)
  moreover have "is_http_url ?s (strip (ws_url (hd ?w)))" by (simp add: is_http_url_def u_def)
  moreover have "\<not> source_url_limit < length (strip (ws_url (hd ?w)))"
    by (simp add: source_url_limit_def strip_def u_def is_space_def)
  moreover have "\<not> message_limit < length (join_with 10 [sources_header,
      source_line 1 (short_title (source_title (hd ?w))) (strip (ws_url (hd ?w)))])"
    by (simp add: source_title_def u_def is_space_def split_ws.simps short_title_def message_limit_def
        sources_header_def source_line_def escape_html_def escape_char_def source_title_limit_def strip_def
        show_nat.simps)
  ultimately have "render_sources_html ?s ?w \<noteq> []"
    by (simp add: render_sources_html_def source_count_limit_def Let_def sources_header_def u_def)
  then show ?thesis using rendered_sources_bounded_and_escaped [of ?s ?w] by (auto simp: Let_def)
qed

end
