(* ===== verification/Action_Confirmation.thy ===== *)
theory Action_Confirmation
  imports Database
begin

text \<open>
  The one-time confirmations of \<open>action_confirmation.py\<close>: \<open>create\<close>, \<open>resolve\<close> and \<open>consume\<close> of
  the store, \<open>request\<close> and \<open>resolve\<close> of the service, and the proof that a token decides its
  action at most once, for its owner, before it expires. The clock and the random token are
  arguments. A row keeps the decoded payload; \<open>dumps\<close> stands for \<open>json.dumps\<close> with sorted keys
  and \<open>sha256\<close> for the hex digest, both used only to compute the hash of a row.
\<close>

section \<open>Data\<close>

record confirmation_action =
  ca_token :: pystr
  ca_type :: pystr
  ca_payload :: pyval

record confirmation_resolution =
  cr_action :: confirmation_action
  cr_outcome :: confirmation_outcome
  cr_first :: bool

record hashing =
  dumps :: "pyval \<Rightarrow> pystr"
  sha256 :: "pystr \<Rightarrow> pystr"

text \<open>\<open>_payload_hash\<close>; encoding a lone surrogate raises.\<close>

definition payload_hash :: "hashing \<Rightarrow> int \<Rightarrow> pystr \<Rightarrow> pyval \<Rightarrow> pystr result" where
  "payload_hash h owner action_type payload =
     (let material = show_int owner @ 10 # action_type @ 10 # dumps h payload in
      bindE (utf8_length material) (\<lambda>_. Inr (sha256 h material)))"

section \<open>The store\<close>

definition create_confirmation ::
    "hashing \<Rightarrow> int \<Rightarrow> int \<Rightarrow> pystr \<Rightarrow> int \<Rightarrow> pystr \<Rightarrow> pyval \<Rightarrow> (db, pystr) op" where
  "create_confirmation h ttl now token owner action_type payload = transaction (\<lambda>s.
     guardE (owner \<le> 0) (ValueError ''confirmation owner must be a positive integer'')
     (guardE (is_blank action_type) (ValueError ''confirmation action type cannot be empty'')
     (bindE (datetime_add now (ttl * 1000000)) (\<lambda>expires.
      bindE (payload_hash h owner action_type payload) (\<lambda>hash.
      let kept = delete_where (\<lambda>c. c_owner c = owner \<and> c_expires c \<le> now) (confirmations s);
          row = \<lparr>c_token = token, c_owner = owner, c_type = action_type, c_payload = payload,
            c_hash = hash, c_created = now, c_expires = expires, c_consumed = None,
            c_outcome = None, c_resolved = None\<rparr>
      in guardE (\<not> sql_nonblank action_type) (IntegrityError ''CHECK constraint failed'')
        (guardE (list_ex (\<lambda>c. c_token c = token) kept) (IntegrityError ''UNIQUE constraint failed'')
        (Inr (token, s\<lparr>confirmations := kept @ [row]\<rparr>))))))))"

definition confirmation_of :: "db \<Rightarrow> pystr \<Rightarrow> confirmation option" where
  "confirmation_of s token = find (\<lambda>c. c_token c = token) (confirmations s)"

definition decide_row :: "confirmation_outcome \<Rightarrow> int \<Rightarrow> confirmation \<Rightarrow> confirmation" where
  "decide_row outcome now c = c\<lparr>c_consumed := Some now, c_outcome := Some outcome, c_resolved := Some now\<rparr>"

definition resolve_confirmation ::
    "hashing \<Rightarrow> int \<Rightarrow> pystr \<Rightarrow> int \<Rightarrow> confirmation_outcome
      \<Rightarrow> (db, confirmation_resolution option) op" where
  "resolve_confirmation h now token owner outcome = transaction (\<lambda>s.
     case confirmation_of s token of
       None \<Rightarrow> Inr (None, s)
     | Some row \<Rightarrow>
         if c_owner row \<noteq> owner then Inr (None, s)
         else bindE (payload_hash h owner (c_type row) (c_payload row)) (\<lambda>hash.
           let action = \<lparr>ca_token = token, ca_type = c_type row, ca_payload = c_payload row\<rparr> in
           if c_hash row \<noteq> hash then Inr (None, s)
           else case c_outcome row of
               Some decided \<Rightarrow>
                 if decided \<noteq> outcome then Inr (None, s)
                 else Inr (Some \<lparr>cr_action = action, cr_outcome = outcome, cr_first = False\<rparr>, s)
             | None \<Rightarrow>
                 if c_consumed row \<noteq> None \<or> c_expires row \<le> now then Inr (None, s)
                 else Inr (Some \<lparr>cr_action = action, cr_outcome = outcome, cr_first = True\<rparr>,
                   s\<lparr>confirmations := update_where
                       (\<lambda>c. c_token c = token \<and> c_consumed c = None \<and> c_outcome c = None)
                       (decide_row outcome now) (confirmations s)\<rparr>)))"

definition consume_confirmation :: "hashing \<Rightarrow> int \<Rightarrow> pystr \<Rightarrow> int \<Rightarrow> (db, confirmation_action option) op" where
  "consume_confirmation h now token owner s =
     (case resolve_confirmation h now token owner C_Confirmed s of
        (Inr (Some res), s') \<Rightarrow> (Inr (if cr_first res then Some (cr_action res) else None), s')
      | (Inr None, s') \<Rightarrow> (Inr None, s')
      | (Inl e, s') \<Rightarrow> (Inl e, s'))"

section \<open>The service\<close>

definition request_confirmation ::
    "hashing \<Rightarrow> int \<Rightarrow> int \<Rightarrow> pystr \<Rightarrow> int \<Rightarrow> pystr \<Rightarrow> pyval \<Rightarrow> (db, pystr) op" where
  "request_confirmation = create_confirmation"

definition resolve_decision ::
    "hashing \<Rightarrow> int \<Rightarrow> pystr \<Rightarrow> int \<Rightarrow> bool \<Rightarrow> (db, confirmation_resolution option) op" where
  "resolve_decision h now token owner confirmed =
     resolve_confirmation h now token owner (if confirmed then C_Confirmed else C_Cancelled)"

section \<open>The invariant\<close>

text \<open>The outcome, the time it was decided and the consumption mark come together.\<close>

definition confirmation_ok :: "confirmation \<Rightarrow> bool" where
  "confirmation_ok c \<longleftrightarrow> (c_outcome c = None \<longleftrightarrow> c_consumed c = None) \<and> c_resolved c = c_consumed c"

definition confirmations_ok :: "db \<Rightarrow> bool" where
  "confirmations_ok s \<longleftrightarrow> distinct (map c_token (confirmations s))
     \<and> (\<forall>c \<in> set (confirmations s). confirmation_ok c)"

lemma confirmation_of_Some:
  "confirmation_of s token = Some c \<Longrightarrow> c \<in> set (confirmations s) \<and> c_token c = token"
  by (auto simp: confirmation_of_def find_Some_iff)

lemma confirmation_of_unique:
  "confirmations_ok s \<Longrightarrow> c \<in> set (confirmations s) \<Longrightarrow> confirmation_of s (c_token c) = Some c"
  unfolding confirmation_of_def confirmations_ok_def by (auto intro: find_unique)

text \<open>What a successful \<open>create\<close> and a first resolution do to the table.\<close>

lemma create_confirmation_Inr:
  assumes "create_confirmation h ttl now token owner ty p s = (Inr t, s')"
  shows "t = token \<and> 0 < owner \<and> (\<exists>row. confirmations s' = delete_where (\<lambda>c. c_owner c = owner \<and> c_expires c \<le> now)
      (confirmations s) @ [row]
    \<and> c_token row = token \<and> c_owner row = owner \<and> c_type row = ty \<and> c_payload row = p \<and> c_created row = now
    \<and> c_expires row = now + ttl * 1000000 \<and> c_outcome row = None \<and> c_consumed row = None \<and> c_resolved row = None
    \<and> payload_hash h owner ty p = Inr (c_hash row))
    \<and> token \<notin> c_token ` set (delete_where (\<lambda>c. c_owner c = owner \<and> c_expires c \<le> now) (confirmations s))"
  using assms unfolding create_confirmation_def transaction_Inr Let_def
  by (auto simp: result_simps datetime_add_def list_ex_iff split: if_splits)

lemma resolve_confirmation_cases:
  assumes "confirmations_ok s" and "resolve_confirmation h now token owner outcome s = (r, s')"
  shows "(\<exists>e. r = Inl e \<and> s' = s) \<or> r = Inr None \<and> s' = s
    \<or> (\<exists>c. confirmation_of s token = Some c \<and> c_owner c = owner
       \<and> (c_outcome c = Some outcome \<and> s' = s
            \<and> r = Inr (Some \<lparr>cr_action = \<lparr>ca_token = token, ca_type = c_type c, ca_payload = c_payload c\<rparr>,
                cr_outcome = outcome, cr_first = False\<rparr>)
          \<or> c_outcome c = None \<and> now < c_expires c
            \<and> s' = s\<lparr>confirmations := update_where
                (\<lambda>c. c_token c = token \<and> c_consumed c = None \<and> c_outcome c = None)
                (decide_row outcome now) (confirmations s)\<rparr>
            \<and> r = Inr (Some \<lparr>cr_action = \<lparr>ca_token = token, ca_type = c_type c, ca_payload = c_payload c\<rparr>,
                cr_outcome = outcome, cr_first = True\<rparr>)))"
proof (cases "confirmation_of s token")
  case None
  with assms(2) show ?thesis by (simp add: resolve_confirmation_def transaction_def)
next
  case (Some c)
  define a where "a = \<lparr>ca_token = token, ca_type = c_type c, ca_payload = c_payload c\<rparr>"
  show ?thesis
  proof (cases "c_owner c = owner")
    case False
    with Some assms(2) show ?thesis by (simp add: resolve_confirmation_def transaction_def)
  next
    case own: True
    show ?thesis
    proof (cases "payload_hash h owner (c_type c) (c_payload c)")
      case (Inl e)
      with Some own assms(2) have "r = Inl e" "s' = s"
        by (simp_all add: resolve_confirmation_def transaction_def)
      then show ?thesis by blast
    next
      case (Inr hash)
      have eq: "resolve_confirmation h now token owner outcome s =
        (if c_hash c \<noteq> hash then (Inr None, s)
         else case c_outcome c of
             Some d \<Rightarrow> if d \<noteq> outcome then (Inr None, s)
                 else (Inr (Some \<lparr>cr_action = a, cr_outcome = outcome, cr_first = False\<rparr>), s)
           | None \<Rightarrow> if c_consumed c \<noteq> None \<or> c_expires c \<le> now then (Inr None, s)
                 else (Inr (Some \<lparr>cr_action = a, cr_outcome = outcome, cr_first = True\<rparr>),
                   s\<lparr>confirmations := update_where
                       (\<lambda>c. c_token c = token \<and> c_consumed c = None \<and> c_outcome c = None)
                       (decide_row outcome now) (confirmations s)\<rparr>))"
        using Some own Inr by (auto simp: resolve_confirmation_def transaction_def a_def split: option.split)
      from eq assms(2) Some own show ?thesis
        by (auto simp: a_def split: if_splits option.splits)
    qed
  qed
qed

section \<open>The history of the confirmations\<close>

text \<open>
  A state is the database and the log of what has happened: which tokens were issued, for whom
  and until when, and which decisions were reported as the first one (the ones the program acts
  on). A new token is one that was never issued before.
\<close>

datatype confirmation_event =
    Issued pystr int pystr pyval int
  | Decided pystr int pystr pyval confirmation_outcome int

fun issued_token :: "confirmation_event \<Rightarrow> pystr option" where
  "issued_token (Issued t _ _ _ _) = Some t"
| "issued_token (Decided _ _ _ _ _ _) = None"

fun decided_token :: "confirmation_event \<Rightarrow> pystr option" where
  "decided_token (Decided t _ _ _ _ _) = Some t"
| "decided_token (Issued _ _ _ _ _) = None"

abbreviation issued_tokens :: "confirmation_event list \<Rightarrow> pystr list" where
  "issued_tokens evs \<equiv> List.map_filter issued_token evs"

abbreviation decided_tokens :: "confirmation_event list \<Rightarrow> pystr list" where
  "decided_tokens evs \<equiv> List.map_filter decided_token evs"

definition decision_event :: "int \<Rightarrow> int \<Rightarrow> confirmation_resolution option \<Rightarrow> confirmation_event list" where
  "decision_event owner now r = (case r of None \<Rightarrow> []
     | Some res \<Rightarrow> if cr_first res then
         [Decided (ca_token (cr_action res)) owner (ca_type (cr_action res)) (ca_payload (cr_action res))
            (cr_outcome res) now] else [])"

inductive confirmation_step ::
    "hashing \<Rightarrow> int \<Rightarrow> db \<times> confirmation_event list \<Rightarrow> db \<times> confirmation_event list \<Rightarrow> bool" for h ttl where
  issue: "token \<notin> set (issued_tokens evs)
    \<Longrightarrow> create_confirmation h ttl now token owner ty p s = (Inr t, s')
    \<Longrightarrow> confirmation_step h ttl (s, evs) (s', evs @ [Issued token owner ty p (now + ttl * 1000000)])"
| issue_failed: "create_confirmation h ttl now token owner ty p s = (Inl e, s')
    \<Longrightarrow> confirmation_step h ttl (s, evs) (s', evs)"
| resolve: "resolve_confirmation h now token owner outcome s = (Inr r, s')
    \<Longrightarrow> confirmation_step h ttl (s, evs) (s', evs @ decision_event owner now r)"
| resolve_failed: "resolve_confirmation h now token owner outcome s = (Inl e, s')
    \<Longrightarrow> confirmation_step h ttl (s, evs) (s', evs)"
| unrelated: "confirmations s' = confirmations s \<Longrightarrow> confirmation_step h ttl (s, evs) (s', evs)"

inductive confirmation_reachable :: "hashing \<Rightarrow> int \<Rightarrow> db \<times> confirmation_event list \<Rightarrow> bool" for h ttl where
  conf_start: "confirmation_reachable h ttl (empty_db, [])"
| conf_step: "confirmation_reachable h ttl st \<Longrightarrow> confirmation_step h ttl st st'
    \<Longrightarrow> confirmation_reachable h ttl st'"

definition confirmation_inv :: "db \<times> confirmation_event list \<Rightarrow> bool" where
  "confirmation_inv st = (case st of (s, evs) \<Rightarrow>
     confirmations_ok s \<and> distinct (issued_tokens evs) \<and> distinct (decided_tokens evs)
     \<and> (\<forall>c \<in> set (confirmations s).
          Issued (c_token c) (c_owner c) (c_type c) (c_payload c) (c_expires c) \<in> set evs
          \<and> (c_outcome c = None \<longrightarrow> c_token c \<notin> set (decided_tokens evs)))
     \<and> set (decided_tokens evs) \<subseteq> set (issued_tokens evs)
     \<and> (\<forall>t owner ty p outcome now. Decided t owner ty p outcome now \<in> set evs
          \<longrightarrow> (\<exists>expires. Issued t owner ty p expires \<in> set evs \<and> now < expires)))"

lemma map_filter_append [simp]: "List.map_filter f (xs @ ys) = List.map_filter f xs @ List.map_filter f ys"
  by (simp add: List.map_filter_def)

lemma map_filter_Cons [simp]: "List.map_filter f (x # xs)
   = (case f x of None \<Rightarrow> [] | Some y \<Rightarrow> [y]) @ List.map_filter f xs"
  by (simp add: List.map_filter_def split: option.split)

lemma map_filter_Nil [simp]: "List.map_filter f [] = []"
  by (simp add: List.map_filter_def)

lemma issued_token_mem: "Issued t owner ty p x \<in> set evs \<Longrightarrow> t \<in> set (issued_tokens evs)"
  by (induction evs) (auto split: option.split)

lemma confirmation_inv_start: "confirmation_inv (empty_db, [])"
  by (simp add: confirmation_inv_def confirmations_ok_def empty_db_def)

lemma confirmation_inv_issue:
  assumes inv: "confirmation_inv (s, evs)" and new: "token \<notin> set (issued_tokens evs)"
    and run: "create_confirmation h ttl now token owner ty p s = (Inr t, s')"
  shows "confirmation_inv (s', evs @ [Issued token owner ty p (now + ttl * 1000000)])"
proof -
  obtain row where row: "confirmations s' = delete_where (\<lambda>c. c_owner c = owner \<and> c_expires c \<le> now) (confirmations s) @ [row]"
    "c_token row = token" "c_owner row = owner" "c_type row = ty" "c_payload row = p"
    "c_expires row = now + ttl * 1000000" "c_outcome row = None" "c_consumed row = None" "c_resolved row = None"
    and fresh: "token \<notin> c_token ` set (delete_where (\<lambda>c. c_owner c = owner \<and> c_expires c \<le> now) (confirmations s))"
    using create_confirmation_Inr [OF run] by blast
  have "distinct (map c_token (delete_where (\<lambda>c. c_owner c = owner \<and> c_expires c \<le> now) (confirmations s)))"
    using inv by (auto simp: confirmation_inv_def confirmations_ok_def intro: distinct_map_delete_where)
  with inv fresh row have "confirmations_ok s'"
    by (auto simp: confirmation_inv_def confirmations_ok_def set_delete_where confirmation_ok_def)
  moreover have "token \<notin> set (decided_tokens evs)" using inv new by (auto simp: confirmation_inv_def)
  ultimately show ?thesis using inv new row
    by (fastforce simp: confirmation_inv_def set_delete_where)
qed

lemma confirmation_inv_resolve:
  assumes inv: "confirmation_inv (s, evs)" and run: "resolve_confirmation h now token owner outcome s = (Inr r, s')"
  shows "confirmation_inv (s', evs @ decision_event owner now r)"
proof -
  have ok: "confirmations_ok s" using inv by (simp add: confirmation_inv_def)
  have "(s' = s \<and> decision_event owner now r = [])
    \<or> (\<exists>c. confirmation_of s token = Some c \<and> c_owner c = owner \<and> c_outcome c = None \<and> now < c_expires c
        \<and> s' = s\<lparr>confirmations := update_where
                (\<lambda>c. c_token c = token \<and> c_consumed c = None \<and> c_outcome c = None)
                (decide_row outcome now) (confirmations s)\<rparr>
        \<and> decision_event owner now r = [Decided token owner (c_type c) (c_payload c) outcome now])"
    using resolve_confirmation_cases [OF ok run]
    by (elim disjE exE conjE) (simp_all add: decision_event_def)
  then consider "s' = s" "decision_event owner now r = []"
    | c where "confirmation_of s token = Some c" "c_owner c = owner" "c_outcome c = None" "now < c_expires c"
        "s' = s\<lparr>confirmations := update_where
                (\<lambda>c. c_token c = token \<and> c_consumed c = None \<and> c_outcome c = None)
                (decide_row outcome now) (confirmations s)\<rparr>"
        "decision_event owner now r = [Decided token owner (c_type c) (c_payload c) outcome now]"
    by blast
  then show ?thesis
  proof cases
    case 1
    with inv show ?thesis by simp
  next
    case (2 c)
    note c = confirmation_of_Some [OF 2(1)]
    have isd: "Issued token owner (c_type c) (c_payload c) (c_expires c) \<in> set evs" "token \<notin> set (decided_tokens evs)"
      using inv c 2(2,3) by (auto simp: confirmation_inv_def)
    have "map c_token (confirmations s') = map c_token (confirmations s)"
      unfolding 2(5) by (simp add: map_update_where decide_row_def)
    with ok have ok': "confirmations_ok s'"
      by (auto simp: confirmations_ok_def 2(5) ball_update_where confirmation_ok_def decide_row_def)
    have rows: "Issued (c_token x) (c_owner x) (c_type x) (c_payload x) (c_expires x) \<in> set evs
        \<and> (c_outcome x = None \<longrightarrow> c_token x \<notin> set (decided_tokens evs) \<and> c_token x \<noteq> token)"
      if x: "x \<in> set (confirmations s')" for x
    proof -
      obtain y where y: "y \<in> set (confirmations s)"
        "x = (if c_token y = token \<and> c_consumed y = None \<and> c_outcome y = None then decide_row outcome now y else y)"
        using x unfolding 2(5) by (auto simp: set_update_where)
      have "c_outcome y = None \<Longrightarrow> c_token y = token \<Longrightarrow> c_consumed y = None"
        using ok y(1) by (auto simp: confirmations_ok_def confirmation_ok_def)
      with y inv show ?thesis by (auto simp: confirmation_inv_def decide_row_def)
    qed
    show ?thesis unfolding 2(6)
      using inv isd ok' rows 2(4) issued_token_mem [OF isd(1)] by (fastforce simp: confirmation_inv_def)
  qed
qed

lemma confirmation_step_inv:
  assumes "confirmation_step h ttl st st'" and "confirmation_inv st"
  shows "confirmation_inv st'"
  using assms
proof (induction rule: confirmation_step.induct)
  case (issue token evs now owner ty p s t s')
  then show ?case by (blast intro: confirmation_inv_issue)
next
  case (issue_failed now token owner ty p s e s' evs)
  then show ?case by (simp add: create_confirmation_def transaction_Inl)
next
  case (resolve now token owner outcome s r s' evs)
  then show ?case by (blast intro: confirmation_inv_resolve)
next
  case (resolve_failed now token owner outcome s e s' evs)
  then show ?case by (simp add: resolve_confirmation_def transaction_Inl)
next
  case (unrelated s' s evs)
  then show ?case by (simp add: confirmation_inv_def confirmations_ok_def)
qed

lemma confirmation_reachable_inv: "confirmation_reachable h ttl st \<Longrightarrow> confirmation_inv st"
  by (induction rule: confirmation_reachable.induct) (auto intro: confirmation_inv_start confirmation_step_inv)

section \<open>Properties\<close>

text \<open>
Whatever the order of issues, resolutions and repetitions, every token decides its action at
most once: the first resolutions ever reported have pairwise different tokens, and each of them
is for the owner, the type and the payload the token was issued for and lies before its expiry.
\<close>
theorem confirmation_decides_once:
  assumes "confirmation_reachable h ttl (s, evs)"
  shows "distinct (decided_tokens evs)
    \<and> (\<forall>t owner ty p outcome now. Decided t owner ty p outcome now \<in> set evs
         \<longrightarrow> (\<exists>expires. Issued t owner ty p expires \<in> set evs \<and> now < expires))"
  using confirmation_reachable_inv [OF assms] by (simp add: confirmation_inv_def)

text \<open>A concrete encoder and digest, and a history with one token.\<close>

definition demo_hashing :: hashing where
  "demo_hashing = \<lparr>dumps = (\<lambda>_. [123, 125]), sha256 = (\<lambda>m. take 3 m)\<rparr>"

definition demo_row :: "int option \<Rightarrow> confirmation_outcome option \<Rightarrow> confirmation" where
  "demo_row t outcome = \<lparr>c_token = [84], c_owner = 7, c_type = [65], c_payload = PDict [], c_hash = [55, 10, 65],
     c_created = 100000000000, c_expires = 100300000000, c_consumed = t, c_outcome = outcome, c_resolved = t\<rparr>"

lemma demo_hash: "payload_hash demo_hashing 7 [65] (PDict []) = Inr [55, 10, 65]"
  by (simp add: payload_hash_def demo_hashing_def show_int_def show_nat.simps utf8_length_def is_surrogate_def)

lemma demo_issue:
  "create_confirmation demo_hashing 300 100000000000 [84] 7 [65] (PDict []) empty_db
     = (Inr [84], empty_db\<lparr>confirmations := [demo_row None None]\<rparr>)"
  by (simp add: create_confirmation_def transaction_def demo_hash demo_row_def empty_db_def Let_def
      datetime_add_def valid_datetime_def is_blank_def strip_def is_space_def delete_where_def sql_nonblank_def)

lemma demo_reachable_issued: "confirmation_reachable demo_hashing 300
   (empty_db\<lparr>confirmations := [demo_row None None]\<rparr>, [Issued [84] 7 [65] (PDict []) 100300000000])"
  using conf_step [OF conf_start confirmation_step.issue [OF _ demo_issue]] by simp

lemma demo_decide:
  "resolve_confirmation demo_hashing 100000002000 [84] 7 C_Confirmed (empty_db\<lparr>confirmations := [demo_row None None]\<rparr>)
     = (Inr (Some \<lparr>cr_action = \<lparr>ca_token = [84], ca_type = [65], ca_payload = PDict []\<rparr>,
          cr_outcome = C_Confirmed, cr_first = True\<rparr>),
        empty_db\<lparr>confirmations := [demo_row (Some 100000002000) (Some C_Confirmed)]\<rparr>)"
  by (simp add: resolve_confirmation_def transaction_def confirmation_of_def demo_hash demo_row_def empty_db_def
      update_where_def decide_row_def)

theorem confirmation_decides_once_witness:
  "\<exists>expires. Issued [84] 7 [65] (PDict []) expires
       \<in> set [Issued [84] 7 [65] (PDict []) 100300000000, Decided [84] 7 [65] (PDict []) C_Confirmed 100000002000]
     \<and> 100000002000 < expires"
proof -
  have "confirmation_reachable demo_hashing 300 (empty_db\<lparr>confirmations := [demo_row (Some 100000002000) (Some C_Confirmed)]\<rparr>,
      [Issued [84] 7 [65] (PDict []) 100300000000, Decided [84] 7 [65] (PDict []) C_Confirmed 100000002000])"
    using conf_step [OF demo_reachable_issued confirmation_step.resolve [OF demo_decide]]
    by (simp add: decision_event_def)
  from confirmation_decides_once [OF this] show ?thesis by simp
qed

text \<open>
A token that was issued is honoured until it expires, by its owner and nobody else: the
first answer gets the action that was stored and is reported as the first one; after it, the
same answer gets the same action, reported as a repetition, the opposite answer gets nothing,
and a stranger gets nothing at any time; none of these changes the table again.
\<close>
theorem confirmation_honoured_for_owner:
  assumes "confirmation_reachable h ttl (s, evs)" and "create_confirmation h ttl now token owner ty p s = (Inr t, s1)"
    and "now1 < now + ttl * 1000000"
  shows "\<exists>s2. resolve_confirmation h now1 token owner outcome s1
        = (Inr (Some \<lparr>cr_action = \<lparr>ca_token = token, ca_type = ty, ca_payload = p\<rparr>, cr_outcome = outcome,
             cr_first = True\<rparr>), s2)
    \<and> resolve_confirmation h now2 token owner outcome2 s2
        = (Inr (if outcome2 = outcome then Some \<lparr>cr_action = \<lparr>ca_token = token, ca_type = ty, ca_payload = p\<rparr>,
             cr_outcome = outcome, cr_first = False\<rparr> else None), s2)
    \<and> (owner2 \<noteq> owner \<longrightarrow> resolve_confirmation h now1 token owner2 outcome2 s1 = (Inr None, s1)
        \<and> resolve_confirmation h now2 token owner2 outcome2 s2 = (Inr None, s2))"
proof -
  obtain row kept where row: "confirmations s1 = kept @ [row]" "c_token row = token" "c_owner row = owner"
    "c_type row = ty" "c_payload row = p" "c_expires row = now + ttl * 1000000" "c_outcome row = None"
    "c_consumed row = None" "payload_hash h owner ty p = Inr (c_hash row)" "token \<notin> c_token ` set kept"
    using create_confirmation_Inr [OF assms(2)] by blast
  have k: "find (\<lambda>c. c_token c = token) kept = None" using row(10) by (intro find_Nothing) auto
  have f1: "confirmation_of s1 token = Some row"
    using row(1,2) k by (simp add: confirmation_of_def find_append)
  define s2 where "s2 = s1\<lparr>confirmations := update_where
     (\<lambda>c. c_token c = token \<and> c_consumed c = None \<and> c_outcome c = None) (decide_row outcome now1) (confirmations s1)\<rparr>"
  have "update_where (\<lambda>c. c_token c = token \<and> c_consumed c = None \<and> c_outcome c = None)
      (decide_row outcome now1) kept = kept"
    using row(10) by (intro update_where_False) auto
  then have "confirmations s2 = kept @ [decide_row outcome now1 row]"
    using row(2,7,8) by (simp add: s2_def row(1) update_where_def)
  then have f2: "confirmation_of s2 token = Some (decide_row outcome now1 row)"
    using row(2) k by (simp add: confirmation_of_def find_append decide_row_def)
  have "resolve_confirmation h now1 token owner outcome s1
        = (Inr (Some \<lparr>cr_action = \<lparr>ca_token = token, ca_type = ty, ca_payload = p\<rparr>, cr_outcome = outcome,
             cr_first = True\<rparr>), s2)"
    using f1 row assms(3) by (simp add: resolve_confirmation_def transaction_def s2_def)
  moreover have "resolve_confirmation h now2 token owner outcome2 s2
        = (Inr (if outcome2 = outcome then Some \<lparr>cr_action = \<lparr>ca_token = token, ca_type = ty, ca_payload = p\<rparr>,
             cr_outcome = outcome, cr_first = False\<rparr> else None), s2)"
    using f2 row by (simp add: resolve_confirmation_def transaction_def decide_row_def)
  moreover have "owner2 \<noteq> owner \<Longrightarrow> resolve_confirmation h now1 token owner2 outcome2 s1 = (Inr None, s1)
      \<and> resolve_confirmation h now2 token owner2 outcome2 s2 = (Inr None, s2)"
    using f1 f2 row(3) by (auto simp: resolve_confirmation_def transaction_def decide_row_def)
  ultimately show ?thesis by blast
qed

theorem confirmation_honoured_for_owner_witness:
  "\<exists>s2. resolve_confirmation demo_hashing 100000002000 [84] 7 C_Cancelled (empty_db\<lparr>confirmations := [demo_row None None]\<rparr>)
        = (Inr (Some \<lparr>cr_action = \<lparr>ca_token = [84], ca_type = [65], ca_payload = PDict []\<rparr>,
             cr_outcome = C_Cancelled, cr_first = True\<rparr>), s2)
     \<and> resolve_confirmation demo_hashing 100000003000 [84] 8 C_Confirmed s2 = (Inr None, s2)"
  using confirmation_honoured_for_owner [OF conf_start demo_issue, of 100000002000 C_Cancelled 100000003000 C_Confirmed 8] by auto

end
