(* ===== verification/Reminder_Worker.thy ===== *)
theory Reminder_Worker
  imports Reminder_Properties Presentation Action_Confirmation
begin

text \<open>
  The reminder scheduler and the delivery worker of \<open>reminder_worker.py\<close>. The protocol
  \<open>ReminderWorkerStore\<close> is a record of operations over a state, \<open>store_port\<close> the reminder store
  behind it, and \<open>delivery_store\<close> the contract the worker relies on. The Telegram port, the
  buttons and the clock are arguments; the port is an operation on the state because other
  connections work while a message is being sent. Each round gets the store at the times of its
  lease and of its report, and the fresh token its lease would have.
\<close>

section \<open>Messages\<close>

record inline_button =
  bt_text :: pystr
  bt_data :: pystr

datatype response_kind = K_Status | K_Notice | K_Final | K_Error

record response =
  rs_chat :: int
  rs_kind :: response_kind
  rs_text :: pystr
  rs_keyboard :: "inline_button list list"

record telegram_sent =
  sent_chat :: int
  sent_message :: int

section \<open>The store behind its protocol\<close>

record 's reminder_port =
  rp_materialize :: "int \<Rightarrow> ('s, run list) op"
  rp_lease :: "('s, delivery_lease option) op"
  rp_current :: "delivery_lease \<Rightarrow> 's \<Rightarrow> bool"
  rp_sent :: "delivery_lease \<Rightarrow> int \<Rightarrow> ('s, bool) op"
  rp_release :: "delivery_lease \<Rightarrow> pystr \<Rightarrow> int \<Rightarrow> ('s, bool) op"

definition store_port :: "zone_db \<Rightarrow> int \<Rightarrow> int \<Rightarrow> pystr \<Rightarrow> db reminder_port" where
  "store_port zones now later token = \<lparr>rp_materialize = materialize_due zones now,
     rp_lease = lease_delivery now token 60, rp_current = delivery_is_current,
     rp_sent = (\<lambda>l. mark_delivery_sent later l), rp_release = (\<lambda>l. release_delivery later l)\<rparr>"

section \<open>The worker\<close>

definition snooze_seconds :: int where "snooze_seconds = 600"

record worker =
  wk_retry :: int
  wk_quiesced :: "(int \<times> int) list"

definition make_worker :: "int \<Rightarrow> worker result" where
  "make_worker retry = guardE (retry < 1 \<or> 3600 < retry) (ValueError ''reminder retry delay is invalid'')
     (Inr \<lparr>wk_retry = retry, wk_quiesced = []\<rparr>)"

definition quiesce :: "int \<Rightarrow> int \<Rightarrow> worker \<Rightarrow> worker" where
  "quiesce owner epoch w = w\<lparr>wk_quiesced := List.insert (owner, epoch) (wk_quiesced w)\<rparr>"

text \<open>The three labels, the action of each button and its payload.\<close>

definition button_actions :: "delivery_lease \<Rightarrow> (pystr \<times> pystr \<times> pyval) list" where
  "button_actions l =
     [([1063, 1077, 1088, 1077, 1079, 32, 49, 48, 32, 1084, 1080, 1085, 1091, 1090],
       u ''snooze_reminder'', PDict [(u ''task_id'', PInt (le_task l)), (u ''delay_seconds'', PInt snooze_seconds)]),
      ([1043, 1086, 1090, 1086, 1074, 1086],
       u ''complete_reminder'', PDict [(u ''task_id'', PInt (le_task l))]),
      ([1054, 1090, 1084, 1077, 1085, 1080, 1090, 1100],
       u ''cancel_reminder'', PDict [(u ''task_id'', PInt (le_task l))])]"

text \<open>A button whose confirmation cannot be issued, or does not fit, is left out.\<close>

fun make_buttons ::
    "(pystr \<Rightarrow> pystr \<Rightarrow> pyval \<Rightarrow> ('s, pystr) op) \<Rightarrow> (pystr \<times> pystr \<times> pyval) list \<Rightarrow> pystr list \<Rightarrow> 's
      \<Rightarrow> inline_button list \<times> 's" where
  "make_buttons request ((label, action, payload) # as) (token # tokens) s =
     (let (q, s1) = request token action payload s;
          (bs, s2) = make_buttons request as tokens s1
      in (case q of
            Inl _ \<Rightarrow> bs
          | Inr t \<Rightarrow>
             (case confirmation_callback_data (u ''confirm'') t of
                Inl _ \<Rightarrow> bs
              | Inr data \<Rightarrow> \<lparr>bt_text = label, bt_data = data\<rparr> # bs), s2))"
| "make_buttons request _ _ s = ([], s)"

definition action_buttons :: "hashing \<Rightarrow> int \<Rightarrow> int \<Rightarrow> pystr list \<Rightarrow> delivery_lease \<Rightarrow> db \<Rightarrow> inline_button list \<times> db" where
  "action_buttons h ttl now tokens l =
     make_buttons (\<lambda>token. request_confirmation h ttl now token (le_owner l)) (button_actions l) tokens"

definition reminder_response :: "delivery_lease \<Rightarrow> inline_button list \<Rightarrow> response" where
  "reminder_response l bs = \<lparr>rs_chat = le_chat l, rs_kind = K_Final,
     rs_text = [1085, 1072, 1087, 1086, 1084, 1080, 1085, 1072, 1085, 1080, 1077, 58, 32] @ le_text l,
     rs_keyboard = [bs]\<rparr>"

text \<open>What the port returned counts when it is a handle of the same chat.\<close>

definition valid_handle :: "delivery_lease \<Rightarrow> telegram_sent option result \<Rightarrow> int option" where
  "valid_handle l q =
     (case q of
        Inr (Some h) \<Rightarrow> if sent_chat h = le_chat l \<and> 1 \<le> sent_message h then Some (sent_message h) else None
      | _ \<Rightarrow> None)"

text \<open>
  One round. \<open>run_once\<close> returns False for \<open>Idle\<close> and True otherwise; the round also tells what
  was done, which the properties speak of.
\<close>

datatype round = Idle | Skipped delivery_lease | Unsent delivery_lease | Reported delivery_lease int bool

definition delivery_round ::
    "'s reminder_port \<Rightarrow> (delivery_lease \<Rightarrow> 's \<Rightarrow> inline_button list \<times> 's)
      \<Rightarrow> (response \<Rightarrow> ('s, telegram_sent option) op) \<Rightarrow> worker \<Rightarrow> ('s, round) op" where
  "delivery_round st buttons send w s =
     (case rp_lease st s of
        (Inl e, s1) \<Rightarrow> (Inl e, s1)
      | (Inr None, s1) \<Rightarrow> (Inr Idle, s1)
      | (Inr (Some l), s1) \<Rightarrow>
         if (le_owner l, le_epoch l) \<in> set (wk_quiesced w) \<or> \<not> rp_current st l s1 then (Inr (Skipped l), s1)
         else
           (let (bs, s2) = buttons l s1;
                (q, s3) = send (reminder_response l bs) s2
            in case valid_handle l q of
                 None \<Rightarrow> (Inr (Unsent l), snd (rp_release st l (u ''telegram_unavailable'') (wk_retry w) s3))
               | Some m \<Rightarrow>
                  (case rp_sent st l m s3 of
                     (Inl e, s4) \<Rightarrow> (Inl e, s4)
                   | (Inr ok, s4) \<Rightarrow> (Inr (Reported l m ok), s4))))"

definition run_once ::
    "'s reminder_port \<Rightarrow> (delivery_lease \<Rightarrow> 's \<Rightarrow> inline_button list \<times> 's)
      \<Rightarrow> (response \<Rightarrow> ('s, telegram_sent option) op) \<Rightarrow> worker \<Rightarrow> ('s, bool) op" where
  "run_once st buttons send w s =
     (case delivery_round st buttons send w s of
        (Inl e, s') \<Rightarrow> (Inl e, s')
      | (Inr r, s') \<Rightarrow> (Inr (r \<noteq> Idle), s'))"

section \<open>The loop\<close>

text \<open>
  A turn of the loop: due jobs become runs, then at most a hundred deliveries until there is none;
  an exception ends the turn and is swallowed. The first components are the rounds that returned.
\<close>

fun delivery_rounds ::
    "(nat \<Rightarrow> 's reminder_port) \<Rightarrow> (nat \<Rightarrow> delivery_lease \<Rightarrow> 's \<Rightarrow> inline_button list \<times> 's)
      \<Rightarrow> (response \<Rightarrow> ('s, telegram_sent option) op) \<Rightarrow> worker \<Rightarrow> nat \<Rightarrow> 's \<Rightarrow> round list \<times> 's" where
  "delivery_rounds ports buttons send w 0 s = ([], s)"
| "delivery_rounds ports buttons send w (Suc n) s =
     (case delivery_round (ports n) (buttons n) send w s of
        (Inl _, s1) \<Rightarrow> ([], s1)
      | (Inr r, s1) \<Rightarrow>
         if r = Idle then ([r], s1)
         else (let (rs, s2) = delivery_rounds ports buttons send w n s1 in (r # rs, s2)))"

definition loop_turn ::
    "(nat \<Rightarrow> 's reminder_port) \<Rightarrow> (nat \<Rightarrow> delivery_lease \<Rightarrow> 's \<Rightarrow> inline_button list \<times> 's)
      \<Rightarrow> (response \<Rightarrow> ('s, telegram_sent option) op) \<Rightarrow> worker \<Rightarrow> 's \<Rightarrow> round list \<times> 's" where
  "loop_turn ports buttons send w s =
     (case rp_materialize (ports 100) 100 s of
        (Inl _, s1) \<Rightarrow> ([], s1)
      | (Inr _, s1) \<Rightarrow> delivery_rounds ports buttons send w 100 s1)"

text \<open>The first turns of \<open>run_reminder_loop\<close>; \<open>between\<close> is what happens while the loop sleeps.\<close>

fun reminder_loop ::
    "(nat \<Rightarrow> nat \<Rightarrow> 's reminder_port) \<Rightarrow> (nat \<Rightarrow> nat \<Rightarrow> delivery_lease \<Rightarrow> 's \<Rightarrow> inline_button list \<times> 's)
      \<Rightarrow> (response \<Rightarrow> ('s, telegram_sent option) op) \<Rightarrow> (nat \<Rightarrow> worker) \<Rightarrow> (nat \<Rightarrow> 's \<Rightarrow> 's) \<Rightarrow> nat \<Rightarrow> 's
      \<Rightarrow> round list \<times> 's" where
  "reminder_loop ports buttons send ws between 0 s = ([], s)"
| "reminder_loop ports buttons send ws between (Suc k) s =
     (let (rs, s1) = loop_turn (ports k) (buttons k) send (ws k) s;
          (rest, s2) = reminder_loop ports buttons send ws between k (between k s1)
      in (rs @ rest, s2))"

definition accepted :: "round \<Rightarrow> int option" where
  "accepted r = (case r of Reported l m True \<Rightarrow> Some (le_outbox l) | _ \<Rightarrow> None)"

definition acknowledged :: "round list \<Rightarrow> int list" where
  "acknowledged rs = List.map_filter accepted rs"

section \<open>The contract of the store\<close>

text \<open>
  What the worker needs: an invariant of the state and the leases handed out so far that every
  operation keeps, deliveries that are settled for good, a lease for a delivery that is not
  settled and under the token of its round, and a report that is only accepted by settling it.
\<close>

definition steady ::
    "('s \<Rightarrow> delivery_lease list \<Rightarrow> bool) \<Rightarrow> (int \<Rightarrow> 's \<Rightarrow> bool) \<Rightarrow> delivery_lease list \<Rightarrow> 's \<Rightarrow> 's \<Rightarrow> bool" where
  "steady safe settled ls s s' \<longleftrightarrow> safe s' ls \<and> (\<forall>n. settled n s \<longrightarrow> settled n s')"

definition disciplined ::
    "('s \<Rightarrow> delivery_lease list \<Rightarrow> bool) \<Rightarrow> (int \<Rightarrow> 's \<Rightarrow> bool) \<Rightarrow> ('s \<Rightarrow> 's) \<Rightarrow> bool" where
  "disciplined safe settled f \<longleftrightarrow> (\<forall>s ls. safe s ls \<longrightarrow> steady safe settled ls s (f s))"

locale delivery_store =
  fixes port :: "'i \<Rightarrow> 's reminder_port" and token :: "'i \<Rightarrow> pystr"
    and safe :: "'s \<Rightarrow> delivery_lease list \<Rightarrow> bool" and settled :: "int \<Rightarrow> 's \<Rightarrow> bool"
  assumes materialize_ok: "safe s ls \<Longrightarrow> steady safe settled ls s (snd (rp_materialize (port i) n s))"
    and lease_none: "safe s ls \<Longrightarrow> rp_lease (port i) s = (q, s') \<Longrightarrow> (\<And>l. q \<noteq> Inr (Some l)) \<Longrightarrow> steady safe settled ls s s'"
    and lease_some: "safe s ls \<Longrightarrow> token i \<notin> le_token ` set ls \<Longrightarrow> rp_lease (port i) s = (Inr (Some l), s') \<Longrightarrow>
      le_token l = token i \<and> safe s' (l # ls) \<and> (\<forall>n. settled n s \<longrightarrow> settled n s') \<and> \<not> settled (le_outbox l) s'"
    and report_ok: "safe s ls \<Longrightarrow> l \<in> set ls \<Longrightarrow> rp_sent (port i) l m s = (ok, s') \<Longrightarrow>
      steady safe settled ls s s' \<and> (ok = Inr True \<longrightarrow> settled (le_outbox l) s')"
    and release_ok: "safe s ls \<Longrightarrow> l \<in> set ls \<Longrightarrow> steady safe settled ls s (snd (rp_release (port i) l err delay s))"
begin

lemma round_result:
  assumes safe: "safe s ls" and new: "token i \<notin> le_token ` set ls"
    and b: "\<And>l. disciplined safe settled (\<lambda>s. snd (buttons l s))" and p: "\<And>r. disciplined safe settled (\<lambda>s. snd (send r s))"
    and run: "delivery_round (port i) buttons send w s = (q, s')"
  obtains ls' where "safe s' ls'" "le_token ` set ls' \<subseteq> insert (token i) (le_token ` set ls)"
    "\<And>n. settled n s \<Longrightarrow> settled n s'"
    "\<And>r n. q = Inr r \<Longrightarrow> accepted r = Some n \<Longrightarrow> \<not> settled n s \<and> settled n s'"
proof (cases "\<exists>l s1. rp_lease (port i) s = (Inr (Some l), s1)")
  case False
  then have l: "\<And>l. fst (rp_lease (port i) s) \<noteq> Inr (Some l)" by (metis prod.collapse)
  have "steady safe settled ls s s'" "\<And>r. q = Inr r \<Longrightarrow> accepted r = None"
    using run l lease_none [OF safe prod.collapse [symmetric] l]
    by (auto simp: delivery_round_def accepted_def split: prod.splits sum.splits option.splits)
  then show ?thesis by (intro that [of ls]) (auto simp: steady_def)
next
  case True
  then obtain l s1 where l: "rp_lease (port i) s = (Inr (Some l), s1)" by blast
  note L = lease_some [OF safe new l]
  note result = that
  have keep: "thesis" if "steady safe settled (l # ls) s1 s'" "\<And>r n. q = Inr r \<Longrightarrow> accepted r = Some n \<Longrightarrow> n = le_outbox l \<and> settled n s'"
    by (rule result [of "l # ls"]) (use that L in \<open>auto simp: steady_def\<close>)
  obtain bs s2 where bs: "buttons l s1 = (bs, s2)" by force
  obtain a s3 where a: "send (reminder_response l bs) s2 = (a, s3)" by force
  have s2: "steady safe settled (l # ls) s1 s2" using b [unfolded disciplined_def] L bs by (metis snd_conv)
  then have s3: "steady safe settled (l # ls) s1 s3"
    using p [unfolded disciplined_def, rule_format, of s2 "l # ls" "reminder_response l bs"] a by (simp add: steady_def)
  then have I3: "safe s3 (l # ls)" by (simp add: steady_def)
  show ?thesis
  proof (cases "(le_owner l, le_epoch l) \<in> set (wk_quiesced w) \<or> \<not> rp_current (port i) l s1")
    case True
    then have "q = Inr (Skipped l)" "s' = s1" using run by (simp_all add: delivery_round_def l)
    then show ?thesis using L by (intro keep) (auto simp: steady_def accepted_def)
  next
    case go: False
    show ?thesis
    proof (cases "valid_handle l a")
      case None
      then have "q = Inr (Unsent l)" "s' = snd (rp_release (port i) l (u ''telegram_unavailable'') (wk_retry w) s3)"
        using run go by (simp_all add: delivery_round_def l bs a)
      then show ?thesis using release_ok [OF I3, of l] s3 by (intro keep) (auto simp: steady_def accepted_def)
    next
      case (Some m)
      obtain x s4 where x: "rp_sent (port i) l m s3 = (x, s4)" by force
      have "s' = s4" "q = (case x of Inl e \<Rightarrow> Inl e | Inr ok \<Rightarrow> Inr (Reported l m ok))"
        using run go Some x by (auto simp: delivery_round_def l bs a split: sum.splits)
      then show ?thesis using report_ok [OF I3 _ x] s3
        by (intro keep) (auto simp: steady_def accepted_def split: sum.splits bool.splits)
    qed
  qed
qed

lemma rounds_result:
  assumes "safe s ls" and "\<And>k. k < n \<Longrightarrow> token (sched k) \<notin> le_token ` set ls" and "inj_on (\<lambda>k. token (sched k)) {..<n}"
    and b: "\<And>k l. disciplined safe settled (\<lambda>s. snd (buttons k l s))" and p: "\<And>r. disciplined safe settled (\<lambda>s. snd (send r s))"
    and "delivery_rounds (\<lambda>k. port (sched k)) buttons send w n s = (rs, s')"
  shows "\<exists>ls'. safe s' ls' \<and> le_token ` set ls' \<subseteq> le_token ` set ls \<union> (\<lambda>k. token (sched k)) ` {..<n}
    \<and> (\<forall>k. settled k s \<longrightarrow> settled k s') \<and> distinct (acknowledged rs)
    \<and> (\<forall>k \<in> set (acknowledged rs). \<not> settled k s \<and> settled k s')"
  using assms(1-3,6)
proof (induction n arbitrary: s ls rs)
  case 0
  then show ?case by (intro exI [of _ ls]) (auto simp: acknowledged_def)
next
  case (Suc n)
  obtain q s1 where q: "delivery_round (port (sched n)) (buttons n) send w s = (q, s1)" by force
  obtain ls1 where R: "safe s1 ls1" "le_token ` set ls1 \<subseteq> insert (token (sched n)) (le_token ` set ls)"
    "\<And>k. settled k s \<Longrightarrow> settled k s1"
    "\<And>r k. q = Inr r \<Longrightarrow> accepted r = Some k \<Longrightarrow> \<not> settled k s \<and> settled k s1"
    by (rule round_result [OF Suc.prems(1) _ b p q]) (use Suc.prems(2) in auto)
  have sub: "le_token ` set ls1 \<subseteq> le_token ` set ls \<union> (\<lambda>k. token (sched k)) ` {..<Suc n}" using R(2) by auto
  show ?case
  proof (cases "\<exists>r. q = Inr r \<and> r \<noteq> Idle")
    case False
    then have "s' = s1" "acknowledged rs = []"
      using Suc.prems(4) q by (auto simp: acknowledged_def accepted_def split: sum.splits if_splits)
    then show ?thesis using R sub by (intro exI [of _ ls1]) auto
  next
    case True
    then obtain r where r: "q = Inr r" "r \<noteq> Idle" by blast
    with Suc.prems(4) q obtain rs2 where rs: "delivery_rounds (\<lambda>k. port (sched k)) buttons send w n s1 = (rs2, s')"
      "rs = r # rs2" by (auto split: prod.splits)
    have new: "token (sched k) \<notin> le_token ` set ls1" if "k < n" for k
    proof -
      have "token (sched k) \<noteq> token (sched n)" using that inj_onD [OF Suc.prems(3), of k n] by auto
      then show ?thesis using R(2) Suc.prems(2) [of k] that by auto
    qed
    have "inj_on (\<lambda>k. token (sched k)) {..<n}" using Suc.prems(3) by (rule inj_on_subset) auto
    from Suc.IH [OF R(1) new this rs(1)] obtain ls2 where I: "safe s' ls2"
      "le_token ` set ls2 \<subseteq> le_token ` set ls1 \<union> (\<lambda>k. token (sched k)) ` {..<n}"
      "\<forall>k. settled k s1 \<longrightarrow> settled k s'" "distinct (acknowledged rs2)"
      "\<forall>k \<in> set (acknowledged rs2). \<not> settled k s1 \<and> settled k s'" by blast
    have "le_token ` set ls2 \<subseteq> le_token ` set ls \<union> (\<lambda>k. token (sched k)) ` {..<Suc n}"
      using I(2) sub by (auto simp: lessThan_Suc)
    moreover have "distinct (acknowledged rs) \<and> (\<forall>k \<in> set (acknowledged rs). \<not> settled k s \<and> settled k s')"
      using I(3-5) R(3) R(4) [OF r(1)] unfolding rs(2)
      by (cases "accepted r") (auto simp: acknowledged_def map_filter_Cons)
    ultimately show ?thesis using I(1,3) R(3) by blast
  qed
qed

lemma loop_result:
  assumes "safe s ls" and "\<And>j k. j < n \<Longrightarrow> token (sched j k) \<notin> le_token ` set ls" and "inj (\<lambda>(j, k). token (sched j k))"
    and b: "\<And>j k l. disciplined safe settled (\<lambda>s. snd (buttons j k l s))" and p: "\<And>r. disciplined safe settled (\<lambda>s. snd (send r s))"
    and e: "\<And>j. disciplined safe settled (between j)"
    and "reminder_loop (\<lambda>j k. port (sched j k)) buttons send ws between n s = (rs, s')"
  shows "(\<exists>ls'. safe s' ls') \<and> distinct (acknowledged rs) \<and> (\<forall>k \<in> set (acknowledged rs). \<not> settled k s \<and> settled k s')
    \<and> (\<forall>k. settled k s \<longrightarrow> settled k s')"
  using assms(1,2,7)
proof (induction n arbitrary: s ls rs)
  case 0
  then show ?case by (auto simp: acknowledged_def)
next
  case (Suc n)
  obtain x s0 where x: "rp_materialize (port (sched n 100)) 100 s = (x, s0)" by force
  obtain rs1 s1 where t: "loop_turn (\<lambda>k. port (sched n k)) (buttons n) send (ws n) s = (rs1, s1)" by force
  obtain rs2 where r2: "reminder_loop (\<lambda>j k. port (sched j k)) buttons send ws between n (between n s1) = (rs2, s')"
    and rs: "rs = rs1 @ rs2" using Suc.prems(3) t by (auto split: prod.splits)
  have m: "safe s0 ls" "\<And>k. settled k s \<Longrightarrow> settled k s0"
    using materialize_ok [OF Suc.prems(1), of "sched n 100" 100] x by (simp_all add: steady_def)
  have eq: "token (sched j k) = token (sched j' k') \<longleftrightarrow> j = j' \<and> k = k'" for j k j' k'
    using inj_eq [OF assms(3), of "(j, k)" "(j', k')"] by simp
  have "\<exists>ls1. safe s1 ls1 \<and> le_token ` set ls1 \<subseteq> le_token ` set ls \<union> (\<lambda>k. token (sched n k)) ` {..<100}
    \<and> (\<forall>k. settled k s0 \<longrightarrow> settled k s1) \<and> distinct (acknowledged rs1)
    \<and> (\<forall>k \<in> set (acknowledged rs1). \<not> settled k s0 \<and> settled k s1)"
  proof (cases x)
    case (Inl err)
    then have "rs1 = []" "s1 = s0" using t x by (simp_all add: loop_turn_def)
    then show ?thesis using m by (intro exI [of _ ls]) (auto simp: acknowledged_def)
  next
    case (Inr y)
    then have "delivery_rounds (\<lambda>k. port (sched n k)) (buttons n) send (ws n) 100 s0 = (rs1, s1)"
      using t x by (simp add: loop_turn_def)
    then show ?thesis by (intro rounds_result [OF m(1) _ _ b p]) (use Suc.prems(2) in \<open>auto simp: eq inj_on_def\<close>)
  qed
  then obtain ls1 where R: "safe s1 ls1" "le_token ` set ls1 \<subseteq> le_token ` set ls \<union> (\<lambda>k. token (sched n k)) ` {..<100}"
    "\<And>k. settled k s0 \<Longrightarrow> settled k s1" "distinct (acknowledged rs1)"
    "\<And>k. k \<in> set (acknowledged rs1) \<Longrightarrow> \<not> settled k s0 \<and> settled k s1" by blast
  have B: "safe (between n s1) ls1" "\<And>k. settled k s1 \<Longrightarrow> settled k (between n s1)"
    using e [of n] R(1) by (simp_all add: disciplined_def steady_def)
  have new: "token (sched j k) \<notin> le_token ` set ls1" if "j < n" for j k
  proof
    assume "token (sched j k) \<in> le_token ` set ls1"
    with R(2) Suc.prems(2) [of j k] that obtain k' where "token (sched j k) = token (sched n k')" by auto
    with eq that show False by simp
  qed
  note I = Suc.IH [OF B(1) new r2]
  have "distinct (acknowledged rs) \<and> (\<forall>k \<in> set (acknowledged rs). \<not> settled k s \<and> settled k s')"
    using I R(3-5) B(2) m(2) by (auto simp: rs acknowledged_def map_filter_append)
  with I R(3) B(2) m(2) show ?case by blast
qed

end

section \<open>The reminder store meets the contract\<close>

definition store_safe :: "db \<Rightarrow> delivery_lease list \<Rightarrow> bool" where
  "store_safe s ls \<longleftrightarrow> sys_inv (s, ls)"

definition settled_row :: "int \<Rightarrow> db \<Rightarrow> bool" where
  "settled_row n s \<longleftrightarrow> (\<exists>ob \<in> set (outboxes s). o_id ob = n \<and> closed_box ob)"

lemma settled_row_kept:
  assumes "closed_kept s s'" and "o_owner ` set (outboxes s) \<subseteq> o_owner ` set (outboxes s')" and "settled_row n s"
  shows "settled_row n s'"
proof -
  obtain ob where ob: "ob \<in> set (outboxes s)" "o_id ob = n" "closed_box ob" using assms(3) by (auto simp: settled_row_def)
  then have "o_owner ob \<in> o_owner ` set (outboxes s')" using assms(2) by blast
  then have "ob \<in> set (outboxes s')" using assms(1) ob unfolding closed_kept_def by (metis imageE)
  with ob show ?thesis by (auto simp: settled_row_def)
qed

lemma steady_same: "same_reminders s s' \<Longrightarrow> store_safe s ls \<Longrightarrow> steady store_safe settled_row ls s s'"
  using reminder_step_good [OF reminder_step.other, of s s' ls]
  by (auto simp: steady_def store_safe_def settled_row_def same_reminders_def)

lemma steady_good:
  assumes "store_safe s ls" and "sys_inv (s', ls) \<and> closed_kept s s'"
    and "o_owner ` set (outboxes s) \<subseteq> o_owner ` set (outboxes s')"
  shows "steady store_safe settled_row ls s s'"
  using assms settled_row_kept by (auto simp: steady_def store_safe_def)

lemma owners_set: "map o_owner xs = map o_owner ys \<Longrightarrow> o_owner ` set xs = o_owner ` set ys"
  by (metis set_map)

lemma owners_expired: "expired_from now s s' \<Longrightarrow> map o_owner (outboxes s') = map o_owner (outboxes s)"
  by (induction rule: expired_from.induct) (auto simp: map_update_where)

lemma owners_written [simp]:
  "map o_owner (outboxes (commit_sent l m now s)) = map o_owner (outboxes s)"
  "outboxes (record_external_commit l now s) = outboxes s"
  "map o_owner (outboxes (release_outbox l ost rst available err now s)) = map o_owner (outboxes s)"
  "map o_owner (outboxes (grant_outbox now lu token ob s)) = map o_owner (outboxes s)"
  by (simp_all add: commit_sent_def record_external_commit_def release_outbox_def outboxes_grant granted_row_def map_update_where)

lemma owners_sent: "mark_delivery_sent now l m s = (r, s') \<Longrightarrow> map o_owner (outboxes s') = map o_owner (outboxes s)"
  by (auto simp: mark_delivery_sent_def transaction_def guardE_def split: if_splits option.splits)

lemma owners_release:
  "release_delivery now l err delay s = (r, s') \<Longrightarrow> map o_owner (outboxes s') = map o_owner (outboxes s)"
  by (auto simp: release_delivery_def transaction_def guardE_def bindE_def split: if_splits sum.splits option.splits)

lemma commit_settles:
  assumes "ob \<in> set (outboxes s)" "o_id ob = le_outbox l" "o_token ob = Some (le_token l)" "o_status ob = O_Leased"
  shows "settled_row (le_outbox l) (commit_sent l m now s)"
proof -
  let ?f = "\<lambda>ob. ob\<lparr>o_status := O_Sent, o_message := Some m, o_until := None, o_updated := now\<rparr>"
  have "?f ob \<in> set (outboxes (commit_sent l m now s))"
    unfolding commit_sent_def by simp (rule update_where_mem, use assms in simp_all)
  then show ?thesis using assms unfolding settled_row_def by (intro bexI [of _ "?f ob"]) (simp_all add: closed_box_def)
qed

interpretation worker_store: delivery_store "\<lambda>(now, later, token). store_port zones now later token"
  "\<lambda>(now, later, token). token" store_safe settled_row
proof (unfold_locales, goal_cases)
  case (1 s ls i n)
  obtain now later token where i: "i = (now, later, token)" by (cases i)
  obtain r s' where m: "materialize_due zones now n s = (r, s')" by force
  have I: "reminder_inv s" using 1 by (simp add: store_safe_def sys_inv_def)
  have "o_owner ` set (outboxes s) \<subseteq> o_owner ` set (outboxes s')"
  proof (cases r)
    case (Inl e)
    with m show ?thesis by (auto simp: materialize_due_def transaction_Inl)
  next
    case (Inr rs)
    from materialize_due_Inr [OF I m [unfolded Inr]] show ?thesis by auto
  qed
  then show ?case using 1 reminder_step_good [OF reminder_step.materialize [OF m], of ls]
    by (auto simp: i store_port_def m store_safe_def intro: steady_good)
next
  case (2 s ls i q s')
  obtain now later token where i: "i = (now, later, token)" by (cases i)
  have I: "reminder_inv s" using 2(1) by (simp add: store_safe_def sys_inv_def)
  from lease_delivery_cases [OF I, of now token 60] 2(2,3) show ?case
  proof (elim disjE exE conjE)
    fix s0 assume "expired_from now s s0" "lease_delivery now token 60 s = (Inr None, s0)"
    then show ?thesis using 2 reminder_step_good [OF reminder_step.lease_none [of now token 60 s s0], of ls] owners_set [OF owners_expired]
      by (auto simp: i store_port_def store_safe_def intro: steady_good)
  qed (use 2(1) in \<open>auto simp: i store_port_def steady_def\<close>)
next
  case (3 s ls i l s')
  obtain now later token where i: "i = (now, later, token)" by (cases i)
  have I: "reminder_inv s" using 3(1) by (simp add: store_safe_def sys_inv_def)
  have run: "lease_delivery now token 60 s = (Inr (Some l), s')" using 3(3) by (simp add: i store_port_def)
  have new: "token \<notin> le_token ` set ls" using 3(2) by (simp add: i)
  note G = lease_delivery_step [OF 3(1) [unfolded store_safe_def] new run]
  from lease_delivery_cases [OF I, of now token 60] run
  obtain s0 ob j lu where e: "expired_from now s s0" and n: "next_eligible now s0 = Some ob"
    and l: "l = lease_of lu token ob j" and s': "s' = grant_outbox now lu token ob s0" by auto
  have own: "o_owner ` set (outboxes s) \<subseteq> o_owner ` set (outboxes s')"
    using owners_set [of "outboxes s'" "outboxes s"] by (simp add: s' owners_expired [OF e])
  have I0: "reminder_inv s0" using expired_from_inv [OF e I] by simp
  have "\<not> closed_box x" if "x \<in> set (outboxes s')" "o_id x = o_id ob" for x
    using outboxes_grant_mem [OF I0 next_eligible_Some(1) [OF n] that(1) [unfolded s']] that(2)
    by (auto simp: granted_row_def closed_box_def)
  then have "\<not> settled_row (le_outbox l) s'" by (auto simp: settled_row_def l lease_of_def)
  moreover have "le_token l = token" by (simp add: l lease_of_def)
  ultimately show ?case using G settled_row_kept [OF _ own] by (auto simp: i store_safe_def)
next
  case (4 s ls l i m ok s')
  obtain now later token where i: "i = (now, later, token)" by (cases i)
  have run: "mark_delivery_sent later l m s = (ok, s')" using 4(3) by (simp add: i store_port_def)
  have I: "reminder_inv s" "leases_ok s ls" using 4(1) by (simp_all add: store_safe_def sys_inv_def)
  have "settled_row (le_outbox l) s'" if "ok = Inr True"
    using mark_delivery_sent_cases [OF I 4(2) run] that
    by (auto simp: commit_settles) (auto simp: settled_row_def closed_box_def)
  then show ?case using 4(1) reminder_step_good [OF reminder_step.sent [OF 4(2) run]] owners_set [OF owners_sent [OF run]]
    by (auto simp: store_safe_def intro: steady_good)
next
  case (5 s ls l i err delay)
  obtain now later token where i: "i = (now, later, token)" by (cases i)
  obtain r s' where run: "release_delivery later l err delay s = (r, s')" by force
  then show ?case using 5 reminder_step_good [OF reminder_step.release [OF 5(2) run]] owners_set [OF owners_release [OF run]]
    by (auto simp: i store_port_def run store_safe_def intro: steady_good)
qed

lemma request_same: "same_reminders s (snd (request_confirmation h ttl now token owner action payload s))"
  by (auto simp: request_confirmation_def create_confirmation_def transaction_def same_reminders_def result_simps Let_def
      split: sum.splits)

lemma make_buttons_same:
  assumes "\<And>t a p s. same_reminders s (snd (request t a p s))"
  shows "same_reminders s (snd (make_buttons request as ts s))"
  using assms
proof (induction request as ts s rule: make_buttons.induct)
  case (1 request label action payload as token tokens s)
  obtain q s1 where q: "request token action payload s = (q, s1)" by force
  have "same_reminders s s1" using 1(2) [of s token action payload] q by simp
  moreover have "same_reminders s1 (snd (make_buttons request as tokens s1))" by (rule 1(1) [OF q [symmetric] refl 1(2)])
  ultimately show ?case using q by (auto simp: same_reminders_def split: prod.splits)
qed (simp_all add: same_reminders_def)

lemma action_buttons_disciplined: "disciplined store_safe settled_row (\<lambda>s. snd (action_buttons h ttl now tokens l s))"
  unfolding disciplined_def action_buttons_def by (intro allI impI steady_same make_buttons_same request_same)

lemma request_frame: "profiles (snd (request_confirmation h ttl now token owner action payload s)) = profiles s"
  by (auto simp: request_confirmation_def create_confirmation_def transaction_def result_simps Let_def split: sum.splits)

lemma make_buttons_profiles:
  assumes "\<And>t a p s. profiles (snd (request t a p s)) = profiles s"
  shows "profiles (snd (make_buttons request as ts s)) = profiles s"
  using assms
proof (induction request as ts s rule: make_buttons.induct)
  case (1 request label action payload as token tokens s)
  obtain q s1 where q: "request token action payload s = (q, s1)" by force
  have "profiles s1 = profiles s" using 1(2) [of token action payload s] q by simp
  moreover have "profiles (snd (make_buttons request as tokens s1)) = profiles s1" by (rule 1(1) [OF q [symmetric] refl 1(2)])
  ultimately show ?case using q by (auto split: prod.splits)
qed simp_all

lemma action_buttons_frame:
  "outboxes (snd (action_buttons h ttl now tokens l s)) = outboxes s"
  "profiles (snd (action_buttons h ttl now tokens l s)) = profiles s"
  unfolding action_buttons_def
  using make_buttons_same [of "\<lambda>token. request_confirmation h ttl now token (le_owner l)" s, OF request_same]
  by (simp_all add: make_buttons_profiles request_frame same_reminders_def)

text \<open>What other connections do is disciplined as long as no owner is purged.\<close>

lemma same_reminders_disciplined: "(\<And>s. same_reminders s (f s)) \<Longrightarrow> disciplined store_safe settled_row f"
  unfolding disciplined_def using steady_same by blast

section \<open>Properties\<close>

text \<open>
C18: No reminder is acknowledged twice. Over any number of turns of the delivery loop, started in any
reachable state, with the store behind the worker, fresh lease tokens and other connections working
while messages are sent and while the loop sleeps (without purging an owner), the deliveries whose
report is accepted are distinct outbox rows; none was closed before and every one is closed after.
\<close>
theorem no_reminder_acknowledged_twice:
  assumes "reminder_reachable zones (s, ls)" and "inj (\<lambda>(j, k). token j k)" and "\<And>j k. token j k \<notin> le_token ` set ls"
    and "\<And>r. disciplined store_safe settled_row (\<lambda>s. snd (send r s))"
    and "\<And>j. disciplined store_safe settled_row (between j)"
    and "reminder_loop (\<lambda>j k. store_port zones (now j k) (later j k) (token j k))
      (\<lambda>j k. action_buttons h ttl (now j k) (codes j k)) send ws between n s = (rs, s')"
  shows "distinct (acknowledged rs)
    \<and> (\<forall>k \<in> set (acknowledged rs). \<not> settled_row k s \<and> settled_row k s')"
  using worker_store.loop_result [of s ls n "\<lambda>j k. (now j k, later j k, token j k)"
      "\<lambda>j k. action_buttons h ttl (now j k) (codes j k)" send between zones ws rs s']
    assms(2-6) action_buttons_disciplined reachable_sys_inv [OF assms(1)]
  by (simp add: store_safe_def)

text \<open>The row of a lease just granted, as the store leaves it.\<close>

lemma granted_lease:
  assumes "reminder_reachable zones (s, ls)" and "lease_delivery now token secs s = (Inr (Some l), s1)"
  obtains ob where "ob \<in> set (outboxes s)" "o_attempt ob < 3" "le_outbox l = o_id ob" "le_text l = o_text ob" "le_chat l = o_chat ob"
    "le_token l = token" "granted_row now (now + seconds secs) token ob \<in> set (outboxes s1)" "le_owner l = o_owner ob"
    "le_epoch l = o_epoch ob" "owner_current (o_owner ob) (o_epoch ob) s1" "distinct (map o_id (outboxes s1))"
proof -
  obtain s0 ob j where *: "expired_from now s s0" "next_eligible now s0 = Some ob" "l = lease_of (now + seconds secs) token ob j"
    "s1 = grant_outbox now (now + seconds secs) token ob s0" "ob \<in> set (outboxes s)" "eligible now s ob" "reminder_inv s0"
    by (rule leased_from [OF assms]) blast
  have "profiles s1 = profiles s" using expired_from_inv [OF *(1) reachable_inv(1) [OF assms(1)]]
    by (simp add: *(4) grant_outbox_def set_open_run_def set_outbox_def)
  moreover have "granted_row now (now + seconds secs) token ob \<in> set (outboxes s1)"
    unfolding *(4) using next_eligible_Some(1) [OF *(2)] by (rule granted_row_mem)
  moreover have "distinct (map o_id (outboxes s1))"
    using reminder_invD(5) [OF *(7)] by (simp add: *(4) outboxes_grant granted_row_def map_update_where)
  ultimately show thesis using *(3,5,6)
    by (intro that [of ob]) (simp_all add: lease_of_def eligible_def owner_current_def max_delivery_attempts_def)
qed

lemma rewritten_row:
  "outboxes s' = update_where P f (outboxes s) \<Longrightarrow> x \<in> set (outboxes s) \<Longrightarrow> P x \<Longrightarrow> f x \<in> set (outboxes s')"
  using update_where_mem by metis

lemma granted_current:
  assumes "x \<in> set (outboxes s)" "o_id x = le_outbox l" "o_owner x = le_owner l" "o_epoch x = le_epoch l"
    "o_token x = Some (le_token l)" "o_status x = O_Leased" "owner_current (o_owner x) (o_epoch x) s"
  shows "delivery_is_current l s"
  using assms by (auto simp: delivery_is_current_def list_ex_iff intro!: bexI [of _ x])

lemma report_accepted:
  assumes "x \<in> set (outboxes s)" "o_id x = le_outbox l" "o_owner x = le_owner l" "o_epoch x = le_epoch l"
    "o_token x = Some (le_token l)" "o_status x = O_Leased" "owner_current (o_owner x) (o_epoch x) s"
    "distinct (map o_id (outboxes s))" "0 < m"
  shows "mark_delivery_sent now l m s = (Inr True, commit_sent l m now s)"
proof -
  have "outbox_of s (le_outbox l) = Some x" using row_by_unique [OF assms(8,1)] assms(2) by simp
  then show ?thesis using assms by (simp add: mark_delivery_sent_def transaction_def lease_matches_def token_text_def)
qed

lemma release_accepted:
  assumes "x \<in> set (outboxes s)" "o_id x = le_outbox l" "o_owner x = le_owner l" "o_epoch x = le_epoch l"
    "o_token x = Some (le_token l)" "o_status x = O_Leased" "owner_current (o_owner x) (o_epoch x) s"
    "distinct (map o_id (outboxes s))" "error_kind_ok err" "1 \<le> delay" "delay \<le> 3600" "valid_datetime (now + seconds delay)"
  shows "release_delivery now l err delay s = (Inr True,
    if o_attempt x < 3 then release_outbox l O_Pending R_Due (now + seconds delay) err now s
    else release_outbox l O_Failed R_Failed (o_available x) err now s)"
proof -
  let ?P = "\<lambda>ob. o_id ob = le_outbox l \<and> o_token ob = Some (le_token l) \<and> o_status ob = O_Leased
    \<and> profile_of s (o_owner ob) \<noteq> None"
  have "profile_of s (o_owner x) \<noteq> None" using assms(7) by (auto simp: owner_current_def split: option.splits)
  with assms(2,5,6) have "?P x" by simp
  from find_exists [where P = ?P, OF assms(1) this] obtain y where y: "find ?P (outboxes s) = Some y" ..
  from find_SomeD [OF y] have "y \<in> set (outboxes s)" "o_id y = o_id x" using assms(2) by simp_all
  then have "y = x" by (intro distinct_map_unique [OF assms(8) _ assms(1)])
  then have row: "leased_row l s = Some x" using y by (simp add: leased_row_def)
  have cur: "owner_current (o_owner x) (le_epoch l) s" using assms(4,7) by simp
  have delay: "\<not> (delay < 1 \<or> 3600 < delay)" using assms(10,11) by simp
  show ?thesis
    by (simp add: release_delivery_def transaction_def max_delivery_attempts_def datetime_add_def row cur delay assms(9,12))
qed

text \<open>
A round of the worker. In a reachable state, with nobody else touching reminders and profiles while
the message is sent: when the round finds nothing to do, no delivery is left that could be leased;
a delivery is only skipped for an owner whose epoch was quiesced; a port that answers with a handle
of the chat makes the report accepted, and the row is sent under that message; any other answer
gives the row back for the retry delay, or fails it at the third attempt.
\<close>
theorem delivery_round_outcome:
  assumes "reminder_reachable zones (s, ls)" and "make_worker retry = Inr w0" "wk_retry w = retry"
    and "valid_datetime (later + seconds retry)"
    and "\<And>r s. same_reminders s (snd (send r s)) \<and> profiles (snd (send r s)) = profiles s"
    and "delivery_round (store_port zones now later token) (action_buttons h ttl now codes) send w s = (Inr r, s')"
  shows "case r of
      Idle \<Rightarrow> \<forall>ob \<in> set (outboxes s'). \<not> eligible now s' ob
    | Skipped l \<Rightarrow> (le_owner l, le_epoch l) \<in> set (wk_quiesced w)
    | Reported l m ok \<Rightarrow> ok \<and> (\<exists>x \<in> set (outboxes s'). o_id x = le_outbox l \<and> o_text x = le_text l
        \<and> o_chat x = le_chat l \<and> o_status x = O_Sent \<and> o_message x = Some m)
    | Unsent l \<Rightarrow> \<exists>x \<in> set (outboxes s'). o_id x = le_outbox l \<and> o_text x = le_text l
        \<and> (if o_attempt x < 3 then o_status x = O_Pending \<and> o_available x = later + seconds retry
           else o_status x = O_Failed)"
proof -
  note inv = reachable_inv(1) [OF assms(1)]
  show ?thesis
  proof (cases "\<exists>l s1. lease_delivery now token 60 s = (Inr (Some l), s1)")
    case False
    then have "r = Idle" "lease_delivery now token 60 s = (Inr None, s')"
      using assms(6) by (auto simp: delivery_round_def store_port_def split: prod.splits sum.splits option.splits)
    then show ?thesis using lease_delivery_cases [OF inv, of now token 60] by (auto simp: next_eligible_None)
  next
    case True
    then obtain l s1 where run: "lease_delivery now token 60 s = (Inr (Some l), s1)" by blast
    obtain ob where ob: "o_attempt ob < 3" "le_outbox l = o_id ob" "le_text l = o_text ob" "le_chat l = o_chat ob"
      "le_token l = token" "granted_row now (now + seconds 60) token ob \<in> set (outboxes s1)" "le_owner l = o_owner ob"
      "le_epoch l = o_epoch ob" "owner_current (o_owner ob) (o_epoch ob) s1" "distinct (map o_id (outboxes s1))"
      by (rule granted_lease [OF assms(1) run]) blast
    define x where "x = granted_row now (now + seconds 60) token ob"
    have x: "o_id x = le_outbox l" "o_owner x = le_owner l" "o_epoch x = le_epoch l" "o_token x = Some (le_token l)"
      "o_status x = O_Leased" "o_text x = le_text l" "o_chat x = le_chat l"
      using ob by (simp_all add: x_def granted_row_def)
    have cur: "delivery_is_current l s1"
      by (rule granted_current [of x]) (use ob x in \<open>simp_all add: x_def [symmetric]\<close>)
    obtain bs s2 where bs: "action_buttons h ttl now codes l s1 = (bs, s2)" by force
    obtain a s3 where a: "send (reminder_response l bs) s2 = (a, s3)" by force
    have "outboxes s2 = outboxes s1" "profiles s2 = profiles s1" using action_buttons_frame [of h ttl now codes l s1] bs by simp_all
    then have s3: "outboxes s3 = outboxes s1" "profiles s3 = profiles s1"
      using assms(5) [of s2 "reminder_response l bs"] a by (simp_all add: same_reminders_def)
    then have o3: "x \<in> set (outboxes s3)" "owner_current (o_owner x) (o_epoch x) s3" "distinct (map o_id (outboxes s3))"
      using ob x by (simp_all add: x_def [symmetric] owner_current_def)
    consider (skip) "(le_owner l, le_epoch l) \<in> set (wk_quiesced w)" "r = Skipped l"
      | (fail) "valid_handle l a = None" "r = Unsent l" "s' = snd (release_delivery later l (u ''telegram_unavailable'') retry s3)"
      | (send) m ok where "valid_handle l a = Some m" "r = Reported l m ok" "mark_delivery_sent later l m s3 = (Inr ok, s')"
      using assms(3,6) cur bs a
      by (auto simp: delivery_round_def store_port_def run split: prod.splits sum.splits option.splits if_splits)
    then show ?thesis
    proof cases
      case (send m ok)
      have "0 < m" using send(1) by (auto simp: valid_handle_def split: sum.splits option.splits if_splits)
      with report_accepted [OF o3(1) x(1-5) o3(2,3)] send(3) have "ok" "s' = commit_sent l m later s3" by auto
      moreover have "x\<lparr>o_status := O_Sent, o_message := Some m, o_until := None, o_updated := later\<rparr>
          \<in> set (outboxes (commit_sent l m later s3))"
        by (rule rewritten_row [where s = s3 and P = "\<lambda>ob. o_id ob = le_outbox l \<and> o_token ob = Some (le_token l) \<and> o_status ob = O_Leased"
              and f = "\<lambda>ob. ob\<lparr>o_status := O_Sent, o_message := Some m, o_until := None, o_updated := later\<rparr>"])
          (use x o3 in \<open>simp_all add: commit_sent_def\<close>)
      ultimately show ?thesis using send(2) x by (auto intro!: bexI [rotated])
    next
      case fail
      have k: "error_kind_ok (u ''telegram_unavailable'')" by code_simp
      have d: "1 \<le> retry" "retry \<le> 3600" using assms(2) by (auto simp: make_worker_def result_simps)
      note s' = fail(3) [unfolded release_accepted [OF o3(1) x(1-5) o3(2,3) k d assms(4)], simplified]
      show ?thesis
      proof (cases "o_attempt x < 3")
        case True
        have "x\<lparr>o_status := O_Pending, o_available := later + seconds retry, o_token := None, o_until := None,
            o_error := Some (u ''telegram_unavailable''), o_updated := later\<rparr> \<in> set (outboxes s')"
          by (rule rewritten_row [where s = s3 and P = "\<lambda>ob. o_id ob = le_outbox l"
                and f = "\<lambda>ob. ob\<lparr>o_status := O_Pending, o_available := later + seconds retry, o_token := None, o_until := None,
                  o_error := Some (u ''telegram_unavailable''), o_updated := later\<rparr>"])
            (use True s' x o3 in \<open>simp_all add: release_outbox_def\<close>)
        then show ?thesis using fail(2) x True by (auto intro!: bexI [rotated])
      next
        case False
        have "x\<lparr>o_status := O_Failed, o_available := o_available x, o_token := None, o_until := None,
            o_error := Some (u ''telegram_unavailable''), o_updated := later\<rparr> \<in> set (outboxes s')"
          by (rule rewritten_row [where s = s3 and P = "\<lambda>ob. o_id ob = le_outbox l"
                and f = "\<lambda>ob. ob\<lparr>o_status := O_Failed, o_available := o_available x, o_token := None, o_until := None,
                  o_error := Some (u ''telegram_unavailable''), o_updated := later\<rparr>"])
            (use False s' x o3 in \<open>simp_all add: release_outbox_def\<close>)
        then show ?thesis using fail(2) x False by (auto intro!: bexI [rotated])
      qed
    qed (simp)
  qed
qed

section \<open>A turn of the loop\<close>

definition demo_send :: "response \<Rightarrow> (db, telegram_sent option) op" where
  "demo_send r s = (Inr (Some \<lparr>sent_chat = rs_chat r, sent_message = 900\<rparr>), s)"

definition demo_worker :: worker where
  "demo_worker = \<lparr>wk_retry = 30, wk_quiesced = []\<rparr>"

definition demo_token :: "nat \<Rightarrow> nat \<Rightarrow> pystr" where
  "demo_token j k = (if j = 0 \<and> k = 99 then [84] else [j, k])"

lemma demo_no_buttons: "action_buttons h ttl now [] l s = ([], s)"
  by (simp add: action_buttons_def button_actions_def)

lemma demo_round:
  "delivery_round (store_port demo_zones 63771674460000000 63771674470000000 [84])
     (action_buttons demo_hashing 300 63771674460000000 []) demo_send demo_worker demo_due
   = (Inr (Reported demo_lease 900 True), demo_sent)"
proof -
  have "delivery_is_current demo_lease demo_leased"
    by (simp add: delivery_is_current_def owner_current_def demo_lease_def demo_eval)
  then show ?thesis
    by (simp add: delivery_round_def store_port_def demo_lease_step demo_no_buttons demo_send_def demo_worker_def
        reminder_response_def valid_handle_def demo_mark_sent)
qed

lemma demo_idle:
  "delivery_round (store_port demo_zones 63771674460000000 63771674470000000 t) buttons demo_send demo_worker demo_sent
   = (Inr Idle, demo_sent)"
proof -
  have "next_eligible 63771674460000000 demo_sent = None" by (simp add: next_eligible_None eligible_def demo_eval)
  then have "lease_delivery 63771674460000000 t 60 demo_sent = (Inr None, demo_sent)"
    by (simp add: lease_delivery_def transaction_def lease_loop.simps datetime_add_def valid_datetime_def seconds_def)
  then show ?thesis by (simp add: delivery_round_def store_port_def)
qed

lemma demo_loop:
  "reminder_loop (\<lambda>j k. store_port demo_zones 63771674460000000 63771674470000000 (demo_token j k))
     (\<lambda>j k. action_buttons demo_hashing 300 63771674460000000 []) demo_send (\<lambda>_. demo_worker) (\<lambda>_ s. s) 1 demo_due
   = ([Reported demo_lease 900 True, Idle], demo_sent)"
proof -
  have "due_jobs 63771674460000000 100 demo_due = []" by (simp add: due_jobs_def job_due_def next_of_def demo_eval)
  then have m: "materialize_due demo_zones 63771674460000000 100 demo_due = (Inr [], demo_due)"
    by (simp add: materialize_due_def transaction_def)
  have "delivery_rounds (\<lambda>k. store_port demo_zones 63771674460000000 63771674470000000 (demo_token 0 k))
      (\<lambda>k. action_buttons demo_hashing 300 63771674460000000 []) demo_send demo_worker (Suc (Suc 98)) demo_due
    = ([Reported demo_lease 900 True, Idle], demo_sent)"
    by (simp only: delivery_rounds.simps) (simp add: demo_round demo_idle demo_token_def)
  then have "loop_turn (\<lambda>k. store_port demo_zones 63771674460000000 63771674470000000 (demo_token 0 k))
      (\<lambda>k. action_buttons demo_hashing 300 63771674460000000 []) demo_send demo_worker demo_due
    = ([Reported demo_lease 900 True, Idle], demo_sent)"
    by (simp add: loop_turn_def store_port_def m)
  then show ?thesis unfolding One_nat_def by simp
qed

theorem no_reminder_acknowledged_twice_witness:
  "settled_row 1 demo_sent \<and> \<not> settled_row 1 demo_due"
proof -
  have "inj (\<lambda>(j, k). demo_token j k)" by (auto simp: inj_def demo_token_def split: if_splits)
  moreover have "disciplined store_safe settled_row (\<lambda>s. snd (demo_send r s))" for r
    by (rule same_reminders_disciplined) (simp add: demo_send_def same_reminders_def)
  moreover have "disciplined store_safe settled_row (\<lambda>s. s)"
    by (rule same_reminders_disciplined) (simp add: same_reminders_def)
  ultimately show ?thesis
    using no_reminder_acknowledged_twice [OF demo_reachable_due _ _ _ _ demo_loop]
    by (simp add: acknowledged_def accepted_def demo_lease_def)
qed

theorem delivery_round_outcome_witness:
  "\<exists>x \<in> set (outboxes demo_sent). o_id x = 1 \<and> o_status x = O_Sent \<and> o_message x = Some 900"
  using delivery_round_outcome [OF demo_reachable_due, of 30 demo_worker demo_worker 63771674470000000, OF _ _ _ _ demo_round]
  by (simp add: make_worker_def demo_worker_def seconds_def valid_datetime_def demo_send_def same_reminders_def demo_lease_def) blast

end
