(* ===== verification/Reset_Coordinator.thy ===== *)
theory Reset_Coordinator
  imports Reminder_Worker Session_Store Memory_Store
begin

text \<open>
  The reset of an owner's data, \<open>reset_coordinator.py\<close>, and the audit of \<open>security_audit.py\<close>. The
  coordinator works on the database together with the state \<open>'x\<close> its hooks also change; in the
  program (\<open>runtime.py\<close>) that is the delivery worker, whose \<open>quiesce\<close> is the quiesce hook, and the
  purge hook \<open>tasks\<close> is \<open>purge_owner\<close> of the reminder store. \<open>now\<close> is SQLite's \<open>datetime('now')\<close>.
\<close>

section \<open>The security audit\<close>

record audit_event =
  ae_owner :: int
  ae_epoch :: int
  ae_type :: pystr
  ae_capability :: pystr
  ae_hash :: "pystr option"
  ae_decision :: pystr
  ae_outcome :: pystr
  ae_started :: pystr
  ae_finished :: "pystr option"
  ae_created :: "pystr option"

text \<open>The checks of the table, in code points.\<close>

definition audit_refused :: "security_audit \<Rightarrow> bool" where
  "audit_refused a \<longleftrightarrow> sa_epoch a \<le> 0 \<or> sa_event a \<notin> {u ''reset_completed'', u ''network_request''}
     \<or> (case sa_hash a of None \<Rightarrow> False | Some h \<Rightarrow> length h \<noteq> 64)
     \<or> \<not> sql_nonblank (sa_capability a) \<or> 100 < length (sa_capability a)
     \<or> sa_decision a \<notin> {u ''allow'', u ''deny''}
     \<or> sa_outcome a \<notin> {u ''completed'', u ''success'', u ''blocked'', u ''failed''}"

definition insert_audit :: "security_audit \<Rightarrow> db \<Rightarrow> (unit \<times> db) result" where
  "insert_audit a s = guardE (audit_refused a) (IntegrityError ''CHECK constraint failed'')
     (Inr ((), s\<lparr>security_audits := security_audits s @ [a\<lparr>sa_id := next_rowid sa_id (security_audits s)\<rparr>]\<rparr>))"

definition record_audit :: "audit_event \<Rightarrow> (db, unit) op" where
  "record_audit e = transaction (insert_audit
     \<lparr>sa_id = 0, sa_owner = ae_owner e, sa_epoch = ae_epoch e, sa_event = ae_type e, sa_hash = ae_hash e,
       sa_capability = ae_capability e, sa_decision = ae_decision e, sa_outcome = ae_outcome e,
       sa_started = ae_started e, sa_finished = ae_finished e,
       sa_created = (case ae_created e of None \<Rightarrow> ae_started e
         | Some c \<Rightarrow> if c = [] then ae_started e else c)\<rparr>)"

text \<open>The row of a completed reset: the other columns have their defaults.\<close>

definition reset_audit :: "int \<Rightarrow> int \<Rightarrow> pystr \<Rightarrow> security_audit" where
  "reset_audit owner epoch now = \<lparr>sa_id = 0, sa_owner = owner, sa_epoch = epoch, sa_event = u ''reset_completed'',
     sa_hash = None, sa_capability = u ''reset'', sa_decision = u ''allow'', sa_outcome = u ''completed'',
     sa_started = [], sa_finished = None, sa_created = now\<rparr>"

section \<open>The coordinator\<close>

record reset_result =
  rr_owner :: int
  rr_previous :: int
  rr_epoch :: int

type_synonym 'x hook = "int \<Rightarrow> int \<Rightarrow> (db \<times> 'x, unit) op"

record 'x coordinator =
  co_required :: "pystr list"
  co_purge :: "(pystr \<times> 'x hook) list"
  co_quiesce :: "'x hook list"

definition new_coordinator :: "pystr list \<Rightarrow> 'x coordinator" where
  "new_coordinator required = \<lparr>co_required = required, co_purge = [], co_quiesce = []\<rparr>"

definition register_purge_hook :: "pystr \<Rightarrow> 'x hook \<Rightarrow> 'x coordinator \<Rightarrow> 'x coordinator result" where
  "register_purge_hook name hook c =
     guardE (name = [] \<or> name \<in> set (map fst (co_purge c))) (ValueError ''purge hook name is invalid or already registered'')
       (Inr (c\<lparr>co_purge := co_purge c @ [(name, hook)]\<rparr>))"

definition register_quiesce_hook :: "'x hook \<Rightarrow> 'x coordinator \<Rightarrow> 'x coordinator" where
  "register_quiesce_hook hook c = c\<lparr>co_quiesce := co_quiesce c @ [hook]\<rparr>"

definition missing_hooks :: "'x coordinator \<Rightarrow> pystr list" where
  "missing_hooks c = filter (\<lambda>n. n \<notin> set (map fst (co_purge c))) (co_required c)"

fun run_hooks :: "'x hook list \<Rightarrow> int \<Rightarrow> int \<Rightarrow> (db \<times> 'x, unit) op" where
  "run_hooks [] owner epoch w = (Inr (), w)"
| "run_hooks (h # hs) owner epoch w =
     (case h owner epoch w of
        (Inl e, w') \<Rightarrow> (Inl e, w')
      | (Inr _, w') \<Rightarrow> run_hooks hs owner epoch w')"

section \<open>The two transactions\<close>

definition begin_reset :: "int \<Rightarrow> (db, int) op" where
  "begin_reset owner = transaction (\<lambda>s.
     case profile_of s owner of
       None \<Rightarrow> Inl (KeyError ''owner profile not found'')
     | Some p \<Rightarrow>
        guardE (p_state p \<noteq> L_Active) (RuntimeError ''reset is already in progress'')
        (Inr (p_epoch p, s\<lparr>profiles := update_where
             (\<lambda>q. p_user q = owner \<and> p_epoch q = p_epoch p \<and> p_state q = L_Active)
             (\<lambda>q. q\<lparr>p_epoch := p_epoch p + 1, p_state := L_Reset\<rparr>) (profiles s),
           security_audits := delete_where (\<lambda>a. sa_owner a = owner) (security_audits s)\<rparr>)))"

definition owned_lanes :: "int \<Rightarrow> db \<Rightarrow> int list" where
  "owned_lanes owner s = remdups (map s_lane (filter (\<lambda>x. s_owner x = owner) (sessions s)))"

definition owned_conversations :: "int \<Rightarrow> db \<Rightarrow> int list" where
  "owned_conversations owner s = remdups (List.map_filter
     (\<lambda>x. if s_owner x = owner then map_option l_conversation (row_by l_id (lanes s) (s_lane x)) else None) (sessions s))"

definition drop_conversation :: "int \<Rightarrow> db \<Rightarrow> db" where
  "drop_conversation n s = s\<lparr>conversations := delete_where
     (\<lambda>c. cv_id c = n \<and> \<not> list_ex (\<lambda>l. l_conversation l = cv_id c) (lanes s)) (conversations s)\<rparr>"

definition purge_canonical :: "int \<Rightarrow> db \<Rightarrow> db" where
  "purge_canonical owner s =
     (let ls = owned_lanes owner s;
          cs = owned_conversations owner s;
          s1 = delete_memories (\<lambda>m. m_user m = owner) s;
          s2 = delete_relationships (\<lambda>r. re_user r = owner) s1;
          s3 = delete_sessions (\<lambda>x. s_owner x = owner) s2;
          s4 = fold (\<lambda>n. delete_lanes (\<lambda>l. l_id l = n)) ls s3;
          s5 = fold drop_conversation cs s4
      in s5\<lparr>profiles := update_where (\<lambda>p. p_user p = owner) (\<lambda>p. p\<lparr>p_timezone := u ''UTC''\<rparr>) (profiles s5)\<rparr>)"

definition finish_reset :: "pystr \<Rightarrow> int \<Rightarrow> int \<Rightarrow> (db, unit) op" where
  "finish_reset now owner epoch = transaction (\<lambda>s.
     bindE (insert_audit (reset_audit owner epoch now) (purge_canonical owner s)) (\<lambda>(_, s').
       Inr ((), s'\<lparr>profiles := update_where
         (\<lambda>p. p_user p = owner \<and> p_epoch p = epoch \<and> p_state p = L_Reset) (\<lambda>p. p\<lparr>p_state := L_Active\<rparr>) (profiles s')\<rparr>)))"

text \<open>An exception after the first transaction leaves its effect, and the hooks', in place.\<close>

definition reset :: "'x coordinator \<Rightarrow> pystr \<Rightarrow> int \<Rightarrow> (db \<times> 'x, reset_result) op" where
  "reset c now owner w =
     (if missing_hooks c \<noteq> [] then (Inl (RuntimeError ''reset purge hooks are not registered''), w)
      else case begin_reset owner (fst w) of
          (Inl e, s1) \<Rightarrow> (Inl e, (s1, snd w))
        | (Inr previous, s1) \<Rightarrow>
           (case run_hooks (co_quiesce c) owner previous (s1, snd w) of
              (Inl e, w2) \<Rightarrow> (Inl e, w2)
            | (Inr _, w2) \<Rightarrow>
               (case run_hooks (map snd (co_purge c)) owner (previous + 1) w2 of
                  (Inl e, w3) \<Rightarrow> (Inl e, w3)
                | (Inr _, w3) \<Rightarrow>
                   (case finish_reset now owner (previous + 1) (fst w3) of
                      (Inl e, s4) \<Rightarrow> (Inl e, (s4, snd w3))
                    | (Inr _, s4) \<Rightarrow>
                       (Inr \<lparr>rr_owner = owner, rr_previous = previous, rr_epoch = previous + 1\<rparr>, (s4, snd w3))))))"

text \<open>The coordinator of the program.\<close>

definition quiesce_worker :: "worker hook" where
  "quiesce_worker owner epoch w = (Inr (), (fst w, quiesce owner epoch (snd w)))"

definition purge_tasks :: "worker hook" where
  "purge_tasks owner epoch w = (case purge_owner owner epoch (fst w) of (r, s) \<Rightarrow> (r, (s, snd w)))"

definition bot_coordinator :: "worker coordinator result" where
  "bot_coordinator = register_purge_hook (u ''tasks'') purge_tasks
     (register_quiesce_hook quiesce_worker (new_coordinator [u ''tasks'']))"

section \<open>What is left\<close>






text \<open>A lane that is deleted takes its sessions along; deletions compose.\<close>

lemma delete_where_compose: "delete_where P (delete_where Q xs) = delete_where (\<lambda>x. Q x \<or> P x) xs"
  by (simp add: delete_where_def)

lemma delete_sessions_compose: "delete_sessions P (delete_sessions Q s) = delete_sessions (\<lambda>x. Q x \<or> P x) s"
proof -
  have g: "list_ex (\<lambda>x. Q x \<and> s_id x = n) (sessions s) \<or> list_ex (\<lambda>x. P x \<and> s_id x = n) (delete_where Q (sessions s))
      \<longleftrightarrow> list_ex (\<lambda>x. (Q x \<or> P x) \<and> s_id x = n) (sessions s)" for n
    by (auto simp: list_ex_iff delete_where_def)
  show ?thesis unfolding delete_sessions_def Let_def by (simp add: delete_where_compose g)
qed

lemma delete_lanes_compose: "delete_lanes P (delete_lanes Q s) = delete_lanes (\<lambda>l. Q l \<or> P l) s"
proof -
  have lanes: "lanes (delete_sessions R s) = lanes s" for R s by (simp add: delete_sessions_def Let_def)
  have move: "delete_sessions R (s\<lparr>lanes := ls\<rparr>) = (delete_sessions R s)\<lparr>lanes := ls\<rparr>" for R s ls
    by (simp add: delete_sessions_def Let_def)
  have g: "list_ex (\<lambda>l. Q l \<and> l_id l = s_lane x) (lanes s) \<or> list_ex (\<lambda>l. P l \<and> l_id l = s_lane x) (delete_where Q (lanes s))
      \<longleftrightarrow> list_ex (\<lambda>l. (Q l \<or> P l) \<and> l_id l = s_lane x) (lanes s)" for x
    by (auto simp: list_ex_iff delete_where_def)
  show ?thesis unfolding delete_lanes_def by (simp add: move delete_sessions_compose g delete_where_compose)
qed

lemma delete_none [simp]: "delete_sessions (\<lambda>_. False) s = s" "delete_lanes (\<lambda>_. False) s = s"
  by (simp_all add: delete_lanes_def delete_sessions_def Let_def list_ex_iff delete_where_def)

lemma fold_delete_lanes: "fold (\<lambda>n. delete_lanes (\<lambda>l. l_id l = n)) ns s = delete_lanes (\<lambda>l. l_id l \<in> set ns) s"
  by (induction ns arbitrary: s) (simp_all add: delete_lanes_compose)

lemma fold_drop_conversation: "fold drop_conversation ns s = s\<lparr>conversations := delete_where
     (\<lambda>c. cv_id c \<in> set ns \<and> \<not> list_ex (\<lambda>l. l_conversation l = cv_id c) (lanes s)) (conversations s)\<rparr>"
  by (induction ns arbitrary: s) (simp_all add: drop_conversation_def delete_where_compose conj_disj_distribR, simp add: delete_where_def)




section \<open>What a reset removes and what it keeps\<close>

lemma bot_coordinator_eq:
  "bot_coordinator = Inr \<lparr>co_required = [u ''tasks''], co_purge = [(u ''tasks'', purge_tasks)], co_quiesce = [quiesce_worker]\<rparr>"
  by (simp add: bot_coordinator_def register_purge_hook_def register_quiesce_hook_def new_coordinator_def u_def)






text \<open>A lane two users share: its closed session is of the user 8.\<close>

definition demo_owned :: db where
  "demo_owned = demo_sent\<lparr>lanes := [\<lparr>l_id = 1, l_conversation = 1, l_key = [75], l_identity = 1, l_version = None\<rparr>],
     conversations := [\<lparr>cv_id = 1, cv_chat = 70, cv_key = [75], cv_version = 1\<rparr>],
     sessions := [(demo_session 1 (Some 100))\<lparr>s_owner := 8\<rparr>, demo_session 2 None], turns := [demo_turn 1 1 User, demo_turn 2 2 User],
     memories := [demo_memory, demo_memory\<lparr>m_id := 2, m_user := 8\<rparr>]\<rparr>"



section \<open>A reset fences stale work\<close>

text \<open>
  Work of the owner that began before the reset carries the epoch it was read under. An operation
  is fenced when it takes effect only for an active owner still in that epoch.
\<close>

locale fenced_operation =
  fixes takes_effect :: "int \<Rightarrow> int \<Rightarrow> db \<Rightarrow> bool"
  assumes current: "takes_effect owner epoch s \<Longrightarrow> owner_current owner epoch s"
begin

lemma no_effect:
  assumes "profile_of s owner = Some p" and "epoch \<noteq> p_epoch p \<or> p_state p \<noteq> L_Active"
  shows "\<not> takes_effect owner epoch s"
  using current [of owner epoch s] assms by (auto simp: owner_current_def)

end

definition sends :: "int \<Rightarrow> int \<Rightarrow> db \<Rightarrow> bool" where
  "sends owner epoch s \<longleftrightarrow> (\<exists>l. le_owner l = owner \<and> le_epoch l = epoch \<and> delivery_is_current l s)"

definition reports :: "int \<Rightarrow> int \<Rightarrow> db \<Rightarrow> bool" where
  "reports owner epoch s \<longleftrightarrow> (\<exists>l now m s'. le_owner l = owner \<and> le_epoch l = epoch
     \<and> mark_delivery_sent now l m s = (Inr True, s'))"

definition activates :: "int \<Rightarrow> int \<Rightarrow> db \<Rightarrow> bool" where
  "activates owner epoch s \<longleftrightarrow> (\<exists>now n e ms r s'. extraction_of n owner s = Some e \<and> e_epoch e = epoch
     \<and> activate_extraction now n owner ms s = (Inr r, s'))"

definition finalizes :: "int \<Rightarrow> int \<Rightarrow> db \<Rightarrow> bool" where
  "finalizes owner epoch s \<longleftrightarrow> (\<exists>now n ts content m s'. get_summary n owner s = None
     \<and> finalize_commit now n owner epoch ts content s = (Inr m, s'))"

interpretation send_fence: fenced_operation sends
  by unfold_locales (auto simp: sends_def delivery_is_current_def list_ex_iff)

interpretation report_fence: fenced_operation reports
  by unfold_locales (auto simp: reports_def mark_delivery_sent_def transaction_Inr guardE_eq_Inr lease_matches_def
      split: option.splits if_splits)

lemma fenced_run_current:
  "fenced_run n owner st msg s = Inr e \<Longrightarrow> extraction_of n owner s = Some e \<and> owner_current owner (e_epoch e) s"
  by (auto simp: fenced_run_def owner_current_def guardE_eq_Inr split: option.splits)

interpretation activation_fence: fenced_operation activates
proof
  fix owner epoch s
  assume "activates owner epoch s"
  then obtain now n e ms r s' where "extraction_of n owner s = Some e" "e_epoch e = epoch"
    "activate_extraction now n owner ms s = (Inr r, s')" by (auto simp: activates_def)
  then show "owner_current owner epoch s"
    unfolding activate_extraction_def transaction_Inr bindE_eq_Inr by (auto dest!: fenced_run_current)
qed

interpretation finalization_fence: fenced_operation finalizes
  by unfold_locales (auto simp: finalizes_def finalize_commit_def transaction_Inr bindE_eq_Inr load_active_session_def
      guardE_eq_Inr owner_current_def split: option.splits if_splits)

text \<open>Hooks that leave the owner's profile alone, as those of the program do.\<close>

definition keeps_profile :: "int \<Rightarrow> 'x hook \<Rightarrow> bool" where
  "keeps_profile owner h \<longleftrightarrow> (\<forall>epoch w. profile_of (fst (snd (h owner epoch w))) owner = profile_of (fst w) owner)"

definition gentle :: "int \<Rightarrow> 'x coordinator \<Rightarrow> bool" where
  "gentle owner c \<longleftrightarrow> missing_hooks c = [] \<and> (\<forall>h \<in> set (co_quiesce c) \<union> snd ` set (co_purge c). keeps_profile owner h)"

lemma program_hooks: "keeps_profile owner quiesce_worker" "keeps_profile owner purge_tasks"
  by (auto simp: keeps_profile_def quiesce_worker_def purge_tasks_def purge_owner_def transaction_def guardE_def
      delete_tasks_def delete_jobs_def delete_runs_def Let_def split: option.split prod.split)

lemma bot_coordinator_gentle: "bot_coordinator = Inr c \<Longrightarrow> gentle owner c"
  by (auto simp: bot_coordinator_eq gentle_def missing_hooks_def program_hooks)

lemma run_hooks_profile:
  "\<forall>h \<in> set hs. keeps_profile owner h \<Longrightarrow> run_hooks hs owner epoch w = (r, w')
    \<Longrightarrow> profile_of (fst w') owner = profile_of (fst w) owner"
proof (induction hs arbitrary: w)
  case (Cons h hs)
  obtain q v where h: "h owner epoch w = (q, v)" by (rule prod.exhaust)
  have "profile_of (fst v) owner = profile_of (fst w) owner"
    using Cons.prems(1) h unfolding keeps_profile_def by (metis list.set_intros(1) snd_conv)
  with Cons h show ?case by (auto split: sum.splits)
qed simp

lemma purge_canonical_profiles:
  "profiles (purge_canonical owner s) = update_where (\<lambda>p. p_user p = owner) (\<lambda>p. p\<lparr>p_timezone := u ''UTC''\<rparr>) (profiles s)"
  by (simp add: purge_canonical_def Let_def fold_drop_conversation fold_delete_lanes delete_lanes_def delete_sessions_def
      delete_relationships_def delete_memories_def)

lemma finish_reset_profile:
  assumes "profile_of s owner = Some p" and "p_epoch p = epoch" and "p_state p = L_Reset"
  shows "profile_of (snd (finish_reset now owner epoch s)) owner = Some (case fst (finish_reset now owner epoch s) of
      Inl _ \<Rightarrow> p | Inr _ \<Rightarrow> p\<lparr>p_timezone := u ''UTC'', p_state := L_Active\<rparr>)"
  using assms row_by_Some [OF assms(1)]
  by (simp add: finish_reset_def transaction_def insert_audit_def bindE_def guardE_def purge_canonical_profiles row_by_update)

text \<open>The owner's profile after a reset, completed or not.\<close>

lemma reset_moves_on:
  assumes "gentle owner c" and "profile_of s owner = Some p" and "p_state p = L_Active"
    and "reset c now owner (s, w) = (r, (s', w'))"
  shows "\<exists>q. profile_of s' owner = Some q \<and> p_epoch q = p_epoch p + 1
    \<and> p_state q = (case r of Inl _ \<Rightarrow> L_Reset | Inr _ \<Rightarrow> L_Active)"
proof -
  have c: "missing_hooks c = []" "\<forall>h \<in> set (co_quiesce c). keeps_profile owner h" "\<forall>h \<in> set (map snd (co_purge c)). keeps_profile owner h"
    using assms(1) by (auto simp: gentle_def)
  let ?p = "p\<lparr>p_epoch := p_epoch p + 1, p_state := L_Reset\<rparr>"
  obtain s1 where b: "begin_reset owner s = (Inr (p_epoch p), s1)" and p1: "profile_of s1 owner = Some ?p"
    using assms(2,3) row_by_Some [OF assms(2)] by (simp add: begin_reset_def transaction_def row_by_update)
  obtain r2 w2 where h: "run_hooks (co_quiesce c) owner (p_epoch p) (s1, w) = (r2, w2)" by (rule prod.exhaust)
  have p2: "profile_of (fst w2) owner = Some ?p" using run_hooks_profile [OF c(2) h] p1 by simp
  obtain r3 w3 where g: "run_hooks (map snd (co_purge c)) owner (p_epoch p + 1) w2 = (r3, w3)" by (rule prod.exhaust)
  have p3: "profile_of (fst w3) owner = Some ?p" using run_hooks_profile [OF c(3) g] p2 by simp
  obtain r4 s4 where e: "finish_reset now owner (p_epoch p + 1) (fst w3) = (r4, s4)" by (rule prod.exhaust)
  have p4: "profile_of s4 owner = Some (case r4 of Inl _ \<Rightarrow> ?p | Inr _ \<Rightarrow> ?p\<lparr>p_timezone := u ''UTC'', p_state := L_Active\<rparr>)"
    using finish_reset_profile [OF p3, of "p_epoch p + 1" now] e by simp
  show ?thesis
    using assms(4) p2 p3 p4 by (cases r2; cases r3; cases r4) (auto simp: reset_def c(1) b h g e)
qed

text \<open>
C34: A reset fences the work that was under way. Whatever the hooks do to other rows and whether or
not the reset completes, an owner who was active is in a later epoch when it ends; from then on, in
every state with that profile, no delivery leased, extraction begun or finalization started in the
old epoch takes effect: the lease is not current, its report is not accepted, the extraction is not
activated and no summary is stored.
\<close>
theorem reset_fences_stale_work:
  assumes "gentle owner c" and "profile_of s owner = Some p" and "p_state p = L_Active"
    and "reset c now owner (s, w) = (r, (s', w'))" and "epoch \<le> p_epoch p"
    and "profile_of t owner = profile_of s' owner"
  shows "\<not> sends owner epoch t \<and> \<not> reports owner epoch t \<and> \<not> activates owner epoch t \<and> \<not> finalizes owner epoch t"
proof -
  obtain q where q: "profile_of t owner = Some q" "epoch \<noteq> p_epoch q \<or> p_state q \<noteq> L_Active"
    using reset_moves_on [OF assms(1-4)] assms(5,6) by auto
  show ?thesis
    using send_fence.no_effect [OF q] report_fence.no_effect [OF q] activation_fence.no_effect [OF q]
      finalization_fence.no_effect [OF q] by blast
qed

theorem reset_fences_stale_work_witness:
  "case bot_coordinator of Inl _ \<Rightarrow> False | Inr c \<Rightarrow>
     \<not> reports 7 1 (fst (snd (reset c [68] 7 (demo_owned, demo_worker)))) \<and> reports 7 1 demo_leased"
proof -
  have p: "profile_of demo_owned 7 = Some \<lparr>p_user = 7, p_timezone = [90], p_created = 0, p_epoch = 1,
       p_state = L_Active, p_quiet_start = None, p_quiet_end = None\<rparr>"
    by (simp add: demo_owned_def demo_state_def row_by_def)
  have "reports 7 1 demo_leased"
    unfolding reports_def using demo_mark_sent by (intro exI [of _ demo_lease] exI conjI) (simp_all add: demo_lease_def)
  moreover obtain r s' w' where e: "reset \<lparr>co_required = [u ''tasks''], co_purge = [(u ''tasks'', purge_tasks)],
      co_quiesce = [quiesce_worker]\<rparr> [68] 7 (demo_owned, demo_worker) = (r, (s', w'))" by (metis surj_pair)
  ultimately show ?thesis
    using reset_fences_stale_work [OF bot_coordinator_gentle [OF bot_coordinator_eq] p _ e, of 1 s']
    by (simp add: bot_coordinator_eq)
qed

text \<open>
A reset that a hook makes fail is not undone and cannot be finished. The owner's profile stays
\<open>reset_in_progress\<close> in the next epoch; in every state with that profile each further reset is
refused without an effect, a new reminder is refused, and none of the owner's deliveries is eligible.
\<close>
theorem failed_reset_blocks_owner:
  assumes "gentle owner c" and "profile_of s owner = Some p" and "p_state p = L_Active"
    and "reset c now owner (s, w) = (Inl e, (s', w'))" and "profile_of t owner = profile_of s' owner"
  shows "(missing_hooks c' = [] \<longrightarrow> reset c' now' owner (t, v) = (Inl (RuntimeError ''reset is already in progress''), (t, v)))
    \<and> (dr_owner d = owner \<longrightarrow> (\<exists>err. create_draft zones now'' d t = (Inl err, t)))
    \<and> (o_owner ob = owner \<longrightarrow> \<not> eligible later t ob)"
proof -
  obtain q where q: "profile_of t owner = Some q" "p_state q = L_Reset"
    using reset_moves_on [OF assms(1-4)] assms(5) by auto
  have "\<exists>err. create_draft zones now'' d t = (Inl err, t)" if "dr_owner d = owner"
    using q that by (cases "validate_draft zones d") (simp_all add: create_draft_def transaction_def active_profile_def)
  then show ?thesis
    using q by (simp add: reset_def begin_reset_def transaction_def eligible_def owner_current_def)
qed

definition failing_coordinator :: "worker coordinator" where
  "failing_coordinator = \<lparr>co_required = [], co_purge = [], co_quiesce = [\<lambda>_ _ w. (Inl (ExternalError ''cancelled''), w)]\<rparr>"

theorem failed_reset_blocks_owner_witness:
  "case reset failing_coordinator [68] 7 (demo_owned, demo_worker) of (r, (s', w')) \<Rightarrow>
    r = Inl (ExternalError ''cancelled'') \<and> sessions s' = sessions demo_owned
    \<and> fst (reset failing_coordinator [68] 7 (s', w')) = Inl (RuntimeError ''reset is already in progress'')"
proof -
  have p: "profile_of demo_owned 7 = Some \<lparr>p_user = 7, p_timezone = [90], p_created = 0, p_epoch = 1,
       p_state = L_Active, p_quiet_start = None, p_quiet_end = None\<rparr>"
    by (simp add: demo_owned_def demo_state_def row_by_def)
  have g: "gentle 7 failing_coordinator"
    by (simp add: gentle_def failing_coordinator_def missing_hooks_def keeps_profile_def)
  obtain s' w' where e: "reset failing_coordinator [68] 7 (demo_owned, demo_worker) = (Inl (ExternalError ''cancelled''), (s', w'))"
      "sessions s' = sessions demo_owned"
    using p by (simp add: reset_def failing_coordinator_def missing_hooks_def begin_reset_def transaction_def)
  then show ?thesis
    using failed_reset_blocks_owner [OF g p _ e(1) refl, of failing_coordinator "[68]" w'] g
    by (simp add: gentle_def)
qed

end
