(* ===== verification/Confirmed_Actions.thy ===== *)
theory Confirmed_Actions
  imports Reminder_Parser Reset_Coordinator
begin

text \<open>
  The requests and confirmations of the application service, \<open>application_service.py\<close>: a reminder is
  drafted from a request and asked back, and the button the user presses is resolved and carried
  out. What is sent to Telegram is a value of \<open>reply\<close>, one constructor for each text; sending does not
  fail. The finalizer of sessions is an argument. Payloads of confirmations are dictionaries.
\<close>

section \<open>Replies\<close>

datatype reply =
    Stale
  | Cancelled_It
  | Deleted int
  | Already_Deleted
  | Memory_Unavailable
  | Already_Closed
  | Closing
  | Close_Failed
  | Closed_It
  | Reminder_In_Transition
  | Reminder_Created job
  | Reminder_Cancelled
  | Reminder_Done
  | Reminder_Snoozed
  | Snooze_In_Quiet_Hours
  | Ask_What
  | Not_Understood
  | Ask_Confirmation pystr parsed_reminder

definition reminder_action_types :: "pystr set" where
  "reminder_action_types = {u ''activate_reminder'', u ''cancel_reminder'', u ''complete_reminder'', u ''snooze_reminder''}"

definition action_field :: "confirmation_action \<Rightarrow> string \<Rightarrow> pyval" where
  "action_field a k = (case ca_payload a of PDict d \<Rightarrow> dict_get d (u k) PNone | _ \<Rightarrow> PNone)"

definition plain_int :: "pyval \<Rightarrow> int option" where
  "plain_int v = (case v of PInt n \<Rightarrow> Some n | _ \<Rightarrow> None)"

definition positive_int :: "pyval \<Rightarrow> int option" where
  "positive_int v = (case plain_int v of Some n \<Rightarrow> if n < 1 then None else Some n | None \<Rightarrow> None)"

text \<open>\<open>except (KeyError, PermissionError, RuntimeError, ValueError)\<close>.\<close>

definition caught :: "py_error \<Rightarrow> bool" where
  "caught e \<longleftrightarrow> is_value_error e \<or> is_runtime_error e \<or> (case e of KeyError _ \<Rightarrow> True | PermissionError _ \<Rightarrow> True | _ \<Rightarrow> False)"

section \<open>Carrying out a confirmed action\<close>

definition reminder_operation :: "zone_db \<Rightarrow> int \<Rightarrow> int \<Rightarrow> int \<Rightarrow> confirmation_action \<Rightarrow> (db, reply) op" where
  "reminder_operation zones now owner task_id a =
     (if ca_type a = u ''activate_reminder'' then
        then_op (activate zones now task_id owner) (\<lambda>j.
          pure_op (Inr (if j_status j = J_NeedsReview then Reminder_In_Transition else Reminder_Created j)))
      else if ca_type a = u ''cancel_reminder'' then
        then_op (cancel_task now task_id owner) (\<lambda>_. pure_op (Inr Reminder_Cancelled))
      else if ca_type a = u ''complete_reminder'' then
        then_op (complete_task now task_id owner) (\<lambda>_. pure_op (Inr Reminder_Done))
      else if ca_type a = u ''snooze_reminder'' then
        (if plain_int (action_field a ''delay_seconds'') \<noteq> Some snooze_seconds
         then pure_op (Inl (ValueError ''reminder snooze payload is invalid''))
         else then_op (snooze_task zones now task_id owner (ca_token a) snooze_seconds) (\<lambda>r.
           pure_op (Inr (if rn_status r = R_Due then Reminder_Snoozed else Snooze_In_Quiet_Hours))))
      else pure_op (Inl (ValueError ''unknown reminder action'')))"

definition execute_reminder_action :: "zone_db \<Rightarrow> int \<Rightarrow> int \<Rightarrow> confirmation_action \<Rightarrow> (db, reply list) op" where
  "execute_reminder_action zones now owner a s =
     (case positive_int (action_field a ''task_id'') of
        None \<Rightarrow> (Inr [Stale], s)
      | Some task_id \<Rightarrow>
         (case reminder_operation zones now owner task_id a s of
            (Inr r, s') \<Rightarrow> (Inr [r], s')
          | (Inl e, s') \<Rightarrow> (if caught e then Inr [Stale] else Inl e, s')))"

definition execute_confirmed_forget :: "int \<Rightarrow> confirmation_action \<Rightarrow> (db, reply list) op" where
  "execute_confirmed_forget owner a s =
     (case positive_int (action_field a ''memory_id'') of
        None \<Rightarrow> (Inr [Stale], s)
      | Some memory_id \<Rightarrow>
         (case delete_memory memory_id owner s of
            (Inl _, s') \<Rightarrow> (Inr [Memory_Unavailable], s')
          | (Inr gone, s') \<Rightarrow> (Inr [if gone then Deleted memory_id else Already_Deleted], s')))"

definition execute_confirmed_close :: "(int \<Rightarrow> int \<Rightarrow> (db, summary) op) \<Rightarrow> int \<Rightarrow> confirmation_action \<Rightarrow> (db, reply list) op" where
  "execute_confirmed_close finalizer owner a s =
     (case (plain_int (action_field a ''lane_session_id''), plain_int (action_field a ''session_id'')) of
        (Some lane_id, Some session_id) \<Rightarrow>
          (case active_session_for_lane owner lane_id s of
             None \<Rightarrow> (Inr [Already_Closed], s)
           | Some x \<Rightarrow>
              if s_id x \<noteq> session_id then (Inr [Already_Closed], s)
              else (case finalizer session_id owner s of
                 (Inl _, s') \<Rightarrow> (Inr [Closing, Close_Failed], s')
               | (Inr _, s') \<Rightarrow> (Inr [Closing, Closed_It], s')))
      | _ \<Rightarrow> (Inr [Stale], s))"

text \<open>The decision of a button; \<open>decided\<close> is the time it is resolved, \<open>now\<close> the time it is carried out.\<close>

definition cancel_awaiting :: "int \<Rightarrow> int \<Rightarrow> confirmation_action \<Rightarrow> db \<Rightarrow> db" where
  "cancel_awaiting now owner a s =
     (if ca_type a = u ''activate_reminder'' then
        (case plain_int (action_field a ''task_id'') of None \<Rightarrow> s | Some n \<Rightarrow> snd (cancel_task now n owner s))
      else s)"

definition carry_out ::
    "zone_db \<Rightarrow> (int \<Rightarrow> int \<Rightarrow> (db, summary) op) \<Rightarrow> int \<Rightarrow> int \<Rightarrow> bool \<Rightarrow> confirmation_action \<Rightarrow> (db, reply list) op" where
  "carry_out zones finalizer now owner confirmed a s =
     (if \<not> confirmed then (Inr [Cancelled_It], cancel_awaiting now owner a s)
      else if ca_type a \<in> reminder_action_types then execute_reminder_action zones now owner a s
      else if ca_type a = u ''forget_memory'' then execute_confirmed_forget owner a s
      else if ca_type a = u ''close_session'' then execute_confirmed_close finalizer owner a s
      else (Inr [Stale], s))"

definition handle_confirmation_callback ::
    "hashing \<Rightarrow> zone_db \<Rightarrow> (int \<Rightarrow> int \<Rightarrow> (db, summary) op) \<Rightarrow> int \<Rightarrow> int \<Rightarrow> int \<Rightarrow> bool \<Rightarrow> pystr \<Rightarrow> (db, reply list) op" where
  "handle_confirmation_callback h zones finalizer decided now owner confirmed token =
     then_op (resolve_decision h decided token owner confirmed) (\<lambda>resolution.
       case resolution of
         None \<Rightarrow> pure_op (Inr [Stale])
       | Some res \<Rightarrow>
           if \<not> cr_first res \<and> ca_type (cr_action res) \<notin> reminder_action_types then pure_op (Inr [Stale])
           else carry_out zones finalizer now owner confirmed (cr_action res))"

section \<open>Asking for a reminder\<close>

record reminder_services =
  rs_parser :: reminder_parser
  rs_hash :: hashing
  rs_ttl :: int
  rs_route :: "incoming_message \<Rightarrow> (db, routed_turn option) op"

definition draft_from :: "incoming_message \<Rightarrow> int \<Rightarrow> reminder_policy \<Rightarrow> parsed_reminder \<Rightarrow> reminder_draft" where
  "draft_from m persona_id policy r = \<lparr>dr_owner = in_user m, dr_persona = persona_id, dr_chat = in_chat m,
     dr_text = pd_text r, dr_start = Naive (pd_start r), dr_timezone = pd_timezone r, dr_rule = pd_rule r,
     dr_grace = 3600, dr_quiet_start = po_quiet_start policy, dr_quiet_end = po_quiet_end policy,
     dr_urgent = pd_urgent r\<rparr>"

text \<open>It is the draft of the theorem on the parser, with the chat of the message and the quiet hours of the policy.\<close>

lemma draft_from_parsed:
  "draft_from m persona_id policy r = parsed_draft (in_user m) persona_id (in_chat m) (po_quiet_start policy) (po_quiet_end policy) r"
  by (simp add: draft_from_def parsed_draft_def)

text \<open>\<open>None\<close> stands for no reply: the message was not authorised. \<open>token\<close> is the fresh token.\<close>

definition request_body ::
    "reminder_services \<Rightarrow> py_datetime \<Rightarrow> (nat \<Rightarrow> int) \<Rightarrow> pystr \<Rightarrow> incoming_message \<Rightarrow> pystr \<Rightarrow> (db, reply option) op" where
  "request_body sv clock now token m request =
     then_op (ensure_profile (now 0) (in_user m)) (\<lambda>policy.
     then_op (rs_route sv (m\<lparr>in_text := request\<rparr>)) (\<lambda>routed.
     case routed of
       None \<Rightarrow> pure_op (Inr None)
     | Some t \<Rightarrow>
        then_op (read_op (persona_id_for_key (rt_key t))) (\<lambda>persona.
        then_op (pure_op (of_option (RuntimeError ''active reminder persona is unavailable'') persona)) (\<lambda>persona_id.
        then_op (pure_op (parse_request (rs_parser sv) clock request (po_timezone policy))) (\<lambda>r.
        then_op (create_draft (rq_zones (rs_parser sv)) (now 1) (draft_from m persona_id policy r)) (\<lambda>(task, _).
        then_op (mark_awaiting_confirmation (now 2) (tk_id task) (in_user m)) (\<lambda>_.
        then_op (request_confirmation (rs_hash sv) (rs_ttl sv) (now 3) token (in_user m) (u ''activate_reminder'')
            (PDict [(u ''task_id'', PInt (tk_id task))])) (\<lambda>tok.
          pure_op (Inr (Some (Ask_Confirmation tok r)))))))))))"

definition handle_reminder_request ::
    "reminder_services \<Rightarrow> py_datetime \<Rightarrow> (nat \<Rightarrow> int) \<Rightarrow> pystr \<Rightarrow> incoming_message \<Rightarrow> pystr \<Rightarrow> db \<Rightarrow> reply option \<times> db" where
  "handle_reminder_request sv clock now token m request s =
     (if request = [] then (Some Ask_What, s)
      else case request_body sv clock now token m request s of
          (Inl _, s') \<Rightarrow> (Some Not_Understood, s')
        | (Inr r, s') \<Rightarrow> (r, s'))"

section \<open>A decision is carried out once\<close>

lemma find_key_update: "(\<And>r. k (f r) = k r)
    \<Longrightarrow> find (\<lambda>r. k r = n) (update_where P f rows) = map_option (\<lambda>r. if P r then f r else r) (find (\<lambda>r. k r = n) rows)"
  by (induction rows) (auto simp: update_where_def)

lemma resolve_Some:
  assumes "resolve_confirmation h t token owner c s = (Inr (Some res), s1)"
  shows "\<exists>row row'. confirmation_of s token = Some row \<and> confirmation_of s1 token = Some row' \<and> c_owner row' = owner
    \<and> payload_hash h owner (c_type row') (c_payload row') = Inr (c_hash row') \<and> c_outcome row' = Some c
    \<and> res = \<lparr>cr_action = \<lparr>ca_token = token, ca_type = c_type row', ca_payload = c_payload row'\<rparr>, cr_outcome = c, cr_first = cr_first res\<rparr>
    \<and> (s1 = s \<or> (\<exists>cs. s1 = s\<lparr>confirmations := cs\<rparr>))"
proof -
  obtain row where row: "confirmation_of s token = Some row" "c_owner row = owner"
    "payload_hash h owner (c_type row) (c_payload row) = Inr (c_hash row)"
    and r: "(case c_outcome row of
               Some decided \<Rightarrow> decided = c \<and> res = \<lparr>cr_action = \<lparr>ca_token = token, ca_type = c_type row, ca_payload = c_payload row\<rparr>,
                   cr_outcome = c, cr_first = False\<rparr> \<and> s1 = s
             | None \<Rightarrow> c_consumed row = None \<and> res = \<lparr>cr_action = \<lparr>ca_token = token, ca_type = c_type row, ca_payload = c_payload row\<rparr>,
                   cr_outcome = c, cr_first = True\<rparr>
                 \<and> s1 = s\<lparr>confirmations := update_where (\<lambda>c. c_token c = token \<and> c_consumed c = None \<and> c_outcome c = None)
                       (decide_row c t) (confirmations s)\<rparr>)"
    using assms unfolding resolve_confirmation_def transaction_Inr
    by (auto simp: bindE_eq_Inr Let_def split: option.splits if_splits)
  show ?thesis
  proof (cases "c_outcome row")
    case (Some x)
    with row r show ?thesis by (intro exI [of _ row]) auto
  next
    case None
    have tok: "c_token row = token" using row(1) unfolding confirmation_of_def by (auto dest: find_SomeD)
    have "confirmation_of s1 token = Some (decide_row c t row)"
      using row(1) r None tok by (simp add: confirmation_of_def find_key_update decide_row_def)
    with row r None show ?thesis by (intro exI [of _ row] exI [of _ "decide_row c t row"]) (auto simp: decide_row_def)
  qed
qed

lemma resolve_again:
  assumes "resolve_decision h t token owner c s = (Inr (Some res), s1)" and "confirmations s' = confirmations s1"
  shows "resolve_decision h t' token owner c s' = (Inr (Some (res\<lparr>cr_first := False\<rparr>)), s')"
proof -
  let ?c = "if c then C_Confirmed else C_Cancelled"
  from resolve_Some [OF assms(1) [unfolded resolve_decision_def]] obtain row' where r: "confirmation_of s1 token = Some row'"
    "c_owner row' = owner" "payload_hash h owner (c_type row') (c_payload row') = Inr (c_hash row')" "c_outcome row' = Some ?c"
    "res = \<lparr>cr_action = \<lparr>ca_token = token, ca_type = c_type row', ca_payload = c_payload row'\<rparr>, cr_outcome = ?c, cr_first = cr_first res\<rparr>"
    by blast
  have "confirmation_of s' token = Some row'" using r(1) assms(2) by (simp add: confirmation_of_def)
  then have "resolve_decision h t' token owner c s' = (Inr (Some \<lparr>cr_action = \<lparr>ca_token = token, ca_type = c_type row',
      ca_payload = c_payload row'\<rparr>, cr_outcome = ?c, cr_first = False\<rparr>), s')"
    using r(2-4) by (simp add: resolve_decision_def resolve_confirmation_def transaction_def)
  moreover have "res\<lparr>cr_first := False\<rparr> = \<lparr>cr_action = \<lparr>ca_token = token, ca_type = c_type row',
      ca_payload = c_payload row'\<rparr>, cr_outcome = ?c, cr_first = False\<rparr>" by (subst r(5)) simp
  ultimately show ?thesis by simp
qed

lemma task_updates_confirmations [simp]: "confirmations (set_task n f s) = confirmations s" "confirmations (set_job n g s) = confirmations s"
  "profiles (set_task n f s) = profiles s" "profiles (set_job n g s) = profiles s"
  by (simp_all add: set_task_def set_job_def)

lemma activate_confirmations: "confirmations (snd (activate zones now n owner s)) = confirmations s"
proof (cases "activate zones now n owner s")
  case (Pair r s')
  show ?thesis
  proof (cases r)
    case (Inl e)
    with Pair have "s' = s" unfolding activate_def by (simp add: transaction_Inl)
    with Pair show ?thesis by simp
  next
    case (Inr j)
    from activate_Inr [OF Pair [unfolded Inr]] Pair show ?thesis by auto
  qed
qed

lemma finish_confirmations: "confirmations (snd (finish_task target now n owner s)) = confirmations s"
proof (cases "finish_task target now n owner s")
  case (Pair r s')
  show ?thesis
  proof (cases r)
    case (Inl e)
    with Pair have "s' = s" unfolding finish_task_def by (simp add: transaction_Inl)
    with Pair show ?thesis by simp
  next
    case (Inr j)
    from finish_task_cases [OF Pair [unfolded Inr]] Pair show ?thesis by (auto simp: close_task_rows_def)
  qed
qed

lemma snooze_confirmations: "confirmations (snd (snooze_task zones now n owner a d s)) = confirmations s"
proof (cases "snooze_task zones now n owner a d s")
  case (Pair r s')
  show ?thesis
  proof (cases r)
    case (Inl e)
    with Pair have "s' = s" unfolding snooze_task_def by (simp add: transaction_Inl)
    with Pair show ?thesis by simp
  next
    case (Inr x)
    have "s' = s \<or> (\<exists>t j. snooze_insert zones now t j a d s = Inr (x, s'))"
    proof (cases "find (\<lambda>r. rn_action r = Some a \<and> job_of s (rn_job r) \<noteq> None) (runs s)")
      case None
      with Pair Inr show ?thesis unfolding snooze_task_def by (auto simp: transaction_Inr guardE_eq_Inr bindE_eq_Inr)
    next
      case (Some y)
      with Pair Inr show ?thesis unfolding snooze_task_def by (simp add: transaction_Inr guardE_eq_Inr)
    qed
    then have "confirmations s' = confirmations s"
      by (auto simp: snooze_insert_def insert_run_def bindE_eq_Inr guardE_eq_Inr Let_def)
    with Pair show ?thesis by simp
  qed
qed

lemma forget_confirmations: "confirmations (snd (delete_memory n owner s)) = confirmations s"
  by (simp add: delete_memory_def transaction_def delete_memories_def Let_def)

text \<open>A finished task is finished again without an effect, whatever the clock says.\<close>

lemma finish_row: "finish_task target now n owner s = (Inr a, s') \<Longrightarrow> task_of s' n = Some a"
  by (auto simp: finish_task_def transaction_Inr bindE_eq_Inr guardE_eq_Inr of_option_eq task_by_id_def Let_def split: if_splits)

lemma finish_again:
  assumes "finish_task target now n owner s = (Inr a, s')"
  shows "finish_task target now' n owner s' = (Inr a, s')"
proof -
  obtain t where t: "task_of s n = Some t" "tk_owner t = owner" "owner_current owner (tk_epoch t) s"
    and c: "tk_status t = target \<and> s' = s \<or> \<not> closed_task t \<and> s' = close_task_rows target
            (if target = T_Cancelled then J_Cancelled else J_Completed) now n s"
    using finish_task_cases [OF assms] by blast
  have "tk_owner a = owner \<and> tk_epoch a = tk_epoch t \<and> tk_status a = target"
    using c finish_row [OF assms] t row_by_Some [OF t(1)] by (auto simp: close_task_rows_def row_by_update)
  moreover have "profiles s' = profiles s" using c by (auto simp: close_task_rows_def)
  ultimately have "ensure_current_epoch a s' = Inr ()" "tk_owner a = owner" "tk_status a = target"
    using t(3) by (simp_all add: ensure_current_epoch_Inr owner_current_def)
  then show ?thesis
    using finish_row [OF assms] by (simp add: finish_task_def transaction_def)
qed

lemma finish_refused:
  assumes "finish_task target now n owner s = (Inl e, s')"
  shows "s' = s" and "finish_task target now' n owner s = (Inl e, s)"
proof -
  show "s' = s" using assms by (simp add: finish_task_def transaction_Inl)
  show "finish_task target now' n owner s = (Inl e, s)"
  proof (cases "task_of s n")
    case None
    with assms show ?thesis by (simp add: finish_task_def transaction_Inl of_option_def bindE_def)
  next
    case (Some t)
    have r: "task_by_id n (close_task_rows target st m n s) = Inr (t\<lparr>tk_status := target, tk_updated := m\<rparr>)" for st m
      using Some row_by_Some [OF Some] by (simp add: task_by_id_def close_task_rows_def row_by_update of_option_def)
    show ?thesis
      using assms Some r unfolding finish_task_def transaction_Inl by (auto simp: guardE_def bindE_def Let_def split: sum.splits if_splits)
  qed
qed

text \<open>Carrying out a reminder action again.\<close>

lemma reminder_operation_again:
  assumes "reminder_reachable zones (s, ls)" and "reminder_operation zones now owner n a s = (Inr r, s')"
  shows "reminder_operation zones now' owner n a s' = (Inr r, s')"
proof -
  consider (activate) j where "ca_type a = u ''activate_reminder''" "activate zones now n owner s = (Inr j, s')"
      "r = (if j_status j = J_NeedsReview then Reminder_In_Transition else Reminder_Created j)"
    | (cancel) t where "ca_type a = u ''cancel_reminder''" "cancel_task now n owner s = (Inr t, s')" "r = Reminder_Cancelled"
    | (complete) t where "ca_type a = u ''complete_reminder''" "complete_task now n owner s = (Inr t, s')" "r = Reminder_Done"
    | (snooze) x where "ca_type a = u ''snooze_reminder''" "plain_int (action_field a ''delay_seconds'') = Some snooze_seconds"
      "snooze_task zones now n owner (ca_token a) snooze_seconds s = (Inr x, s')"
      "r = (if rn_status x = R_Due then Reminder_Snoozed else Snooze_In_Quiet_Hours)"
    using assms(2) by (auto simp: reminder_operation_def then_op_Inr split: if_splits)
  then show ?thesis
  proof cases
    case activate
    from activate_is_idempotent [OF assms(1) activate(2)] activate show ?thesis
      by (simp add: reminder_operation_def then_op_def)
  next
    case cancel
    from finish_again [OF cancel(2) [unfolded cancel_task_def]] cancel show ?thesis
      by (simp add: reminder_operation_def then_op_def cancel_task_def)
  next
    case complete
    from finish_again [OF complete(2) [unfolded complete_task_def]] complete show ?thesis
      by (simp add: reminder_operation_def then_op_def complete_task_def)
  next
    case snooze
    from snooze_is_idempotent [OF assms(1) snooze(3), of snooze_seconds now'] snooze show ?thesis
      by (simp add: reminder_operation_def then_op_def snooze_seconds_def)
  qed
qed

lemma then_op_keeps:
  assumes "\<And>s. g (snd (f s)) = g s" "\<And>x s. g (snd (h x s)) = g s"
  shows "g (snd (then_op f h s)) = g s"
proof -
  obtain r s' where "f s = (r, s')" by (rule prod.exhaust)
  with assms(1) [of s] assms(2) show ?thesis by (cases r) (simp_all add: then_op_def)
qed

lemma reminder_operation_confirmations: "confirmations (snd (reminder_operation zones now owner n a s)) = confirmations s"
proof -
  have "confirmations (snd (then_op f (\<lambda>x. pure_op (h x)) s)) = confirmations s"
    if "\<And>s. confirmations (snd (f s)) = confirmations s" for f :: "(db, 'b) op" and h :: "'b \<Rightarrow> reply result"
    by (rule then_op_keeps) (simp_all add: that pure_op_def)
  note k = this
  show ?thesis
    unfolding reminder_operation_def cancel_task_def complete_task_def
    by (simp add: pure_op_def k activate_confirmations finish_confirmations snooze_confirmations)
qed

lemma carry_out_confirmations:
  assumes "\<And>n m t. confirmations (snd (finalizer n m t)) = confirmations t"
  shows "confirmations (snd (carry_out zones finalizer now owner confirmed a s)) = confirmations s"
proof -
  have r: "confirmations (snd (execute_reminder_action zones now owner a s)) = confirmations s"
  proof (cases "positive_int (action_field a ''task_id'')")
    case (Some n)
    obtain r s' where "reminder_operation zones now owner n a s = (r, s')" by (rule prod.exhaust)
    with Some reminder_operation_confirmations [of zones now owner n a s] show ?thesis
      by (cases r) (simp_all add: execute_reminder_action_def)
  qed (simp add: execute_reminder_action_def)
  have f: "confirmations (snd (execute_confirmed_forget owner a s)) = confirmations s"
  proof (cases "positive_int (action_field a ''memory_id'')")
    case (Some n)
    obtain r s' where "delete_memory n owner s = (r, s')" by (rule prod.exhaust)
    with Some forget_confirmations [of n owner s] show ?thesis
      by (cases r) (simp_all add: execute_confirmed_forget_def)
  qed (simp add: execute_confirmed_forget_def)
  have c: "confirmations (snd (execute_confirmed_close finalizer owner a s)) = confirmations s"
  proof (cases "plain_int (action_field a ''session_id'')")
    case (Some n)
    obtain r s' where "finalizer n owner s = (r, s')" by (rule prod.exhaust)
    with Some assms [of n owner s] show ?thesis
      by (cases r) (simp_all add: execute_confirmed_close_def split: option.split)
  qed (simp add: execute_confirmed_close_def split: option.split)
  have "confirmations (cancel_awaiting now owner a s) = confirmations s"
    by (simp add: cancel_awaiting_def cancel_task_def finish_confirmations split: option.split)
  with r f c show ?thesis by (simp add: carry_out_def)
qed

lemma cancel_awaiting_again: "cancel_awaiting now' owner a (cancel_awaiting now owner a s) = cancel_awaiting now owner a s"
proof (cases "ca_type a = u ''activate_reminder''")
  case True
  show ?thesis
  proof (cases "plain_int (action_field a ''task_id'')")
    case (Some n)
    obtain r s' where c: "cancel_task now n owner s = (r, s')" by (rule prod.exhaust)
    have "cancel_task now' n owner s' = (r, s')"
    proof (cases r)
      case (Inl e)
      with finish_refused [OF c [unfolded Inl cancel_task_def]] show ?thesis by (simp add: cancel_task_def)
    next
      case (Inr t)
      with finish_again [OF c [unfolded Inr cancel_task_def], of now'] show ?thesis by (simp add: cancel_task_def)
    qed
    with True Some c show ?thesis by (simp add: cancel_awaiting_def)
  qed (simp add: cancel_awaiting_def)
qed (simp add: cancel_awaiting_def)

lemma carry_out_again:
  assumes "reminder_reachable zones (s, ls)" and "carry_out zones finalizer now owner confirmed a s = (Inr rs, s')"
    and "ca_type a \<in> reminder_action_types" and "rs \<noteq> [Stale]"
  shows "carry_out zones finalizer now' owner confirmed a s' = (Inr rs, s')"
proof (cases confirmed)
  case True
  with assms(2-4) obtain n r where n: "positive_int (action_field a ''task_id'') = Some n"
    "reminder_operation zones now owner n a s = (Inr r, s')" "rs = [r]"
    by (auto simp: carry_out_def execute_reminder_action_def split: option.splits prod.splits sum.splits if_splits)
  with reminder_operation_again [OF assms(1) n(2)] True assms(3) show ?thesis
    by (simp add: carry_out_def execute_reminder_action_def)
next
  case False
  with assms(2) show ?thesis by (auto simp: carry_out_def cancel_awaiting_again)
qed

text \<open>
C7: A decision takes effect once. When the press of a button has been answered, other than as stale,
pressing it again, at any later time, changes nothing: an action on a reminder gives the same answer
and anything else is stale.
\<close>
theorem decision_takes_effect_once:
  assumes "reminder_reachable zones (s, ls)" and "\<And>n m t. confirmations (snd (finalizer n m t)) = confirmations t"
    and "handle_confirmation_callback h zones finalizer decided now owner confirmed token s = (Inr rs, s')" and "rs \<noteq> [Stale]"
  shows "\<exists>rs' \<in> {rs, [Stale]}.
    handle_confirmation_callback h zones finalizer decided' now' owner confirmed token s' = (Inr rs', s')"
proof -
  from assms(3,4) obtain res s1 where r: "resolve_decision h decided token owner confirmed s = (Inr (Some res), s1)"
    and c: "carry_out zones finalizer now owner confirmed (cr_action res) s1 = (Inr rs, s')"
    and t: "cr_first res \<or> ca_type (cr_action res) \<in> reminder_action_types"
    by (auto simp: handle_confirmation_callback_def then_op_Inr split: option.splits if_splits)
  have "confirmations s' = confirmations s1"
    using carry_out_confirmations [where finalizer = finalizer, OF assms(2), of zones now owner confirmed "cr_action res" s1] c by simp
  from resolve_again [OF r this] have again:
    "resolve_decision h decided' token owner confirmed s' = (Inr (Some (res\<lparr>cr_first := False\<rparr>)), s')" .
  have "same_reminders s s1"
    using resolve_Some [OF r [unfolded resolve_decision_def]] by (auto simp: same_reminders_def)
  then have reach: "reminder_reachable zones (s1, ls)" by (rule reminder_reachable.step [OF assms(1) reminder_step.other])
  show ?thesis
  proof (cases "ca_type (cr_action res) \<in> reminder_action_types")
    case True
    from carry_out_again [OF reach c True assms(4)] again True show ?thesis
      by (simp add: handle_confirmation_callback_def then_op_def)
  next
    case False
    with again show ?thesis by (simp add: handle_confirmation_callback_def then_op_def pure_op_def)
  qed
qed

text \<open>
A button works only for the user it was issued to. For everybody else, for a token that was never
issued, for one whose time is over undecided and for one that was decided the other way, pressing it
changes nothing.
\<close>
theorem decision_needs_its_owner:
  assumes "\<And>c. confirmation_of s token = Some c \<Longrightarrow> c_owner c \<noteq> owner
    \<or> (c_outcome c = None \<and> c_expires c \<le> decided)
    \<or> c_outcome c = Some (if confirmed then C_Cancelled else C_Confirmed)"
  shows "snd (handle_confirmation_callback h zones finalizer decided now owner confirmed token s) = s"
proof -
  have "resolve_decision h decided token owner confirmed s = (Inr None, s)
      \<or> (\<exists>e. resolve_decision h decided token owner confirmed s = (Inl e, s))"
  proof (cases "confirmation_of s token")
    case None
    then show ?thesis by (simp add: resolve_decision_def resolve_confirmation_def transaction_def)
  next
    case (Some c)
    show ?thesis
    proof (cases "c_owner c = owner")
      case False
      with Some show ?thesis by (simp add: resolve_decision_def resolve_confirmation_def transaction_def)
    next
      case True
      note now = assms [OF Some] Some True
      show ?thesis
      proof (cases "payload_hash h owner (c_type c) (c_payload c)")
        case (Inl e)
        with now show ?thesis by (simp add: resolve_decision_def resolve_confirmation_def transaction_def)
      next
        case (Inr d)
        with now show ?thesis
          by (cases "c_outcome c") (auto simp: resolve_decision_def resolve_confirmation_def transaction_def Let_def)
      qed
    qed
  qed
  then show ?thesis by (auto simp: handle_confirmation_callback_def then_op_def pure_op_def)
qed

section \<open>A concrete button\<close>

definition demo_button :: "int option \<Rightarrow> confirmation_outcome option \<Rightarrow> confirmation" where
  "demo_button t outcome = (demo_row t outcome)\<lparr>c_type := u ''activate_reminder'',
     c_payload := PDict [(u ''task_id'', PInt 1)], c_hash := [55, 10, 97]\<rparr>"

lemma demo_button_hash:
  "payload_hash demo_hashing 7 (u ''activate_reminder'') (PDict [(u ''task_id'', PInt 1)]) = Inr [55, 10, 97]"
  by (simp add: payload_hash_def demo_hashing_def show_int_def show_nat.simps utf8_length_def is_surrogate_def u_def)

abbreviation demo_asked :: db where
  "demo_asked \<equiv> (demo_state [demo_task T_Awaiting 100] [demo_job J_Awaiting None 0 101] [] [])
     \<lparr>confirmations := [demo_button None None]\<rparr>"

lemma demo_asked_reachable: "reminder_reachable demo_zones (demo_asked, [])"
  by (rule reminder_reachable.step [OF demo_reachable_awaiting reminder_step.other]) (simp add: same_reminders_def)

lemma demo_button_resolves:
  "resolve_decision demo_hashing 100000002000 [84] 7 True demo_asked
     = (Inr (Some \<lparr>cr_action = \<lparr>ca_token = [84], ca_type = u ''activate_reminder'',
          ca_payload = PDict [(u ''task_id'', PInt 1)]\<rparr>, cr_outcome = C_Confirmed, cr_first = True\<rparr>),
        demo_asked\<lparr>confirmations := [demo_button (Some 100000002000) (Some C_Confirmed)]\<rparr>)"
  by (simp add: resolve_decision_def resolve_confirmation_def transaction_def confirmation_of_def demo_button_hash
      demo_button_def demo_row_def update_where_def decide_row_def)

abbreviation demo_confirmed :: db where
  "demo_confirmed \<equiv> demo_active\<lparr>confirmations := [demo_button (Some 100000002000) (Some C_Confirmed)]\<rparr>"

lemma demo_button_activates:
  "activate demo_zones 102 1 7 (demo_asked\<lparr>confirmations := cs\<rparr>)
     = (Inr (demo_job J_Active (Some 63771674400000000) 0 102), demo_active\<lparr>confirmations := cs\<rparr>)"
proof -
  have "first_instant demo_zones (demo_job J_Awaiting None 0 101) = Inr (Some 63771674400000000)"
    by (simp add: first_instant_def demo_job_def demo_first demo_resolve)
  moreover have "owned_task_and_job 1 7 (demo_asked\<lparr>confirmations := cs\<rparr>)
    = Inr (demo_task T_Awaiting 100, demo_job J_Awaiting None 0 101)" by (simp add: demo_eval)
  ultimately show ?thesis by (simp add: activate_def) (simp add: demo_eval Let_def)
qed

lemma demo_button_pressed:
  "handle_confirmation_callback demo_hashing demo_zones f 100000002000 102 7 True [84] demo_asked
     = (Inr [Reminder_Created (demo_job J_Active (Some 63771674400000000) 0 102)], demo_confirmed)"
  unfolding handle_confirmation_callback_def then_op_def demo_button_resolves carry_out_def execute_reminder_action_def
    reminder_operation_def
  by (simp add: demo_button_activates [simplified] reminder_action_types_def action_field_def plain_int_def positive_int_def
      dict_get_def pure_op_def) (simp add: demo_job_def)

theorem decision_takes_effect_once_witness:
  "\<exists>rs \<in> {[Reminder_Created (demo_job J_Active (Some 63771674400000000) 0 102)], [Stale]}.
    handle_confirmation_callback demo_hashing demo_zones (\<lambda>_ _ s. (Inl (KeyError ''none''), s)) 100900000000 104 7 True [84] demo_confirmed
      = (Inr rs, demo_confirmed)"
  by (rule decision_takes_effect_once [OF demo_asked_reachable _ demo_button_pressed]) simp_all

theorem decision_needs_its_owner_witness:
  "snd (handle_confirmation_callback demo_hashing demo_zones (\<lambda>_ _ s. (Inl (KeyError ''none''), s)) 100000002000 102 8 True [84] demo_asked) = demo_asked"
  by (rule decision_needs_its_owner) (simp add: confirmation_of_def demo_button_def demo_row_def)

end
