(* ===== verification/Extraction_Properties.thy ===== *)
theory Extraction_Properties
  imports Memory_Extraction
begin

text \<open>
  What the extraction of memories guarantees: the policy refuses exactly the texts in which a listed
  word stands by itself; whatever the model answers, only admitted candidates about the run's own
  exchange are stored, and a failed attempt stores nothing; the retries end within the budget; a
  drained lane has no unfinished run.
\<close>

section \<open>The policy\<close>

definition edge :: "char_rules \<Rightarrow> pystr \<Rightarrow> pystr \<Rightarrow> bool" where
  "edge ch xs ys \<longleftrightarrow> (xs \<noteq> [] \<and> ch_word ch (last xs)) \<noteq> (ys \<noteq> [] \<and> ch_word ch (hd ys))"

text \<open>The text has, between two edges, a part that is the word up to case.\<close>

definition stands_in :: "char_rules \<Rightarrow> pystr \<Rightarrow> pystr \<Rightarrow> bool" where
  "stands_in ch w t \<longleftrightarrow> (\<exists>xs ys zs. t = xs @ ys @ zs \<and> map (ch_fold ch) ys = map (ch_fold ch) w
     \<and> edge ch xs (ys @ zs) \<and> edge ch (xs @ ys) zs)"

definition listed :: "pystr \<Rightarrow> bool" where
  "listed w \<longleftrightarrow> (\<exists>ws \<in> set deny_patterns. w \<in> set ws)"

lemma boundary_edge: "i \<le> length t \<Longrightarrow> boundary ch t i \<longleftrightarrow> edge ch (take i t) (drop i t)"
  by (cases "i = 0"; cases "i = length t"; cases "t = []")
    (simp_all add: boundary_def edge_def last_conv_nth hd_drop_conv_nth hd_conv_nth min_def)

lemma pattern_search_iff: "pattern_search ch ws t \<longleftrightarrow> (\<exists>w \<in> set ws. stands_in ch w t)"
proof
  assume "pattern_search ch ws t"
  then obtain i w where i: "i \<le> length t" "w \<in> set ws" "word_at ch w t i"
    unfolding pattern_search_def list_ex_iff set_upt by (metis atLeastLessThan_iff less_Suc_eq_le)
  let ?ys = "take (length w) (drop i t)"
  have m: "map (ch_fold ch) ?ys = map (ch_fold ch) w" and b: "boundary ch t i" "boundary ch t (i + length w)"
    using i(3) by (simp_all add: word_at_def)
  have "length w = length ?ys" using arg_cong [OF m, of length] by simp
  then have l: "i + length w \<le> length t" using i(1) by (simp add: min_def split: if_splits)
  have split: "t = take i t @ ?ys @ drop (i + length w) t"
    by (metis append_take_drop_id drop_drop add.commute)
  have "take i t @ ?ys = take (i + length w) t" "?ys @ drop (i + length w) t = drop i t"
    by (simp_all add: take_add) (metis append_take_drop_id drop_drop add.commute)
  with b have "edge ch (take i t) (?ys @ drop (i + length w) t)" "edge ch (take i t @ ?ys) (drop (i + length w) t)"
    using boundary_edge [OF i(1)] boundary_edge [OF l] by simp_all
  with split m i(2) show "\<exists>w \<in> set ws. stands_in ch w t" unfolding stands_in_def by blast
next
  assume "\<exists>w \<in> set ws. stands_in ch w t"
  then obtain w xs ys zs where w: "w \<in> set ws" "t = xs @ ys @ zs" "map (ch_fold ch) ys = map (ch_fold ch) w"
    "edge ch xs (ys @ zs)" "edge ch (xs @ ys) zs" by (auto simp: stands_in_def)
  have l: "length w = length ys" using arg_cong [OF w(3), of length] by simp
  have "word_at ch w t (length xs)"
    using w(2-5) l boundary_edge [of "length xs" t ch] boundary_edge [of "length xs + length ys" t ch]
    by (simp add: word_at_def)
  then show "pattern_search ch ws t"
    using w(1,2) by (auto simp: pattern_search_def list_ex_iff simp del: upt_Suc intro!: bexI [of _ "length xs"])
qed

lemma denied_iff: "denied ch t \<longleftrightarrow> (\<exists>w. listed w \<and> stands_in ch w t)"
  by (auto simp: denied_def list_ex_iff pattern_search_iff listed_def)

lemma category_of_Some: "category_of v = Some c \<Longrightarrow> v = PStr (category_text c)"
  unfolding category_of_def by (drule find_SomeD) blast

lemma scope_of_Some: "scope_of v = Some c \<Longrightarrow> v = PStr (scope_text c)"
  unfolding scope_of_def by (drule find_SomeD) blast

lemma unit_interval_Some: "unit_interval v = Some q \<Longrightarrow> 0 \<le> q \<and> q \<le> 1"
  by (auto simp: unit_interval_def divide_le_eq split: pyval.splits if_splits option.splits prod.splits)

lemma turn_id_of_Some: "turn_id_of v = Some n \<Longrightarrow> v = PInt n \<and> 1 \<le> n"
  by (auto simp: turn_id_of_def split: pyval.splits if_splits)

lemma all_some_turns: "all_some (map turn_id_of vs) = Some ns \<Longrightarrow> vs = map PInt ns \<and> (\<forall>n \<in> set ns. 1 \<le> n)"
  by (induction vs arbitrary: ns) (auto dest!: turn_id_of_Some split: option.splits)

lemma evidence_ids_Some: "evidence_ids vs = Some ns \<Longrightarrow>
    vs = map PInt ns \<and> ns \<noteq> [] \<and> length ns \<le> 8 \<and> distinct ns \<and> (\<forall>n \<in> set ns. 1 \<le> n)"
  by (auto simp: evidence_ids_def max_evidence_turns_def dest: all_some_turns split: if_splits option.splits)

definition admitted :: "char_rules \<Rightarrow> memory_candidate \<Rightarrow> checked_candidate \<Rightarrow> bool" where
  "admitted ch c x \<longleftrightarrow> (\<exists>raw. mca_text c = PStr raw \<and> cc_text x = strip raw)
     \<and> cc_text x \<noteq> [] \<and> length (cc_text x) \<le> 500
     \<and> mca_category c = PStr (category_text (cc_category x)) \<and> mca_scope c = PStr (scope_text (cc_scope x))
     \<and> 0 \<le> cc_confidence x \<and> cc_confidence x \<le> 1
     \<and> mca_evidence c = map PInt (cc_evidence x) \<and> cc_evidence x \<noteq> [] \<and> length (cc_evidence x) \<le> 8
     \<and> distinct (cc_evidence x) \<and> (\<forall>n \<in> set (cc_evidence x). 1 \<le> n)
     \<and> (\<forall>w. listed w \<longrightarrow> \<not> stands_in ch w (cc_text x))"

lemma validate_candidate_Some: "validate_candidate ch c = Inr (Some x) \<Longrightarrow> admitted ch c x"
  by (auto simp: validate_candidate_def admitted_def Let_def result_simps max_candidate_text_def denied_iff
      dest: category_of_Some scope_of_Some unit_interval_Some evidence_ids_Some split: pyval.splits if_splits)

lemma validate_candidate_None: "validate_candidate ch c = Inr None \<Longrightarrow>
    \<exists>raw w. mca_text c = PStr raw \<and> listed w \<and> stands_in ch w (strip raw)"
  by (auto simp: validate_candidate_def Let_def result_simps denied_iff split: pyval.splits if_splits)

lemma listed_nonempty: "listed w \<Longrightarrow> w \<noteq> []"
  by (auto simp: listed_def deny_patterns_def u_def)

lemma listed_ex: "(\<exists>w. listed w \<and> P w) \<longleftrightarrow> list_ex P (concat deny_patterns)"
  by (auto simp: listed_def list_ex_iff)

text \<open>
The deny list refuses a text of one word only when that word is listed in full. In a text of word
characters a listed word stands by itself only when it is, up to case, the whole text, so none of
the listed stems matches an inflected word.
\<close>
theorem inflected_words_pass:
  assumes "list_all (ch_word ch) t"
  shows "denied ch t \<longleftrightarrow> (\<exists>w. listed w \<and> map (ch_fold ch) w = map (ch_fold ch) t)"
proof -
  have "map (ch_fold ch) w = map (ch_fold ch) t" if w: "listed w" "stands_in ch w t" for w
  proof -
    from w(2) obtain xs ys zs where s: "t = xs @ ys @ zs" "map (ch_fold ch) ys = map (ch_fold ch) w"
      "edge ch xs (ys @ zs)" "edge ch (xs @ ys) zs" by (auto simp: stands_in_def)
    have "ys \<noteq> []" using s(2) listed_nonempty [OF w(1)] by auto
    then have "xs = []" "zs = []"
      using s(3,4) assms unfolding s(1) edge_def list_all_iff by (auto simp: last_append hd_append)
    with s(1,2) show ?thesis by simp
  qed
  moreover have "stands_in ch w t" if w: "listed w" "map (ch_fold ch) w = map (ch_fold ch) t" for w
    unfolding stands_in_def
  proof (intro exI conjI)
    have "t \<noteq> []" using w listed_nonempty by auto
    then show "edge ch [] (t @ [])" "edge ch ([] @ t) []" using assms by (auto simp: edge_def list_all_iff)
  qed (use w(2) in simp_all)
  ultimately show ?thesis unfolding denied_iff by blast
qed

text \<open>Russian and Latin letters; \<open>fold\<close> lowers them.\<close>

definition letters :: char_rules where
  "letters = \<lparr>ch_word = (\<lambda>c. 65 \<le> c \<and> c \<le> 90 \<or> 97 \<le> c \<and> c \<le> 122 \<or> 1040 \<le> c \<and> c \<le> 1103),
     ch_fold = (\<lambda>c. if 65 \<le> c \<and> c \<le> 90 \<or> 1040 \<le> c \<and> c \<le> 1071 then c + 32 else c)\<rparr>"

theorem inflected_words_pass_witness:
  "\<not> denied letters [1055, 1072, 1088, 1086, 1083, 1100] \<and> denied letters [1055, 1072, 1088, 1086, 1083]
   \<and> \<not> denied letters (u ''allergy'') \<and> denied letters (u ''Token'')"
proof -
  have "list_all (ch_word letters) [1055, 1072, 1088, 1086, 1083, 1100]" "list_all (ch_word letters) [1055, 1072, 1088, 1086, 1083]"
    "list_all (ch_word letters) (u ''allergy'')" "list_all (ch_word letters) (u ''Token'')"
    by (simp_all add: letters_def u_def)
  from this [THEN inflected_words_pass] show ?thesis
    unfolding listed_ex by (simp add: deny_patterns_def letters_def u_def)
qed

section \<open>One attempt\<close>

lemma admit_result:
  "admit ch T pid cs = Inr xs \<Longrightarrow> x \<in> set xs \<Longrightarrow>
    \<exists>c \<in> set cs. admitted ch c x \<and> set (cc_evidence x) \<subseteq> T \<and> (cc_scope x = Persona_Private \<longrightarrow> pid \<noteq> None)"
proof (induction cs arbitrary: xs)
  case (Cons c cs)
  then obtain v where v: "validate_candidate ch c = Inr v" by (auto simp: result_simps)
  show ?case
  proof (cases v)
    case None
    with Cons v show ?thesis by auto
  next
    case (Some y)
    with Cons.prems v obtain ys where ys: "xs = y # ys" "admit ch T pid cs = Inr ys" "set (cc_evidence y) \<subseteq> T"
      "cc_scope y = Persona_Private \<longrightarrow> pid \<noteq> None" by (auto simp: result_simps)
    with Cons.IH [OF ys(2)] Cons.prems(2) validate_candidate_Some [of ch c y] v Some show ?thesis by auto
  qed
qed simp

lemma ensure_relationship_frame: "ensure_relationship now user pid s = (r, s') \<Longrightarrow>
    memories s' = memories s \<and> extractions s' = extractions s"
  by (auto simp: ensure_relationship_def transaction_def Let_def guardE_def split: option.splits if_splits)

lemma link_relationship_frame: "link_relationship now owner pid xs s = (r, s') \<Longrightarrow>
    memories s' = memories s \<and> extractions s' = extractions s"
  by (cases r) (auto simp: link_relationship_def then_op_Inl then_op_Inr dest: ensure_relationship_frame
    split: if_splits option.splits)

lemma prepare_records_Inr:
  assumes "prepare_records ch now e owner cs ex s = (Inr ms, s')"
  shows "memories s' = memories s \<and> extractions s' = extractions s
    \<and> (\<exists>key xs rel. persona_key_for_session (e_session e) owner s = Inr key
      \<and> admit ch {tu_id (fst ex), tu_id (snd ex)} (memory_persona_id key s) cs = Inr xs
      \<and> ms = map (record_of e owner (memory_persona_id key s) rel) xs)"
  using assms unfolding prepare_records_def then_op_Inr read_op_eq pure_op_eq
proof (elim exE conjE, goal_cases)
  case (1 key s1 pid s2 xs s3 rel s4)
  then have "memories s4 = memories s3 \<and> extractions s4 = extractions s3" by (intro link_relationship_frame)
  with 1 show ?case by (intro conjI exI [of _ key] exI [of _ xs] exI [of _ rel]) simp_all
qed

lemma prepare_records_Inl:
  assumes "prepare_records ch now e owner cs ex s = (Inl err, s')"
  shows "memories s' = memories s \<and> extractions s' = extractions s"
  using assms unfolding prepare_records_def then_op_Inl read_op_eq pure_op_eq
  by (elim disjE exE conjE) (blast dest: link_relationship_frame)+

text \<open>What an attempt does to the rows of memories, up to the failure.\<close>

lemma extract_failure:
  assumes "extract_memories x now respond e owner s = (Inl err, s')"
  shows "\<exists>t. (t = s \<or> (\<exists>p. t = snd (respond p s))) \<and> memories s' = memories t \<and> extractions s' = extractions t"
  using assms unfolding extract_memories_def then_op_Inl read_op_eq pure_op_eq
proof (elim disjE exE conjE, goal_cases)
  case 1
  then show ?case by blast
next
  case (2 ex s1)
  then show ?case by (metis snd_conv)
next
  case (3 ex s1 payload s2)
  then show ?case by (metis snd_conv)
next
  case (4 ex s1 payload s2 cs s3)
  with prepare_records_Inl [OF 4(4)] show ?case by (metis snd_conv)
next
  case (5 ex s1 payload s2 cs s3 ms s4)
  have "prepare_records (xt_chars x) (now 1) e owner cs ex s3 = (Inr ms, s4)" "activate_extraction (now 2) (e_id e) owner ms s4 = (Inl err, s')"
    using 5 by blast+
  with 5 prepare_records_Inr activation_tx.error_unchanged show ?case by (metis snd_conv)
qed

text \<open>An operation that leaves a run alone.\<close>

definition keeps_run :: "int \<Rightarrow> (db \<Rightarrow> db) \<Rightarrow> bool" where
  "keeps_run n f \<longleftrightarrow> (\<forall>s. run_ids_ok s \<longrightarrow> run_ids_ok (f s)
     \<and> row_by e_id (extractions (f s)) n = row_by e_id (extractions s) n)"

definition stored_as :: "new_memory \<Rightarrow> memory_row \<Rightarrow> bool" where
  "stored_as m r \<longleftrightarrow> m_user r = nm_user m \<and> m_scope r = nm_scope m \<and> m_persona r = nm_persona m
     \<and> m_content r = nm_content m \<and> m_session r = nm_session m \<and> m_source r = nm_source m
     \<and> m_category r = nm_category m \<and> m_confidence r = nm_confidence m \<and> m_turn r = nm_turn m"

lemma create_all_stored: "create_all now ms s = Inr (rows, s') \<Longrightarrow> list_all2 stored_as ms rows"
proof (induction now ms s arbitrary: rows s' rule: create_all.induct)
  case (2 now m ms s)
  obtain r s1 rs where c: "create_in_transaction now m s = Inr (r, s1)" and cs: "create_all now ms s1 = Inr (rs, s')"
    and rows: "rows = r # rs" using "2.prems"(1) by (auto simp: result_simps)
  have "stored_as m r" using create_in_transaction_cases [OF c] by (auto simp: stored_as_def same_automatic_def memory_from_def)
  with "2.IH" [OF cs] cs rows c show ?case by simp
qed simp

lemma claim_result:
  assumes "run_ids_ok s" and "claim_extraction_run now n owner s = (Inr e, s')"
  obtains e0 where "row_by e_id (extractions s) n = Some e0" "e_owner e0 = owner" "e_status e0 = E_Pending"
    "e = moved E_Processing 1 None now e0" "e_id e = n" "row_by e_id (extractions s') n = Some e" "run_ids_ok s'"
    "\<exists>xs. s' = s\<lparr>extractions := xs\<rparr>"
proof -
  obtain e0 p where *: "row_by e_id (extractions s) n = Some e0" "e_owner e0 = owner" "e_status e0 = E_Pending"
      "e = moved E_Processing 1 None now e0" "row_by e_id (extractions s') n = Some e"
    and s': "s' = s\<lparr>extractions := update_where (\<lambda>x. e_id x = n \<and> e_owner x = owner \<and> e_status x = E_Pending)
       (moved E_Processing 1 None now) (extractions s)\<rparr>"
    by (rule transition_result [OF assms(1) assms(2) [unfolded claim_extraction_run_def]]) blast
  have "run_ids_ok s'" using assms(1) by (simp add: s' run_ids_ok_def map_update_where)
  with * s' show ?thesis using row_by_Some [OF *(5)] that by blast
qed

definition supported ::
    "char_rules \<Rightarrow> extraction \<Rightarrow> int \<Rightarrow> turn \<times> turn \<Rightarrow> int option \<Rightarrow> memory_candidate list \<Rightarrow> memory_row \<Rightarrow> bool" where
  "supported ch e owner ex persona_id cs m \<longleftrightarrow> m_user m = owner \<and> m_source m = Automatic
     \<and> m_session m = Some (e_session e) \<and> m_turn m = Some (e_turn e)
     \<and> (m_scope m = Persona_Private \<longrightarrow> persona_id \<noteq> None \<and> m_persona m = persona_id)
     \<and> (\<exists>c \<in> set cs. \<exists>v. admitted ch c v \<and> m_content m = cc_text v \<and> m_scope m = cc_scope v
          \<and> m_category m = Some (cc_category v) \<and> m_confidence m = Some (cc_confidence v)
          \<and> set (cc_evidence v) \<subseteq> {tu_id (fst ex), tu_id (snd ex)})"

lemma stored_supported:
  assumes "admit ch {tu_id (fst ex), tu_id (snd ex)} pid cs = Inr xs" and "v \<in> set xs"
    and "stored_as (record_of e owner pid rel v) m"
  shows "supported ch e owner ex pid cs m"
  using admit_result [OF assms(1,2)] assms(3) by (auto simp: supported_def stored_as_def record_of_def)

text \<open>The work on a claimed run, when it succeeds.\<close>

lemma extract_success:
  assumes ok: "run_ids_ok s" and row: "row_by e_id (extractions s) n = Some e" "e_owner e = owner" "e_id e = n"
    and keep: "\<And>p. keeps_run n (\<lambda>t. snd (respond p t))"
    and r: "extract_memories x now respond e owner s = (Inr rows, s')"
  obtains ex payload s1 cs pid where "extraction_exchange (e_session e) owner (e_turn e) s = Inr ex"
    "respond (extraction_prompt (xt_dumps x) ex) s = (Inr payload, s1)" "parse_memory_candidate_response payload = Inr cs"
    "\<And>m. m \<in> set rows \<Longrightarrow> supported (xt_chars x) e owner ex pid cs m"
    "set (memories s') = set (memories s1) \<union> set rows" "view_of s' n = Some (E_Completed, e_attempt e)" "run_ids_ok s'"
proof -
  from r obtain ex payload s1 cs ms s2 where ex: "extraction_exchange (e_session e) owner (e_turn e) s = Inr ex"
    and resp: "respond (extraction_prompt (xt_dumps x) ex) s = (Inr payload, s1)"
    and cs: "parse_memory_candidate_response payload = Inr cs"
    and prep: "prepare_records (xt_chars x) (now 1) e owner cs ex s1 = (Inr ms, s2)"
    and act: "activate_extraction (now 2) n owner ms s2 = (Inr rows, s')"
    unfolding extract_memories_def then_op_Inr read_op_eq pure_op_eq row(3) by blast
  obtain key xs rel where mem: "memories s2 = memories s1" "extractions s2 = extractions s1"
    and xs: "admit (xt_chars x) {tu_id (fst ex), tu_id (snd ex)} (memory_persona_id key s1) cs = Inr xs"
    and ms: "ms = map (record_of e owner (memory_persona_id key s1) rel) xs"
    using prepare_records_Inr [OF prep] by blast
  have kept: "run_ids_ok s1" "row_by e_id (extractions s1) n = Some e"
    using keep [of "extraction_prompt (xt_dumps x) ex"] ok row resp unfolding keeps_run_def by (metis snd_conv)+
  then have ok2: "run_ids_ok s2" and row2: "row_by e_id (extractions s2) n = Some e" using mem by (simp_all add: run_ids_ok_def)
  obtain s3 where c: "create_all (now 2) ms s2 = Inr (rows, s3)" and fin: "complete_run (now 2) owner e s3 = Inr s'"
      and st: "e_status e = E_Processing"
    using activate_extraction_result [OF ok2 act] row2 by (metis option.inject)
  have auto: "\<forall>m \<in> set ms. nm_source m = Automatic" by (auto simp: ms record_of_def)
  note C = create_all_extends [OF c auto]
  have ok3: "run_ids_ok s3" and row3: "row_by e_id (extractions s3) (e_id e) = Some e"
    using ok2 row2 C row(3) by (simp_all add: run_ids_ok_def)
  note M = complete_run_moves [OF fin row3 row(2) st ok3]
  have "supported (xt_chars x) e owner ex (memory_persona_id key s1) cs m" if m: "m \<in> set rows" for m
    using list_all2_right [OF create_all_stored [OF c] m] stored_supported [OF xs] by (auto simp: ms)
  moreover have "set (memories s') = set (memories s1) \<union> set rows" using C M(2) mem(1) by auto
  moreover have "view_of s' n = Some (E_Completed, e_attempt e)" using M(1) row(3) by (simp add: view_of_def)
  ultimately show thesis using that [OF ex resp cs] M(3) by blast
qed

text \<open>The three ways an attempt can end.\<close>

lemma process_cases:
  assumes "process x now respond n owner s = (r, s')"
  obtains (refused) err where "claim_extraction_run (now 0) n owner s = (Inl err, s)" "r = Inl err" "s' = s"
  | (stored) e t rows where "claim_extraction_run (now 0) n owner s = (Inr e, t)"
      "extract_memories x now respond e owner t = (Inr rows, s')" "r = Inr rows"
  | (failed) e t err s1 q where "claim_extraction_run (now 0) n owner s = (Inr e, t)"
      "extract_memories x now respond e owner t = (Inl err, s1)"
      "fail_extraction_run (now 3) (e_id e) owner (u ''extraction_failed'') s1 = (q, s')"
      "r = Inl (case q of Inl y \<Rightarrow> if swallowed y then err else y | Inr _ \<Rightarrow> err)"
proof -
  obtain c t where c: "claim_extraction_run (now 0) n owner s = (c, t)" by (rule prod.exhaust)
  show thesis
  proof (cases c)
    case (Inl err)
    then have "t = s" using c by (simp add: claim_extraction_run_def transition_extraction_run_def transaction_Inl)
    then have p: "claim_extraction_run (now 0) n owner s = (Inl err, s)" using c Inl by simp
    show thesis by (rule refused [OF p]) (use assms p in \<open>simp_all add: process_def then_op_def\<close>)
  next
    case (Inr e)
    obtain y s1 where y: "extract_memories x now respond e owner t = (y, s1)" by (rule prod.exhaust)
    show thesis
    proof (cases y)
      case (Inr rows)
      with c \<open>c = Inr e\<close> y have p: "claim_extraction_run (now 0) n owner s = (Inr e, t)"
        "extract_memories x now respond e owner t = (Inr rows, s1)" by simp_all
      then have "r = Inr rows" "s' = s1" using assms by (simp_all add: process_def then_op_def)
      with p stored show thesis by simp
    next
      case (Inl err)
      obtain q s2 where "fail_extraction_run (now 3) (e_id e) owner (u ''extraction_failed'') s1 = (q, s2)" by (rule prod.exhaust)
      with c \<open>c = Inr e\<close> y Inl have p: "claim_extraction_run (now 0) n owner s = (Inr e, t)"
        "extract_memories x now respond e owner t = (Inl err, s1)"
        "fail_extraction_run (now 3) (e_id e) owner (u ''extraction_failed'') s1 = (q, s2)" by simp_all
      then have "r = Inl (case q of Inl y \<Rightarrow> if swallowed y then err else y | Inr _ \<Rightarrow> err)" "s' = s2"
        using assms by (cases q; simp add: process_def then_op_def)+
      with p failed show thesis by simp
    qed
  qed
qed

lemma fail_result:
  assumes "run_ids_ok s" and "row_by e_id (extractions s) n = Some e" and "e_owner e = owner"
    and "e_status e = E_Processing" and "fail_extraction_run now n owner err s = (q, s')"
  shows "memories s' = memories s \<and> run_ids_ok s' \<and> (\<exists>e'. row_by e_id (extractions s') n = Some e' \<and> e_owner e' = owner
    \<and> e_attempt e' = e_attempt e \<and> e_status e' \<in> {E_Failed, E_Processing})"
proof (cases q)
  case (Inl y)
  then have "s' = s" using assms(5)
    by (auto simp: fail_extraction_run_def transition_extraction_run_def transaction_Inl split: if_splits)
  with assms show ?thesis by simp
next
  case (Inr e')
  then have t: "transition_extraction_run now n owner E_Processing E_Failed 0 (Some err)
      ''extraction run is terminal or not processing'' s = (Inr e', s')"
    using assms(5) by (auto simp: fail_extraction_run_def split: if_splits)
  show ?thesis
    by (rule transition_result [OF assms(1) t])
      (use assms(1-3) in \<open>auto simp: run_ids_ok_def map_update_where moved_def\<close>)
qed

lemma process_failure:
  assumes ok: "run_ids_ok s" and keep: "\<And>p. keeps_run n (\<lambda>t. snd (respond p t))"
    and r: "process x now respond n owner s = (Inl err, s')"
  shows "s' = s \<or> (\<exists>e e' t. row_by e_id (extractions s) n = Some e \<and> e_owner e = owner \<and> e_status e = E_Pending
      \<and> row_by e_id (extractions s') n = Some e' \<and> e_owner e' = owner \<and> e_attempt e' = e_attempt e + 1
      \<and> e_status e' \<in> {E_Failed, E_Processing} \<and> run_ids_ok s'
      \<and> memories t = memories s \<and> (memories s' = memories t \<or> (\<exists>p. memories s' = memories (snd (respond p t)))))"
  using r
proof (cases rule: process_cases)
  case (failed e t err' s1 q)
  obtain e0 where e0: "row_by e_id (extractions s) n = Some e0" "e_owner e0 = owner" "e_status e0 = E_Pending"
      "e = moved E_Processing 1 None (now 0) e0" "e_id e = n" "row_by e_id (extractions t) n = Some e" "run_ids_ok t"
      and mt: "memories t = memories s"
    by (rule claim_result [OF ok failed(1)]) auto
  obtain t' where t': "t' = t \<or> (\<exists>p. t' = snd (respond p t))" "memories s1 = memories t'" "extractions s1 = extractions t'"
    using extract_failure [OF failed(2)] by blast
  have kept: "run_ids_ok t'" "row_by e_id (extractions t') n = Some e"
    using t'(1) keep e0(6,7) unfolding keeps_run_def by metis+
  have "memories s' = memories s1 \<and> run_ids_ok s' \<and> (\<exists>e'. row_by e_id (extractions s') n = Some e' \<and> e_owner e' = owner
      \<and> e_attempt e' = e_attempt e \<and> e_status e' \<in> {E_Failed, E_Processing})"
    using kept e0 failed(3) by (intro fail_result) (auto simp: run_ids_ok_def t'(3) moved_def)
  with e0 mt t' show ?thesis by (auto simp: moved_def)
qed simp_all

text \<open>
One attempt at an extraction. When it succeeds, the run was the owner's and pending and is now
completed, with one more attempt; the rows stored are supported by the answer of the model: each is
a candidate of it that the policy admits, about turns of the run's own exchange, with the run's
owner, session and turn as provenance, and private only to the persona of the session; nothing else
is added. When it fails, no memory is added or removed, and the run keeps its state or has failed
(or, when the owner's lifecycle has moved on, is left processing) with one more attempt.
\<close>
theorem extraction_attempt_outcome:
  assumes "run_ids_ok s" and "\<And>p. keeps_run n (\<lambda>t. snd (respond p t))"
    and "process x now respond n owner s = (r, s')"
  shows "(\<forall>rows. r = Inr rows \<longrightarrow> (\<exists>e ex payload t s1 cs persona_id. extraction_of n owner s = Some e \<and> e_status e = E_Pending
        \<and> extraction_exchange (e_session e) owner (e_turn e) s = Inr ex
        \<and> respond (extraction_prompt (xt_dumps x) ex) t = (Inr payload, s1) \<and> memories t = memories s
        \<and> parse_memory_candidate_response payload = Inr cs
        \<and> (\<forall>m \<in> set rows. supported (xt_chars x) e owner ex persona_id cs m)
        \<and> set (memories s') = set (memories s1) \<union> set rows
        \<and> view_of s' n = Some (E_Completed, e_attempt e + 1)))
    \<and> (\<forall>err. r = Inl err \<and> (\<forall>p t. memories (snd (respond p t)) = memories t) \<longrightarrow> memories s' = memories s
        \<and> (s' = s \<or> (\<exists>a. view_of s n = Some (E_Pending, a)
             \<and> (view_of s' n = Some (E_Failed, a + 1) \<or> view_of s' n = Some (E_Processing, a + 1)))))"
proof (cases r)
  case (Inl err)
  with process_failure [OF assms(1,2) assms(3) [unfolded Inl]] show ?thesis
    by (auto simp: view_of_def)
next
  case (Inr rows)
  with assms(3) obtain e t where c: "claim_extraction_run (now 0) n owner s = (Inr e, t)"
      and x: "extract_memories x now respond e owner t = (Inr rows, s')"
    by (cases rule: process_cases) auto
  obtain e0 xs where e0: "row_by e_id (extractions s) n = Some e0" "e_owner e0 = owner" "e_status e0 = E_Pending"
      "e = moved E_Processing 1 None (now 0) e0" "e_id e = n" "row_by e_id (extractions t) n = Some e" "run_ids_ok t"
      and t: "t = s\<lparr>extractions := xs\<rparr>"
    by (rule claim_result [OF assms(1) c]) blast
  have same: "e_owner e = owner" "e_session e = e_session e0" "e_turn e = e_turn e0" "e_attempt e = e_attempt e0 + 1"
    using e0(2,4) by (simp_all add: moved_def)
  have sup: "supported ch e owner ex pid cs m = supported ch e0 owner ex pid cs m" for ch ex pid cs m
    by (simp add: supported_def same)
  have ex: "extraction_exchange a b c t = extraction_exchange a b c s" for a b c
    by (simp add: extraction_exchange_def list_turns_def owned_session_def session_turns_def t)
  obtain ex payload s1 cs pid where X: "extraction_exchange (e_session e) owner (e_turn e) t = Inr ex"
    "respond (extraction_prompt (xt_dumps x) ex) t = (Inr payload, s1)" "parse_memory_candidate_response payload = Inr cs"
    "\<And>m. m \<in> set rows \<Longrightarrow> supported (xt_chars x) e owner ex pid cs m"
    "set (memories s') = set (memories s1) \<union> set rows" "view_of s' n = Some (E_Completed, e_attempt e)"
    by (rule extract_success [OF e0(7,6) same(1) e0(5) assms(2) x]) blast
  have "extraction_exchange (e_session e0) owner (e_turn e0) s = Inr ex" using X(1) by (simp add: same ex)
  moreover have "extraction_of n owner s = Some e0" using e0(1,2) extraction_of_row [OF assms(1)] by blast
  moreover have "memories t = memories s" by (simp add: t)
  ultimately show ?thesis using X(2-6) e0(3) Inr unfolding sup same by blast
qed

section \<open>The retries\<close>

definition quiet :: "int \<Rightarrow> surroundings \<Rightarrow> bool" where
  "quiet n w \<longleftrightarrow> (\<forall>k. keeps_run n (su_between w k)) \<and> (\<forall>k p. keeps_run n (\<lambda>t. snd (su_respond w k p t)))
     \<and> keeps_run n (su_before w)"

lemma quietD: "quiet n w \<Longrightarrow> keeps_run n (su_between w k)" "quiet n w \<Longrightarrow> keeps_run n (\<lambda>t. snd (su_respond w k p t))"
  "quiet n w \<Longrightarrow> keeps_run n (su_before w)"
  by (simp_all add: quiet_def)

definition attempts :: "int \<Rightarrow> db \<Rightarrow> int" where
  "attempts n s = (case view_of s n of None \<Rightarrow> 0 | Some (_, a) \<Rightarrow> a)"

text \<open>What is left of the budget: two for each attempt, one for a retry that has not begun.\<close>

definition budget :: "int \<Rightarrow> int \<Rightarrow> db \<Rightarrow> nat" where
  "budget n max_attempts s = (case view_of s n of None \<Rightarrow> 0
     | Some (st, a) \<Rightarrow> 2 * nat (max_attempts - a) + (if st = E_Failed then 1 else 0))"

lemma retry_result:
  assumes "run_ids_ok s" and "keeps_run n env" and "retry_extraction_run env now n owner max_attempts s = (Inr e', s')"
  shows "run_ids_ok s' \<and> (\<exists>a. view_of s n = Some (E_Failed, a) \<and> a < max_attempts \<and> view_of s' n = Some (E_Pending, a))"
proof -
  from assms(3) obtain e where e: "extraction_of n owner s = Some e" "e_status e = E_Failed" "e_attempt e < max_attempts"
    and t: "transition_extraction_run now n owner E_Failed E_Pending 0 None ''extraction run is not retryable'' (env s) = (Inr e', s')"
    by (auto simp: retry_extraction_run_def get_extraction_run_def positive_ids_def result_simps split: if_splits sum.splits option.splits)
  have ok: "run_ids_ok (env s)" and row: "row_by e_id (extractions (env s)) n = row_by e_id (extractions s) n"
    using assms(1,2) by (simp_all add: keeps_run_def)
  have r: "row_by e_id (extractions s) n = Some e" using e(1) extraction_of_row [OF assms(1)] by blast
  show ?thesis
    by (rule transition_result [OF ok t])
      (use ok e r row in \<open>auto simp: run_ids_ok_def map_update_where view_of_def moved_def\<close>)
qed

lemma retry_refused:
  assumes "run_ids_ok s" and "keeps_run n env" and "retry_extraction_run env now n owner max_attempts s = (Inl y, s')"
  shows "run_ids_ok s' \<and> view_of s' n = view_of s n"
proof -
  have "s' = s \<or> s' = env s"
    using assms(3) by (auto simp: retry_extraction_run_def transition_extraction_run_def transaction_Inl
      split: if_splits sum.splits option.splits)
  then show ?thesis using assms(1,2) by (auto simp: keeps_run_def view_of_def)
qed

lemma process_view:
  assumes "run_ids_ok s" and "\<And>p. keeps_run n (\<lambda>t. snd (respond p t))" and "process x now respond n owner s = (r, s')"
  shows "run_ids_ok s' \<and> (\<forall>rows. r = Inr rows \<longrightarrow> view_of s' n = Some (E_Completed, attempts n s'))
    \<and> attempts n s' \<le> attempts n s + 1 \<and> attempts n s \<le> attempts n s'
    \<and> (s' = s \<or> (\<exists>a st. view_of s n = Some (E_Pending, a) \<and> view_of s' n = Some (st, a + 1)))"
proof (cases r)
  case (Inl err)
  with process_failure [OF assms(1,2) assms(3) [unfolded Inl]] assms(1) show ?thesis
    by (auto simp: view_of_def attempts_def)
next
  case (Inr rows)
  with assms(3) obtain e t where c: "claim_extraction_run (now 0) n owner s = (Inr e, t)"
      and x: "extract_memories x now respond e owner t = (Inr rows, s')"
    by (cases rule: process_cases) auto
  obtain e0 where e0: "row_by e_id (extractions s) n = Some e0" "e_owner e0 = owner" "e_status e0 = E_Pending"
      "e = moved E_Processing 1 None (now 0) e0" "e_id e = n" "row_by e_id (extractions t) n = Some e" "run_ids_ok t"
    by (rule claim_result [OF assms(1) c]) blast
  have same: "e_owner e = owner" "e_attempt e = e_attempt e0 + 1" using e0(2,4) by (simp_all add: moved_def)
  show ?thesis
    by (rule extract_success [OF e0(7,6) same(1) e0(5) assms(2) x])
      (use Inr e0 in \<open>auto simp: view_of_def attempts_def same\<close>)
qed

text \<open>Work on one run leaves the others alone.\<close>

definition op_keeps :: "int \<Rightarrow> (db, 'a) op \<Rightarrow> bool" where
  "op_keeps m f \<longleftrightarrow> keeps_run m (\<lambda>s. snd (f s))"

lemma op_keepsD: "op_keeps m f \<Longrightarrow> f s = (r, s') \<Longrightarrow> run_ids_ok s
    \<Longrightarrow> run_ids_ok s' \<and> row_by e_id (extractions s') m = row_by e_id (extractions s) m"
  unfolding op_keeps_def keeps_run_def by (metis snd_conv)

lemma op_keepsI: "(\<And>s r s'. f s = (r, s') \<Longrightarrow> run_ids_ok s
    \<Longrightarrow> run_ids_ok s' \<and> row_by e_id (extractions s') m = row_by e_id (extractions s) m) \<Longrightarrow> op_keeps m f"
  unfolding op_keeps_def keeps_run_def by (metis prod.collapse)

lemma op_keeps_same: "(\<And>s. extractions (snd (f s)) = extractions s) \<Longrightarrow> op_keeps m f"
  by (simp add: op_keeps_def keeps_run_def run_ids_ok_def)

lemma op_keeps_then:
  assumes "op_keeps m f" and "\<And>a. op_keeps m (g a)"
  shows "op_keeps m (then_op f g)"
proof (rule op_keepsI)
  fix s r s'
  assume "then_op f g s = (r, s')" "run_ids_ok s"
  then show "run_ids_ok s' \<and> row_by e_id (extractions s') m = row_by e_id (extractions s) m"
    using op_keepsD [OF assms(1)] op_keepsD [OF assms(2)]
    by (cases r) (force simp: then_op_Inl then_op_Inr)+
qed

lemma other_row: "m \<noteq> n \<Longrightarrow> (\<And>x. e_id (f x) = e_id x) \<Longrightarrow> (\<And>x. Q x \<Longrightarrow> e_id x = n)
    \<Longrightarrow> row_by e_id (update_where Q f rows) m = row_by e_id rows m"
  by (cases "row_by e_id rows m") (auto simp: row_by_update dest!: row_by_Some)

lemma transition_keeps: "m \<noteq> n \<Longrightarrow> op_keeps m (transition_extraction_run now n owner expected st inc err conflict)"
proof (rule op_keepsI)
  fix s r s'
  assume m: "m \<noteq> n" and t: "transition_extraction_run now n owner expected st inc err conflict s = (r, s')" and ok: "run_ids_ok s"
  show "run_ids_ok s' \<and> row_by e_id (extractions s') m = row_by e_id (extractions s) m"
  proof (cases r)
    case (Inr e)
    show ?thesis
      by (rule transition_result [OF ok t [unfolded Inr]]) (use m ok in \<open>auto simp: run_ids_ok_def map_update_where\<close>)
  qed (use t ok in \<open>auto simp: transition_extraction_run_def transaction_Inl\<close>)
qed

lemma activate_keeps: "m \<noteq> n \<Longrightarrow> op_keeps m (activate_extraction now n owner ms)"
proof (rule op_keepsI)
  fix s r s'
  assume m: "m \<noteq> n" and a: "activate_extraction now n owner ms s = (r, s')" and ok: "run_ids_ok s"
  show "run_ids_ok s' \<and> row_by e_id (extractions s') m = row_by e_id (extractions s) m"
  proof (cases r)
    case (Inl err)
    with a activation_tx.error_unchanged ok show ?thesis by metis
  next
    case (Inr rows)
    obtain e s1 where chk: "\<And>x. x \<in> set ms \<Longrightarrow> check_extracted owner e x = Inr ()" and c: "create_all now ms s = Inr (rows, s1)"
      and fin: "complete_run now owner e s1 = Inr s'" and id: "e_id e = n"
      by (rule activate_extraction_result [OF ok a [unfolded Inr]]) blast
    have "\<forall>x \<in> set ms. nm_source x = Automatic" using chk by (auto simp: check_extracted_def result_simps)
    then have "extractions s1 = extractions s" using create_all_extends [OF c] by blast
    moreover have "s' = s1\<lparr>extractions := update_where (\<lambda>x. e_id x = e_id e \<and> e_owner x = owner \<and> e_status x = E_Processing
        \<and> e_epoch x = e_epoch e) (moved E_Completed 0 None now) (extractions s1)\<rparr>"
      using fin by (simp add: complete_run_def Let_def result_simps)
    ultimately show ?thesis using ok m id by (simp add: run_ids_ok_def map_update_where other_row)
  qed
qed

lemma prepare_keeps: "op_keeps m (prepare_records ch now e owner cs ex)"
  by (rule op_keeps_same) (metis prepare_records_Inl prepare_records_Inr obj_sumE prod.collapse)

lemma extract_keeps:
  assumes "m \<noteq> e_id e" and "\<And>p. op_keeps m (respond p)"
  shows "op_keeps m (extract_memories x now respond e owner)"
  unfolding extract_memories_def
  by (intro op_keeps_then prepare_keeps activate_keeps assms op_keeps_same) (simp_all add: read_op_def pure_op_def)

lemma fail_keeps: "m \<noteq> n \<Longrightarrow> op_keeps m (fail_extraction_run now n owner err)"
  using transition_keeps [of m n] by (auto simp: fail_extraction_run_def [abs_def] op_keeps_def keeps_run_def)

lemma process_keeps:
  assumes "m \<noteq> n" and "\<And>p. op_keeps m (respond p)"
  shows "op_keeps m (process x now respond n owner)"
proof (rule op_keepsI)
  fix s r s'
  assume r: "process x now respond n owner s = (r, s')" and ok: "run_ids_ok s"
  have claim: "run_ids_ok t \<and> row_by e_id (extractions t) m = row_by e_id (extractions s) m \<and> e_id e = n"
    if "claim_extraction_run (now 0) n owner s = (Inr e, t)" for e t
    using claim_result [OF ok that] op_keepsD [OF transition_keeps [OF assms(1)] that [unfolded claim_extraction_run_def] ok] by metis
  show "run_ids_ok s' \<and> row_by e_id (extractions s') m = row_by e_id (extractions s) m"
    using r
  proof (cases rule: process_cases)
    case (stored e t rows)
    with claim [OF stored(1)] op_keepsD [OF extract_keeps stored(2)] assms show ?thesis by metis
  next
    case (failed e t err s1 q)
    have e: "m \<noteq> e_id e" using claim [OF failed(1)] assms(1) by simp
    show ?thesis
      using claim [OF failed(1)] op_keepsD [OF extract_keeps [OF e assms(2)] failed(2)] op_keepsD [OF fail_keeps [OF e] failed(3)]
      by metis
  qed (use ok in simp)
qed

lemma retry_keeps:
  assumes "m \<noteq> n" and "keeps_run m env"
  shows "op_keeps m (retry_extraction_run env now n owner max_attempts)"
proof (rule op_keepsI)
  fix s r s'
  assume r: "retry_extraction_run env now n owner max_attempts s = (r, s')" and ok: "run_ids_ok s"
  have env: "run_ids_ok (env s) \<and> row_by e_id (extractions (env s)) m = row_by e_id (extractions s) m"
    using assms(2) ok by (simp add: keeps_run_def)
  consider "s' = s" | "transition_extraction_run now n owner E_Failed E_Pending 0 None ''extraction run is not retryable'' (env s) = (r, s')"
    using r by (auto simp: retry_extraction_run_def split: if_splits sum.splits option.splits)
  then show "run_ids_ok s' \<and> row_by e_id (extractions s') m = row_by e_id (extractions s) m"
  proof cases
    case 2
    from op_keepsD [OF transition_keeps [OF assms(1)] 2] env show ?thesis by simp
  qed (use ok in simp)
qed

definition others_kept :: "int \<Rightarrow> surroundings \<Rightarrow> db \<Rightarrow> db \<Rightarrow> bool" where
  "others_kept n w s s' \<longleftrightarrow> (\<forall>m. m \<noteq> n \<and> quiet m w
     \<longrightarrow> row_by e_id (extractions s') m = row_by e_id (extractions s) m)"

lemma others_trans: "others_kept n w s t \<Longrightarrow> others_kept n w t s' \<Longrightarrow> others_kept n w s s'"
  by (simp add: others_kept_def)

lemma process_others:
  "run_ids_ok s \<Longrightarrow> process x (su_now w k) (su_respond w k) n owner s = (r, s') \<Longrightarrow> others_kept n w s s'"
  unfolding others_kept_def using op_keepsD [OF process_keeps] by (metis quietD(2) op_keeps_def)

lemma retry_others:
  assumes "run_ids_ok s" and "retry_extraction_run env now n owner max_attempts s = (r, s')" and "\<And>m. quiet m w \<Longrightarrow> keeps_run m env"
  shows "others_kept n w s s'"
  unfolding others_kept_def using op_keepsD [OF retry_keeps assms(2,1)] assms(3) by blast

text \<open>A turn of the loop ends it, or leaves less of the budget.\<close>

lemma retry_loop_turn:
  assumes "run_ids_ok s" and "quiet n w"
  obtains (ends) r s' where "retry_loop x w n owner max_attempts k s = Some (r, s')" "run_ids_ok s'"
      "\<And>rows. r = Inr rows \<Longrightarrow> view_of s' n = Some (E_Completed, attempts n s')" "attempts n s' \<le> attempts n s + 1"
      "others_kept n w s s'"
  | (again) s' where "retry_loop x w n owner max_attempts k s = retry_loop x w n owner max_attempts (Suc k) s'"
      "run_ids_ok s'" "budget n max_attempts s' < budget n max_attempts s" "attempts n s' < max_attempts" "others_kept n w s s'"
proof -
  obtain r s1 where p: "process x (su_now w k) (su_respond w k) n owner s = (r, s1)" by (rule prod.exhaust)
  note P = process_view [OF assms(1) quietD(2) [OF assms(2)] p]
  note K = process_others [OF assms(1) p]
  note L = retry_loop.simps [of x w n owner max_attempts k s, unfolded p]
  show thesis
  proof (cases r)
    case (Inr rows)
    show thesis by (rule ends [of r s1]) (use L P K Inr in auto)
  next
    case (Inl err)
    show thesis
    proof (cases "\<exists>r. retry_loop x w n owner max_attempts k s = Some (Inl r, s1)")
      case True
      with P K ends show thesis by auto
    next
      case False
      with L Inl obtain e q s2 where e: "get_extraction_run n owner s1 = Inr (Some e)"
        and q: "retry_extraction_run (su_between w k) (su_now w k 4) n owner max_attempts s1 = (q, s2)"
        and L': "retry_loop x w n owner max_attempts k s = (case q of Inl y \<Rightarrow> Some (Inl y, s2)
           | Inr _ \<Rightarrow> retry_loop x w n owner max_attempts (Suc k) s2)"
        by (auto split: sum.splits option.splits if_splits prod.splits)
      have K2: "others_kept n w s s2"
        using K retry_others [OF _ q quietD(1)] P others_trans by blast
      show thesis
      proof (cases q)
        case (Inl y)
        have "run_ids_ok s2 \<and> view_of s2 n = view_of s1 n"
          using retry_refused [OF _ quietD(1) [OF assms(2)] q [unfolded Inl]] P by blast
        with L' Inl P K2 show thesis by (intro ends [of "Inl y" s2]) (auto simp: attempts_def)
      next
        case (Inr e')
        note R = retry_result [OF _ quietD(1) [OF assms(2)] q [unfolded Inr]]
        show thesis
          by (rule again [of s2]) (use L' Inr P R K2 in \<open>auto simp: attempts_def budget_def\<close>)
      qed
    qed
  qed
qed

lemma retry_loop_ends:
  assumes "run_ids_ok s" and "quiet n w"
  shows "\<exists>r s'. retry_loop x w n owner max_attempts k s = Some (r, s') \<and> run_ids_ok s'
    \<and> (\<forall>rows. r = Inr rows \<longrightarrow> view_of s' n = Some (E_Completed, attempts n s'))
    \<and> attempts n s' \<le> max (attempts n s + 1) max_attempts \<and> others_kept n w s s'"
  using assms(1)
proof (induction "budget n max_attempts s" arbitrary: s k rule: less_induct)
  case less
  from less.prems assms(2) show ?case
  proof (cases rule: retry_loop_turn [where k = k and x = x and owner = owner and max_attempts = max_attempts])
    case (ends r s')
    then show ?thesis by (intro exI [of _ r] exI [of _ s']) auto
  next
    case (again s')
    from less.hyps [OF again(3,2), of "Suc k"] obtain r s'' where e: "retry_loop x w n owner max_attempts (Suc k) s' = Some (r, s'')"
      "run_ids_ok s''" "\<forall>rows. r = Inr rows \<longrightarrow> view_of s'' n = Some (E_Completed, attempts n s'')"
      "attempts n s'' \<le> max (attempts n s' + 1) max_attempts" "others_kept n w s' s''" by blast
    moreover have "attempts n s'' \<le> max (attempts n s + 1) max_attempts" using e(4) again(4) by simp
    ultimately show ?thesis using again(1) others_trans [OF again(5) e(5)] by simp
  qed
qed

text \<open>
The retries end. When nothing else works on the run, \<open>process_with_retry\<close> returns for every
model, whatever it answers or raises each time and whatever state the run is in; the run is never
attempted more than once beyond the attempts it had or the budget, and when the call succeeds the run
is completed.
\<close>
theorem retries_end:
  assumes "run_ids_ok s" and "quiet n w"
  shows "\<exists>r s'. process_with_retry x w n owner max_attempts s = Some (r, s')
    \<and> attempts n s' \<le> max (attempts n s + 1) max_attempts
    \<and> (\<forall>rows. r = Inr rows \<longrightarrow> view_of s' n = Some (E_Completed, attempts n s'))"
  using retry_loop_ends [OF assms, of x owner max_attempts 0] assms(1)
  by (cases "max_attempts < 1") (auto simp: process_with_retry_def)

section \<open>Draining a lane\<close>

text \<open>A run that is finished, or has failed with the budget spent.\<close>

definition settled_run :: "int \<Rightarrow> int \<Rightarrow> db \<Rightarrow> bool" where
  "settled_run max_attempts n s = (case view_of s n of
     None \<Rightarrow> False
   | Some (st, a) \<Rightarrow> st \<in> {E_Completed, E_Discarded} \<or> st = E_Failed \<and> max_attempts \<le> a)"

lemma process_with_retry_ends:
  assumes "run_ids_ok s" and "quiet n w"
  shows "\<exists>r s'. process_with_retry x w n owner max_attempts s = Some (r, s') \<and> run_ids_ok s' \<and> others_kept n w s s'
    \<and> (\<forall>rows. r = Inr rows \<longrightarrow> settled_run max_attempts n s')"
proof (cases "max_attempts < 1")
  case True
  with assms(1) show ?thesis by (simp add: process_with_retry_def others_kept_def)
next
  case False
  from retry_loop_ends [OF assms, of x owner max_attempts 0] obtain r s' where
    "retry_loop x w n owner max_attempts 0 s = Some (r, s')" "run_ids_ok s'" "others_kept n w s s'"
    "\<forall>rows. r = Inr rows \<longrightarrow> view_of s' n = Some (E_Completed, attempts n s')" by blast
  with False show ?thesis by (auto simp: process_with_retry_def settled_run_def)
qed

lemma drain_run_result:
  assumes ok: "run_ids_ok s" and q: "quiet (e_id e) w" and row: "row_by e_id (extractions s) (e_id e) = Some e"
  shows "\<exists>r s'. drain_run x w owner max_attempts e s = Some (r, s') \<and> run_ids_ok s' \<and> others_kept (e_id e) w s s'
    \<and> (r = Inr () \<longrightarrow> settled_run max_attempts (e_id e) s')"
proof -
  let ?n = "e_id e"
  obtain r1 s1 where one: "(if e_status e = E_Processing then recover_extraction_run (su_first w) ?n owner s else (Inr e, s)) = (r1, s1)"
    by (rule prod.exhaust)
  have k1: "run_ids_ok s1 \<and> others_kept ?n w s s1"
  proof (cases "e_status e = E_Processing")
    case True
    then have t: "transition_extraction_run (su_first w) ?n owner E_Processing E_Pending 0 None ''extraction run is not recoverable'' s = (r1, s1)"
      using one by (simp add: recover_extraction_run_def)
    show ?thesis using op_keepsD [OF transition_keeps t ok] op_keepsD [OF transition_keeps t ok, of "?n + 1"]
      by (auto simp: others_kept_def)
  qed (use one ok in \<open>auto simp: others_kept_def\<close>)
  show ?thesis
  proof (cases r1)
    case (Inl y)
    with one k1 show ?thesis by (auto simp: drain_run_def)
  next
    case (Inr e1)
    show ?thesis
    proof (cases "e_status e = E_Failed \<and> max_attempts \<le> e_attempt e \<or> e_status e \<in> {E_Completed, E_Discarded}")
      case True
      then have "s1 = s" using one by (auto split: if_splits)
      with True row have "settled_run max_attempts ?n s1" by (auto simp: settled_run_def view_of_def)
      with True Inr one k1 show ?thesis by (auto simp: drain_run_def)
    next
      case False
      obtain r2 s2 where two: "(if e_status e = E_Failed
          then retry_extraction_run (su_before w) (su_first w) ?n owner max_attempts s1 else (Inr e1, s1)) = (r2, s2)"
        by (rule prod.exhaust)
      have k2: "run_ids_ok s2 \<and> others_kept ?n w s s2"
      proof (cases "e_status e = E_Failed")
        case True
        then have t: "retry_extraction_run (su_before w) (su_first w) ?n owner max_attempts s1 = (r2, s2)" using two by simp
        have "run_ids_ok s2"
          using retry_result [OF _ quietD(3) [OF q]] retry_refused [OF _ quietD(3) [OF q]] k1 t by (cases r2) blast+
        moreover have "others_kept ?n w s1 s2" using k1 by (intro retry_others [OF _ t quietD(3)]) simp_all
        ultimately show ?thesis using k1 others_trans by blast
      qed (use two k1 Inr in auto)
      have d: "drain_run x w owner max_attempts e s = (case r2 of Inl y \<Rightarrow> Some (Inl y, s2)
          | Inr _ \<Rightarrow> (case process_with_retry x w ?n owner max_attempts s2 of None \<Rightarrow> None
               | Some (Inl y, s3) \<Rightarrow> Some (Inl y, s3) | Some (Inr _, s3) \<Rightarrow> Some (Inr (), s3)))"
        using False Inr one two by (auto simp: drain_run_def)
      from process_with_retry_ends [OF _ q, of s2 x owner max_attempts] k2 obtain r3 s3 where
        "process_with_retry x w ?n owner max_attempts s2 = Some (r3, s3)" "run_ids_ok s3" "others_kept ?n w s2 s3"
        "\<forall>rows. r3 = Inr rows \<longrightarrow> settled_run max_attempts ?n s3" by blast
      with d k2 show ?thesis by (cases r2; cases r3) (auto intro: others_trans)
    qed
  qed
qed

lemma drain_runs_result:
  assumes "run_ids_ok s" and "\<And>m n. quiet m (env n)" and "distinct (map e_id es)"
    and "\<forall>e \<in> set es. row_by e_id (extractions s) (e_id e) = Some e"
  shows "\<exists>r s'. drain_runs x env owner max_attempts es s = Some (r, s') \<and> run_ids_ok s'
    \<and> (\<forall>m. m \<notin> e_id ` set es \<longrightarrow> row_by e_id (extractions s') m = row_by e_id (extractions s) m)
    \<and> (r = Inr () \<longrightarrow> (\<forall>e \<in> set es. settled_run max_attempts (e_id e) s'))"
  using assms(1,3,4)
proof (induction es arbitrary: s)
  case (Cons e es)
  obtain r1 s1 where one: "drain_run x (env (e_id e)) owner max_attempts e s = Some (r1, s1)" "run_ids_ok s1"
      "others_kept (e_id e) (env (e_id e)) s s1" "r1 = Inr () \<Longrightarrow> settled_run max_attempts (e_id e) s1"
    using drain_run_result [where w = "env (e_id e)", OF Cons.prems(1) assms(2), of e x owner max_attempts] Cons.prems(3) by auto
  have kept: "row_by e_id (extractions s1) m = row_by e_id (extractions s) m" if "m \<noteq> e_id e" for m
    using one(3) that assms(2) by (simp add: others_kept_def)
  show ?case
  proof (cases r1)
    case (Inl y)
    with one kept show ?thesis by auto
  next
    case (Inr q)
    have "\<forall>f \<in> set es. row_by e_id (extractions s1) (e_id f) = Some f"
    proof
      fix f
      assume f: "f \<in> set es"
      then have "e_id f \<in> e_id ` set es" by simp
      then have "e_id f \<noteq> e_id e" using Cons.prems(2) by auto
      with kept f Cons.prems(3) show "row_by e_id (extractions s1) (e_id f) = Some f" by simp
    qed
    from Cons.IH [OF one(2) _ this] Cons.prems(2) obtain r s' where rest: "drain_runs x env owner max_attempts es s1 = Some (r, s')"
      "run_ids_ok s'" "\<And>m. m \<notin> e_id ` set es \<Longrightarrow> row_by e_id (extractions s') m = row_by e_id (extractions s1) m"
      "r = Inr () \<Longrightarrow> \<forall>e \<in> set es. settled_run max_attempts (e_id e) s'" by auto
    have "settled_run max_attempts (e_id e) s'"
      using one(4) Inr rest(3) [of "e_id e"] Cons.prems(2) by (simp add: settled_run_def view_of_def)
    with one Inr rest kept show ?thesis by auto
  qed
qed simp

text \<open>
Draining a lane always returns, and when it does so without an exception no run of the lane is
left to do: each is completed or discarded, or has failed with its budget spent. The recovery at the
start of the program never raises, whatever happens in the lanes.
\<close>
theorem drained_lane_is_settled:
  assumes "run_ids_ok s" and "\<And>m n. quiet m (env n)" and "1 \<le> owner" and "1 \<le> lane_id"
  shows "(\<exists>r s'. drain_for_lane x env max_attempts owner lane_id s = Some (r, s')
      \<and> (r = Inr () \<longrightarrow> (\<forall>e \<in> set (extractions s). e_owner e = owner \<and> in_lane owner lane_id s e
           \<longrightarrow> settled_run max_attempts (e_id e) s')))
    \<and> (\<exists>s'. recover_for_user x env max_attempts owner s = Some (Inr (), s'))"
proof -
  have drain: "\<exists>r s'. drain_for_lane x env max_attempts owner n t = Some (r, s') \<and> run_ids_ok s'
      \<and> (1 \<le> n \<and> r = Inr () \<longrightarrow> (\<forall>e \<in> set (extractions t). e_owner e = owner \<and> in_lane owner n t e
           \<longrightarrow> settled_run max_attempts (e_id e) s'))" if t: "run_ids_ok t" for n t
  proof (cases "1 \<le> n")
    case True
    let ?es = "sort_key e_id (filter (\<lambda>e. e_owner e = owner \<and> in_lane owner n t e) (extractions t))"
    have l: "list_extraction_runs_for_lane owner n t = Inr ?es"
      using True assms(3) by (simp add: list_extraction_runs_for_lane_def positive_ids_def)
    have "distinct (map e_id ?es)"
      using t distinct_map_filter_sub by (simp add: run_ids_ok_def distinct_map_sort_key)
    moreover have "\<forall>e \<in> set ?es. row_by e_id (extractions t) (e_id e) = Some e"
      using t row_by_unique [of e_id "extractions t"] by (auto simp: run_ids_ok_def)
    ultimately obtain r s' where "drain_runs x env owner max_attempts ?es t = Some (r, s')" "run_ids_ok s'"
      "r = Inr () \<longrightarrow> (\<forall>e \<in> set ?es. settled_run max_attempts (e_id e) s')"
      using drain_runs_result [where env = env, OF t assms(2), of ?es x owner max_attempts] by blast
    then show ?thesis by (auto simp: drain_for_lane_def l)
  qed (use t in \<open>auto simp: drain_for_lane_def list_extraction_runs_for_lane_def positive_ids_def\<close>)
  have "\<exists>s'. recover_lanes x env max_attempts owner ns t = Some s'" if "run_ids_ok t" for ns t
    using that
  proof (induction ns arbitrary: t)
    case (Cons n ns)
    obtain r t' where "drain_for_lane x env max_attempts owner n t = Some (r, t')" "run_ids_ok t'" using drain [OF Cons.prems] by blast
    with Cons.IH show ?case by simp
  qed simp
  then have "\<exists>s'. recover_for_user x env max_attempts owner s = Some (Inr (), s')"
    using assms(1,3) by (auto simp: recover_for_user_def extraction_lane_ids_for_user_def positive_ids_def)
  with drain [OF assms(1), of lane_id] assms(4) show ?thesis by blast
qed

section \<open>An example\<close>

text \<open>The run of an exchange and a model that answers with one shared fact.\<close>

definition demo_asked :: "extraction list \<Rightarrow> memory_row list \<Rightarrow> db" where
  "demo_asked es ms = (demo_talk [demo_session 1 None] [demo_turn 1 1 User, demo_turn 2 1 Assistant] [])
     \<lparr>memories := ms, extractions := es\<rparr>"

definition demo_item :: pyval where
  "demo_item = PDict [(u ''text'', PStr (u ''hi'')), (u ''category'', PStr (u ''fact'')), (u ''scope'', PStr (u ''shared'')),
     (u ''confidence'', PInt 1), (u ''evidence_turn_ids'', PList [PInt 1])]"

definition demo_answer :: "pystr \<Rightarrow> (db, pyval) op" where
  "demo_answer p s = (Inr (PDict [(u ''candidates'', PList [demo_item])]), s)"

definition demo_extractor :: extractor where
  "demo_extractor = \<lparr>xt_chars = letters, xt_dumps = (\<lambda>_. [])\<rparr>"

definition demo_fact :: memory_row where
  "demo_fact = \<lparr>m_id = 1, m_user = 7, m_scope = Shared, m_persona = None, m_relationship = None, m_kind = u ''fact'',
     m_content = u ''hi'', m_session = Some 1, m_status = M_Active, m_created = 120, m_updated = 120, m_version = 1,
     m_source = Automatic, m_category = Some Cat_Fact, m_confidence = Some 1, m_turn = Some 1\<rparr>"

definition demo_moved :: "extraction_status \<Rightarrow> int \<Rightarrow> int \<Rightarrow> extraction" where
  "demo_moved st a t = \<lparr>e_id = 1, e_owner = 7, e_session = 1, e_turn = 1, e_epoch = 1, e_status = st, e_attempt = a,
     e_error = None, e_created = 90, e_updated = t\<rparr>"

lemma listed_length: "listed w \<Longrightarrow> 3 \<le> length w"
  by (auto simp: listed_def deny_patterns_def u_def)

lemma demo_not_denied: "\<not> denied letters (u ''hi'')"
proof -
  have "3 \<le> length t" if "listed w" "stands_in letters w t" for w t
  proof -
    from that(2) obtain xs ys zs where "t = xs @ ys @ zs" "map (ch_fold letters) ys = map (ch_fold letters) w"
      by (auto simp: stands_in_def)
    moreover from this(2) have "length ys = length w" by (metis length_map)
    ultimately show ?thesis using listed_length [OF that(1)] by simp
  qed
  from this [of _ "u ''hi''"] show ?thesis unfolding denied_iff by (auto simp: u_def)
qed

lemma demo_validated: "validate_candidate letters \<lparr>mca_text = PStr (u ''hi''), mca_category = PStr (u ''fact''),
      mca_scope = PStr (u ''shared''), mca_confidence = PInt 1, mca_evidence = [PInt 1]\<rparr>
    = Inr (Some \<lparr>cc_text = u ''hi'', cc_category = Cat_Fact, cc_scope = Shared, cc_confidence = 1, cc_evidence = [1]\<rparr>)"
proof -
  have "strip (u ''hi'') = u ''hi''" by (simp add: strip_def u_def is_space_def)
  moreover have "u ''hi'' \<noteq> []" "length (u ''hi'') \<le> 500" by (simp_all add: u_def)
  ultimately show ?thesis
    by (simp add: validate_candidate_def max_candidate_text_def category_of_def category_text_def scope_of_def scope_text_def
        unit_interval_def evidence_ids_def max_evidence_turns_def turn_id_of_def demo_not_denied)
qed

lemma demo_parsed: "parse_memory_candidate_response (PDict [(u ''candidates'', PList [demo_item])])
    = Inr [\<lparr>mca_text = PStr (u ''hi''), mca_category = PStr (u ''fact''), mca_scope = PStr (u ''shared''),
        mca_confidence = PInt 1, mca_evidence = [PInt 1]\<rparr>]"
  by (simp add: parse_memory_candidate_response_def parse_candidate_def demo_item_def dict_get_def max_candidates_def
      candidate_keys_def) (auto simp: u_def)

lemma demo_process: "process demo_extractor (\<lambda>k. 100 + 10 * int k) demo_answer 1 7 (demo_asked [demo_moved E_Pending 0 90] [])
    = (Inr [demo_fact], demo_asked [demo_moved E_Completed 1 120] [demo_fact])"
proof -
  let ?c = "\<lparr>cc_text = u ''hi'', cc_category = Cat_Fact, cc_scope = Shared, cc_confidence = 1, cc_evidence = [1]\<rparr>"
  have claim: "claim_extraction_run 100 1 7 (demo_asked [demo_moved E_Pending 0 90] [])
      = (Inr (demo_moved E_Processing 1 100), demo_asked [demo_moved E_Processing 1 100] [])"
    by (simp add: claim_extraction_run_def transition_extraction_run_def positive_ids_def fenced_run_def
      extraction_of_def demo_asked_def demo_moved_def update_where_def moved_def demo_talk_eval)
  have ex: "extraction_exchange 1 7 1 (demo_asked es ms) = Inr (demo_turn 1 1 User, demo_turn 2 1 Assistant)" for es ms
    by (simp add: extraction_exchange_def list_turns_def owned_session_def session_turns_def demo_asked_def demo_talk_eval)
  have prep: "prepare_records letters 110 (demo_moved E_Processing 1 100) 7
      [\<lparr>mca_text = PStr (u ''hi''), mca_category = PStr (u ''fact''), mca_scope = PStr (u ''shared''),
        mca_confidence = PInt 1, mca_evidence = [PInt 1]\<rparr>] (demo_turn 1 1 User, demo_turn 2 1 Assistant) (demo_asked es ms)
      = (Inr [record_of (demo_moved E_Processing 1 100) 7 None None ?c], demo_asked es ms)" for es ms
    by (simp add: prepare_records_def then_op_def read_op_def pure_op_def persona_key_for_session_def memory_persona_id_def
        persona_row_of_def demo_validated link_relationship_def demo_moved_def demo_asked_def demo_talk_eval)
  have act: "activate_extraction 120 1 7 [record_of (demo_moved E_Processing 1 100) 7 None None ?c]
      (demo_asked [demo_moved E_Processing 1 100] []) = (Inr [demo_fact], demo_asked [demo_moved E_Completed 1 120] [demo_fact])"
    by (simp add: activate_extraction_def transaction_def normalize_memory_metadata_def validate_memory_metadata_def record_of_def
        positive_ids_def fenced_run_def extraction_of_def check_extracted_def create_in_transaction_def memory_refused_def
        sql_nonblank_def scope_shape_def memory_from_def or_else_def complete_run_def moved_def update_where_def count_where_def
        demo_asked_def demo_moved_def demo_fact_def category_text_def ensure_profile_row_def demo_talk_eval)
      (simp add: u_def moved_def)
  have fields: "e_session (demo_moved st a t) = 1" "e_turn (demo_moved st a t) = 1" "e_id (demo_moved st a t) = 1" for st a t
    by (simp_all add: demo_moved_def)
  have "extract_memories demo_extractor (\<lambda>k. 100 + 10 * int k) demo_answer (demo_moved E_Processing 1 100) 7
      (demo_asked [demo_moved E_Processing 1 100] []) = (Inr [demo_fact], demo_asked [demo_moved E_Completed 1 120] [demo_fact])"
    by (simp add: extract_memories_def then_op_def read_op_def pure_op_def fields ex demo_answer_def demo_parsed demo_extractor_def
        prep act)
  then show ?thesis by (simp add: process_def then_op_def claim)
qed

text \<open>The witnesses: the model is not disturbed, and the surroundings are quiet.\<close>

lemma demo_quiet: "keeps_run n (\<lambda>t. snd (demo_answer p t))" "keeps_run n (\<lambda>t. t)"
  by (simp_all add: keeps_run_def demo_answer_def)

lemma demo_ids: "run_ids_ok (demo_asked [demo_moved st a t] ms)"
  by (simp add: run_ids_ok_def demo_asked_def)

theorem extraction_attempt_outcome_witness:
  "\<exists>cs. \<exists>persona_id. supported letters (demo_moved E_Pending 0 90) 7 (demo_turn 1 1 User, demo_turn 2 1 Assistant) persona_id cs demo_fact"
proof -
  have "extraction_of 1 7 (demo_asked [demo_moved E_Pending 0 90] []) = Some (demo_moved E_Pending 0 90)"
    "extraction_exchange 1 7 1 (demo_asked [demo_moved E_Pending 0 90] []) = Inr (demo_turn 1 1 User, demo_turn 2 1 Assistant)"
    by (simp_all add: extraction_of_def extraction_exchange_def list_turns_def owned_session_def session_turns_def
        demo_asked_def demo_moved_def demo_talk_eval)
  moreover have "e_session (demo_moved E_Pending 0 90) = 1" "e_turn (demo_moved E_Pending 0 90) = 1" by (simp_all add: demo_moved_def)
  ultimately show ?thesis
    using extraction_attempt_outcome [OF demo_ids demo_quiet(1) demo_process] by (auto simp: demo_extractor_def)
qed

definition demo_surroundings :: surroundings where
  "demo_surroundings = \<lparr>su_now = (\<lambda>k i. 100 + 10 * int i), su_respond = (\<lambda>k p s. if k = 0 then (Inl (ExternalError ''down''), s) else demo_answer p s),
     su_between = (\<lambda>k s. s), su_first = 95, su_before = (\<lambda>s. s)\<rparr>"

lemma demo_surroundings_quiet: "quiet n demo_surroundings"
  by (auto simp: quiet_def demo_surroundings_def keeps_run_def demo_answer_def)

theorem retries_end_witness:
  "\<exists>r s'. process_with_retry demo_extractor demo_surroundings 1 7 3 (demo_asked [demo_moved E_Pending 0 90] []) = Some (r, s')
    \<and> attempts 1 s' \<le> 3"
proof -
  have ok: "run_ids_ok (demo_asked [demo_moved E_Pending 0 90] [])" by (rule demo_ids)
  have "attempts 1 (demo_asked [demo_moved E_Pending 0 90] []) = 0"
    by (simp add: attempts_def view_of_def demo_asked_def demo_moved_def row_by_def)
  with retries_end [OF ok demo_surroundings_quiet, where n = 1 and x = demo_extractor and owner = 7 and max_attempts = 3]
  show ?thesis by auto
qed

theorem drained_lane_is_settled_witness:
  "\<exists>s'. recover_for_user demo_extractor (\<lambda>_. demo_surroundings) 3 7 (demo_asked [demo_moved E_Processing 1 90] []) = Some (Inr (), s')"
proof -
  have ok: "run_ids_ok (demo_asked [demo_moved E_Processing 1 90] [])" by (rule demo_ids)
  show ?thesis
    using drained_lane_is_settled [where env = "\<lambda>_. demo_surroundings", OF ok demo_surroundings_quiet, of 7 1 demo_extractor 3] by simp
qed

end
