(* ===== verification/Chat_Turn.thy ===== *)
theory Chat_Turn
  imports Context_Builder Confirmed_Actions
begin

text \<open>
  A message of the user and its answer, \<open>handle\<close> of \<open>application_service.py\<close>, over the response port of
  \<open>telegram_presentation.py\<close>: the turn is stored, the model asked, the answer stored and delivered, and
  what fails on the way is recorded or told. Telegram, the model and the tool loop are arguments; an
  answer of the port may depend on everything that was sent before. The extraction coordinator is an
  argument too, its definitions are in \<open>Memory_Extraction\<close>.
\<close>

section \<open>The response port\<close>

datatype response_kind = K_Status | K_Notice | K_Final | K_Error

datatype parse_mode = HTML

record button =
  bu_text :: pystr
  bu_data :: pystr

record response =
  ts_chat :: int
  ts_kind :: response_kind
  ts_text :: pystr
  ts_buttons :: "button list list"
  ts_mode :: "parse_mode option"

record sent_message =
  se_chat :: int
  se_id :: int

datatype delivery = Send response | Edit sent_message response

text \<open>\<open>po_edit\<close> and the bound message exist for an editable port only.\<close>

record port =
  po_send :: "delivery list \<Rightarrow> response \<Rightarrow> sent_message option result"
  po_edit :: "(delivery list \<Rightarrow> sent_message \<Rightarrow> response \<Rightarrow> bool result) option"
  po_bound :: "sent_message option"

text \<open>The store, the attempts to deliver so far, and the state of the voices.\<close>

record chat =
  ch_db :: db
  ch_log :: "delivery list"
  ch_voice :: voice_indexes

definition on_db :: "(db, 'a) op \<Rightarrow> (chat, 'a) op" where
  "on_db f c = (case f (ch_db c) of (r, s) \<Rightarrow> (r, c\<lparr>ch_db := s\<rparr>))"

text \<open>The \<open>try\<close> that passes over every error.\<close>

definition quietly :: "('s, 'a) op \<Rightarrow> ('s, unit) op" where
  "quietly f = try_op f (\<lambda>_. pure_op (Inr ())) (\<lambda>_. pure_op (Inr ()))"

definition send_response :: "port \<Rightarrow> response \<Rightarrow> (chat, sent_message option) op" where
  "send_response p r c = (po_send p (ch_log c) r, c\<lparr>ch_log := ch_log c @ [Send r]\<rparr>)"

definition edit_message :: "port \<Rightarrow> sent_message \<Rightarrow> response \<Rightarrow> (chat, bool) op" where
  "edit_message p h r c = (case po_edit p of
       None \<Rightarrow> (Inr False, c)
     | Some edit \<Rightarrow> (edit (ch_log c) h r, c\<lparr>ch_log := ch_log c @ [Edit h r]\<rparr>))"

fun send_all :: "port \<Rightarrow> response list \<Rightarrow> (chat, unit) op" where
  "send_all p [] = pure_op (Inr ())"
| "send_all p (r # rs) = then_op (send_response p r) (\<lambda>_. send_all p rs)"

definition can_edit :: "port \<Rightarrow> sent_message option \<Rightarrow> int \<Rightarrow> bool" where
  "can_edit p handle chat_id \<longleftrightarrow> (case handle of None \<Rightarrow> False | Some h \<Rightarrow> se_chat h = chat_id) \<and> po_edit p \<noteq> None"

definition try_edit :: "port \<Rightarrow> sent_message option \<Rightarrow> response \<Rightarrow> (chat, bool) op" where
  "try_edit p handle r = (case handle of
       Some h \<Rightarrow> if can_edit p handle (ts_chat r) then try_op (edit_message p h r) (\<lambda>_. pure_op (Inr False)) (\<lambda>b. pure_op (Inr b))
                 else pure_op (Inr False)
     | None \<Rightarrow> pure_op (Inr False))"

definition deliver_chunks :: "port \<Rightarrow> response \<Rightarrow> sent_message option \<Rightarrow> pystr list \<Rightarrow> (chat, unit) op" where
  "deliver_chunks p r handle chunks =
     (let first = (if length chunks = 1 then r else r\<lparr>ts_text := hd chunks\<rparr>) in
      then_op (try_edit p handle first) (\<lambda>delivered.
      then_op (if delivered then pure_op (Inr ()) else then_op (send_response p first) (\<lambda>_. pure_op (Inr ()))) (\<lambda>_.
        send_all p (map (\<lambda>t. r\<lparr>ts_text := t, ts_buttons := []\<rparr>) (tl chunks)))))"

definition deliver :: "port \<Rightarrow> response \<Rightarrow> sent_message option \<Rightarrow> (chat, unit) op" where
  "deliver p r handle = then_op (pure_op (split_telegram_text (ts_text r) (int message_limit))) (deliver_chunks p r handle)"

definition plain :: "int \<Rightarrow> response_kind \<Rightarrow> pystr \<Rightarrow> response" where
  "plain chat_id kind t = \<lparr>ts_chat = chat_id, ts_kind = kind, ts_text = t, ts_buttons = [], ts_mode = None\<rparr>"

section \<open>The service\<close>

record text_response =
  xr_id :: "pystr option"
  xr_model :: pystr
  xr_text :: pystr
  xr_source :: pystr
  xr_fallback :: "pystr option"

datatype prompt = Plain_Text pystr | Messages "input_message list"

text \<open>The coordinator: \<open>drain_for_lane\<close> with owner and lane, \<open>process_after_delivery\<close> with run, owner and lane.\<close>

record coordinator =
  co_drain :: "int \<Rightarrow> int \<Rightarrow> (db, unit) op"
  co_after :: "int \<Rightarrow> int \<Rightarrow> int \<Rightarrow> (db, unit) op"

text \<open>
  \<open>ap_respond\<close> is the provider, \<open>ap_messages\<close> its \<open>supports_message_input\<close>; the tool loop gives the
  queries it announced and then the answer with its sources. \<open>ap_now\<close> is the clock, \<open>ap_env\<close> what others
  write between the two transactions of \<open>begin_user_turn\<close>, \<open>ap_route_env\<close> what they write while the router
  retries and \<open>ap_ticks\<close> the clock of its attempts.
\<close>

record application =
  ap_router :: router
  ap_casefold :: "pystr \<Rightarrow> pystr"
  ap_digest :: "pyval \<Rightarrow> pystr"
  ap_chars :: char_rules
  ap_ticks :: "nat \<Rightarrow> int"
  ap_route_env :: "nat \<Rightarrow> db \<Rightarrow> db"
  ap_env :: "db \<Rightarrow> db"
  ap_now :: "nat \<Rightarrow> int"
  ap_builder :: "context_builder option"
  ap_messages :: bool
  ap_respond :: "prompt \<Rightarrow> text_response result"
  ap_tools :: "(prompt \<Rightarrow> pystr list \<times> (text_response \<times> web_source list) result) option"
  ap_urlsplit :: "pystr \<Rightarrow> (pystr \<times> pystr option) result"
  ap_sessions :: bool
  ap_memory :: bool
  ap_coordinator :: "coordinator option"

definition not_saved_text :: pystr where
  "not_saved_text = [1053, 1077, 32, 1091, 1076, 1072, 1083, 1086, 1089, 1100, 32, 1089, 1086, 1093, 1088, 1072, 1085, 1080,
     1090, 1100, 32, 1089, 1086, 1086, 1073, 1097, 1077, 1085, 1080, 1077, 46, 32, 1055, 1086, 1087, 1088,
     1086, 1073, 1091, 1081, 1090, 1077, 32, 1077, 1097, 1105, 32, 1088, 1072, 1079, 46]"

definition not_prepared_text :: pystr where
  "not_prepared_text = [1053, 1077, 32, 1091, 1076, 1072, 1083, 1086, 1089, 1100, 32, 1087, 1086, 1076, 1075, 1086, 1090, 1086,
     1074, 1080, 1090, 1100, 32, 1086, 1090, 1074, 1077, 1090, 46, 32, 1055, 1086, 1087, 1088, 1086, 1073,
     1091, 1081, 1090, 1077, 32, 1077, 1097, 1105, 32, 1088, 1072, 1079, 46]"

definition answer_not_saved_text :: pystr where
  "answer_not_saved_text = [1053, 1077, 32, 1091, 1076, 1072, 1083, 1086, 1089, 1100, 32, 1089, 1086, 1093, 1088, 1072, 1085, 1080,
     1090, 1100, 32, 1086, 1090, 1074, 1077, 1090, 46, 32, 1055, 1086, 1087, 1088, 1086, 1073, 1091, 1081,
     1090, 1077, 32, 1077, 1097, 1105, 32, 1088, 1072, 1079, 46]"

definition memory_not_saved_text :: pystr where
  "memory_not_saved_text = [1053, 1077, 32, 1091, 1076, 1072, 1083, 1086, 1089, 1100, 32, 1089, 1086, 1093, 1088, 1072, 1085, 1080,
     1090, 1100, 32, 1089, 1086, 1089, 1090, 1086, 1103, 1085, 1080, 1077, 32, 1087, 1072, 1084, 1103, 1090,
     1080, 46, 32, 1055, 1086, 1087, 1088, 1086, 1073, 1091, 1081, 1090, 1077, 32, 1077, 1097, 1105, 32,
     1088, 1072, 1079, 46]"

definition paid_key_text :: pystr where
  "paid_key_text = [79, 65, 117, 116, 104, 32, 1085, 1077, 1076, 1086, 1089, 1090, 1091, 1087, 1077, 1085, 59, 32, 1080,
     1089, 1087, 1086, 1083, 1100, 1079, 1086, 1074, 1072, 1085, 32, 65, 80, 73, 32, 107, 101, 121, 46, 32,
     1069, 1090, 1086, 32, 1084, 1086, 1078, 1077, 1090, 32, 1087, 1088, 1080, 1074, 1077, 1089, 1090, 1080,
     32, 1082, 32, 1088, 1072, 1089, 1093, 1086, 1076, 1072, 1084, 46]"

definition voice :: "persona \<Rightarrow> string \<Rightarrow> pystr \<Rightarrow> (pystr \<times> pystr) list \<Rightarrow> (chat, pystr) op" where
  "voice persona kind fallback extra c = (case renderer_render persona (u kind) fallback extra (ch_voice c) of
     (r, v) \<Rightarrow> (r, c\<lparr>ch_voice := v\<rparr>))"

definition voiced :: "persona \<Rightarrow> string \<Rightarrow> pystr \<Rightarrow> (chat, pystr) op" where
  "voiced persona kind t = voice persona kind t [(u ''text'', t)]"

definition record_transcript_failure :: "application \<Rightarrow> int \<Rightarrow> turn option \<Rightarrow> failure_stage \<Rightarrow> string \<Rightarrow> (chat, unit) op" where
  "record_transcript_failure ap now related stage err = (case related of
       Some t \<Rightarrow> if \<not> ap_sessions ap then pure_op (Inr ())
         else then_op (on_db (record_failure now (tu_session t) (tu_id t) stage (u err))) (\<lambda>_. pure_op (Inr ()))
     | None \<Rightarrow> pure_op (Inr ()))"

definition deliver_error :: "port \<Rightarrow> persona \<Rightarrow> int \<Rightarrow> sent_message option \<Rightarrow> pystr \<Rightarrow> (chat, 'a option) op" where
  "deliver_error p persona chat_id handle t =
     then_op (voiced persona ''error'' t) (\<lambda>said.
     then_op (deliver p (plain chat_id K_Error said) handle) (\<lambda>_. pure_op (Inr None)))"

definition snippet :: "pystr \<Rightarrow> nat \<Rightarrow> pystr" where
  "snippet t limit = (let collapsed = join_with 32 (split_ws t) in
     if length collapsed \<le> limit then collapsed else rstrip (take (limit - 1) collapsed) @ [8230])"

definition update_search_status :: "port \<Rightarrow> int \<Rightarrow> sent_message option \<Rightarrow> pystr \<Rightarrow> (chat, unit) op" where
  "update_search_status p chat_id handle query =
     quietly (try_edit p handle (plain chat_id K_Status ([1080, 1097, 1091, 58, 32, 171] @ snippet query 80 @ [187])))"

definition send_sources :: "application \<Rightarrow> port \<Rightarrow> int \<Rightarrow> web_source list \<Rightarrow> (chat, unit) op" where
  "send_sources ap p chat_id sources =
     (let t = render_sources_html (ap_urlsplit ap) sources in
      if sources = [] \<or> t = [] then pure_op (Inr ())
      else quietly (send_response p ((plain chat_id K_Notice t)\<lparr>ts_mode := Some HTML\<rparr>)))"

section \<open>The prompt and the answer\<close>

definition build_prompt :: "persona \<Rightarrow> routed_turn \<Rightarrow> pystr" where
  "build_prompt persona t = pe_prompt persona @ [10, 10] @ u ''User message:'' @ [10] @ rt_text t"

definition turn_prompt :: "application \<Rightarrow> int \<Rightarrow> persona \<Rightarrow> routed_turn \<Rightarrow> turn option \<Rightarrow> (db, prompt) op" where
  "turn_prompt ap user persona t stored = (case ap_builder ap of
       None \<Rightarrow> pure_op (Inr (Plain_Text (build_prompt persona t)))
     | Some b \<Rightarrow>
        if ap_messages ap
        then then_op (build_messages b (ap_now ap 2) user persona t (map_option tu_session stored) (map_option tu_id stored))
          (\<lambda>ms. pure_op (Inr (Messages ms)))
        else then_op (build b (ap_now ap 2) user persona t (map_option tu_session stored) (map_option tu_id stored))
          (\<lambda>x. pure_op (Inr (Plain_Text x))))"

fun announce :: "port \<Rightarrow> int \<Rightarrow> sent_message option \<Rightarrow> pystr list \<Rightarrow> (chat, unit) op" where
  "announce p chat_id handle [] = pure_op (Inr ())"
| "announce p chat_id handle (q # qs) = then_op (update_search_status p chat_id handle q) (\<lambda>_. announce p chat_id handle qs)"

definition generate ::
    "application \<Rightarrow> port \<Rightarrow> int \<Rightarrow> persona \<Rightarrow> routed_turn \<Rightarrow> turn option \<Rightarrow> sent_message option \<Rightarrow> (chat, text_response \<times> web_source list) op" where
  "generate ap p user persona t stored handle =
     then_op (on_db (turn_prompt ap user persona t stored)) (\<lambda>prompt.
       case ap_tools ap of
         None \<Rightarrow> pure_op (bindE (ap_respond ap prompt) (\<lambda>r. Inr (r, [])))
       | Some loop \<Rightarrow> (case loop prompt of (queries, r) \<Rightarrow>
           then_op (announce p (rt_chat t) handle queries) (\<lambda>_. pure_op r)))"

section \<open>The turn\<close>

definition hand_over :: "application \<Rightarrow> port \<Rightarrow> persona \<Rightarrow> int \<Rightarrow> sent_message option \<Rightarrow> text_response \<Rightarrow> web_source list \<Rightarrow> (chat, unit) op" where
  "hand_over ap p persona chat_id handle answer sources =
     then_op (if xr_fallback answer = None then pure_op (Inr ())
       else then_op (voiced persona ''notice'' paid_key_text) (\<lambda>said.
         then_op (send_response p (plain chat_id K_Notice said)) (\<lambda>_. pure_op (Inr ())))) (\<lambda>_.
     then_op (deliver p (plain chat_id K_Final (xr_text answer)) handle) (\<lambda>_.
       send_sources ap p chat_id sources))"

definition after_delivery :: "application \<Rightarrow> int \<Rightarrow> int \<Rightarrow> extraction option \<Rightarrow> (chat, unit) op" where
  "after_delivery ap user lane_id run = (case (ap_coordinator ap, run) of
       (Some co, Some e) \<Rightarrow> quietly (on_db (co_after co (e_id e) user lane_id))
     | _ \<Rightarrow> pure_op (Inr ()))"

definition store_answer :: "application \<Rightarrow> turn option \<Rightarrow> text_response \<Rightarrow> (chat, turn option) op" where
  "store_answer ap stored answer =
     (case stored of
         Some ut \<Rightarrow> if ap_sessions ap
           then then_op (on_db (append_assistant_turn (ap_now ap 3) (tu_session ut) (xr_text answer) (xr_id answer))) (\<lambda>x. pure_op (Inr (Some x)))
           else pure_op (Inr None)
       | None \<Rightarrow> pure_op (Inr None))"

definition plan_extraction :: "application \<Rightarrow> int \<Rightarrow> turn option \<Rightarrow> (chat, extraction option) op" where
  "plan_extraction ap user stored =
     (case stored of
         Some ut \<Rightarrow> if ap_memory ap
           then then_op (on_db (ensure_extraction_run (ap_now ap 4) user (tu_session ut) (tu_id ut))) (\<lambda>x. pure_op (Inr (Some x)))
           else pure_op (Inr None)
       | None \<Rightarrow> pure_op (Inr None))"

definition conclude ::
    "application \<Rightarrow> port \<Rightarrow> int \<Rightarrow> persona \<Rightarrow> routed_turn \<Rightarrow> turn option \<Rightarrow> sent_message option \<Rightarrow> text_response \<Rightarrow> web_source list
      \<Rightarrow> (chat, text_response option) op" where
  "conclude ap p user persona t stored handle answer sources =
     try_op (store_answer ap stored answer)
     (\<lambda>_. deliver_error p persona (rt_chat t) handle answer_not_saved_text)
     (\<lambda>answered. try_op (plan_extraction ap user stored)
     (\<lambda>_. deliver_error p persona (rt_chat t) handle memory_not_saved_text)
     (\<lambda>run. try_op (hand_over ap p persona (rt_chat t) handle answer sources)
       (\<lambda>e. then_op (record_transcript_failure ap (ap_now ap 5) answered F_Delivery ''telegram_delivery_failed'')
         (\<lambda>_. pure_op (Inl e)))
       (\<lambda>_. then_op (after_delivery ap user (rt_session t) run) (\<lambda>_. pure_op (Inr (Some answer))))))"

definition provider_failed ::
    "application \<Rightarrow> port \<Rightarrow> persona \<Rightarrow> routed_turn \<Rightarrow> turn option \<Rightarrow> sent_message option \<Rightarrow> (chat, text_response option) op" where
  "provider_failed ap p persona t stored handle =
     then_op (record_transcript_failure ap (ap_now ap 3) stored F_Provider ''provider_request_failed'') (\<lambda>_.
     try_op (deliver_error p persona (rt_chat t) handle not_prepared_text)
       (\<lambda>e. then_op (record_transcript_failure ap (ap_now ap 4) stored F_Delivery ''telegram_error_delivery_failed'')
         (\<lambda>_. pure_op (Inl e)))
       (\<lambda>r. pure_op (Inr r)))"

definition send_status :: "application \<Rightarrow> port \<Rightarrow> persona \<Rightarrow> routed_turn \<Rightarrow> turn option \<Rightarrow> (chat, sent_message option) op" where
  "send_status ap p persona t stored =
     then_op (voice persona ''status'' [] []) (\<lambda>status.
       if status = [] then pure_op (Inr None)
       else try_op (send_response p (plain (rt_chat t) K_Status status))
         (\<lambda>e. then_op (record_transcript_failure ap (ap_now ap 2) stored F_Delivery ''telegram_status_delivery_failed'')
           (\<lambda>_. pure_op (Inl e)))
         (\<lambda>h. pure_op (Inr h)))"

definition begin_turn :: "application \<Rightarrow> int \<Rightarrow> routed_turn \<Rightarrow> (chat, turn option) op" where
  "begin_turn ap user t =
     (if ap_sessions ap
      then then_op (on_db (begin_user_turn (ap_env ap) (ap_now ap 1) user (rt_session t) (rt_text t))) (\<lambda>x. pure_op (Inr (Some x)))
      else pure_op (Inr None))"

definition drain :: "application \<Rightarrow> int \<Rightarrow> int \<Rightarrow> (chat, unit) op" where
  "drain ap user lane_id = (case ap_coordinator ap of
       None \<Rightarrow> pure_op (Inr ())
     | Some co \<Rightarrow> quietly (on_db (co_drain co user lane_id)))"

definition answer_turn ::
    "application \<Rightarrow> port \<Rightarrow> int \<Rightarrow> persona \<Rightarrow> routed_turn \<Rightarrow> turn option \<Rightarrow> (chat, text_response option) op" where
  "answer_turn ap p user persona t stored =
     then_op (send_status ap p persona t stored) (\<lambda>handle.
     try_op (generate ap p user persona t stored handle)
       (\<lambda>_. provider_failed ap p persona t stored handle)
       (\<lambda>(answer, sources). conclude ap p user persona t stored handle answer sources))"

text \<open>A message whose text is neither a command nor a request for a reminder.\<close>

definition handle_turn :: "application \<Rightarrow> port \<Rightarrow> incoming_message \<Rightarrow> (chat, text_response option) op" where
  "handle_turn ap p m =
     then_op (on_db (route (ap_digest ap) (ap_ticks ap) (ap_router ap) (ap_route_env ap) m)) (\<lambda>routed.
       case routed of
         None \<Rightarrow> pure_op (Inr None)
       | Some t \<Rightarrow>
          then_op (read_op (\<lambda>c. persona_for_turn (ap_casefold ap) (ap_router ap) t (ch_db c))) (\<lambda>persona.
          then_op (drain ap (in_user m) (rt_session t)) (\<lambda>_.
          try_op (begin_turn ap (in_user m) t)
            (\<lambda>_. then_op (voiced persona ''error'' not_saved_text) (\<lambda>said.
               then_op (send_response p (plain (rt_chat t) K_Error said)) (\<lambda>_. pure_op (Inr None))))
            (\<lambda>stored. answer_turn ap p (in_user m) persona t stored))))"

text \<open>
  \<open>handle\<close>; the commands and the requests for reminders are handled by \<open>command\<close> and \<open>request\<close>.
\<close>

definition handle_message ::
    "(telegram_command \<Rightarrow> (chat, unit) op) \<Rightarrow> (pystr \<Rightarrow> (chat, unit) op) \<Rightarrow> application \<Rightarrow> port \<Rightarrow> incoming_message
      \<Rightarrow> (chat, text_response option) op" where
  "handle_message command request ap p m =
     (case parse_telegram_command (ap_casefold ap) (in_text m) of
        Some cmd \<Rightarrow> if \<not> is_authorized (ap_router ap) (in_user m) (in_type m) then pure_op (Inr None)
          else then_op (command cmd) (\<lambda>_. pure_op (Inr None))
      | None \<Rightarrow> (case extract_reminder_request (ap_chars ap) (ap_casefold ap) (in_text m) of
          Some r \<Rightarrow> if \<not> is_authorized (ap_router ap) (in_user m) (in_type m) then pure_op (Inr None)
            else then_op (request r) (\<lambda>_. pure_op (Inr None))
        | None \<Rightarrow> handle_turn ap p m))"

end
