(* ===== verification/Turn_Properties.thy ===== *)
theory Turn_Properties
  imports Chat_Turn
begin

text \<open>
  What a turn does to the store and to the log of deliveries: the frame lemmas for the operations of
  \<open>Chat_Turn\<close>, and the theorems on authorisation, on the answered turn and on what the user is told.
\<close>

section \<open>Effects\<close>

lemma keeps_quietly: "preorder R \<Longrightarrow> keeps R f \<Longrightarrow> keeps R (quietly f)"
  unfolding quietly_def by (intro keeps_try keeps_pure)

lemmas keeps_basic = keeps_pure keeps_read keeps_then keeps_try keeps_quietly

text \<open>Relations on the store alone, and the growth of the log.\<close>

definition stores :: "(db \<Rightarrow> db \<Rightarrow> bool) \<Rightarrow> chat \<Rightarrow> chat \<Rightarrow> bool" where
  "stores R c c' \<longleftrightarrow> R (ch_db c) (ch_db c') \<and> prefix (ch_log c) (ch_log c')"

lemma preorder_stores: "preorder R \<Longrightarrow> preorder (stores R)"
  unfolding preorder_def stores_def by (auto intro!: reflpI transpI dest: reflpD transpD)

lemma stores_db: "keeps R f \<Longrightarrow> keeps (stores R) (on_db f)"
  unfolding keeps_def by (auto simp: on_db_def stores_def split: prod.split) (metis snd_conv)

lemma stores_same: "preorder R \<Longrightarrow> keeps (stores R) (send_response p r)" "preorder R \<Longrightarrow> keeps (stores R) (edit_message p h r)"
  "preorder R \<Longrightarrow> keeps (stores R) (voice persona kind fallback extra)"
  by (auto simp: keeps_def stores_def send_response_def edit_message_def voice_def preorder_def reflpD split: option.split prod.split)

lemma stores_try_edit: "preorder R \<Longrightarrow> keeps (stores R) (try_edit p h r)"
  unfolding try_edit_def by (cases h) (auto intro!: keeps_basic preorder_stores stores_same)

lemma stores_send_all: "preorder R \<Longrightarrow> keeps (stores R) (send_all p rs)"
  by (induction rs) (auto intro!: keeps_basic preorder_stores stores_same)

lemma stores_deliver: "preorder R \<Longrightarrow> keeps (stores R) (deliver p r h)"
  unfolding deliver_def deliver_chunks_def Let_def
  by (intro keeps_basic preorder_stores stores_try_edit stores_send_all) (auto intro!: keeps_basic preorder_stores stores_same)

lemma stores_announce: "preorder R \<Longrightarrow> keeps (stores R) (announce p chat_id h qs)"
  by (induction qs) (auto intro!: keeps_basic preorder_stores stores_try_edit simp: update_search_status_def)

lemma stores_sources: "preorder R \<Longrightarrow> keeps (stores R) (send_sources ap p chat_id ws)"
  unfolding send_sources_def Let_def by (auto intro!: keeps_basic preorder_stores stores_same)

lemma stores_error: "preorder R \<Longrightarrow> keeps (stores R) (deliver_error p persona chat_id h t)"
  unfolding deliver_error_def voiced_def by (intro keeps_basic preorder_stores stores_same stores_deliver)

lemma stores_hand_over: "preorder R \<Longrightarrow> keeps (stores R) (hand_over ap p persona chat_id h answer ws)"
  unfolding hand_over_def voiced_def
  by (intro keeps_basic preorder_stores stores_same stores_deliver stores_sources)
    (auto intro!: keeps_basic preorder_stores stores_same)

text \<open>The operations of the turn on the store, and what others do to it meanwhile.\<close>

definition store_ops_keep :: "(db \<Rightarrow> db \<Rightarrow> bool) \<Rightarrow> application \<Rightarrow> bool" where
  "store_ops_keep R ap \<longleftrightarrow> preorder R
     \<and> (\<forall>m. keeps R (route (ap_digest ap) (ap_ticks ap) (ap_router ap) (ap_route_env ap) m))
     \<and> (\<forall>now user lane_id t. keeps R (begin_user_turn (ap_env ap) now user lane_id t))
     \<and> (\<forall>now n t r. keeps R (append_assistant_turn now n t r))
     \<and> (\<forall>now user n k. keeps R (ensure_extraction_run now user n k))
     \<and> (\<forall>now n k stage err. keeps R (record_failure now n k stage err))
     \<and> (\<forall>user persona t stored. keeps R (turn_prompt ap user persona t stored))
     \<and> (\<forall>co \<in> set_option (ap_coordinator ap). \<forall>user lane_id n. keeps R (co_drain co user lane_id) \<and> keeps R (co_after co n user lane_id))"

lemma stores_failure: "store_ops_keep R ap \<Longrightarrow> keeps (stores R) (record_transcript_failure ap now related stage err)"
  unfolding record_transcript_failure_def store_ops_keep_def
  by (cases related) (auto intro!: keeps_basic preorder_stores stores_db)

lemma stores_conclude:
  assumes "store_ops_keep R ap"
  shows "keeps (stores R) (conclude ap p user persona t stored h answer ws)"
proof -
  have R: "preorder R" using assms by (simp add: store_ops_keep_def)
  have after: "keeps (stores R) (after_delivery ap user n run)" for n run
    using assms R unfolding after_delivery_def store_ops_keep_def
    by (cases "ap_coordinator ap"; cases run) (auto intro!: keeps_basic preorder_stores stores_db)
  have append: "keeps (stores R) (on_db (append_assistant_turn now n x r))"
    and run: "keeps (stores R) (on_db (ensure_extraction_run now user n k))" for now n x r k
    using assms by (auto simp: store_ops_keep_def intro: stores_db)
  have "keeps (stores R) (store_answer ap stored answer)" "keeps (stores R) (plan_extraction ap user stored)"
    unfolding store_answer_def plan_extraction_def
    by (auto intro!: keeps_basic preorder_stores R append run split: option.split)
  then show ?thesis unfolding conclude_def
    by (intro keeps_try keeps_then preorder_stores R stores_error stores_hand_over stores_failure [OF assms] keeps_pure after)
qed

lemma stores_turn:
  assumes "store_ops_keep R ap"
  shows "keeps (stores R) (handle_turn ap p m)"
proof -
  have R: "preorder R" using assms by (simp add: store_ops_keep_def)
  note basic = keeps_basic preorder_stores R stores_same stores_error stores_failure [OF assms]
  have drain: "keeps (stores R) (drain ap user n)" for user n
    using assms unfolding drain_def store_ops_keep_def by (cases "ap_coordinator ap") (auto intro!: basic stores_db)
  have start: "keeps (stores R) (begin_turn ap user t)" for user t
    using assms unfolding begin_turn_def store_ops_keep_def by (auto intro!: basic stores_db)
  have status: "keeps (stores R) (send_status ap p persona t stored)" for persona t stored
    unfolding send_status_def by (auto intro!: basic)
  have generate: "keeps (stores R) (generate ap p user persona t stored h)" for user persona t stored h
    using assms unfolding generate_def store_ops_keep_def
    by (auto intro!: basic stores_db stores_announce split: option.split prod.split)
  have failed: "keeps (stores R) (provider_failed ap p persona t stored h)" for persona t stored h
    unfolding provider_failed_def by (auto intro!: basic)
  have answer: "keeps (stores R) (answer_turn ap p user persona t stored)" for user persona t stored
    unfolding answer_turn_def by (auto intro!: basic status generate failed stores_conclude [OF assms])
  have route: "keeps (stores R) (on_db (route (ap_digest ap) (ap_ticks ap) (ap_router ap) (ap_route_env ap) m))"
    using assms by (auto simp: store_ops_keep_def intro: stores_db)
  show ?thesis unfolding handle_turn_def voiced_def
    by (auto intro!: basic route drain start answer split: option.split)
qed

section \<open>What a turn leaves alone\<close>

text \<open>Nothing is lost of the transcript, its invariant stays, and reminders and confirmations are as they were.\<close>

definition undisturbed :: "db \<Rightarrow> db \<Rightarrow> bool" where
  "undisturbed s s' \<longleftrightarrow> (session_reachable s \<longrightarrow> session_reachable s') \<and> set (turns s) \<subseteq> set (turns s')
     \<and> set (failures s) \<subseteq> set (failures s') \<and> same_reminders s s' \<and> confirmations s' = confirmations s"

definition others_keep :: "(db \<Rightarrow> db \<Rightarrow> bool) \<Rightarrow> application \<Rightarrow> bool" where
  "others_keep R ap \<longleftrightarrow> (\<forall>n s. R s (ap_route_env ap n s)) \<and> (\<forall>s. R s (ap_env ap s))
     \<and> (\<forall>co \<in> set_option (ap_coordinator ap). \<forall>user lane_id n. keeps R (co_drain co user lane_id) \<and> keeps R (co_after co n user lane_id))"

lemma preorder_undisturbed: "preorder undisturbed"
  unfolding preorder_def undisturbed_def same_reminders_def by (auto intro!: reflpI transpI)

lemmas undisturbed_trans = preorder_trans [OF preorder_undisturbed]

lemma undisturbed_other:
  "sessions s' = sessions s \<Longrightarrow> turns s' = turns s \<Longrightarrow> failures s' = failures s \<Longrightarrow> summaries s' = summaries s
    \<Longrightarrow> same_reminders s s' \<Longrightarrow> confirmations s' = confirmations s \<Longrightarrow> undisturbed s s'"
  unfolding undisturbed_def by (auto intro: session_reachable.step session_step.other)

lemma undisturbed_refl: "undisturbed s s"
  by (rule undisturbed_other) (simp_all add: same_reminders_def)

lemma undisturbed_version: "ensure_persona_version digest now p s = Inr (x, s') \<Longrightarrow> undisturbed s s'"
  by (rule undisturbed_other) (auto simp: ensure_persona_version_def upsert_persona_def insert_version_def same_reminders_def Let_def
    result_simps split: prod.splits option.splits if_splits)

lemma undisturbed_lane: "undisturbed s (snd (lane_attempt digest now p f cid version s))"
proof (cases "ensure_persona_version digest now p s")
  case (Inr x)
  obtain pid vid s1 where x: "x = ((pid, vid), s1)" by (metis prod.exhaust)
  have "undisturbed s1 (ensure_lane cid p vid (bump_conversation cid version f s1))"
    by (rule undisturbed_other) (simp_all add: ensure_lane_def bump_conversation_def same_reminders_def Let_def)
  with undisturbed_version [OF Inr [unfolded x]] have "undisturbed s (ensure_lane cid p vid (bump_conversation cid version f s1))"
    by (rule undisturbed_trans)
  with Inr x show ?thesis by (simp add: lane_attempt_def undisturbed_refl)
qed (simp add: lane_attempt_def undisturbed_refl)

lemma undisturbed_route_loop:
  assumes "\<And>n s. undisturbed s (env n s)"
  shows "undisturbed s (snd (route_loop digest clock cat env chat msg n s))"
proof (induction n arbitrary: s)
  case (Suc n)
  show ?case
  proof (cases "conversation_of chat s")
    case None
    then show ?thesis by (simp add: undisturbed_refl)
  next
    case c: (Some c)
    show ?thesis
    proof (cases "catalog_get cat (cv_key c)")
      case None
      with c show ?thesis by (simp add: undisturbed_refl)
    next
      case (Some p)
      obtain r s' where l: "lane_attempt digest (clock n) p id (cv_id c) (cv_version c) (env n s) = (r, s')" by (rule prod.exhaust)
      have "undisturbed s s'"
        using undisturbed_trans [OF assms undisturbed_lane] l by (metis snd_conv)
      with c Some l undisturbed_trans [OF _ Suc] show ?thesis
        by (auto split: sum.split option.split)
    qed
  qed
qed (simp add: undisturbed_refl)

lemma undisturbed_route: "(\<And>n s. undisturbed s (env n s)) \<Longrightarrow> keeps undisturbed (route digest clock ro env m)"
proof -
  assume env: "\<And>n s. undisturbed s (env n s)"
  have c: "undisturbed s (ensure_conversation chat key s)" for chat key s
    by (rule undisturbed_other) (simp_all add: ensure_conversation_def same_reminders_def)
  have "undisturbed s (snd (route_message digest clock cat env chat msg s))" for cat chat msg s
    using undisturbed_trans [OF c undisturbed_route_loop [OF env]] by (simp add: route_message_def)
  then show ?thesis
    by (auto simp: keeps_def route_def undisturbed_refl split: prod.split sum.split) (metis snd_conv)+
qed

lemma undisturbed_append: "keeps undisturbed (append_turn now n role t r)"
proof -
  have "session_reachable s \<longrightarrow> session_reachable (snd (append_turn now n role t r s))" for s
    by (auto intro: session_reachable.step session_step.append)
  then show ?thesis unfolding keeps_def undisturbed_def
    by (auto simp: append_turn_def transaction_def guardE_def Let_def same_reminders_def split: if_splits)
qed

lemma undisturbed_record: "keeps undisturbed (record_failure now n k stage err)"
proof -
  have "session_reachable s \<longrightarrow> session_reachable (snd (record_failure now n k stage err s))" for s
    by (auto intro: session_reachable.step session_step.failed)
  then show ?thesis unfolding keeps_def undisturbed_def
    by (auto simp: record_failure_def transaction_def guardE_def Let_def same_reminders_def split: if_splits)
qed

lemma undisturbed_open: "keeps undisturbed (ensure_active_session now user lane_id)"
proof -
  have "session_reachable s \<longrightarrow> session_reachable (snd (ensure_active_session now user lane_id s))" for s
    by (auto intro: session_reachable.step session_step.open_session)
  then show ?thesis unfolding keeps_def undisturbed_def
    by (auto simp: ensure_active_session_def ensure_profile_row_def transaction_def guardE_def Let_def same_reminders_def split: if_splits option.splits)
qed

lemma undisturbed_begin: "(\<And>s. undisturbed s (env s)) \<Longrightarrow> keeps undisturbed (begin_user_turn env now user lane_id t)"
  unfolding keeps_def
proof
  fix s assume env: "\<And>s. undisturbed s (env s)"
  obtain r s1 where o: "ensure_active_session now user lane_id s = (r, s1)" by (rule prod.exhaust)
  have 1: "undisturbed s s1" using keepsD [OF undisturbed_open o] .
  have "undisturbed (env s1) (snd (append_turn now n User t None (env s1)))" for n
    using undisturbed_append by (auto simp: keeps_def)
  with env have "undisturbed s1 (snd (append_turn now n User t None (env s1)))" for n by (blast intro: undisturbed_trans)
  with 1 o show "undisturbed s (snd (begin_user_turn env now user lane_id t s))"
    by (cases r) (auto simp: begin_user_turn_def intro: undisturbed_trans)
qed

lemma undisturbed_run: "keeps undisturbed (ensure_extraction_run now user n k)"
  unfolding keeps_def
proof
  fix s
  show "undisturbed s (snd (ensure_extraction_run now user n k s))"
    by (rule undisturbed_other) (auto simp: ensure_extraction_run_def transaction_def positive_ids_def guardE_def Let_def same_reminders_def
      split: option.split)
qed

lemma undisturbed_register: "keeps undisturbed (register_persona digest now p)"
  unfolding keeps_def
proof
  fix s
  show "undisturbed s (snd (register_persona digest now p s))"
    by (cases "ensure_persona_version digest now p s")
      (auto simp: register_persona_def transaction_def bindE_def undisturbed_refl dest: undisturbed_version)
qed

lemma undisturbed_prompt: "keeps undisturbed (turn_prompt ap user persona t stored)"
  unfolding turn_prompt_def build_def build_messages_def
  by (auto intro!: keeps_basic preorder_undisturbed undisturbed_register split: option.split)

lemma undisturbed_ops: "others_keep undisturbed ap \<Longrightarrow> store_ops_keep undisturbed ap"
  unfolding store_ops_keep_def others_keep_def append_assistant_turn_def
  using undisturbed_prompt undisturbed_run undisturbed_record undisturbed_append
  by (auto simp: preorder_undisturbed intro!: undisturbed_route undisturbed_begin)

text \<open>
A turn, however it ends, loses no stored turn and no recorded failure, keeps the invariant of the
transcript store, and leaves reminders and confirmations as they are; the log of deliveries only grows.
\<close>
theorem turn_disturbs_nothing:
  assumes "others_keep undisturbed ap"
  shows "undisturbed (ch_db c) (ch_db (snd (handle_turn ap p m c))) \<and> prefix (ch_log c) (ch_log (snd (handle_turn ap p m c)))"
  using stores_turn [OF undisturbed_ops [OF assms], of p m] by (simp add: keeps_def stores_def)

section \<open>Nobody else is answered\<close>

text \<open>A message of a stranger has no effect.\<close>

lemma strangers_are_ignored:
  assumes "\<not> is_authorized (ap_router ap) (in_user m) (in_type m)"
  shows "handle_message command request ap p m c = (Inr None, c)"
  using assms by (simp add: handle_message_def handle_turn_def then_op_def on_db_def route_def pure_op_def split: option.split)

section \<open>The answered turn\<close>

lemma on_db_eq: "on_db f c = (r, c') \<longleftrightarrow> (\<exists>s. f (ch_db c) = (r, s) \<and> c' = c\<lparr>ch_db := s\<rparr>)"
  by (auto simp: on_db_def split: prod.splits)

lemma deliver_error_None: "deliver_error p persona chat_id h t c = (Inr r, c') \<Longrightarrow> r = None"
  by (auto simp: deliver_error_def then_op_Inr)

lemma append_turn_row:
  assumes "append_turn now n role t r s = (Inr x, s')"
  shows "x \<in> set (turns s')" and "tu_session x = n" and "tu_role x = role" and "tu_content x = strip t" and "tu_response x = r"
    and "\<And>y. y \<in> set (turns s) \<Longrightarrow> tu_session y = n \<Longrightarrow> tu_sequence y < tu_sequence x"
proof -
  from assms have s': "s' = s\<lparr>turns := turns s @ [x]\<rparr>" and x: "x = new_turn n role t r now s"
    by (auto simp: append_turn_def transaction_Inr guardE_eq_Inr Let_def)
  show "x \<in> set (turns s')" "tu_session x = n" "tu_role x = role" "tu_content x = strip t" "tu_response x = r"
    by (simp_all add: s' x new_turn_def)
  show "tu_sequence y < tu_sequence x" if "y \<in> set (turns s)" "tu_session y = n" for y
    using that next_rowid_gt [of y "filter (\<lambda>t. tu_session t = n) (turns s)" tu_sequence]
    by (simp add: x new_turn_def next_sequence_def)
qed

lemma provider_failed_None: "provider_failed ap p persona t stored h c = (Inr r, c') \<Longrightarrow> r = None"
  by (auto simp: provider_failed_def then_op_Inr try_op_eq dest: deliver_error_None)

lemma after_delivery_eq: "after_delivery ap user n run c = (r, c') \<Longrightarrow> r = Inr () \<and> ch_log c' = ch_log c"
  by (auto simp: after_delivery_def quietly_def try_op_eq on_db_eq split: option.splits)

lemma conclude_Some:
  assumes "conclude ap p user persona t (Some ut) h answer ws c = (Inr (Some a), c')" and "ap_sessions ap"
    and "others_keep undisturbed ap"
  shows "a = answer" and "\<exists>x s1 c2 c3. append_turn (ap_now ap 3) (tu_session ut) Assistant (xr_text a) (xr_id a) (ch_db c) = (Inr x, s1)
    \<and> undisturbed s1 (ch_db c') \<and> ch_log c2 = ch_log c \<and> hand_over ap p persona (rt_chat t) h answer ws c2 = (Inr (), c3)
    \<and> ch_log c' = ch_log c3"
proof -
  note K = undisturbed_ops [OF assms(3)]
  from assms(1,2) obtain x s1 run c2 c3 where
    x: "append_assistant_turn (ap_now ap 3) (tu_session ut) (xr_text answer) (xr_id answer) (ch_db c) = (Inr x, s1)"
    and run: "plan_extraction ap user (Some ut) (c\<lparr>ch_db := s1\<rparr>) = (Inr run, c2)"
    and over: "hand_over ap p persona (rt_chat t) h answer ws c2 = (Inr (), c3)"
    and after: "after_delivery ap user (rt_session t) run c3 = (Inr (), c')" and a: "a = answer"
    unfolding conclude_def
    by (auto simp: store_answer_def try_op_eq then_op_Inr on_db_eq dest!: deliver_error_None)
  show "a = answer" by (rule a)
  have u2: "undisturbed s1 (ch_db c2)" and l2: "ch_log c2 = ch_log c"
    using run keepsD [OF undisturbed_run] by (auto simp: plan_extraction_def then_op_Inr on_db_eq undisturbed_refl split: if_splits)
  have u3: "undisturbed (ch_db c2) (ch_db c3)"
    using keepsD [OF stores_hand_over [OF preorder_undisturbed] over] by (simp add: stores_def)
  have "undisturbed (ch_db c3) (ch_db c')"
    using after assms(3)
    by (auto simp: after_delivery_def quietly_def try_op_eq on_db_eq others_keep_def undisturbed_refl split: option.splits)
      (blast dest: keepsD)+
  with u2 u3 have "undisturbed s1 (ch_db c')" by (blast intro: undisturbed_trans)
  with x over l2 after_delivery_eq [OF after] a show "\<exists>x s1 c2 c3. append_turn (ap_now ap 3) (tu_session ut) Assistant (xr_text a) (xr_id a) (ch_db c) = (Inr x, s1)
    \<and> undisturbed s1 (ch_db c') \<and> ch_log c2 = ch_log c \<and> hand_over ap p persona (rt_chat t) h answer ws c2 = (Inr (), c3)
    \<and> ch_log c' = ch_log c3" unfolding append_assistant_turn_def by blast
qed

text \<open>A turn that is answered, step by step.\<close>

lemma turn_steps:
  assumes "handle_turn ap p m c = (Inr (Some a), c')" and "ap_sessions ap"
  obtains t persona s0 cd ut s1 h c2 b ws c3 where
    "route (ap_digest ap) (ap_ticks ap) (ap_router ap) (ap_route_env ap) m (ch_db c) = (Inr (Some t), s0)"
    "drain ap (in_user m) (rt_session t) (c\<lparr>ch_db := s0\<rparr>) = (Inr (), cd)"
    "begin_user_turn (ap_env ap) (ap_now ap 1) (in_user m) (rt_session t) (rt_text t) (ch_db cd) = (Inr ut, s1)"
    "send_status ap p persona t (Some ut) (cd\<lparr>ch_db := s1\<rparr>) = (Inr h, c2)"
    "generate ap p (in_user m) persona t (Some ut) h c2 = (Inr (b, ws), c3)"
    "conclude ap p (in_user m) persona t (Some ut) h b ws c3 = (Inr (Some a), c')"
proof -
  from assms obtain t s0 persona cd where 1: "route (ap_digest ap) (ap_ticks ap) (ap_router ap) (ap_route_env ap) m (ch_db c) = (Inr (Some t), s0)"
    "drain ap (in_user m) (rt_session t) (c\<lparr>ch_db := s0\<rparr>) = (Inr (), cd)"
    and 2: "try_op (begin_turn ap (in_user m) t)
            (\<lambda>_. then_op (voiced persona ''error'' not_saved_text) (\<lambda>said.
               then_op (send_response p (plain (rt_chat t) K_Error said)) (\<lambda>_. pure_op (Inr None))))
            (\<lambda>stored. answer_turn ap p (in_user m) persona t stored) cd = (Inr (Some a), c')"
    unfolding handle_turn_def by (auto simp: then_op_Inr on_db_eq split: option.splits)
  from 2 assms(2) obtain ut s1 where 3: "begin_user_turn (ap_env ap) (ap_now ap 1) (in_user m) (rt_session t) (rt_text t) (ch_db cd) = (Inr ut, s1)"
    "answer_turn ap p (in_user m) persona t (Some ut) (cd\<lparr>ch_db := s1\<rparr>) = (Inr (Some a), c')"
    by (auto simp: try_op_eq then_op_Inr begin_turn_def on_db_eq)
  from 3(2) obtain h c2 b ws c3 where "send_status ap p persona t (Some ut) (cd\<lparr>ch_db := s1\<rparr>) = (Inr h, c2)"
    "generate ap p (in_user m) persona t (Some ut) h c2 = (Inr (b, ws), c3)"
    "conclude ap p (in_user m) persona t (Some ut) h b ws c3 = (Inr (Some a), c')"
    unfolding answer_turn_def by (auto simp: try_op_eq then_op_Inr dest: provider_failed_None)
  with 1 3(1) that show ?thesis by blast
qed

lemma generate_undisturbed: "others_keep undisturbed ap \<Longrightarrow> keeps (stores undisturbed) (generate ap p user persona t stored h)"
  unfolding generate_def
  by (auto intro!: keeps_basic preorder_stores preorder_undisturbed stores_db undisturbed_prompt stores_announce split: option.split prod.split)

lemma status_undisturbed: "others_keep undisturbed ap \<Longrightarrow> keeps (stores undisturbed) (send_status ap p persona t stored)"
  unfolding send_status_def
  by (auto intro!: keeps_basic preorder_stores preorder_undisturbed stores_same stores_failure undisturbed_ops)

lemma route_loop_text: "route_loop digest clock cat env chat msg n s = (Inr t, s') \<Longrightarrow> rt_text t = msg \<and> rt_chat t = chat"
  by (induction n arbitrary: s) (auto split: option.splits sum.splits prod.splits)

text \<open>
C15: A turn that is answered is stored: the store then holds the turn of the user with the text of the
message and, later in the same session, the turn of the assistant with the text and the identifier of
the answer that is returned.
\<close>
theorem answered_turn_is_stored:
  assumes "handle_turn ap p m c = (Inr (Some a), c')" and "ap_sessions ap" and "others_keep undisturbed ap"
  shows "\<exists>ut \<in> set (turns (ch_db c')). \<exists>x \<in> set (turns (ch_db c')). tu_session x = tu_session ut \<and> tu_sequence ut < tu_sequence x
    \<and> tu_role ut = User \<and> tu_content ut = strip (in_text m)
    \<and> tu_role x = Assistant \<and> tu_content x = strip (xr_text a) \<and> tu_response x = xr_id a"
proof -
  from turn_steps [OF assms(1,2)] obtain t persona s0 cd ut s1 h c2 b ws c3 where
    route: "route (ap_digest ap) (ap_ticks ap) (ap_router ap) (ap_route_env ap) m (ch_db c) = (Inr (Some t), s0)"
    and ut: "begin_user_turn (ap_env ap) (ap_now ap 1) (in_user m) (rt_session t) (rt_text t) (ch_db cd) = (Inr ut, s1)"
    and st: "send_status ap p persona t (Some ut) (cd\<lparr>ch_db := s1\<rparr>) = (Inr h, c2)"
    and ge: "generate ap p (in_user m) persona t (Some ut) h c2 = (Inr (b, ws), c3)"
    and co: "conclude ap p (in_user m) persona t (Some ut) h b ws c3 = (Inr (Some a), c')" .
  have body: "rt_text t = in_text m" using route by (auto simp: route_def route_message_def split: if_splits sum.splits prod.splits dest!: route_loop_text)
  from ut obtain n s2 where a1: "append_turn (ap_now ap 1) n User (rt_text t) None s2 = (Inr ut, s1)"
    by (auto simp: begin_user_turn_def split: prod.splits sum.splits)
  note U = append_turn_row [OF a1]
  from keepsD [OF status_undisturbed [OF assms(3)] st] keepsD [OF generate_undisturbed [OF assms(3)] ge]
  have s13: "undisturbed s1 (ch_db c3)" by (auto simp: stores_def intro: undisturbed_trans)
  from conclude_Some(2) [OF co assms(2,3)] obtain x s4 where
    a2: "append_turn (ap_now ap 3) (tu_session ut) Assistant (xr_text a) (xr_id a) (ch_db c3) = (Inr x, s4)"
    and s4: "undisturbed s4 (ch_db c')" by blast
  note X = append_turn_row [OF a2]
  have "ut \<in> set (turns (ch_db c3))" using s13 U(1) by (auto simp: undisturbed_def)
  then have "tu_sequence ut < tu_sequence x" and "ut \<in> set (turns s4)"
    using X(6) a2 by (auto simp: append_turn_def transaction_Inr guardE_eq_Inr Let_def)
  with s4 X(1) have "ut \<in> set (turns (ch_db c'))" "x \<in> set (turns (ch_db c'))" "tu_sequence ut < tu_sequence x"
    by (auto simp: undisturbed_def)
  with U X body show ?thesis by (intro bexI [of _ ut] bexI [of _ x]) simp_all
qed

section \<open>What is said\<close>

definition said :: "delivery \<Rightarrow> response" where
  "said d = (case d of Send r \<Rightarrow> r | Edit h r \<Rightarrow> r)"

text \<open>The log grows by deliveries of the given kinds.\<close>

definition logs :: "response_kind set \<Rightarrow> chat \<Rightarrow> chat \<Rightarrow> bool" where
  "logs K c c' \<longleftrightarrow> (\<exists>L. ch_log c' = ch_log c @ L \<and> (\<forall>d \<in> set L. ts_kind (said d) \<in> K))"

lemma preorder_logs: "preorder (logs K)"
  unfolding preorder_def logs_def by (fastforce intro!: reflpI transpI)

lemma logs_db: "keeps (logs K) (on_db f)"
  unfolding keeps_def by (auto simp: on_db_def logs_def split: prod.split)

lemma logs_send: "ts_kind r \<in> K \<Longrightarrow> keeps (logs K) (send_response p r)" "ts_kind r \<in> K \<Longrightarrow> keeps (logs K) (edit_message p h r)"
  "keeps (logs K) (voice persona kind fallback extra)"
  by (auto simp: keeps_def logs_def send_response_def edit_message_def voice_def said_def split: option.split prod.split)

lemma logs_try_edit: "ts_kind r \<in> K \<Longrightarrow> keeps (logs K) (try_edit p h r)"
  unfolding try_edit_def by (cases h) (auto intro!: keeps_basic preorder_logs logs_send)

lemma logs_quiet: "K_Status \<in> K \<Longrightarrow> keeps (logs K) (announce p chat_id h qs)"
  "K_Notice \<in> K \<Longrightarrow> keeps (logs K) (send_sources ap p chat_id ws)"
proof -
  show "K_Status \<in> K \<Longrightarrow> keeps (logs K) (announce p chat_id h qs)"
    by (induction qs) (auto intro!: keeps_basic preorder_logs logs_try_edit simp: update_search_status_def plain_def)
  show "K_Notice \<in> K \<Longrightarrow> keeps (logs K) (send_sources ap p chat_id ws)"
    unfolding send_sources_def Let_def by (auto intro!: keeps_basic preorder_logs logs_send simp: plain_def)
qed

lemma logs_turn:
  "keeps (logs {}) (drain ap user n)"
  "keeps (logs {}) (record_transcript_failure ap now related stage err)"
  "keeps (logs {K_Status}) (send_status ap p persona t stored)"
  "keeps (logs {K_Status}) (generate ap p user persona t stored h)"
proof -
  show "keeps (logs {}) (drain ap user n)"
    unfolding drain_def by (cases "ap_coordinator ap") (auto intro!: keeps_basic preorder_logs logs_db)
  show rec: "keeps (logs K) (record_transcript_failure ap now related stage err)" for K now related stage err
    unfolding record_transcript_failure_def by (cases related) (auto intro!: keeps_basic preorder_logs logs_db)
  show "keeps (logs {K_Status}) (send_status ap p persona t stored)"
    unfolding send_status_def by (auto intro!: keeps_basic preorder_logs logs_send rec simp: plain_def)
  show "keeps (logs {K_Status}) (generate ap p user persona t stored h)"
    unfolding generate_def by (auto intro!: keeps_basic preorder_logs logs_db logs_quiet split: option.split prod.split)
qed

text \<open>
  The deliveries of the log that the port acknowledged, in their order: its answers depend on what it was sent
  before, so they can be read off the log.
\<close>

definition accepted :: "port \<Rightarrow> delivery list \<Rightarrow> delivery \<Rightarrow> bool" where
  "accepted p before d = (case d of
       Send r \<Rightarrow> (case po_send p before r of Inl _ \<Rightarrow> False | Inr _ \<Rightarrow> True)
     | Edit h r \<Rightarrow> (case po_edit p of None \<Rightarrow> False | Some edit \<Rightarrow> edit before h r = Inr True))"

fun shown :: "port \<Rightarrow> delivery list \<Rightarrow> delivery list \<Rightarrow> delivery list" where
  "shown p before [] = []"
| "shown p before (d # ds) = (if accepted p before d then [d] else []) @ shown p (before @ [d]) ds"

lemma shown_append: "shown p before (L @ M) = shown p before L @ shown p (before @ L) M"
  by (induction L arbitrary: before) auto

lemma shown_subset: "set (shown p before L) \<subseteq> set L"
  by (induction L arbitrary: before) auto

text \<open>The texts a long text is sent as, and what a successful delivery adds to the log.\<close>

definition pieces :: "pystr \<Rightarrow> pystr list" where
  "pieces t = (let chunks = split_loop message_limit [] t in if length chunks = 1 then [t] else chunks)"

lemma send_all_log:
  "send_all p rs c = (Inr x, c') \<Longrightarrow> ch_log c' = ch_log c @ map Send rs \<and> shown p (ch_log c) (map Send rs) = map Send rs"
proof (induction rs arbitrary: c)
  case (Cons r rs)
  then obtain h where "po_send p (ch_log c) r = Inr h" "send_all p rs (c\<lparr>ch_log := ch_log c @ [Send r]\<rparr>) = (Inr x, c')"
    by (auto simp: then_op_Inr send_response_def)
  with Cons.IH [of "c\<lparr>ch_log := ch_log c @ [Send r]\<rparr>"] show ?case by (simp add: accepted_def)
qed simp

lemma try_edit_log: "try_edit p h r c = (Inr b, c') \<Longrightarrow>
    (ch_log c' = ch_log c \<and> \<not> b) \<or> (\<exists>k. ch_log c' = ch_log c @ [Edit k r] \<and> accepted p (ch_log c) (Edit k r) = b)"
  by (auto simp: try_edit_def can_edit_def try_op_eq edit_message_def accepted_def split: option.splits if_splits)

lemma deliver_log:
  assumes "deliver p r h c = (Inr x, c')"
  shows "\<exists>L. ch_log c' = ch_log c @ L \<and> (\<forall>d \<in> set L. ts_kind (said d) = ts_kind r \<and> ts_chat (said d) = ts_chat r)
    \<and> map (ts_text \<circ> said) (shown p (ch_log c) L) = pieces (ts_text r)"
proof -
  define chunks where "chunks = split_loop message_limit [] (ts_text r)"
  define first where "first = (if length chunks = 1 then r else r\<lparr>ts_text := hd chunks\<rparr>)"
  have "split_telegram_text (ts_text r) (int message_limit) = Inr chunks"
    by (simp add: split_telegram_text_def chunks_def message_limit_def guardE_def)
  with assms have "deliver_chunks p r h chunks c = (Inr x, c')" by (simp add: deliver_def then_op_Inr)
  then obtain b c1 c2 where 1: "try_edit p h first c = (Inr b, c1)"
    and 2: "(if b then pure_op (Inr ()) else then_op (send_response p first) (\<lambda>_. pure_op (Inr ()))) c1 = (Inr (), c2)"
    and 3: "send_all p (map (\<lambda>t. r\<lparr>ts_text := t, ts_buttons := []\<rparr>) (tl chunks)) c2 = (Inr x, c')"
    unfolding deliver_chunks_def Let_def first_def [symmetric] by (auto simp: then_op_Inr)
  have ne: "chunks \<noteq> []"
    using split_loop_correct [of message_limit "[]" "[]" "ts_text r"] by (auto simp: chunks_def message_limit_def)
  have ps: "pieces (ts_text r) = ts_text first # tl chunks"
    using ne by (cases chunks) (auto simp: pieces_def first_def chunks_def [symmetric] Let_def)
  have f: "ts_kind first = ts_kind r" "ts_chat first = ts_chat r" by (simp_all add: first_def)
  define rest where "rest = map Send (map (\<lambda>t. r\<lparr>ts_text := t, ts_buttons := []\<rparr>) (tl chunks))"
  have rest: "map (ts_text \<circ> said) rest = tl chunks" "\<forall>d \<in> set rest. ts_kind (said d) = ts_kind r \<and> ts_chat (said d) = ts_chat r"
    by (simp_all add: rest_def said_def comp_def)
  have l3: "ch_log c' = ch_log c2 @ rest" "shown p (ch_log c2) rest = rest" using send_all_log [OF 3] by (simp_all add: rest_def)
  have "\<exists>M. ch_log c2 = ch_log c1 @ M \<and> M = (if b then [] else [Send first]) \<and> shown p (ch_log c1) M = M"
    using 2 by (auto simp: then_op_Inr send_response_def accepted_def split: if_splits)
  then obtain M where M: "ch_log c2 = ch_log c1 @ M" "M = (if b then [] else [Send first])" "shown p (ch_log c1) M = M" by blast
  obtain E where E: "ch_log c1 = ch_log c @ E" "\<forall>d \<in> set E. said d = first" "map said (shown p (ch_log c) E) = (if b then [first] else [])"
    using try_edit_log [OF 1] by (elim disjE exE conjE) (auto simp: said_def)
  show ?thesis
  proof (intro exI conjI)
    show "ch_log c' = ch_log c @ (E @ M @ rest)" by (simp add: l3(1) M(1) E(1))
    show "\<forall>d \<in> set (E @ M @ rest). ts_kind (said d) = ts_kind r \<and> ts_chat (said d) = ts_chat r"
      using E(2) M(2) rest(2) f by (auto simp: said_def)
    have "shown p (ch_log c) (E @ M @ rest) = shown p (ch_log c) E @ M @ rest"
      using M(3) l3(2) by (simp add: shown_append E(1) [symmetric] M(1) [symmetric] del: append_assoc add: append_assoc [symmetric])
    moreover have "map (ts_text \<circ> said) (shown p (ch_log c) E) = (if b then [ts_text first] else [])"
      using arg_cong [OF E(3), of "map ts_text"] by (auto split: if_splits)
    moreover have "map (ts_text \<circ> said) M = (if b then [] else [ts_text first])" by (simp add: M(2) said_def)
    ultimately show "map (ts_text \<circ> said) (shown p (ch_log c) (E @ M @ rest)) = pieces (ts_text r)"
      using rest(1) ps by (simp split: if_splits)
  qed
qed

definition of_kind :: "response_kind \<Rightarrow> delivery list \<Rightarrow> response list" where
  "of_kind k L = filter (\<lambda>r. ts_kind r = k) (map said L)"

lemma of_kind_append [simp]: "of_kind k (L @ M) = of_kind k L @ of_kind k M"
  by (simp add: of_kind_def)

lemma of_kind_none: "(\<forall>d \<in> set L. ts_kind (said d) \<in> K) \<Longrightarrow> k \<notin> K \<Longrightarrow> of_kind k L = []"
  by (auto simp: of_kind_def filter_empty_conv)

text \<open>
  What the chat has been told, of the deliveries that were acknowledged: when there is no answer an error is
  the last of them and no part of an answer was even tried; else they hold the whole answer, in its pieces
  and once, in the chat, and no error was tried.
\<close>

definition told :: "port \<Rightarrow> int \<Rightarrow> chat \<Rightarrow> text_response option \<Rightarrow> chat \<Rightarrow> bool" where
  "told p chat_id c r c' \<longleftrightarrow> (\<exists>L. ch_log c' = ch_log c @ L \<and> (let D = shown p (ch_log c) L in case r of
       None \<Rightarrow> of_kind K_Final L = [] \<and> D \<noteq> [] \<and> ts_kind (said (last D)) = K_Error \<and> ts_chat (said (last D)) = chat_id
     | Some a \<Rightarrow> of_kind K_Error L = [] \<and> (\<forall>x \<in> set (of_kind K_Final L). ts_chat x = chat_id)
         \<and> map ts_text (of_kind K_Final D) = pieces (xr_text a)))"

lemma told_later:
  assumes "logs {K_Status, K_Notice} c c1" and "told p chat_id c1 r c'"
  shows "told p chat_id c r c'"
proof -
  from assms(1) obtain A where A: "ch_log c1 = ch_log c @ A" "\<forall>d \<in> set A. ts_kind (said d) \<in> {K_Status, K_Notice}"
    unfolding logs_def by blast
  then have "\<forall>d \<in> set (shown p (ch_log c) A). ts_kind (said d) \<in> {K_Status, K_Notice}" using shown_subset by blast
  from of_kind_none [OF this] of_kind_none [OF A(2)]
  have "of_kind K_Final A = []" "of_kind K_Error A = []" "of_kind K_Final (shown p (ch_log c) A) = []" by simp_all
  moreover from assms(2) obtain L where "ch_log c' = ch_log c1 @ L" and "let D = shown p (ch_log c1) L in case r of
       None \<Rightarrow> of_kind K_Final L = [] \<and> D \<noteq> [] \<and> ts_kind (said (last D)) = K_Error \<and> ts_chat (said (last D)) = chat_id
     | Some a \<Rightarrow> of_kind K_Error L = [] \<and> (\<forall>x \<in> set (of_kind K_Final L). ts_chat x = chat_id)
         \<and> map ts_text (of_kind K_Final D) = pieces (xr_text a)"
    unfolding told_def by blast
  ultimately show ?thesis using A(1) unfolding told_def
    by (intro exI [of _ "A @ L"]) (auto simp: shown_append Let_def split: option.splits)
qed

lemma logs_more: "logs K c c1 \<Longrightarrow> K \<subseteq> K' \<Longrightarrow> logs K' c c1"
  unfolding logs_def by blast

lemma pieces_ne: "pieces t \<noteq> []"
  using split_loop_correct [of message_limit "[]" "[]" t] by (auto simp: pieces_def Let_def message_limit_def)

lemma told_error:
  assumes "deliver_error p persona chat_id h t c = (Inr r, c')"
  shows "told p chat_id c r c'"
proof -
  from assms obtain w c1 x where v: "voiced persona ''error'' t c = (Inr w, c1)" and d: "deliver p (plain chat_id K_Error w) h c1 = (Inr x, c')"
    and r: "r = None" by (auto simp: deliver_error_def then_op_Inr)
  from deliver_log [OF d] obtain L where L: "ch_log c' = ch_log c1 @ L"
    "\<forall>d \<in> set L. ts_kind (said d) = K_Error \<and> ts_chat (said d) = chat_id" "map (ts_text \<circ> said) (shown p (ch_log c1) L) = pieces w"
    by (auto simp: plain_def)
  then have "of_kind K_Final L = []" using of_kind_none [of L "{K_Error}" K_Final] by auto
  moreover have ne: "shown p (ch_log c1) L \<noteq> []" using L(3) pieces_ne [of w] by (metis list.map_disc_iff)
  moreover have "ts_kind (said (last (shown p (ch_log c1) L))) = K_Error \<and> ts_chat (said (last (shown p (ch_log c1) L))) = chat_id"
    using L(2) last_in_set [OF ne] shown_subset by blast
  ultimately have "told p chat_id c1 r c'" unfolding told_def r using L(1) by auto
  with keepsD [OF logs_send(3) v [unfolded voiced_def]] show ?thesis by (rule told_later)
qed

lemma told_hand_over:
  assumes "hand_over ap p persona chat_id h answer ws c = (Inr (), c')"
  shows "told p chat_id c (Some answer) c'"
proof -
  from assms obtain c1 c2 where
    n: "(if xr_fallback answer = None then pure_op (Inr ())
       else then_op (voiced persona ''notice'' paid_key_text) (\<lambda>said.
         then_op (send_response p (plain chat_id K_Notice said)) (\<lambda>_. pure_op (Inr ())))) c = (Inr (), c1)"
    and d: "deliver p (plain chat_id K_Final (xr_text answer)) h c1 = (Inr (), c2)"
    and s: "send_sources ap p chat_id ws c2 = (Inr (), c')" unfolding hand_over_def by (auto simp: then_op_Inr)
  have "keeps (logs {K_Status, K_Notice}) (if xr_fallback answer = None then pure_op (Inr ())
       else then_op (voiced persona ''notice'' paid_key_text) (\<lambda>said.
         then_op (send_response p (plain chat_id K_Notice said)) (\<lambda>_. pure_op (Inr ()))))"
    by (auto intro!: keeps_basic preorder_logs logs_send simp: voiced_def plain_def)
  from keepsD [OF this n] have l1: "logs {K_Status, K_Notice} c c1" .
  from deliver_log [OF d] obtain L where L: "ch_log c2 = ch_log c1 @ L"
    "\<forall>d \<in> set L. ts_kind (said d) = K_Final \<and> ts_chat (said d) = chat_id"
    "map (ts_text \<circ> said) (shown p (ch_log c1) L) = pieces (xr_text answer)"
    by (auto simp: plain_def)
  from keepsD [OF logs_quiet(2) [of "{K_Notice}"] s] obtain B where B: "ch_log c' = ch_log c2 @ B"
    "\<forall>d \<in> set B. ts_kind (said d) \<in> {K_Notice}" by (auto simp: logs_def)
  have D: "\<forall>d \<in> set (shown p (ch_log c1) L). ts_kind (said d) = K_Final" using L(2) shown_subset by blast
  have "\<forall>d \<in> set (shown p (ch_log c2) B). ts_kind (said d) \<in> {K_Notice}" using B(2) shown_subset by blast
  from of_kind_none [OF this] have "of_kind K_Final (shown p (ch_log c2) B) = []" by simp
  moreover have "of_kind K_Final L = map said L" "of_kind K_Error L = []" "of_kind K_Final B = []" "of_kind K_Error B = []"
    "of_kind K_Final (shown p (ch_log c1) L) = map said (shown p (ch_log c1) L)"
    using L(2) D of_kind_none [of L "{K_Final}"] of_kind_none [OF B(2)] by (auto simp: of_kind_def filter_id_conv)
  ultimately have "told p chat_id c1 (Some answer) c'" unfolding told_def using L B(1)
    by (intro exI [of _ "L @ B"]) (auto simp: shown_append Let_def)
  with l1 show ?thesis by (rule told_later)
qed

lemma told_same_log: "ch_log c1 = ch_log c \<Longrightarrow> told p chat_id c1 r c' \<Longrightarrow> told p chat_id c r c'"
  by (simp add: told_def)

lemma told_conclude:
  assumes "conclude ap p user persona t stored h answer ws c = (Inr r, c')"
  shows "told p (rt_chat t) c r c'"
proof -
  have "keeps (logs {}) (store_answer ap stored answer)" "keeps (logs {}) (plan_extraction ap user stored)"
    unfolding store_answer_def plan_extraction_def by (auto intro!: keeps_basic preorder_logs logs_db split: option.split)
  then have l: "ch_log c2 = ch_log c1" if "store_answer ap stored answer c1 = (q, c2) \<or> plan_extraction ap user stored c1 = (w, c2)" for c1 c2 q w
    using that by (fastforce dest: keepsD simp: logs_def)
  from assms consider e c1 where "store_answer ap stored answer c = (Inl e, c1)" "deliver_error p persona (rt_chat t) h answer_not_saved_text c1 = (Inr r, c')"
    | x e c1 c2 where "store_answer ap stored answer c = (Inr x, c1)" "plan_extraction ap user stored c1 = (Inl e, c2)"
        "deliver_error p persona (rt_chat t) h memory_not_saved_text c2 = (Inr r, c')"
    | x run c1 c2 c3 where "store_answer ap stored answer c = (Inr x, c1)" "plan_extraction ap user stored c1 = (Inr run, c2)"
        "hand_over ap p persona (rt_chat t) h answer ws c2 = (Inr (), c3)"
        "after_delivery ap user (rt_session t) run c3 = (Inr (), c')" "r = Some answer"
    unfolding conclude_def by (auto simp: try_op_eq then_op_Inr)
  then show ?thesis
  proof cases
    case 1
    with told_error l show ?thesis by (blast intro: told_same_log)
  next
    case 2
    with l have "ch_log c2 = ch_log c" by metis
    with told_error [OF 2(3)] show ?thesis by (blast intro: told_same_log)
  next
    case 3
    with l have "ch_log c2 = ch_log c" by metis
    with told_hand_over [OF 3(3)] after_delivery_eq [OF 3(4)] 3(5) show ?thesis by (simp add: told_def)
  qed
qed

lemma told_provider_failed:
  assumes "provider_failed ap p persona t stored h c = (Inr r, c')"
  shows "told p (rt_chat t) c r c'"
proof -
  from assms obtain c1 where 1: "record_transcript_failure ap (ap_now ap 3) stored F_Provider ''provider_request_failed'' c = (Inr (), c1)"
    and 2: "deliver_error p persona (rt_chat t) h not_prepared_text c1 = (Inr r, c')"
    by (auto simp: provider_failed_def then_op_Inr try_op_eq)
  from keepsD [OF logs_turn(2) 1] have "logs {K_Status, K_Notice} c c1" by (rule logs_more) simp
  with told_error [OF 2] show ?thesis by (rule told_later [rotated])
qed

lemma told_unsaved:
  assumes "then_op (voiced persona ''error'' not_saved_text) (\<lambda>said.
      then_op (send_response p (plain chat K_Error said)) (\<lambda>_. pure_op (Inr None))) c1 = (Inr r, c')"
  shows "told p chat c1 r c'"
proof -
  from assms obtain w c2 h where v: "voiced persona ''error'' not_saved_text c1 = (Inr w, c2)"
    and r: "r = None" "ch_log c' = ch_log c2 @ [Send (plain chat K_Error w)]" "po_send p (ch_log c2) (plain chat K_Error w) = Inr h"
    by (auto simp: then_op_Inr send_response_def)
  have "told p chat c2 r c'" unfolding told_def r(1,2)
    by (intro exI [of _ "[Send (plain chat K_Error w)]"]) (simp add: r(3) accepted_def of_kind_def said_def, simp add: plain_def)
  with keepsD [OF logs_send(3) v [unfolded voiced_def]] show ?thesis by (rule told_later)
qed

lemma told_answered:
  assumes "answer_turn ap p user persona t stored c1 = (Inr r, c')"
  shows "told p (rt_chat t) c1 r c'"
proof -
  from assms obtain h c2 where s: "send_status ap p persona t stored c1 = (Inr h, c2)"
    and g: "try_op (generate ap p user persona t stored h) (\<lambda>_. provider_failed ap p persona t stored h)
       (\<lambda>(answer, sources). conclude ap p user persona t stored h answer sources) c2 = (Inr r, c')"
    by (auto simp: answer_turn_def then_op_Inr)
  have l: "logs {K_Status, K_Notice} c1 c2" using keepsD [OF logs_turn(3) s] by (rule logs_more) simp
  have "told p (rt_chat t) c2 r c'" using g unfolding try_op_eq
  proof (elim disjE exE conjE, goal_cases)
    case (1 e c3)
    from keepsD [OF logs_turn(4) 1(1)] have "logs {K_Status, K_Notice} c2 c3" by (rule logs_more) simp
    then show ?case using told_provider_failed [OF 1(2)] by (rule told_later)
  next
    case (2 x c3)
    from keepsD [OF logs_turn(4) 2(1)] have "logs {K_Status, K_Notice} c2 c3" by (rule logs_more) simp
    then show ?case using told_conclude 2(2) by (cases x) (auto intro: told_later)
  qed
  with l show ?thesis by (rule told_later)
qed

text \<open>
C12: Every message of the owner that the service finishes with is answered in its chat. Counting only what the
port acknowledged (a send that did not raise, an edit that returned true): when an answer is returned its
whole text was delivered, each piece once and in order, and no error was sent; when none is returned an
error is the last thing delivered, and no part of an answer was sent.
\<close>
theorem turn_is_told:
  assumes "handle_turn ap p m c = (Inr r, c')" and "is_authorized (ap_router ap) (in_user m) (in_type m)"
  shows "told p (in_chat m) c r c'"
proof -
  from assms obtain t s0 persona cd where t: "route (ap_digest ap) (ap_ticks ap) (ap_router ap) (ap_route_env ap) m (ch_db c) = (Inr (Some t), s0)"
    and d: "drain ap (in_user m) (rt_session t) (c\<lparr>ch_db := s0\<rparr>) = (Inr (), cd)"
    and b: "try_op (begin_turn ap (in_user m) t)
            (\<lambda>_. then_op (voiced persona ''error'' not_saved_text) (\<lambda>said.
               then_op (send_response p (plain (rt_chat t) K_Error said)) (\<lambda>_. pure_op (Inr None))))
            (\<lambda>stored. answer_turn ap p (in_user m) persona t stored) cd = (Inr r, c')"
    unfolding handle_turn_def
    by (auto simp: then_op_Inr on_db_eq route_def split: option.splits sum.splits prod.splits)
  have chat: "rt_chat t = in_chat m"
    using t by (auto simp: route_def route_message_def split: if_splits sum.splits prod.splits dest!: route_loop_text)
  have "ch_log cd = ch_log c" using keepsD [OF logs_turn(1) d] by (auto simp: logs_def)
  moreover have begin_log: "ch_log c1 = ch_log cd" if "begin_turn ap (in_user m) t cd = (q, c1)" for q c1
  proof -
    have "keeps (logs {}) (begin_turn ap (in_user m) t)" unfolding begin_turn_def by (auto intro!: keeps_basic preorder_logs logs_db)
    from keepsD [OF this that] show ?thesis by (auto simp: logs_def)
  qed
  moreover have "\<exists>c1. ch_log c1 = ch_log cd \<and> told p (rt_chat t) c1 r c'"
    using b [unfolded try_op_eq] by (elim disjE exE conjE) (blast dest: begin_log told_unsaved told_answered)+
  ultimately show ?thesis by (auto simp: chat intro: told_same_log)
qed

end
