(* ===== verification/Turn_Example.thy ===== *)
theory Turn_Example
  imports Turn_Properties
begin

text \<open>
  One turn of \<open>Chat_Turn\<close> evaluated from the empty store, on which the properties are applied, and a text
  whose delivery exceeds the limit of Telegram.
\<close>

section \<open>A concrete turn\<close>


definition demo_answer :: text_response where
  "demo_answer = \<lparr>xr_id = Some [82], xr_model = [77], xr_text = [89, 101, 115], xr_source = [75], xr_fallback = None\<rparr>"

definition demo_app :: application where
  "demo_app = \<lparr>ap_router = \<lparr>ro_user = 7, ro_catalog = demo_catalog\<rparr>, ap_casefold = id, ap_digest = (\<lambda>_. [104]),
     ap_chars = \<lparr>ch_word = (\<lambda>_. False), ch_fold = id\<rparr>, ap_ticks = int, ap_route_env = (\<lambda>_ s. s), ap_env = id, ap_now = int,
     ap_builder = None, ap_messages = False, ap_respond = (\<lambda>_. Inr demo_answer), ap_tools = None, ap_urlsplit = (\<lambda>_. Inl (ValueError ''url'')),
     ap_sessions = True, ap_memory = False, ap_coordinator = None\<rparr>"

definition demo_port :: port where
  "demo_port = \<lparr>po_send = (\<lambda>_ _. Inr None), po_edit = None, po_bound = None\<rparr>"

definition demo_incoming :: incoming_message where
  "demo_incoming = \<lparr>in_user = 7, in_chat = 70, in_text = [72], in_type = Some (u ''private'')\<rparr>"

definition demo_chat :: chat where
  "demo_chat = \<lparr>ch_db = empty_db, ch_log = [], ch_voice = (\<lambda>_. 0)\<rparr>"

definition demo_routed_db :: db where
  "demo_routed_db = empty_db\<lparr>personas := [\<lparr>pr_id = 1, pr_profile = default_profile, pr_key = [76], pr_display = [76],
       pr_prompt = [72, 105], pr_identity = 1, pr_active = True\<rparr>],
     persona_versions := [\<lparr>pv_id = 1, pv_persona = 1, pv_identity = 1, pv_display = [76], pv_prompt = [72, 105],
       pv_voice = empty_voice, pv_hash = [104], pv_created = 7\<rparr>],
     conversations := [\<lparr>cv_id = 1, cv_chat = 70, cv_key = [76], cv_version = 1\<rparr>],
     lanes := [\<lparr>l_id = 1, l_conversation = 1, l_key = [76], l_identity = 1, l_version = Some 1\<rparr>]\<rparr>"

lemma demo_route_eq: "route (\<lambda>_. [104]) int \<lparr>ro_user = 7, ro_catalog = demo_catalog\<rparr> (\<lambda>_ s. s) demo_incoming empty_db
   = (Inr (Some demo_routed), demo_routed_db)"
  by (simp add: route_def is_authorized_def route_message_def ensure_conversation_def conversation_of_def
        eval_nat_numeral empty_db_def next_rowid_def catalog_get_def demo_catalog_def update_where_def demo_incoming_def
        lane_attempt_def ensure_persona_version_def upsert_persona_def persona_row_of_def insert_version_def
        version_of_def persona_content_hash_def demo_persona_def ensure_lane_def bump_conversation_def
        lane_for_def lane_matches_def demo_routed_def demo_routed_db_def)

lemma empty_voice_back: "voice_from_mapping id (voice_as_dict empty_voice) = Inr empty_voice"
  by code_simp

lemma demo_turn_persona: "persona_for_turn id \<lparr>ro_user = 7, ro_catalog = demo_catalog\<rparr> demo_routed demo_routed_db = Inr demo_persona"
  by (simp add: persona_for_turn_def persona_version_for_lane_def version_for_lane_def demo_routed_def demo_routed_db_def
    row_by_def persona_version_from_row_def empty_voice_back as_persona_def demo_persona_def Let_def)

lemma demo_begin: "\<exists>s1. begin_user_turn id 1 7 1 [72] demo_routed_db = (Inr \<lparr>tu_id = 1, tu_session = 1, tu_sequence = 1, tu_role = User,
     tu_content = [72], tu_response = None, tu_created = 1\<rparr>, s1)
   \<and> (\<exists>x s2. append_turn 3 1 Assistant [89, 101, 115] (Some [82]) s1 = (Inr x, s2))"
  by (simp add: begin_user_turn_def ensure_active_session_def append_turn_def transaction_def ensure_profile_row_def
    demo_routed_db_def empty_db_def Let_def row_by_def active_session_of_def new_session_def next_generation_def
    next_sequence_def new_turn_def next_rowid_def strip_def is_space_def is_blank_def sql_nonblank_def)

lemma demo_turn: "\<exists>c'. handle_turn demo_app demo_port demo_incoming demo_chat = (Inr (Some demo_answer), c')"
proof -
  obtain s1 x s2 where b: "begin_user_turn id 1 7 1 [72] demo_routed_db = (Inr \<lparr>tu_id = 1, tu_session = 1, tu_sequence = 1, tu_role = User,
     tu_content = [72], tu_response = None, tu_created = 1\<rparr>, s1)" and a: "append_turn 3 1 Assistant [89, 101, 115] (Some [82]) s1 = (Inr x, s2)"
    using demo_begin by blast
  have routed: "rt_session demo_routed = 1" "rt_text demo_routed = [72]" "rt_chat demo_routed = 70" by (simp_all add: demo_routed_def)
  have status: "voice demo_persona ''status'' [] [] c = (Inr [], c\<lparr>ch_voice := (ch_voice c)(([76], 1, u ''status'') := ch_voice c ([76], 1, u ''status'') + 1)\<rparr>)" for c
    by (simp add: voice_def renderer_render_def voice_render_def voice_kinds_def voice_variants_def demo_persona_def empty_voice_def guardE_def Let_def)
  have split: "split_telegram_text [89, 101, 115] (int message_limit) = Inr [[89, 101, 115]]"
    by (simp add: split_telegram_text_def message_limit_def guardE_def split_loop.simps)
  have app: "ap_router demo_app = \<lparr>ro_user = 7, ro_catalog = demo_catalog\<rparr>" "ap_casefold demo_app = id" "ap_digest demo_app = (\<lambda>_. [104])"
    "ap_ticks demo_app = int" "ap_route_env demo_app = (\<lambda>_ s. s)" "ap_env demo_app = id" "ap_now demo_app = int" "ap_builder demo_app = None"
    "ap_respond demo_app = (\<lambda>_. Inr demo_answer)" "ap_tools demo_app = None" "ap_sessions demo_app" "\<not> ap_memory demo_app"
    "ap_coordinator demo_app = None" "in_user demo_incoming = 7" "ch_db demo_chat = empty_db"
    "xr_text demo_answer = [89, 101, 115]" "xr_id demo_answer = Some [82]" "xr_fallback demo_answer = None"
    by (simp_all add: demo_app_def demo_incoming_def demo_chat_def demo_answer_def)
  show ?thesis
    by (simp add: handle_turn_def then_op_def on_db_def app demo_route_eq read_op_def demo_turn_persona drain_def try_op_def
      begin_turn_def routed b answer_turn_def send_status_def status generate_def turn_prompt_def pure_op_def conclude_def
      store_answer_def append_assistant_turn_def a plan_extraction_def hand_over_def deliver_def split plain_def deliver_chunks_def
      try_edit_def send_response_def demo_port_def send_sources_def after_delivery_def)
qed

lemma demo_others: "others_keep undisturbed demo_app"
  by (simp add: others_keep_def demo_app_def undisturbed_refl)

lemma demo_authorized: "is_authorized (ap_router demo_app) (in_user demo_incoming) (in_type demo_incoming)"
  by (simp add: demo_app_def demo_incoming_def is_authorized_def)

theorem turn_disturbs_nothing_witness:
  "prefix [] (ch_log (snd (handle_turn demo_app demo_port demo_incoming demo_chat)))"
  using turn_disturbs_nothing [OF demo_others, of demo_chat demo_port demo_incoming] by simp

theorem answered_turn_is_stored_witness:
  "\<exists>ut \<in> set (turns (ch_db (snd (handle_turn demo_app demo_port demo_incoming demo_chat)))). tu_role ut = User \<and> tu_content ut = [72]"
proof -
  obtain c' where c: "handle_turn demo_app demo_port demo_incoming demo_chat = (Inr (Some demo_answer), c')" using demo_turn by blast
  have "strip (in_text demo_incoming) = [72]" by (simp add: demo_incoming_def strip_def is_space_def)
  moreover have "ap_sessions demo_app" by (simp add: demo_app_def)
  ultimately show ?thesis using answered_turn_is_stored [OF c _ demo_others] c by auto
qed

theorem turn_is_told_witness:
  "\<exists>c'. handle_turn demo_app demo_port demo_incoming demo_chat = (Inr (Some demo_answer), c')
     \<and> told demo_port 70 demo_chat (Some demo_answer) c'"
proof -
  obtain c' where c: "handle_turn demo_app demo_port demo_incoming demo_chat = (Inr (Some demo_answer), c')" using demo_turn by blast
  have "in_chat demo_incoming = 70" by (simp add: demo_incoming_def)
  with turn_is_told [OF c demo_authorized] c show ?thesis by auto
qed

section \<open>A text that is too long\<close>

text \<open>
  A text that only exceeds the limit by its last line break has one chunk, and \<open>_deliver\<close> sends the text
  itself instead of the chunk.
\<close>

lemma one_chunk: "split_loop message_limit [] (replicate message_limit 120 @ [10]) = [replicate message_limit 120]"
proof -
  have r: "rfind q (replicate n 120) = None" if "q = [10, 10] \<or> q = [10] \<or> q = [32]" for q n
  proof (rule ccontr)
    assume "rfind q (replicate n 120) \<noteq> None"
    then obtain k where "rfind q (replicate n 120) = Some k" by blast
    then have "starts_with q (drop k (replicate n 120))" by (rule rfind_Some [THEN conjunct2])
    with that show False by (cases "n - k") (auto simp: starts_with_def)
  qed
  have "split_boundary (replicate message_limit 120 @ [10]) message_limit = message_limit"
    by (simp add: split_boundary_def r Let_def)
  moreover have "0 < message_limit" by (simp add: message_limit_def)
  ultimately show ?thesis by (simp add: split_loop.simps [of message_limit] skip_breaks_def)
qed

theorem trailing_break_defeats_the_limit:
  "\<exists>c. deliver demo_port (plain 70 K_Final (replicate 4096 120 @ [10])) None demo_chat = (Inr (), c)
     \<and> (\<exists>r. ch_log c = [Send r] \<and> length (ts_text r) = 4097)"
proof -
  have s: "split_telegram_text (replicate 4096 120 @ [10]) (int message_limit) = Inr [replicate 4096 120]"
    using one_chunk by (simp add: split_telegram_text_def guardE_def message_limit_def)
  show ?thesis
    by (simp add: deliver_def then_op_def pure_op_def plain_def s deliver_chunks_def try_edit_def send_response_def demo_port_def
      demo_chat_def)
qed

end
