(* ===== verification/Commands.thy ===== *)
theory Commands
  imports Chat_Turn
begin

text \<open>
  The slash commands and the buttons of \<open>application_service.py\<close>. The wording of an answer is an argument:
  \<open>cs_say\<close> gives the Russian text of a \<open>phrase\<close>, which has the values the text shows. The services a
  command needs are there; the checks for their absence are left out but for the memory store. The
  persona catalog of the service is the one of the router.
\<close>

section \<open>Wording\<close>

datatype phrase =
    Greeting | Command_Index | Unknown_Command | Persona_Format | Unknown_Persona | Persona_Switched pystr | Choose_Persona pystr
  | Cannot_Switch | Reload_Failed | Reloaded
  | Remind_Format | Tasks_Format | Tasks_Failed | No_Tasks | Tasks_Header | Task_Label task_status | Next_At int
  | Snooze_Label | Done_Label | Cancel_Label
  | Timezone_Format | Unknown_Timezone | Timezone_Is pystr | Quiet_Format | Quiet_Invalid | Quiet_Off | Quiet_Are pystr
  | New_Format | No_Conversation | No_Confirmations | Close_Question | Close_Label | Stop_Label
  | Remember_Format | Too_Long | Remembered pystr | Memories_Format | Page_Invalid | Memory_Empty | Page_Empty int
  | Page_Header int int | Back_Label | Next_Label | Forget_Format | Choose_Memory | Forget_Label int | No_Such_Memory
  | Forget_Question int pystr | Delete_Label | Memory_Gone | Memory_Down
  | Answer reply | Create_Label

record command_services =
  cs_say :: "phrase \<Rightarrow> pystr"
  cs_reminders :: reminder_services
  cs_tokens :: "nat \<Rightarrow> pystr"
  cs_now :: "nat \<Rightarrow> int"
  cs_clock :: py_datetime
  cs_finalizer :: "int \<Rightarrow> int \<Rightarrow> (db, summary) op"
  cs_catalog :: "catalog result option"

definition memory_page_size :: int where "memory_page_size = 5"
definition max_remember_length :: nat where "max_remember_length = 500"
definition snippet_length :: nat where "snippet_length = 60"
definition reminder_task_limit :: int where "reminder_task_limit = 10"

section \<open>Voices of a chat\<close>

text \<open>\<open>_persona_for_chat\<close>: the persona of the current lane, the default one when it has no version.\<close>

definition persona_for_chat :: "application \<Rightarrow> incoming_message \<Rightarrow> db \<Rightarrow> persona option result" where
  "persona_for_chat ap m s =
     (let usual = catalog_get (ro_catalog (ap_router ap)) (cat_default (ro_catalog (ap_router ap))) in
      bindE (router_current_lane (ap_router ap) m s) (\<lambda>lane.
        case lane of
          None \<Rightarrow> Inr usual
        | Some t \<Rightarrow> (case persona_for_turn (ap_casefold ap) (ap_router ap) t s of
            Inr p \<Rightarrow> Inr (Some p)
          | Inl e \<Rightarrow> if is_value_error e then Inr usual else Inl e)))"

definition spoken :: "application \<Rightarrow> incoming_message \<Rightarrow> string \<Rightarrow> pystr \<Rightarrow> (chat, pystr) op" where
  "spoken ap m kind t = then_op (read_op (\<lambda>c. persona_for_chat ap m (ch_db c))) (\<lambda>persona.
     case persona of None \<Rightarrow> pure_op (Inr t) | Some x \<Rightarrow> voiced x kind t)"

definition command_voice :: "application \<Rightarrow> incoming_message \<Rightarrow> pystr \<Rightarrow> (chat, pystr) op" where
  "command_voice ap m t = spoken ap m ''command'' t"

definition tell :: "application \<Rightarrow> port \<Rightarrow> incoming_message \<Rightarrow> pystr \<Rightarrow> button list list \<Rightarrow> (chat, unit) op" where
  "tell ap p m t buttons = then_op (command_voice ap m t) (\<lambda>w.
     then_op (send_response p ((plain (in_chat m) K_Final w)\<lparr>ts_buttons := buttons\<rparr>)) (\<lambda>_. pure_op (Inr ())))"

text \<open>The error speaks with the voice of the owner's lane in the chat.\<close>

definition send_command_error :: "application \<Rightarrow> port \<Rightarrow> int \<Rightarrow> pystr \<Rightarrow> (chat, unit) op" where
  "send_command_error ap p chat_id t =
     then_op (spoken ap \<lparr>in_user = ro_user (ap_router ap), in_chat = chat_id, in_text = [], in_type = Some (u ''private'')\<rparr> ''error'' t) (\<lambda>w.
     then_op (send_response p (plain chat_id K_Error w)) (\<lambda>_. pure_op (Inr ())))"

definition edit_bound :: "port \<Rightarrow> response \<Rightarrow> (chat, bool) op" where
  "edit_bound p r = try_edit p (po_bound p) r"

definition show_again :: "port \<Rightarrow> response \<Rightarrow> (chat, unit) op" where
  "show_again p r = then_op (edit_bound p r) (\<lambda>edited.
     if edited then pure_op (Inr ()) else then_op (send_response p r) (\<lambda>_. pure_op (Inr ())))"

definition send_callback_result :: "application \<Rightarrow> port \<Rightarrow> incoming_message \<Rightarrow> response_kind \<Rightarrow> pystr \<Rightarrow> (chat, unit) op" where
  "send_callback_result ap p m kind t =
     then_op (spoken ap m (if kind = K_Error then ''error'' else ''command'') t) (\<lambda>w. show_again p (plain (in_chat m) kind w))"

section \<open>Texts of commands\<close>

text \<open>\<open>int(t)\<close>: a sign and digits, single underscores between them, blanks around.\<close>

fun digits_ok :: "pystr \<Rightarrow> bool" where
  "digits_ok [] = False"
| "digits_ok [c] = (decimal_value c \<noteq> None)"
| "digits_ok (c # d # cs) = (decimal_value c \<noteq> None \<and> (if d = 95 then digits_ok cs else digits_ok (d # cs)))"

definition py_int :: "pystr \<Rightarrow> int result" where
  "py_int t = (let s = strip t; signed = s \<noteq> [] \<and> hd s \<in> {43, 45}; ds = (if signed then tl s else s) in
     guardE (\<not> digits_ok ds) (ValueError ''invalid literal for int()'')
       (bindE (int_of_digits (filter (\<lambda>c. c \<noteq> 95) ds)) (\<lambda>n. Inr (if signed \<and> hd s = 45 then - n else n))))"

definition two_digits :: "nat \<Rightarrow> nat \<Rightarrow> int option" where
  "two_digits a b = (case (decimal_value a, decimal_value b) of (Some x, Some y) \<Rightarrow> Some (int (10 * x + y)) | _ \<Rightarrow> None)"

fun quiet_fields :: "pystr \<Rightarrow> (int \<times> int \<times> int \<times> int) option" where
  "quiet_fields [a, b, c1, c, d, m, e, f, c2, g, h] =
     (case (two_digits a b, two_digits c d, two_digits e f, two_digits g h) of
        (Some w, Some x, Some y, Some z) \<Rightarrow> if c1 = 58 \<and> m = 45 \<and> c2 = 58 then Some (w, x, y, z) else None
      | _ \<Rightarrow> None)"
| "quiet_fields _ = None"

definition parse_quiet_range :: "pystr \<Rightarrow> (int \<times> int) result" where
  "parse_quiet_range t = (case quiet_fields t of
       None \<Rightarrow> Inl (ValueError ''quiet hours format is invalid'')
     | Some (h1, m1, h2, m2) \<Rightarrow>
         guardE (23 < h1 \<or> 23 < h2 \<or> 59 < m1 \<or> 59 < m2) (ValueError ''quiet hours value is invalid'')
         (let start = h1 * 60 + m1; fin = h2 * 60 + m2 in
          guardE (start = fin) (ValueError ''quiet hours range cannot be empty'') (Inr (start, fin))))"

definition pad2 :: "int \<Rightarrow> pystr" where
  "pad2 n = (let t = show_int n in if length t < 2 then 48 # t else t)"

definition clock_text :: "int \<Rightarrow> pystr" where
  "clock_text n = pad2 (n div 60) @ [58] @ pad2 (n mod 60)"

definition quiet_text :: "int \<Rightarrow> int \<Rightarrow> pystr" where
  "quiet_text start fin = clock_text start @ [45] @ clock_text fin"

definition format_quiet_policy :: "reminder_policy \<Rightarrow> phrase" where
  "format_quiet_policy q = (case (po_quiet_start q, po_quiet_end q) of
       (Some a, Some b) \<Rightarrow> Quiet_Are (quiet_text a b)
     | _ \<Rightarrow> Quiet_Off)"

section \<open>Confirmations and buttons\<close>

definition button_row :: "(pystr \<times> pystr result) list \<Rightarrow> button list result" where
  "button_row bs = mapE (\<lambda>(label, data). bindE data (\<lambda>d. Inr \<lparr>bu_text = label, bu_data = d\<rparr>)) bs"

definition ask :: "command_services \<Rightarrow> nat \<Rightarrow> int \<Rightarrow> string \<Rightarrow> pyval \<Rightarrow> (chat, pystr) op" where
  "ask cs n owner action payload =
     on_db (request_confirmation (rs_hash (cs_reminders cs)) (rs_ttl (cs_reminders cs)) (cs_now cs n) (cs_tokens cs n) owner (u action) payload)"

definition confirm_row :: "command_services \<Rightarrow> phrase \<Rightarrow> phrase \<Rightarrow> pystr \<Rightarrow> button list result" where
  "confirm_row cs yes no token = button_row [(cs_say cs yes, confirmation_callback_data (u ''confirm'') token),
     (cs_say cs no, confirmation_callback_data (u ''cancel'') token)]"

section \<open>Memory\<close>

definition memory_down :: "command_services \<Rightarrow> application \<Rightarrow> port \<Rightarrow> int \<Rightarrow> (chat, unit) op" where
  "memory_down cs ap p chat_id = send_command_error ap p chat_id (cs_say cs Memory_Down)"

definition remembered :: "int \<Rightarrow> pystr \<Rightarrow> new_memory" where
  "remembered user t = \<lparr>nm_user = user, nm_scope = Shared, nm_kind = u ''fact'', nm_content = t, nm_persona = None,
     nm_relationship = None, nm_session = None, nm_created = None, nm_updated = None, nm_source = Manual, nm_category = None,
     nm_confidence = None, nm_turn = None\<rparr>"

text \<open>An integer handed to SQLite.\<close>

definition sqlite_int :: "int \<Rightarrow> unit result" where
  "sqlite_int n = guardE (n < - (2 ^ 63) \<or> 2 ^ 63 \<le> n) (OverflowError ''Python int too large to convert to SQLite INTEGER'') (Inr ())"

definition handle_remember :: "command_services \<Rightarrow> application \<Rightarrow> port \<Rightarrow> incoming_message \<Rightarrow> pystr list \<Rightarrow> (chat, unit) op" where
  "handle_remember cs ap p m args =
     (let t = strip (join_with 32 args) in
      if t = [] then send_command_error ap p (in_chat m) (cs_say cs Remember_Format)
      else if max_remember_length < length t then send_command_error ap p (in_chat m) (cs_say cs Too_Long)
      else if \<not> ap_memory ap then memory_down cs ap p (in_chat m)
      else try_op (on_db (create_memory (cs_now cs 0) (remembered (in_user m) t)))
        (\<lambda>_. memory_down cs ap p (in_chat m))
        (\<lambda>_. tell ap p m (cs_say cs (Remembered t)) []))"

text \<open>The line of a record and the buttons of a page; \<open>pages\<close> is the number of pages.\<close>

definition memory_line :: "memory_row \<Rightarrow> pystr \<Rightarrow> pystr" where
  "memory_line r t = show_int (m_id r) @ u ''. ['' @ scope_text (m_scope r) @ u ''] '' @ t"

definition page_count :: "nat \<Rightarrow> int" where
  "page_count n = max 1 ((int n + memory_page_size - 1) div memory_page_size)"

definition page_text :: "command_services \<Rightarrow> int \<Rightarrow> int \<Rightarrow> memory_row list \<Rightarrow> pystr" where
  "page_text cs page pages records =
     (if records = [] then cs_say cs (if page = 1 then Memory_Empty else Page_Empty page)
      else join_with 10 (cs_say cs (Page_Header page pages) # map (\<lambda>r. memory_line r (m_content r)) records))"

definition page_buttons :: "command_services \<Rightarrow> int \<Rightarrow> int \<Rightarrow> button list result" where
  "page_buttons cs page pages = button_row
     ((if 1 < page then [(cs_say cs Back_Label, memories_page_callback_data (page - 1))] else [])
      @ (if page < pages then [(cs_say cs Next_Label, memories_page_callback_data (page + 1))] else []))"

definition memories_page_response :: "command_services \<Rightarrow> application \<Rightarrow> incoming_message \<Rightarrow> int \<Rightarrow> (chat, response) op" where
  "memories_page_response cs ap m page =
     then_op (read_op (\<lambda>c. bindE (sqlite_int ((page - 1) * memory_page_size)) (\<lambda>_. list_for_user (in_user m) page memory_page_size (ch_db c)))) (\<lambda>records.
     then_op (read_op (\<lambda>c. Inr (page_count (count_for_user (in_user m) (ch_db c))))) (\<lambda>pages.
     then_op (pure_op (page_buttons cs page pages)) (\<lambda>row.
     then_op (command_voice ap m (page_text cs page pages records)) (\<lambda>w.
       pure_op (Inr ((plain (in_chat m) K_Final w)\<lparr>ts_buttons := (if row = [] then [] else [row])\<rparr>))))))"

definition handle_memories :: "command_services \<Rightarrow> application \<Rightarrow> port \<Rightarrow> incoming_message \<Rightarrow> pystr list \<Rightarrow> (chat, unit) op" where
  "handle_memories cs ap p m args =
     (let page = (case args of [] \<Rightarrow> 1 | a # _ \<Rightarrow> (case py_int a of Inl _ \<Rightarrow> 0 | Inr n \<Rightarrow> n)) in
      if 1 < length args then send_command_error ap p (in_chat m) (cs_say cs Memories_Format)
      else if page < 1 then send_command_error ap p (in_chat m) (cs_say cs Page_Invalid)
      else if \<not> ap_memory ap then memory_down cs ap p (in_chat m)
      else try_op (memories_page_response cs ap m page)
        (\<lambda>_. memory_down cs ap p (in_chat m))
        (\<lambda>r. then_op (send_response p r) (\<lambda>_. pure_op (Inr ()))))"

definition handle_memories_page_callback :: "command_services \<Rightarrow> application \<Rightarrow> port \<Rightarrow> incoming_message \<Rightarrow> int \<Rightarrow> (chat, unit) op" where
  "handle_memories_page_callback cs ap p m page =
     (if \<not> ap_memory ap then memory_down cs ap p (in_chat m)
      else try_op (memories_page_response cs ap m page) (\<lambda>_. memory_down cs ap p (in_chat m)) (show_again p))"

definition ask_forget :: "command_services \<Rightarrow> application \<Rightarrow> port \<Rightarrow> incoming_message \<Rightarrow> memory_row \<Rightarrow> (chat, unit) op" where
  "ask_forget cs ap p m r =
     try_op (ask cs 0 (in_user m) ''forget_memory'' (PDict [(u ''memory_id'', PInt (m_id r))]))
       (\<lambda>_. send_command_error ap p (in_chat m) (cs_say cs No_Confirmations))
       (\<lambda>token. then_op (command_voice ap m (cs_say cs (Forget_Question (m_id r) (snippet (m_content r) snippet_length)))) (\<lambda>w.
          then_op (pure_op (confirm_row cs Delete_Label Stop_Label token)) (\<lambda>row.
          then_op (send_response p ((plain (in_chat m) K_Final w)\<lparr>ts_buttons := [row]\<rparr>)) (\<lambda>_. pure_op (Inr ())))))"

definition list_forget :: "command_services \<Rightarrow> application \<Rightarrow> port \<Rightarrow> incoming_message \<Rightarrow> (chat, unit) op" where
  "list_forget cs ap p m =
     try_op (read_op (\<lambda>c. list_for_user (in_user m) 1 memory_page_size (ch_db c)))
       (\<lambda>_. memory_down cs ap p (in_chat m))
       (\<lambda>records. if records = [] then tell ap p m (cs_say cs Memory_Empty) []
          else then_op (pure_op (mapE (\<lambda>r. button_row [(cs_say cs (Forget_Label (m_id r)), forget_callback_data (m_id r))]) records)) (\<lambda>rows.
            tell ap p m (join_with 10 (cs_say cs Choose_Memory # map (\<lambda>r. memory_line r (snippet (m_content r) snippet_length)) records)) rows))"

definition handle_forget :: "command_services \<Rightarrow> application \<Rightarrow> port \<Rightarrow> incoming_message \<Rightarrow> pystr list \<Rightarrow> (chat, unit) op" where
  "handle_forget cs ap p m args =
     (if 1 < length args then send_command_error ap p (in_chat m) (cs_say cs Forget_Format)
      else if \<not> ap_memory ap then memory_down cs ap p (in_chat m)
      else case args of
          [] \<Rightarrow> list_forget cs ap p m
        | a # _ \<Rightarrow>
           (let n = (case py_int a of Inl _ \<Rightarrow> 0 | Inr k \<Rightarrow> k) in
            if n < 1 then send_command_error ap p (in_chat m) (cs_say cs Forget_Format)
            else try_op (read_op (\<lambda>c. bindE (sqlite_int n) (\<lambda>_. Inr (select_memory n (in_user m) (ch_db c)))))
              (\<lambda>_. memory_down cs ap p (in_chat m)) (\<lambda>found.
              case found of
                None \<Rightarrow> send_command_error ap p (in_chat m) (cs_say cs No_Such_Memory)
              | Some r \<Rightarrow> ask_forget cs ap p m r)))"

definition handle_forget_button_callback :: "command_services \<Rightarrow> application \<Rightarrow> port \<Rightarrow> incoming_message \<Rightarrow> int \<Rightarrow> (chat, unit) op" where
  "handle_forget_button_callback cs ap p m n =
     (if \<not> ap_memory ap then memory_down cs ap p (in_chat m)
      else try_op (read_op (\<lambda>c. bindE (sqlite_int n) (\<lambda>_. Inr (select_memory n (in_user m) (ch_db c)))))
        (\<lambda>_. memory_down cs ap p (in_chat m)) (\<lambda>found.
        case found of
          None \<Rightarrow> send_callback_result ap p m K_Final (cs_say cs Memory_Gone)
        | Some r \<Rightarrow> ask_forget cs ap p m r))"

section \<open>Sessions\<close>

definition handle_new :: "command_services \<Rightarrow> application \<Rightarrow> port \<Rightarrow> incoming_message \<Rightarrow> pystr list \<Rightarrow> (chat, unit) op" where
  "handle_new cs ap p m args =
     (if args \<noteq> [] then send_command_error ap p (in_chat m) (cs_say cs New_Format)
      else then_op (read_op (\<lambda>c. router_current_lane (ap_router ap) m (ch_db c))) (\<lambda>lane.
        case lane of
          None \<Rightarrow> tell ap p m (cs_say cs No_Conversation) []
        | Some t \<Rightarrow>
           then_op (read_op (\<lambda>c. Inr (active_session_for_lane (in_user m) (rt_session t) (ch_db c)))) (\<lambda>active.
           case active of
             None \<Rightarrow> tell ap p m (cs_say cs No_Conversation) []
           | Some x \<Rightarrow>
              try_op (ask cs 0 (in_user m) ''close_session''
                  (PDict [(u ''lane_session_id'', PInt (rt_session t)), (u ''session_id'', PInt (s_id x))]))
                (\<lambda>_. send_command_error ap p (in_chat m) (cs_say cs No_Confirmations))
                (\<lambda>token. then_op (command_voice ap m (cs_say cs Close_Question)) (\<lambda>w.
                   then_op (pure_op (confirm_row cs Close_Label Stop_Label token)) (\<lambda>row.
                   then_op (send_response p ((plain (in_chat m) K_Final w)\<lparr>ts_buttons := [row]\<rparr>)) (\<lambda>_. pure_op (Inr ()))))))))"

section \<open>Reminders\<close>

text \<open>\<open>_handle_reminder_request\<close> with what it sends.\<close>

definition reminder_request :: "command_services \<Rightarrow> application \<Rightarrow> port \<Rightarrow> incoming_message \<Rightarrow> pystr \<Rightarrow> (chat, unit) op" where
  "reminder_request cs ap p m request =
     then_op (on_db (\<lambda>s. case handle_reminder_request (cs_reminders cs) (cs_clock cs) (cs_now cs) (cs_tokens cs 0) m request s of (r, s') \<Rightarrow> (Inr r, s'))) (\<lambda>r.
     case r of
       None \<Rightarrow> pure_op (Inr ())
     | Some x \<Rightarrow>
        (case x of
           Ask_Confirmation token parsed \<Rightarrow>
             then_op (command_voice ap m (cs_say cs (Answer x))) (\<lambda>w.
             then_op (pure_op (confirm_row cs Create_Label Stop_Label token)) (\<lambda>row.
             then_op (send_response p ((plain (in_chat m) K_Final w)\<lparr>ts_buttons := [row]\<rparr>)) (\<lambda>_. pure_op (Inr ()))))
         | _ \<Rightarrow> send_command_error ap p (in_chat m) (cs_say cs (Answer x))))"

definition handle_remind :: "command_services \<Rightarrow> application \<Rightarrow> port \<Rightarrow> incoming_message \<Rightarrow> pystr list \<Rightarrow> (chat, unit) op" where
  "handle_remind cs ap p m args =
     (let request = strip (join_with 32 args) in
      if request = [] then send_command_error ap p (in_chat m) (cs_say cs Remind_Format)
      else reminder_request cs ap p m request)"

definition task_actions :: "task \<Rightarrow> (phrase \<times> string \<times> (pystr \<times> pyval) list) list" where
  "task_actions t =
     (if tk_status t = T_Active then
        [(Snooze_Label, ''snooze_reminder'', [(u ''delay_seconds'', PInt snooze_seconds)]),
         (Done_Label, ''complete_reminder'', []), (Cancel_Label, ''cancel_reminder'', [])]
      else if tk_status t \<in> {T_Awaiting, T_NeedsReview} then [(Cancel_Label, ''cancel_reminder'', [])]
      else [])"

text \<open>The buttons of a task; an action whose token cannot be made has none. \<open>n\<close> counts the tokens.\<close>

fun task_buttons ::
    "command_services \<Rightarrow> nat \<Rightarrow> int \<Rightarrow> task \<Rightarrow> (phrase \<times> string \<times> (pystr \<times> pyval) list) list \<Rightarrow> (chat, button list) op" where
  "task_buttons cs n owner t [] = pure_op (Inr [])"
| "task_buttons cs n owner t ((label, action, extra) # rest) =
     try_op (then_op (ask cs n owner action (PDict ((u ''task_id'', PInt (tk_id t)) # extra)))
         (\<lambda>token. pure_op (confirmation_callback_data (u ''confirm'') token)))
       (\<lambda>_. task_buttons cs (n + 1) owner t rest)
       (\<lambda>d. then_op (task_buttons cs (n + 1) owner t rest) (\<lambda>bs. pure_op (Inr (\<lparr>bu_text = cs_say cs label, bu_data = d\<rparr> # bs))))"

definition task_line :: "command_services \<Rightarrow> job option \<Rightarrow> task \<Rightarrow> pystr" where
  "task_line cs j t = show_int (tk_id t) @ u ''. '' @ tk_text t @ [32, 183, 32] @ cs_say cs (Task_Label (tk_status t))
     @ (case Option.bind j j_next of None \<Rightarrow> [] | Some n \<Rightarrow> cs_say cs (Next_At n))"

fun task_rows :: "command_services \<Rightarrow> nat \<Rightarrow> int \<Rightarrow> task list \<Rightarrow> (chat, pystr list \<times> button list list) op" where
  "task_rows cs n owner [] = pure_op (Inr ([], []))"
| "task_rows cs n owner (t # ts) =
     then_op (read_op (\<lambda>c. Inr (get_job_for_task (tk_id t) owner (ch_db c)))) (\<lambda>j.
     then_op (task_buttons cs n owner t (task_actions t)) (\<lambda>bs.
     then_op (task_rows cs (n + length (task_actions t)) owner ts) (\<lambda>(lines, rows).
       pure_op (Inr (task_line cs j t # lines, (if bs = [] then rows else bs # rows))))))"

definition handle_tasks :: "command_services \<Rightarrow> application \<Rightarrow> port \<Rightarrow> incoming_message \<Rightarrow> pystr list \<Rightarrow> (chat, unit) op" where
  "handle_tasks cs ap p m args =
     (if args \<noteq> [] then send_command_error ap p (in_chat m) (cs_say cs Tasks_Format)
      else try_op (read_op (\<lambda>c. list_tasks (in_user m) reminder_task_limit (ch_db c)))
        (\<lambda>_. send_command_error ap p (in_chat m) (cs_say cs Tasks_Failed))
        (\<lambda>ts. if ts = [] then tell ap p m (cs_say cs No_Tasks) []
           else then_op (task_rows cs 0 (in_user m) ts) (\<lambda>(lines, rows).
             tell ap p m (join_with 10 (cs_say cs Tasks_Header # lines)) rows)))"

text \<open>\<open>except (KeyError, ValueError)\<close> around \<open>f\<close>.\<close>

definition refuse_values :: "(chat, 'a) op \<Rightarrow> (chat, unit) op \<Rightarrow> ('a \<Rightarrow> (chat, unit) op) \<Rightarrow> (chat, unit) op" where
  "refuse_values f refused ok = try_op f
     (\<lambda>e. if is_value_error e \<or> (case e of KeyError _ \<Rightarrow> True | _ \<Rightarrow> False) then refused else pure_op (Inl e)) ok"

definition change_zone :: "command_services \<Rightarrow> int \<Rightarrow> pystr list \<Rightarrow> (db, reminder_policy) op" where
  "change_zone cs owner args = then_op (ensure_profile (cs_now cs 0) owner) (\<lambda>q.
     case args of [] \<Rightarrow> pure_op (Inr q)
     | a # _ \<Rightarrow> set_profile_policy (rq_zones (rs_parser (cs_reminders cs))) owner a (po_quiet_start q) (po_quiet_end q))"

definition handle_timezone :: "command_services \<Rightarrow> application \<Rightarrow> port \<Rightarrow> incoming_message \<Rightarrow> pystr list \<Rightarrow> (chat, unit) op" where
  "handle_timezone cs ap p m args =
     (if 1 < length args then send_command_error ap p (in_chat m) (cs_say cs Timezone_Format)
      else refuse_values (on_db (change_zone cs (in_user m) args))
        (send_command_error ap p (in_chat m) (cs_say cs Unknown_Timezone))
        (\<lambda>q. tell ap p m (cs_say cs (Timezone_Is (po_timezone q))) []))"

definition change_quiet :: "command_services \<Rightarrow> (pystr \<Rightarrow> pystr) \<Rightarrow> int \<Rightarrow> pystr list \<Rightarrow> (db, reminder_policy) op" where
  "change_quiet cs casefold owner args = then_op (ensure_profile (cs_now cs 0) owner) (\<lambda>q.
     case args of [] \<Rightarrow> pure_op (Inr q)
     | a # _ \<Rightarrow>
        then_op (pure_op (if casefold a = u ''off'' then Inr (None, None)
             else bindE (parse_quiet_range a) (\<lambda>(x, y). Inr (Some x, Some y)))) (\<lambda>(x, y).
          set_profile_policy (rq_zones (rs_parser (cs_reminders cs))) owner (po_timezone q) x y))"

definition handle_quiet :: "command_services \<Rightarrow> application \<Rightarrow> port \<Rightarrow> incoming_message \<Rightarrow> pystr list \<Rightarrow> (chat, unit) op" where
  "handle_quiet cs ap p m args =
     (if 1 < length args then send_command_error ap p (in_chat m) (cs_say cs Quiet_Format)
      else refuse_values (on_db (change_quiet cs (ap_casefold ap) (in_user m) args))
        (send_command_error ap p (in_chat m) (cs_say cs Quiet_Invalid))
        (\<lambda>q. tell ap p m (cs_say cs (format_quiet_policy q)) []))"

section \<open>Personas\<close>

fun join_names :: "pystr list \<Rightarrow> pystr" where
  "join_names [] = []"
| "join_names [t] = t"
| "join_names (t # ts) = t @ [44, 32] @ join_names ts"

definition picker_buttons :: "catalog \<Rightarrow> pystr \<Rightarrow> button list list" where
  "picker_buttons cat active = concat (map (\<lambda>x. case persona_callback_data (pe_key x) of
       Inl _ \<Rightarrow> []
     | Inr d \<Rightarrow> [[\<lparr>bu_text = (if pe_key x = active then [10003, 32] else []) @ pe_display x, bu_data = d\<rparr>]]) (cat_personas cat))"

definition persona_picker_response :: "command_services \<Rightarrow> application \<Rightarrow> incoming_message \<Rightarrow> (chat, response) op" where
  "persona_picker_response cs ap m =
     then_op (read_op (\<lambda>c. router_current_lane (ap_router ap) m (ch_db c))) (\<lambda>lane.
     (let cat = ro_catalog (ap_router ap);
          active = (case lane of None \<Rightarrow> cat_default cat | Some t \<Rightarrow> rt_key t) in
      then_op (command_voice ap m (cs_say cs (Choose_Persona (join_names (map pe_display (cat_personas cat)))))) (\<lambda>w.
        pure_op (Inr ((plain (in_chat m) K_Final w)\<lparr>ts_buttons := picker_buttons cat active\<rparr>)))))"

definition switch_to :: "application \<Rightarrow> incoming_message \<Rightarrow> pystr \<Rightarrow> (chat, bool) op" where
  "switch_to ap m key = on_db (router_switch_persona (ap_digest ap) (ap_ticks ap) (ap_router ap) (ap_route_env ap)
     (in_user m) (in_chat m) key (in_type m))"

definition handle_persona :: "command_services \<Rightarrow> application \<Rightarrow> port \<Rightarrow> incoming_message \<Rightarrow> pystr list \<Rightarrow> (chat, unit) op" where
  "handle_persona cs ap p m args = (case args of
       [] \<Rightarrow> then_op (persona_picker_response cs ap m) (\<lambda>r. then_op (send_response p r) (\<lambda>_. pure_op (Inr ())))
     | [key] \<Rightarrow>
        (case catalog_get (ro_catalog (ap_router ap)) key of
           None \<Rightarrow> send_command_error ap p (in_chat m) (cs_say cs Unknown_Persona)
         | Some x \<Rightarrow> then_op (switch_to ap m key) (\<lambda>switched.
             if switched then tell ap p m (cs_say cs (Persona_Switched (pe_display x))) []
             else send_command_error ap p (in_chat m) (cs_say cs Unknown_Persona)))
     | _ \<Rightarrow> send_command_error ap p (in_chat m) (cs_say cs Persona_Format))"

definition same_lane :: "persona \<Rightarrow> routed_turn option \<Rightarrow> bool" where
  "same_lane x lane = (case lane of None \<Rightarrow> False | Some t \<Rightarrow> rt_key t = pe_key x \<and> rt_identity t = pe_identity x)"

definition handle_persona_callback :: "command_services \<Rightarrow> application \<Rightarrow> port \<Rightarrow> incoming_message \<Rightarrow> pystr option \<Rightarrow> (chat, unit) op" where
  "handle_persona_callback cs ap p m key =
     (case Option.bind key (catalog_get (ro_catalog (ap_router ap))) of
        None \<Rightarrow> send_command_error ap p (in_chat m) (cs_say cs (Answer Stale))
      | Some x \<Rightarrow>
         then_op (read_op (\<lambda>c. router_current_lane (ap_router ap) m (ch_db c))) (\<lambda>lane.
         then_op (if same_lane x lane then pure_op (Inr True) else switch_to ap m (pe_key x)) (\<lambda>switched.
           if \<not> switched then send_command_error ap p (in_chat m) (cs_say cs Cannot_Switch)
           else then_op (persona_picker_response cs ap m) (\<lambda>r.
             then_op (edit_bound p r) (\<lambda>edited.
               if edited then pure_op (Inr ()) else tell ap p m (cs_say cs (Persona_Switched (pe_display x))) [])))))"

section \<open>Dispatch\<close>

definition help_text :: "command_services \<Rightarrow> application \<Rightarrow> port \<Rightarrow> incoming_message \<Rightarrow> bool \<Rightarrow> (chat, unit) op" where
  "help_text cs ap p m greet =
     then_op (if greet then then_op (command_voice ap m (cs_say cs Greeting)) (\<lambda>g. pure_op (Inr (g @ 10 # cs_say cs Command_Index)))
       else pure_op (Inr (cs_say cs Command_Index))) (\<lambda>t.
     then_op (send_response p (plain (in_chat m) K_Final t)) (\<lambda>_. pure_op (Inr ())))"

text \<open>The commands other than \<open>/persona reload\<close>, which changes the router.\<close>

definition handle_command :: "command_services \<Rightarrow> application \<Rightarrow> port \<Rightarrow> incoming_message \<Rightarrow> telegram_command \<Rightarrow> (chat, unit) op" where
  "handle_command cs ap p m cmd =
     (let name = tc_name cmd; args = tc_arguments cmd in
      if \<not> is_authorized (ap_router ap) (in_user m) (in_type m) then pure_op (Inr ())
      else if name = u ''start'' \<or> name = u ''help'' then help_text cs ap p m (name = u ''start'')
      else if name = u ''remind'' then handle_remind cs ap p m args
      else if name = u ''tasks'' then handle_tasks cs ap p m args
      else if name = u ''timezone'' then handle_timezone cs ap p m args
      else if name = u ''quiet'' then handle_quiet cs ap p m args
      else if name = u ''new'' then handle_new cs ap p m args
      else if name = u ''remember'' then handle_remember cs ap p m args
      else if name = u ''memories'' then handle_memories cs ap p m args
      else if name = u ''forget'' then handle_forget cs ap p m args
      else if name = u ''persona'' then handle_persona cs ap p m args
      else send_command_error ap p (in_chat m) (cs_say cs Unknown_Command))"

text \<open>
  \<open>_handle_persona_reload\<close>: \<open>cs_catalog\<close> is what reading the configuration gives, \<open>None\<close> when there is no
  path. An \<open>OSError\<close> is an \<open>ExternalError\<close>.
\<close>

definition handle_persona_reload ::
    "command_services \<Rightarrow> port \<Rightarrow> incoming_message \<Rightarrow> application \<times> chat \<Rightarrow> unit result \<times> application \<times> chat" where
  "handle_persona_reload cs p m st = (case st of (ap, c) \<Rightarrow>
     let keep = (\<lambda>(r, c'). (r, ap, c')) in
     case cs_catalog cs of
       None \<Rightarrow> keep (send_command_error ap p (in_chat m) (cs_say cs Reload_Failed) c)
     | Some loaded \<Rightarrow>
        (case (case loaded of Inl e \<Rightarrow> (Inl e, ap_router ap, ch_db c)
               | Inr cat \<Rightarrow> replace_catalog (ap_digest ap) (ap_ticks ap) cat (ap_router ap, ch_db c)) of
           (Inl e, ro, s) \<Rightarrow>
             (if is_value_error e \<or> (case e of KeyError _ \<Rightarrow> True | TypeError _ \<Rightarrow> True | ExternalError _ \<Rightarrow> True | _ \<Rightarrow> False)
              then keep (send_command_error ap p (in_chat m) (cs_say cs Reload_Failed) (c\<lparr>ch_db := s\<rparr>))
              else keep (Inl e, c\<lparr>ch_db := s\<rparr>))
         | (Inr _, ro, s) \<Rightarrow>
             (let ap' = ap\<lparr>ap_router := ro\<rparr> in
              case tell ap' p m (cs_say cs Reloaded) [] (c\<lparr>ch_db := s\<rparr>) of (r, c') \<Rightarrow> (r, ap', c'))))"

definition run_command ::
    "command_services \<Rightarrow> port \<Rightarrow> incoming_message \<Rightarrow> telegram_command \<Rightarrow> application \<times> chat \<Rightarrow> unit result \<times> application \<times> chat" where
  "run_command cs p m cmd st = (case st of (ap, c) \<Rightarrow>
     if is_authorized (ap_router ap) (in_user m) (in_type m) \<and> tc_name cmd = u ''persona'' \<and> tc_arguments cmd = [u ''reload'']
     then handle_persona_reload cs p m (ap, c)
     else case handle_command cs ap p m cmd c of (r, c') \<Rightarrow> (r, ap, c'))"

text \<open>A button; \<open>m\<close> has the user, the chat and the type of the callback and no text.\<close>

fun send_replies :: "command_services \<Rightarrow> application \<Rightarrow> port \<Rightarrow> incoming_message \<Rightarrow> reply list \<Rightarrow> (chat, unit) op" where
  "send_replies cs ap p m [] = pure_op (Inr ())"
| "send_replies cs ap p m (r # rs) =
     then_op (send_callback_result ap p m
         (if r \<in> {Stale, Memory_Unavailable, Close_Failed} then K_Error else if r = Closing then K_Notice else K_Final)
         (cs_say cs (Answer r))) (\<lambda>_. send_replies cs ap p m rs)"

definition handle_callback :: "command_services \<Rightarrow> application \<Rightarrow> port \<Rightarrow> incoming_message \<Rightarrow> pystr \<Rightarrow> (chat, unit) op" where
  "handle_callback cs ap p m data =
     (if \<not> is_authorized (ap_router ap) (in_user m) (in_type m) then pure_op (Inr ())
      else then_op (pure_op (parse_confirmation_callback_data data)) (\<lambda>confirmation.
        case confirmation of
          Some (action, token) \<Rightarrow>
            then_op (on_db (handle_confirmation_callback (rs_hash (cs_reminders cs)) (rq_zones (rs_parser (cs_reminders cs))) (cs_finalizer cs)
                (cs_now cs 0) (cs_now cs 1) (in_user m) (action = u ''confirm'') token)) (\<lambda>rs. send_replies cs ap p m rs)
        | None \<Rightarrow>
           then_op (pure_op (parse_memories_page_callback_data data)) (\<lambda>page. case page of
             Some n \<Rightarrow> handle_memories_page_callback cs ap p m n
           | None \<Rightarrow>
              then_op (pure_op (parse_forget_callback_data data)) (\<lambda>forget. case forget of
                Some n \<Rightarrow> handle_forget_button_callback cs ap p m n
              | None \<Rightarrow> then_op (pure_op (parse_persona_callback_data data)) (\<lambda>key. handle_persona_callback cs ap p m key)))))"

text \<open>The entry of a message: commands, requests for reminders and turns. \<open>/persona reload\<close> is in \<open>run_command\<close>.\<close>

definition serve :: "command_services \<Rightarrow> application \<Rightarrow> port \<Rightarrow> incoming_message \<Rightarrow> (chat, text_response option) op" where
  "serve cs ap p m = handle_message (handle_command cs ap p m) (reminder_request cs ap p m) ap p m"

end
