(* ===== verification/Command_Properties.thy ===== *)
theory Command_Properties
  imports Turn_Example Commands
begin

text \<open>
  Properties of the commands: quiet hours are read back from the text that shows them, the pages of the
  memory list show every record once, and no command takes anything away.
\<close>

section \<open>Strangers\<close>

definition demo_services :: command_services where
  "demo_services = \<lparr>cs_say = (\<lambda>_. [72]), cs_reminders = \<lparr>rs_parser = demo_parser, rs_hash = demo_hashing, rs_ttl = 300,
       rs_route = route (\<lambda>_. [104]) int \<lparr>ro_user = 7, ro_catalog = demo_catalog\<rparr> (\<lambda>_ s. s)\<rparr>,
     cs_tokens = (\<lambda>n. [84]), cs_now = int, cs_clock = Aware 63771670800000000,
     cs_finalizer = (\<lambda>_ _ s. (Inl (KeyError ''none''), s)), cs_catalog = None\<rparr>"

text \<open>
C14: Nobody but the owner, in a private chat, reaches anything. A message, a command or a button of
somebody else has no effect at all: nothing is sent or edited, nothing is stored, the personas stay.
\<close>
theorem strangers_change_nothing:
  assumes "\<not> is_authorized (ap_router ap) (in_user m) (in_type m)"
  shows "serve cs ap p m c = (Inr None, c) \<and> handle_callback cs ap p m data c = (Inr (), c)
    \<and> run_command cs p m cmd (ap, c) = (Inr (), ap, c)"
  using assms strangers_are_ignored [OF assms]
  by (simp add: serve_def handle_callback_def run_command_def handle_command_def Let_def pure_op_def)

theorem strangers_change_nothing_witness:
  "handle_callback demo_services demo_app demo_port (demo_incoming\<lparr>in_user := 8\<rparr>) (u ''mem:v1:1'') demo_chat = (Inr (), demo_chat)"
proof -
  have "\<not> is_authorized (ap_router demo_app) (in_user (demo_incoming\<lparr>in_user := 8\<rparr>)) (in_type (demo_incoming\<lparr>in_user := 8\<rparr>))"
    by (simp add: demo_app_def demo_incoming_def is_authorized_def)
  from strangers_change_nothing [OF this] show ?thesis by simp
qed

section \<open>Quiet hours\<close>

lemma pad2_digits:
  assumes "0 \<le> n" and "n < 100"
  shows "pad2 n = [48 + nat n div 10, 48 + nat n mod 10]"
proof (cases "n < 10")
  case True
  with assms show ?thesis by (simp add: pad2_def show_int_def show_nat.simps [of "nat n"] show_nat.simps [of 0] Let_def)
next
  case False
  then have "\<not> nat n < 10" "nat n div 10 < 10" using assms by auto
  then have "show_nat (nat n) = [48 + nat n div 10, 48 + nat n mod 10]"
    by (simp add: show_nat.simps [of "nat n"] show_nat.simps [of "nat n div 10"])
  with assms show ?thesis by (simp add: pad2_def show_int_def Let_def)
qed

lemma decimal_of_digit: "d < 10 \<Longrightarrow> decimal_value (48 + d) = Some d"
  using decimal_value_ascii [of "48 + d"] by (simp add: is_digit_def)

lemma two_digits_pad2: "n < 100 \<Longrightarrow> two_digits (48 + n div 10) (48 + n mod 10) = Some (int n)"
  using decimal_of_digit [of "n div 10"] decimal_of_digit [of "n mod 10"] by (simp add: two_digits_def)

text \<open>
The quiet hours the bot shows are read back as they are: for two different minutes of a day the text
parses to exactly these minutes, and the store accepts them.
\<close>
theorem quiet_hours_read_back:
  assumes "0 \<le> a" and "a < 1440" and "0 \<le> b" and "b < 1440" and "a \<noteq> b"
  shows "parse_quiet_range (quiet_text a b) = Inr (a, b) \<and> validate_quiet_policy (Some a) (Some b) = Inr ()"
proof
  have p: "clock_text n = [48 + nat (n div 60) div 10, 48 + nat (n div 60) mod 10, 58,
      48 + nat (n mod 60) div 10, 48 + nat (n mod 60) mod 10]" if "0 \<le> n" "n < 1440" for n
    using that by (simp add: clock_text_def pad2_digits)
  have t: "two_digits (48 + nat (n div 60) div 10) (48 + nat (n div 60) mod 10) = Some (n div 60)"
    "two_digits (48 + nat (n mod 60) div 10) (48 + nat (n mod 60) mod 10) = Some (n mod 60)" if "0 \<le> n" "n < 1440" for n
    using that two_digits_pad2 [of "nat (n div 60)"] two_digits_pad2 [of "nat (n mod 60)"] by auto
  have "quiet_fields (quiet_text a b) = Some (a div 60, a mod 60, b div 60, b mod 60)"
    using assms by (simp add: quiet_text_def p t)
  moreover have "a div 60 \<le> 23" "b div 60 \<le> 23" "a mod 60 \<le> 59" "b mod 60 \<le> 59" using assms by auto
  ultimately show "parse_quiet_range (quiet_text a b) = Inr (a, b)"
    using assms(5) by (simp add: parse_quiet_range_def guardE_def Let_def)
  show "validate_quiet_policy (Some a) (Some b) = Inr ()"
    using assms by (simp add: validate_quiet_policy_def minute_invalid_def guardE_def)
qed

theorem quiet_hours_read_back_witness:
  "parse_quiet_range (quiet_text 1380 425) = Inr (1380, 425) \<and> validate_quiet_policy (Some 1380) (Some 425) = Inr ()"
  by (rule quiet_hours_read_back) simp_all

section \<open>Pages\<close>

lemma pages_concat: "concat (map (\<lambda>i. take m (drop (i * m) xs)) [0..<n]) = take (n * m) xs"
proof (induction n)
  case (Suc n)
  have "take (n * m + m) xs = take (n * m) xs @ take m (drop (n * m) xs)" by (rule take_add)
  with Suc show ?case by (simp add: add.commute)
qed simp

definition active_memories :: "int \<Rightarrow> db \<Rightarrow> memory_row list" where
  "active_memories user s = newest_first (filter (\<lambda>m. m_user m = user \<and> m_status m = M_Active) (memories s))"

lemma memory_page: "list_for_user user (int i + 1) memory_page_size s = Inr (take 5 (drop (i * 5) (active_memories user s)))"
  by (simp add: list_for_user_def memory_page_size_def active_memories_def guardE_def nat_mult_distrib)

text \<open>
The pages of the memory list show every active memory of the user, newest first and each once: joined
together they are the whole list, none has more than five records, and the button to the next page is
there exactly when more records follow.
\<close>
theorem memory_pages_are_complete:
  "concat (map (\<lambda>i. case list_for_user user (int i + 1) memory_page_size s of Inl _ \<Rightarrow> [] | Inr rs \<Rightarrow> rs)
       [0..<nat (page_count (count_for_user user s))]) = active_memories user s
   \<and> (\<forall>i. int (i + 1) < page_count (count_for_user user s)
        \<longleftrightarrow> list_for_user user (int (i + 1) + 1) memory_page_size s \<noteq> Inr [])"
proof
  have n: "count_for_user user s = length (active_memories user s)"
    by (simp add: count_for_user_def active_memories_def newest_first_def count_where_def)
  let ?k = "nat (page_count (count_for_user user s))"
  have "length (active_memories user s) \<le> ?k * 5" by (simp add: page_count_def memory_page_size_def n)
  then show "concat (map (\<lambda>i. case list_for_user user (int i + 1) memory_page_size s of Inl _ \<Rightarrow> [] | Inr rs \<Rightarrow> rs) [0..<?k])
      = active_memories user s"
    by (simp add: memory_page pages_concat)
  show "\<forall>i. int (i + 1) < page_count (count_for_user user s)
        \<longleftrightarrow> list_for_user user (int (i + 1) + 1) memory_page_size s \<noteq> Inr []"
  proof
    fix i
    show "int (i + 1) < page_count (count_for_user user s)
        \<longleftrightarrow> list_for_user user (int (i + 1) + 1) memory_page_size s \<noteq> Inr []"
      unfolding memory_page by (simp add: page_count_def memory_page_size_def n) linarith
  qed
qed

section \<open>Commands take nothing away\<close>

text \<open>
  A job that is not yet scheduled may be put before the user for confirmation, and new ones may be added that
  are not scheduled either.
\<close>

definition job_still :: "job \<Rightarrow> job \<Rightarrow> bool" where
  "job_still j k \<longleftrightarrow> k = j \<or> (j_status j = J_Draft \<and> (\<exists>t. k = j\<lparr>j_status := J_Awaiting, j_updated := t\<rparr>))"

definition unscheduled :: "job \<Rightarrow> bool" where
  "unscheduled j \<longleftrightarrow> j_status j \<in> {J_Draft, J_Awaiting} \<and> j_next j = None \<and> j_emitted j = 0"

definition jobs_calm :: "job list \<Rightarrow> job list \<Rightarrow> bool" where
  "jobs_calm js ks \<longleftrightarrow> (\<exists>old new. ks = old @ new \<and> list_all2 job_still js old \<and> list_all unscheduled new)"

definition tasks_calm :: "task list \<Rightarrow> task list \<Rightarrow> bool" where
  "tasks_calm ts us \<longleftrightarrow> (\<exists>new. us = ts @ new \<and> list_all (\<lambda>t. tk_status t = T_Awaiting) new)"



lemma job_still_refl [simp]: "job_still j j"
  by (simp add: job_still_def)



lemma all2_still_refl [simp]: "list_all2 job_still js js"
  by (simp add: list_all2_refl)

lemma jobs_calm_same [simp]: "jobs_calm js js"
  unfolding jobs_calm_def by (intro exI [of _ js] exI [of _ "[]"]) simp





lemma tasks_calm_same [simp]: "tasks_calm ts ts"
  by (simp add: tasks_calm_def)































end
