(* ===== verification/Provider.thy ===== *)
theory Provider
  imports Chat_Turn
begin

text \<open>
  The model provider of \<open>xai_provider.py\<close>: the transport that posts a prompt to the Responses API and
  reads the answer, and the provider that chooses the credential by its policy. The world of the HTTP
  client and of the credential sources is a type variable; \<open>urlsplit\<close>, \<open>json.loads\<close> and \<open>urlopen\<close> are
  arguments. Every exception is a \<open>provider_error\<close>; the message of a \<open>ProviderRequestError\<close> is left out.
\<close>

section \<open>Targets\<close>

text \<open>What \<open>urlsplit\<close> gives; \<open>port\<close> is a property that may raise \<open>ValueError\<close> itself.\<close>

record url_parts =
  up_scheme :: pystr
  up_user :: "pystr option"
  up_password :: "pystr option"
  up_host :: "pystr option"
  up_port :: "int option result"
  up_path :: pystr
  up_query :: pystr
  up_fragment :: pystr

type_synonym url_splitter = "pystr \<Rightarrow> url_parts result"

text \<open>The check that all credential targets go through: HTTPS, a known host, nothing else in the URL.\<close>

definition allowed_target :: "url_splitter \<Rightarrow> pystr list \<Rightarrow> bool \<Rightarrow> pystr \<Rightarrow> bool" where
  "allowed_target urlsplit hosts allow_query url = (case urlsplit url of
       Inl _ \<Rightarrow> False
     | Inr p \<Rightarrow> (case up_port p of
         Inl _ \<Rightarrow> False
       | Inr port \<Rightarrow> up_scheme p = u ''https'' \<and> (case up_host p of None \<Rightarrow> False | Some h \<Rightarrow> h \<in> set hosts)
           \<and> (port = None \<or> port = Some 443) \<and> up_user p = None \<and> up_password p = None
           \<and> (up_query p = [] \<or> allow_query) \<and> up_fragment p = []))"

definition rstrip_slash :: "pystr \<Rightarrow> pystr" where
  "rstrip_slash t = rev (dropWhile (\<lambda>c. c = 47) (rev t))"

section \<open>Errors\<close>

text \<open>
  \<open>rf_cause\<close> is the text kept by an exception chained with \<open>from\<close>: a \<open>JSONDecodeError\<close> holds the document it
  could not read in its attribute \<open>doc\<close>, so the text is reachable through \<open>__cause__\<close>.
\<close>

record request_failure =
  rf_status :: "int option"
  rf_code :: "pystr option"
  rf_body :: pystr
  rf_headers :: "(pystr \<times> pystr) list"
  rf_cause :: "pystr option"

datatype provider_error =
    Request_Failed request_failure
  | Entitlement_Denied request_failure
  | Credential_Unavailable string
  | Untrusted_Host
  | Invalid_Value string
  | Other_Error string

type_synonym ('w, 'a) call = "('w, provider_error, 'a) action"

definition demand :: "bool \<Rightarrow> provider_error \<Rightarrow> ('w, unit) call" where
  "demand ok e = pure_op (if ok then Inr () else Inl e)"

section \<open>HTTP\<close>

datatype http_body = Json_Body pyval | Form_Body "(pystr \<times> pystr) list"

record http_request =
  rq_url :: pystr
  rq_headers :: "(pystr \<times> pystr) list"
  rq_body :: http_body

record http_response =
  hr_status :: int
  hr_headers :: "(pystr \<times> pystr) list"
  hr_body :: pystr

text \<open>What \<open>urlopen\<close> does: an answer, an \<open>HTTPError\<close> with an answer, or no connection.\<close>

datatype opened = Opened http_response | Http_Failed http_response | No_Connection

definition network_failure :: request_failure where
  "network_failure = \<lparr>rf_status = None, rf_code = Some (u ''network_error''), rf_body = [], rf_headers = [], rf_cause = None\<rparr>"

definition urlopen_post :: "(http_request \<Rightarrow> 'w \<Rightarrow> opened \<times> 'w) \<Rightarrow> http_request \<Rightarrow> ('w, http_response) call" where
  "urlopen_post urlopen rq w = (case urlopen rq w of
       (Opened r, w') \<Rightarrow> (Inr r, w')
     | (Http_Failed r, w') \<Rightarrow> (Inr r, w')
     | (No_Connection, w') \<Rightarrow> (Inl (Request_Failed network_failure), w'))"

definition post_json :: "(http_request \<Rightarrow> 'w \<Rightarrow> opened \<times> 'w) \<Rightarrow> pystr \<Rightarrow> (pystr \<times> pystr) list \<Rightarrow> pyval \<Rightarrow> ('w, http_response) call" where
  "post_json urlopen url headers payload = urlopen_post urlopen \<lparr>rq_url = url, rq_headers = headers, rq_body = Json_Body payload\<rparr>"

definition post_form ::
    "(http_request \<Rightarrow> 'w \<Rightarrow> opened \<times> 'w) \<Rightarrow> pystr \<Rightarrow> (pystr \<times> pystr) list \<Rightarrow> (pystr \<times> pystr) list \<Rightarrow> ('w, http_response) call" where
  "post_form urlopen url headers payload =
     (let kind = u ''Content-Type''; hs = (if kind \<in> fst ` set headers then headers
        else headers @ [(kind, u ''application/x-www-form-urlencoded'')]) in
      urlopen_post urlopen \<lparr>rq_url = url, rq_headers = hs, rq_body = Form_Body payload\<rparr>)"

section \<open>Credentials and answers\<close>

record bearer =
  be_token :: pystr
  be_expires :: "int option"
  be_base :: pystr
  be_source :: pystr

definition api_key_source :: "pystr \<Rightarrow> pystr \<Rightarrow> (provider_error + bearer)" where
  "api_key_source key base = (if is_blank key then Inl (Invalid_Value ''xAI API key cannot be empty'')
     else Inr \<lparr>be_token = key, be_expires = None, be_base = base, be_source = u ''xai_api_key''\<rparr>)"

record function_call =
  fc_id :: pystr
  fc_name :: pystr
  fc_arguments :: pystr

record tool_output =
  to_id :: pystr
  to_output :: pystr

record tool_turn =
  tt_id :: "pystr option"
  tt_model :: pystr
  tt_text :: "pystr option"
  tt_calls :: "function_call list"
  tt_source :: pystr
  tt_fallback :: "pystr option"

record structured_response =
  st_id :: "pystr option"
  st_model :: pystr
  st_value :: pyval
  st_source :: pystr

section \<open>The transport\<close>

record 'w transport =
  tr_urlsplit :: url_splitter
  tr_loads :: "pystr \<Rightarrow> pyval option"
  tr_hosts :: "pystr list"
  tr_entitlement :: "(request_failure \<Rightarrow> bool) option"
  tr_post :: "pystr \<Rightarrow> (pystr \<times> pystr) list \<Rightarrow> pyval \<Rightarrow> ('w, http_response) call"

definition default_hosts :: "pystr list \<Rightarrow> pystr list" where
  "default_hosts hosts = (if hosts = [] then [u ''api.x.ai''] else hosts)"

definition failure_of :: "http_response \<Rightarrow> string \<Rightarrow> request_failure" where
  "failure_of r code = \<lparr>rf_status = Some (hr_status r), rf_code = Some (u code), rf_body = hr_body r, rf_headers = hr_headers r,
     rf_cause = None\<rparr>"

definition decode_json :: "(pystr \<Rightarrow> pyval option) \<Rightarrow> http_response \<Rightarrow> provider_error + (pystr \<times> pyval) list" where
  "decode_json loads r = (case loads (hr_body r) of
       Some (PDict d) \<Rightarrow> Inr d
     | Some _ \<Rightarrow> Inl (Request_Failed (failure_of r ''invalid_json''))
     | None \<Rightarrow> Inl (Request_Failed ((failure_of r ''invalid_json'')\<lparr>rf_cause := Some (hr_body r)\<rparr>)))"

fun string_value :: "pyval \<Rightarrow> pystr option" where
  "string_value (PStr t) = Some t"
| "string_value _ = None"

definition request_error :: "http_response \<Rightarrow> (pystr \<times> pyval) list \<Rightarrow> request_failure" where
  "request_error r body =
     \<lparr>rf_status = Some (hr_status r),
      rf_code = (case dict_get body (u ''error'') PNone of PDict d \<Rightarrow> string_value (dict_get d (u ''code'') PNone) | _ \<Rightarrow> None),
      rf_body = hr_body r, rf_headers = hr_headers r, rf_cause = None\<rparr>"

definition responses_endpoint :: "'w transport \<Rightarrow> pystr \<Rightarrow> provider_error + pystr" where
  "responses_endpoint tr base =
     (if allowed_target (tr_urlsplit tr) (tr_hosts tr) False base then Inr (rstrip_slash base @ u ''/responses'') else Inl Untrusted_Host)"

fun serialize_messages :: "input_message list \<Rightarrow> provider_error + pyval list" where
  "serialize_messages [] = Inr []"
| "serialize_messages (m # ms) =
     (if im_role m \<notin> {u ''system'', u ''user'', u ''assistant''} then Inl (Invalid_Value ''xAI input contains an invalid role'')
      else if is_blank (im_content m) then Inl (Invalid_Value ''xAI input message content cannot be empty'')
      else case serialize_messages ms of Inl e \<Rightarrow> Inl e
        | Inr vs \<Rightarrow> Inr (PDict [(u ''role'', PStr (im_role m)), (u ''content'', PStr (im_content m))] # vs))"

fun serialize_input :: "prompt \<Rightarrow> provider_error + pyval" where
  "serialize_input (Plain_Text t) = Inr (PStr t)"
| "serialize_input (Messages ms) =
     (if ms = [] then Inl (Invalid_Value ''xAI input messages must be a non-empty tuple'')
      else case serialize_messages ms of Inl e \<Rightarrow> Inl e | Inr vs \<Rightarrow> Inr (PList vs))"

definition output_value :: "tool_output \<Rightarrow> pyval" where
  "output_value x = PDict [(u ''type'', PStr (u ''function_call_output'')), (u ''call_id'', PStr (to_id x)), (u ''output'', PStr (to_output x))]"

record request_options =
  qo_format :: "pyval option"
  qo_tools :: "pyval list option"
  qo_previous :: "pystr option"
  qo_outputs :: "tool_output list option"

definition plain_request :: request_options where
  "plain_request = \<lparr>qo_format = None, qo_tools = None, qo_previous = None, qo_outputs = None\<rparr>"

definition payload_of :: "pystr \<Rightarrow> pyval \<Rightarrow> request_options \<Rightarrow> pyval" where
  "payload_of model input q = PDict ([(u ''model'', PStr model), (u ''input'', input)]
     @ (case qo_format q of None \<Rightarrow> [] | Some f \<Rightarrow> [(u ''text'', PDict [(u ''format'', f)])])
     @ (case qo_tools q of None \<Rightarrow> [] | Some ts \<Rightarrow> [(u ''tools'', PList ts), (u ''parallel_tool_calls'', PBool False)])
     @ (case qo_previous q of None \<Rightarrow> [] | Some i \<Rightarrow> [(u ''previous_response_id'', PStr i)]))"

definition authorization :: "bearer \<Rightarrow> (pystr \<times> pystr) list" where
  "authorization c = [(u ''Accept'', u ''application/json''), (u ''Authorization'', u ''Bearer '' @ be_token c),
     (u ''Content-Type'', u ''application/json'')]"

definition refused :: "(request_failure \<Rightarrow> bool) option \<Rightarrow> request_failure \<Rightarrow> provider_error" where
  "refused entitlement f = (case entitlement of
       Some judge \<Rightarrow> if judge f then Entitlement_Denied f else Request_Failed f
     | None \<Rightarrow> Request_Failed f)"

definition accept_response :: "'w transport \<Rightarrow> http_response \<Rightarrow> provider_error + http_response \<times> (pystr \<times> pyval) list" where
  "accept_response tr r = (case decode_json (tr_loads tr) r of
       Inl e \<Rightarrow> Inl e
     | Inr body \<Rightarrow> if 200 \<le> hr_status r \<and> hr_status r < 300 then Inr (r, body)
         else Inl (refused (tr_entitlement tr) (request_error r body)))"

definition post_response ::
    "'w transport \<Rightarrow> bearer \<Rightarrow> pystr \<Rightarrow> prompt \<Rightarrow> request_options \<Rightarrow> ('w, http_response \<times> (pystr \<times> pyval) list) call" where
  "post_response tr c model p q =
     then_op (pure_op (responses_endpoint tr (be_base c))) (\<lambda>endpoint.
     then_op (pure_op (case qo_outputs q of Some outs \<Rightarrow> Inr (PList (map output_value outs)) | None \<Rightarrow> serialize_input p)) (\<lambda>input.
     then_op (tr_post tr endpoint (authorization c) (payload_of model input q)) (\<lambda>r. pure_op (accept_response tr r))))"

section \<open>Reading the answer\<close>

fun text_of_part :: "pyval \<Rightarrow> pystr option" where
  "text_of_part (PDict d) = (if dict_get d (u ''type'') PNone = PStr (u ''output_text'') then string_value (dict_get d (u ''text'') PNone) else None)"
| "text_of_part _ = None"

fun texts_of_item :: "pyval \<Rightarrow> pystr list" where
  "texts_of_item (PDict d) =
     (if dict_get d (u ''type'') PNone = PStr (u ''message'') \<and> dict_get d (u ''role'') PNone = PStr (u ''assistant'')
      then (case dict_get d (u ''content'') (PList []) of PList ps \<Rightarrow> List.map_filter text_of_part ps | _ \<Rightarrow> []) else [])"
| "texts_of_item _ = []"

definition output_items :: "(pystr \<times> pyval) list \<Rightarrow> pyval list" where
  "output_items body = (case dict_get body (u ''output'') (PList []) of PList vs \<Rightarrow> vs | _ \<Rightarrow> [])"

definition output_text_or_none :: "(pystr \<times> pyval) list \<Rightarrow> pystr option" where
  "output_text_or_none body = (let parts = concat (map texts_of_item (output_items body)) in
     if parts = [] then None else Some (concat parts))"

fun call_of_item :: "pyval \<Rightarrow> function_call option" where
  "call_of_item (PDict d) =
     (if dict_get d (u ''type'') PNone \<noteq> PStr (u ''function_call'') then None
      else case (dict_get d (u ''call_id'') PNone, dict_get d (u ''name'') PNone, dict_get d (u ''arguments'') PNone) of
          (PStr i, PStr n, PStr a) \<Rightarrow> if is_blank i \<or> is_blank n then None else Some \<lparr>fc_id = i, fc_name = n, fc_arguments = a\<rparr>
        | _ \<Rightarrow> None)"
| "call_of_item _ = None"

definition response_id :: "(pystr \<times> pyval) list \<Rightarrow> pystr option" where
  "response_id body = string_value (dict_get body (u ''id'') PNone)"

definition response_model :: "(pystr \<times> pyval) list \<Rightarrow> pystr \<Rightarrow> pystr" where
  "response_model body model = (case string_value (dict_get body (u ''model'') PNone) of Some m \<Rightarrow> m | None \<Rightarrow> model)"

definition output_text :: "http_response \<times> (pystr \<times> pyval) list \<Rightarrow> provider_error + pystr" where
  "output_text x = (case output_text_or_none (snd x) of
       None \<Rightarrow> Inl (Request_Failed (failure_of (fst x) ''invalid_response'')) | Some t \<Rightarrow> Inr t)"

definition complete :: "'w transport \<Rightarrow> bearer \<Rightarrow> pystr \<Rightarrow> prompt \<Rightarrow> ('w, text_response) call" where
  "complete tr c model p =
     then_op (post_response tr c model p plain_request) (\<lambda>x.
     then_op (pure_op (output_text x)) (\<lambda>t.
       pure_op (Inr \<lparr>xr_id = response_id (snd x), xr_model = response_model (snd x) model, xr_text = t,
         xr_source = be_source c, xr_fallback = None\<rparr>)))"

definition complete_structured ::
    "'w transport \<Rightarrow> bearer \<Rightarrow> pystr \<Rightarrow> pystr \<Rightarrow> pystr \<Rightarrow> pyval \<Rightarrow> ('w, structured_response) call" where
  "complete_structured tr c model p name schema =
     then_op (demand (name \<noteq> [] \<and> (case schema of PDict _ \<Rightarrow> True | _ \<Rightarrow> False)) (Invalid_Value ''structured response schema is invalid'')) (\<lambda>_.
     then_op (post_response tr c model (Plain_Text p) (plain_request\<lparr>qo_format := Some (PDict [(u ''type'', PStr (u ''json_schema'')),
         (u ''name'', PStr name), (u ''schema'', schema), (u ''strict'', PBool True)])\<rparr>)) (\<lambda>x.
     then_op (pure_op (output_text x)) (\<lambda>t.
       pure_op (case tr_loads tr t of
           None \<Rightarrow> Inl (Request_Failed ((failure_of (fst x) ''invalid_structured_response'')\<lparr>rf_cause := Some t\<rparr>))
         | Some v \<Rightarrow> Inr \<lparr>st_id = response_id (snd x), st_model = response_model (snd x) model, st_value = v, st_source = be_source c\<rparr>))))"

definition read_tool_turn :: "bearer \<Rightarrow> pystr \<Rightarrow> http_response \<times> (pystr \<times> pyval) list \<Rightarrow> provider_error + tool_turn" where
  "read_tool_turn c model x =
     (let t = output_text_or_none (snd x); calls = List.map_filter call_of_item (output_items (snd x)) in
      if t = None \<and> calls = [] then Inl (Request_Failed (failure_of (fst x) ''invalid_response''))
      else Inr \<lparr>tt_id = response_id (snd x), tt_model = response_model (snd x) model, tt_text = t, tt_calls = calls,
        tt_source = be_source c, tt_fallback = None\<rparr>)"

fun validate_tool :: "pyval \<Rightarrow> provider_error + unit" where
  "validate_tool (PDict d) =
     (if dict_get d (u ''type'') PNone \<noteq> PStr (u ''function'') then Inl (Invalid_Value ''xAI tool type must be function'')
      else case dict_get d (u ''name'') PNone of
          PStr n \<Rightarrow> if is_blank n then Inl (Invalid_Value ''xAI tool name cannot be empty'')
            else (case dict_get d (u ''parameters'') PNone of PDict _ \<Rightarrow> Inr ()
              | _ \<Rightarrow> Inl (Invalid_Value ''xAI tool parameters must be an object''))
        | _ \<Rightarrow> Inl (Invalid_Value ''xAI tool name cannot be empty''))"
| "validate_tool _ = Inl (Invalid_Value ''xAI tool definition is invalid'')"

fun validate_each :: "pyval list \<Rightarrow> provider_error + unit" where
  "validate_each [] = Inr ()"
| "validate_each (t # ts) = (case validate_tool t of Inl e \<Rightarrow> Inl e | Inr _ \<Rightarrow> validate_each ts)"

definition validate_tools :: "pyval list \<Rightarrow> provider_error + unit" where
  "validate_tools tools = (if tools = [] then Inl (Invalid_Value ''xAI tools must be a non-empty tuple'') else validate_each tools)"

definition complete_with_tools :: "'w transport \<Rightarrow> bearer \<Rightarrow> pystr \<Rightarrow> prompt \<Rightarrow> pyval list \<Rightarrow> ('w, tool_turn) call" where
  "complete_with_tools tr c model p tools =
     then_op (pure_op (validate_tools tools)) (\<lambda>_.
     then_op (post_response tr c model p (plain_request\<lparr>qo_tools := Some tools\<rparr>)) (\<lambda>x. pure_op (read_tool_turn c model x)))"

definition complete_with_tool_output ::
    "'w transport \<Rightarrow> bearer \<Rightarrow> pystr \<Rightarrow> pystr \<Rightarrow> tool_output list \<Rightarrow> pyval list \<Rightarrow> ('w, tool_turn) call" where
  "complete_with_tool_output tr c model previous outs tools =
     then_op (pure_op (validate_tools tools)) (\<lambda>_.
     then_op (demand (\<not> is_blank previous) (Invalid_Value ''previous response ID cannot be empty'')) (\<lambda>_.
     then_op (demand (outs \<noteq> []) (Invalid_Value ''tool outputs cannot be empty'')) (\<lambda>_.
     then_op (demand (\<forall>x \<in> set outs. \<not> is_blank (to_id x)) (Invalid_Value ''tool output is invalid'')) (\<lambda>_.
     then_op (post_response tr c model (Plain_Text []) (plain_request\<lparr>qo_tools := Some tools, qo_previous := Some (strip previous),
         qo_outputs := Some outs\<rparr>)) (\<lambda>x. pure_op (read_tool_turn c model x))))))"

section \<open>The provider\<close>

datatype credential_policy = OAuth_Only | Api_Key_Only | OAuth_Then_Api_Key

record 'w provider =
  pv_transport :: "'w transport"
  pv_policy :: credential_policy
  pv_oauth :: "('w, bearer) call option"
  pv_api_key :: "('w, bearer) call option"
  pv_model :: pystr

definition make_provider ::
    "'w transport \<Rightarrow> credential_policy \<Rightarrow> ('w, bearer) call option \<Rightarrow> ('w, bearer) call option \<Rightarrow> pystr \<Rightarrow> provider_error + 'w provider" where
  "make_provider tr policy oauth api_key model =
     (if policy \<in> {OAuth_Only, OAuth_Then_Api_Key} \<and> oauth = None then Inl (Invalid_Value ''policy requires an OAuth credential source'')
      else if policy \<in> {Api_Key_Only, OAuth_Then_Api_Key} \<and> api_key = None then Inl (Invalid_Value ''policy requires an API-key credential source'')
      else Inr \<lparr>pv_transport = tr, pv_policy = policy, pv_oauth = oauth, pv_api_key = api_key, pv_model = model\<rparr>)"

definition complete_with :: "('w, bearer) call option \<Rightarrow> (bearer \<Rightarrow> ('w, 'a) call) \<Rightarrow> ('w, 'a) call" where
  "complete_with source invoke = (case source of
       None \<Rightarrow> pure_op (Inl (Credential_Unavailable ''credential source is not configured''))
     | Some get \<Rightarrow> then_op get invoke)"

text \<open>After an \<open>EntitlementDenied\<close> the API key answers, and the answer is marked with the source that was denied.\<close>

definition pay :: "'w provider \<Rightarrow> (bearer \<Rightarrow> ('w, 'a) call) \<Rightarrow> (pystr \<Rightarrow> 'a \<Rightarrow> 'a) \<Rightarrow> pystr \<Rightarrow> provider_error \<Rightarrow> ('w, 'a) call" where
  "pay pv invoke mark origin e = (case e of
       Entitlement_Denied _ \<Rightarrow> then_op (complete_with (pv_api_key pv) invoke) (\<lambda>x. pure_op (Inr (mark origin x)))
     | _ \<Rightarrow> pure_op (Inl e))"

definition under_policy :: "'w provider \<Rightarrow> (bearer \<Rightarrow> ('w, 'a) call) \<Rightarrow> (pystr \<Rightarrow> 'a \<Rightarrow> 'a) \<Rightarrow> ('w, 'a) call" where
  "under_policy pv invoke mark = (case pv_policy pv of
       Api_Key_Only \<Rightarrow> complete_with (pv_api_key pv) invoke
     | OAuth_Only \<Rightarrow> complete_with (pv_oauth pv) invoke
     | OAuth_Then_Api_Key \<Rightarrow>
         (case pv_oauth pv of
            None \<Rightarrow> pure_op (Inl (Other_Error ''AttributeError''))
          | Some get \<Rightarrow> try_op get (pay pv invoke mark (u ''xai_oauth''))
              (\<lambda>c. try_op (invoke c) (pay pv invoke mark (be_source c)) (\<lambda>x. pure_op (Inr x)))))"

definition provider_respond :: "'w provider \<Rightarrow> prompt \<Rightarrow> ('w, text_response) call" where
  "provider_respond pv p = under_policy pv (\<lambda>c. complete (pv_transport pv) c (pv_model pv) p) (\<lambda>d r. r\<lparr>xr_fallback := Some d\<rparr>)"

definition respond_with_tools :: "'w provider \<Rightarrow> prompt \<Rightarrow> pyval list \<Rightarrow> ('w, tool_turn) call" where
  "respond_with_tools pv p tools =
     under_policy pv (\<lambda>c. complete_with_tools (pv_transport pv) c (pv_model pv) p tools) (\<lambda>d r. r\<lparr>tt_fallback := Some d\<rparr>)"

definition respond_with_tool_outputs :: "'w provider \<Rightarrow> pystr \<Rightarrow> tool_output list \<Rightarrow> pyval list \<Rightarrow> ('w, tool_turn) call" where
  "respond_with_tool_outputs pv previous outs tools =
     under_policy pv (\<lambda>c. complete_with_tool_output (pv_transport pv) c (pv_model pv) previous outs tools) (\<lambda>d r. r\<lparr>tt_fallback := Some d\<rparr>)"

definition structured_respond :: "'w transport \<Rightarrow> ('w, bearer) call \<Rightarrow> pystr \<Rightarrow> pystr \<Rightarrow> pystr \<Rightarrow> pyval \<Rightarrow> ('w, structured_response) call" where
  "structured_respond tr oauth model p name schema = then_op oauth (\<lambda>c. complete_structured tr c model p name schema)"

section \<open>Tokens go to allowed hosts only\<close>

text \<open>A client that keeps a log of the requests it was asked to send.\<close>

definition logging ::
    "(pystr \<Rightarrow> (pystr \<times> pystr) list \<Rightarrow> pyval \<Rightarrow> ('v, http_response) call) \<Rightarrow> pystr \<Rightarrow> (pystr \<times> pystr) list \<Rightarrow> pyval
      \<Rightarrow> ('v \<times> http_request list, http_response) call" where
  "logging post url headers payload w = (case post url headers payload (fst w) of
     (r, v) \<Rightarrow> (r, v, snd w @ [\<lparr>rq_url = url, rq_headers = headers, rq_body = Json_Body payload\<rparr>]))"

definition trusted_request :: "'w transport \<Rightarrow> http_request \<Rightarrow> bool" where
  "trusted_request tr rq \<longleftrightarrow> (\<exists>c. rq_url rq = rstrip_slash (be_base c) @ u ''/responses'' \<and> rq_headers rq = authorization c
     \<and> allowed_target (tr_urlsplit tr) (tr_hosts tr) False (be_base c))"

definition sends_trusted :: "('v \<times> http_request list) transport \<Rightarrow> 'v \<times> http_request list \<Rightarrow> 'v \<times> http_request list \<Rightarrow> bool" where
  "sends_trusted tr w w' \<longleftrightarrow> (\<exists>sent. snd w' = snd w @ sent \<and> (\<forall>rq \<in> set sent. trusted_request tr rq))"

lemma preorder_sends: "preorder (sends_trusted tr)"
  unfolding preorder_def sends_trusted_def by (auto intro!: reflpI transpI)

lemmas sends_basic = keeps_pure [OF preorder_sends] keeps_then [OF preorder_sends] keeps_try [OF preorder_sends]

lemma keeps_demand: "preorder R \<Longrightarrow> keeps R (demand b e)"
  unfolding demand_def by (rule keeps_pure)

lemma then_pure_simps [simp]: "then_op (pure_op (Inr x)) f = f x" "then_op (pure_op (Inl e)) f = pure_op (Inl e)"
  by (rule ext, simp add: then_op_def pure_op_def)+

lemma post_response_sends:
  assumes "tr_post tr = logging post"
  shows "keeps (sends_trusted tr) (post_response tr c model p q)"
proof (cases "allowed_target (tr_urlsplit tr) (tr_hosts tr) False (be_base c)")
  case True
  let ?url = "rstrip_slash (be_base c) @ u ''/responses''"
  have "trusted_request tr \<lparr>rq_url = ?url, rq_headers = authorization c, rq_body = Json_Body payload\<rparr>" for payload
    using True by (auto simp: trusted_request_def)
  then have "keeps (sends_trusted tr) (logging post ?url (authorization c) payload)" for payload
    by (auto simp: keeps_def logging_def sends_trusted_def split: prod.split)
  then show ?thesis
    using True by (auto simp: post_response_def assms responses_endpoint_def intro!: sends_basic)
next
  case False
  then show ?thesis by (auto simp: post_response_def responses_endpoint_def intro!: sends_basic)
qed

lemma transport_sends:
  assumes "tr_post tr = logging post"
  shows "keeps (sends_trusted tr) (complete tr c model p)"
    and "keeps (sends_trusted tr) (complete_structured tr c model t name schema)"
    and "keeps (sends_trusted tr) (complete_with_tools tr c model p tools)"
    and "keeps (sends_trusted tr) (complete_with_tool_output tr c model i outs tools)"
  unfolding complete_def complete_structured_def complete_with_tools_def complete_with_tool_output_def
  by (auto intro!: sends_basic keeps_demand preorder_sends post_response_sends [OF assms])

lemma complete_with_sends:
  assumes "\<And>get. source = Some get \<Longrightarrow> keeps (sends_trusted tr) get" and "\<And>c. keeps (sends_trusted tr) (invoke c)"
  shows "keeps (sends_trusted tr) (complete_with source invoke)"
  unfolding complete_with_def using assms by (auto intro!: sends_basic split: option.split)

lemma under_policy_sends:
  assumes "\<And>get. pv_oauth pv = Some get \<Longrightarrow> keeps (sends_trusted tr) get"
    and "\<And>get. pv_api_key pv = Some get \<Longrightarrow> keeps (sends_trusted tr) get"
    and "\<And>c. keeps (sends_trusted tr) (invoke c)"
  shows "keeps (sends_trusted tr) (under_policy pv invoke mark)"
proof -
  have k: "keeps (sends_trusted tr) (complete_with (pv_api_key pv) invoke)"
    by (rule complete_with_sends) (use assms in auto)
  have p: "keeps (sends_trusted tr) (pay pv invoke mark d e)" for d e
    unfolding pay_def using k by (auto intro!: sends_basic split: provider_error.split)
  show ?thesis unfolding under_policy_def
    using assms(1,3) by (auto intro!: sends_basic k p complete_with_sends split: credential_policy.split option.split)
qed

text \<open>
C22: A bearer token is only ever sent over HTTPS to a host of the allow-list. Whatever credentials the
sources hand out, with whatever base URL, every request of the provider goes to the endpoint of a base
that passed the check, and carries the token of that credential.
\<close>
theorem tokens_go_to_allowed_hosts:
  assumes "tr_post (pv_transport pv) = logging post"
    and "\<And>get. pv_oauth pv = Some get \<or> pv_api_key pv = Some get \<Longrightarrow> keeps (sends_trusted (pv_transport pv)) get"
  shows "keeps (sends_trusted (pv_transport pv)) (provider_respond pv p)
    \<and> keeps (sends_trusted (pv_transport pv)) (respond_with_tools pv p tools)
    \<and> keeps (sends_trusted (pv_transport pv)) (respond_with_tool_outputs pv i outs tools)
    \<and> (\<forall>get. pv_oauth pv = Some get \<longrightarrow>
         keeps (sends_trusted (pv_transport pv)) (structured_respond (pv_transport pv) get (pv_model pv) t name schema))"
proof -
  have "keeps (sends_trusted (pv_transport pv)) (structured_respond (pv_transport pv) get (pv_model pv) t name schema)"
    if "pv_oauth pv = Some get" for get
    unfolding structured_respond_def using that assms(2) by (auto intro!: sends_basic transport_sends [OF assms(1)])
  moreover have "keeps (sends_trusted (pv_transport pv)) (provider_respond pv p)"
    "keeps (sends_trusted (pv_transport pv)) (respond_with_tools pv p tools)"
    "keeps (sends_trusted (pv_transport pv)) (respond_with_tool_outputs pv i outs tools)"
    unfolding provider_respond_def respond_with_tools_def respond_with_tool_outputs_def
    by (rule under_policy_sends; use assms(2) transport_sends [OF assms(1)] in blast)+
  ultimately show ?thesis by blast
qed

section \<open>The paid key\<close>

definition oauth_attempt :: "'w provider \<Rightarrow> ('w, bearer) call \<Rightarrow> prompt \<Rightarrow> ('w, text_response) call" where
  "oauth_attempt pv get p = then_op get (\<lambda>c. complete (pv_transport pv) c (pv_model pv) p)"

definition denied_source :: "(provider_error + bearer) \<Rightarrow> pystr" where
  "denied_source r = (case r of Inr c \<Rightarrow> be_source c | Inl _ \<Rightarrow> u ''xai_oauth'')"

lemma complete_not_marked: "complete tr c model p w = (Inr a, w') \<Longrightarrow> xr_fallback a = None"
  by (auto simp: complete_def then_op_Inr)

lemma urlopen_not_denied: "post_json urlopen url hs v w \<noteq> (Inl (Entitlement_Denied f), w')"
  by (simp add: post_json_def urlopen_post_def split: prod.split opened.split)

lemma serialize_messages_not_denied: "serialize_messages ms \<noteq> Inl (Entitlement_Denied f)"
  by (induction ms) (auto split: sum.split)

lemma serialize_not_denied: "serialize_input p \<noteq> Inl (Entitlement_Denied f)"
  using serialize_messages_not_denied by (cases p) (auto split: sum.split)

lemma accept_denied:
  assumes "accept_response tr r = Inl (Entitlement_Denied f)"
  shows "rf_status f = Some (hr_status r) \<and> \<not> (200 \<le> hr_status r \<and> hr_status r < 300)
     \<and> (\<exists>judge. tr_entitlement tr = Some judge \<and> judge f)"
  using assms
  by (auto simp: accept_response_def decode_json_def refused_def request_error_def split: option.splits pyval.splits if_splits)

lemma complete_denied:
  assumes "complete tr c model p w = (Inl (Entitlement_Denied f), w')" and "tr_post tr = post_json urlopen"
  shows "\<exists>n judge. rf_status f = Some n \<and> \<not> (200 \<le> n \<and> n < 300) \<and> tr_entitlement tr = Some judge \<and> judge f"
  using assms(1)
  by (auto simp: urlopen_not_denied serialize_not_denied complete_def post_response_def assms(2) then_op_Inl plain_request_def output_text_def responses_endpoint_def
    dest!: accept_denied split: option.splits if_splits)

text \<open>
C21: The paid API key answers only when the subscription was refused. Under the policy that prefers OAuth, an
answer over OAuth is passed on as it is and the key is not asked for; any error but \<open>EntitlementDenied\<close> is
passed on too; and a denial by the transport means that the server answered with an error status that
the classifier of entitlements recognised. Then the key answers, and the answer names the source denied.
\<close>
theorem paid_key_is_the_last_resort:
  assumes "pv_policy pv = OAuth_Then_Api_Key" and "pv_oauth pv = Some get" and "pv_api_key pv = Some key"
    and "tr_post (pv_transport pv) = post_json urlopen"
  shows "case oauth_attempt pv get p w of
      (Inr a, w1) \<Rightarrow> xr_fallback a = None \<and> provider_respond pv p w = (Inr a, w1)
    | (Inl (Entitlement_Denied f), w1) \<Rightarrow>
        provider_respond pv p w = then_op (oauth_attempt pv key p) (\<lambda>a. pure_op (Inr (a\<lparr>xr_fallback := Some (denied_source (fst (get w)))\<rparr>))) w1
        \<and> (\<forall>c. fst (get w) = Inr c \<longrightarrow>
             (\<exists>n judge. rf_status f = Some n \<and> \<not> (200 \<le> n \<and> n < 300) \<and> tr_entitlement (pv_transport pv) = Some judge \<and> judge f))
    | (Inl e, w1) \<Rightarrow> provider_respond pv p w = (Inl e, w1)"
proof -
  let ?do = "\<lambda>c. complete (pv_transport pv) c (pv_model pv) p"
  obtain r w0 where get: "get w = (r, w0)" by (rule prod.exhaust)
  show ?thesis
  proof (cases r)
    case (Inl e)
    then show ?thesis
      by (cases e) (simp_all add: oauth_attempt_def provider_respond_def under_policy_def pay_def complete_with_def assms
        then_op_def try_op_def pure_op_def get denied_source_def split: prod.split sum.split)
  next
    case (Inr c)
    obtain a w1 where a: "?do c w0 = (a, w1)" by (rule prod.exhaust)
    show ?thesis
    proof (cases a)
      case Inr': (Inr x)
      then show ?thesis using complete_not_marked a Inr get
        by (simp add: oauth_attempt_def provider_respond_def under_policy_def assms then_op_def try_op_def pure_op_def)
    next
      case (Inl e)
      then show ?thesis using complete_denied [OF _ assms(4)] a Inr get
        by (cases e) (simp_all add: oauth_attempt_def provider_respond_def under_policy_def pay_def complete_with_def assms(1-3)
          then_op_def try_op_def pure_op_def denied_source_def split: prod.split sum.split)
    qed
  qed
qed

section \<open>Answers are read as they are written\<close>

text \<open>The items of the Responses API that carry a text and a call.\<close>

definition message_item :: "pystr list \<Rightarrow> pyval" where
  "message_item ts = PDict [(u ''type'', PStr (u ''message'')), (u ''role'', PStr (u ''assistant'')),
     (u ''content'', PList (map (\<lambda>t. PDict [(u ''type'', PStr (u ''output_text'')), (u ''text'', PStr t)]) ts))]"

definition call_item :: "function_call \<Rightarrow> pyval" where
  "call_item c = PDict [(u ''type'', PStr (u ''function_call'')), (u ''call_id'', PStr (fc_id c)), (u ''name'', PStr (fc_name c)),
     (u ''arguments'', PStr (fc_arguments c))]"

lemma texts_of_message: "texts_of_item (message_item ts) = ts"
proof -
  have "List.map_filter text_of_part (map (\<lambda>t. PDict [(u ''type'', PStr (u ''output_text'')), (u ''text'', PStr t)]) ts) = ts"
    by (induction ts) (simp_all add: List.map_filter_def dict_get_def u_def)
  then show ?thesis by (simp add: message_item_def dict_get_def u_def)
qed

lemma texts_of_call: "texts_of_item (call_item c) = []"
  by (simp add: call_item_def dict_get_def u_def)

lemma call_of_message: "call_of_item (message_item ts) = None"
  by (simp add: message_item_def dict_get_def u_def)

lemma call_of_call: "\<not> is_blank (fc_id c) \<Longrightarrow> \<not> is_blank (fc_name c) \<Longrightarrow> call_of_item (call_item c) = Some c"
  by (simp add: call_item_def dict_get_def u_def)

text \<open>
A tool turn is read back from the answer that spells it out: from any mixture of messages and calls the
text is the messages joined in order, none when there is no message part, and the calls are all calls
with an id and a name, in order.
\<close>
theorem tool_turn_reads_back:
  assumes "\<forall>x \<in> set items. case x of Inl ts \<Rightarrow> True | Inr c \<Rightarrow> \<not> is_blank (fc_id c) \<and> \<not> is_blank (fc_name c)"
    and "dict_get body (u ''output'') (PList []) = PList (map (case_sum message_item call_item) items)"
    and "texts = concat (List.map_filter (case_sum Some (\<lambda>_. None)) items)"
    and "calls = List.map_filter (case_sum (\<lambda>_. None) Some) items" and "texts \<noteq> [] \<or> calls \<noteq> []"
  shows "\<exists>t. read_tool_turn c model (r, body) = Inr t \<and> tt_calls t = calls
    \<and> tt_text t = (if texts = [] then None else Some (concat texts)) \<and> tt_source t = be_source c \<and> tt_fallback t = None"
proof -
  have o: "output_items body = map (case_sum message_item call_item) items" by (simp add: output_items_def assms(2))
  have t: "concat (map texts_of_item (map (case_sum message_item call_item) items)) = texts" unfolding assms(3)
    by (induction items) (auto simp: texts_of_message texts_of_call map_filter_simps split: sum.split)
  have "List.map_filter call_of_item (map (case_sum message_item call_item) items) = List.map_filter (case_sum (\<lambda>_. None) Some) items"
    using assms(1) by (induction items) (auto simp: call_of_message call_of_call map_filter_simps split: sum.splits)
  with assms(4,5) o t show ?thesis by (simp add: read_tool_turn_def output_text_or_none_def Let_def)
qed

section \<open>An example\<close>

text \<open>A server that refuses the first request and answers the second; the world counts the requests.\<close>

definition demo_split :: url_splitter where
  "demo_split _ = Inr \<lparr>up_scheme = u ''https'', up_user = None, up_password = None, up_host = Some [88], up_port = Inr None,
     up_path = [], up_query = [], up_fragment = []\<rparr>"

definition demo_json :: "pystr \<Rightarrow> pyval option" where
  "demo_json t = Some (PDict (if t = [49] then [(u ''output'', PList [message_item [[79, 75]]])] else []))"

definition demo_urlopen :: "http_request \<Rightarrow> nat \<Rightarrow> opened \<times> nat" where
  "demo_urlopen _ n = (if n = 0 then Http_Failed \<lparr>hr_status = 403, hr_headers = [], hr_body = [48]\<rparr>
     else Opened \<lparr>hr_status = 200, hr_headers = [], hr_body = [49]\<rparr>, Suc n)"

definition demo_bearer :: "nat \<Rightarrow> bearer" where
  "demo_bearer n = \<lparr>be_token = [n], be_expires = None, be_base = [104], be_source = [n]\<rparr>"

definition demo_provider :: "(pystr \<Rightarrow> (pystr \<times> pystr) list \<Rightarrow> pyval \<Rightarrow> ('w, http_response) call) \<Rightarrow> 'w provider" where
  "demo_provider post = \<lparr>pv_transport = \<lparr>tr_urlsplit = demo_split, tr_loads = demo_json, tr_hosts = [[88]],
       tr_entitlement = Some (\<lambda>f. rf_status f = Some 403), tr_post = post\<rparr>,
     pv_policy = OAuth_Then_Api_Key, pv_oauth = Some (pure_op (Inr (demo_bearer 1))), pv_api_key = Some (pure_op (Inr (demo_bearer 2))),
     pv_model = [77]\<rparr>"

lemma demo_allowed: "allowed_target demo_split [[88]] False t"
  by (simp add: allowed_target_def demo_split_def)

theorem tokens_go_to_allowed_hosts_witness:
  "keeps (sends_trusted (pv_transport (demo_provider (logging (post_json demo_urlopen)))))
     (provider_respond (demo_provider (logging (post_json demo_urlopen))) (Plain_Text [81]))"
proof -
  let ?pv = "demo_provider (logging (post_json demo_urlopen))"
  have "tr_post (pv_transport ?pv) = logging (post_json demo_urlopen)" by (simp add: demo_provider_def)
  moreover have "keeps (sends_trusted (pv_transport ?pv)) get" if "pv_oauth ?pv = Some get \<or> pv_api_key ?pv = Some get" for get
    using that by (auto simp: demo_provider_def intro: sends_basic)
  ultimately show ?thesis using tokens_go_to_allowed_hosts [of ?pv "post_json demo_urlopen"] by blast
qed

lemma demo_attempt:
  "oauth_attempt (demo_provider (post_json demo_urlopen)) (pure_op (Inr (demo_bearer 1))) (Plain_Text [81]) 0
     = (Inl (Entitlement_Denied \<lparr>rf_status = Some 403, rf_code = None, rf_body = [48], rf_headers = [], rf_cause = None\<rparr>), 1)"
  "oauth_attempt (demo_provider (post_json demo_urlopen)) (pure_op (Inr (demo_bearer 2))) (Plain_Text [81]) 1
     = (Inr \<lparr>xr_id = None, xr_model = [77], xr_text = [79, 75], xr_source = [2], xr_fallback = None\<rparr>, 2)"
  by (simp_all add: oauth_attempt_def demo_provider_def complete_def post_response_def responses_endpoint_def demo_allowed plain_request_def
    then_op_def pure_op_def post_json_def urlopen_post_def demo_urlopen_def accept_response_def decode_json_def demo_json_def refused_def
    request_error_def dict_get_def output_text_def output_text_or_none_def output_items_def texts_of_message response_id_def
    response_model_def demo_bearer_def)

theorem paid_key_is_the_last_resort_witness:
  "provider_respond (demo_provider (post_json demo_urlopen)) (Plain_Text [81]) 0
     = (Inr \<lparr>xr_id = None, xr_model = [77], xr_text = [79, 75], xr_source = [2], xr_fallback = Some [1]\<rparr>, 2)"
proof -
  let ?pv = "demo_provider (post_json demo_urlopen)"
  have "pv_policy ?pv = OAuth_Then_Api_Key" "pv_oauth ?pv = Some (pure_op (Inr (demo_bearer 1)))"
    "pv_api_key ?pv = Some (pure_op (Inr (demo_bearer 2)))" "tr_post (pv_transport ?pv) = post_json demo_urlopen"
    by (simp_all add: demo_provider_def)
  from paid_key_is_the_last_resort [OF this, of "Plain_Text [81]" 0]
  have "provider_respond ?pv (Plain_Text [81]) 0 = then_op (oauth_attempt ?pv (pure_op (Inr (demo_bearer 2))) (Plain_Text [81]))
      (\<lambda>a. pure_op (Inr (a\<lparr>xr_fallback := Some (denied_source (fst (pure_op (Inr (demo_bearer 1)) (0::nat))))\<rparr>))) 1"
    unfolding demo_attempt(1) prod.case sum.case provider_error.case by (rule conjunct1)
  also have "\<dots> = (Inr \<lparr>xr_id = None, xr_model = [77], xr_text = [79, 75], xr_source = [2], xr_fallback = Some [1]\<rparr>, 2)"
    unfolding then_op_def demo_attempt(2) by (simp add: pure_op_def denied_source_def demo_bearer_def)
  finally show ?thesis .
qed

theorem tool_turn_reads_back_witness:
  "\<exists>t. read_tool_turn (demo_bearer 1) [77] (\<lparr>hr_status = 200, hr_headers = [], hr_body = []\<rparr>,
       [(u ''output'', PList [message_item [[72], [73]], call_item \<lparr>fc_id = [49], fc_name = [50], fc_arguments = []\<rparr>])]) = Inr t
     \<and> tt_calls t = [\<lparr>fc_id = [49], fc_name = [50], fc_arguments = []\<rparr>] \<and> tt_text t = Some [72, 73]"
proof -
  let ?c = "\<lparr>fc_id = [49], fc_name = [50], fc_arguments = []\<rparr>"
  have "\<forall>x \<in> set [Inl [[72], [73]], Inr ?c]. case x of Inl ts \<Rightarrow> True | Inr c \<Rightarrow> \<not> is_blank (fc_id c) \<and> \<not> is_blank (fc_name c)"
    by (simp add: is_blank_def is_space_def)
  from tool_turn_reads_back [OF this _ refl refl, of "[(u ''output'', PList [message_item [[72], [73]], call_item ?c])]"]
  show ?thesis by (fastforce simp: dict_get_def map_filter_simps)
qed

end
