(* ===== verification/Web_Search.thy ===== *)
theory Web_Search
  imports Provider
begin

text \<open>
  The web search of \<open>web_search.py\<close>: the adapters of DuckDuckGo and Tavily, and the tool loop that lets the
  model search a bounded number of times. The search service, the HTTP client, the model with its tools,
  \<open>urlsplit\<close>, \<open>json\<close> and the tables of characters are arguments, and the world they change is a type
  variable.
\<close>

section \<open>Queries and results\<close>

record search_result =
  sr_title :: pystr
  sr_url :: pystr
  sr_snippet :: pystr

definition max_query_chars :: nat where "max_query_chars = 300"
definition max_title_chars :: nat where "max_title_chars = 200"
definition max_url_chars :: nat where "max_url_chars = 2048"
definition max_snippet_chars :: nat where "max_snippet_chars = 1200"
definition max_results_limit :: int where "max_results_limit = 10"

definition temporal_query_markers :: "pystr list" where
  "temporal_query_markers = [u ''latest'', u ''current'', u ''today'', u ''recent'', u ''newest'', u ''now'',
     [1072, 1082, 1090, 1091, 1072, 1083, 1100, 1085], [1085, 1086, 1074, 1086, 1089, 1090],
     [1087, 1086, 1089, 1083, 1077, 1076, 1085], [1089, 1074, 1077, 1078], [1089, 1077, 1081, 1095, 1072, 1089],
     [1089, 1077, 1075, 1086, 1076, 1085, 1103]]"

datatype search_error = Empty_Query | Search_Failed string

definition validate_max_results :: "int \<Rightarrow> int result" where
  "validate_max_results n = guardE (n < 1 \<or> max_results_limit < n) (ValueError ''web search max_results must be between 1 and 10'') (Inr n)"

definition normalize_query :: "pyval \<Rightarrow> search_error + pystr" where
  "normalize_query v = (case v of
       PStr t \<Rightarrow> if is_blank t then Inl Empty_Query else Inr (take max_query_chars (strip t))
     | _ \<Rightarrow> Inl Empty_Query)"

definition query_from_arguments :: "(pystr \<Rightarrow> pyval option) \<Rightarrow> pystr \<Rightarrow> pystr option" where
  "query_from_arguments loads t = (case loads t of
       Some (PDict d) \<Rightarrow> (case normalize_query (dict_get d (u ''query'') PNone) of Inl _ \<Rightarrow> None | Inr q \<Rightarrow> Some q)
     | _ \<Rightarrow> None)"

text \<open>A year from 1900 to 2099 between word boundaries.\<close>

definition year_at :: "char_rules \<Rightarrow> pystr \<Rightarrow> nat \<Rightarrow> bool" where
  "year_at ch t i \<longleftrightarrow> boundary ch t i \<and> boundary ch t (i + 4)
     \<and> (case take 4 (drop i t) of
          [a, b, c, d] \<Rightarrow> ([a, b] = u ''19'' \<or> [a, b] = u ''20'') \<and> decimal_value c \<noteq> None \<and> decimal_value d \<noteq> None
        | _ \<Rightarrow> False)"

definition has_year :: "char_rules \<Rightarrow> pystr \<Rightarrow> bool" where
  "has_year ch t \<longleftrightarrow> list_ex (year_at ch t) [0..<Suc (length t)]"

definition add_freshness_context :: "char_rules \<Rightarrow> (pystr \<Rightarrow> pystr) \<Rightarrow> pystr \<Rightarrow> int \<Rightarrow> pystr" where
  "add_freshness_context ch casefold query year =
     (if has_year ch query \<or> \<not> list_ex (\<lambda>m. contains m (casefold query)) temporal_query_markers then query
      else let suffix = 32 # show_int year in rstrip (take (max_query_chars - length suffix) query) @ suffix)"

fun text_or_empty :: "pyval \<Rightarrow> pystr" where
  "text_or_empty (PStr t) = t"
| "text_or_empty _ = []"

fun map_results :: "(pystr \<Rightarrow> (pystr \<times> pystr option) result) \<Rightarrow> string \<Rightarrow> string \<Rightarrow> pyval list \<Rightarrow> search_result list" where
  "map_results urlsplit url_key snippet_key [] = []"
| "map_results urlsplit url_key snippet_key (v # vs) =
     (case v of
        PDict d \<Rightarrow> (case (dict_get d (u ''title'') PNone, dict_get d (u url_key) PNone) of
            (PStr title, PStr url) \<Rightarrow>
              if is_blank title \<or> \<not> is_http_url urlsplit (strip url) then map_results urlsplit url_key snippet_key vs
              else \<lparr>sr_title = take max_title_chars (strip title), sr_url = take max_url_chars (strip url),
                  sr_snippet = take max_snippet_chars (strip (text_or_empty (dict_get d (u snippet_key) (PStr []))))\<rparr>
                # map_results urlsplit url_key snippet_key vs
          | _ \<Rightarrow> map_results urlsplit url_key snippet_key vs)
      | _ \<Rightarrow> map_results urlsplit url_key snippet_key vs)"

section \<open>The adapters\<close>

datatype ddgs_failure = Rate_Limited | Ddgs_Failed

definition ddgs_search ::
    "(pystr \<Rightarrow> (pystr \<times> pystr option) result) \<Rightarrow> int \<Rightarrow> (pystr \<Rightarrow> int \<Rightarrow> ('w, ddgs_failure, pyval) action) \<Rightarrow> pystr
      \<Rightarrow> ('w, search_error, search_result list) action" where
  "ddgs_search urlsplit max_results ddgs query =
     then_op (pure_op (normalize_query (PStr query))) (\<lambda>q.
     try_op (ddgs q max_results)
       (\<lambda>e. pure_op (Inl (Search_Failed (if e = Rate_Limited then ''rate_limited'' else ''search_failed''))))
       (\<lambda>raw. pure_op (Inr (case raw of PList vs \<Rightarrow> map_results urlsplit ''href'' ''body'' vs | _ \<Rightarrow> []))))"

definition http_error_code :: "int \<Rightarrow> string" where
  "http_error_code status = (if status = 401 \<or> status = 403 then ''auth_failed''
     else if status = 429 then ''rate_limited'' else ''search_failed'')"

record 'w tavily =
  ta_base :: pystr
  ta_key :: pystr
  ta_max :: int
  ta_loads :: "pystr \<Rightarrow> pyval option"
  ta_post :: "pystr \<Rightarrow> (pystr \<times> pystr) list \<Rightarrow> pyval \<Rightarrow> ('w, http_response) call"

definition make_tavily ::
    "url_splitter \<Rightarrow> (pystr \<Rightarrow> pyval option) \<Rightarrow> (pystr \<Rightarrow> (pystr \<times> pystr) list \<Rightarrow> pyval \<Rightarrow> ('w, http_response) call)
      \<Rightarrow> pystr \<Rightarrow> int \<Rightarrow> pystr \<Rightarrow> 'w tavily result" where
  "make_tavily urlsplit loads post key max_results base =
     guardE (is_blank key) (ValueError ''Tavily API key cannot be empty'')
     (guardE (\<not> allowed_target urlsplit [u ''api.tavily.com''] False base) (ValueError ''Tavily API target is not an allowed HTTPS host'')
     (bindE (validate_max_results max_results) (\<lambda>n.
       Inr \<lparr>ta_base = rstrip_slash base, ta_key = strip key, ta_max = n, ta_loads = loads, ta_post = post\<rparr>)))"

definition read_tavily :: "(pystr \<Rightarrow> (pystr \<times> pystr option) result) \<Rightarrow> 'w tavily \<Rightarrow> http_response \<Rightarrow> search_error + search_result list" where
  "read_tavily urlsplit ta r =
     (if \<not> (200 \<le> hr_status r \<and> hr_status r < 300) then Inl (Search_Failed (http_error_code (hr_status r)))
      else case ta_loads ta (hr_body r) of
          Some (PDict d) \<Rightarrow> (case dict_get d (u ''results'') PNone of
              PList vs \<Rightarrow> Inr (map_results urlsplit ''url'' ''content'' vs)
            | _ \<Rightarrow> Inl (Search_Failed ''search_failed''))
        | _ \<Rightarrow> Inl (Search_Failed ''search_failed''))"

definition tavily_search ::
    "(pystr \<Rightarrow> (pystr \<times> pystr option) result) \<Rightarrow> 'w tavily \<Rightarrow> pystr \<Rightarrow> ('w, search_error, search_result list) action" where
  "tavily_search urlsplit ta query =
     then_op (pure_op (normalize_query (PStr query))) (\<lambda>q.
     try_op (ta_post ta (ta_base ta @ u ''/search'')
         [(u ''Accept'', u ''application/json''), (u ''Authorization'', u ''Bearer '' @ ta_key ta), (u ''Content-Type'', u ''application/json'')]
         (PDict [(u ''query'', PStr q), (u ''search_depth'', PStr (u ''basic'')), (u ''max_results'', PInt (ta_max ta)),
            (u ''include_answer'', PBool False), (u ''include_raw_content'', PBool False)]))
       (\<lambda>_. pure_op (Inl (Search_Failed ''search_failed'')))
       (\<lambda>r. pure_op (read_tavily urlsplit ta r)))"

section \<open>The tool loop\<close>

definition loop_failure :: "string \<Rightarrow> request_failure" where
  "loop_failure code = \<lparr>rf_status = None, rf_code = Some (u code), rf_body = [], rf_headers = [], rf_cause = None\<rparr>"

record 'w tool_loop =
  tl_first :: "prompt \<Rightarrow> ('w, tool_turn) call"
  tl_next :: "pystr \<Rightarrow> tool_output list \<Rightarrow> ('w, tool_turn) call"
  tl_search :: "pystr \<Rightarrow> ('w, search_error, search_result list) action"
  tl_announce :: "(pystr \<Rightarrow> ('w, unit) call) option"
  tl_max :: nat
  tl_year :: "'w \<Rightarrow> int"
  tl_chars :: char_rules
  tl_casefold :: "pystr \<Rightarrow> pystr"
  tl_loads :: "pystr \<Rightarrow> pyval option"
  tl_compact :: "pyval \<Rightarrow> pystr"

definition check_max_searches :: "int \<Rightarrow> nat result" where
  "check_max_searches n = guardE (n < 1 \<or> 5 < n) (ValueError ''max searches must be between 1 and 5'') (Inr (nat n))"

text \<open>The sources, and what the loop has done: each search with its answer, each round with its calls and outputs.\<close>

record loop_state =
  lp_sources :: "search_result list"
  lp_searches :: "(pystr \<times> search_result list option) list"
  lp_rounds :: "(function_call list \<times> tool_output list) list"

definition error_output :: "'w tool_loop \<Rightarrow> pystr \<Rightarrow> string \<Rightarrow> tool_output" where
  "error_output lo call_id code = \<lparr>to_id = call_id, to_output = tl_compact lo (PDict [(u ''error'', PStr (u code))])\<rparr>"

definition results_value :: "search_result list \<Rightarrow> pyval" where
  "results_value rs = PDict [(u ''results'', PList (map (\<lambda>r. PDict [(u ''title'', PStr (sr_title r)), (u ''url'', PStr (sr_url r)),
     (u ''content'', PStr (sr_snippet r))]) rs))]"

text \<open>The search itself: the announcement may fail without notice, the service may fail with one.\<close>

definition run_search :: "'w tool_loop \<Rightarrow> pystr \<Rightarrow> 'w \<Rightarrow> search_result list option \<times> 'w" where
  "run_search lo q w =
     (let w1 = (case tl_announce lo of None \<Rightarrow> w | Some f \<Rightarrow> snd (f q w)) in
      case tl_search lo q w1 of (Inl _, w2) \<Rightarrow> (None, w2) | (Inr rs, w2) \<Rightarrow> (Some rs, w2))"

definition execute_call :: "'w tool_loop \<Rightarrow> function_call \<Rightarrow> loop_state \<Rightarrow> 'w \<Rightarrow> (tool_output \<times> loop_state) \<times> 'w" where
  "execute_call lo call st w =
     (if fc_name call \<noteq> u ''web_search'' then ((error_output lo (fc_id call) ''unknown_tool'', st), w)
      else case query_from_arguments (tl_loads lo) (fc_arguments call) of
          None \<Rightarrow> ((error_output lo (fc_id call) ''invalid_query'', st), w)
        | Some q0 \<Rightarrow>
           let q = add_freshness_context (tl_chars lo) (tl_casefold lo) q0 (tl_year lo w) in
           if \<not> length (lp_searches st) < tl_max lo then ((error_output lo (fc_id call) ''search_limit_reached'', st), w)
           else (case run_search lo q w of
               (None, w') \<Rightarrow> ((error_output lo (fc_id call) ''search_unavailable'', st\<lparr>lp_searches := lp_searches st @ [(q, None)]\<rparr>), w')
             | (Some rs, w') \<Rightarrow> ((\<lparr>to_id = fc_id call, to_output = tl_compact lo (results_value rs)\<rparr>,
                 st\<lparr>lp_searches := lp_searches st @ [(q, Some rs)], lp_sources := lp_sources st @ rs\<rparr>), w')))"

fun execute_calls :: "'w tool_loop \<Rightarrow> function_call list \<Rightarrow> loop_state \<Rightarrow> 'w \<Rightarrow> (tool_output list \<times> loop_state) \<times> 'w" where
  "execute_calls lo [] st w = (([], st), w)"
| "execute_calls lo (c # cs) st w =
     (case execute_call lo c st w of ((out, st1), w1) \<Rightarrow>
      (case execute_calls lo cs st1 w1 of ((outs, st2), w2) \<Rightarrow> ((out # outs, st2), w2)))"

text \<open>The \<open>while\<close> loop; \<open>n\<close> rounds are left.\<close>

fun tool_rounds :: "'w tool_loop \<Rightarrow> nat \<Rightarrow> tool_turn \<Rightarrow> loop_state \<Rightarrow> 'w \<Rightarrow> ((provider_error + tool_turn) \<times> loop_state) \<times> 'w" where
  "tool_rounds lo 0 t st w = ((if tt_calls t = [] then Inr t else Inl (Request_Failed (loop_failure ''tool_loop_exhausted'')), st), w)"
| "tool_rounds lo (Suc n) t st w =
     (if tt_calls t = [] then ((Inr t, st), w)
      else (case tt_id t of
          None \<Rightarrow> ((Inl (Request_Failed (loop_failure ''invalid_response'')), st), w)
        | Some i \<Rightarrow> if is_blank i then ((Inl (Request_Failed (loop_failure ''invalid_response'')), st), w)
           else (case execute_calls lo (tt_calls t) st w of ((outs, st1), w1) \<Rightarrow>
             let st2 = st1\<lparr>lp_rounds := lp_rounds st1 @ [(tt_calls t, outs)]\<rparr> in
             (case tl_next lo i outs w1 of
                (Inl e, w2) \<Rightarrow> ((Inl e, st2), w2)
              | (Inr t', w2) \<Rightarrow> tool_rounds lo n t' st2 w2))))"

fun deduplicate_sources :: "search_result list \<Rightarrow> search_result list" where
  "deduplicate_sources [] = []"
| "deduplicate_sources (r # rs) = r # filter (\<lambda>x. sr_url x \<noteq> sr_url r) (deduplicate_sources rs)"

definition finish_loop :: "tool_turn \<Rightarrow> loop_state \<Rightarrow> provider_error + text_response \<times> search_result list" where
  "finish_loop t st = (case tt_text t of
       None \<Rightarrow> Inl (Request_Failed (loop_failure ''tool_loop_exhausted''))
     | Some x \<Rightarrow> Inr (\<lparr>xr_id = tt_id t, xr_model = tt_model t, xr_text = x, xr_source = tt_source t, xr_fallback = tt_fallback t\<rparr>,
         deduplicate_sources (lp_sources st)))"

definition start_loop :: loop_state where
  "start_loop = \<lparr>lp_sources = [], lp_searches = [], lp_rounds = []\<rparr>"

definition tool_loop_respond :: "'w tool_loop \<Rightarrow> prompt \<Rightarrow> 'w \<Rightarrow> ((provider_error + text_response \<times> search_result list) \<times> loop_state) \<times> 'w" where
  "tool_loop_respond lo p w =
     (case tl_first lo p w of
        (Inl e, w1) \<Rightarrow> ((Inl e, start_loop), w1)
      | (Inr t0, w1) \<Rightarrow> (case tool_rounds lo (tl_max lo + 1) t0 start_loop w1 of
          ((Inl e, st), w2) \<Rightarrow> ((Inl e, st), w2)
        | ((Inr t, st), w2) \<Rightarrow> ((finish_loop t st, st), w2)))"

text \<open>The loop over a provider, and as the service of a turn uses it.\<close>

definition web_search_tools :: "pyval list" where
  "web_search_tools = [PDict [(u ''type'', PStr (u ''function'')), (u ''name'', PStr (u ''web_search'')),
     (u ''description'', PStr (u ''Search the public web for current or missing information, including recent events, news, prices, weather, facts and links.'')),
     (u ''parameters'', PDict [(u ''type'', PStr (u ''object'')),
        (u ''properties'', PDict [(u ''query'', PDict [(u ''type'', PStr (u ''string'')),
           (u ''description'', PStr (u ''A concise, specific web search query. For current or latest information, prefer primary sources and include the relevant date.''))])]),
        (u ''required'', PList [PStr (u ''query'')]), (u ''additionalProperties'', PBool False)])]]"

definition with_provider :: "'w provider \<Rightarrow> 'w tool_loop \<Rightarrow> 'w tool_loop" where
  "with_provider pv lo = lo\<lparr>tl_first := \<lambda>p. respond_with_tools pv p web_search_tools,
     tl_next := \<lambda>i outs. respond_with_tool_outputs pv i outs web_search_tools\<rparr>"

definition as_tools :: "'w tool_loop \<Rightarrow> 'w \<Rightarrow> prompt \<Rightarrow> pystr list \<times> (text_response \<times> web_source list) result" where
  "as_tools lo w p = (case fst (tool_loop_respond lo p w) of (r, st) \<Rightarrow>
     (map fst (lp_searches st), case r of
        Inl _ \<Rightarrow> Inl (ExternalError ''ProviderRequestError'')
      | Inr (a, rs) \<Rightarrow> Inr (a, map (\<lambda>x. \<lparr>ws_title = sr_title x, ws_url = sr_url x\<rparr>) rs)))"

section \<open>Queries are short and never blank\<close>

lemma is_blank_iff: "is_blank t \<longleftrightarrow> (\<forall>c \<in> set t. is_space c)"
  by (simp add: is_blank_def list_all_iff)

lemma strip_head: "\<not> is_blank t \<Longrightarrow> \<exists>c cs. strip t = c # cs \<and> \<not> is_space c"
proof -
  assume "\<not> is_blank t"
  then have "strip t \<noteq> []" by simp
  moreover have "strip t = [] \<or> \<not> is_space (hd (strip t))"
    unfolding strip_def by (rule hd_dropWhile_rev) (metis hd_dropWhile)
  ultimately show ?thesis by (cases "strip t") auto
qed

definition good_query :: "pystr \<Rightarrow> bool" where
  "good_query q \<longleftrightarrow> \<not> is_blank q \<and> length q \<le> max_query_chars"

lemma normalized_query_is_good: "normalize_query v = Inr q \<Longrightarrow> good_query q"
proof (cases v)
  case (PStr t)
  assume "normalize_query v = Inr q"
  with PStr have t: "\<not> is_blank t" "q = take max_query_chars (strip t)" by (auto simp: normalize_query_def split: if_splits)
  then obtain c cs where "strip t = c # cs" "\<not> is_space c" using strip_head by blast
  with t(2) show ?thesis by (simp add: good_query_def is_blank_iff max_query_chars_def)
qed (simp_all add: normalize_query_def)

lemma query_from_arguments_good: "query_from_arguments loads t = Some q \<Longrightarrow> good_query q"
  by (auto simp: query_from_arguments_def dest: normalized_query_is_good split: option.splits pyval.splits sum.splits)

lemma year_text: "1 \<le> y \<Longrightarrow> y \<le> 9999 \<Longrightarrow> length (show_int y) \<le> 4 \<and> \<not> is_blank (32 # show_int y)"
proof -
  assume y: "1 \<le> y" "y \<le> 9999"
  have "length (show_nat (nat y)) \<le> 4" by (rule length_show_nat) (use y in simp_all)
  moreover obtain c cs where c: "show_nat (nat y) = c # cs" by (cases "show_nat (nat y)") auto
  then have "is_digit c" using show_nat_digits [of "nat y"] by simp
  then have "\<not> is_space c" by (auto simp: is_digit_def is_space_def)
  ultimately show ?thesis using y c by (simp add: show_int_def is_blank_iff)
qed

lemma freshness_is_good:
  assumes "good_query q" and "1 \<le> y" and "y \<le> 9999"
  shows "good_query (add_freshness_context ch cf q y)"
proof -
  have y: "length (show_int y) \<le> 4" "\<not> is_blank (32 # show_int y)" using year_text assms(2,3) by blast+
  have "length (rstrip (take (300 - Suc (length (show_int y))) q)) \<le> 300 - Suc (length (show_int y))"
    using length_rstrip [of "take (300 - Suc (length (show_int y))) q"] by simp
  then have "length (rstrip (take (300 - Suc (length (show_int y))) q) @ 32 # show_int y) \<le> 300" using y(1) by simp
  with assms(1) y(2) show ?thesis
    by (auto simp: good_query_def add_freshness_context_def Let_def is_blank_iff max_query_chars_def)
qed

section \<open>The loop keeps its budget\<close>

text \<open>
  The log of the loop: the sources are the results of the searches in order, at most \<open>tl_max\<close> searches with
  good queries were made, and in each round every call got its output.
\<close>

definition loop_log_ok :: "'w tool_loop \<Rightarrow> loop_state \<Rightarrow> bool" where
  "loop_log_ok lo st \<longleftrightarrow> lp_sources st = concat (List.map_filter snd (lp_searches st))
     \<and> length (lp_searches st) \<le> tl_max lo \<and> (\<forall>q \<in> fst ` set (lp_searches st). good_query q)
     \<and> (\<forall>(cs, outs) \<in> set (lp_rounds st). cs \<noteq> [] \<and> map to_id outs = map fc_id cs)"

lemma start_loop_ok: "loop_log_ok lo start_loop"
  by (simp add: loop_log_ok_def start_loop_def map_filter_simps)

definition plausible_clock :: "'w tool_loop \<Rightarrow> bool" where
  "plausible_clock lo \<longleftrightarrow> (\<forall>w. 1 \<le> tl_year lo w \<and> tl_year lo w \<le> 9999)"

lemma map_filter_snoc: "List.map_filter f (xs @ [x]) = List.map_filter f xs @ (case f x of None \<Rightarrow> [] | Some y \<Rightarrow> [y])"
  by (auto simp: List.map_filter_def split: option.split)

lemma execute_call_ok:
  assumes "execute_call lo c st w = ((out, st'), w')" and "loop_log_ok lo st" and "plausible_clock lo"
  shows "loop_log_ok lo st' \<and> to_id out = fc_id c \<and> lp_rounds st' = lp_rounds st"
proof (cases "query_from_arguments (tl_loads lo) (fc_arguments c)")
  case None
  with assms(1,2) show ?thesis by (auto simp: execute_call_def error_output_def split: if_splits)
next
  case (Some q0)
  let ?q = "add_freshness_context (tl_chars lo) (tl_casefold lo) q0 (tl_year lo w)"
  have q: "good_query ?q"
    using freshness_is_good [OF query_from_arguments_good [OF Some]] assms(3) by (simp add: plausible_clock_def)
  show ?thesis
  proof (cases "fc_name c = u ''web_search'' \<and> length (lp_searches st) < tl_max lo")
    case False
    with assms(1,2) Some show ?thesis by (auto simp: execute_call_def error_output_def Let_def split: if_splits)
  next
    case True
    obtain r w1 where r: "run_search lo ?q w = (r, w1)" by (rule prod.exhaust)
    show ?thesis
      using assms(1,2) True Some q r
      by (cases r) (auto simp: execute_call_def error_output_def Let_def loop_log_ok_def map_filter_snoc)
  qed
qed

lemma execute_calls_ok:
  assumes "execute_calls lo cs st w = ((outs, st'), w')" and "loop_log_ok lo st" and "plausible_clock lo"
  shows "loop_log_ok lo st' \<and> map to_id outs = map fc_id cs \<and> lp_rounds st' = lp_rounds st"
  using assms
proof (induction cs arbitrary: st w outs)
  case (Cons c cs)
  obtain out st1 w1 where c: "execute_call lo c st w = ((out, st1), w1)" by (metis prod.exhaust)
  obtain outs' st2 w2 where cs: "execute_calls lo cs st1 w1 = ((outs', st2), w2)" by (metis prod.exhaust)
  have 1: "loop_log_ok lo st1" "to_id out = fc_id c" "lp_rounds st1 = lp_rounds st"
    using execute_call_ok [OF c Cons.prems(2,3)] by simp_all
  have e: "outs = out # outs'" "st' = st2" "w' = w2" using Cons.prems(1) c cs by simp_all
  have "loop_log_ok lo st' \<and> map to_id outs' = map fc_id cs \<and> lp_rounds st' = lp_rounds st1"
    by (rule Cons.IH [OF _ 1(1) Cons.prems(3)]) (use cs e in simp)
  with 1 e show ?case by simp
qed simp

lemma add_round_ok:
  "loop_log_ok lo st \<Longrightarrow> cs \<noteq> [] \<Longrightarrow> map to_id outs = map fc_id cs \<Longrightarrow>
   loop_log_ok lo (st\<lparr>lp_rounds := lp_rounds st @ [(cs, outs)]\<rparr>)"
  by (auto simp: loop_log_ok_def)

lemma tool_rounds_ok:
  assumes "tool_rounds lo n t st w = ((r, st'), w')" and "loop_log_ok lo st" and "plausible_clock lo"
  shows "loop_log_ok lo st' \<and> length (lp_rounds st') \<le> length (lp_rounds st) + n \<and> (\<forall>t'. r = Inr t' \<longrightarrow> tt_calls t' = [])"
  using assms
proof (induction lo n t st w arbitrary: r st' w' rule: tool_rounds.induct)
  case (2 lo n t st w)
  show ?case
  proof (cases "tt_calls t = [] \<or> (case tt_id t of None \<Rightarrow> True | Some i \<Rightarrow> is_blank i)")
    case True
    with "2.prems" show ?thesis by (auto split: if_splits option.splits)
  next
    case False
    then obtain i where i: "tt_id t = Some i" "\<not> is_blank i" "tt_calls t \<noteq> []" by (auto split: option.splits)
    obtain outs st1 w1 where c: "execute_calls lo (tt_calls t) st w = ((outs, st1), w1)" by (metis prod.exhaust)
    let ?st2 = "st1\<lparr>lp_rounds := lp_rounds st1 @ [(tt_calls t, outs)]\<rparr>"
    have 1: "loop_log_ok lo st1" "map to_id outs = map fc_id (tt_calls t)" "lp_rounds st1 = lp_rounds st"
      using execute_calls_ok [OF c "2.prems"(2,3)] by simp_all
    have ok: "loop_log_ok lo ?st2" using add_round_ok [OF 1(1) i(3) 1(2)] .
    show ?thesis
    proof (cases "tl_next lo i outs w1")
      case (Pair a w2)
      show ?thesis
      proof (cases a)
        case (Inl e)
        with "2.prems"(1) i c Pair ok 1(3) show ?thesis by auto
      next
        case (Inr t')
        have "tool_rounds lo n t' ?st2 w2 = ((r, st'), w')" using "2.prems"(1) i c Pair Inr by simp
        from "2.IH" [OF i(3) i(1) i(2) c [symmetric] refl refl Pair [symmetric] Inr this ok "2.prems"(3)]
        show ?thesis using 1(3) by simp
      qed
    qed
  qed
qed (auto split: if_splits)

lemma tool_loop_ok:
  assumes "tool_loop_respond lo p w = ((r, st), w')" and "plausible_clock lo"
  shows "loop_log_ok lo st \<and> length (lp_rounds st) \<le> tl_max lo + 1"
proof -
  obtain a w1 where f: "tl_first lo p w = (a, w1)" by (rule prod.exhaust)
  show ?thesis
  proof (cases a)
    case (Inl e)
    with assms(1) f show ?thesis by (auto simp: tool_loop_respond_def start_loop_ok) (simp add: start_loop_def)
  next
    case (Inr t0)
    obtain r1 st1 w2 where t: "tool_rounds lo (tl_max lo + 1) t0 start_loop w1 = ((r1, st1), w2)" by (metis prod.exhaust)
    have "st = st1" using assms(1) f Inr t by (auto simp: tool_loop_respond_def split: sum.splits)
    with tool_rounds_ok [OF t start_loop_ok assms(2)] show ?thesis by (simp add: start_loop_def)
  qed
qed

section \<open>Sources\<close>

lemma deduplicate_set: "sr_url ` set (deduplicate_sources rs) = sr_url ` set rs"
proof (induction rs)
  case (Cons r rs)
  have "sr_url ` set (deduplicate_sources (r # rs)) = insert (sr_url r) {x \<in> sr_url ` set (deduplicate_sources rs). x \<noteq> sr_url r}"
    by auto
  then show ?case unfolding Cons by auto
qed simp

lemma deduplicate_subset: "set (deduplicate_sources rs) \<subseteq> set rs"
  by (induction rs) auto

lemma deduplicate_distinct: "distinct (map sr_url (deduplicate_sources rs))"
proof (induction rs)
  case (Cons r rs)
  have "distinct (map sr_url (filter P xs))" if "distinct (map sr_url xs)" for P xs
    using that by (induction xs) auto
  with Cons show ?case by auto
qed simp

definition bounded_result :: "search_result \<Rightarrow> bool" where
  "bounded_result r \<longleftrightarrow> sr_title r \<noteq> [] \<and> length (sr_title r) \<le> max_title_chars
     \<and> length (sr_url r) \<le> max_url_chars \<and> length (sr_snippet r) \<le> max_snippet_chars"

lemma map_results_sound: "\<forall>r \<in> set (map_results urlsplit k k' vs). bounded_result r"
proof (induction vs)
  case (Cons v vs)
  have "bounded_result \<lparr>sr_title = take max_title_chars (strip t), sr_url = take max_url_chars x, sr_snippet = take max_snippet_chars y\<rparr>"
    if "\<not> is_blank t" for t x y
    using that by (simp add: bounded_result_def max_title_chars_def)
  with Cons show ?case by (simp split: pyval.split)
qed simp

text \<open>
C23: The model can search only within its budget. Whatever the model and the search service answer, a loop
makes at most \<open>max_searches\<close> searches and \<open>max_searches + 1\<close> rounds; each query has at most 300 characters and
is not blank; each round answers exactly the calls of the model, in their order.
\<close>
theorem search_loop_is_bounded:
  assumes "tool_loop_respond lo p w = ((r, st), w')" and "plausible_clock lo"
  shows "length (lp_searches st) \<le> tl_max lo \<and> length (lp_rounds st) \<le> tl_max lo + 1
    \<and> (\<forall>q \<in> fst ` set (lp_searches st). \<not> is_blank q \<and> length q \<le> max_query_chars)
    \<and> (\<forall>(cs, outs) \<in> set (lp_rounds st). cs \<noteq> [] \<and> map to_id outs = map fc_id cs)"
  using tool_loop_ok [OF assms] by (simp add: loop_log_ok_def good_query_def)

text \<open>
An answer cites only what was found, and all of it. The sources of an answer are results of searches
of this loop, no two have the same URL, and the URL of every result that was found is among them.
\<close>
theorem sources_are_what_was_found:
  assumes "tool_loop_respond lo p w = ((Inr (answer, sources), st), w')" and "plausible_clock lo"
  shows "distinct (map sr_url sources)
    \<and> (\<forall>r \<in> set sources. \<exists>q rs. (q, Some rs) \<in> set (lp_searches st) \<and> r \<in> set rs)
    \<and> (\<forall>(q, found) \<in> set (lp_searches st). \<forall>rs. found = Some rs \<longrightarrow> (\<forall>r \<in> set rs. sr_url r \<in> sr_url ` set sources))"
proof -
  obtain a w1 where f: "tl_first lo p w = (a, w1)" by (rule prod.exhaust)
  obtain t0 where a: "a = Inr t0" using assms(1) f by (cases a) (auto simp: tool_loop_respond_def)
  obtain b st1 w2 where t: "tool_rounds lo (tl_max lo + 1) t0 start_loop w1 = ((b, st1), w2)" by (metis prod.exhaust)
  have s: "sources = deduplicate_sources (lp_sources st)"
    using assms(1) f a t by (auto simp: tool_loop_respond_def finish_loop_def split: sum.splits option.splits)
  have l: "set (lp_sources st) = (\<Union>(q, found) \<in> set (lp_searches st). case found of None \<Rightarrow> {} | Some rs \<Rightarrow> set rs)"
    using tool_loop_ok [OF assms] by (auto simp: loop_log_ok_def List.map_filter_def image_iff split: option.splits)
  have "\<exists>q rs. (q, Some rs) \<in> set (lp_searches st) \<and> r \<in> set rs" if "r \<in> set sources" for r
  proof -
    have "r \<in> set (lp_sources st)" using that deduplicate_subset unfolding s by blast
    then show ?thesis unfolding l by (auto split: option.splits) blast
  qed
  moreover have "sr_url r \<in> sr_url ` set sources" if "(q, Some rs) \<in> set (lp_searches st)" "r \<in> set rs" for q rs r
  proof -
    have "r \<in> set (lp_sources st)" using that unfolding l by force
    then show ?thesis unfolding s deduplicate_set by (rule imageI)
  qed
  ultimately show ?thesis using deduplicate_distinct unfolding s by blast
qed

section \<open>An example\<close>

text \<open>The model asks for one search and answers; the service finds two results with the same URL.\<close>

definition demo_tool_turn :: "pystr option \<Rightarrow> function_call list \<Rightarrow> tool_turn" where
  "demo_tool_turn t cs = \<lparr>tt_id = Some [82], tt_model = [77], tt_text = t, tt_calls = cs, tt_source = [83], tt_fallback = None\<rparr>"

definition demo_search_loop :: "unit tool_loop" where
  "demo_search_loop = \<lparr>tl_first = \<lambda>_. pure_op (Inr (demo_tool_turn None [\<lparr>fc_id = [49], fc_name = u ''web_search'', fc_arguments = [65]\<rparr>])),
     tl_next = \<lambda>_ _. pure_op (Inr (demo_tool_turn (Some [79]) [])),
     tl_search = \<lambda>_. pure_op (Inr [\<lparr>sr_title = [84], sr_url = [85], sr_snippet = []\<rparr>, \<lparr>sr_title = [86], sr_url = [85], sr_snippet = []\<rparr>]),
     tl_announce = None, tl_max = 2, tl_year = \<lambda>_. 2026, tl_chars = \<lparr>ch_word = (\<lambda>_. True), ch_fold = id\<rparr>, tl_casefold = id,
     tl_loads = \<lambda>_. Some (PDict [(u ''query'', PStr [65])]), tl_compact = \<lambda>_. []\<rparr>"

lemma demo_search_loop_clock: "plausible_clock demo_search_loop"
  by (simp add: plausible_clock_def demo_search_loop_def)

lemma demo_search_loop_max: "tl_max demo_search_loop = 2"
  by (simp add: demo_search_loop_def)

lemma demo_freshness: "add_freshness_context \<lparr>ch_word = (\<lambda>_. True), ch_fold = id\<rparr> id [65] 2026 = [65]"
  by (simp add: add_freshness_context_def temporal_query_markers_def contains_def starts_with_def u_def)

lemma demo_search_loop_run: "tool_loop_respond demo_search_loop (Plain_Text [81]) () =
    ((Inr (\<lparr>xr_id = Some [82], xr_model = [77], xr_text = [79], xr_source = [83], xr_fallback = None\<rparr>, [\<lparr>sr_title = [84], sr_url = [85], sr_snippet = []\<rparr>]),
      \<lparr>lp_sources = [\<lparr>sr_title = [84], sr_url = [85], sr_snippet = []\<rparr>, \<lparr>sr_title = [86], sr_url = [85], sr_snippet = []\<rparr>],
       lp_searches = [([65], Some [\<lparr>sr_title = [84], sr_url = [85], sr_snippet = []\<rparr>, \<lparr>sr_title = [86], sr_url = [85], sr_snippet = []\<rparr>])],
       lp_rounds = [([\<lparr>fc_id = [49], fc_name = u ''web_search'', fc_arguments = [65]\<rparr>], [\<lparr>to_id = [49], to_output = []\<rparr>])]\<rparr>), ())"
proof -
  have q: "query_from_arguments (\<lambda>_. Some (PDict [(u ''query'', PStr [65])])) [65] = Some [65]"
    by (simp add: query_from_arguments_def dict_get_def normalize_query_def is_blank_def is_space_def strip_def max_query_chars_def)
  have b: "\<not> is_blank [82]" by (simp add: is_blank_def is_space_def)
  show ?thesis
    by (simp add: tool_loop_respond_def demo_search_loop_def demo_tool_turn_def start_loop_def numeral_3_eq_3 b execute_call_def q demo_freshness
      pure_op_def run_search_def finish_loop_def Let_def)
qed

theorem search_loop_is_bounded_witness:
  "length (lp_searches (snd (fst (tool_loop_respond demo_search_loop (Plain_Text [81]) ())))) \<le> 2"
  using search_loop_is_bounded [OF demo_search_loop_run demo_search_loop_clock] by (simp add: demo_search_loop_run demo_search_loop_max)

theorem sources_are_what_was_found_witness:
  "distinct (map sr_url [\<lparr>sr_title = [84], sr_url = [85::nat], sr_snippet = []\<rparr>])
    \<and> plausible_clock demo_search_loop"
  using sources_are_what_was_found [OF demo_search_loop_run demo_search_loop_clock] demo_search_loop_clock by simp

end
