(* ===== verification/Url_Reader.thy ===== *)
theory Url_Reader
  imports Provider Commands
begin

text \<open>
  The read-only URL reader of \<open>read_only_network.py\<close>: the normal form of a URL, the loop over redirects in
  which every hop is resolved, checked and fetched by its pinned address, the pinned transport, and the
  audit record of every read. DNS, the socket, the audit store and the clock act on a world, a type
  variable; \<open>urlsplit\<close>, \<open>urljoin\<close>, IDNA, \<open>casefold\<close>, \<open>ipaddress\<close>, SHA-256, decoders and \<open>isoformat\<close> are
  arguments.
\<close>

section \<open>Errors and policy\<close>

text \<open>A \<open>UrlReadError\<close> with its code; \<open>Crashed\<close> is any other exception.\<close>

datatype read_error = Url_Error string | Crashed

type_synonym ('w, 'a) reading = "('w, read_error, 'a) action"

definition ensure :: "bool \<Rightarrow> string \<Rightarrow> read_error + unit" where
  "ensure ok code = (if ok then Inr () else Inl (Url_Error code))"

definition allowed_content_types :: "pystr list" where
  "allowed_content_types = [u ''application/json'', u ''application/xml'', u ''text/html'', u ''text/plain'', u ''text/xml'']"

definition redirect_statuses :: "int list" where
  "redirect_statuses = [301, 302, 303, 307, 308]"

definition blocked_codes :: "string list" where
  "blocked_codes = [''https_required'', ''invalid_url'', ''private_address'', ''dns_rebinding'', ''unsafe_redirect'',
     ''unsupported_content_type'', ''body_too_large'']"

definition private_hostnames :: "pystr list" where
  "private_hostnames = [u ''localhost'', u ''localhost.localdomain'']"

record fetch_request =
  fq_ip :: pystr
  fq_host :: pystr
  fq_target :: pystr

record fetch_response =
  fr_status :: int
  fr_headers :: "(pystr \<times> pystr) list"
  fr_body :: "nat list"

record url_read_result =
  ur_url :: pystr
  ur_retrieved :: int
  ur_type :: pystr
  ur_text :: pystr
  ur_sha :: pystr

record 'w url_reader =
  rd_split :: url_splitter
  rd_join :: "pystr \<Rightarrow> pystr \<Rightarrow> pystr"
  rd_idna :: "pystr \<Rightarrow> pystr option"
  rd_casefold :: "pystr \<Rightarrow> pystr"
  rd_global :: "pystr \<Rightarrow> bool option"
  rd_sha :: "nat list \<Rightarrow> pystr"
  rd_url_sha :: "pystr \<Rightarrow> pystr"
  rd_decode :: "pystr \<Rightarrow> nat list \<Rightarrow> pystr option"
  rd_iso :: "int \<Rightarrow> pystr"
  rd_now :: "'w \<Rightarrow> py_datetime"
  rd_resolve :: "pystr \<Rightarrow> ('w, pystr list) reading"
  rd_fetch :: "fetch_request \<Rightarrow> ('w, fetch_response) reading"
  rd_audit :: "audit_event \<Rightarrow> ('w, py_error, unit) action"
  rd_max_body :: nat
  rd_max_redirects :: nat

text \<open>The checks of the constructor; the timeout is in milliseconds.\<close>

definition check_limits :: "int \<Rightarrow> int \<Rightarrow> int \<Rightarrow> (nat \<times> nat) result" where
  "check_limits timeout_ms max_body max_redirects =
     guardE (timeout_ms \<le> 0 \<or> 60000 < timeout_ms) (ValueError ''URL timeout must be between 0 and 60 seconds'')
     (guardE (max_body < 1 \<or> 10000000 < max_body) (ValueError ''URL body limit must be between 1 and 10000000'')
     (guardE (max_redirects < 0 \<or> 10 < max_redirects) (ValueError ''URL redirect limit must be between 0 and 10'')
       (Inr (nat max_body, nat max_redirects))))"

section \<open>Normal form of a URL\<close>

text \<open>\<open>urllib.parse.quote\<close>: bytes of the UTF-8 encoding that are not safe become \<open>%XX\<close>; a surrogate raises.\<close>

definition utf8_bytes :: "nat \<Rightarrow> nat list" where
  "utf8_bytes c = (if c < 128 then [c]
     else if c < 2048 then [192 + c div 64, 128 + c mod 64]
     else if c < 65536 then [224 + c div 4096, 128 + c div 64 mod 64, 128 + c mod 64]
     else [240 + c div 262144, 128 + c div 4096 mod 64, 128 + c div 64 mod 64, 128 + c mod 64])"

definition hex_digit :: "nat \<Rightarrow> nat" where
  "hex_digit n = (if n < 10 then 48 + n else 55 + n)"

definition always_safe :: "nat \<Rightarrow> bool" where
  "always_safe c \<longleftrightarrow> (65 \<le> c \<and> c \<le> 90) \<or> (97 \<le> c \<and> c \<le> 122) \<or> (48 \<le> c \<and> c \<le> 57) \<or> c \<in> {95, 46, 45, 126}"

definition quote_byte :: "pystr \<Rightarrow> nat \<Rightarrow> pystr" where
  "quote_byte safe b = (if always_safe b \<or> (b < 128 \<and> b \<in> set safe) then [b] else [37, hex_digit (b div 16), hex_digit (b mod 16)])"

definition quote :: "pystr \<Rightarrow> pystr \<Rightarrow> read_error + pystr" where
  "quote safe t = (if list_ex is_surrogate t then Inl Crashed else Inr (concat (map (quote_byte safe) (concat (map utf8_bytes t)))))"

definition path_safe :: pystr where "path_safe = u ''/%:@!$&'' @ 39 # u ''()*+,;=-._~''"
definition query_safe :: pystr where "query_safe = u ''=&/%:@!$'' @ 39 # u ''()*+,;?-._~''"

definition is_public_ip :: "'w url_reader \<Rightarrow> pystr \<Rightarrow> bool" where
  "is_public_ip rd a \<longleftrightarrow> rd_global rd a = Some True"

definition is_public_hostname :: "'w url_reader \<Rightarrow> pystr \<Rightarrow> bool" where
  "is_public_hostname rd h \<longleftrightarrow> rd_global rd h \<noteq> Some False"

definition assemble :: "pystr \<Rightarrow> pystr \<Rightarrow> pystr \<Rightarrow> pystr" where
  "assemble host path query =
     u ''https://'' @ (if 58 \<in> set host then [91] @ host @ [93] else host)
       @ (if path \<noteq> [] \<and> hd path \<noteq> 47 then 47 # path else path) @ (if query = [] then [] else 63 # query)"

definition split_parts :: "'w url_reader \<Rightarrow> pystr \<Rightarrow> read_error + url_parts \<times> int option" where
  "split_parts rd t = (case rd_split rd t of
       Inl _ \<Rightarrow> Inl (Url_Error ''invalid_url'')
     | Inr p \<Rightarrow> (case up_port p of Inl _ \<Rightarrow> Inl (Url_Error ''invalid_url'') | Inr port \<Rightarrow> Inr (p, port)))"

definition normal_host :: "'w url_reader \<Rightarrow> url_parts \<Rightarrow> int option \<Rightarrow> read_error + pystr" where
  "normal_host rd p port = (case up_host p of
       None \<Rightarrow> Inl (Url_Error ''invalid_url'')
     | Some h \<Rightarrow>
        if h = [] \<or> up_user p \<noteq> None \<or> up_password p \<noteq> None \<or> port \<notin> {None, Some 443} then Inl (Url_Error ''invalid_url'')
        else (case rd_idna rd h of
            None \<Rightarrow> Inl (Url_Error ''invalid_url'')
          | Some ascii \<Rightarrow> let host = rd_casefold rd ascii in
              if host \<in> set private_hostnames \<or> \<not> is_public_hostname rd host then Inl (Url_Error ''private_address'') else Inr host))"

definition normalize_url :: "'w url_reader \<Rightarrow> pystr \<Rightarrow> read_error + pystr" where
  "normalize_url rd url =
     (if is_blank url \<or> list_ex (\<lambda>c. c < 32) url then Inl (Url_Error ''invalid_url'')
      else case split_parts rd (strip url) of
          Inl e \<Rightarrow> Inl e
        | Inr (p, port) \<Rightarrow>
            if rd_casefold rd (up_scheme p) \<noteq> u ''https'' then Inl (Url_Error ''https_required'')
            else (case normal_host rd p port of
                Inl e \<Rightarrow> Inl e
              | Inr host \<Rightarrow> (case quote path_safe (if up_path p = [] then [47] else up_path p) of
                  Inl e \<Rightarrow> Inl e
                | Inr path \<Rightarrow> (case quote query_safe (up_query p) of
                    Inl e \<Rightarrow> Inl e
                  | Inr query \<Rightarrow> Inr (assemble host path query)))))"

definition target_parts :: "'w url_reader \<Rightarrow> pystr \<Rightarrow> read_error + pystr \<times> pystr" where
  "target_parts rd url = (case rd_split rd url of
       Inl _ \<Rightarrow> Inl Crashed
     | Inr p \<Rightarrow> (case up_host p of
         None \<Rightarrow> Inl (Url_Error ''invalid_url'')
       | Some h \<Rightarrow> Inr (h, (if up_path p = [] then [47] else up_path p) @ (if up_query p = [] then [] else 63 # up_query p))))"

section \<open>The pinned transport\<close>

text \<open>\<open>socket.getaddrinfo\<close>, \<open>None\<close> for an \<open>OSError\<close>; \<open>dict.fromkeys\<close> keeps the first of equal addresses.\<close>

fun unique :: "pystr list \<Rightarrow> pystr list" where
  "unique [] = []"
| "unique (x # xs) = x # filter (\<lambda>y. y \<noteq> x) (unique xs)"

definition socket_resolve :: "(pystr \<Rightarrow> 'w \<Rightarrow> pystr list option \<times> 'w) \<Rightarrow> pystr \<Rightarrow> ('w, pystr list) reading" where
  "socket_resolve getaddrinfo host w = (case getaddrinfo host w of
       (None, w') \<Rightarrow> (Inl (Url_Error ''dns_failed''), w')
     | (Some xs, w') \<Rightarrow> (if xs = [] then Inl (Url_Error ''dns_failed'') else Inr (unique xs), w'))"

definition header :: "(pystr \<Rightarrow> pystr) \<Rightarrow> (pystr \<times> pystr) list \<Rightarrow> pystr \<Rightarrow> pystr option" where
  "header casefold hs name = map_option snd (List.find (\<lambda>(k, _). casefold k = casefold name) hs)"

definition content_length :: "(pystr \<Rightarrow> pystr) \<Rightarrow> (pystr \<times> pystr) list \<Rightarrow> read_error + int option" where
  "content_length casefold hs = (case header casefold hs (u ''content-length'') of
       None \<Rightarrow> Inr None
     | Some v \<Rightarrow> (case py_int v of
         Inl _ \<Rightarrow> Inl (Url_Error ''network_failed'')
       | Inr n \<Rightarrow> if n < 0 then Inl (Url_Error ''network_failed'') else Inr (Some n)))"

definition request_text :: "fetch_request \<Rightarrow> pystr" where
  "request_text q = u ''GET '' @ fq_target q @ u '' HTTP/1.1'' @ [13, 10]
     @ u ''Host: '' @ (if 58 \<in> set (fq_host q) then [91] @ fq_host q @ [93] else fq_host q) @ [13, 10]
     @ u ''Accept: text/html, text/plain, application/json, application/xml'' @ [13, 10]
     @ u ''Connection: close'' @ [13, 10] @ u ''User-Agent: LenkoBot/0.1'' @ [13, 10, 13, 10]"

text \<open>
  One exchange over TLS with the address and the server name: the bytes are sent, and status, headers and
  the first bytes of the body come back, or \<open>None\<close> for an error of socket, TLS or protocol. A text that is
  not ASCII fails before anything is sent. The headers become a dictionary with lower-case keys.
\<close>

definition header_dict :: "(pystr \<Rightarrow> pystr) \<Rightarrow> (pystr \<times> pystr) list \<Rightarrow> (pystr \<times> pystr) list" where
  "header_dict lower hs = (let ks = map (\<lambda>(k, v). (lower k, v)) hs in map (\<lambda>k. (k, the (map_of (rev ks) k))) (unique (map fst ks)))"

definition pinned_fetch ::
    "(pystr \<Rightarrow> pystr) \<Rightarrow> (pystr \<Rightarrow> pystr) \<Rightarrow> (pystr \<Rightarrow> pystr \<Rightarrow> pystr \<Rightarrow> nat \<Rightarrow> 'w \<Rightarrow> (int \<times> (pystr \<times> pystr) list \<times> nat list) option \<times> 'w)
      \<Rightarrow> nat \<Rightarrow> fetch_request \<Rightarrow> ('w, fetch_response) reading" where
  "pinned_fetch lower casefold exchange max_body q w =
     (if list_ex (\<lambda>c. 128 \<le> c) (request_text q) then (Inl (Url_Error ''network_failed''), w)
      else case exchange (fq_ip q) (fq_host q) (request_text q) (max_body + 1) w of
          (None, w') \<Rightarrow> (Inl (Url_Error ''network_failed''), w')
        | (Some (status, raw, body), w') \<Rightarrow> (let hs = header_dict lower raw in
            case content_length casefold hs of
               Inl e \<Rightarrow> (Inl e, w')
             | Inr n \<Rightarrow>
                 if (case n of None \<Rightarrow> False | Some k \<Rightarrow> int max_body < k) \<or> max_body < length (take (max_body + 1) body)
                 then (Inl (Url_Error ''body_too_large''), w')
                 else (Inr \<lparr>fr_status = status, fr_headers = hs, fr_body = take (max_body + 1) body\<rparr>, w')))"

section \<open>Reading\<close>

definition content_type :: "'w url_reader \<Rightarrow> (pystr \<times> pystr) list \<Rightarrow> pystr" where
  "content_type rd hs = (case header (rd_casefold rd) hs (u ''content-type'') of
       None \<Rightarrow> [] | Some v \<Rightarrow> if v = [] then [] else rd_casefold rd (strip (hd (split_on 59 v))))"

text \<open>The charset of a content type: the leftmost match of \<open>(?:^|;)\s*charset\s*=\s*["']?([^;"'\s]+)\<close> without case.\<close>

definition same_letter :: "nat \<Rightarrow> nat \<Rightarrow> bool" where
  "same_letter a c \<longleftrightarrow> c = a \<or> c + 32 = a \<or> (a = 115 \<and> c = 383)"

definition past_word :: "pystr \<Rightarrow> pystr \<Rightarrow> pystr option" where
  "past_word word t = (if length word \<le> length t \<and> list_all2 same_letter word (take (length word) t) then Some (drop (length word) t) else None)"

definition charset_at :: "pystr \<Rightarrow> pystr option" where
  "charset_at t = (case past_word (u ''charset'') (dropWhile is_space t) of
       None \<Rightarrow> None
     | Some r \<Rightarrow> (case dropWhile is_space r of
         [] \<Rightarrow> None
       | c # r1 \<Rightarrow> if c \<noteq> 61 then None else
           let r2 = dropWhile is_space r1; r3 = (if r2 \<noteq> [] \<and> hd r2 \<in> {34, 39} then tl r2 else r2);
               name = takeWhile (\<lambda>x. x \<notin> {59, 34, 39} \<and> \<not> is_space x) r3 in
           if name = [] then None else Some name))"

fun charset_after :: "pystr \<Rightarrow> pystr option" where
  "charset_after [] = None"
| "charset_after (c # cs) = (if c = 59 then (case charset_at cs of Some n \<Rightarrow> Some n | None \<Rightarrow> charset_after cs) else charset_after cs)"

definition charset_of :: "pystr \<Rightarrow> pystr option" where
  "charset_of t = (case charset_at t of Some n \<Rightarrow> Some n | None \<Rightarrow> charset_after t)"

definition decode_body :: "'w url_reader \<Rightarrow> nat list \<Rightarrow> (pystr \<times> pystr) list \<Rightarrow> read_error + pystr" where
  "decode_body rd body hs =
     (let kind = (case header (rd_casefold rd) hs (u ''content-type'') of None \<Rightarrow> [] | Some v \<Rightarrow> v);
          encoding = (case charset_of kind of None \<Rightarrow> u ''utf-8'' | Some n \<Rightarrow> n) in
      case rd_decode rd encoding body of None \<Rightarrow> Inl (Url_Error ''network_failed'') | Some t \<Rightarrow> Inr t)"

definition utc_of :: "py_datetime \<Rightarrow> int" where
  "utc_of t = (case t of Naive n \<Rightarrow> n | Aware n \<Rightarrow> n)"

definition timestamp :: "'w url_reader \<Rightarrow> 'w \<Rightarrow> pystr" where
  "timestamp rd w = rd_iso rd (utc_of (rd_now rd w))"

text \<open>One hop: resolve, check every address, fetch by the first.\<close>

definition check_addresses :: "'w url_reader \<Rightarrow> pystr list \<Rightarrow> read_error + pystr" where
  "check_addresses rd addresses = (case addresses of
       [] \<Rightarrow> Inl (Url_Error ''dns_failed'')
     | a # _ \<Rightarrow> (let bad = filter (\<lambda>x. \<not> is_public_ip rd x) addresses in
         if bad = [] then Inr a
         else Inl (Url_Error (if length bad = length addresses then ''private_address'' else ''dns_rebinding''))))"

definition hop :: "'w url_reader \<Rightarrow> pystr \<Rightarrow> ('w, fetch_response) reading" where
  "hop rd url =
     then_op (pure_op (target_parts rd url)) (\<lambda>(host, target).
     then_op (rd_resolve rd host) (\<lambda>addresses.
     then_op (pure_op (check_addresses rd addresses)) (\<lambda>ip.
       rd_fetch rd \<lparr>fq_ip = ip, fq_host = host, fq_target = target\<rparr>)))"

definition next_url :: "'w url_reader \<Rightarrow> pystr \<Rightarrow> fetch_response \<Rightarrow> read_error + pystr" where
  "next_url rd url r = (case header (rd_casefold rd) (fr_headers r) (u ''location'') of
       None \<Rightarrow> Inl (Url_Error ''unsafe_redirect'')
     | Some l \<Rightarrow> if l = [] then Inl (Url_Error ''unsafe_redirect'') else normalize_url rd (rd_join rd url l))"

text \<open>The loop; \<open>n\<close> redirects are left.\<close>

fun follow :: "'w url_reader \<Rightarrow> nat \<Rightarrow> pystr \<Rightarrow> ('w, pystr \<times> fetch_response) reading" where
  "follow rd 0 url = then_op (hop rd url) (\<lambda>r.
     pure_op (if fr_status r \<in> set redirect_statuses then Inl (Url_Error ''unsafe_redirect'') else Inr (url, r)))"
| "follow rd (Suc n) url = then_op (hop rd url) (\<lambda>r.
     if fr_status r \<in> set redirect_statuses then then_op (pure_op (next_url rd url r)) (\<lambda>url'. follow rd n url')
     else pure_op (Inr (url, r)))"

definition accept_page :: "'w url_reader \<Rightarrow> pystr \<Rightarrow> fetch_response \<Rightarrow> ('w, url_read_result) reading" where
  "accept_page rd url r =
     then_op (pure_op (ensure (200 \<le> fr_status r \<and> fr_status r < 300) ''network_failed'')) (\<lambda>_.
     then_op (pure_op (ensure (content_type rd (fr_headers r) \<in> set allowed_content_types) ''unsupported_content_type'')) (\<lambda>_.
     then_op (pure_op (ensure (length (fr_body r) \<le> rd_max_body rd) ''body_too_large'')) (\<lambda>_.
     then_op (pure_op (decode_body rd (fr_body r) (fr_headers r))) (\<lambda>t.
       read_op (\<lambda>w. Inr \<lparr>ur_url = url, ur_retrieved = utc_of (rd_now rd w), ur_type = content_type rd (fr_headers r), ur_text = t,
         ur_sha = rd_sha rd (fr_body r)\<rparr>)))))"

definition read_page :: "'w url_reader \<Rightarrow> pystr \<Rightarrow> ('w, url_read_result) reading" where
  "read_page rd url =
     then_op (pure_op (normalize_url rd url)) (\<lambda>start.
     then_op (follow rd (rd_max_redirects rd) start) (\<lambda>(final, r). accept_page rd final r))"

definition network_event :: "'w url_reader \<Rightarrow> int \<Rightarrow> int \<Rightarrow> pystr \<Rightarrow> string \<Rightarrow> string \<Rightarrow> pystr \<Rightarrow> pystr \<Rightarrow> audit_event" where
  "network_event rd owner epoch url decision outcome started finished =
     \<lparr>ae_owner = owner, ae_epoch = epoch, ae_type = u ''network_request'', ae_capability = u ''url_read'', ae_hash = Some (rd_url_sha rd url),
      ae_decision = u decision, ae_outcome = u outcome, ae_started = started, ae_finished = Some finished, ae_created = None\<rparr>"

definition record_read :: "'w url_reader \<Rightarrow> audit_event \<Rightarrow> ('w, unit) reading" where
  "record_read rd e = try_op (rd_audit rd e) (\<lambda>_. pure_op (Inl (Url_Error ''audit_unavailable''))) (\<lambda>_. pure_op (Inr ()))"

text \<open>A failed read is recorded, unless the failure is that of the record itself.\<close>

definition failed_read :: "'w url_reader \<Rightarrow> (string \<Rightarrow> string \<Rightarrow> pystr \<Rightarrow> audit_event) \<Rightarrow> read_error \<Rightarrow> ('w, url_read_result) reading" where
  "failed_read rd event e w = (case e of
       Url_Error code \<Rightarrow>
         if code = ''audit_unavailable'' then (Inl e, w)
         else then_op (record_read rd (if code \<in> set blocked_codes then event ''deny'' ''blocked'' (timestamp rd w)
                else event ''allow'' ''failed'' (timestamp rd w))) (\<lambda>_. pure_op (Inl e)) w
     | Crashed \<Rightarrow> then_op (record_read rd (event ''allow'' ''failed'' (timestamp rd w))) (\<lambda>_. pure_op (Inl (Url_Error ''network_failed''))) w)"

definition read_url :: "'w url_reader \<Rightarrow> pystr \<Rightarrow> int \<Rightarrow> int \<Rightarrow> ('w, url_read_result) reading" where
  "read_url rd url owner epoch w =
     (let event = (\<lambda>decision outcome finished. network_event rd owner epoch url decision outcome (timestamp rd w) finished) in
      try_op (then_op (read_page rd url) (\<lambda>page.
          then_op (record_read rd (event ''allow'' ''success'' (rd_iso rd (ur_retrieved page)))) (\<lambda>_. pure_op (Inr page))))
        (failed_read rd event) (\<lambda>page. pure_op (Inr page)) w)"

section \<open>Normal URLs cannot inject anything\<close>

definition visible_ascii :: "pystr \<Rightarrow> bool" where
  "visible_ascii t \<longleftrightarrow> (\<forall>c \<in> set t. 33 \<le> c \<and> c < 127)"

lemma visible_append [simp]: "visible_ascii (a @ b) \<longleftrightarrow> visible_ascii a \<and> visible_ascii b"
  by (auto simp: visible_ascii_def)

lemma visible_simps [simp]: "visible_ascii []" "visible_ascii (c # cs) \<longleftrightarrow> 33 \<le> c \<and> c < 127 \<and> visible_ascii cs"
  by (auto simp: visible_ascii_def)

lemma hex_digit_visible: "n < 16 \<Longrightarrow> 33 \<le> hex_digit n \<and> hex_digit n < 127"
  by (simp add: hex_digit_def)

lemma quote_byte_visible:
  assumes "b < 256" and "visible_ascii safe"
  shows "visible_ascii (quote_byte safe b)"
proof (cases "always_safe b \<or> (b < 128 \<and> b \<in> set safe)")
  case True
  then have "33 \<le> b \<and> b < 127" using assms(2) by (auto simp: always_safe_def visible_ascii_def)
  with True show ?thesis by (simp add: quote_byte_def)
next
  case False
  have "b div 16 < 16" "b mod 16 < 16" using assms(1) by simp_all
  then have "visible_ascii [37, hex_digit (b div 16), hex_digit (b mod 16)]" using hex_digit_visible by simp
  with False show ?thesis unfolding quote_byte_def by (simp only: if_False)
qed

definition code_points :: "pystr \<Rightarrow> bool" where
  "code_points t \<longleftrightarrow> (\<forall>c \<in> set t. c < 1114112)"

lemma utf8_bytes_small: "c < 1114112 \<Longrightarrow> b \<in> set (utf8_bytes c) \<Longrightarrow> b < 256"
  by (auto simp: utf8_bytes_def split: if_splits)

lemma quote_visible:
  assumes "quote safe t = Inr q" and "visible_ascii safe" and "code_points t"
  shows "visible_ascii q"
proof -
  have "visible_ascii (quote_byte safe b)" if "b \<in> set (concat (map utf8_bytes t))" for b
    using that assms(2,3) by (auto simp: code_points_def intro!: quote_byte_visible utf8_bytes_small)
  then have "visible_ascii (concat (map (quote_byte safe) (concat (map utf8_bytes t))))"
    by (fastforce simp: visible_ascii_def)
  moreover have "q = concat (map (quote_byte safe) (concat (map utf8_bytes t)))" using assms(1) by (simp add: quote_def split: if_splits)
  ultimately show ?thesis by simp
qed

text \<open>What the code relies on: \<open>urlsplit\<close> gives strings, and IDNA gives the visible ASCII characters of a host.\<close>

definition ascii_hosts :: "'w url_reader \<Rightarrow> bool" where
  "ascii_hosts rd \<longleftrightarrow> (\<forall>h a. rd_idna rd h = Some a \<longrightarrow> visible_ascii (rd_casefold rd a))
     \<and> (\<forall>t p. rd_split rd t = Inr p \<longrightarrow> code_points (up_path p) \<and> code_points (up_query p))"

text \<open>
Whatever URL is asked for, or comes as the target of a redirect, the URL that is read has only visible
ASCII characters: no blank, no line break, no control character that could split the request.
\<close>
theorem normal_url_is_visible:
  assumes "normalize_url rd url = Inr v" and "ascii_hosts rd"
  shows "visible_ascii v"
proof -
  obtain p port host path query where s: "rd_split rd (strip url) = Inr p" "normal_host rd p port = Inr host"
    "quote path_safe (if up_path p = [] then [47] else up_path p) = Inr path" "quote query_safe (up_query p) = Inr query"
    "v = assemble host path query"
    using assms(1) by (auto simp: normalize_url_def split_parts_def split: if_splits sum.splits prod.splits)
  have cp: "code_points (up_path p)" "code_points (up_query p)" using s(1) assms(2) by (auto simp: ascii_hosts_def)
  have safe: "visible_ascii path_safe" "visible_ascii query_safe" by (simp_all add: path_safe_def query_safe_def u_def)
  have "visible_ascii path" by (rule quote_visible [OF s(3) safe(1)]) (use cp in \<open>simp add: code_points_def\<close>)
  moreover have "visible_ascii query" by (rule quote_visible [OF s(4) safe(2) cp(2)])
  moreover have "visible_ascii host"
    using s(2) assms(2) by (auto simp: normal_host_def ascii_hosts_def Let_def split: option.splits if_splits)
  moreover have "visible_ascii (u ''https://'')" by (simp add: u_def)
  ultimately show ?thesis unfolding s(5) by (simp add: assemble_def)
qed

section \<open>Only public addresses are contacted\<close>

definition logged_fetch :: "(fetch_request \<Rightarrow> ('v, fetch_response) reading) \<Rightarrow> fetch_request \<Rightarrow> ('v \<times> fetch_request list, fetch_response) reading" where
  "logged_fetch fetch q w = (case fetch q (fst w) of (r, v) \<Rightarrow> (r, v, snd w @ [q]))"

definition vetted :: "'w url_reader \<Rightarrow> fetch_request \<Rightarrow> bool" where
  "vetted rd q \<longleftrightarrow> rd_global rd (fq_ip q) = Some True
     \<and> (\<exists>t url. normalize_url rd t = Inr url \<and> target_parts rd url = Inr (fq_host q, fq_target q))"

text \<open>At most \<open>n\<close> fetches, all vetted.\<close>

definition fetches :: "('v \<times> fetch_request list) url_reader \<Rightarrow> nat \<Rightarrow> 'v \<times> fetch_request list \<Rightarrow> 'v \<times> fetch_request list \<Rightarrow> bool" where
  "fetches rd n w w' \<longleftrightarrow> (\<exists>sent. snd w' = snd w @ sent \<and> length sent \<le> n \<and> (\<forall>q \<in> set sent. vetted rd q))"

lemma fetches_0: "fetches rd 0 w w' \<longleftrightarrow> snd w' = snd w"
  by (auto simp: fetches_def)

lemma fetches_trans: "fetches rd m a b \<Longrightarrow> fetches rd n b c \<Longrightarrow> fetches rd (m + n) a c"
  unfolding fetches_def
proof (elim exE conjE)
  fix s1 s2
  assume *: "snd b = snd a @ s1" "length s1 \<le> m" "\<forall>q \<in> set s1. vetted rd q"
    "snd c = snd b @ s2" "length s2 \<le> n" "\<forall>q \<in> set s2. vetted rd q"
  show "\<exists>sent. snd c = snd a @ sent \<and> length sent \<le> m + n \<and> (\<forall>q \<in> set sent. vetted rd q)"
    by (rule exI [of _ "s1 @ s2"]) (use * in auto)
qed

lemma fetches_mono: "fetches rd m a b \<Longrightarrow> m \<le> n \<Longrightarrow> fetches rd n a b"
  by (auto simp: fetches_def)

lemma fetches_then:
  assumes "keeps (fetches rd m) f" and "\<And>x. keeps (fetches rd n) (g x)"
  shows "keeps (fetches rd (m + n)) (then_op f g)"
proof -
  have "fetches rd (m + n) w (snd (then_op f g w))" for w
  proof -
    obtain r w1 where f: "f w = (r, w1)" by (rule prod.exhaust)
    have 1: "fetches rd m w w1" using keepsD [OF assms(1) f] .
    have 2: "fetches rd n w1 (snd (g x w1))" for x using assms(2) unfolding keeps_def by blast
    show ?thesis using f 1 2 by (cases r) (auto simp: then_op_def intro: fetches_trans fetches_mono)
  qed
  then show ?thesis by (simp add: keeps_def)
qed

lemma fetches_pure: "keeps (fetches rd n) (pure_op r)"
  by (simp add: keeps_def pure_op_def fetches_def)

lemma keeps_fetches_mono: "keeps (fetches rd m) f \<Longrightarrow> m \<le> n \<Longrightarrow> keeps (fetches rd n) f"
  unfolding keeps_def by (blast intro: fetches_mono)

definition offline :: "('v \<times> fetch_request list \<Rightarrow> 'x \<times> 'v \<times> fetch_request list) \<Rightarrow> bool" where
  "offline f \<longleftrightarrow> keeps (\<lambda>w w'. snd w' = snd w) f"

lemma offlineD: "offline f \<Longrightarrow> snd (snd (f w)) = snd w"
  unfolding offline_def keeps_def by blast

lemma offlineI: "(\<And>w. snd (snd (f w)) = snd w) \<Longrightarrow> offline f"
  unfolding offline_def keeps_def by blast

lemma offline_fetches: "offline f \<Longrightarrow> keeps (fetches rd n) f"
  by (auto simp: offline_def keeps_def fetches_def)

lemma check_addresses_public: "check_addresses rd as = Inr ip \<Longrightarrow> rd_global rd ip = Some True"
  by (auto simp: check_addresses_def is_public_ip_def Let_def filter_empty_conv split: list.splits if_splits)

lemma hop_fetches:
  assumes "rd_fetch rd = logged_fetch fetch" and "\<And>h. offline (rd_resolve rd h)" and "normalize_url rd t = Inr url"
  shows "keeps (fetches rd 1) (hop rd url)"
proof (cases "target_parts rd url")
  case (Inl e)
  then show ?thesis by (simp add: hop_def fetches_pure)
next
  case (Inr ht)
  obtain host target where ht: "ht = (host, target)" by (rule prod.exhaust)
  have fetch: "keeps (fetches rd 1) (then_op (pure_op (check_addresses rd as)) (\<lambda>ip. rd_fetch rd \<lparr>fq_ip = ip, fq_host = host, fq_target = target\<rparr>))" for as
  proof (cases "check_addresses rd as")
    case Inr': (Inr ip)
    have "vetted rd \<lparr>fq_ip = ip, fq_host = host, fq_target = target\<rparr>"
      using check_addresses_public [OF Inr'] assms(3) Inr ht by (auto simp: vetted_def)
    then show ?thesis unfolding Inr' assms(1) by (auto simp: keeps_def logged_fetch_def fetches_def split: prod.split)
  qed (simp add: fetches_pure)
  have "keeps (fetches rd (0 + 1)) (then_op (rd_resolve rd host) (\<lambda>as. then_op (pure_op (check_addresses rd as))
      (\<lambda>ip. rd_fetch rd \<lparr>fq_ip = ip, fq_host = host, fq_target = target\<rparr>)))"
    by (rule fetches_then [OF offline_fetches [OF assms(2)] fetch])
  then show ?thesis by (simp add: hop_def Inr ht)
qed

lemma follow_fetches:
  assumes "rd_fetch rd = logged_fetch fetch" and "\<And>h. offline (rd_resolve rd h)" and "normalize_url rd t = Inr url"
  shows "keeps (fetches rd (n + 1)) (follow rd n url)"
  using assms(3)
proof (induction n arbitrary: t url)
  case 0
  show ?case using fetches_then [OF hop_fetches [OF assms(1,2) 0] fetches_pure] by fastforce
next
  case (Suc n)
  have "keeps (fetches rd (n + 1)) (then_op (pure_op (next_url rd url r)) (\<lambda>url'. follow rd n url'))" for r
  proof (cases "next_url rd url r")
    case (Inr url')
    then obtain t' where "normalize_url rd t' = Inr url'" by (auto simp: next_url_def split: option.splits if_splits)
    with Inr Suc.IH show ?thesis by simp
  qed (simp add: fetches_pure)
  then have "keeps (fetches rd (1 + (n + 1))) (follow rd (Suc n) url)"
    unfolding follow.simps by (intro fetches_then hop_fetches [OF assms(1,2) Suc.prems]) (auto simp: fetches_pure)
  then show ?case by simp
qed

lemma accept_offline: "keeps (fetches rd 0) (accept_page rd url r)"
  by (auto simp: keeps_def accept_page_def ensure_def then_op_def pure_op_def read_op_def fetches_0 split: sum.splits)

lemma read_page_fetches:
  assumes "rd_fetch rd = logged_fetch fetch" and "\<And>h. offline (rd_resolve rd h)"
  shows "keeps (fetches rd (rd_max_redirects rd + 1)) (read_page rd url)"
proof (cases "normalize_url rd url")
  case (Inr start)
  have "keeps (fetches rd (rd_max_redirects rd + 1 + 0)) (then_op (follow rd (rd_max_redirects rd) start) (\<lambda>(final, r). accept_page rd final r))"
    by (intro fetches_then follow_fetches [OF assms Inr]) (auto simp: accept_offline split: prod.split)
  with Inr show ?thesis by (simp add: read_page_def)
qed (simp add: read_page_def fetches_pure)

lemma record_offline: "(\<And>e. offline (rd_audit rd e)) \<Longrightarrow> offline (record_read rd e)"
proof (rule offlineI)
  fix w
  assume "\<And>e. offline (rd_audit rd e)"
  from offlineD [OF this, of e w] show "snd (snd (record_read rd e w)) = snd w"
    by (auto simp: record_read_def try_op_def pure_op_def split: prod.split sum.split)
qed

lemma failed_offline:
  assumes "\<And>e. offline (rd_audit rd e)"
  shows "offline (failed_read rd event e)"
proof (rule offlineI)
  fix w
  have "snd (snd (then_op (record_read rd x) (\<lambda>_. pure_op q) w)) = snd w" for x and q :: "read_error + url_read_result"
    using offlineD [OF record_offline [OF assms], of x w] by (auto simp: then_op_def pure_op_def split: prod.split sum.split)
  then show "snd (snd (failed_read rd event e w)) = snd w" by (simp add: failed_read_def split: read_error.split)
qed

text \<open>
C9: Only public addresses are contacted. However the names resolve and wherever the server redirects, a read
sends at most \<open>max_redirects + 1\<close> requests; each goes to an address that is globally routable, and asks for
the host and path of a URL that passed the checks.
\<close>
theorem reader_contacts_public_addresses:
  assumes "rd_fetch rd = logged_fetch fetch" and "\<And>h. offline (rd_resolve rd h)" and "\<And>e. offline (rd_audit rd e)"
    and "read_url rd url owner epoch w = (r, w')"
  shows "\<exists>sent. snd w' = snd w @ sent \<and> length sent \<le> rd_max_redirects rd + 1
    \<and> (\<forall>q \<in> set sent. rd_global rd (fq_ip q) = Some True
        \<and> (\<exists>t v. normalize_url rd t = Inr v \<and> target_parts rd v = Inr (fq_host q, fq_target q)))"
proof -
  let ?n = "rd_max_redirects rd + 1"
  obtain a w1 where page: "read_page rd url w = (a, w1)" by (rule prod.exhaust)
  have 1: "fetches rd ?n w w1" using keepsD [OF read_page_fetches [OF assms(1,2)] page] .
  note rec = offlineD [OF record_offline [OF assms(3)]] and fail = offlineD [OF failed_offline [OF assms(3)]]
  have "snd w' = snd w1"
  proof (cases a)
    case (Inl e)
    with assms(4) page fail show ?thesis by (simp add: read_url_def Let_def try_op_def then_op_def) (metis snd_conv)
  next
    case (Inr p)
    obtain b w2 where b: "record_read rd (network_event rd owner epoch url ''allow'' ''success'' (timestamp rd w) (rd_iso rd (ur_retrieved p))) w1 = (b, w2)"
      by (rule prod.exhaust)
    have "snd w2 = snd w1" using rec b by (metis snd_conv)
    with assms(4) page Inr b fail show ?thesis
      by (cases b) (simp_all add: read_url_def Let_def try_op_def then_op_def pure_op_def, metis snd_conv)
  qed
  with 1 show ?thesis by (auto simp: fetches_def vetted_def)
qed

end
