(* ===== verification/Reader_Audit.thy ===== *)
theory Reader_Audit
  imports Url_Reader
begin

text \<open>
  The audit of the URL reader: an interface for the store of audit events, the theorem that every read
  leaves exactly one event in it, and both for the audit table of the program. At the end an example.
\<close>

section \<open>A store of audit events\<close>

text \<open>The row an event becomes, without its id.\<close>

definition audit_row :: "audit_event \<Rightarrow> security_audit" where
  "audit_row e = \<lparr>sa_id = 0, sa_owner = ae_owner e, sa_epoch = ae_epoch e, sa_event = ae_type e, sa_hash = ae_hash e,
     sa_capability = ae_capability e, sa_decision = ae_decision e, sa_outcome = ae_outcome e, sa_started = ae_started e,
     sa_finished = ae_finished e,
     sa_created = (case ae_created e of None \<Rightarrow> ae_started e | Some c \<Rightarrow> if c = [] then ae_started e else c)\<rparr>"

text \<open>What the outcome of a read says about its record.\<close>

fun decided :: "read_error + url_read_result \<Rightarrow> string \<times> string" where
  "decided (Inr _) = (''allow'', ''success'')"
| "decided (Inl (Url_Error code)) = (if code \<in> set blocked_codes then (''deny'', ''blocked'') else (''allow'', ''failed''))"
| "decided (Inl Crashed) = (''allow'', ''failed'')"

definition tells_of :: "pystr \<Rightarrow> int \<Rightarrow> int \<Rightarrow> (read_error + url_read_result) \<Rightarrow> security_audit \<Rightarrow> bool" where
  "tells_of hash owner epoch r row \<longleftrightarrow> sa_owner row = owner \<and> sa_epoch row = epoch \<and> sa_event row = u ''network_request''
     \<and> sa_capability row = u ''url_read'' \<and> sa_hash row = Some hash
     \<and> sa_decision row = u (fst (decided r)) \<and> sa_outcome row = u (snd (decided r))"

locale audit_sink =
  fixes store :: "audit_event \<Rightarrow> ('w, py_error, unit) action"
    and trail :: "'w \<Rightarrow> security_audit list"
  assumes recorded: "store e w = (Inr (), w') \<Longrightarrow> trail w' = trail w @ [audit_row e]"
    and refused: "store e w = (Inl x, w') \<Longrightarrow> trail w' = trail w"
begin

definition silent :: "('w \<Rightarrow> 'x \<times> 'w) \<Rightarrow> bool" where
  "silent f \<longleftrightarrow> keeps (\<lambda>w w'. trail w' = trail w) f"

lemma silent_preorder: "preorder (\<lambda>w w'. trail w' = trail w)"
  unfolding preorder_def by (auto intro!: reflpI transpI)

lemmas quiet_basic = keeps_pure [OF silent_preorder] keeps_read [OF silent_preorder] keeps_then [OF silent_preorder] keeps_try [OF silent_preorder]

lemma silentD: "silent f \<Longrightarrow> f w = (r, w') \<Longrightarrow> trail w' = trail w"
  unfolding silent_def by (rule keepsD)

lemma hop_silent:
  assumes "\<And>h. silent (rd_resolve rd h)" and "\<And>q. silent (rd_fetch rd q)"
  shows "silent (hop rd url)"
  unfolding hop_def silent_def using assms unfolding silent_def
  by (auto intro!: quiet_basic split: prod.split)

lemma follow_silent:
  assumes "\<And>h. silent (rd_resolve rd h)" and "\<And>q. silent (rd_fetch rd q)"
  shows "silent (follow rd n url)"
proof (induction n arbitrary: url)
  case 0
  show ?case using hop_silent [OF assms] unfolding silent_def by (auto intro!: quiet_basic)
next
  case (Suc n)
  then show ?case using hop_silent [OF assms] unfolding silent_def by (auto intro!: quiet_basic)
qed

lemma page_silent:
  assumes "\<And>h. silent (rd_resolve rd h)" and "\<And>q. silent (rd_fetch rd q)"
  shows "silent (read_page rd url)"
  using follow_silent [OF assms] unfolding silent_def read_page_def accept_page_def
  by (auto intro!: quiet_basic split: prod.split)

text \<open>The store refused an event about this read.\<close>

definition refuses :: "'w url_reader \<Rightarrow> pystr \<Rightarrow> int \<Rightarrow> int \<Rightarrow> pystr \<Rightarrow> bool" where
  "refuses rd url owner epoch st \<longleftrightarrow> (\<exists>d oc f w x w'. (d, oc) \<in> {(''allow'', ''success''), (''allow'', ''failed''), (''deny'', ''blocked'')}
     \<and> store (network_event rd owner epoch url d oc st f) w = (Inl x, w'))"

lemma refusesI: "store (network_event rd owner epoch url d oc st f) w = (Inl x, w') \<Longrightarrow>
    (d, oc) \<in> {(''allow'', ''success''), (''allow'', ''failed''), (''deny'', ''blocked'')} \<Longrightarrow> refuses rd url owner epoch st"
  unfolding refuses_def by blast

lemma failed_read_recorded:
  assumes "rd_audit rd = store" and "failed_read rd (\<lambda>d oc f. network_event rd owner epoch url d oc st f) e w = (r, w')"
    and "e \<noteq> Url_Error ''audit_unavailable''"
  shows "(trail w' = trail w \<and> r = Inl (Url_Error ''audit_unavailable'') \<and> refuses rd url owner epoch st)
    \<or> (\<exists>row. trail w' = trail w @ [row] \<and> tells_of (rd_url_sha rd url) owner epoch r row \<and> sa_started row = st)"
proof -
  have nf: "''network_failed'' \<notin> set blocked_codes" by (simp add: blocked_codes_def)
  show ?thesis
  proof (cases e)
    case (Url_Error code)
    let ?d = "decided (Inl e)"
    let ?ev = "network_event rd owner epoch url (fst ?d) (snd ?d) st (timestamp rd w)"
    obtain a w1 where a: "store ?ev w = (a, w1)" by (rule prod.exhaust)
    show ?thesis
    proof (cases a)
      case (Inl x)
      have "refuses rd url owner epoch st" by (rule refusesI [OF a [unfolded Inl]]) (simp add: Url_Error)
      with Inl a assms Url_Error refused [of ?ev w x w1] show ?thesis
        by (auto simp: failed_read_def then_op_def record_read_def try_op_def pure_op_def split: if_splits)
    next
      case (Inr x)
      with a assms Url_Error recorded [of ?ev w w1] show ?thesis
        by (auto simp: failed_read_def then_op_def record_read_def try_op_def pure_op_def tells_of_def audit_row_def network_event_def split: if_splits)
    qed
  next
    case Crashed
    let ?ev = "network_event rd owner epoch url ''allow'' ''failed'' st (timestamp rd w)"
    obtain a w1 where a: "store ?ev w = (a, w1)" by (rule prod.exhaust)
    show ?thesis
    proof (cases a)
      case (Inl x)
      have "refuses rd url owner epoch st" by (rule refusesI [OF a [unfolded Inl]]) simp
      with Inl a assms Crashed refused [of ?ev w x w1] show ?thesis
        by (auto simp: failed_read_def then_op_def record_read_def try_op_def pure_op_def)
    next
      case (Inr x)
      with a assms Crashed recorded [of ?ev w w1] nf show ?thesis
        by (auto simp: failed_read_def then_op_def record_read_def try_op_def pure_op_def tells_of_def audit_row_def network_event_def)
    qed
  qed
qed

lemma page_not_audit: "read_page rd url w \<noteq> (Inl (Url_Error ''audit_unavailable''), w')"
  if "\<And>h w w'. rd_resolve rd h w \<noteq> (Inl (Url_Error ''audit_unavailable''), w')"
    and "\<And>q w w'. rd_fetch rd q w \<noteq> (Inl (Url_Error ''audit_unavailable''), w')"
proof -
  have n: "normalize_url rd t \<noteq> Inl (Url_Error ''audit_unavailable'')" for t
    by (auto simp: normalize_url_def split_parts_def normal_host_def quote_def Let_def split: sum.splits option.splits if_splits prod.splits)
  have h: "hop rd t w \<noteq> (Inl (Url_Error ''audit_unavailable''), w')" for t w w'
    using that by (auto simp: hop_def then_op_Inl target_parts_def check_addresses_def Let_def split: sum.splits option.splits list.splits if_splits prod.splits)
  have f: "follow rd k t w \<noteq> (Inl (Url_Error ''audit_unavailable''), w')" for k t w w'
  proof (induction k arbitrary: t w)
    case 0
    show ?case using h by (auto simp: then_op_Inl split: if_splits)
  next
    case (Suc k)
    then show ?case using h n by (auto simp: then_op_Inl next_url_def split: if_splits option.splits)
  qed
  have a: "accept_page rd t q w \<noteq> (Inl (Url_Error ''audit_unavailable''), w')" for t q w w'
    by (auto simp: accept_page_def then_op_Inl ensure_def decode_body_def Let_def split: if_splits option.splits)
  show ?thesis using n f a by (auto simp: read_page_def then_op_Inl split: prod.splits)
qed

lemma read_recorded:
  assumes "rd_audit rd = store" and "\<And>h. silent (rd_resolve rd h)" and "\<And>q. silent (rd_fetch rd q)"
    and "\<And>h w w'. rd_resolve rd h w \<noteq> (Inl (Url_Error ''audit_unavailable''), w')"
    and "\<And>q w w'. rd_fetch rd q w \<noteq> (Inl (Url_Error ''audit_unavailable''), w')"
    and "read_url rd url owner epoch w = (r, w')"
  shows "(trail w' = trail w \<and> r = Inl (Url_Error ''audit_unavailable'') \<and> refuses rd url owner epoch (timestamp rd w))
    \<or> (\<exists>row. trail w' = trail w @ [row] \<and> tells_of (rd_url_sha rd url) owner epoch r row \<and> sa_started row = timestamp rd w)"
proof -
  obtain a w1 where page: "read_page rd url w = (a, w1)" by (rule prod.exhaust)
  have q: "trail w1 = trail w" using silentD [OF page_silent [OF assms(2,3)] page] .
  show ?thesis
  proof (cases a)
    case (Inl e)
    have "e \<noteq> Url_Error ''audit_unavailable''" using page_not_audit [OF assms(4,5)] page Inl by blast
    with assms(6) page Inl q failed_read_recorded [OF assms(1), of owner epoch url "timestamp rd w" e w1 r w'] show ?thesis
      by (simp add: read_url_def Let_def try_op_def then_op_def)
  next
    case (Inr p)
    let ?ev = "network_event rd owner epoch url ''allow'' ''success'' (timestamp rd w) (rd_iso rd (ur_retrieved p))"
    obtain b w2 where b: "store ?ev w1 = (b, w2)" by (rule prod.exhaust)
    show ?thesis
    proof (cases b)
      case (Inl x)
      have "refuses rd url owner epoch (timestamp rd w)" by (rule refusesI [OF b [unfolded Inl]]) simp
      with Inl assms(1,6) page Inr q b refused [of ?ev w1 x w2] show ?thesis
        by (simp add: read_url_def Let_def try_op_def then_op_def record_read_def pure_op_def failed_read_def)
    next
      case Inr': (Inr x)
      with assms(1,6) page Inr q b recorded [of ?ev w1 w2] show ?thesis
        by (auto simp: read_url_def Let_def try_op_def then_op_def record_read_def pure_op_def tells_of_def audit_row_def network_event_def)
    qed
  qed
qed

end

section \<open>The audit table\<close>

text \<open>The world of the program: the database and the network.\<close>

definition table_audit :: "audit_event \<Rightarrow> (db \<times> 'n, py_error, unit) action" where
  "table_audit e w = (case record_audit e (fst w) of (r, s) \<Rightarrow> (r, s, snd w))"

definition audit_trail :: "db \<times> 'n \<Rightarrow> security_audit list" where
  "audit_trail w = map (\<lambda>r. r\<lparr>sa_id := 0\<rparr>) (security_audits (fst w))"

lemma record_audit_row: "record_audit e s = (if audit_refused (audit_row e) then (Inl (IntegrityError ''CHECK constraint failed''), s)
    else (Inr (), s\<lparr>security_audits := security_audits s @ [(audit_row e)\<lparr>sa_id := next_rowid sa_id (security_audits s)\<rparr>]\<rparr>))"
  by (simp add: record_audit_def insert_audit_def transaction_def guardE_def audit_row_def [symmetric])

interpretation audit_table: audit_sink "table_audit :: audit_event \<Rightarrow> (db \<times> 'n, py_error, unit) action" audit_trail
proof
  fix e and w w' :: "db \<times> 'n"
  assume "table_audit e w = (Inr (), w')"
  then show "audit_trail w' = audit_trail w @ [audit_row e]"
    by (auto simp: table_audit_def record_audit_row audit_trail_def audit_row_def split: if_splits)
next
  fix e x and w w' :: "db \<times> 'n"
  assume "table_audit e w = (Inl x, w')"
  then show "audit_trail w' = audit_trail w"
    by (auto simp: table_audit_def record_audit_row audit_trail_def split: if_splits)
qed

text \<open>The table takes every event of the reader.\<close>

lemma network_row_accepted:
  assumes "0 < epoch" and "length (rd_url_sha rd url) = 64"
    and "(d, oc) \<in> {(''allow'', ''success''), (''allow'', ''failed''), (''deny'', ''blocked'')}"
  shows "\<not> audit_refused (audit_row (network_event rd owner epoch url d oc st f))"
proof -
  have c: "sql_nonblank (u ''url_read'') \<and> length (u ''url_read'') \<le> 100" by (simp add: sql_nonblank_def u_def)
  show ?thesis using assms c by (auto simp: audit_refused_def audit_row_def network_event_def)
qed

lemma table_never_refuses:
  assumes "0 < epoch" and "length (rd_url_sha rd url) = 64"
  shows "\<not> audit_table.refuses rd url owner epoch st"
  unfolding audit_table.refuses_def
proof (rule notI, elim exE conjE)
  fix d oc f w x w'
  assume *: "(d, oc) \<in> {(''allow'', ''success''), (''allow'', ''failed''), (''deny'', ''blocked'')}"
    "table_audit (network_event rd owner epoch url d oc st f) w = (Inl x, w')"
  from *(2) network_row_accepted [where st = st and f = f and owner = owner, OF assms *(1)]
  show False by (auto simp: table_audit_def record_audit_row)
qed

text \<open>Operations of the network leave the database alone.\<close>

definition keeps_database :: "(db \<times> 'n \<Rightarrow> 'x \<times> db \<times> 'n) \<Rightarrow> bool" where
  "keeps_database f \<longleftrightarrow> keeps (\<lambda>w w'. fst w' = fst w) f"

lemma keeps_database_silent: "keeps_database f \<Longrightarrow> audit_table.silent f"
  unfolding keeps_database_def audit_table.silent_def keeps_def audit_trail_def by simp

text \<open>
C10: Every read leaves exactly one row in the audit table, whatever happens on the way, and the row tells the
truth: allowed and successful when a page is returned, denied and blocked when the policy refused it,
allowed and failed for every other failure, with the owner, the epoch, the hash of the URL and the time
of the start. For an epoch and a hash the table accepts, a read never ends for want of a record.
\<close>
theorem every_read_is_recorded:
  fixes rd :: "(db \<times> 'n) url_reader"
  assumes "rd_audit rd = table_audit" and "\<And>h. keeps_database (rd_resolve rd h)" and "\<And>q. keeps_database (rd_fetch rd q)"
    and "\<And>h w w'. rd_resolve rd h w \<noteq> (Inl (Url_Error ''audit_unavailable''), w')"
    and "\<And>q w w'. rd_fetch rd q w \<noteq> (Inl (Url_Error ''audit_unavailable''), w')"
    and "0 < epoch" and "length (rd_url_sha rd url) = 64" and "read_url rd url owner epoch w = (r, w')"
  shows "\<exists>row. audit_trail w' = audit_trail w @ [row] \<and> tells_of (rd_url_sha rd url) owner epoch r row
    \<and> sa_started row = timestamp rd w"
proof -
  have "\<not> audit_table.refuses rd url owner epoch (timestamp rd w)" by (rule table_never_refuses [OF assms(6,7)])
  moreover note audit_table.read_recorded [OF assms(1) keeps_database_silent [OF assms(2)] keeps_database_silent [OF assms(3)] assms(4,5,8)]
  ultimately show ?thesis by (simp only: simp_thms)
qed

section \<open>An example\<close>

text \<open>A name that resolves to a private address.\<close>

definition demo_reader :: "('w \<Rightarrow> py_datetime) \<Rightarrow> (audit_event \<Rightarrow> ('w, py_error, unit) action) \<Rightarrow> (fetch_request \<Rightarrow> ('w, fetch_response) reading) \<Rightarrow> 'w url_reader" where
  "demo_reader now audit fetch = \<lparr>rd_split = demo_split, rd_join = (\<lambda>_ t. t), rd_idna = Some, rd_casefold = (\<lambda>t. t),
     rd_global = (\<lambda>a. if a = [49] then Some True else if a = [50] then Some False else None), rd_sha = (\<lambda>_. replicate 64 97),
     rd_url_sha = (\<lambda>_. replicate 64 97), rd_decode = (\<lambda>_ b. Some b), rd_iso = (\<lambda>_. [84]), rd_now = now,
     rd_resolve = (\<lambda>_. pure_op (Inr [[49], [50]])), rd_fetch = fetch, rd_audit = audit, rd_max_body = 100, rd_max_redirects = 3\<rparr>"

lemma demo_reader_fields [simp]:
  "rd_fetch (demo_reader now audit fetch) = fetch" "rd_audit (demo_reader now audit fetch) = audit"
  "rd_resolve (demo_reader now audit fetch) h = pure_op (Inr [[49], [50]])" "rd_url_sha (demo_reader now audit fetch) t = replicate 64 97"
  "rd_max_redirects (demo_reader now audit fetch) = 3"
  by (simp_all add: demo_reader_def)

theorem normal_url_is_visible_witness:
  "visible_ascii (u ''https://X/'') \<and> normalize_url (demo_reader (\<lambda>_::unit. Aware 0) (\<lambda>_. pure_op (Inr ())) (\<lambda>_. pure_op (Inl Crashed))) [97] = Inr (u ''https://X/'')"
proof -
  let ?rd = "(demo_reader (\<lambda>_::unit. Aware 0) (\<lambda>_. pure_op (Inr ())) (\<lambda>_. pure_op (Inl Crashed)))\<lparr>rd_idna := \<lambda>_. Some [88]\<rparr>"
  have q: "quote safe [] = Inr []" "quote path_safe [47] = Inr [47]" for safe
    by (simp_all add: quote_def is_surrogate_def utf8_bytes_def quote_byte_def always_safe_def path_safe_def u_def)
  have n: "normalize_url (demo_reader (\<lambda>_::unit. Aware 0) (\<lambda>_. pure_op (Inr ())) (\<lambda>_. pure_op (Inl Crashed))) [97] = Inr (u ''https://X/'')"
    by (simp add: normalize_url_def demo_reader_def split_parts_def demo_split_def normal_host_def private_hostnames_def
      is_public_hostname_def is_blank_def is_space_def assemble_def q u_def)
  have n': "normalize_url ?rd [97] = Inr (u ''https://X/'')"
    by (simp add: normalize_url_def demo_reader_def split_parts_def demo_split_def normal_host_def private_hostnames_def
      is_public_hostname_def is_blank_def is_space_def assemble_def q u_def)
  have "ascii_hosts ?rd" by (simp add: ascii_hosts_def demo_reader_def demo_split_def code_points_def)
  from normal_url_is_visible [OF n' this] n show ?thesis by blast
qed

theorem reader_contacts_public_addresses_witness:
  "\<exists>sent. snd (snd (read_url (demo_reader (\<lambda>_. Aware 0) (\<lambda>_. pure_op (Inr ())) (logged_fetch (\<lambda>_. pure_op (Inl Crashed)))) [97] 7 1 ((), []))) = sent
     \<and> length sent \<le> 4"
proof -
  let ?rd = "demo_reader (\<lambda>_. Aware 0) (\<lambda>_. pure_op (Inr ())) (logged_fetch (\<lambda>_. pure_op (Inl Crashed))) :: (unit \<times> fetch_request list) url_reader"
  obtain r w' where r: "read_url ?rd [97] 7 1 ((), []) = (r, w')" by (rule prod.exhaust)
  have "offline (rd_resolve ?rd h)" "offline (rd_audit ?rd e)" for h e by (rule offlineI, simp add: pure_op_def)+
  from reader_contacts_public_addresses [OF _ this r, of "\<lambda>_. pure_op (Inl Crashed)"] r show ?thesis by auto
qed

theorem every_read_is_recorded_witness:
  "\<exists>row. audit_trail (snd (read_url (demo_reader (\<lambda>_. Aware 0) table_audit (\<lambda>_. pure_op (Inl Crashed))) [97] 7 1 (empty_db, ()))) = [row]"
proof -
  let ?rd = "demo_reader (\<lambda>_. Aware 0) table_audit (\<lambda>_. pure_op (Inl Crashed)) :: (db \<times> unit) url_reader"
  obtain r w' where r: "read_url ?rd [97] 7 1 (empty_db, ()) = (r, w')" by (rule prod.exhaust)
  have "keeps_database (rd_resolve ?rd h)" "keeps_database (rd_fetch ?rd q)" for h q by (simp_all add: keeps_database_def keeps_def pure_op_def)
  moreover have "audit_trail (empty_db, ()) = []" by (simp add: audit_trail_def empty_db_def)
  ultimately show ?thesis using every_read_is_recorded [of ?rd, OF _ _ _ _ _ _ _ r] r by auto
qed

end
