(* ===== verification/Resources.thy ===== *)
theory Resources
  imports Prelude
begin

text \<open>
  Python's resource blocks over an operation that may fail: \<open>with open() as h: body\<close>, \<open>try: .. finally: ..\<close>
  and \<open>contextlib.ExitStack\<close>. The resources of the library are taken not to suppress an exception.
\<close>

section \<open>Blocks\<close>

definition bracket :: "('w, 'e, 'h) action \<Rightarrow> ('h \<Rightarrow> ('w, 'e, unit) action) \<Rightarrow> ('h \<Rightarrow> ('w, 'e, 'a) action) \<Rightarrow> ('w, 'e, 'a) action" where
  "bracket enter leave body = then_op enter (\<lambda>h w. case body h w of (r, w1) \<Rightarrow>
     (case leave h w1 of (Inl e, w2) \<Rightarrow> (Inl e, w2) | (Inr _, w2) \<Rightarrow> (r, w2)))"

definition finally_op :: "('w, 'e, 'a) action \<Rightarrow> ('w, 'e, unit) action \<Rightarrow> ('w, 'e, 'a) action" where
  "finally_op body final = bracket (pure_op (Inr ())) (\<lambda>_. final) (\<lambda>_. body)"

lemma bracket_cases:
  "bracket enter leave body w = (r, w') \<longleftrightarrow>
     (\<exists>e. enter w = (Inl e, w') \<and> r = Inl e)
     \<or> (\<exists>h w1 q w2 l. enter w = (Inr h, w1) \<and> body h w1 = (q, w2) \<and> leave h w2 = (l, w')
          \<and> r = (case l of Inl e \<Rightarrow> Inl e | Inr _ \<Rightarrow> q))"
  by (auto simp: bracket_def then_op_def split: prod.splits sum.splits)

lemma finally_cases:
  "finally_op body final w = (r, w') \<longleftrightarrow>
     (\<exists>q w1 l. body w = (q, w1) \<and> final w1 = (l, w') \<and> r = (case l of Inl e \<Rightarrow> Inl e | Inr _ \<Rightarrow> q))"
  by (auto simp: finally_op_def bracket_cases)

lemma finally_Inr: "finally_op body final w = (Inr x, w') \<longleftrightarrow> (\<exists>w1. body w = (Inr x, w1) \<and> final w1 = (Inr (), w'))"
  by (auto simp: finally_op_def bracket_def then_op_def split: prod.splits sum.splits)

lemma keeps_bracket:
  assumes "preorder R" and "keeps R enter" and "\<And>h. keeps R (leave h)" and "\<And>h. keeps R (body h)"
  shows "keeps R (bracket enter leave body)"
  unfolding keeps_def
proof
  fix w
  obtain r w' where b: "bracket enter leave body w = (r, w')" by (rule prod.exhaust)
  have "R w w'"
    using b unfolding bracket_cases
    by (auto intro: keepsD [OF assms(2)] preorder_trans [OF assms(1)] dest!: keepsD [OF assms(2)] keepsD [OF assms(3)] keepsD [OF assms(4)])
  with b show "R w (snd (bracket enter leave body w))" by simp
qed

lemma keeps_finally: "preorder R \<Longrightarrow> keeps R body \<Longrightarrow> keeps R final \<Longrightarrow> keeps R (finally_op body final)"
  unfolding finally_op_def by (intro keeps_bracket keeps_pure)

section \<open>The exit stack\<close>

text \<open>
  The block runs over the world and the stack of what it registered, the last one first. What is left on
  the stack at the end is closed, every one, whatever the others raise; the last exception wins.
\<close>

fun unwind :: "('h \<Rightarrow> ('w, 'e, unit) action) \<Rightarrow> 'h list \<Rightarrow> 'e + 'a \<Rightarrow> 'w \<Rightarrow> ('e + 'a) \<times> 'w" where
  "unwind close [] r w = (r, w)"
| "unwind close (h # hs) r w = (case close h w of
     (Inl e, w') \<Rightarrow> unwind close hs (Inl e) w' | (Inr _, w') \<Rightarrow> unwind close hs r w')"

definition exit_stack :: "('h \<Rightarrow> ('w, 'e, unit) action) \<Rightarrow> ('w \<times> 'h list, 'e, 'a) action \<Rightarrow> ('w, 'e, 'a) action" where
  "exit_stack close body w = (case body (w, []) of (r, (w1, hs)) \<Rightarrow> unwind close hs r w1)"

definition on_fst :: "('w, 'e, 'a) action \<Rightarrow> ('w \<times> 'x, 'e, 'a) action" where
  "on_fst f s = (case f (fst s) of (r, w) \<Rightarrow> (r, (w, snd s)))"

text \<open>\<open>r = open(); cleanup.callback(r.close)\<close>.\<close>

definition open_on_stack :: "('w, 'e, 'h) action \<Rightarrow> ('w \<times> 'h list, 'e, 'h) action" where
  "open_on_stack f = then_op (on_fst f) (\<lambda>h s. (Inr h, (fst s, h # snd s)))"

fun open_each :: "('w, 'e, 'h) action list \<Rightarrow> ('w \<times> 'h list, 'e, 'h list) action" where
  "open_each [] = pure_op (Inr [])"
| "open_each (f # fs) = then_op (open_on_stack f) (\<lambda>h. then_op (open_each fs) (\<lambda>hs. pure_op (Inr (h # hs))))"

definition pop_all :: "('w \<times> 'h list, 'e, unit) action" where
  "pop_all s = (Inr (), (fst s, []))"

text \<open>\<open>h1.close(); h2.close(); ..\<close>: an exception leaves the rest open.\<close>

fun close_each :: "('h \<Rightarrow> ('w, 'e, unit) action) \<Rightarrow> 'h list \<Rightarrow> ('w, 'e, unit) action" where
  "close_each close [] = pure_op (Inr ())"
| "close_each close (h # hs) = then_op (close h) (\<lambda>_. close_each close hs)"

section \<open>Nothing stays open\<close>

text \<open>
  Any world with a trail of what was opened and closed: opening appends one \<open>Inl\<close> if it succeeds,
  closing one \<open>Inr\<close> in any case, and every other operation nothing.
\<close>

locale tracked =
  fixes trail :: "'w \<Rightarrow> ('h + 'h) list"
    and close :: "'h \<Rightarrow> ('w, 'e, unit) action"
  assumes closed_once: "close h w = (r, w') \<Longrightarrow> trail w' = trail w @ [Inr h]"
begin

definition opens :: "('w, 'e, 'h) action \<Rightarrow> bool" where
  "opens f \<longleftrightarrow> (\<forall>w r w'. f w = (r, w') \<longrightarrow> trail w' = trail w @ (case r of Inr h \<Rightarrow> [Inl h] | Inl _ \<Rightarrow> []))"

definition silent :: "('w, 'e, 'a) action \<Rightarrow> bool" where
  "silent f \<longleftrightarrow> (\<forall>w. trail (snd (f w)) = trail w)"

text \<open>What the block has registered is what it opened.\<close>

definition books :: "'w \<times> 'h list \<Rightarrow> 'w \<times> 'h list \<Rightarrow> bool" where
  "books s s' \<longleftrightarrow> (\<exists>hs. trail (fst s') = trail (fst s) @ map Inl hs \<and> snd s' = rev hs @ snd s)"

lemma preorder_books: "preorder books"
  unfolding preorder_def
proof
  show "reflp books" by (rule reflpI) (simp add: books_def)
  show "transp books"
  proof (rule transpI)
    fix s1 s2 s3 assume "books s1 s2" and "books s2 s3"
    then obtain hs1 hs2 where
      "trail (fst s2) = trail (fst s1) @ map Inl hs1" "snd s2 = rev hs1 @ snd s1"
      "trail (fst s3) = trail (fst s2) @ map Inl hs2" "snd s3 = rev hs2 @ snd s2"
      unfolding books_def by blast
    then show "books s1 s3" unfolding books_def by (intro exI [of _ "hs1 @ hs2"]) simp
  qed
qed

lemma books_silent: "silent f \<Longrightarrow> keeps books (on_fst f)"
  by (auto simp: keeps_def silent_def on_fst_def books_def split: prod.split) (metis snd_conv)

lemma books_open: "opens f \<Longrightarrow> keeps books (open_on_stack f)"
  unfolding keeps_def
proof
  fix s :: "'w \<times> 'h list" assume f: "opens f"
  obtain r w where r: "f (fst s) = (r, w)" by (rule prod.exhaust)
  with f have t: "trail w = trail (fst s) @ (case r of Inr h \<Rightarrow> [Inl h] | Inl _ \<Rightarrow> [])" by (simp add: opens_def)
  show "books s (snd (open_on_stack f s))"
  proof (cases r)
    case (Inl e)
    with r t show ?thesis by (simp add: open_on_stack_def then_op_def on_fst_def books_def)
  next
    case (Inr h)
    with r t show ?thesis
      unfolding books_def by (intro exI [of _ "[h]"]) (simp add: open_on_stack_def then_op_def on_fst_def)
  qed
qed

lemma books_open_each: "(\<And>f. f \<in> set fs \<Longrightarrow> opens f) \<Longrightarrow> keeps books (open_each fs)"
  by (induction fs) (auto intro!: keeps_then keeps_pure preorder_books books_open)

lemma open_each_Inr:
  "(\<And>f. f \<in> set fs \<Longrightarrow> opens f) \<Longrightarrow> open_each fs s = (Inr hs, s') \<Longrightarrow>
     trail (fst s') = trail (fst s) @ map Inl hs \<and> snd s' = rev hs @ snd s \<and> length hs = length fs"
proof (induction fs arbitrary: hs s s')
  case (Cons f fs)
  from Cons.prems(2) obtain h s1 gs where
    a: "open_on_stack f s = (Inr h, s1)" "open_each fs s1 = (Inr gs, s')" "hs = h # gs"
    by (auto simp: then_op_Inr)
  from a(1) obtain w where w: "f (fst s) = (Inr h, w)" "s1 = (w, h # snd s)"
    by (auto simp: open_on_stack_def on_fst_def then_op_def split: prod.splits sum.splits)
  have "trail w = trail (fst s) @ [Inl h]" using Cons.prems(1) [of f] w(1) by (force simp: opens_def)
  with Cons.IH [OF _ a(2)] Cons.prems(1) a(3) w show ?case by auto
qed simp

lemma unwind_closes: "unwind close hs r w = (q, w') \<Longrightarrow> trail w' = trail w @ map Inr hs"
proof (induction hs arbitrary: r w)
  case (Cons h hs)
  obtain l w1 where c: "close h w = (l, w1)" by (rule prod.exhaust)
  with Cons.prems have "\<exists>r'. unwind close hs r' w1 = (q, w')" by (cases l) auto
  with Cons.IH closed_once [OF c] show ?case by auto
qed simp

lemma unwind_failed: "unwind close hs (Inl e) w = (q, w') \<Longrightarrow> \<exists>e'. q = Inl e'"
proof (induction hs arbitrary: e w)
  case (Cons h hs)
  then show ?case by (auto split: prod.splits sum.splits)
qed auto

text \<open>A block that books what it opens closes it all, in the reverse order, unless it popped the stack.\<close>

lemma exit_stack_closes:
  assumes "keeps books body" and "exit_stack close body w = (q, w')"
  obtains hs where "trail w' = trail w @ map Inl hs @ map Inr (rev hs)"
proof -
  obtain r w1 ks where b: "body (w, []) = (r, (w1, ks))" by (metis prod.exhaust)
  then have "books (w, []) (w1, ks)" using assms(1) by (metis keepsD)
  then obtain hs where hs: "trail w1 = trail w @ map Inl hs" "ks = rev hs" by (auto simp: books_def)
  moreover have "unwind close ks r w1 = (q, w')" using assms(2) b by (simp add: exit_stack_def)
  ultimately show thesis using that unwind_closes by (metis append.assoc)
qed

lemma exit_stack_hands_over:
  assumes "keeps books body" and "exit_stack close (then_op body (\<lambda>x. then_op pop_all (\<lambda>_. pure_op (Inr x)))) w = (q, w')"
  obtains (failed) e hs where "q = Inl e" "trail w' = trail w @ map Inl hs @ map Inr (rev hs)"
  | (handed) x hs s where "q = Inr x" "body (w, []) = (Inr x, s)" "trail w' = trail w @ map Inl hs" "fst s = w'" "snd s = rev hs"
proof -
  obtain r w1 ks where b: "body (w, []) = (r, (w1, ks))" by (metis prod.exhaust)
  then have "books (w, []) (w1, ks)" using assms(1) by (metis keepsD)
  then obtain hs where hs: "trail w1 = trail w @ map Inl hs" "ks = rev hs" by (auto simp: books_def)
  show thesis
  proof (cases r)
    case (Inl e)
    then have q: "unwind close ks (Inl e) w1 = (q, w')" using assms(2) b by (simp add: exit_stack_def then_op_def)
    then obtain e' where "q = Inl e'" using unwind_failed by blast
    with failed unwind_closes [OF q] hs show thesis by (metis append.assoc)
  next
    case (Inr x)
    then have "q = Inr x" "w' = w1" using assms(2) b by (simp_all add: exit_stack_def then_op_def pop_all_def pure_op_def)
    with handed b hs Inr show thesis by simp
  qed
qed

lemma close_each_closes:
  assumes "close_each close hs w = (Inr x, w')"
  shows "trail w' = trail w @ map Inr hs"
  using assms
proof (induction hs arbitrary: w)
  case (Cons h hs)
  then obtain w1 where c: "close h w = (Inr (), w1)" "close_each close hs w1 = (Inr x, w')" by (auto simp: then_op_Inr)
  with Cons.IH closed_once [OF c(1)] show ?case by simp
qed simp

end

end
