(* ===== verification/OAuth.thy ===== *)
theory OAuth
  imports Provider Resources
begin

text \<open>
  OAuth for the model provider: the refresh coordinator and the refresh client of \<open>xai_provider.py\<close>, the device
  authorization of \<open>oauth_credentials.py\<close> and the format in which its stores keep a token. Stores, locks, HTTP,
  clock and sleeping act on a world, a type variable; \<open>json\<close>, ISO dates and the conversion of seconds to a
  \<open>timedelta\<close> are arguments.
\<close>

section \<open>Tokens\<close>

record token_state =
  ts_access :: pystr
  ts_refresh :: pystr
  ts_expires :: py_datetime

record access_token =
  ac_value :: pystr
  ac_expires :: int

definition unavailable :: "string \<Rightarrow> provider_error" where
  "unavailable why = Credential_Unavailable why"

definition aware :: "string \<Rightarrow> py_datetime \<Rightarrow> provider_error + int" where
  "aware why t = (case t of Aware n \<Rightarrow> Inr n | Naive _ \<Rightarrow> Inl (unavailable why))"

text \<open>\<open>with lock: body\<close>: the lock is left however the body ends; an error of leaving wins.\<close>

definition with_lock :: "('w, unit) call \<Rightarrow> ('w, unit) call \<Rightarrow> ('w, 'a) call \<Rightarrow> ('w, 'a) call" where
  "with_lock enter leave body = bracket enter (\<lambda>_. leave) (\<lambda>_. body)"

section \<open>The coordinator\<close>

record 'w refresher =
  rf_enter :: "('w, unit) call"
  rf_leave :: "('w, unit) call"
  rf_load :: "('w, token_state option) call"
  rf_save :: "token_state \<Rightarrow> ('w, unit) call"
  rf_refresh :: "token_state \<Rightarrow> ('w, token_state) call"
  rf_now :: "'w \<Rightarrow> py_datetime"
  rf_skew :: int

definition check_skew :: "int \<Rightarrow> int result" where
  "check_skew skew = guardE (skew < 0) (ValueError ''OAuth refresh skew cannot be negative'') (Inr skew)"

definition load_state :: "'w refresher \<Rightarrow> ('w, token_state) call" where
  "load_state rf = try_op (rf_load rf) (\<lambda>_. pure_op (Inl (unavailable ''OAuth credential store could not load state'')))
     (\<lambda>s. pure_op (case s of None \<Rightarrow> Inl (unavailable ''OAuth credential state is unavailable'') | Some t \<Rightarrow> Inr t))"

definition save_state :: "'w refresher \<Rightarrow> token_state \<Rightarrow> ('w, unit) call" where
  "save_state rf t = try_op (rf_save rf t) (\<lambda>_. pure_op (Inl (unavailable ''OAuth credential state could not be saved''))) (\<lambda>_. pure_op (Inr ()))"

text \<open>The expiry of a valid state.\<close>

definition valid_state :: "token_state \<Rightarrow> provider_error + int" where
  "valid_state t = (if is_blank (ts_access t) then Inl (unavailable ''OAuth access token is empty'')
     else aware ''OAuth token expiry must include a timezone'' (ts_expires t))"

fun passes_through :: "provider_error \<Rightarrow> bool" where
  "passes_through (Credential_Unavailable _) = True"
| "passes_through (Request_Failed _) = True"
| "passes_through (Entitlement_Denied _) = True"
| "passes_through _ = False"

definition ask_refresh :: "'w refresher \<Rightarrow> token_state \<Rightarrow> ('w, token_state) call" where
  "ask_refresh rf t = try_op (rf_refresh rf t)
     (\<lambda>e. pure_op (Inl (if passes_through e then e else unavailable ''OAuth token refresh failed''))) (\<lambda>x. pure_op (Inr x))"

definition token_of :: "token_state \<Rightarrow> int \<Rightarrow> access_token" where
  "token_of t expires = \<lparr>ac_value = ts_access t, ac_expires = expires\<rparr>"

definition renew :: "'w refresher \<Rightarrow> int \<Rightarrow> token_state \<Rightarrow> ('w, access_token) call" where
  "renew rf now t =
     then_op (demand (\<not> is_blank (ts_refresh t)) (unavailable ''OAuth refresh token is unavailable'')) (\<lambda>_.
     then_op (ask_refresh rf t) (\<lambda>new.
     then_op (pure_op (valid_state new)) (\<lambda>expires.
     then_op (demand (now < expires) (unavailable ''OAuth refresh returned an expired token'')) (\<lambda>_.
     then_op (save_state rf new) (\<lambda>_. pure_op (Inr (token_of new expires)))))))"

definition current_token :: "'w refresher \<Rightarrow> ('w, access_token) call" where
  "current_token rf =
     then_op (load_state rf) (\<lambda>t.
     then_op (read_op (\<lambda>w. aware ''OAuth clock must include a timezone'' (rf_now rf w))) (\<lambda>now.
     then_op (pure_op (valid_state t)) (\<lambda>expires.
     then_op (pure_op (case datetime_add now (rf_skew rf) of Inl _ \<Rightarrow> Inl (Other_Error ''OverflowError'') | Inr x \<Rightarrow> Inr x)) (\<lambda>limit.
       if limit < expires then pure_op (Inr (token_of t expires)) else renew rf now t))))"

definition get_access_token :: "'w refresher \<Rightarrow> ('w, access_token) call" where
  "get_access_token rf = with_lock (rf_enter rf) (rf_leave rf) (current_token rf)"

definition oauth_source :: "'w refresher \<Rightarrow> pystr \<Rightarrow> ('w, bearer) call" where
  "oauth_source rf base = then_op (get_access_token rf) (\<lambda>t.
     pure_op (Inr \<lparr>be_token = ac_value t, be_expires = Some (ac_expires t), be_base = base, be_source = u ''xai_oauth''\<rparr>))"

section \<open>Answers of the token endpoint\<close>

text \<open>
  The errors of the OAuth endpoints are built without the body and the headers, which may hold secrets. An answer
  that is no JSON raises its error \<open>from\<close> the \<open>JSONDecodeError\<close>, which holds the body.
\<close>

definition bare_failure :: "int \<Rightarrow> pystr option \<Rightarrow> request_failure" where
  "bare_failure status code = \<lparr>rf_status = Some status, rf_code = code, rf_body = [], rf_headers = [], rf_cause = None\<rparr>"

definition oauth_body :: "(pystr \<Rightarrow> pyval option) \<Rightarrow> http_response \<Rightarrow> provider_error + (pystr \<times> pyval) list" where
  "oauth_body loads r = (case loads (hr_body r) of
       Some (PDict d) \<Rightarrow> Inr d
     | Some _ \<Rightarrow> Inl (Request_Failed (bare_failure (hr_status r) (Some (u ''invalid_json''))))
     | None \<Rightarrow> Inl (Request_Failed ((bare_failure (hr_status r) (Some (u ''invalid_json'')))\<lparr>rf_cause := Some (hr_body r)\<rparr>)))"

definition oauth_code :: "(pystr \<times> pyval) list \<Rightarrow> pystr option" where
  "oauth_code body = (case dict_get body (u ''error'') PNone of
       PDict d \<Rightarrow> string_value (dict_get d (u ''code'') PNone) | v \<Rightarrow> string_value v)"

definition succeeded :: "http_response \<Rightarrow> bool" where
  "succeeded r \<longleftrightarrow> 200 \<le> hr_status r \<and> hr_status r < 300"

definition text_field :: "(pystr \<times> pyval) list \<Rightarrow> string \<Rightarrow> pyval \<Rightarrow> string \<Rightarrow> provider_error + pystr" where
  "text_field body key dflt why = (case dict_get body (u key) dflt of
       PStr t \<Rightarrow> if is_blank t then Inl (unavailable why) else Inr t
     | _ \<Rightarrow> Inl (unavailable why))"

text \<open>
  \<open>timedelta(seconds=float(v))\<close> in microseconds is \<open>delta v\<close>, \<open>None\<close> when it raises (a number out of range,
  an infinity or NaN).
\<close>

definition expiry_after :: "(pyval \<Rightarrow> int option) \<Rightarrow> int \<Rightarrow> pyval \<Rightarrow> provider_error + int" where
  "expiry_after delta now v = (case delta v of
       None \<Rightarrow> Inl (Other_Error ''OverflowError'')
     | Some d \<Rightarrow> (case datetime_add now d of Inl _ \<Rightarrow> Inl (Other_Error ''OverflowError'') | Inr t \<Rightarrow> Inr t))"

fun not_positive :: "pyval \<Rightarrow> bool" where
  "not_positive (PInt n) = (n \<le> 0)"
| "not_positive (PFloat (Some (m, _))) = (m \<le> 0)"
| "not_positive (PFloat None) = False"
| "not_positive _ = True"

section \<open>The refresh client\<close>

record 'w oauth_http =
  oh_client :: pystr
  oh_loads :: "pystr \<Rightarrow> pyval option"
  oh_delta :: "pyval \<Rightarrow> int option"
  oh_now :: "'w \<Rightarrow> py_datetime"
  oh_post :: "pystr \<Rightarrow> (pystr \<times> pystr) list \<Rightarrow> (pystr \<times> pystr) list \<Rightarrow> ('w, http_response) call"
  oh_token_url :: pystr
  oh_device_url :: pystr
  oh_scopes :: "pystr list"
  oh_split :: url_splitter

definition form_headers :: "(pystr \<times> pystr) list" where
  "form_headers = [(u ''Accept'', u ''application/json''), (u ''Content-Type'', u ''application/x-www-form-urlencoded'')]"

definition check_refresh_client :: "'w oauth_http \<Rightarrow> 'w oauth_http result" where
  "check_refresh_client oh = guardE (is_blank (oh_client oh)) (ValueError ''OAuth client ID cannot be empty'')
     (guardE (\<not> allowed_target (oh_split oh) [u ''auth.x.ai''] False (oh_token_url oh))
       (ValueError ''OAuth token target is not an allowed HTTPS host'') (Inr oh))"

definition refreshed_state :: "'w oauth_http \<Rightarrow> token_state \<Rightarrow> (pystr \<times> pyval) list \<Rightarrow> ('w, token_state) call" where
  "refreshed_state oh t body =
     then_op (pure_op (text_field body ''access_token'' PNone ''OAuth refresh returned no access token'')) (\<lambda>access.
     then_op (pure_op (text_field body ''refresh_token'' (PStr (ts_refresh t)) ''OAuth refresh returned no refresh token'')) (\<lambda>refresh.
     then_op (demand (\<not> not_positive (dict_get body (u ''expires_in'') PNone)) (unavailable ''OAuth refresh returned invalid expiry'')) (\<lambda>_.
     then_op (read_op (\<lambda>w. aware ''OAuth clock must include a timezone'' (oh_now oh w))) (\<lambda>now.
     then_op (pure_op (expiry_after (oh_delta oh) now (dict_get body (u ''expires_in'') PNone))) (\<lambda>expires.
       pure_op (Inr \<lparr>ts_access = access, ts_refresh = refresh, ts_expires = Aware expires\<rparr>))))))"

definition refresh_token :: "'w oauth_http \<Rightarrow> (request_failure \<Rightarrow> bool) option \<Rightarrow> token_state \<Rightarrow> ('w, token_state) call" where
  "refresh_token oh entitlement t =
     then_op (demand (\<not> is_blank (ts_refresh t)) (unavailable ''OAuth refresh token is unavailable'')) (\<lambda>_.
     then_op (oh_post oh (oh_token_url oh) form_headers
       [(u ''grant_type'', u ''refresh_token''), (u ''refresh_token'', ts_refresh t), (u ''client_id'', oh_client oh)]) (\<lambda>r.
     then_op (pure_op (oauth_body (oh_loads oh) r)) (\<lambda>body.
     then_op (demand (succeeded r) (refused entitlement (bare_failure (hr_status r) (oauth_code body)))) (\<lambda>_.
       refreshed_state oh t body))))"

section \<open>Device authorization\<close>

text \<open>An interval is \<open>m / 2 ^ e\<close> seconds, exactly.\<close>

type_synonym seconds = "int \<times> nat"

record device_authorization =
  da_device :: pystr
  da_user :: pystr
  da_uri :: pystr
  da_complete :: "pystr option"
  da_expires :: int
  da_interval :: seconds

definition check_device_client :: "'w oauth_http \<Rightarrow> 'w oauth_http result" where
  "check_device_client oh =
     (let scopes = map strip (oh_scopes oh) in
      guardE (is_blank (oh_client oh)) (ValueError ''OAuth client ID cannot be empty'')
      (guardE (scopes = [] \<or> [] \<in> set scopes) (ValueError ''OAuth scopes cannot be empty'')
      (guardE (\<not> allowed_target (oh_split oh) [u ''auth.x.ai''] False (oh_device_url oh)
          \<or> \<not> allowed_target (oh_split oh) [u ''auth.x.ai''] False (oh_token_url oh))
        (ValueError ''OAuth target is not an allowed HTTPS host'') (Inr (oh\<lparr>oh_scopes := scopes\<rparr>)))))"

fun positive_number :: "pyval \<Rightarrow> provider_error + seconds" where
  "positive_number (PInt n) = (if n \<le> 0 then Inl (unavailable ''OAuth response has an invalid duration'') else Inr (n, 0))"
| "positive_number (PFloat (Some (m, e))) = (if m \<le> 0 then Inl (unavailable ''OAuth response has an invalid duration'') else Inr (m, e))"
| "positive_number _ = Inl (unavailable ''OAuth response has an invalid duration'')"

definition verification_hosts :: "pystr list" where
  "verification_hosts = [u ''auth.x.ai'', u ''accounts.x.ai'']"

fun check_complete_uri :: "'w oauth_http \<Rightarrow> pyval \<Rightarrow> provider_error + pystr option" where
  "check_complete_uri oh PNone = Inr None"
| "check_complete_uri oh (PStr t) = (if is_blank t \<or> \<not> allowed_target (oh_split oh) verification_hosts True t
     then Inl (unavailable ''OAuth device response has an invalid verification URI'') else Inr (Some t))"
| "check_complete_uri oh _ = Inl (unavailable ''OAuth device response has an invalid verification URI'')"

definition read_authorization :: "'w oauth_http \<Rightarrow> (pystr \<times> pyval) list \<Rightarrow> ('w, device_authorization) call" where
  "read_authorization oh body =
     then_op (pure_op (positive_number (dict_get body (u ''expires_in'') PNone))) (\<lambda>lifetime.
     then_op (pure_op (positive_number (dict_get body (u ''interval'') (PInt 5)))) (\<lambda>interval.
     then_op (pure_op (text_field body ''device_code'' PNone ''OAuth device response has no device code'')) (\<lambda>device.
     then_op (pure_op (text_field body ''user_code'' PNone ''OAuth device response has no user code'')) (\<lambda>user.
     then_op (pure_op (text_field body ''verification_uri'' PNone ''OAuth device response has no verification URI'')) (\<lambda>uri.
     then_op (demand (allowed_target (oh_split oh) verification_hosts False uri) (unavailable ''OAuth device response has an invalid verification URI'')) (\<lambda>_.
     then_op (pure_op (check_complete_uri oh (dict_get body (u ''verification_uri_complete'') PNone))) (\<lambda>whole.
     then_op (read_op (\<lambda>w. aware ''OAuth clock must include a timezone'' (oh_now oh w))) (\<lambda>now.
     then_op (pure_op (expiry_after (oh_delta oh) now (PFloat (Some lifetime)))) (\<lambda>expires.
       pure_op (Inr \<lparr>da_device = device, da_user = user, da_uri = uri, da_complete = whole, da_expires = expires, da_interval = interval\<rparr>))))))))))"

definition start_device_authorization :: "'w oauth_http \<Rightarrow> ('w, device_authorization) call" where
  "start_device_authorization oh =
     then_op (oh_post oh (oh_device_url oh) form_headers
       [(u ''client_id'', oh_client oh), (u ''scope'', join_with 32 (oh_scopes oh))]) (\<lambda>r.
     then_op (pure_op (oauth_body (oh_loads oh) r)) (\<lambda>body.
     then_op (demand (succeeded r) (Request_Failed (bare_failure (hr_status r) (oauth_code body)))) (\<lambda>_. read_authorization oh body)))"

definition device_token :: "'w oauth_http \<Rightarrow> int \<Rightarrow> (pystr \<times> pyval) list \<Rightarrow> provider_error + token_state" where
  "device_token oh now body = (case positive_number (dict_get body (u ''expires_in'') PNone) of
       Inl e \<Rightarrow> Inl e
     | Inr lifetime \<Rightarrow> (case text_field body ''access_token'' PNone ''OAuth device token response has no access token'' of
         Inl e \<Rightarrow> Inl e
       | Inr access \<Rightarrow> (case text_field body ''refresh_token'' PNone ''OAuth device token response has no refresh token'' of
           Inl e \<Rightarrow> Inl e
         | Inr refresh \<Rightarrow> (case expiry_after (oh_delta oh) now (PFloat (Some lifetime)) of
             Inl e \<Rightarrow> Inl e
           | Inr expires \<Rightarrow> Inr \<lparr>ts_access = access, ts_refresh = refresh, ts_expires = Aware expires\<rparr>))))"

datatype verdict = Done_With "provider_error + token_state" | Wait_On seconds

definition slower :: "seconds \<Rightarrow> seconds" where
  "slower d = (fst d + 5 * 2 ^ snd d, snd d)"

definition judge_answer :: "'w oauth_http \<Rightarrow> int \<Rightarrow> seconds \<Rightarrow> http_response \<Rightarrow> verdict" where
  "judge_answer oh now d r = (case oauth_body (oh_loads oh) r of
       Inl e \<Rightarrow> Done_With (Inl e)
     | Inr body \<Rightarrow>
        if succeeded r then Done_With (device_token oh now body)
        else if oauth_code body = Some (u ''authorization_pending'') then Wait_On d
        else if oauth_code body = Some (u ''slow_down'') then Wait_On (slower d)
        else if oauth_code body \<in> {Some (u ''access_denied''), Some (u ''expired_token'')}
          then Done_With (Inl (unavailable ''OAuth device authorization did not complete''))
        else Done_With (Inl (Request_Failed (bare_failure (hr_status r) (oauth_code body)))))"

definition before_expiry :: "'w oauth_http \<Rightarrow> device_authorization \<Rightarrow> ('w, int) call" where
  "before_expiry oh au = then_op (read_op (\<lambda>w. aware ''OAuth clock must include a timezone'' (oh_now oh w))) (\<lambda>now.
     pure_op (if da_expires au \<le> now then Inl (unavailable ''OAuth device authorization expired'') else Inr now))"

text \<open>One turn of the polling loop.\<close>

definition poll_once :: "'w oauth_http \<Rightarrow> (seconds \<Rightarrow> 'w \<Rightarrow> 'w) \<Rightarrow> device_authorization \<Rightarrow> seconds \<Rightarrow> ('w, verdict) call" where
  "poll_once oh sleep au d =
     then_op (before_expiry oh au) (\<lambda>_ w.
     then_op (before_expiry oh au) (\<lambda>now.
     then_op (oh_post oh (oh_token_url oh) form_headers
       [(u ''grant_type'', u ''urn:ietf:params:oauth:grant-type:device_code''), (u ''device_code'', da_device au), (u ''client_id'', oh_client oh)])
       (\<lambda>r. pure_op (Inr (judge_answer oh now d r)))) (sleep d w))"

text \<open>The \<open>while True\<close> loop with fuel: \<open>None\<close> when \<open>n\<close> turns were not enough.\<close>

fun poll_for_token :: "'w oauth_http \<Rightarrow> (seconds \<Rightarrow> 'w \<Rightarrow> 'w) \<Rightarrow> device_authorization \<Rightarrow> nat \<Rightarrow> seconds \<Rightarrow> 'w \<Rightarrow> ((provider_error + token_state) \<times> 'w) option" where
  "poll_for_token oh sleep au 0 d w = None"
| "poll_for_token oh sleep au (Suc n) d w = (case poll_once oh sleep au d w of
       (Inl e, w') \<Rightarrow> Some (Inl e, w')
     | (Inr (Done_With r), w') \<Rightarrow> Some (r, w')
     | (Inr (Wait_On d'), w') \<Rightarrow> poll_for_token oh sleep au n d' w')"

definition valid_authorization :: "device_authorization \<Rightarrow> provider_error + unit" where
  "valid_authorization au = (if is_blank (da_device au) then Inl (unavailable ''OAuth device code is empty'')
     else if fst (da_interval au) \<le> 0 then Inl (unavailable ''OAuth device poll interval is invalid'') else Inr ())"

definition complete_device_authorization ::
    "'w oauth_http \<Rightarrow> (seconds \<Rightarrow> 'w \<Rightarrow> 'w) \<Rightarrow> ('w, unit) call \<Rightarrow> ('w, unit) call \<Rightarrow> (token_state \<Rightarrow> ('w, unit) call) \<Rightarrow> nat \<Rightarrow> device_authorization
      \<Rightarrow> 'w \<Rightarrow> ((provider_error + token_state) \<times> 'w) option" where
  "complete_device_authorization oh sleep enter leave save n au w = (case valid_authorization au of
       Inl e \<Rightarrow> Some (Inl e, w)
     | Inr _ \<Rightarrow> (case poll_for_token oh sleep au n (da_interval au) w of
         None \<Rightarrow> None
       | Some (Inl e, w') \<Rightarrow> Some (Inl e, w')
       | Some (Inr t, w') \<Rightarrow> Some (then_op (with_lock enter leave (save t)) (\<lambda>_. pure_op (Inr t)) w')))"

section \<open>The lock is always left\<close>

text \<open>What the lock sees of an operation: how often it was entered and left.\<close>

lemma with_lock_cases:
  assumes "with_lock enter leave body w = (r, w')"
  shows "(\<exists>e. enter w = (Inl e, w') \<and> r = Inl e)
    \<or> (\<exists>w1 q w2. enter w = (Inr (), w1) \<and> body w1 = (q, w2) \<and> ((leave w2 = (Inr (), w') \<and> r = q) \<or> (\<exists>e. leave w2 = (Inl e, w') \<and> r = Inl e)))"
  using assms by (auto simp: with_lock_def bracket_def then_op_def split: prod.splits sum.splits)

section \<open>Tokens are fresh\<close>

lemma renew_Inr:
  assumes "renew rf now t w = (Inr k, w')"
  shows "\<exists>new expires w1. rf_refresh rf t w = (Inr new, w1) \<and> ts_expires new = Aware expires \<and> now < expires
    \<and> \<not> is_blank (ts_access new) \<and> rf_save rf new w1 = (Inr (), w') \<and> k = \<lparr>ac_value = ts_access new, ac_expires = expires\<rparr>"
  using assms
  by (auto simp: renew_def then_op_Inr demand_def ask_refresh_def save_state_def try_op_eq valid_state_def aware_def token_of_def
    split: if_splits py_datetime.splits)

lemma current_token_Inr:
  assumes "current_token rf w = (Inr k, w')"
  shows "\<exists>t w1 now. rf_load rf w = (Inr (Some t), w1) \<and> rf_now rf w1 = Aware now
    \<and> ((w' = w1 \<and> ts_expires t = Aware (ac_expires k) \<and> now + rf_skew rf < ac_expires k \<and> ac_value k = ts_access t)
      \<or> (\<exists>new w2. rf_refresh rf t w1 = (Inr new, w2) \<and> ts_expires new = Aware (ac_expires k) \<and> now < ac_expires k
          \<and> ac_value k = ts_access new \<and> rf_save rf new w2 = (Inr (), w'))) \<and> \<not> is_blank (ac_value k)"
  using assms renew_Inr [of rf _ _ _ k w']
  by (fastforce simp: current_token_def then_op_Inr load_state_def try_op_eq valid_state_def aware_def token_of_def datetime_add_def
    split: if_splits py_datetime.splits option.splits sum.splits)

text \<open>
C26: The token that is handed out is not expired, not empty, and is the one in the store: either the stored
state is passed on untouched, when it stays valid beyond the skew, or a refreshed state was saved before
its token was handed out. All of it happens between entering and leaving the lock.
\<close>
theorem handed_out_token_is_fresh:
  assumes "get_access_token rf w = (Inr k, w')" and "0 \<le> rf_skew rf"
  shows "\<exists>w0 t w1 now w2. rf_enter rf w = (Inr (), w0) \<and> rf_load rf w0 = (Inr (Some t), w1) \<and> rf_now rf w1 = Aware now
    \<and> now < ac_expires k \<and> \<not> is_blank (ac_value k) \<and> rf_leave rf w2 = (Inr (), w')
    \<and> ((w2 = w1 \<and> ts_access t = ac_value k \<and> ts_expires t = Aware (ac_expires k))
      \<or> (\<exists>new wr. rf_refresh rf t w1 = (Inr new, wr) \<and> rf_save rf new wr = (Inr (), w2)
          \<and> ts_access new = ac_value k \<and> ts_expires new = Aware (ac_expires k)))"
proof -
  obtain w0 q w2 where l: "rf_enter rf w = (Inr (), w0)" "current_token rf w0 = (q, w2)" "rf_leave rf w2 = (Inr (), w')" "q = Inr k"
    using with_lock_cases [OF assms(1) [unfolded get_access_token_def]] by auto
  from current_token_Inr [OF l(2) [unfolded l(4)]] l assms(2) show ?thesis by fastforce
qed

section \<open>What OAuth errors tell\<close>

text \<open>The client with a log of the results of its requests.\<close>

definition listening :: "'w oauth_http \<Rightarrow> ('w \<times> (provider_error + http_response) list) oauth_http" where
  "listening oh = \<lparr>oh_client = oh_client oh, oh_loads = oh_loads oh, oh_delta = oh_delta oh, oh_now = (\<lambda>s. oh_now oh (fst s)),
     oh_post = (\<lambda>url hs fs s. case oh_post oh url hs fs (fst s) of (r, w) \<Rightarrow> (r, (w, snd s @ [r]))), oh_token_url = oh_token_url oh,
     oh_device_url = oh_device_url oh, oh_scopes = oh_scopes oh, oh_split = oh_split oh\<rparr>"

definition listening_sleep :: "(seconds \<Rightarrow> 'w \<Rightarrow> 'w) \<Rightarrow> seconds \<Rightarrow> 'w \<times> (provider_error + http_response) list \<Rightarrow> 'w \<times> (provider_error + http_response) list" where
  "listening_sleep sleep d s = (sleep d (fst s), snd s)"

text \<open>What an error keeps of the answer \<open>r\<close>, told from its JSON alone.\<close>

definition summary_of :: "(pystr \<Rightarrow> pyval option) \<Rightarrow> http_response \<Rightarrow> request_failure \<Rightarrow> bool" where
  "summary_of loads r f \<longleftrightarrow> rf_status f = Some (hr_status r) \<and> rf_body f = [] \<and> rf_headers f = []
     \<and> (case loads (hr_body r) of
          None \<Rightarrow> rf_code f = Some (u ''invalid_json'') \<and> rf_cause f = Some (hr_body r)
        | Some (PDict d) \<Rightarrow> rf_cause f = None \<and> rf_code f = (case dict_get d (u ''error'') PNone of
              PStr c \<Rightarrow> Some c
            | PDict e \<Rightarrow> (case dict_get e (u ''code'') PNone of PStr c \<Rightarrow> Some c | _ \<Rightarrow> None)
            | _ \<Rightarrow> None)
        | Some _ \<Rightarrow> rf_code f = Some (u ''invalid_json'') \<and> rf_cause f = None)"

fun tells :: "(pystr \<Rightarrow> pyval option) \<Rightarrow> http_response \<Rightarrow> provider_error \<Rightarrow> bool" where
  "tells loads r (Request_Failed f) = summary_of loads r f"
| "tells loads r (Entitlement_Denied f) = summary_of loads r f"
| "tells loads r _ = True"

text \<open>An error with fields is the client's own, or tells of the last answer.\<close>

fun reports_last :: "(pystr \<Rightarrow> pyval option) \<Rightarrow> provider_error \<Rightarrow> (provider_error + http_response) list \<Rightarrow> bool" where
  "reports_last loads (Request_Failed f) rs = (rs \<noteq> [] \<and> (last rs = Inl (Request_Failed f) \<or> (\<exists>r. last rs = Inr r \<and> summary_of loads r f)))"
| "reports_last loads (Entitlement_Denied f) rs = (rs \<noteq> [] \<and> (last rs = Inl (Entitlement_Denied f) \<or> (\<exists>r. last rs = Inr r \<and> summary_of loads r f)))"
| "reports_last loads _ rs = True"

text \<open>A call that sends nothing, with errors in \<open>P\<close>; \<open>unfielded\<close> are those without fields.\<close>

definition unfielded :: "provider_error \<Rightarrow> bool" where
  "unfielded e \<longleftrightarrow> (\<forall>f. e \<noteq> Request_Failed f \<and> e \<noteq> Entitlement_Denied f)"

definition unheard :: "(provider_error \<Rightarrow> bool) \<Rightarrow> ('w \<times> 'x, 'a) call \<Rightarrow> bool" where
  "unheard P g \<longleftrightarrow> (\<forall>s r s'. g s = (r, s') \<longrightarrow> snd s' = snd s \<and> (\<forall>e. r = Inl e \<longrightarrow> P e))"

lemma unheard_then: "unheard P f \<Longrightarrow> (\<And>x. unheard P (g x)) \<Longrightarrow> unheard P (then_op f g)"
  unfolding unheard_def by (simp add: then_op_def split: prod.splits sum.splits) metis

lemma unheard_pure: "(\<And>e. r = Inl e \<Longrightarrow> P e) \<Longrightarrow> unheard P (pure_op r)"
  by (auto simp: unheard_def pure_op_def)

lemma unheard_read: "(\<And>w e. f w = Inl e \<Longrightarrow> P e) \<Longrightarrow> unheard P (read_op f)"
  by (auto simp: unheard_def read_op_def)

lemma unheard_demand: "(\<not> ok \<Longrightarrow> P e) \<Longrightarrow> unheard P (demand ok e)"
  unfolding demand_def by (rule unheard_pure) (simp split: if_splits)

lemmas unheard_intros = unheard_then unheard_pure unheard_read unheard_demand

lemma unfielded_unavailable [simp]: "unfielded (unavailable why)" "unfielded (Other_Error k)"
  by (simp_all add: unfielded_def unavailable_def)

lemma unfielded_tells: "unfielded e \<Longrightarrow> tells loads r e" and unfielded_reports: "unfielded e \<Longrightarrow> reports_last loads e rs"
  by (cases e; simp add: unfielded_def)+

lemma unfielded_parts:
  "text_field body key dflt why = Inl e \<Longrightarrow> unfielded e" "expiry_after delta now v = Inl e \<Longrightarrow> unfielded e"
  "aware why d = Inl e \<Longrightarrow> unfielded e"
  by (auto simp: text_field_def expiry_after_def aware_def split: pyval.splits if_splits option.splits sum.splits py_datetime.splits)

lemma unfielded_numbers: "positive_number v = Inl e \<Longrightarrow> unfielded e"
  by (cases v rule: positive_number.cases) (auto split: if_splits)

lemma unfielded_uri: "check_complete_uri oh v = Inl e \<Longrightarrow> unfielded e"
  by (cases "(oh, v)" rule: check_complete_uri.cases) (auto split: if_splits)

lemma unfielded_device_token: "device_token oh now body = Inl e \<Longrightarrow> unfielded e"
  by (auto simp: device_token_def dest: unfielded_numbers unfielded_parts split: sum.splits)

lemma oauth_body_tells: "oauth_body loads r = Inl e \<Longrightarrow> tells loads r e"
  by (auto simp: oauth_body_def bare_failure_def summary_of_def split: option.splits pyval.splits)

lemma oauth_code_tells:
  assumes "oauth_body loads r = Inr body"
  shows "summary_of loads r (bare_failure (hr_status r) (oauth_code body))"
proof -
  have "loads (hr_body r) = Some (PDict body)" using assms by (auto simp: oauth_body_def split: option.splits pyval.splits)
  moreover have "string_value v = (case v of PStr c \<Rightarrow> Some c | _ \<Rightarrow> None)" for v by (cases v) simp_all
  ultimately show ?thesis by (auto simp: summary_of_def bare_failure_def oauth_code_def split: pyval.split)
qed

text \<open>A request followed by steps that send nothing and only tell of its answer.\<close>

lemma request_reports:
  assumes "then_op (oh_post (listening oh) url hs fs) K s = (Inl e, s')" and "\<And>r. unheard (tells loads r) (K r)"
  shows "reports_last loads e (snd s')"
proof (cases "oh_post oh url hs fs (fst s)")
  case (Pair q w)
  show ?thesis
  proof (cases q)
    case (Inl e')
    with assms(1) Pair have "e = e'" "snd s' = snd s @ [Inl e']" by (auto simp: then_op_def listening_def)
    moreover have "reports_last loads e (rs @ [Inl e])" for rs by (cases e) simp_all
    ultimately show ?thesis by simp
  next
    case (Inr r)
    with assms(1) Pair have "K r (w, snd s @ [Inr r]) = (Inl e, s')" by (auto simp: then_op_def listening_def)
    with assms(2) [of r] have "snd s' = snd s @ [Inr r]" "tells loads r e"
      unfolding unheard_def by (metis snd_conv)+
    then show ?thesis by (cases e) auto
  qed
qed

lemma guarded_reports:
  assumes "then_op g G s = (Inl e, s')" and "unheard unfielded g" and "\<And>x s e s'. G x s = (Inl e, s') \<Longrightarrow> reports_last loads e (snd s')"
  shows "reports_last loads e (snd s')"
proof -
  consider "g s = (Inl e, s')" | x s1 where "G x s1 = (Inl e, s')" using assms(1) by (auto simp: then_op_Inl)
  then show ?thesis
  proof cases
    case 1
    with assms(2) have "unfielded e" unfolding unheard_def by blast
    then show ?thesis by (rule unfielded_reports)
  qed (rule assms(3))
qed

lemma answered_unheard:
  assumes "\<And>body. unheard (tells loads r) (K body)" and "\<And>body. oauth_body loads r = Inr body \<Longrightarrow> tells loads r (err body)"
  shows "unheard (tells loads r) (then_op (pure_op (oauth_body loads r)) (\<lambda>body. then_op (demand (succeeded r) (err body)) (\<lambda>_. K body)))"
proof (cases "oauth_body loads r")
  case (Inl e)
  then show ?thesis using oauth_body_tells [OF Inl] by (auto simp: unheard_def then_op_def pure_op_def)
next
  case (Inr body)
  have "unheard (tells loads r) (then_op (demand (succeeded r) (err body)) (\<lambda>_. K body))"
    by (intro unheard_then unheard_demand assms Inr)
  then show ?thesis using Inr by (simp add: then_op_def [of "pure_op _"] pure_op_def)
qed

lemma before_expiry_unheard: "unheard unfielded (before_expiry (listening oh) au)"
  unfolding before_expiry_def by (intro unheard_intros) (auto dest: unfielded_parts split: if_splits)

lemma judge_tells: "judge_answer oh now d r = Done_With (Inl e) \<Longrightarrow> tells (oh_loads oh) r e"
  using oauth_body_tells [of "oh_loads oh" r] oauth_code_tells [of "oh_loads oh" r]
  by (auto simp: judge_answer_def unfielded_tells dest: unfielded_device_token split: sum.splits if_splits)

lemma poll_once_reports:
  assumes "poll_once (listening oh) (listening_sleep sleep) au d s = (q, s')"
  shows "(\<forall>e. q = Inl e \<longrightarrow> reports_last (oh_loads oh) e (snd s'))
    \<and> (\<forall>e. q = Inr (Done_With (Inl e)) \<longrightarrow> reports_last (oh_loads oh) e (snd s'))"
proof -
  let ?post = "oh_post (listening oh) (oh_token_url (listening oh)) form_headers
    [(u ''grant_type'', u ''urn:ietf:params:oauth:grant-type:device_code''), (u ''device_code'', da_device au), (u ''client_id'', oh_client (listening oh))]"
  let ?turn = "\<lambda>now. then_op ?post (\<lambda>r. pure_op (Inr (judge_answer (listening oh) now d r)))"
  have turn: "reports_last (oh_loads oh) e (snd t')" if "?turn now t = (Inl e, t')" for now t e t'
    using that by (rule request_reports) (auto intro: unheard_pure)
  have "reports_last (oh_loads oh) e (snd s')" if q: "q = Inl e" for e
  proof (rule guarded_reports)
    show "then_op (before_expiry (listening oh) au) (\<lambda>_ w. then_op (before_expiry (listening oh) au) ?turn (listening_sleep sleep d w)) s = (Inl e, s')"
      using assms q by (simp add: poll_once_def)
    show "reports_last (oh_loads oh) e (snd t')"
      if "then_op (before_expiry (listening oh) au) ?turn (listening_sleep sleep d t) = (Inl e, t')" for t e t'
      using that by (rule guarded_reports [OF _ before_expiry_unheard turn])
  qed (rule before_expiry_unheard)
  moreover have "reports_last (oh_loads oh) e (snd s')" if q: "q = Inr (Done_With (Inl e))" for e
  proof -
    have "\<exists>now t r. ?post t = (Inr r, s') \<and> judge_answer (listening oh) now d r = Done_With (Inl e)"
      using assms q unfolding poll_once_def then_op_Inr by (simp add: then_op_Inr) blast
    then obtain now t r where p: "?post t = (Inr r, s')" and j: "judge_answer (listening oh) now d r = Done_With (Inl e)" by blast
    have "snd s' = snd t @ [Inr r]" using p by (auto simp: listening_def split: prod.splits)
    moreover have "tells (oh_loads oh) r e" using judge_tells [OF j] by (simp add: listening_def)
    ultimately show ?thesis by (cases e) auto
  qed
  ultimately show ?thesis by blast
qed

lemma poll_reports:
  "poll_for_token (listening oh) (listening_sleep sleep) au n d s = Some (Inl e, s') \<Longrightarrow> reports_last (oh_loads oh) e (snd s')"
proof (induction n arbitrary: d s)
  case (Suc n)
  obtain q s1 where q: "poll_once (listening oh) (listening_sleep sleep) au d s = (q, s1)" by (rule prod.exhaust)
  with Suc poll_once_reports [OF q] show ?case by (auto split: sum.splits verdict.splits)
qed simp

text \<open>
C40: What the errors of the OAuth endpoints tell. Every request error or denial of a refresh, of the start and of the
polling of a device authorization is the error of the HTTP client for the last request, or has of the last answer
only its status and its error code: the text of the field \<open>error\<close>, or of \<open>code\<close> in it, of a JSON object, and
\<open>invalid_json\<close> otherwise. Its body and headers are empty. But for an answer that is no JSON the exception is chained
to one that holds the whole body.
\<close>
theorem oauth_errors_tell_status_and_code:
  shows "(\<forall>e s. refresh_token (listening oh) en t (w, []) = (Inl e, s) \<longrightarrow> reports_last (oh_loads oh) e (snd s))
    \<and> (\<forall>e s. start_device_authorization (listening oh) (w, []) = (Inl e, s) \<longrightarrow> reports_last (oh_loads oh) e (snd s))
    \<and> (\<forall>n d e s. poll_for_token (listening oh) (listening_sleep sleep) au n d (w, []) = Some (Inl e, s) \<longrightarrow> reports_last (oh_loads oh) e (snd s))"
proof (intro conjI allI impI)
  have l: "oh_loads (listening oh) = oh_loads oh" by (simp add: listening_def)
  fix e s
  show "reports_last (oh_loads oh) e (snd s)" if "refresh_token (listening oh) en t (w, []) = (Inl e, s)"
    using that unfolding refresh_token_def l
  proof (rule guarded_reports)
    fix x s e s'
    assume "then_op (oh_post (listening oh) (oh_token_url (listening oh)) form_headers
        [(u ''grant_type'', u ''refresh_token''), (u ''refresh_token'', ts_refresh t), (u ''client_id'', oh_client (listening oh))])
      (\<lambda>r. then_op (pure_op (oauth_body (oh_loads oh) r)) (\<lambda>body. then_op (demand (succeeded r) (refused en (bare_failure (hr_status r) (oauth_code body))))
        (\<lambda>_. refreshed_state (listening oh) t body))) s = (Inl e, s')"
    then show "reports_last (oh_loads oh) e (snd s')"
    proof (rule request_reports)
      fix r
      have "unheard (tells (oh_loads oh) r) (refreshed_state (listening oh) t body)" for body
        unfolding refreshed_state_def by (intro unheard_intros) (auto intro: unfielded_tells dest: unfielded_parts)
      then show "unheard (tells (oh_loads oh) r) (then_op (pure_op (oauth_body (oh_loads oh) r)) (\<lambda>body.
          then_op (demand (succeeded r) (refused en (bare_failure (hr_status r) (oauth_code body)))) (\<lambda>_. refreshed_state (listening oh) t body)))"
        by (rule answered_unheard) (auto simp: refused_def oauth_code_tells split: option.split)
    qed
  qed (intro unheard_demand, simp)
  show "reports_last (oh_loads oh) e (snd s)" if "start_device_authorization (listening oh) (w, []) = (Inl e, s)"
    using that unfolding start_device_authorization_def l
  proof (rule request_reports)
    fix r
    have "unheard (tells (oh_loads oh) r) (read_authorization (listening oh) body)" for body
      unfolding read_authorization_def
      by (intro unheard_intros) (auto intro: unfielded_tells dest: unfielded_parts unfielded_numbers unfielded_uri)
    then show "unheard (tells (oh_loads oh) r) (then_op (pure_op (oauth_body (oh_loads oh) r)) (\<lambda>body.
        then_op (demand (succeeded r) (Request_Failed (bare_failure (hr_status r) (oauth_code body)))) (\<lambda>_. read_authorization (listening oh) body)))"
      by (rule answered_unheard) (simp add: oauth_code_tells)
  qed
qed (rule poll_reports)

section \<open>Polling ends, and is polite\<close>

definition clock :: "'w oauth_http \<Rightarrow> 'w \<Rightarrow> int" where
  "clock oh w = (case oh_now oh w of Naive n \<Rightarrow> n | Aware n \<Rightarrow> n)"

definition micros :: "seconds \<Rightarrow> int" where
  "micros d = fst d * 1000000 div 2 ^ snd d"

text \<open>The clock has a time zone, never goes back, and a sleep takes its time.\<close>

definition steady_clock :: "'w oauth_http \<Rightarrow> (seconds \<Rightarrow> 'w \<Rightarrow> 'w) \<Rightarrow> bool" where
  "steady_clock oh sleep \<longleftrightarrow> (\<forall>w. \<exists>n. oh_now oh w = Aware n) \<and> (\<forall>d w. clock oh w + micros d \<le> clock oh (sleep d w))
     \<and> (\<forall>url hs fs w. clock oh w \<le> clock oh (snd (oh_post oh url hs fs w)))"

lemma micros_slower: "micros d \<le> micros (slower d)"
  unfolding micros_def slower_def by (simp add: zdiv_mono1)

lemma judge_wait: "judge_answer oh now d r = Wait_On d' \<Longrightarrow> micros d \<le> micros d'"
  by (auto simp: judge_answer_def micros_slower split: sum.splits if_splits)

lemma before_expiry_steady:
  assumes "steady_clock oh sleep"
  shows "before_expiry oh au w = (if da_expires au \<le> clock oh w then Inl (unavailable ''OAuth device authorization expired'') else Inr (clock oh w), w)"
proof -
  obtain n where "oh_now oh w = Aware n" using assms unfolding steady_clock_def by blast
  then show ?thesis by (simp add: before_expiry_def then_op_def read_op_def pure_op_def aware_def clock_def)
qed

text \<open>A turn that goes on has slept, posted before the expiry, and keeps at least the interval.\<close>

lemma poll_once_wait:
  assumes "steady_clock oh sleep" and "poll_once oh sleep au d w = (Inr (Wait_On d'), w')"
  shows "clock oh w < da_expires au \<and> micros d \<le> micros d' \<and> clock oh w + micros d \<le> clock oh w'"
proof -
  have b: "before_expiry oh au v = (if da_expires au \<le> clock oh v then Inl (unavailable ''OAuth device authorization expired'') else Inr (clock oh v), v)" for v
    using before_expiry_steady [OF assms(1)] .
  let ?v = "sleep d w"
  let ?post = "oh_post oh (oh_token_url oh) form_headers
     [(u ''grant_type'', u ''urn:ietf:params:oauth:grant-type:device_code''), (u ''device_code'', da_device au), (u ''client_id'', oh_client oh)]"
  have "clock oh w < da_expires au" using assms(2) by (auto simp: poll_once_def then_op_Inr b split: if_splits)
  moreover obtain r where r: "?post ?v = (Inr r, w')" "judge_answer oh (clock oh ?v) d r = Wait_On d'"
    using assms(2) by (auto simp: poll_once_def then_op_Inr b split: if_splits)
  moreover have "clock oh w + micros d \<le> clock oh ?v" "clock oh ?v \<le> clock oh (snd (?post ?v))"
    using assms(1) by (simp_all only: steady_clock_def)
  ultimately show ?thesis using judge_wait by fastforce
qed

text \<open>
C25: The device authorization always ends. With a clock that does not go back and a sleep that takes its
time, the loop has returned, with a token or an error, after as many turns as intervals fit into the rest
of the lifetime, and one more; a request to slow down only makes it shorter.
\<close>
theorem device_polling_ends:
  assumes "steady_clock oh sleep" and "0 < micros d" and "da_expires au - clock oh w < int n * micros d"
  shows "\<exists>r w'. poll_for_token oh sleep au (Suc n) d w = Some (r, w')"
  using assms(2,3)
proof (induction n arbitrary: d w)
  case 0
  then have "da_expires au \<le> clock oh w" by simp
  then show ?case by (simp add: poll_once_def then_op_def before_expiry_steady [OF assms(1)])
next
  case (Suc n)
  obtain a w1 where a: "poll_once oh sleep au d w = (a, w1)" by (rule prod.exhaust)
  show ?case
  proof (cases "\<exists>d'. a = Inr (Wait_On d')")
    case True
    then obtain d' where d': "a = Inr (Wait_On d')" by blast
    have w1: "micros d \<le> micros d'" "clock oh w + micros d \<le> clock oh w1" using poll_once_wait [OF assms(1) a [unfolded d']] by simp_all
    have "da_expires au - clock oh w1 < int n * micros d" using Suc.prems(2) w1(2) by (simp add: algebra_simps)
    also have "\<dots> \<le> int n * micros d'" using w1(1) by (simp add: mult_left_mono)
    finally have "\<exists>r w'. poll_for_token oh sleep au (Suc n) d' w1 = Some (r, w')" using Suc.IH w1(1) Suc.prems(1) by simp
    with a d' show ?thesis by simp
  next
    case False
    with a show ?thesis by (auto split: sum.split verdict.split)
  qed
qed

text \<open>The client that notes the time of every request it sends.\<close>

definition timed :: "'w oauth_http \<Rightarrow> ('w \<times> int list) oauth_http" where
  "timed oh = \<lparr>oh_client = oh_client oh, oh_loads = oh_loads oh, oh_delta = oh_delta oh, oh_now = (\<lambda>w. oh_now oh (fst w)),
     oh_post = (\<lambda>url hs fs w. case oh_post oh url hs fs (fst w) of (r, w') \<Rightarrow> (r, w', snd w @ [clock oh (fst w)])),
     oh_token_url = oh_token_url oh, oh_device_url = oh_device_url oh, oh_scopes = oh_scopes oh, oh_split = oh_split oh\<rparr>"

definition timed_sleep :: "(seconds \<Rightarrow> 'w \<Rightarrow> 'w) \<Rightarrow> seconds \<Rightarrow> 'w \<times> int list \<Rightarrow> 'w \<times> int list" where
  "timed_sleep sleep d w = (sleep d (fst w), snd w)"

fun spaced :: "int \<Rightarrow> int \<Rightarrow> int list \<Rightarrow> bool" where
  "spaced gap start [] = True"
| "spaced gap start (t # ts) = (start + gap \<le> t \<and> spaced gap t ts)"

lemma spaced_earlier: "spaced gap s ts \<Longrightarrow> gap' \<le> gap \<Longrightarrow> s' \<le> s \<Longrightarrow> spaced gap' s' ts"
proof (induction ts arbitrary: s s')
  case (Cons t ts)
  from Cons.prems have "spaced gap' t ts" by (intro Cons.IH [of t t]) auto
  with Cons.prems show ?case by simp
qed simp

lemma timed_fields: "oh_post (timed oh) url hs fs w = (case oh_post oh url hs fs (fst w) of (r, w') \<Rightarrow> (r, w', snd w @ [clock oh (fst w)]))"
  "oh_token_url (timed oh) = oh_token_url oh" "oh_client (timed oh) = oh_client oh"
  by (simp_all add: timed_def)

lemma clock_timed: "clock (timed oh) w = clock oh (fst w)"
  by (simp add: clock_def timed_def)

lemma steady_timed: "steady_clock oh sleep \<Longrightarrow> steady_clock (timed oh) (timed_sleep sleep)"
proof -
  assume s: "steady_clock oh sleep"
  have "clock oh (fst w) \<le> clock oh (fst (snd (oh_post (timed oh) url hs fs w)))" for url hs fs w
  proof -
    obtain r w' where p: "oh_post oh url hs fs (fst w) = (r, w')" by (rule prod.exhaust)
    have "clock oh (fst w) \<le> clock oh (snd (oh_post oh url hs fs (fst w)))" using s by (simp only: steady_clock_def)
    with p show ?thesis by (simp add: timed_def)
  qed
  with s show ?thesis unfolding steady_clock_def clock_timed timed_sleep_def by (simp add: timed_def)
qed

text \<open>A turn sends at most one request, before the expiry and after the sleep.\<close>

lemma poll_once_timed:
  assumes "steady_clock oh sleep" and "poll_once (timed oh) (timed_sleep sleep) au d w = (a, w')"
  shows "snd w' = snd w \<or> (\<exists>t. snd w' = snd w @ [t] \<and> t < da_expires au \<and> clock oh (fst w) + micros d \<le> t \<and> t \<le> clock oh (fst w'))"
proof -
  note b = before_expiry_steady [OF steady_timed [OF assms(1)], unfolded clock_timed]
  let ?v = "sleep d (fst w)"
  let ?post = "oh_post oh (oh_token_url oh) form_headers
     [(u ''grant_type'', u ''urn:ietf:params:oauth:grant-type:device_code''), (u ''device_code'', da_device au), (u ''client_id'', oh_client oh)]"
  obtain r w1 where r: "?post ?v = (r, w1)" by (rule prod.exhaust)
  have "clock oh (fst w) + micros d \<le> clock oh ?v" "clock oh ?v \<le> clock oh (snd (?post ?v))"
    using assms(1) by (simp_all only: steady_clock_def)
  with assms(2) r show ?thesis
    by (cases r) (auto simp: poll_once_def then_op_def b timed_sleep_def timed_fields pure_op_def split: if_splits)
qed

text \<open>
C24: The token endpoint is never asked more often than it allows. All requests of a device authorization are
sent before it expires, the first one interval after the start, and each at least one interval after the
one before.
\<close>
theorem polling_is_polite:
  assumes "steady_clock oh sleep" and "0 < micros d" and "poll_for_token (timed oh) (timed_sleep sleep) au n d w = Some (r, w')"
  shows "\<exists>sent. snd w' = snd w @ sent \<and> (\<forall>t \<in> set sent. t < da_expires au) \<and> spaced (micros d) (clock oh (fst w)) sent"
  using assms(2,3)
proof (induction n arbitrary: d w)
  case (Suc n)
  obtain a w1 where a: "poll_once (timed oh) (timed_sleep sleep) au d w = (a, w1)" by (rule prod.exhaust)
  note one = poll_once_timed [OF assms(1) a]
  show ?case
  proof (cases "\<exists>d'. a = Inr (Wait_On d')")
    case False
    with Suc.prems(2) a have "w' = w1" by (auto split: sum.splits verdict.splits)
    with one show ?thesis by auto
  next
    case True
    then obtain d' where d': "a = Inr (Wait_On d')" by blast
    have g: "micros d \<le> micros d'" "clock oh (fst w) + micros d \<le> clock oh (fst w1)"
      using poll_once_wait [OF steady_timed [OF assms(1)] a [unfolded d']] by (simp_all add: clock_timed)
    have "poll_for_token (timed oh) (timed_sleep sleep) au n d' w1 = Some (r, w')" using Suc.prems(2) a d' by simp
    then obtain sent where s: "snd w' = snd w1 @ sent" "\<forall>t \<in> set sent. t < da_expires au" "spaced (micros d') (clock oh (fst w1)) sent"
      using Suc.IH [of d' w1] Suc.prems(1) g(1) by auto
    from one show ?thesis
    proof (elim disjE exE conjE)
      assume "snd w1 = snd w"
      moreover have "spaced (micros d) (clock oh (fst w)) sent" using spaced_earlier [OF s(3) g(1)] g(2) Suc.prems(1) by simp
      ultimately show ?thesis using s by auto
    next
      fix t
      assume t: "snd w1 = snd w @ [t]" "t < da_expires au" "clock oh (fst w) + micros d \<le> t" "t \<le> clock oh (fst w1)"
      have "spaced (micros d) t sent" using spaced_earlier [OF s(3) g(1) t(4)] .
      with t s show ?thesis by (intro exI [of _ "t # sent"]) auto
    qed
  qed
qed simp

end
