(* ===== verification/OAuth_Stores.thy ===== *)
theory OAuth_Stores
  imports OAuth
begin

text \<open>
  Where OAuth tokens are kept: the common JSON format, the store over the Windows credential manager
  (\<open>oauth_credentials.py\<close>) and the file store of \<open>linux_oauth_credentials.py\<close>. Of the file system the model has
  files, directories and the system calls of the store; each call has a fate: it works, fails with an
  \<open>OSError\<close>, or the process dies there. \<open>json\<close>, UTF-8 decoding and ISO dates are arguments.
\<close>

section \<open>The stored form\<close>

record token_format =
  tf_dumps :: "pyval \<Rightarrow> pystr"
  tf_loads :: "pystr \<Rightarrow> pyval option"
  tf_utf8 :: "nat list \<Rightarrow> pystr option"
  tf_iso :: "int \<Rightarrow> pystr"
  tf_from_iso :: "pystr \<Rightarrow> py_datetime option"

definition max_blob :: nat where "max_blob = 2560"

definition storable :: "token_state \<Rightarrow> provider_error + int" where
  "storable t = (if is_blank (ts_access t) then Inl (unavailable ''OAuth access token is empty'')
     else if is_blank (ts_refresh t) then Inl (unavailable ''OAuth refresh token is empty'')
     else aware ''OAuth token expiry must include a timezone'' (ts_expires t))"

definition stored_value :: "pystr \<Rightarrow> pystr \<Rightarrow> pystr \<Rightarrow> pyval" where
  "stored_value access expires refresh = PDict [(u ''access_token'', PStr access), (u ''expires_at'', PStr expires), (u ''refresh_token'', PStr refresh)]"

definition token_value :: "token_format \<Rightarrow> token_state \<Rightarrow> int \<Rightarrow> pyval" where
  "token_value tf t expires = stored_value (ts_access t) (tf_iso tf expires) (ts_refresh t)"

text \<open>\<open>dumps\<close> gives ASCII, so its characters are its bytes.\<close>

definition encode_token :: "token_format \<Rightarrow> token_state \<Rightarrow> provider_error + nat list" where
  "encode_token tf t = (case storable t of
       Inl e \<Rightarrow> Inl e
     | Inr expires \<Rightarrow> (let blob = tf_dumps tf (token_value tf t expires) in
         if max_blob < length blob then Inl (unavailable ''OAuth credential is too large to store'') else Inr blob))"

definition token_keys :: "pystr set" where
  "token_keys = {u ''access_token'', u ''expires_at'', u ''refresh_token''}"

definition invalid_stored :: provider_error where
  "invalid_stored = unavailable ''Stored OAuth credential is invalid''"

definition read_token :: "token_format \<Rightarrow> (pystr \<times> pyval) list \<Rightarrow> provider_error + token_state" where
  "read_token tf d = (case dict_get d (u ''expires_at'') PNone of
       PStr iso_text \<Rightarrow> (case tf_from_iso tf iso_text of
           None \<Rightarrow> Inl invalid_stored
         | Some expires \<Rightarrow> (case (dict_get d (u ''access_token'') PNone, dict_get d (u ''refresh_token'') PNone) of
             (PStr a, PStr r) \<Rightarrow> (let t = \<lparr>ts_access = a, ts_refresh = r, ts_expires = expires\<rparr> in
                case storable t of Inl e \<Rightarrow> Inl e | Inr _ \<Rightarrow> Inr t)
           | (PStr a, _) \<Rightarrow> Inl (unavailable (if is_blank a then ''OAuth access token is empty'' else ''OAuth refresh token is empty''))
           | _ \<Rightarrow> Inl (unavailable ''OAuth access token is empty'')))
     | _ \<Rightarrow> Inl invalid_stored)"

definition decode_token :: "token_format \<Rightarrow> nat list \<Rightarrow> provider_error + token_state" where
  "decode_token tf blob = (case tf_utf8 tf blob of
       None \<Rightarrow> Inl invalid_stored
     | Some t \<Rightarrow> (case tf_loads tf t of
         Some (PDict d) \<Rightarrow> if fst ` set d = token_keys then read_token tf d else Inl invalid_stored
       | _ \<Rightarrow> Inl invalid_stored))"

text \<open>What the format relies on: \<open>json\<close> reads the three strings it wrote, in ASCII, and so do ISO dates.\<close>

definition sound_format :: "token_format \<Rightarrow> bool" where
  "sound_format tf \<longleftrightarrow> (\<forall>a e r. let v = stored_value a e r in tf_utf8 tf (tf_dumps tf v) = Some (tf_dumps tf v) \<and> tf_loads tf (tf_dumps tf v) = Some v)
     \<and> (\<forall>n. tf_from_iso tf (tf_iso tf n) = Some (Aware n))"

lemma decode_encode:
  assumes "sound_format tf" and "encode_token tf t = Inr blob"
  shows "decode_token tf blob = Inr t \<and> length blob \<le> max_blob"
proof -
  obtain expires where e: "storable t = Inr expires" "blob = tf_dumps tf (token_value tf t expires)" "length blob \<le> max_blob"
    using assms(2) by (auto simp: encode_token_def Let_def split: sum.splits if_splits)
  have x: "ts_expires t = Aware expires" using e(1) by (auto simp: storable_def aware_def split: if_splits py_datetime.splits)
  have d: "tf_utf8 tf blob = Some blob" "tf_loads tf blob = Some (token_value tf t expires)" "tf_from_iso tf (tf_iso tf expires) = Some (Aware expires)"
    using assms(1) e(2) by (simp_all add: sound_format_def token_value_def Let_def)
  have k: "fst ` set [(u ''access_token'', PStr (ts_access t)), (u ''expires_at'', PStr (tf_iso tf expires)), (u ''refresh_token'', PStr (ts_refresh t))]
      = token_keys" by (auto simp: token_keys_def)
  have t: "\<lparr>ts_access = ts_access t, ts_refresh = ts_refresh t, ts_expires = Aware expires\<rparr> = t" using x by simp
  have g: "dict_get [(u ''access_token'', a), (u ''expires_at'', b), (u ''refresh_token'', c)] (u ''expires_at'') PNone = b"
    "dict_get [(u ''access_token'', a), (u ''expires_at'', b), (u ''refresh_token'', c)] (u ''access_token'') PNone = a"
    "dict_get [(u ''access_token'', a), (u ''expires_at'', b), (u ''refresh_token'', c)] (u ''refresh_token'') PNone = c" for a b c
    by (simp_all add: dict_get_def u_def)
  show ?thesis using d e k by (simp add: decode_token_def token_value_def stored_value_def read_token_def g t Let_def)
qed

section \<open>The Windows store\<close>

record 'w credential_api =
  ca_read :: "pystr \<Rightarrow> ('w, nat list option) call"
  ca_write :: "pystr \<Rightarrow> nat list \<Rightarrow> ('w, unit) call"

text \<open>\<open>^[A-Za-z0-9][A-Za-z0-9._-]{0,63}$\<close> as a full match.\<close>

definition profile_char :: "nat \<Rightarrow> bool" where
  "profile_char c \<longleftrightarrow> (65 \<le> c \<and> c \<le> 90) \<or> (97 \<le> c \<and> c \<le> 122) \<or> (48 \<le> c \<and> c \<le> 57)"

definition windows_target :: "pystr \<Rightarrow> pystr result" where
  "windows_target profile = guardE (profile = [] \<or> 64 < length profile \<or> \<not> profile_char (hd profile)
       \<or> \<not> list_all (\<lambda>c. profile_char c \<or> c \<in> {46, 95, 45}) profile)
     (ValueError ''OAuth credential profile ID is invalid'') (Inr (u ''LenkoBot/xai-oauth/v1/'' @ profile))"

definition as_unavailable :: "string \<Rightarrow> provider_error \<Rightarrow> provider_error" where
  "as_unavailable why e = (case e of Credential_Unavailable w \<Rightarrow> Credential_Unavailable w | _ \<Rightarrow> unavailable why)"

definition windows_load :: "token_format \<Rightarrow> 'w credential_api \<Rightarrow> pystr \<Rightarrow> ('w, token_state option) call" where
  "windows_load tf api target =
     try_op (ca_read api target) (\<lambda>e. pure_op (Inl (as_unavailable ''Windows Credential Manager could not read OAuth state'' e)))
       (\<lambda>b. pure_op (case b of
          None \<Rightarrow> Inr None
        | Some blob \<Rightarrow> if max_blob < length blob then Inl (unavailable ''Stored OAuth credential is too large'')
            else (case decode_token tf blob of Inl e \<Rightarrow> Inl e | Inr t \<Rightarrow> Inr (Some t))))"

definition windows_save :: "token_format \<Rightarrow> 'w credential_api \<Rightarrow> pystr \<Rightarrow> token_state \<Rightarrow> ('w, unit) call" where
  "windows_save tf api target t =
     then_op (pure_op (encode_token tf t)) (\<lambda>blob.
       try_op (ca_write api target blob) (\<lambda>e. pure_op (Inl (as_unavailable ''Windows Credential Manager could not write OAuth state'' e)))
         (\<lambda>_. pure_op (Inr ())))"

section \<open>A file system that may fail\<close>

datatype file_kind = Regular | Symlink | Special

record disk_file =
  fi_data :: "nat list"
  fi_mode :: nat
  fi_owner :: nat
  fi_kind :: file_kind

text \<open>A system call works (a write or read moves \<open>Suc n\<close> bytes at most), fails, or is where the process dies.\<close>

datatype fate = Works nat | Fails | Dies

record disk =
  dk_files :: "pystr \<Rightarrow> disk_file option"
  dk_dirs :: "pystr list"
  dk_uid :: nat
  dk_calls :: nat

text \<open>\<open>None\<close> is the death of the process, which no handler sees.\<close>

type_synonym 'a posix = "(disk, provider_error option, 'a) action"

definition os_error :: provider_error where "os_error = Other_Error ''OSError''"

definition system_call :: "(nat \<Rightarrow> fate) \<Rightarrow> (nat \<Rightarrow> disk \<Rightarrow> ('a \<times> disk) option) \<Rightarrow> 'a posix" where
  "system_call fate f dk = (let dk' = dk\<lparr>dk_calls := Suc (dk_calls dk)\<rparr> in
     case fate (dk_calls dk) of
       Works n \<Rightarrow> (case f n dk' of None \<Rightarrow> (Inl (Some os_error), dk') | Some (a, dk'') \<Rightarrow> (Inr a, dk''))
     | Fails \<Rightarrow> (Inl (Some os_error), dk')
     | Dies \<Rightarrow> (Inl None, dk'))"

definition raise_os :: "provider_error \<Rightarrow> 'a posix" where
  "raise_os e = pure_op (Inl (Some e))"

definition handling :: "'a posix \<Rightarrow> (provider_error \<Rightarrow> 'a posix) \<Rightarrow> 'a posix" where
  "handling f h = try_op f (\<lambda>e. case e of None \<Rightarrow> pure_op (Inl None) | Some x \<Rightarrow> h x) (\<lambda>a. pure_op (Inr a))"

definition private_mode :: nat where "private_mode = 384"

definition put_file :: "pystr \<Rightarrow> disk_file option \<Rightarrow> disk \<Rightarrow> disk" where
  "put_file p x dk = dk\<lparr>dk_files := (dk_files dk)(p := x)\<rparr>"

definition make_dir :: "(nat \<Rightarrow> fate) \<Rightarrow> pystr \<Rightarrow> unit posix" where
  "make_dir fate d = system_call fate (\<lambda>_ dk. Some ((), dk\<lparr>dk_dirs := List.insert d (dk_dirs dk)\<rparr>))"

definition create_file :: "(nat \<Rightarrow> fate) \<Rightarrow> pystr \<Rightarrow> pystr \<Rightarrow> unit posix" where
  "create_file fate d p = system_call fate (\<lambda>_ dk. if d \<notin> set (dk_dirs dk) \<or> dk_files dk p \<noteq> None then None
     else Some ((), put_file p (Some \<lparr>fi_data = [], fi_mode = private_mode, fi_owner = dk_uid dk, fi_kind = Regular\<rparr>) dk))"

definition change_mode :: "(nat \<Rightarrow> fate) \<Rightarrow> pystr \<Rightarrow> unit posix" where
  "change_mode fate p = system_call fate (\<lambda>_ dk. Some ((), put_file p (map_option (\<lambda>x. x\<lparr>fi_mode := private_mode\<rparr>) (dk_files dk p)) dk))"

definition append_bytes :: "(nat \<Rightarrow> fate) \<Rightarrow> pystr \<Rightarrow> nat list \<Rightarrow> nat posix" where
  "append_bytes fate p bs = system_call fate (\<lambda>n dk. Some (min (Suc n) (length bs),
     put_file p (map_option (\<lambda>x. x\<lparr>fi_data := fi_data x @ take (Suc n) bs\<rparr>) (dk_files dk p)) dk))"

text \<open>A call without effect on the files: opening for reading, \<open>fsync\<close>.\<close>

definition idle_call :: "(nat \<Rightarrow> fate) \<Rightarrow> unit posix" where
  "idle_call fate = system_call fate (\<lambda>_ dk. Some ((), dk))"

definition rename_file :: "(nat \<Rightarrow> fate) \<Rightarrow> pystr \<Rightarrow> pystr \<Rightarrow> unit posix" where
  "rename_file fate p q = system_call fate (\<lambda>_ dk. Some ((), put_file p None (put_file q (dk_files dk p) dk)))"

definition unlink_file :: "(nat \<Rightarrow> fate) \<Rightarrow> pystr \<Rightarrow> unit posix" where
  "unlink_file fate p = system_call fate (\<lambda>_ dk. Some ((), put_file p None dk))"

section \<open>The Linux store\<close>

text \<open>The state is kept in the file \<open>name\<close> of a directory; the suffix of the temporary file is random.\<close>

definition in_dir :: "pystr \<Rightarrow> pystr \<Rightarrow> pystr" where
  "in_dir d name = d @ [47] @ name"

definition temporary :: "pystr \<Rightarrow> pystr \<Rightarrow> pystr \<Rightarrow> pystr" where
  "temporary d name token = in_dir d (u ''.'' @ name @ u ''.'' @ token @ u ''.tmp'')"

fun write_all :: "(nat \<Rightarrow> fate) \<Rightarrow> nat \<Rightarrow> pystr \<Rightarrow> nat list \<Rightarrow> unit posix" where
  "write_all fate 0 p bs = pure_op (Inr ())"
| "write_all fate (Suc k) p bs = (if bs = [] then pure_op (Inr ())
     else then_op (append_bytes fate p bs) (\<lambda>n. write_all fate k p (drop n bs)))"

definition discard :: "(nat \<Rightarrow> fate) \<Rightarrow> pystr \<Rightarrow> unit posix" where
  "discard fate p = handling (unlink_file fate p) (\<lambda>_. pure_op (Inr ()))"

definition fill_temporary :: "(nat \<Rightarrow> fate) \<Rightarrow> pystr \<Rightarrow> nat list \<Rightarrow> unit posix" where
  "fill_temporary fate p blob = handling
     (then_op (change_mode fate p) (\<lambda>_. then_op (write_all fate (length blob) p blob) (\<lambda>_. idle_call fate)))
     (\<lambda>_. then_op (discard fate p) (\<lambda>_. raise_os (unavailable ''OAuth credential file could not be written'')))"

definition prepare_temporary :: "(nat \<Rightarrow> fate) \<Rightarrow> pystr \<Rightarrow> pystr \<Rightarrow> nat list \<Rightarrow> unit posix" where
  "prepare_temporary fate d p blob =
     then_op (handling (make_dir fate d) (\<lambda>_. raise_os (unavailable ''OAuth credential directory could not be created''))) (\<lambda>_.
     then_op (handling (create_file fate d p) (\<lambda>_. raise_os (unavailable ''OAuth credential file could not be created''))) (\<lambda>_.
       fill_temporary fate p blob))"

definition install_file :: "(nat \<Rightarrow> fate) \<Rightarrow> pystr \<Rightarrow> pystr \<Rightarrow> unit posix" where
  "install_file fate p q = handling (rename_file fate p q)
     (\<lambda>_. then_op (discard fate p) (\<lambda>_. raise_os (unavailable ''OAuth credential file could not be replaced'')))"

definition sync_directory :: "(nat \<Rightarrow> fate) \<Rightarrow> unit posix" where
  "sync_directory fate = handling (idle_call fate) (\<lambda>_. pure_op (Inr ()))"

definition linux_save :: "token_format \<Rightarrow> (nat \<Rightarrow> fate) \<Rightarrow> pystr \<Rightarrow> pystr \<Rightarrow> pystr \<Rightarrow> token_state \<Rightarrow> unit posix" where
  "linux_save tf fate d name token t =
     (case encode_token tf t of
        Inl e \<Rightarrow> raise_os e
      | Inr blob \<Rightarrow>
          then_op (prepare_temporary fate d (temporary d name token) blob) (\<lambda>_.
          then_op (install_file fate (temporary d name token) (in_dir d name)) (\<lambda>_. sync_directory fate)))"

text \<open>Reading stops at the end of the file or beyond the limit.\<close>

fun read_all :: "(nat \<Rightarrow> fate) \<Rightarrow> nat \<Rightarrow> nat list \<Rightarrow> nat list \<Rightarrow> nat list posix" where
  "read_all fate 0 got rest = pure_op (Inr got)"
| "read_all fate (Suc k) got rest =
     then_op (handling (system_call fate (\<lambda>n dk. Some (min (Suc n) 4096, dk))) (\<lambda>_. raise_os (unavailable ''OAuth credential file is unreadable''))) (\<lambda>n.
       if rest = [] then pure_op (Inr got)
       else if max_blob < length (got @ take n rest) then pure_op (Inr (got @ take n rest))
       else read_all fate k (got @ take n rest) (drop n rest))"

definition verify_file :: "disk \<Rightarrow> disk_file \<Rightarrow> provider_error + unit" where
  "verify_file dk x = (if fi_kind x \<noteq> Regular then Inl (unavailable ''OAuth credential path is not a regular file'')
     else if fi_mode x \<noteq> private_mode then Inl (unavailable ''OAuth credential file must be readable only by its owner'')
     else if fi_owner x \<noteq> dk_uid dk then Inl (unavailable ''OAuth credential file is owned by another user'') else Inr ())"

definition linux_load :: "token_format \<Rightarrow> (nat \<Rightarrow> fate) \<Rightarrow> pystr \<Rightarrow> pystr \<Rightarrow> token_state option posix" where
  "linux_load tf fate d name =
     then_op (handling (idle_call fate) (\<lambda>_. raise_os (unavailable ''OAuth credential file is unreadable''))) (\<lambda>_ dk.
       case dk_files dk (in_dir d name) of
         None \<Rightarrow> (Inr None, dk)
       | Some x \<Rightarrow>
           if fi_kind x = Symlink then (Inl (Some (unavailable ''OAuth credential path is a symbolic link'')), dk)
           else (case verify_file dk x of
               Inl e \<Rightarrow> (Inl (Some e), dk)
             | Inr _ \<Rightarrow> then_op (read_all fate (Suc (length (fi_data x))) [] (fi_data x)) (\<lambda>blob. pure_op
                 (if max_blob < length blob then Inl (Some (unavailable ''Stored OAuth credential is too large''))
                  else case decode_token tf blob of Inl e \<Rightarrow> Inl (Some e) | Inr t \<Rightarrow> Inr (Some t))) dk))"

section \<open>Saving is atomic\<close>

definition only_at :: "pystr \<Rightarrow> disk \<Rightarrow> disk \<Rightarrow> bool" where
  "only_at p dk dk' \<longleftrightarrow> dk_uid dk' = dk_uid dk \<and> (\<forall>q. q \<noteq> p \<longrightarrow> dk_files dk' q = dk_files dk q)"

lemma preorder_only_at: "preorder (only_at p)"
  unfolding preorder_def only_at_def by (auto intro!: reflpI transpI)

lemma keeps_call: "(\<And>n dk a dk'. f n dk = Some (a, dk') \<Longrightarrow> only_at p dk dk') \<Longrightarrow> keeps (only_at p) (system_call fate f)"
  by (auto simp: keeps_def system_call_def Let_def only_at_def split: fate.split option.split)

lemma keeps_handling: "preorder R \<Longrightarrow> keeps R f \<Longrightarrow> (\<And>e. keeps R (h e)) \<Longrightarrow> keeps R (handling f h)"
  unfolding handling_def by (auto intro!: keeps_try keeps_pure split: option.split)

lemmas at_intros = keeps_then [OF preorder_only_at] keeps_pure [OF preorder_only_at] keeps_handling [OF preorder_only_at] keeps_call

lemma calls_at:
  "keeps (only_at p) (make_dir fate d)" "keeps (only_at p) (create_file fate d p)" "keeps (only_at p) (change_mode fate p)"
  "keeps (only_at p) (append_bytes fate p bs)" "keeps (only_at p) (idle_call fate)" "keeps (only_at p) (unlink_file fate p)"
  "keeps (only_at p) (discard fate p)" "keeps (only_at p) (raise_os e)"
  unfolding make_dir_def create_file_def change_mode_def append_bytes_def idle_call_def unlink_file_def discard_def raise_os_def
  by (auto intro!: at_intros simp: only_at_def put_file_def split: if_splits)

lemma write_all_at: "keeps (only_at p) (write_all fate k p bs)"
  by (induction k arbitrary: bs) (auto intro!: at_intros calls_at)

lemma fill_at: "keeps (only_at p) (fill_temporary fate p blob)"
  unfolding fill_temporary_def by (intro at_intros calls_at write_all_at)

lemma system_call_Inr: "system_call fate f dk = (Inr a, dk') \<Longrightarrow>
    \<exists>n. f n (dk\<lparr>dk_calls := Suc (dk_calls dk)\<rparr>) = Some (a, dk')"
  by (auto simp: system_call_def Let_def split: fate.splits option.splits)

lemma handling_Inr: "handling f h dk = (Inr a, dk') \<Longrightarrow>
    f dk = (Inr a, dk') \<or> (\<exists>e dk1. f dk = (Inl (Some e), dk1) \<and> h e dk1 = (Inr a, dk'))"
  by (auto simp: handling_def try_op_eq split: option.splits)

lemma raise_Inr [simp]: "raise_os e dk \<noteq> (Inr a, dk')"
  by (simp add: raise_os_def)

lemma append_Inr:
  assumes "append_bytes fate p bs dk = (Inr n, dk')" and "dk_files dk p = Some x" and "bs \<noteq> []"
  shows "0 < n \<and> n \<le> length bs \<and> dk_files dk' p = Some (x\<lparr>fi_data := fi_data x @ take n bs\<rparr>)"
  using system_call_Inr [OF assms(1) [unfolded append_bytes_def]] assms(2,3)
  by (auto simp: put_file_def min_def)

lemma write_all_Inr:
  assumes "write_all fate k p bs dk = (Inr (), dk')" and "dk_files dk p = Some x" and "length bs \<le> k"
  shows "dk_files dk' p = Some (x\<lparr>fi_data := fi_data x @ bs\<rparr>)"
  using assms
proof (induction k arbitrary: bs dk x)
  case (Suc k)
  show ?case
  proof (cases "bs = []")
    case False
    then obtain n dk1 where a: "append_bytes fate p bs dk = (Inr n, dk1)" "write_all fate k p (drop n bs) dk1 = (Inr (), dk')"
      using Suc.prems(1) by (auto simp: then_op_Inr)
    note n = append_Inr [OF a(1) Suc.prems(2) False]
    have "length (drop n bs) \<le> k" using n Suc.prems(3) by (simp, linarith)
    with Suc.IH [OF a(2), of "x\<lparr>fi_data := fi_data x @ take n bs\<rparr>"] n show ?thesis by simp
  qed (use Suc.prems in simp)
qed simp

definition private_file :: "nat \<Rightarrow> nat list \<Rightarrow> disk_file" where
  "private_file owner blob = \<lparr>fi_data = blob, fi_mode = private_mode, fi_owner = owner, fi_kind = Regular\<rparr>"

lemma create_Inr: "create_file fate d p dk = (Inr (), dk') \<Longrightarrow> dk_files dk' p = Some (private_file (dk_uid dk) []) \<and> dk_uid dk' = dk_uid dk"
  by (auto simp: create_file_def put_file_def private_file_def dest!: system_call_Inr split: if_splits)

lemma fill_Inr:
  assumes "fill_temporary fate p blob dk = (Inr (), dk')" and "dk_files dk p = Some (private_file n [])"
  shows "dk_files dk' p = Some (private_file n blob)"
proof -
  obtain dk1 dk2 where c: "change_mode fate p dk = (Inr (), dk1)" "write_all fate (length blob) p blob dk1 = (Inr (), dk2)" "idle_call fate dk2 = (Inr (), dk')"
    using handling_Inr [OF assms(1) [unfolded fill_temporary_def]] by (auto simp: then_op_Inr)
  have "dk_files dk1 p = Some (private_file n [])"
    using system_call_Inr [OF c(1) [unfolded change_mode_def]] assms(2) by (auto simp: put_file_def private_file_def)
  from write_all_Inr [OF c(2) this] have "dk_files dk2 p = Some (private_file n blob)" by (simp add: private_file_def)
  with system_call_Inr [OF c(3) [unfolded idle_call_def]] show ?thesis by auto
qed

lemma rename_result:
  assumes "rename_file fate p q dk = (r, dk')" and "p \<noteq> q"
  shows "if r = Inr () then dk_files dk' = (dk_files dk)(q := dk_files dk p, p := None) else dk_files dk' = dk_files dk"
  using assms by (auto simp: rename_file_def system_call_def Let_def put_file_def split: fate.splits)

lemma temporary_differs: "temporary d name token \<noteq> in_dir d name"
proof
  assume "temporary d name token = in_dir d name"
  then have "length (temporary d name token) = length (in_dir d name)" by simp
  then show False by (simp add: temporary_def in_dir_def u_def)
qed

text \<open>What an operation that is not the rename leaves: nothing but the temporary file is touched.\<close>

lemma only_atD: "keeps (only_at p) f \<Longrightarrow> f dk = (r, dk') \<Longrightarrow> q \<noteq> p \<Longrightarrow> dk_files dk' q = dk_files dk q"
  using keepsD [of "only_at p" f dk r dk'] by (auto simp: only_at_def)

lemma prepare_at: "keeps (only_at p) (prepare_temporary fate d p blob)"
  unfolding prepare_temporary_def by (intro at_intros calls_at fill_at)

lemma prepare_Inr:
  assumes "prepare_temporary fate d p blob dk = (Inr (), dk')"
  shows "dk_files dk' p = Some (private_file (dk_uid dk) blob)"
proof -
  obtain dk1 dk2 where s: "handling (make_dir fate d) (\<lambda>_. raise_os (unavailable ''OAuth credential directory could not be created'')) dk = (Inr (), dk1)"
    "handling (create_file fate d p) (\<lambda>_. raise_os (unavailable ''OAuth credential file could not be created'')) dk1 = (Inr (), dk2)"
    "fill_temporary fate p blob dk2 = (Inr (), dk')"
    using assms by (auto simp: prepare_temporary_def then_op_Inr)
  have "make_dir fate d dk = (Inr (), dk1)" using handling_Inr [OF s(1)] by auto
  then have "dk_uid dk1 = dk_uid dk" using keepsD [OF calls_at(1)] by (auto simp: only_at_def)
  moreover have "create_file fate d p dk1 = (Inr (), dk2)" using handling_Inr [OF s(2)] by auto
  ultimately show ?thesis using create_Inr fill_Inr [OF s(3)] by metis
qed

lemma install_cases:
  assumes "install_file fate p q dk = (r, dk')" and "p \<noteq> q"
  shows "(r = Inr () \<and> dk_files dk' = (dk_files dk)(q := dk_files dk p, p := None)) \<or> (r \<noteq> Inr () \<and> (\<forall>x. x \<noteq> p \<longrightarrow> dk_files dk' x = dk_files dk x))"
proof -
  obtain b dk1 where b: "rename_file fate p q dk = (b, dk1)" by (rule prod.exhaust)
  note files = rename_result [OF b assms(2)]
  show ?thesis
  proof (cases "\<exists>y. b = Inl (Some y)")
    case False
    with assms(1) b files show ?thesis
      by (cases b) (auto simp: install_file_def handling_def try_op_def pure_op_def split: option.splits)
  next
    case True
    let ?h = "then_op (discard fate p) (\<lambda>_. raise_os (unavailable ''OAuth credential file could not be replaced'')) :: unit posix"
    have h: "?h dk1 = (r, dk')" using True assms(1) b by (cases "?h dk1") (auto simp: install_file_def handling_def try_op_def pure_op_def split: sum.splits)
    have "keeps (only_at p) ?h" by (intro at_intros calls_at)
    from only_atD [OF this h] have "\<forall>x. x \<noteq> p \<longrightarrow> dk_files dk' x = dk_files dk1 x" by blast
    moreover have "r \<noteq> Inr ()" using h by (auto simp: then_op_Inr)
    ultimately show ?thesis using files True by auto
  qed
qed

lemma sync_result: "sync_directory fate dk = (r, dk') \<Longrightarrow> dk_files dk' = dk_files dk \<and> (r = Inr () \<or> r = Inl None)"
  by (auto simp: sync_directory_def handling_def try_op_def idle_call_def system_call_def Let_def pure_op_def split: fate.splits)

text \<open>
C8: Saving a token is atomic, under any mixture of failing system calls, short writes and death of the
process. Afterwards the credential file is what it was, or it is the complete new state, private to its
owner; it is new whenever saving returned, and old whenever saving raised an error; no other file but
the temporary one was touched.
\<close>
theorem saving_is_atomic:
  assumes "linux_save tf fate d name token t dk = (r, dk')"
  shows "(\<forall>q. q \<noteq> temporary d name token \<and> q \<noteq> in_dir d name \<longrightarrow> dk_files dk' q = dk_files dk q)
    \<and> ((dk_files dk' (in_dir d name) = dk_files dk (in_dir d name) \<and> r \<noteq> Inr ())
      \<or> (\<exists>blob. encode_token tf t = Inr blob \<and> dk_files dk' (in_dir d name) = Some (private_file (dk_uid dk) blob)
          \<and> (r = Inr () \<or> r = Inl None)))"
proof (cases "encode_token tf t")
  case (Inl e)
  with assms show ?thesis by (auto simp: linux_save_def raise_os_def)
next
  case (Inr blob)
  let ?p = "temporary d name token" and ?q = "in_dir d name"
  obtain a dk1 where a: "prepare_temporary fate d ?p blob dk = (a, dk1)" by (rule prod.exhaust)
  have old: "q \<noteq> ?p \<Longrightarrow> dk_files dk1 q = dk_files dk q" for q using only_atD [OF prepare_at a] .
  obtain b dk2 where b: "install_file fate ?p ?q dk1 = (b, dk2)" by (rule prod.exhaust)
  note swap = install_cases [OF b temporary_differs]
  show ?thesis
  proof (cases "a = Inr () \<and> b = Inr ()")
    case False
    with assms Inr a b have "r \<noteq> Inr () \<and> (dk' = dk1 \<or> (b \<noteq> Inr () \<and> dk' = dk2))"
      by (cases a; cases b) (auto simp: linux_save_def then_op_def)
    with old swap temporary_differs show ?thesis by metis
  next
    case True
    have "sync_directory fate dk2 = (r, dk')" using assms Inr a b True by (simp add: linux_save_def then_op_def)
    from sync_result [OF this] swap True prepare_Inr [of fate d ?p blob dk dk1] a old Inr temporary_differs [of d name token]
    show ?thesis by auto
  qed
qed

section \<open>What was saved is loaded\<close>

definition working :: "(nat \<Rightarrow> fate) \<Rightarrow> bool" where
  "working fate \<longleftrightarrow> (\<forall>k. \<exists>n. fate k = Works n)"

lemma working_call:
  assumes "working fate"
  obtains n where "system_call fate f dk = (case f n (dk\<lparr>dk_calls := Suc (dk_calls dk)\<rparr>) of
      None \<Rightarrow> (Inl (Some os_error), dk\<lparr>dk_calls := Suc (dk_calls dk)\<rparr>) | Some (a, dk') \<Rightarrow> (Inr a, dk'))"
proof -
  obtain n where "fate (dk_calls dk) = Works n" using assms by (auto simp: working_def)
  then show ?thesis by (intro that [of n]) (simp add: system_call_def Let_def)
qed

lemma read_all_working:
  assumes "working fate" and "length rest < k" and "length (got @ rest) \<le> max_blob"
  shows "\<exists>dk'. read_all fate k got rest dk = (Inr (got @ rest), dk')"
  using assms(2,3)
proof (induction k arbitrary: got rest dk)
  case (Suc k)
  obtain n dk1 where c: "system_call fate (\<lambda>n dk. Some (min (Suc n) 4096, dk)) dk = (Inr (min (Suc n) 4096), dk1)"
    by (rule working_call [OF assms(1), of "\<lambda>n dk. Some (min (Suc n) 4096, dk)" dk]) simp
  let ?n = "min (Suc n) 4096"
  show ?case
  proof (cases "rest = []")
    case True
    with c show ?thesis by (auto simp: then_op_def handling_def try_op_def pure_op_def)
  next
    case False
    have "length (drop ?n rest) < k" using Suc.prems(1) False by (cases rest) auto
    moreover have "length ((got @ take ?n rest) @ drop ?n rest) \<le> max_blob" using Suc.prems(2) by simp
    ultimately obtain dk' where "read_all fate k (got @ take ?n rest) (drop ?n rest) dk1 = (Inr ((got @ take ?n rest) @ drop ?n rest), dk')"
      using Suc.IH by blast
    moreover have "length (got @ take ?n rest) \<le> max_blob" using Suc.prems(2) by auto
    ultimately show ?thesis using c False by (auto simp: then_op_def handling_def try_op_def pure_op_def)
  qed
qed simp

definition same_user :: "disk \<Rightarrow> disk \<Rightarrow> bool" where
  "same_user dk dk' \<longleftrightarrow> dk_uid dk' = dk_uid dk"

lemma preorder_same_user: "preorder same_user"
  unfolding preorder_def same_user_def by (auto intro!: reflpI transpI)

lemma user_call: "(\<And>n dk a dk'. f n dk = Some (a, dk') \<Longrightarrow> same_user dk dk') \<Longrightarrow> keeps same_user (system_call fate f)"
  by (auto simp: keeps_def system_call_def Let_def same_user_def split: fate.split option.split)

lemmas user_intros = keeps_then [OF preorder_same_user] keeps_pure [OF preorder_same_user] keeps_handling [OF preorder_same_user] user_call

lemma write_all_user: "keeps same_user (write_all fate k p bs)"
  by (induction k arbitrary: bs) (auto intro!: user_intros simp: append_bytes_def same_user_def put_file_def)

lemma save_user: "keeps same_user (linux_save tf fate d name token t)"
  unfolding linux_save_def prepare_temporary_def install_file_def sync_directory_def fill_temporary_def discard_def raise_os_def
    make_dir_def create_file_def change_mode_def idle_call_def unlink_file_def rename_file_def
  by (auto intro!: user_intros write_all_user simp: same_user_def put_file_def split: sum.split if_splits)

text \<open>
C28: A token that was saved is read back unchanged: when saving has returned, however many bytes the system
took at a time, a load by the same user with working system calls gives the same state.
\<close>
theorem saved_token_is_loaded:
  assumes "sound_format tf" and "linux_save tf fate d name token t dk = (Inr (), dk')" and "working fate'"
  shows "\<exists>dk''. linux_load tf fate' d name dk' = (Inr (Some t), dk'')"
proof -
  obtain blob where b: "encode_token tf t = Inr blob" "dk_files dk' (in_dir d name) = Some (private_file (dk_uid dk) blob)"
    using saving_is_atomic [OF assms(2)] by auto
  have user: "dk_uid dk' = dk_uid dk" using keepsD [OF save_user assms(2)] by (simp add: same_user_def)
  have dec: "decode_token tf blob = Inr t" "length blob \<le> max_blob" using decode_encode [OF assms(1) b(1)] by simp_all
  let ?dk = "dk'\<lparr>dk_calls := Suc (dk_calls dk')\<rparr>"
  have idle: "idle_call fate' dk' = (Inr (), ?dk)"
    by (rule working_call [OF assms(3), of "\<lambda>_ dk. Some ((), dk)" dk']) (simp add: idle_call_def)
  obtain dk2 where r: "read_all fate' (Suc (length blob)) [] blob ?dk = (Inr blob, dk2)"
    using read_all_working [OF assms(3), of blob "Suc (length blob)" "[]" ?dk] dec(2) by auto
  have "verify_file ?dk (private_file (dk_uid dk) blob) = Inr ()" using user by (simp add: verify_file_def private_file_def)
  with r b(2) dec show ?thesis
    by (simp add: linux_load_def handling_def idle then_op_def [of "try_op _ _ _"] try_op_def pure_op_def private_file_def then_op_def)
qed

end
