(* ===== verification/OAuth_Locks.thy ===== *)
theory OAuth_Locks
  imports OAuth_Stores
begin

text \<open>
  The locks that serialise a token refresh: the named mutex of Windows (\<open>oauth_credentials.py\<close>) and the locked
  file of Linux (\<open>linux_oauth_credentials.py\<close>). Both meet one interface: what was opened is closed, what was
  acquired is released, however the guarded operation ends.
\<close>

section \<open>The interface\<close>

text \<open>What happens to the handle of a lock; the state notes it beside the handle itself.\<close>

datatype lock_event = Opened_It | Acquired_It | Released_It | Closed_It

record ('v, 'h) guarded =
  gu_world :: 'v
  gu_handle :: "'h option"
  gu_trail :: "lock_event list"

definition on_world :: "('v, 'a) call \<Rightarrow> (('v, 'h) guarded, 'a) call" where
  "on_world f g = (case f (gu_world g) of (r, v) \<Rightarrow> (r, g\<lparr>gu_world := v\<rparr>))"

definition note_event :: "lock_event \<Rightarrow> (('v, 'h) guarded, unit) call" where
  "note_event e g = (Inr (), g\<lparr>gu_trail := gu_trail g @ [e]\<rparr>)"

definition set_handle :: "'h option \<Rightarrow> (('v, 'h) guarded, unit) call" where
  "set_handle h g = (Inr (), g\<lparr>gu_handle := h\<rparr>)"

locale session_lock =
  fixes enter leave :: "(('v, 'h) guarded, unit) call"
  assumes entered: "gu_handle g = None \<Longrightarrow> enter g = (Inr (), g') \<Longrightarrow>
      gu_handle g' \<noteq> None \<and> gu_trail g' = gu_trail g @ [Opened_It, Acquired_It]"
    and not_entered: "gu_handle g = None \<Longrightarrow> enter g = (Inl e, g') \<Longrightarrow>
      gu_handle g' = None \<and> gu_trail g' \<in> {gu_trail g, gu_trail g @ [Opened_It, Closed_It]}"
    and left: "gu_handle g \<noteq> None \<Longrightarrow> leave g = (r, g') \<Longrightarrow>
      gu_handle g' = None \<and> gu_trail g' = gu_trail g @ [Released_It, Closed_It]"
begin

lemma with_lock_balanced:
  assumes "gu_handle g = None" and "with_lock enter leave body g = (r, g')"
    and "\<And>g q g'. body g = (q, g') \<Longrightarrow> gu_handle g' = gu_handle g \<and> gu_trail g' = gu_trail g"
  shows "gu_handle g' = None \<and> gu_trail g' \<in> {gu_trail g, gu_trail g @ [Opened_It, Closed_It],
      gu_trail g @ [Opened_It, Acquired_It, Released_It, Closed_It]}"
  using with_lock_cases [OF assms(2)]
proof (elim disjE exE conjE)
  fix e assume "enter g = (Inl e, g')"
  from not_entered [OF assms(1) this] show ?thesis by auto
next
  fix w1 q w2
  assume e: "enter g = (Inr (), w1)" "body w1 = (q, w2)" "leave w2 = (Inr (), g')"
  note 1 = entered [OF assms(1) e(1)] and 2 = assms(3) [OF e(2)]
  with left [OF _ e(3)] show ?thesis by auto
next
  fix w1 q w2 e
  assume e: "enter g = (Inr (), w1)" "body w1 = (q, w2)" "leave w2 = (Inl e, g')"
  note 1 = entered [OF assms(1) e(1)] and 2 = assms(3) [OF e(2)]
  with left [OF _ e(3)] show ?thesis by auto
qed

lemma body_runs_locked:
  assumes "gu_handle g = None" and "with_lock enter leave body g = (Inr a, g')"
  shows "\<exists>g1 g2. body g1 = (Inr a, g2) \<and> gu_handle g1 \<noteq> None \<and> gu_trail g1 = gu_trail g @ [Opened_It, Acquired_It]"
  using with_lock_cases [OF assms(2)] entered [OF assms(1)] by auto

end

section \<open>The mutex of Windows\<close>

datatype wait_result = Acquired | Abandoned | Timed_Out | Wait_Failed

record ('v, 'h) mutex_api =
  mx_create :: "pystr \<Rightarrow> ('v, 'h) call"
  mx_wait :: "'h \<Rightarrow> nat \<Rightarrow> ('v, wait_result) call"
  mx_release :: "'h \<Rightarrow> ('v, unit) call"
  mx_close :: "'h \<Rightarrow> ('v, unit) call"

text \<open>The code of \<open>WaitForSingleObject\<close>.\<close>

definition wait_result_of :: "nat \<Rightarrow> wait_result" where
  "wait_result_of n = (if n = 0 then Acquired else if n = 128 then Abandoned else if n = 258 then Timed_Out else Wait_Failed)"

text \<open>The timeout in milliseconds, from a timeout in microseconds.\<close>

definition mutex_timeout :: "pystr \<Rightarrow> int \<Rightarrow> nat result" where
  "mutex_timeout target usec = guardE (is_blank target) (ValueError ''OAuth credential target name cannot be empty'')
     (guardE (usec \<le> 0) (ValueError ''OAuth mutex timeout must be positive'')
     (guardE (usec div 1000 \<le> 0 \<or> 4294967295 \<le> usec div 1000) (ValueError ''OAuth mutex timeout is out of range'')
       (Inr (nat (usec div 1000)))))"

definition mutex_name :: "(pystr \<Rightarrow> pystr) \<Rightarrow> pystr \<Rightarrow> pystr" where
  "mutex_name sha target = u ''Local'' @ [92] @ u ''LenkoBot.XaiOAuth.Refresh.'' @ sha target"

definition close_safely :: "('v, 'h) mutex_api \<Rightarrow> 'h \<Rightarrow> (('v, 'h) guarded, unit) call" where
  "close_safely mx h = then_op (note_event Closed_It) (\<lambda>_. try_op (on_world (mx_close mx h)) (\<lambda>_. pure_op (Inr ())) (\<lambda>_. pure_op (Inr ())))"

definition wait_and_keep :: "('v, 'h) mutex_api \<Rightarrow> nat \<Rightarrow> 'h \<Rightarrow> (('v, 'h) guarded, unit) call" where
  "wait_and_keep mx timeout h =
     try_op (on_world (mx_wait mx h timeout))
       (\<lambda>e. then_op (close_safely mx h) (\<lambda>_. pure_op (Inl (as_unavailable ''Windows OAuth mutex acquisition failed'' e))))
       (\<lambda>r. if r \<in> {Acquired, Abandoned} then then_op (note_event Acquired_It) (\<lambda>_. set_handle (Some h))
         else then_op (close_safely mx h) (\<lambda>_. pure_op (Inl (unavailable
            (if r = Timed_Out then ''Windows OAuth mutex timed out'' else ''Windows OAuth mutex wait failed'')))))"

definition mutex_enter :: "('v, 'h) mutex_api \<Rightarrow> pystr \<Rightarrow> nat \<Rightarrow> (('v, 'h) guarded, unit) call" where
  "mutex_enter mx name timeout g =
     (if gu_handle g \<noteq> None then (Inl (Other_Error ''OAuth mutex is already acquired''), g)
      else try_op (on_world (mx_create mx name))
        (\<lambda>e. pure_op (Inl (as_unavailable ''Windows OAuth mutex acquisition failed'' e)))
        (\<lambda>h. then_op (note_event Opened_It) (\<lambda>_. wait_and_keep mx timeout h)) g)"

definition mutex_leave :: "('v, 'h) mutex_api \<Rightarrow> (('v, 'h) guarded, unit) call" where
  "mutex_leave mx g = (case gu_handle g of
       None \<Rightarrow> (Inr (), g)
     | Some h \<Rightarrow> then_op (set_handle None) (\<lambda>_. then_op (note_event Released_It) (\<lambda>_.
         try_op (on_world (mx_release mx h))
           (\<lambda>_. then_op (close_safely mx h) (\<lambda>_. pure_op (Inl (unavailable ''Windows OAuth mutex release failed''))))
           (\<lambda>_. then_op (note_event Closed_It) (\<lambda>_. try_op (on_world (mx_close mx h))
              (\<lambda>_. pure_op (Inl (unavailable ''Windows OAuth mutex close failed''))) (\<lambda>_. pure_op (Inr ())))))) g)"

lemma on_world_eq: "on_world f g = (r, g') \<Longrightarrow> gu_handle g' = gu_handle g \<and> gu_trail g' = gu_trail g"
  by (auto simp: on_world_def split: prod.splits)

lemma close_safely_eq: "close_safely mx h g = (r, g') \<Longrightarrow> r = Inr () \<and> gu_handle g' = gu_handle g \<and> gu_trail g' = gu_trail g @ [Closed_It]"
  by (auto simp: close_safely_def then_op_def note_event_def try_op_def pure_op_def on_world_def split: prod.splits sum.splits)

lemma wait_and_keep_eq:
  assumes "wait_and_keep mx timeout h g = (r, g')" and "gu_handle g = None"
  shows "(r = Inr () \<and> gu_handle g' = Some h \<and> gu_trail g' = gu_trail g @ [Acquired_It])
    \<or> (r \<noteq> Inr () \<and> gu_handle g' = None \<and> gu_trail g' = gu_trail g @ [Closed_It])"
proof -
  obtain a g1 where a: "on_world (mx_wait mx h timeout) g = (a, g1)" by (rule prod.exhaust)
  obtain b g2 where b: "close_safely mx h g1 = (b, g2)" by (rule prod.exhaust)
  from assms a b on_world_eq [OF a] close_safely_eq [OF b] show ?thesis
    by (cases a) (auto simp: wait_and_keep_def try_op_def then_op_def note_event_def set_handle_def pure_op_def split: if_splits)
qed

interpretation windows_mutex: session_lock "mutex_enter mx name timeout" "mutex_leave mx"
  for mx :: "('v, 'h) mutex_api" and name timeout
proof
  fix g g' :: "('v, 'h) guarded" and e :: provider_error and r :: "provider_error + unit"
  obtain a g1 where a: "on_world (mx_create mx name) g = (a, g1)" by (rule prod.exhaust)
  have step: "(q = Inr () \<and> gu_handle g' \<noteq> None \<and> gu_trail g' = gu_trail g @ [Opened_It, Acquired_It])
      \<or> (q \<noteq> Inr () \<and> gu_handle g' = None \<and> gu_trail g' \<in> {gu_trail g, gu_trail g @ [Opened_It, Closed_It]})"
    if "gu_handle g = None" "mutex_enter mx name timeout g = (q, g')" for q
  proof (cases a)
    case (Inl x)
    with that a on_world_eq [OF a] show ?thesis by (auto simp: mutex_enter_def try_op_def pure_op_def)
  next
    case (Inr h)
    let ?g = "g1\<lparr>gu_trail := gu_trail g1 @ [Opened_It]\<rparr>"
    have "wait_and_keep mx timeout h ?g = (q, g')" using that a Inr by (simp add: mutex_enter_def try_op_def then_op_def note_event_def)
    from wait_and_keep_eq [OF this] on_world_eq [OF a] that(1) show ?thesis by auto
  qed
  show "gu_handle g' \<noteq> None \<and> gu_trail g' = gu_trail g @ [Opened_It, Acquired_It]"
    if "gu_handle g = None" "mutex_enter mx name timeout g = (Inr (), g')" using step [OF that] by auto
  show "gu_handle g' = None \<and> gu_trail g' \<in> {gu_trail g, gu_trail g @ [Opened_It, Closed_It]}"
    if "gu_handle g = None" "mutex_enter mx name timeout g = (Inl e, g')" using step [OF that] by auto
  show "gu_handle g' = None \<and> gu_trail g' = gu_trail g @ [Released_It, Closed_It]"
    if "gu_handle g \<noteq> None" "mutex_leave mx g = (r, g')"
  proof -
    from that(1) obtain h where h: "gu_handle g = Some h" by auto
    let ?g = "g\<lparr>gu_handle := None, gu_trail := gu_trail g @ [Released_It]\<rparr>"
    obtain b g2 where b: "on_world (mx_release mx h) ?g = (b, g2)" by (rule prod.exhaust)
    obtain c g3 where c: "close_safely mx h g2 = (c, g3)" by (rule prod.exhaust)
    obtain d g4 where d: "on_world (mx_close mx h) (g2\<lparr>gu_trail := gu_trail g2 @ [Closed_It]\<rparr>) = (d, g4)" by (rule prod.exhaust)
    from that(2) h b c d on_world_eq [OF b] close_safely_eq [OF c] on_world_eq [OF d] show ?thesis
      by (cases b; cases d) (auto simp: mutex_leave_def then_op_def set_handle_def note_event_def try_op_def pure_op_def)
  qed
qed

section \<open>The locked file of Linux\<close>

record ('v, 'h) lock_api =
  lk_open :: "('v, 'h) call"
  lk_lock :: "'h \<Rightarrow> ('v, bool) call"
  lk_unlock :: "'h \<Rightarrow> ('v, unit) call"
  lk_close :: "'h \<Rightarrow> ('v, unit) call"
  lk_now :: "'v \<Rightarrow> int"
  lk_sleep :: "'v \<Rightarrow> 'v"
  lk_timeout :: int

definition check_lock_times :: "int \<Rightarrow> int \<Rightarrow> unit result" where
  "check_lock_times timeout interval = guardE (timeout \<le> 0) (ValueError ''OAuth lock timeout must be positive'')
     (guardE (interval \<le> 0) (ValueError ''OAuth lock poll interval must be positive'') (Inr ()))"

definition close_descriptor :: "('v, 'h) lock_api \<Rightarrow> 'h \<Rightarrow> (('v, 'h) guarded, unit) call" where
  "close_descriptor lk h = then_op (note_event Closed_It) (\<lambda>_. on_world (lk_close lk h))"

definition give_up :: "('v, 'h) lock_api \<Rightarrow> 'h \<Rightarrow> provider_error \<Rightarrow> (('v, 'h) guarded, unit) call" where
  "give_up lk h e = then_op (close_descriptor lk h) (\<lambda>_. pure_op (Inl e))"

text \<open>The loop tries at most \<open>n\<close> times; the clock ends it before, see below.\<close>

fun lock_attempts :: "('v, 'h) lock_api \<Rightarrow> nat \<Rightarrow> int \<Rightarrow> 'h \<Rightarrow> (('v, 'h) guarded, unit) call" where
  "lock_attempts lk 0 deadline h = give_up lk h (unavailable ''OAuth refresh lock timed out'')"
| "lock_attempts lk (Suc n) deadline h =
     try_op (on_world (lk_lock lk h)) (\<lambda>e. give_up lk h e)
       (\<lambda>got g. if got then then_op (note_event Acquired_It) (\<lambda>_. set_handle (Some h)) g
         else if deadline \<le> lk_now lk (gu_world g) then give_up lk h (unavailable ''OAuth refresh lock timed out'') g
         else lock_attempts lk n deadline h (g\<lparr>gu_world := lk_sleep lk (gu_world g)\<rparr>))"

definition linux_enter :: "('v, 'h) lock_api \<Rightarrow> nat \<Rightarrow> (('v, 'h) guarded, unit) call" where
  "linux_enter lk n g =
     (if gu_handle g \<noteq> None then (Inl (Other_Error ''OAuth lock is already acquired''), g)
      else try_op (on_world (lk_open lk)) (\<lambda>_. pure_op (Inl (unavailable ''OAuth lock file could not be opened'')))
        (\<lambda>h. then_op (note_event Opened_It) (\<lambda>_ g. lock_attempts lk n (lk_now lk (gu_world g) + lk_timeout lk) h g)) g)"

definition linux_leave :: "('v, 'h) lock_api \<Rightarrow> (('v, 'h) guarded, unit) call" where
  "linux_leave lk g = (case gu_handle g of
       None \<Rightarrow> (Inr (), g)
     | Some h \<Rightarrow> then_op (set_handle None) (\<lambda>_. then_op (note_event Released_It) (\<lambda>_.
         try_op (on_world (lk_unlock lk h)) (\<lambda>e. give_up lk h e) (\<lambda>_. close_descriptor lk h))) g)"

lemma close_descriptor_eq: "close_descriptor lk h g = (r, g') \<Longrightarrow> gu_handle g' = gu_handle g \<and> gu_trail g' = gu_trail g @ [Closed_It]"
  by (auto simp: close_descriptor_def then_op_def note_event_def dest: on_world_eq)

lemma give_up_eq:
  assumes "give_up lk h e g = (r, g')"
  shows "r \<noteq> Inr () \<and> gu_handle g' = gu_handle g \<and> gu_trail g' = gu_trail g @ [Closed_It]"
proof -
  obtain a g1 where a: "close_descriptor lk h g = (a, g1)" by (rule prod.exhaust)
  with assms close_descriptor_eq [OF a] show ?thesis by (cases a) (auto simp: give_up_def then_op_def pure_op_def)
qed

lemma lock_attempts_eq:
  assumes "lock_attempts lk n deadline h g = (r, g')" and "gu_handle g = None"
  shows "(r = Inr () \<and> gu_handle g' = Some h \<and> gu_trail g' = gu_trail g @ [Acquired_It])
    \<or> (r \<noteq> Inr () \<and> gu_handle g' = None \<and> gu_trail g' = gu_trail g @ [Closed_It])"
  using assms
proof (induction n arbitrary: g)
  case 0
  with give_up_eq [of lk h _ g r g'] show ?case by auto
next
  case (Suc n)
  obtain a g1 where a: "on_world (lk_lock lk h) g = (a, g1)" by (rule prod.exhaust)
  note 1 = on_world_eq [OF a]
  show ?case
  proof (cases a)
    case (Inl e)
    with Suc.prems a have "give_up lk h e g1 = (r, g')" by (simp add: try_op_def)
    from give_up_eq [OF this] 1 Suc.prems(2) show ?thesis by auto
  next
    case (Inr got)
    show ?thesis
    proof (cases "got \<or> deadline \<le> lk_now lk (gu_world g1)")
      case True
      with Suc.prems a Inr 1 give_up_eq [of lk h "unavailable ''OAuth refresh lock timed out''" g1 r g'] show ?thesis
        by (auto simp: try_op_def then_op_def note_event_def set_handle_def split: if_splits)
    next
      case False
      with Suc.prems a Inr 1 Suc.IH [of "g1\<lparr>gu_world := lk_sleep lk (gu_world g1)\<rparr>"] show ?thesis
        by (auto simp: try_op_def)
    qed
  qed
qed

interpretation linux_lock: session_lock "linux_enter lk n" "linux_leave lk" for lk :: "('v, 'h) lock_api" and n
proof
  fix g g' :: "('v, 'h) guarded" and e :: provider_error and r :: "provider_error + unit"
  obtain a g1 where a: "on_world (lk_open lk) g = (a, g1)" by (rule prod.exhaust)
  have step: "(q = Inr () \<and> gu_handle g' \<noteq> None \<and> gu_trail g' = gu_trail g @ [Opened_It, Acquired_It])
      \<or> (q \<noteq> Inr () \<and> gu_handle g' = None \<and> gu_trail g' \<in> {gu_trail g, gu_trail g @ [Opened_It, Closed_It]})"
    if "gu_handle g = None" "linux_enter lk n g = (q, g')" for q
  proof (cases a)
    case (Inl x)
    with that a on_world_eq [OF a] show ?thesis by (auto simp: linux_enter_def try_op_def pure_op_def)
  next
    case (Inr h)
    let ?g = "g1\<lparr>gu_trail := gu_trail g1 @ [Opened_It]\<rparr>"
    have "lock_attempts lk n (lk_now lk (gu_world g1) + lk_timeout lk) h ?g = (q, g')"
      using that a Inr by (simp add: linux_enter_def try_op_def then_op_def note_event_def)
    from lock_attempts_eq [OF this] on_world_eq [OF a] that(1) show ?thesis by auto
  qed
  show "gu_handle g' \<noteq> None \<and> gu_trail g' = gu_trail g @ [Opened_It, Acquired_It]"
    if "gu_handle g = None" "linux_enter lk n g = (Inr (), g')" using step [OF that] by auto
  show "gu_handle g' = None \<and> gu_trail g' \<in> {gu_trail g, gu_trail g @ [Opened_It, Closed_It]}"
    if "gu_handle g = None" "linux_enter lk n g = (Inl e, g')" using step [OF that] by auto
  show "gu_handle g' = None \<and> gu_trail g' = gu_trail g @ [Released_It, Closed_It]"
    if "gu_handle g \<noteq> None" "linux_leave lk g = (r, g')"
  proof -
    from that(1) obtain h where h: "gu_handle g = Some h" by auto
    let ?g = "g\<lparr>gu_handle := None, gu_trail := gu_trail g @ [Released_It]\<rparr>"
    obtain b g2 where b: "on_world (lk_unlock lk h) ?g = (b, g2)" by (rule prod.exhaust)
    from that(2) h b have "(\<exists>e. give_up lk h e g2 = (r, g')) \<or> close_descriptor lk h g2 = (r, g')"
      by (cases b) (auto simp: linux_leave_def then_op_def set_handle_def note_event_def try_op_def)
    with on_world_eq [OF b] give_up_eq [of lk h _ g2 r g'] close_descriptor_eq [of lk h g2 r g'] show ?thesis by auto
  qed
qed

section \<open>Properties of the locks\<close>

text \<open>
C27: No lock leaks. Whichever lock guards an operation, and however entering, the operation or leaving end:
afterwards the lock is free, every handle that was opened has been closed, and it was released exactly
when it had been acquired.
\<close>
theorem locks_never_leak:
  fixes g g' :: "('v, 'h) guarded"
  assumes "gu_handle g = None" and "\<And>x q y. body x = (q, y) \<Longrightarrow> gu_handle y = gu_handle x \<and> gu_trail y = gu_trail x"
    and "with_lock (mutex_enter mx name timeout) (mutex_leave mx) body g = (r, g') \<or> with_lock (linux_enter lk n) (linux_leave lk) body g = (r, g')"
  shows "gu_handle g' = None \<and> gu_trail g' \<in> {gu_trail g, gu_trail g @ [Opened_It, Closed_It],
      gu_trail g @ [Opened_It, Acquired_It, Released_It, Closed_It]}"
  using assms(3)
proof
  assume "with_lock (mutex_enter mx name timeout) (mutex_leave mx) body g = (r, g')"
  from windows_mutex.with_lock_balanced [OF assms(1) this assms(2)] show ?thesis .
next
  assume "with_lock (linux_enter lk n) (linux_leave lk) body g = (r, g')"
  from linux_lock.with_lock_balanced [OF assms(1) this assms(2)] show ?thesis .
qed

text \<open>The clock of the lock does not go back, and a sleep takes at least \<open>interval\<close>.\<close>

definition lock_clock :: "('v, 'h) lock_api \<Rightarrow> int \<Rightarrow> bool" where
  "lock_clock lk interval \<longleftrightarrow> (\<forall>v. lk_now lk v + interval \<le> lk_now lk (lk_sleep lk v))
     \<and> (\<forall>h v. lk_now lk v \<le> lk_now lk (snd (lk_lock lk h v)))"

lemma attempts_enough:
  assumes "lock_clock lk interval" and "0 < interval"
    and "deadline - lk_now lk (gu_world g) \<le> int n * interval" and "deadline - lk_now lk (gu_world g) \<le> int m * interval"
  shows "lock_attempts lk (Suc n) deadline h g = lock_attempts lk (Suc m) deadline h g"
  using assms(3,4)
proof (induction n arbitrary: m g)
  case 0
  obtain a g1 where a: "on_world (lk_lock lk h) g = (a, g1)" by (rule prod.exhaust)
  have "lk_now lk (gu_world g) \<le> lk_now lk (gu_world g1)"
    using a assms(1) by (auto simp: lock_clock_def on_world_def split: prod.splits) (metis snd_conv)
  with 0 a show ?case by (auto simp: try_op_def split: sum.split)
next
  case (Suc n)
  obtain a g1 where a: "on_world (lk_lock lk h) g = (a, g1)" by (rule prod.exhaust)
  have 1: "lk_now lk (gu_world g) \<le> lk_now lk (gu_world g1)"
    using a assms(1) by (auto simp: lock_clock_def on_world_def split: prod.splits) (metis snd_conv)
  let ?g = "g1\<lparr>gu_world := lk_sleep lk (gu_world g1)\<rparr>"
  have 2: "lk_now lk (gu_world g1) + interval \<le> lk_now lk (gu_world ?g)" using assms(1) by (simp add: lock_clock_def)
  show ?case
  proof (cases "deadline \<le> lk_now lk (gu_world g1)")
    case True
    with a show ?thesis by (auto simp: try_op_def split: sum.split)
  next
    case False
    then obtain m' where m: "m = Suc m'" using Suc.prems(2) 1 by (cases m) auto
    have "deadline - lk_now lk (gu_world ?g) \<le> int n * interval" "deadline - lk_now lk (gu_world ?g) \<le> int m' * interval"
      using Suc.prems 1 2 m by (auto simp: algebra_simps)
    from Suc.IH [OF this] a m show ?thesis by (simp add: try_op_def split: sum.split)
  qed
qed

text \<open>
The bound on the attempts cuts nothing off: the lock of Linux waits no longer than its timeout. With a
clock that goes on, any two bounds with room for the timeout give the same run.
\<close>
theorem linux_lock_waits_its_timeout:
  assumes "lock_clock lk interval" and "0 < interval" and "lk_timeout lk \<le> int n * interval" and "lk_timeout lk \<le> int m * interval"
  shows "linux_enter lk (Suc n) g = linux_enter lk (Suc m) g"
proof (cases "gu_handle g")
  case None
  obtain a g1 where a: "on_world (lk_open lk) g = (a, g1)" by (rule prod.exhaust)
  let ?g = "\<lambda>x. x\<lparr>gu_trail := gu_trail x @ [Opened_It]\<rparr>"
  have "lock_attempts lk (Suc n) (lk_now lk (gu_world (?g g1)) + lk_timeout lk) h (?g g1)
      = lock_attempts lk (Suc m) (lk_now lk (gu_world (?g g1)) + lk_timeout lk) h (?g g1)" for h
    by (rule attempts_enough [OF assms(1,2)]) (use assms(3,4) in simp_all)
  with None a show ?thesis
    by (cases a) (simp_all add: linux_enter_def try_op_def then_op_def note_event_def del: lock_attempts.simps)
qed (simp add: linux_enter_def)

text \<open>Opening the lock file with \<open>O_CREAT\<close> needs its directory, which only \<open>save\<close> creates.\<close>

definition open_lock_file :: "('v \<Rightarrow> pystr list) \<Rightarrow> pystr \<Rightarrow> ('v, 'h) call \<Rightarrow> ('v, 'h) call" where
  "open_lock_file dirs d opening v = (if d \<in> set (dirs v) then opening v else (Inl os_error, v))"

text \<open>
On Linux the first login fails. When the directory of the credential file does not exist yet, the device
authorization ends with an error although the user has confirmed it and a token was issued: the lock
file cannot be opened, the token is dropped and nothing is saved.
\<close>
theorem first_login_on_linux_fails:
  fixes w w' :: "('v, 'h) guarded"
  assumes "valid_authorization au = Inr ()" and "poll_for_token oh sleep au k (da_interval au) w = Some (Inr t, w')"
    and "gu_handle w' = None" and "lk_open lk = open_lock_file dirs d opening" and "d \<notin> set (dirs (gu_world w'))"
  shows "complete_device_authorization oh sleep (linux_enter lk n) (linux_leave lk) save k au w
    = Some (Inl (unavailable ''OAuth lock file could not be opened''), w')"
proof -
  have "on_world (lk_open lk) w' = (Inl os_error, w')" using assms(4,5) by (simp add: on_world_def open_lock_file_def)
  then have "linux_enter lk n w' = (Inl (unavailable ''OAuth lock file could not be opened''), w')"
    using assms(3) by (simp add: linux_enter_def try_op_def pure_op_def)
  with assms(1,2) show ?thesis by (simp add: complete_device_authorization_def with_lock_def bracket_def then_op_def)
qed

end
