(* ===== verification/OAuth_Example.thy ===== *)
theory OAuth_Example
  imports OAuth_Locks
begin

text \<open>The theorems on OAuth at concrete inputs: a clock that counts microseconds, a store, a lock without rivals.\<close>

section \<open>A token endpoint\<close>

definition demo_oauth_token :: token_state where
  "demo_oauth_token = \<lparr>ts_access = [65], ts_refresh = [82], ts_expires = Aware 63771670900000000\<rparr>"

definition demo_refresher :: "unit refresher" where
  "demo_refresher = \<lparr>rf_enter = pure_op (Inr ()), rf_leave = pure_op (Inr ()), rf_load = pure_op (Inr (Some (demo_oauth_token\<lparr>ts_expires := Aware 5\<rparr>))),
     rf_save = (\<lambda>_. pure_op (Inr ())), rf_refresh = (\<lambda>_. pure_op (Inr demo_oauth_token)), rf_now = (\<lambda>_. Aware 63771670800000000), rf_skew = 60\<rparr>"

theorem handed_out_token_is_fresh_witness:
  "get_access_token demo_refresher () = (Inr \<lparr>ac_value = [65], ac_expires = 63771670900000000\<rparr>, ()) "
proof -
  have d: "datetime_add 63771670800000000 60 = Inr 63771670800000060" by (simp add: datetime_add_def valid_datetime_def)
  have r: "get_access_token demo_refresher () = (Inr \<lparr>ac_value = [65], ac_expires = 63771670900000000\<rparr>, ())"
    by (simp add: get_access_token_def with_lock_def bracket_def current_token_def load_state_def try_op_def then_op_def pure_op_def read_op_def
      demo_refresher_def demo_oauth_token_def aware_def valid_state_def d renew_def demand_def ask_refresh_def save_state_def token_of_def
      is_blank_def is_space_def)
  have "0 \<le> rf_skew demo_refresher" by (simp add: demo_refresher_def)
  from handed_out_token_is_fresh [OF r this] r show ?thesis by (simp add: demo_refresher_def)
qed

text \<open>An endpoint that always asks to wait; the world is the time in microseconds.\<close>

definition pending :: http_response where
  "pending = \<lparr>hr_status = 400, hr_headers = [], hr_body = []\<rparr>"

definition demo_endpoint :: "int oauth_http" where
  "demo_endpoint = \<lparr>oh_client = [67], oh_loads = (\<lambda>_. Some (PDict [(u ''error'', PStr (u ''slow_down''))])), oh_delta = (\<lambda>_. None),
     oh_now = Aware, oh_post = (\<lambda>_ _ _ w. (Inr pending, w)), oh_token_url = [], oh_device_url = [], oh_scopes = [], oh_split = demo_split\<rparr>"

definition demo_sleep :: "seconds \<Rightarrow> int \<Rightarrow> int" where
  "demo_sleep d w = w + micros d"

definition demo_authorization :: device_authorization where
  "demo_authorization = \<lparr>da_device = [68], da_user = [85], da_uri = [], da_complete = None, da_expires = 12000000, da_interval = (5, 0)\<rparr>"

lemma demo_steady: "steady_clock demo_endpoint demo_sleep"
  by (simp add: steady_clock_def demo_endpoint_def demo_sleep_def clock_def)

text \<open>An endpoint that refuses with a code beside a secret, and one whose answer is no JSON.\<close>

definition refusal :: http_response where
  "refusal = \<lparr>hr_status = 400, hr_headers = [([83], [83])], hr_body = u ''secret''\<rparr>"

definition leaky_endpoint :: "pyval option \<Rightarrow> int oauth_http" where
  "leaky_endpoint v = demo_endpoint\<lparr>oh_loads := (\<lambda>_. v), oh_post := (\<lambda>_ _ _ w. (Inr refusal, w))\<rparr>"

theorem oauth_errors_tell_status_and_code_witness:
  "(\<exists>f. fst (refresh_token (listening (leaky_endpoint (Some (PDict [(u ''error'', PStr (u ''invalid_grant'')), (u ''token'', PStr (u ''secret''))]))))
        None demo_oauth_token (0, [])) = Inl (Request_Failed f)
      \<and> rf_status f = Some 400 \<and> rf_code f = Some (u ''invalid_grant'') \<and> rf_body f = [] \<and> rf_headers f = [] \<and> rf_cause f = None)
   \<and> (\<exists>f. fst (start_device_authorization (listening (leaky_endpoint None)) (0, [])) = Inl (Request_Failed f)
      \<and> rf_code f = Some (u ''invalid_json'') \<and> rf_body f = [] \<and> rf_cause f = Some (u ''secret''))"
proof -
  note eval = refresh_token_def start_device_authorization_def listening_def leaky_endpoint_def demo_endpoint_def demo_oauth_token_def demand_def
    then_op_def pure_op_def oauth_body_def succeeded_def refusal_def is_blank_def is_space_def refused_def
  let ?json = "Some (PDict [(u ''error'', PStr (u ''invalid_grant'')), (u ''token'', PStr (u ''secret''))])"
  obtain f s where 1: "refresh_token (listening (leaky_endpoint ?json)) None demo_oauth_token (0, []) = (Inl (Request_Failed f), s)"
    and s: "snd s = [Inr refusal]" by (simp add: eval)
  obtain g s' where 2: "start_device_authorization (listening (leaky_endpoint None)) (0, []) = (Inl (Request_Failed g), s')"
    and s': "snd s' = [Inr refusal]" by (simp add: eval)
  have j: "oh_loads (leaky_endpoint v) = (\<lambda>_. v)" for v by (simp add: leaky_endpoint_def)
  note T = oauth_errors_tell_status_and_code [of _ _ _ _ demo_sleep demo_authorization]
  have "summary_of (\<lambda>_. ?json) refusal f"
    using T [THEN conjunct1, rule_format, OF 1] s by (simp add: j)
  moreover have "summary_of (\<lambda>_. None) refusal g"
    using T [THEN conjunct2, THEN conjunct1, rule_format, OF 2] s' by (simp add: j)
  ultimately show ?thesis using 1 2 by (simp add: summary_of_def refusal_def dict_get_def)
qed

theorem device_polling_ends_witness:
  "\<exists>r w'. poll_for_token demo_endpoint demo_sleep demo_authorization (Suc 3) (5, 0) 0 = Some (r, w')"
  by (rule device_polling_ends [OF demo_steady]) (simp_all add: micros_def demo_authorization_def clock_def demo_endpoint_def)

theorem polling_is_polite_witness:
  "\<exists>r w'. poll_for_token (timed demo_endpoint) (timed_sleep demo_sleep) demo_authorization (Suc 3) (5, 0) (0, []) = Some (r, w')
    \<and> spaced 5000000 0 (snd w')"
proof -
  have m: "micros (5, 0) = 5000000" by (simp add: micros_def)
  have c: "clock (timed demo_endpoint) (0, []) = 0" by (simp add: clock_timed) (simp add: clock_def demo_endpoint_def)
  have "\<exists>r w'. poll_for_token (timed demo_endpoint) (timed_sleep demo_sleep) demo_authorization (Suc 3) (5, 0) (0, []) = Some (r, w')"
    by (rule device_polling_ends [OF steady_timed [OF demo_steady]]) (simp_all add: m c demo_authorization_def)
  then obtain r w' where p: "poll_for_token (timed demo_endpoint) (timed_sleep demo_sleep) demo_authorization (Suc 3) (5, 0) (0, []) = Some (r, w')"
    by blast
  have "0 < micros (5, 0)" by (simp add: m)
  from polling_is_polite [OF demo_steady this p] c p show ?thesis by (auto simp: m clock_timed)
qed

section \<open>A store\<close>

text \<open>A format for three strings: the lengths of the first two, then all of them.\<close>

fun demo_dumps :: "pyval \<Rightarrow> pystr" where
  "demo_dumps (PDict [(_, PStr a), (_, PStr e), (_, PStr r)]) = length a # length e # a @ e @ r"
| "demo_dumps _ = []"

fun demo_undump :: "pystr \<Rightarrow> pyval option" where
  "demo_undump (n # m # t) = Some (stored_value (take n t) (take m (drop n t)) (drop (n + m) t))"
| "demo_undump _ = None"

fun demo_date :: "pystr \<Rightarrow> py_datetime option" where
  "demo_date [s, n] = Some (Aware (if s = 0 then int n else - int n))"
| "demo_date _ = None"

definition demo_format :: token_format where
  "demo_format = \<lparr>tf_dumps = demo_dumps, tf_loads = demo_undump, tf_utf8 = Some,
     tf_iso = (\<lambda>n. [if 0 \<le> n then 0 else 1, nat \<bar>n\<bar>]), tf_from_iso = demo_date\<rparr>"

lemma demo_format_sound: "sound_format demo_format"
  by (simp add: sound_format_def demo_format_def stored_value_def Let_def)

definition demo_disk :: disk where
  "demo_disk = \<lparr>dk_files = (\<lambda>_. None), dk_dirs = [], dk_uid = 1000, dk_calls = 0\<rparr>"

lemma demo_encoded: "encode_token demo_format demo_oauth_token = Inr [1, 2, 65, 0, 63771670900000000, 82]"
  by (simp add: encode_token_def storable_def demo_oauth_token_def is_blank_def is_space_def aware_def token_value_def stored_value_def
    demo_format_def Let_def max_blob_def)

lemma demo_saved: "\<exists>dk'. linux_save demo_format (\<lambda>_. Works 9) [100] [110] [116] demo_oauth_token demo_disk = (Inr (), dk')"
proof -
  have w: "write_all fate (Suc k) p (b # bs) = then_op (append_bytes fate p (b # bs)) (\<lambda>n. write_all fate k p (drop n (b # bs)))"
    for fate k p b and bs :: "nat list" by simp
  have done_writing: "write_all fate k p [] = pure_op (Inr ())" for fate k p by (cases k) simp_all
  have append: "append_bytes (\<lambda>_. Works 9) p bs dk = (Inr (length bs), put_file p (map_option (\<lambda>x. x\<lparr>fi_data := fi_data x @ bs\<rparr>) (dk_files dk p))
      (dk\<lparr>dk_calls := Suc (dk_calls dk)\<rparr>))" if "length bs \<le> 10" for p bs dk
    using that by (simp add: append_bytes_def system_call_def Let_def)
  show ?thesis
    by (simp add: linux_save_def demo_encoded prepare_temporary_def fill_temporary_def install_file_def sync_directory_def handling_def
      try_op_def then_op_def pure_op_def make_dir_def create_file_def change_mode_def rename_file_def idle_call_def system_call_def Let_def
      w append done_writing put_file_def demo_disk_def del: write_all.simps)
qed

theorem saving_is_atomic_witness:
  "\<exists>r dk'. linux_save demo_format (\<lambda>k. if k = 2 then Dies else Works 9) [100] [110] [116] demo_oauth_token demo_disk = (r, dk')
     \<and> (dk_files dk' (in_dir [100] [110]) = None \<or> (\<exists>blob. dk_files dk' (in_dir [100] [110]) = Some (private_file 1000 blob)))"
proof -
  obtain r dk' where s: "linux_save demo_format (\<lambda>k. if k = 2 then Dies else Works 9) [100] [110] [116] demo_oauth_token demo_disk = (r, dk')"
    by (rule prod.exhaust)
  from saving_is_atomic [OF s] s show ?thesis by (auto simp: demo_disk_def)
qed

theorem saved_token_is_loaded_witness:
  "\<exists>dk' dk''. linux_save demo_format (\<lambda>_. Works 9) [100] [110] [116] demo_oauth_token demo_disk = (Inr (), dk')
     \<and> linux_load demo_format (\<lambda>_. Works 0) [100] [110] dk' = (Inr (Some demo_oauth_token), dk'')"
proof -
  obtain dk' where s: "linux_save demo_format (\<lambda>_. Works 9) [100] [110] [116] demo_oauth_token demo_disk = (Inr (), dk')" using demo_saved by blast
  have "working (\<lambda>_. Works 0)" by (simp add: working_def)
  from saved_token_is_loaded [OF demo_format_sound s this] s show ?thesis by blast
qed

section \<open>Locks\<close>

text \<open>A lock somebody else holds; the world is the time.\<close>

definition demo_lock :: "(int, unit) lock_api" where
  "demo_lock = \<lparr>lk_open = pure_op (Inr ()), lk_lock = (\<lambda>_. pure_op (Inr False)), lk_unlock = (\<lambda>_. pure_op (Inr ())),
     lk_close = (\<lambda>_. pure_op (Inr ())), lk_now = (\<lambda>w. w), lk_sleep = (\<lambda>w. w + 50), lk_timeout = 100\<rparr>"

definition demo_mutex :: "(int, unit) mutex_api" where
  "demo_mutex = \<lparr>mx_create = (\<lambda>_. pure_op (Inr ())), mx_wait = (\<lambda>_ _. pure_op (Inr Acquired)), mx_release = (\<lambda>_. pure_op (Inr ())),
     mx_close = (\<lambda>_. pure_op (Inr ()))\<rparr>"

definition demo_guard :: "(int, unit) guarded" where
  "demo_guard = \<lparr>gu_world = 0, gu_handle = None, gu_trail = []\<rparr>"

theorem locks_never_leak_witness:
  "gu_handle (snd (with_lock (linux_enter demo_lock 4) (linux_leave demo_lock) (pure_op (Inr (7::int))) demo_guard)) = None"
proof -
  obtain r g' where w: "with_lock (linux_enter demo_lock 4) (linux_leave demo_lock) (pure_op (Inr (7::int))) demo_guard = (r, g')"
    by (rule prod.exhaust)
  have h: "gu_handle demo_guard = None" by (simp add: demo_guard_def)
  have "gu_handle g' = None"
    by (rule locks_never_leak [THEN conjunct1, OF h _ disjI2 [OF w]]) (simp add: pure_op_def)
  with w show ?thesis by simp
qed

theorem linux_lock_waits_its_timeout_witness:
  "linux_enter demo_lock (Suc 2) demo_guard = linux_enter demo_lock (Suc 20) demo_guard"
proof -
  have "lock_clock demo_lock 50" by (simp add: lock_clock_def demo_lock_def pure_op_def)
  from linux_lock_waits_its_timeout [OF this, of 2 20 demo_guard] show ?thesis by (simp add: demo_lock_def)
qed

text \<open>A user who confirms at once, and a file system without the directory.\<close>

definition granting :: "'w oauth_http \<Rightarrow> 'w oauth_http" where
  "granting oh = oh\<lparr>oh_loads := \<lambda>_. Some (PDict [(u ''expires_in'', PInt 60), (u ''access_token'', PStr [65]), (u ''refresh_token'', PStr [82])]),
     oh_delta := \<lambda>_. Some 60000000, oh_now := \<lambda>_. Aware 63771670800000000, oh_post := \<lambda>_ _ _ w. (Inr \<lparr>hr_status = 200, hr_headers = [], hr_body = []\<rparr>, w)\<rparr>"

definition guarded_endpoint :: "(int, unit) guarded oauth_http" where
  "guarded_endpoint = granting \<lparr>oh_client = [67], oh_loads = (\<lambda>_. None), oh_delta = (\<lambda>_. None), oh_now = (\<lambda>_. Aware 0),
     oh_post = (\<lambda>_ _ _ w. (Inr pending, w)), oh_token_url = [], oh_device_url = [], oh_scopes = [], oh_split = demo_split\<rparr>"

definition late_authorization :: device_authorization where
  "late_authorization = demo_authorization\<lparr>da_expires := 63771670900000000\<rparr>"

theorem first_login_on_linux_fails_witness:
  "complete_device_authorization guarded_endpoint (\<lambda>_ w. w)
     (linux_enter (demo_lock\<lparr>lk_open := open_lock_file (\<lambda>_. []) [100] (pure_op (Inr ()))\<rparr>) 4)
     (linux_leave (demo_lock\<lparr>lk_open := open_lock_file (\<lambda>_. []) [100] (pure_op (Inr ()))\<rparr>)) (\<lambda>_. pure_op (Inr ())) 1 late_authorization demo_guard
   = Some (Inl (unavailable ''OAuth lock file could not be opened''), demo_guard)"
proof -
  have d: "datetime_add 63771670800000000 60000000 = Inr 63771670860000000" by (simp add: datetime_add_def valid_datetime_def)
  have g: "dict_get [(u ''expires_in'', a), (u ''access_token'', b), (u ''refresh_token'', c)] (u ''expires_in'') PNone = a"
    "dict_get [(u ''expires_in'', a), (u ''access_token'', b), (u ''refresh_token'', c)] (u ''access_token'') PNone = b"
    "dict_get [(u ''expires_in'', a), (u ''access_token'', b), (u ''refresh_token'', c)] (u ''refresh_token'') PNone = c" for a b c
    by (simp_all add: dict_get_def u_def)
  have p: "poll_for_token guarded_endpoint (\<lambda>_ w. w) late_authorization 1 (da_interval late_authorization) demo_guard
      = Some (Inr \<lparr>ts_access = [65], ts_refresh = [82], ts_expires = Aware 63771670860000000\<rparr>, demo_guard)"
    by (simp add: poll_once_def before_expiry_def then_op_def read_op_def pure_op_def guarded_endpoint_def granting_def aware_def
      late_authorization_def demo_authorization_def judge_answer_def oauth_body_def succeeded_def device_token_def g text_field_def expiry_after_def d
      is_blank_def is_space_def)
  have v: "valid_authorization late_authorization = Inr ()"
    by (simp add: valid_authorization_def late_authorization_def demo_authorization_def is_blank_def is_space_def)
  show ?thesis by (rule first_login_on_linux_fails [OF v p, where dirs = "\<lambda>_. []" and d = "[100]"]) (simp_all add: demo_guard_def)
qed

end
