(* ===== verification/Telegram_Adapter.thy ===== *)
theory Telegram_Adapter
  imports Chat_Turn Resources
begin

text \<open>
  The Telegram adapter of \<open>aiogram_adapter.py\<close>: the four response ports with the typing indicator, the
  conversion of updates to the service's messages, the check of the bot, the command menu with the command
  table of \<open>telegram_presentation.py\<close>, and the race of polling with the background runner. The Bot API is a
  record of functions over a world; a port logs the calls it made, and the typing tasks of asyncio are the
  identifiers of those that still run.
\<close>

section \<open>The command table\<close>

record command_definition =
  cd_command :: pystr
  cd_usage :: pystr
  cd_description :: pystr

definition command_row :: "pystr \<Rightarrow> pystr \<Rightarrow> pystr \<Rightarrow> command_definition" where
  "command_row c usage d = \<lparr>cd_command = c, cd_usage = usage, cd_description = d\<rparr>"

definition telegram_commands :: "command_definition list" where
  "telegram_commands = [
     command_row (u ''start'') (u ''/start'') ([1086, 1090, 1082, 1088, 1099, 1090, 1100, 32, 1091, 1087, 1088, 1072, 1074, 1083, 1077, 1085, 1080, 1077]),
     command_row (u ''help'') (u ''/help'') ([1087, 1086, 1082, 1072, 1079, 1072, 1090, 1100, 32, 1082, 1086, 1084, 1072, 1085, 1076, 1099]),
     command_row (u ''persona'') (u ''/persona'') ([1074, 1099, 1073, 1088, 1072, 1090, 1100, 32, 1087, 1077, 1088, 1089, 1086, 1085, 1091]),
     command_row (u ''new'') (u ''/new'') ([1079, 1072, 1082, 1088, 1099, 1090, 1100, 32, 1090, 1077, 1082, 1091, 1097, 1080, 1081, 32, 1088, 1072, 1079, 1075, 1086, 1074, 1086, 1088]),
     command_row (u ''remind'') (u ''/remind <'' @ [1095, 1090, 1086, 32, 1080, 32, 1082, 1086, 1075, 1076, 1072, 62]) ([1089, 1086, 1079, 1076, 1072, 1090, 1100, 32, 1085, 1072, 1087, 1086, 1084, 1080, 1085, 1072, 1085, 1080, 1077]),
     command_row (u ''tasks'') (u ''/tasks'') ([1087, 1086, 1082, 1072, 1079, 1072, 1090, 1100, 32, 1079, 1072, 1076, 1072, 1095, 1080]),
     command_row (u ''timezone'') (u ''/timezone [IANA timezone]'') ([1085, 1072, 1089, 1090, 1088, 1086, 1080, 1090, 1100, 32, 1095, 1072, 1089, 1086, 1074, 1086, 1081, 32, 1087, 1086, 1103, 1089]),
     command_row (u ''quiet'') (u ''/quiet [HH:MM-HH:MM|off]'') ([1085, 1072, 1089, 1090, 1088, 1086, 1080, 1090, 1100, 32, 1090, 1080, 1093, 1080, 1077, 32, 1095, 1072, 1089, 1099]),
     command_row (u ''remember'') (u ''/remember <text>'') ([1089, 1086, 1093, 1088, 1072, 1085, 1080, 1090, 1100, 32, 1086, 1073, 1097, 1091, 1102, 32, 1079, 1072, 1087, 1080, 1089, 1100]),
     command_row (u ''memories'') (u ''/memories [page]'') ([1087, 1086, 1082, 1072, 1079, 1072, 1090, 1100, 32, 1079, 1072, 1087, 1080, 1089, 1080, 32, 1087, 1072, 1084, 1103, 1090, 1080]),
     command_row (u ''forget'') (u ''/forget [id]'') ([1091, 1076, 1072, 1083, 1080, 1090, 1100, 32, 1079, 1072, 1087, 1080, 1089, 1100, 32, 1087, 1072, 1084, 1103, 1090, 1080])]"

definition command_index_line :: "command_definition \<Rightarrow> pystr" where
  "command_index_line c = cd_usage c @ [32, 8212, 32] @ cd_description c @ [46]"

definition render_command_index :: pystr where
  "render_command_index = join_with 10 (
     [1044, 1086, 1089, 1090, 1091, 1087, 1085, 1099, 1077, 32, 1082, 1086, 1084, 1072, 1085, 1076, 1099, 58]
     # map command_index_line telegram_commands)"

section \<open>Calls of the Bot API\<close>

record outgoing =
  og_text :: pystr
  og_markup :: "button list list option"
  og_mode :: "parse_mode option"
  og_reply :: "int option"

datatype api_error = Bad_Request pystr | Api_Failure

datatype api_call = Send_Call int outgoing | Edit_Call int int outgoing | Typing_Call int

datatype adapter_error =
    Wrong_Target string
  | Api_Raised api_error
  | Delivery_Failed string
  | Bad_Token
  | Bad_Owner
  | Background_Stopped
  | Task_Raised string

record 'v bot_api =
  ba_send :: "int \<Rightarrow> outgoing \<Rightarrow> 'v \<Rightarrow> (api_error + int) \<times> 'v"
  ba_edit :: "int \<Rightarrow> int \<Rightarrow> outgoing \<Rightarrow> 'v \<Rightarrow> (api_error + unit) \<times> 'v"
  ba_action :: "int \<Rightarrow> 'v \<Rightarrow> (api_error + unit) \<times> 'v"
  ba_casefold :: "pystr \<Rightarrow> pystr"

record 'v port_state =
  ps_world :: 'v
  ps_calls :: "api_call list"
  ps_task :: "nat option"
  ps_live :: "nat list"
  ps_next :: nat

type_synonym ('v, 'a) port_op = "('v port_state, adapter_error, 'a) action"

definition reply_markup :: "response \<Rightarrow> button list list option" where
  "reply_markup r = (if ts_buttons r = [] then None else Some (ts_buttons r))"

definition outgoing_of :: "response \<Rightarrow> outgoing" where
  "outgoing_of r = \<lparr>og_text = ts_text r, og_markup = reply_markup r, og_mode = ts_mode r, og_reply = None\<rparr>"

definition api_send :: "'v bot_api \<Rightarrow> int \<Rightarrow> outgoing \<Rightarrow> ('v, int) port_op" where
  "api_send ba chat out s = (case ba_send ba chat out (ps_world s) of
     (r, v) \<Rightarrow> (map_sum Api_Raised id r, s\<lparr>ps_world := v, ps_calls := ps_calls s @ [Send_Call chat out]\<rparr>))"

definition api_edit :: "'v bot_api \<Rightarrow> int \<Rightarrow> int \<Rightarrow> outgoing \<Rightarrow> ('v, unit) port_op" where
  "api_edit ba chat i out s = (case ba_edit ba chat i out (ps_world s) of
     (r, v) \<Rightarrow> (map_sum Api_Raised id r, s\<lparr>ps_world := v, ps_calls := ps_calls s @ [Edit_Call chat i out]\<rparr>))"

text \<open>\<open>_edit_via_bot\<close>: an edit that changed nothing counts as done.\<close>

definition edit_via_bot :: "'v bot_api \<Rightarrow> sent_message \<Rightarrow> response \<Rightarrow> ('v, bool) port_op" where
  "edit_via_bot ba h r = try_op (api_edit ba (se_chat h) (se_id h) (outgoing_of r))
     (\<lambda>e. pure_op (Inr (case e of Api_Raised (Bad_Request why) \<Rightarrow> contains (u ''message is not modified'') (ba_casefold ba why) | _ \<Rightarrow> False)))
     (\<lambda>_. pure_op (Inr True))"

section \<open>The typing indicator\<close>

definition cancel_typing :: "'v port_state \<Rightarrow> 'v port_state" where
  "cancel_typing s = (case ps_task s of None \<Rightarrow> s
     | Some t \<Rightarrow> s\<lparr>ps_live := filter (\<lambda>x. x \<noteq> t) (ps_live s), ps_task := None\<rparr>)"

definition start_typing :: "('v, unit) port_op" where
  "start_typing s = (let s1 = cancel_typing s; t = ps_next s1 in
     (Inr (), s1\<lparr>ps_task := Some t, ps_live := t # ps_live s1, ps_next := Suc t\<rparr>))"

definition stop_typing :: "('v, unit) port_op" where
  "stop_typing s = (Inr (), cancel_typing s)"

definition typing_after :: "response_kind \<Rightarrow> ('v, unit) port_op" where
  "typing_after k = (case k of K_Status \<Rightarrow> start_typing | K_Final \<Rightarrow> stop_typing | K_Error \<Rightarrow> stop_typing | K_Notice \<Rightarrow> pure_op (Inr ()))"

text \<open>The message a port is bound to: its chat, its identifier, and whether it knows its bot.\<close>

record source_message =
  so_chat :: "int option"
  so_id :: int
  so_bot :: bool

text \<open>One round of the loop of the task \<open>t\<close>, between two sleeps.\<close>

definition typing_round :: "'v bot_api \<Rightarrow> source_message \<Rightarrow> nat \<Rightarrow> 'v port_state \<Rightarrow> 'v port_state" where
  "typing_round ba m t s =
     (if t \<notin> set (ps_live s) then s
      else let ended = s\<lparr>ps_live := filter (\<lambda>x. x \<noteq> t) (ps_live s)\<rparr> in
        (case so_chat m of
           None \<Rightarrow> ended
         | Some chat \<Rightarrow> if \<not> so_bot m then ended
             else (case ba_action ba chat (ps_world s) of
                 (Inl _, v) \<Rightarrow> ended\<lparr>ps_world := v, ps_calls := ps_calls s @ [Typing_Call chat]\<rparr>
               | (Inr _, v) \<Rightarrow> s\<lparr>ps_world := v, ps_calls := ps_calls s @ [Typing_Call chat]\<rparr>)))"

section \<open>The response ports\<close>

text \<open>\<open>AiogramTelegramResponsePort\<close>.\<close>

definition message_send :: "'v bot_api \<Rightarrow> source_message \<Rightarrow> response \<Rightarrow> ('v, sent_message) port_op" where
  "message_send ba m r =
     (if so_chat m \<noteq> Some (ts_chat r) then pure_op (Inl (Wrong_Target ''Telegram response target does not match source chat''))
      else then_op (api_send ba (ts_chat r) (outgoing_of r)) (\<lambda>i.
           then_op (typing_after (ts_kind r)) (\<lambda>_. pure_op (Inr \<lparr>se_chat = ts_chat r, se_id = i\<rparr>))))"

definition message_edit :: "'v bot_api \<Rightarrow> source_message \<Rightarrow> sent_message \<Rightarrow> response \<Rightarrow> ('v, bool) port_op" where
  "message_edit ba m h r =
     then_op (if ts_kind r \<in> {K_Final, K_Error} then stop_typing else pure_op (Inr ())) (\<lambda>_.
       if so_bot m then edit_via_bot ba h r else pure_op (Inr False))"

definition bound_handle :: "source_message \<Rightarrow> sent_message option" where
  "bound_handle m = (case so_chat m of None \<Rightarrow> None | Some c \<Rightarrow> Some \<lparr>se_chat = c, se_id = so_id m\<rparr>)"

text \<open>\<open>AiogramTelegramReplyResponsePort\<close>: every message is a reply to its source.\<close>

definition reply_send :: "'v bot_api \<Rightarrow> source_message \<Rightarrow> response \<Rightarrow> ('v, sent_message) port_op" where
  "reply_send ba m r =
     (if so_chat m \<noteq> Some (ts_chat r) then pure_op (Inl (Wrong_Target ''Telegram response target does not match source chat''))
      else then_op (api_send ba (ts_chat r) ((outgoing_of r)\<lparr>og_reply := Some (so_id m)\<rparr>)) (\<lambda>i.
           pure_op (Inr \<lparr>se_chat = ts_chat r, se_id = i\<rparr>)))"

definition reply_edit :: "'v bot_api \<Rightarrow> source_message \<Rightarrow> sent_message \<Rightarrow> response \<Rightarrow> ('v, bool) port_op" where
  "reply_edit ba m h r = (if so_bot m then edit_via_bot ba h r else pure_op (Inr False))"

text \<open>\<open>AiogramBotResponsePort\<close>, bound to one chat, and \<open>AiogramBackgroundResponsePort\<close>, for the reminders.\<close>

definition or_delivery_failure :: "string \<Rightarrow> ('v, 'a) port_op \<Rightarrow> ('v, 'a) port_op" where
  "or_delivery_failure why f = try_op f (\<lambda>_. pure_op (Inl (Delivery_Failed why))) (\<lambda>x. pure_op (Inr x))"

definition bot_send :: "'v bot_api \<Rightarrow> int \<Rightarrow> response \<Rightarrow> ('v, sent_message) port_op" where
  "bot_send ba target r =
     (if ts_chat r \<noteq> target then pure_op (Inl (Wrong_Target ''Telegram response target does not match smoke target''))
      else then_op (or_delivery_failure ''Telegram Bot API delivery failed''
             (api_send ba target ((outgoing_of r)\<lparr>og_text := u ''[SMOKE] '' @ ts_text r\<rparr>))) (\<lambda>i.
           pure_op (Inr \<lparr>se_chat = target, se_id = i\<rparr>)))"

definition bot_edit :: "'v bot_api \<Rightarrow> int \<Rightarrow> sent_message \<Rightarrow> response \<Rightarrow> ('v, bool) port_op" where
  "bot_edit ba target h r =
     (if se_chat h \<noteq> target then pure_op (Inl (Wrong_Target ''Telegram response target does not match smoke target''))
      else edit_via_bot ba h r)"

definition background_send :: "'v bot_api \<Rightarrow> response \<Rightarrow> ('v, sent_message) port_op" where
  "background_send ba r =
     then_op (or_delivery_failure ''Telegram Bot API background delivery failed'' (api_send ba (ts_chat r) (outgoing_of r))) (\<lambda>i.
       pure_op (Inr \<lparr>se_chat = ts_chat r, se_id = i\<rparr>))"

section \<open>Updates\<close>

text \<open>A Telegram message and a callback query, with the parts that may be missing.\<close>

record telegram_message =
  tm_user :: "int option"
  tm_chat :: "(int \<times> pystr) option"
  tm_text :: "pystr option"

record callback_query =
  cq_user :: "int option"
  cq_message :: "telegram_message option"
  cq_data :: "pystr option"

definition incoming :: "int \<Rightarrow> int \<times> pystr \<Rightarrow> pystr \<Rightarrow> incoming_message" where
  "incoming user chat body = \<lparr>in_user = user, in_chat = fst chat, in_text = body, in_type = Some (snd chat)\<rparr>"

definition handle_update :: "(incoming_message \<Rightarrow> ('w, 'e, unit) action) \<Rightarrow> telegram_message \<Rightarrow> ('w, 'e, unit) action" where
  "handle_update handler m = (case (tm_user m, tm_chat m, tm_text m) of
       (Some user, Some chat, Some body) \<Rightarrow> handler (incoming user chat body)
     | _ \<Rightarrow> pure_op (Inr ()))"

text \<open>The service handles callbacks or it does not; the query is answered in any case.\<close>

definition handle_query ::
    "(incoming_message \<Rightarrow> pystr \<Rightarrow> ('w, 'e, unit) action) option \<Rightarrow> ('w, 'e, unit) action \<Rightarrow> callback_query \<Rightarrow> ('w, 'e, unit) action" where
  "handle_query handler answer q = finally_op
     (case (handler, cq_user q, cq_message q, cq_data q) of
        (Some h, Some user, Some m, Some payload) \<Rightarrow>
          (case tm_chat m of None \<Rightarrow> pure_op (Inr ()) | Some chat \<Rightarrow> h (incoming user chat []) payload)
      | _ \<Rightarrow> pure_op (Inr ()))
     answer"

section \<open>The bot\<close>

record ('w, 'b) bot_client =
  bc_make :: "pystr \<Rightarrow> ('w, adapter_error, 'b) action"
  bc_leave :: "'b \<Rightarrow> ('w, adapter_error, unit) action"
  bc_identity :: "'b \<Rightarrow> ('w, adapter_error, int option) action"
  bc_commands :: "'b \<Rightarrow> int \<Rightarrow> (pystr \<times> pystr) list \<Rightarrow> ('w, adapter_error, bool) action"

definition raising :: "adapter_error \<Rightarrow> ('w, adapter_error, 'a) action \<Rightarrow> ('w, adapter_error, 'a) action" where
  "raising e f = try_op f (\<lambda>_. pure_op (Inl e)) (\<lambda>x. pure_op (Inr x))"

definition with_checked_bot ::
    "('w, 'b) bot_client \<Rightarrow> pystr \<Rightarrow> ('b \<Rightarrow> int option \<Rightarrow> ('w, adapter_error, 'a) action) \<Rightarrow> ('w, adapter_error, 'a) action" where
  "with_checked_bot bc token body =
     (if is_blank token then pure_op (Inl Bad_Token)
      else bracket (raising (Delivery_Failed ''Telegram Bot API client initialization failed'') (bc_make bc token)) (bc_leave bc) (\<lambda>b.
        then_op (raising (Delivery_Failed ''Telegram Bot API identity check failed'') (bc_identity bc b)) (body b)))"

definition run_bot_delivery :: "('w, 'b) bot_client \<Rightarrow> pystr \<Rightarrow> ('b \<Rightarrow> ('w, adapter_error, 'a) action) \<Rightarrow> ('w, adapter_error, 'a) action" where
  "run_bot_delivery bc token act = with_checked_bot bc token (\<lambda>b _. act b)"

definition verify_bot_identity :: "('w, 'b) bot_client \<Rightarrow> pystr \<Rightarrow> int \<Rightarrow> ('w, adapter_error, unit) action" where
  "verify_bot_identity bc token expected = with_checked_bot bc token (\<lambda>_ who.
     pure_op (if who = Some expected then Inr () else Inl (Delivery_Failed ''Telegram Bot API identity mismatch'')))"

definition register_owner_command_menu :: "('w, 'b) bot_client \<Rightarrow> 'b \<Rightarrow> int \<Rightarrow> ('w, adapter_error, unit) action" where
  "register_owner_command_menu bc b owner =
     (if owner \<le> 0 then pure_op (Inl Bad_Owner)
      else then_op (raising (Delivery_Failed ''Telegram command menu configuration failed'')
             (bc_commands bc b owner (map (\<lambda>c. (cd_command c, cd_description c)) telegram_commands))) (\<lambda>done.
           pure_op (if done then Inr () else Inl (Delivery_Failed ''Telegram command menu configuration failed''))))"

section \<open>Polling and the background runner\<close>

text \<open>
  The race of the two tasks: for each, how it ended when \<open>asyncio.wait\<close> came back, or \<open>None\<close> while it
  runs. When neither has ended, the wait itself was cancelled.
\<close>

datatype task_name = Polling_Task | Background_Task

record race =
  ra_polling :: "(string + unit) option"
  ra_background :: "(string + unit) option"

definition race_outcome :: "race \<Rightarrow> adapter_error + unit" where
  "race_outcome ra = (case ra_polling ra of
       Some (Inl e) \<Rightarrow> Inl (Task_Raised e)
     | Some (Inr _) \<Rightarrow> Inr ()
     | None \<Rightarrow> (case ra_background ra of
           Some (Inl e) \<Rightarrow> Inl (Task_Raised e)
         | Some (Inr _) \<Rightarrow> Inl Background_Stopped
         | None \<Rightarrow> Inl (Task_Raised ''CancelledError'')))"

definition race_cancelled :: "race \<Rightarrow> task_name list" where
  "race_cancelled ra = (if ra_polling ra = None then [Polling_Task] else []) @ (if ra_background ra = None then [Background_Task] else [])"

text \<open>\<open>run_polling\<close>; \<open>poll\<close> is \<open>start_polling\<close> alone, \<open>contest\<close> starts both tasks and waits, \<open>cancel\<close> cancels and awaits.\<close>

record ('w, 'b) polling_loop =
  pl_poll :: "'b \<Rightarrow> ('w, adapter_error, unit) action"
  pl_contest :: "'b \<Rightarrow> 'w \<Rightarrow> race \<times> 'w"
  pl_cancel :: "task_name list \<Rightarrow> 'w \<Rightarrow> 'w"

definition run_polling ::
    "('w, 'b) bot_client \<Rightarrow> ('w, 'b) polling_loop \<Rightarrow> pystr \<Rightarrow> int option \<Rightarrow> bool \<Rightarrow> ('w, adapter_error, unit) action" where
  "run_polling bc pl token owner background =
     (if is_blank token then pure_op (Inl Bad_Token)
      else bracket (bc_make bc token) (bc_leave bc) (\<lambda>b.
        then_op (case owner of None \<Rightarrow> pure_op (Inr ()) | Some i \<Rightarrow> register_owner_command_menu bc b i) (\<lambda>_.
          if background then (\<lambda>w. case pl_contest pl b w of (ra, w1) \<Rightarrow> (race_outcome ra, pl_cancel pl (race_cancelled ra) w1))
          else pl_poll pl b)))"

section \<open>Calls stay in the chat\<close>

fun call_chat :: "api_call \<Rightarrow> int" where
  "call_chat (Send_Call c _) = c"
| "call_chat (Edit_Call c _ _) = c"
| "call_chat (Typing_Call c) = c"

text \<open>A state after another made these calls, all of them in chats that \<open>P\<close> allows.\<close>

definition calls_within :: "(int \<Rightarrow> bool) \<Rightarrow> 'v port_state \<Rightarrow> 'v port_state \<Rightarrow> bool" where
  "calls_within P s s' \<longleftrightarrow> (\<exists>cs. ps_calls s' = ps_calls s @ cs \<and> (\<forall>c \<in> set cs. P (call_chat c)))"

lemma preorder_within: "preorder (calls_within P)"
  unfolding preorder_def calls_within_def by (auto intro!: reflpI transpI)

lemmas within_intros = keeps_pure [OF preorder_within] keeps_then [OF preorder_within] keeps_try [OF preorder_within]

lemma api_within:
  "P c \<Longrightarrow> keeps (calls_within P) (api_send ba c out)" "P c \<Longrightarrow> keeps (calls_within P) (api_edit ba c i out)"
  by (auto simp: keeps_def api_send_def api_edit_def calls_within_def split: prod.split)

lemma cancel_calls [simp]: "ps_calls (cancel_typing s) = ps_calls s"
  by (simp add: cancel_typing_def split: option.split)

lemma typing_within: "keeps (calls_within P) start_typing" "keeps (calls_within P) stop_typing" "keeps (calls_within P) (typing_after k)"
  by (auto simp: keeps_def start_typing_def stop_typing_def typing_after_def calls_within_def Let_def pure_op_def split: response_kind.split)

lemma edit_via_within: "P (se_chat h) \<Longrightarrow> keeps (calls_within P) (edit_via_bot ba h r)"
  unfolding edit_via_bot_def by (intro within_intros api_within)

lemma failure_within: "keeps (calls_within P) f \<Longrightarrow> keeps (calls_within P) (or_delivery_failure why f)"
  unfolding or_delivery_failure_def by (intro within_intros)

text \<open>
  What the service relies on in a port with the chats \<open>target\<close>: a response goes to its own chat if that is a
  target, and nowhere otherwise, and the handle it gets is in that chat; an edit goes to the chat of its handle.
\<close>

locale chat_port =
  fixes send :: "response \<Rightarrow> ('v, sent_message) port_op"
    and edit :: "sent_message \<Rightarrow> response \<Rightarrow> ('v, bool) port_op"
    and target :: "int \<Rightarrow> bool"
  assumes send_there: "keeps (calls_within (\<lambda>c. c = ts_chat r \<and> target c)) (send r)"
    and handle_there: "send r s = (Inr h, s') \<Longrightarrow> se_chat h = ts_chat r \<and> target (ts_chat r)"
    and edit_there: "keeps (calls_within (\<lambda>c. c = se_chat h)) (edit h r)"
begin

lemma within_weaken: "keeps (calls_within P) f \<Longrightarrow> (\<And>c. P c \<Longrightarrow> Q c) \<Longrightarrow> keeps (calls_within Q) f"
  unfolding keeps_def calls_within_def by blast

text \<open>The replies of one turn: a status, and then the answer over it or as a message of its own.\<close>

lemma status_then_answer_within:
  "keeps (calls_within target) (then_op (send status) (\<lambda>h. then_op (edit h answer) (\<lambda>ok.
     if ok then pure_op (Inr h) else send answer)))"
  unfolding keeps_def
proof
  fix s :: "'v port_state"
  have sends: "keeps (calls_within target) (send r)" for r by (rule within_weaken [OF send_there]) simp
  obtain q s1 where q: "send status s = (q, s1)" by (rule prod.exhaust)
  have 1: "calls_within target s s1" by (rule keepsD [OF sends q])
  show "calls_within target s (snd (then_op (send status) (\<lambda>h. then_op (edit h answer) (\<lambda>ok.
     if ok then pure_op (Inr h) else send answer)) s))"
  proof (cases q)
    case (Inl e)
    with q 1 show ?thesis by (simp add: then_op_def)
  next
    case (Inr h)
    have "target (se_chat h)" using handle_there q Inr by metis
    then have "keeps (calls_within target) (edit h answer)" by (intro within_weaken [OF edit_there]) simp
    then have "keeps (calls_within target) (then_op (edit h answer) (\<lambda>ok. if ok then pure_op (Inr h) else send answer))"
      by (intro within_intros) (auto intro: within_intros sends)
    then have "calls_within target s1 (snd (then_op (edit h answer) (\<lambda>ok. if ok then pure_op (Inr h) else send answer) s1))"
      by (simp add: keeps_def)
    with 1 show ?thesis using q Inr by (auto simp: then_op_def [of "send status"] intro: preorder_trans [OF preorder_within])
  qed
qed

end

lemmas port_sends = message_send_def reply_send_def bot_send_def background_send_def

interpretation message_port: chat_port "message_send ba m" "message_edit ba m" "\<lambda>c. so_chat m = Some c"
proof
  show "keeps (calls_within (\<lambda>c. c = ts_chat r \<and> so_chat m = Some c)) (message_send ba m r)" for r
    by (auto simp: message_send_def intro!: within_intros api_within typing_within)
  show "se_chat h = ts_chat r \<and> so_chat m = Some (ts_chat r)" if "message_send ba m r s = (Inr h, s')" for r s h s'
    using that by (auto simp: message_send_def then_op_Inr split: if_splits)
  show "keeps (calls_within (\<lambda>c. c = se_chat h)) (message_edit ba m h r)" for h r
    by (auto simp: message_edit_def intro!: within_intros typing_within edit_via_within)
qed

interpretation reply_port: chat_port "reply_send ba m" "reply_edit ba m" "\<lambda>c. so_chat m = Some c"
proof
  show "keeps (calls_within (\<lambda>c. c = ts_chat r \<and> so_chat m = Some c)) (reply_send ba m r)" for r
    by (auto simp: reply_send_def intro!: within_intros api_within)
  show "se_chat h = ts_chat r \<and> so_chat m = Some (ts_chat r)" if "reply_send ba m r s = (Inr h, s')" for r s h s'
    using that by (auto simp: reply_send_def then_op_Inr split: if_splits)
  show "keeps (calls_within (\<lambda>c. c = se_chat h)) (reply_edit ba m h r)" for h r
    by (auto simp: reply_edit_def intro!: within_intros edit_via_within)
qed

interpretation bot_port: chat_port "bot_send ba t" "bot_edit ba t" "\<lambda>c. c = t"
proof
  show "keeps (calls_within (\<lambda>c. c = ts_chat r \<and> c = t)) (bot_send ba t r)" for r
    by (auto simp: bot_send_def intro!: within_intros failure_within api_within)
  show "se_chat h = ts_chat r \<and> ts_chat r = t" if "bot_send ba t r s = (Inr h, s')" for r s h s'
    using that by (auto simp: bot_send_def then_op_Inr split: if_splits)
  show "keeps (calls_within (\<lambda>c. c = se_chat h)) (bot_edit ba t h r)" for h r
    by (auto simp: bot_edit_def intro!: within_intros edit_via_within)
qed

text \<open>The background port cannot edit.\<close>

interpretation background_port: chat_port "background_send ba" "\<lambda>_ _. pure_op (Inr False)" "\<lambda>_. True"
proof
  show "keeps (calls_within (\<lambda>c. c = ts_chat r \<and> True)) (background_send ba r)" for r
    by (auto simp: background_send_def intro!: within_intros failure_within api_within)
qed (auto simp: background_send_def then_op_Inr intro: within_intros)

text \<open>
C36: A turn answers where it was asked. Whatever the service sends through the port of a message, a status
and then the answer over it or beside it, every call to the Bot API is in the chat of that message; the
same holds of the replying port, and the port of the live check calls its one chat.
\<close>
theorem answers_stay_in_their_chat:
  "keeps (calls_within (\<lambda>c. so_chat m = Some c)) (then_op (message_send ba m status) (\<lambda>h.
     then_op (message_edit ba m h answer) (\<lambda>ok. if ok then pure_op (Inr h) else message_send ba m answer)))
   \<and> keeps (calls_within (\<lambda>c. so_chat m = Some c)) (then_op (reply_send ba m status) (\<lambda>h.
     then_op (reply_edit ba m h answer) (\<lambda>ok. if ok then pure_op (Inr h) else reply_send ba m answer)))
   \<and> keeps (calls_within (\<lambda>c. c = t)) (then_op (bot_send ba t status) (\<lambda>h.
     then_op (bot_edit ba t h answer) (\<lambda>ok. if ok then pure_op (Inr h) else bot_send ba t answer)))"
  by (intro conjI message_port.status_then_answer_within reply_port.status_then_answer_within bot_port.status_then_answer_within)

section \<open>One typing indicator\<close>

text \<open>What may happen to the port of a message: the service sends and edits, the event loop runs a typing task.\<close>

inductive port_reaches :: "'v bot_api \<Rightarrow> source_message \<Rightarrow> 'v port_state \<Rightarrow> bool" for ba m where
  fresh: "ps_task s = None \<Longrightarrow> ps_live s = [] \<Longrightarrow> port_reaches ba m s"
| sends: "port_reaches ba m s \<Longrightarrow> message_send ba m r s = (x, s') \<Longrightarrow> port_reaches ba m s'"
| edits: "port_reaches ba m s \<Longrightarrow> message_edit ba m h r s = (y, s') \<Longrightarrow> port_reaches ba m s'"
| types: "port_reaches ba m s \<Longrightarrow> port_reaches ba m (typing_round ba m t s)"

inductive_cases port_reaches_elim: "port_reaches ba m s"

text \<open>The task that runs is the one the port holds.\<close>

definition one_typing :: "'v port_state \<Rightarrow> bool" where
  "one_typing s \<longleftrightarrow> ps_live s = [] \<or> (\<exists>t. ps_live s = [t] \<and> ps_task s = Some t)"

lemma one_typing_cancel: "one_typing s \<Longrightarrow> ps_live (cancel_typing s) = []"
  by (auto simp: one_typing_def cancel_typing_def split: option.split)

lemma api_send_typing: "api_send ba c out s = (r, s') \<Longrightarrow> ps_live s' = ps_live s \<and> ps_task s' = ps_task s"
  "api_edit ba c i out s = (q, s') \<Longrightarrow> ps_live s' = ps_live s \<and> ps_task s' = ps_task s"
  by (auto simp: api_send_def api_edit_def split: prod.splits)

lemma edit_via_typing: "edit_via_bot ba h r s = (x, s') \<Longrightarrow> ps_live s' = ps_live s \<and> ps_task s' = ps_task s"
  by (auto simp: edit_via_bot_def try_op_eq dest: api_send_typing)

lemma typing_after_one:
  assumes "one_typing s" and "typing_after k s = (x, s')"
  shows "one_typing s' \<and> (k \<in> {K_Final, K_Error} \<longrightarrow> ps_live s' = [])"
  using assms one_typing_cancel [OF assms(1)]
  by (cases k) (auto simp: typing_after_def start_typing_def stop_typing_def Let_def one_typing_def)

lemma one_typing_same: "one_typing s \<Longrightarrow> ps_live s' = ps_live s \<and> ps_task s' = ps_task s \<Longrightarrow> one_typing s'"
  by (simp add: one_typing_def)

lemma message_send_one:
  assumes "one_typing s" and "message_send ba m r s = (x, s')"
  shows "one_typing s' \<and> (\<forall>h. x = Inr h \<longrightarrow> ts_kind r \<in> {K_Final, K_Error} \<longrightarrow> ps_live s' = [])"
proof (cases "so_chat m = Some (ts_chat r)")
  case False
  with assms show ?thesis by (auto simp: message_send_def)
next
  case True
  obtain q s1 where a: "api_send ba (ts_chat r) (outgoing_of r) s = (q, s1)" by (rule prod.exhaust)
  have 1: "one_typing s1" by (rule one_typing_same [OF assms(1) api_send_typing(1) [OF a]])
  show ?thesis
  proof (cases q)
    case (Inl e)
    with assms(2) True a 1 show ?thesis by (auto simp: message_send_def then_op_def)
  next
    case (Inr i)
    obtain y s2 where t: "typing_after (ts_kind r) s1 = (y, s2)" by (rule prod.exhaust)
    have "s' = s2" using assms(2) True a Inr t
      by (auto simp: message_send_def then_op_def pure_op_def split: sum.splits)
    with typing_after_one [OF 1 t] show ?thesis by simp
  qed
qed

lemma message_edit_one:
  assumes "one_typing s" and "message_edit ba m h r s = (x, s')"
  shows "one_typing s' \<and> (ts_kind r \<in> {K_Final, K_Error} \<longrightarrow> ps_live s' = [])"
proof -
  let ?s1 = "if ts_kind r \<in> {K_Final, K_Error} then cancel_typing s else s"
  have 1: "one_typing ?s1" "ts_kind r \<in> {K_Final, K_Error} \<longrightarrow> ps_live ?s1 = []"
    using assms(1) one_typing_cancel [OF assms(1)] by (simp_all add: one_typing_def)
  have "(if so_bot m then edit_via_bot ba h r else pure_op (Inr False)) ?s1 = (x, s')"
    using assms(2) by (auto simp: message_edit_def then_op_def stop_typing_def pure_op_def split: if_splits)
  then have "ps_live s' = ps_live ?s1 \<and> ps_task s' = ps_task ?s1"
    by (auto split: if_splits dest: edit_via_typing)
  with 1 show ?thesis by (auto simp: one_typing_def)
qed

lemma typing_round_one: "one_typing s \<Longrightarrow> one_typing (typing_round ba m t s)"
  by (auto simp: typing_round_def one_typing_def Let_def split: option.split prod.split sum.split)

lemma reaches_one: "port_reaches ba m s \<Longrightarrow> one_typing s"
proof (induction rule: port_reaches.induct)
  case (fresh s)
  then show ?case by (simp add: one_typing_def)
qed (blast dest: message_send_one message_edit_one intro: typing_round_one)+

text \<open>
C20: At most one typing indicator runs for a message, and none after its answer. However the sends and
edits of a turn and the rounds of the typing tasks interleave, a second status replaces the task of the
first, and once a final answer or an error was sent, or was tried as an edit, no task is left.
\<close>
theorem typing_ends_with_the_answer:
  assumes "port_reaches ba m s" and "ts_kind r \<in> {K_Final, K_Error}"
  shows "length (ps_live s) \<le> 1
    \<and> (\<forall>i s'. message_send ba m r s = (Inr i, s') \<longrightarrow> ps_live s' = [])
    \<and> (\<forall>h x s'. message_edit ba m h r s = (x, s') \<longrightarrow> ps_live s' = [])"
proof -
  have 1: "one_typing s" by (rule reaches_one [OF assms(1)])
  then have "length (ps_live s) \<le> 1" by (auto simp: one_typing_def)
  then show ?thesis using message_send_one [OF 1] message_edit_one [OF 1] assms(2) by blast
qed

text \<open>But an answer that Telegram refused leaves the indicator on.\<close>

lemma failed_answer_keeps_typing:
  assumes "so_chat m = Some (ts_chat r)" and "message_send ba m r s = (Inl e, s')"
  shows "ps_live s' = ps_live s"
proof -
  have "fst (typing_after (ts_kind r) s1) = Inr ()" for s1 :: "'a port_state"
    by (cases "ts_kind r") (simp_all add: typing_after_def start_typing_def stop_typing_def Let_def pure_op_def)
  then have "typing_after (ts_kind r) s1 \<noteq> (Inl e, s2)" for s1 s2 :: "'a port_state"
    by (metis fst_conv sum.distinct(1))
  with assms have "api_send ba (ts_chat r) (outgoing_of r) s = (Inl e, s')"
    by (auto simp: message_send_def then_op_Inl)
  then show ?thesis using api_send_typing by blast
qed

section \<open>Queries and polling\<close>

text \<open>
Every callback query is answered, last and exactly once: whether the service handles it, ignores it or
fails, the end of the handler is the answer to Telegram, and an error of the service still comes out
unless the answer raised another.
\<close>
theorem every_query_is_answered:
  assumes "handle_query handler answer q w = (r, w')"
  shows "\<exists>w1 a. answer w1 = (a, w')
    \<and> (w1 = w \<or> (\<exists>h m payload x. handler = Some h \<and> cq_data q = Some payload \<and> h m payload w = (x, w1)
          \<and> (\<forall>e. x = Inl e \<longrightarrow> a = Inr () \<longrightarrow> r = Inl e)))"
proof -
  let ?body = "case (handler, cq_user q, cq_message q, cq_data q) of
        (Some h, Some user, Some m, Some payload) \<Rightarrow>
          (case tm_chat m of None \<Rightarrow> pure_op (Inr ()) | Some chat \<Rightarrow> h (incoming user chat []) payload)
      | _ \<Rightarrow> pure_op (Inr ())"
  obtain x w1 a where b: "?body w = (x, w1)" "answer w1 = (a, w')" "r = (case a of Inl e \<Rightarrow> Inl e | Inr _ \<Rightarrow> x)"
    using assms unfolding handle_query_def finally_cases by blast
  have "w1 = w \<or> (\<exists>h m payload. handler = Some h \<and> cq_data q = Some payload \<and> h m payload w = (x, w1))"
    using b(1) by (auto split: option.splits)
  with b(2,3) show ?thesis by fastforce
qed

text \<open>
The bot never stops polling in silence. With its background runner it ends without an error only when
polling itself ended normally; the end of the runner, its error, or a cancellation come out as an error,
and whatever was still running is cancelled before the client is closed.
\<close>
theorem polling_never_stops_in_silence:
  assumes "run_polling bc pl token owner True w = (Inr (), w')"
  shows "\<exists>b w1 ra w2. pl_contest pl b w1 = (ra, w2) \<and> ra_polling ra = Some (Inr ())
    \<and> bc_leave bc b (pl_cancel pl (if ra_background ra = None then [Background_Task] else []) w2) = (Inr (), w')"
proof -
  from assms obtain b w1 q w3 l where b: "then_op (case owner of None \<Rightarrow> pure_op (Inr ()) | Some i \<Rightarrow> register_owner_command_menu bc b i)
      (\<lambda>_ w. case pl_contest pl b w of (ra, w1) \<Rightarrow> (race_outcome ra, pl_cancel pl (race_cancelled ra) w1)) w1 = (q, w3)"
    "bc_leave bc b w3 = (l, w')" "Inr () = (case l of Inl e \<Rightarrow> Inl e | Inr _ \<Rightarrow> q)"
    by (auto simp: run_polling_def bracket_cases split: if_splits)
  from b(3) have l: "l = Inr ()" "q = Inr ()" by (auto split: sum.splits)
  with b(1) obtain w2 where "(case pl_contest pl b w2 of (ra, w1) \<Rightarrow> (race_outcome ra, pl_cancel pl (race_cancelled ra) w1)) = (Inr (), w3)"
    by (auto simp: then_op_Inr)
  then obtain ra w4 where c: "pl_contest pl b w2 = (ra, w4)" "race_outcome ra = Inr ()" "w3 = pl_cancel pl (race_cancelled ra) w4"
    by (auto split: prod.splits)
  have "ra_polling ra = Some (Inr ())"
    using c(2) by (auto simp: race_outcome_def split: option.splits sum.splits)
  with b(2) c l show ?thesis by (auto simp: race_cancelled_def intro!: exI)
qed

section \<open>Witnesses\<close>

definition demo_api :: "unit bot_api" where
  "demo_api = \<lparr>ba_send = (\<lambda>_ _ v. (Inr 5, v)), ba_edit = (\<lambda>_ _ _ v. (Inr (), v)), ba_action = (\<lambda>_ v. (Inr (), v)), ba_casefold = id\<rparr>"

definition idle_port :: "unit port_state" where
  "idle_port = \<lparr>ps_world = (), ps_calls = [], ps_task = None, ps_live = [], ps_next = 0\<rparr>"

definition demo_source :: source_message where
  "demo_source = \<lparr>so_chat = Some 7, so_id = 1, so_bot = True\<rparr>"

text \<open>A status, a round of its typing task, and the answer.\<close>

definition typing_port :: "unit port_state" where
  "typing_port = typing_round demo_api demo_source 0 (snd (message_send demo_api demo_source (plain 7 K_Status []) idle_port))"

lemma typing_port_reached: "port_reaches demo_api demo_source typing_port"
  unfolding typing_port_def
  by (rule port_reaches.types, rule port_reaches.sends [OF port_reaches.fresh surjective_pairing]) (simp_all add: idle_port_def)

lemmas demo_port_defs = message_send_def api_send_def demo_source_def demo_api_def idle_port_def plain_def then_op_def
  typing_after_def start_typing_def stop_typing_def cancel_typing_def typing_round_def pure_op_def Let_def

theorem typing_ends_with_the_answer_witness:
  "ps_live typing_port = [0] \<and> ps_live (snd (message_send demo_api demo_source (plain 7 K_Final (u ''Hi'')) typing_port)) = []"
proof -
  have "fst (message_send demo_api demo_source (plain 7 K_Final (u ''Hi'')) typing_port) = Inr \<lparr>se_chat = 7, se_id = 5\<rparr>"
    by (simp add: typing_port_def demo_port_defs)
  then have "message_send demo_api demo_source (plain 7 K_Final (u ''Hi'')) typing_port =
      (Inr \<lparr>se_chat = 7, se_id = 5\<rparr>, snd (message_send demo_api demo_source (plain 7 K_Final (u ''Hi'')) typing_port))"
    by (metis prod.collapse)
  then have "ps_live (snd (message_send demo_api demo_source (plain 7 K_Final (u ''Hi'')) typing_port)) = []"
    using typing_ends_with_the_answer [OF typing_port_reached, of "plain 7 K_Final (u ''Hi'')"] by (simp add: plain_def)
  moreover have "ps_live typing_port = [0]" by (simp add: typing_port_def demo_port_defs)
  ultimately show ?thesis by simp
qed

definition failing_handler :: "incoming_message \<Rightarrow> pystr \<Rightarrow> (pystr list, string, unit) action" where
  "failing_handler m payload w = (Inl ''KeyError'', w @ [payload])"

definition demo_query :: callback_query where
  "demo_query = \<lparr>cq_user = Some 1, cq_message = Some \<lparr>tm_user = None, tm_chat = Some (7, []), tm_text = None\<rparr>, cq_data = Some (u ''mem:v1:1'')\<rparr>"

theorem every_query_is_answered_witness:
  "handle_query (Some failing_handler) (\<lambda>w. (Inr (), w @ [u ''answered''])) demo_query []
     = (Inl ''KeyError'', [u ''mem:v1:1'', u ''answered''])
   \<and> (\<exists>w1. w1 @ [u ''answered''] = [u ''mem:v1:1'', u ''answered''])"
proof -
  have h: "handle_query (Some failing_handler) (\<lambda>w. (Inr (), w @ [u ''answered''])) demo_query []
     = (Inl ''KeyError'', [u ''mem:v1:1'', u ''answered''])"
    by (simp add: handle_query_def finally_op_def bracket_def then_op_def pure_op_def failing_handler_def demo_query_def)
  from every_query_is_answered [OF h] h show ?thesis by auto
qed

definition demo_client :: "(pystr list, unit) bot_client" where
  "demo_client = \<lparr>bc_make = (\<lambda>_. pure_op (Inr ())), bc_leave = (\<lambda>_ w. (Inr (), w @ [u ''closed''])),
     bc_identity = (\<lambda>_. pure_op (Inr (Some 9))), bc_commands = (\<lambda>_ _ _. pure_op (Inr True))\<rparr>"

definition demo_loop :: "(pystr list, unit) polling_loop" where
  "demo_loop = \<lparr>pl_poll = (\<lambda>_. pure_op (Inr ())), pl_contest = (\<lambda>_ w. (\<lparr>ra_polling = Some (Inr ()), ra_background = None\<rparr>, w)),
     pl_cancel = (\<lambda>ts w. if ts = [Background_Task] then w @ [u ''cancelled''] else w)\<rparr>"

theorem polling_never_stops_in_silence_witness:
  "run_polling demo_client demo_loop (u ''token'') (Some 7) True [] = (Inr (), [u ''cancelled'', u ''closed''])
   \<and> (\<exists>b w1 ra w2. pl_contest demo_loop b w1 = (ra, w2) \<and> ra_polling ra = Some (Inr ()))"
proof -
  have r: "run_polling demo_client demo_loop (u ''token'') (Some 7) True [] = (Inr (), [u ''cancelled'', u ''closed''])"
    by (simp add: run_polling_def bracket_def then_op_def pure_op_def demo_client_def demo_loop_def register_owner_command_menu_def
        raising_def try_op_def race_outcome_def race_cancelled_def is_blank_def u_def is_space_def)
  from polling_never_stops_in_silence [OF r] r show ?thesis by blast
qed

end
