(* ===== verification/Settings.thy ===== *)
theory Settings
  imports Codex
begin

text \<open>
  The configuration of the program: the persona catalog of \<open>personas.py\<close> and the settings of \<open>runtime.py\<close>
  out of the table a TOML file parses to. Reading the file is left out; a date of TOML counts as no value
  of any type the settings want.
\<close>

section \<open>The persona catalog of a file\<close>

definition required :: "(pystr \<times> pyval) list \<Rightarrow> string \<Rightarrow> pyval result" where
  "required d key = (case map_of (rev d) (u key) of None \<Rightarrow> Inl (KeyError key) | Some v \<Rightarrow> Inr v)"

text \<open>
  The class \<open>Persona\<close> does not check the types of its fields: \<open>None\<close> stands for an entry with a name, a
  prompt or a version of another type, which the model of a persona does not have.
\<close>

definition persona_from_entry :: "(pystr \<Rightarrow> pystr) \<Rightarrow> pyval \<Rightarrow> persona result option" where
  "persona_from_entry casefold entry = (case entry of
       PDict d \<Rightarrow> (case bindE (required d ''key'') (\<lambda>k. bindE (required d ''display_name'') (\<lambda>n.
           bindE (required d ''identity_prompt'') (\<lambda>p. bindE (required d ''identity_version'') (\<lambda>v.
           bindE (voice_from_mapping casefold (dict_get d (u ''voice'') PNone)) (\<lambda>vo. Inr (k, n, p, v, vo)))))) of
         Inl e \<Rightarrow> Some (Inl e)
       | Inr (PStr k, PStr n, PStr p, PInt v, vo) \<Rightarrow>
           Some (Inr \<lparr>pe_key = k, pe_display = n, pe_prompt = p, pe_identity = v, pe_voice = vo\<rparr>)
       | Inr _ \<Rightarrow> None)
     | _ \<Rightarrow> Some (Inl (TypeError ''persona entry is not a table'')))"

fun personas_from_entries :: "(pystr \<Rightarrow> pystr) \<Rightarrow> pyval list \<Rightarrow> persona list result option" where
  "personas_from_entries casefold [] = Some (Inr [])"
| "personas_from_entries casefold (v # vs) = (case persona_from_entry casefold v of
     None \<Rightarrow> None
   | Some (Inl e) \<Rightarrow> Some (Inl e)
   | Some (Inr p) \<Rightarrow> (case personas_from_entries casefold vs of
         Some (Inr ps) \<Rightarrow> Some (Inr (p # ps)) | r \<Rightarrow> r))"

fun hashable :: "pyval \<Rightarrow> bool" where
  "hashable (PList _) = False"
| "hashable (PDict _) = False"
| "hashable _ = True"

definition catalog_with_default :: "(pystr \<Rightarrow> pystr) \<Rightarrow> persona list \<Rightarrow> pyval \<Rightarrow> catalog result" where
  "catalog_with_default casefold ps key = (case key of
       PStr k \<Rightarrow> make_catalog casefold ps k
     | _ \<Rightarrow> bindE (make_catalog casefold ps (pe_key (hd ps)))
         (\<lambda>_. Inl (if hashable key then ValueError ''default persona must exist in catalog'' else TypeError ''unhashable type'')))"

definition catalog_from_toml :: "(pystr \<Rightarrow> pystr) \<Rightarrow> (pystr \<times> pyval) list \<Rightarrow> catalog result option" where
  "catalog_from_toml casefold data = (case dict_get data (u ''personas'') (PList []) of
       PList vs \<Rightarrow> (case personas_from_entries casefold vs of
           Some (Inr ps) \<Rightarrow> Some (guardE (list_ex (\<lambda>p. pe_identity p < 1) ps) (ValueError ''persona identity_version must be positive'')
             (bindE (required data ''default_persona_key'') (catalog_with_default casefold ps)))
         | Some (Inl e) \<Rightarrow> Some (Inl e)
         | None \<Rightarrow> None)
     | _ \<Rightarrow> Some (Inl (ValueError ''personas must be an array'')))"

text \<open>What comes out of a file has valid voices and positive versions.\<close>

lemma persona_from_entry_valid:
  "persona_from_entry casefold v = Some (Inr p) \<Longrightarrow> valid_voice casefold (pe_voice p)"
  by (auto simp: persona_from_entry_def bindE_eq_Inr split: pyval.splits sum.splits prod.splits dest: voice_from_mapping_valid)

lemma personas_from_entries_valid:
  "personas_from_entries casefold vs = Some (Inr ps) \<Longrightarrow> p \<in> set ps \<Longrightarrow> valid_voice casefold (pe_voice p)"
  by (induction vs arbitrary: ps) (auto split: option.splits sum.splits dest: persona_from_entry_valid)

lemma catalog_from_toml_Inr:
  assumes "catalog_from_toml casefold data = Some (Inr c)"
  shows "\<exists>vs ps k. dict_get data (u ''personas'') (PList []) = PList vs \<and> personas_from_entries casefold vs = Some (Inr ps)
    \<and> (\<forall>p \<in> set ps. 1 \<le> pe_identity p) \<and> make_catalog casefold ps k = Inr c"
proof -
  obtain vs where vs: "dict_get data (u ''personas'') (PList []) = PList vs"
    using assms by (auto simp: catalog_from_toml_def split: pyval.splits)
  obtain ps where ps: "personas_from_entries casefold vs = Some (Inr ps)"
    using assms vs by (auto simp: catalog_from_toml_def split: option.splits sum.splits)
  have g: "guardE (list_ex (\<lambda>p. pe_identity p < 1) ps) (ValueError ''persona identity_version must be positive'')
      (bindE (required data ''default_persona_key'') (catalog_with_default casefold ps)) = Inr c"
    using assms vs ps by (simp add: catalog_from_toml_def)
  then obtain key where "catalog_with_default casefold ps key = Inr c" by (auto simp: result_simps)
  then have "\<exists>k. make_catalog casefold ps k = Inr c"
    by (auto simp: catalog_with_default_def result_simps split: pyval.splits)
  moreover have "\<forall>p \<in> set ps. 1 \<le> pe_identity p" using g by (auto simp: result_simps list_ex_iff)
  ultimately show ?thesis using vs ps by blast
qed

section \<open>The settings\<close>

record search_settings =
  ws_provider :: pystr
  ws_max_results :: int

record runtime_settings =
  rs_root :: pystr
  rs_owner :: int
  rs_client :: pystr
  rs_catalog :: catalog
  rs_search :: "search_settings option"
  rs_recipient :: "pystr option"
  rs_config :: pystr
  rs_backend :: pystr
  rs_chat_model :: pystr
  rs_structured_model :: pystr

definition codex_model :: pystr where "codex_model = u ''gpt-5.6-terra''"

definition default_client :: pystr where "default_client = u ''b1a00492-073a-47ea-816f-4c329264a828''"

text \<open>The type of a value that must be a table: absent, a table, or something else.\<close>

definition table_at :: "(pystr \<times> pyval) list \<Rightarrow> string \<Rightarrow> string \<Rightarrow> (pystr \<times> pyval) list option result" where
  "table_at data key why = (case dict_get data (u key) PNone of
       PNone \<Rightarrow> Inr None | PDict d \<Rightarrow> Inr (Some d) | _ \<Rightarrow> Inl (ValueError why))"

definition owner_id :: "(pystr \<times> pyval) list \<Rightarrow> int result" where
  "owner_id telegram = (case dict_get telegram (u ''allowed_user_id'') PNone of
       PInt n \<Rightarrow> guardE (n \<le> 0) (ValueError ''Telegram allowed_user_id must be a positive integer'') (Inr n)
     | _ \<Rightarrow> Inl (ValueError ''Telegram allowed_user_id must be a positive integer''))"

definition text_setting :: "string \<Rightarrow> pyval \<Rightarrow> pystr result" where
  "text_setting why v = (case string_value v of None \<Rightarrow> Inl (ValueError why)
     | Some t \<Rightarrow> guardE (is_blank t) (ValueError why) (Inr t))"

definition client_id :: "(pystr \<times> pyval) list option \<Rightarrow> pystr result" where
  "client_id oauth = text_setting ''OAuth client_id cannot be empty''
     (case oauth of None \<Rightarrow> PStr default_client | Some d \<Rightarrow> dict_get d (u ''client_id'') (PStr default_client))"

definition export_recipient :: "(pystr \<times> pyval) list option \<Rightarrow> pystr option result" where
  "export_recipient export = (case (case export of None \<Rightarrow> PNone | Some d \<Rightarrow> dict_get d (u ''age_recipient'') PNone) of
       PNone \<Rightarrow> Inr None
     | PStr t \<Rightarrow> guardE (\<not> starts_with (u ''age1'') t \<or> length t < 10 \<or> list_ex is_space t)
         (ValueError ''export age_recipient is invalid'') (Inr (Some t))
     | _ \<Rightarrow> Inl (ValueError ''export age_recipient is invalid''))"

text \<open>The provider is looked up in a set, so an unhashable value is a \<open>TypeError\<close>.\<close>

definition search_settings_of :: "(pystr \<times> pyval) list \<Rightarrow> search_settings result" where
  "search_settings_of d =
     guardE (\<not> set (map fst d) \<subseteq> {u ''provider'', u ''max_results''}) (ValueError ''web search configuration contains unknown fields'')
     (let p = dict_get d (u ''provider'') (PStr (u ''ddgs'')) in
      guardE (\<not> hashable p) (TypeError ''unhashable type'')
      (guardE (p \<notin> {PStr (u ''ddgs''), PStr (u ''tavily'')}) (ValueError ''web search provider must be ddgs or tavily'')
      (case (string_value p, dict_get d (u ''max_results'') (PInt 5)) of
         (Some name, PInt n) \<Rightarrow> guardE (n < 1 \<or> 10 < n) (ValueError ''web search max_results must be between 1 and 10'')
             (Inr \<lparr>ws_provider = name, ws_max_results = n\<rparr>)
       | _ \<Rightarrow> Inl (ValueError ''web search max_results must be between 1 and 10''))))"

definition optional :: "('a \<Rightarrow> 'b result) \<Rightarrow> 'a option \<Rightarrow> 'b option result" where
  "optional f x = (case x of None \<Rightarrow> Inr None | Some a \<Rightarrow> bindE (f a) (\<lambda>b. Inr (Some b)))"

definition model_backend :: "(pystr \<times> pyval) list \<Rightarrow> (pystr \<times> pystr \<times> pystr) result" where
  "model_backend data = (case dict_get data (u ''provider'') (PDict []) of
       PDict d \<Rightarrow> (let name = dict_get d (u ''name'') (PStr (u ''codex'')) in
         guardE (name \<notin> {PStr (u ''codex''), PStr (u ''xai'')}) (ValueError ''provider name must be codex or xai'')
         (bindE (text_setting ''provider chat_model must be a non-empty string'' (dict_get d (u ''chat_model'') (PStr codex_model))) (\<lambda>chat.
          bindE (text_setting ''provider structured_model must be a non-empty string'' (dict_get d (u ''structured_model'') (PStr codex_model))) (\<lambda>structured.
            Inr (case string_value name of Some n \<Rightarrow> n | None \<Rightarrow> [], chat, structured)))))
     | _ \<Rightarrow> Inl (ValueError ''provider configuration is invalid''))"

definition configured_catalog :: "catalog result \<Rightarrow> catalog result" where
  "configured_catalog r = (case r of
       Inl (KeyError _) \<Rightarrow> Inl (ValueError ''persona configuration is invalid'')
     | Inl (TypeError _) \<Rightarrow> Inl (ValueError ''persona configuration is invalid'')
     | Inl e \<Rightarrow> Inl (if is_value_error e then ValueError ''persona configuration is invalid'' else e)
     | Inr c \<Rightarrow> Inr c)"

text \<open>\<open>parsed\<close> is the catalog of the same file; \<open>beside\<close> is the directory \<open>data\<close> next to it.\<close>

definition load_runtime_settings ::
    "pystr \<Rightarrow> pystr option \<Rightarrow> (pystr \<Rightarrow> pystr) \<Rightarrow> catalog result \<Rightarrow> (pystr \<times> pyval) list \<Rightarrow> runtime_settings result" where
  "load_runtime_settings path data_root beside parsed data =
     (case dict_get data (u ''telegram'') PNone of
        PDict telegram \<Rightarrow>
          bindE (table_at data ''oauth'' ''runtime configuration oauth value must be a table'') (\<lambda>oauth.
          bindE (table_at data ''export'' ''runtime configuration export value must be a table'') (\<lambda>export.
          bindE (table_at data ''web_search'' ''runtime configuration web search value must be a table'') (\<lambda>search.
          bindE (owner_id telegram) (\<lambda>owner.
          bindE (client_id oauth) (\<lambda>client.
          bindE (export_recipient export) (\<lambda>recipient.
          bindE (optional search_settings_of search) (\<lambda>ws.
          bindE (model_backend data) (\<lambda>(backend, chat, structured).
          bindE (configured_catalog parsed) (\<lambda>cat.
            Inr \<lparr>rs_root = (case data_root of Some r \<Rightarrow> r | None \<Rightarrow> beside path), rs_owner = owner, rs_client = client,
              rs_catalog = cat, rs_search = ws, rs_recipient = recipient, rs_config = path, rs_backend = backend,
              rs_chat_model = chat, rs_structured_model = structured\<rparr>)))))))))
      | _ \<Rightarrow> Inl (ValueError ''runtime configuration must contain a telegram table''))"

section \<open>What loads is valid\<close>

definition valid_settings :: "runtime_settings \<Rightarrow> bool" where
  "valid_settings se \<longleftrightarrow> 0 < rs_owner se \<and> \<not> is_blank (rs_client se)
     \<and> (\<forall>t. rs_recipient se = Some t \<longrightarrow> (\<exists>s. t = u ''age1'' @ s) \<and> 10 \<le> length t \<and> \<not> list_ex is_space t)
     \<and> (\<forall>ws. rs_search se = Some ws \<longrightarrow> ws_provider ws \<in> {u ''ddgs'', u ''tavily''} \<and> 1 \<le> ws_max_results ws \<and> ws_max_results ws \<le> 10)
     \<and> rs_backend se \<in> {u ''codex'', u ''xai''} \<and> \<not> is_blank (rs_chat_model se) \<and> \<not> is_blank (rs_structured_model se)"

lemma text_setting_Inr: "text_setting why v = Inr t \<Longrightarrow> \<not> is_blank t"
  by (auto simp: text_setting_def result_simps split: option.splits)

lemma search_settings_Inr:
  "search_settings_of d = Inr ws \<Longrightarrow> ws_provider ws \<in> {u ''ddgs'', u ''tavily''} \<and> 1 \<le> ws_max_results ws \<and> ws_max_results ws \<le> 10"
  by (auto simp: search_settings_of_def result_simps Let_def split: option.splits pyval.splits)

lemma export_recipient_Inr:
  assumes "export_recipient x = Inr (Some t)"
  shows "(\<exists>s. t = u ''age1'' @ s) \<and> 10 \<le> length t \<and> \<not> list_ex is_space t"
proof -
  have "starts_with (u ''age1'') t \<and> 10 \<le> length t \<and> \<not> list_ex is_space t"
    using assms by (auto simp: export_recipient_def result_simps split: option.splits pyval.splits)
  then show ?thesis unfolding starts_with_def by (metis append_take_drop_id)
qed

lemma model_backend_Inr:
  "model_backend data = Inr (b, chat, structured) \<Longrightarrow> b \<in> {u ''codex'', u ''xai''} \<and> \<not> is_blank chat \<and> \<not> is_blank structured"
  by (auto simp: model_backend_def result_simps Let_def split: pyval.splits dest: text_setting_Inr)

lemma owner_id_Inr: "owner_id d = Inr n \<Longrightarrow> 0 < n"
  by (auto simp: owner_id_def result_simps split: pyval.splits)

text \<open>
Settings that load are valid. The owner is a positive identifier, client and models are not blank, a
recipient of exports is an age key without white space, a web search names a known provider and asks for
one to ten results, and the backend is one of the two; no table of a configuration, whatever it holds,
gets past the loader otherwise.
\<close>
theorem settings_are_valid:
  assumes "load_runtime_settings path base_dir beside parsed data = Inr se"
  shows "valid_settings se"
proof -
  obtain telegram where t: "dict_get data (u ''telegram'') PNone = PDict telegram"
    using assms by (auto simp: load_runtime_settings_def split: pyval.splits)
  note steps = assms [unfolded load_runtime_settings_def t pyval.case bindE_eq_Inr]
  from steps obtain oauth export search where
    s: "owner_id telegram = Inr (rs_owner se)" "client_id oauth = Inr (rs_client se)" "export_recipient export = Inr (rs_recipient se)"
      "optional search_settings_of search = Inr (rs_search se)"
      "model_backend data = Inr (rs_backend se, rs_chat_model se, rs_structured_model se)"
    by (auto simp: bindE_eq_Inr)
  have "ws_provider ws \<in> {u ''ddgs'', u ''tavily''} \<and> 1 \<le> ws_max_results ws \<and> ws_max_results ws \<le> 10" if "rs_search se = Some ws" for ws
    using s(4) that by (auto simp: optional_def bindE_eq_Inr split: option.splits dest: search_settings_Inr)
  moreover have "(\<exists>x. t = u ''age1'' @ x) \<and> 10 \<le> length t \<and> \<not> list_ex is_space t" if "rs_recipient se = Some t" for t
    using export_recipient_Inr s(3) that by metis
  ultimately show ?thesis
    using owner_id_Inr [OF s(1)] text_setting_Inr [OF s(2) [unfolded client_id_def]] model_backend_Inr [OF s(5)]
    unfolding valid_settings_def by blast
qed

text \<open>A file with nothing but its owner gets the defaults.\<close>

lemma default_settings:
  assumes "0 < n"
  shows "load_runtime_settings path None beside (Inr cat) [(u ''telegram'', PDict [(u ''allowed_user_id'', PInt n)])] =
    Inr \<lparr>rs_root = beside path, rs_owner = n, rs_client = default_client, rs_catalog = cat, rs_search = None, rs_recipient = None,
      rs_config = path, rs_backend = u ''codex'', rs_chat_model = codex_model, rs_structured_model = codex_model\<rparr>"
proof -
  have k: "u ''telegram'' \<noteq> u ''oauth''" "u ''telegram'' \<noteq> u ''export''" "u ''telegram'' \<noteq> u ''web_search''" "u ''telegram'' \<noteq> u ''provider''"
    by (simp_all add: u_def)
  have b: "\<not> is_blank default_client" "\<not> is_blank codex_model"
    by (simp_all add: default_client_def codex_model_def is_blank_def u_def is_space_def)
  show ?thesis using assms k b
    by (simp add: load_runtime_settings_def dict_get_def table_at_def owner_id_def client_id_def text_setting_def export_recipient_def
        optional_def model_backend_def configured_catalog_def bindE_def guardE_def)
qed

theorem settings_are_valid_witness:
  "valid_settings \<lparr>rs_root = [], rs_owner = 7, rs_client = default_client, rs_catalog = \<lparr>cat_personas = [], cat_default = []\<rparr>,
     rs_search = None, rs_recipient = None, rs_config = [], rs_backend = u ''codex'', rs_chat_model = codex_model,
     rs_structured_model = codex_model\<rparr>"
  by (rule settings_are_valid [OF default_settings [of 7 "[]" "\<lambda>p. p" "\<lparr>cat_personas = [], cat_default = []\<rparr>"]]) simp

end
