(* ===== verification/Runtime.thy ===== *)
theory Runtime
  imports Telegram_Adapter Settings
begin

text \<open>
  The composition of the program in \<open>runtime.py\<close>: the choice of credentials and of the model providers, the
  opening of the application over its stores, its run, the local chat, the login and the dispatch of
  the command line. Stores, polling and the service are arguments; an exception is a \<open>provider_error\<close>.
\<close>

section \<open>Credentials and providers\<close>

record 'w token_backend =
  tb_load :: "('w, token_state option) call"
  tb_save :: "token_state \<Rightarrow> ('w, unit) call"
  tb_enter :: "('w, unit) call"
  tb_leave :: "('w, unit) call"

definition open_oauth_credentials :: "pystr \<Rightarrow> 'w token_backend \<Rightarrow> 'w token_backend \<Rightarrow> 'w token_backend" where
  "open_oauth_credentials platform windows linux = (if platform = u ''win32'' then windows else linux)"

record 'w model_providers =
  mp_respond :: "prompt \<Rightarrow> ('w, text_response) call"
  mp_structured :: "pystr \<Rightarrow> pystr \<Rightarrow> pyval \<Rightarrow> ('w, structured_response) call"
  mp_tools :: "'w provider option"

definition xai_model :: pystr where "xai_model = u ''grok-4.5''"

definition inference_base :: pystr where "inference_base = u ''https://api.x.ai/v1''"

definition refresher_for :: "'w token_backend \<Rightarrow> 'w oauth_http \<Rightarrow> 'w refresher" where
  "refresher_for tb oh = \<lparr>rf_enter = tb_enter tb, rf_leave = tb_leave tb, rf_load = tb_load tb, rf_save = tb_save tb,
     rf_refresh = refresh_token oh None, rf_now = oh_now oh, rf_skew = 60 * 1000000\<rparr>"

definition value_error :: "'a result \<Rightarrow> provider_error + 'a" where
  "value_error r = (case r of Inl (ValueError why) \<Rightarrow> Inl (Invalid_Value why) | Inl _ \<Rightarrow> Inl (Other_Error ''Exception'') | Inr x \<Rightarrow> Inr x)"

text \<open>What both backends are built from: the process and SDK of Codex, the HTTP clients and credentials of xAI.\<close>

record ('w, 'h, 't) backends =
  bk_process :: "'w host_process"
  bk_sdk :: "('w, 'h, 't) codex_sdk"
  bk_loads :: "pystr \<Rightarrow> pyval option"
  bk_http :: "'w oauth_http"
  bk_transport :: "'w transport"
  bk_tokens :: "'w token_backend"

definition codex_providers :: "('w, 'h, 't) backends \<Rightarrow> runtime_settings \<Rightarrow> 'w model_providers" where
  "codex_providers bk se = (let runner = sdk_runner (bk_process bk) (bk_sdk bk) in
     \<lparr>mp_respond = codex_respond (runner (rs_chat_model se)) (rs_chat_model se),
      mp_structured = (\<lambda>p _ schema. codex_structured_respond (bk_loads bk) (runner (rs_structured_model se)) (rs_structured_model se) p schema),
      mp_tools = None\<rparr>)"

definition xai_providers :: "'w transport \<Rightarrow> ('w, bearer) call \<Rightarrow> 'w provider \<Rightarrow> 'w model_providers" where
  "xai_providers tr source pv = \<lparr>mp_respond = provider_respond pv, mp_structured = structured_respond tr source xai_model, mp_tools = Some pv\<rparr>"

definition build_providers :: "('w, 'h, 't) backends \<Rightarrow> runtime_settings \<Rightarrow> ('w, 'w model_providers) call" where
  "build_providers bk se =
     (if rs_backend se = u ''codex'' then
        then_op (verify_codex_credentials (bk_process bk) (bk_sdk bk)) (\<lambda>_. pure_op (Inr (codex_providers bk se)))
      else then_op (tb_load (bk_tokens bk)) (\<lambda>state.
        then_op (demand (state \<noteq> None) (unavailable ''OAuth credential state is unavailable'')) (\<lambda>_.
        then_op (pure_op (value_error (check_refresh_client ((bk_http bk)\<lparr>oh_client := rs_client se\<rparr>)))) (\<lambda>oh.
          let source = oauth_source (refresher_for (bk_tokens bk) oh) inference_base in
          then_op (pure_op (make_provider (bk_transport bk) OAuth_Only (Some source) None xai_model)) (\<lambda>pv.
            pure_op (Inr (xai_providers (bk_transport bk) source pv)))))))"

datatype search_choice = Use_Ddgs int | Use_Tavily pystr int

definition choose_search :: "runtime_settings \<Rightarrow> pystr \<Rightarrow> bool \<Rightarrow> provider_error + search_choice option" where
  "choose_search se tavily_key tools = (case rs_search se of
       None \<Rightarrow> Inr None
     | Some ws \<Rightarrow>
         if \<not> tools then Inl (Invalid_Value ''web search requires a provider with tool support'')
         else if ws_provider ws = u ''ddgs'' then Inr (Some (Use_Ddgs (ws_max_results ws)))
         else if is_blank tavily_key then Inl (unavailable ''Tavily API key is unavailable'')
         else Inr (Some (Use_Tavily tavily_key (ws_max_results ws))))"

section \<open>The application and its stores\<close>

datatype store_name = Conversations_Db | Memories_Db | Sessions_Db | Confirmations_Db | Reminders_Db | Reminder_Worker_Db | Reset_Db | Finalizer_Db

text \<open>
  The seven stores whose \<open>close\<close> goes on the exit stack. The session finalizer opens a connection of its own,
  which is neither on the stack nor among the stores of \<open>LocalApplication\<close>. A constructor that raises
  leaves no connection: \<open>open_state_database\<close> closes it.
\<close>

definition store_order :: "store_name list" where
  "store_order = [Conversations_Db, Memories_Db, Sessions_Db, Confirmations_Db, Reminders_Db, Reminder_Worker_Db, Reset_Db]"

text \<open>
  \<open>re_hooks\<close> and \<open>re_assemble\<close> are the rest of the composition, before the recovery of the extractions and
  after the finalizer is opened: registered hooks and constructors that keep references, which may raise. They open nothing.
\<close>

record ('w, 'h) runtime_env =
  re_mkdir :: "pystr \<Rightarrow> ('w, unit) call"
  re_open :: "store_name \<Rightarrow> ('w, 'h) call"
  re_close :: "'h \<Rightarrow> ('w, unit) call"
  re_hooks :: "'h list \<Rightarrow> ('w, unit) call"
  re_recover :: "int \<Rightarrow> ('w, unit) call"
  re_assemble :: "'h list \<Rightarrow> 'h \<Rightarrow> ('w, unit) call"

record ('m, 'h) local_application =
  la_providers :: 'm
  la_search :: "search_choice option"
  la_stores :: "'h list"
  la_finalizer :: 'h

definition open_registered :: "('w, 'h) runtime_env \<Rightarrow> int \<Rightarrow> ('w \<times> 'h list, 'h list) call" where
  "open_registered env owner = then_op (open_each (map (re_open env) store_order)) (\<lambda>hs.
     then_op (on_fst (re_hooks env hs)) (\<lambda>_.
     then_op (on_fst (re_recover env owner)) (\<lambda>_. pure_op (Inr hs))))"

text \<open>\<open>SQLiteSessionFinalizer\<close>: a connection that is not registered for closing.\<close>

definition open_finalizer :: "('w, 'h) runtime_env \<Rightarrow> 'h list \<Rightarrow> ('w \<times> 'h list, 'h list \<times> 'h) call" where
  "open_finalizer env hs = then_op (on_fst (re_open env Finalizer_Db)) (\<lambda>f.
     then_op (on_fst (re_assemble env hs f)) (\<lambda>_. pure_op (Inr (hs, f))))"

definition open_stores :: "('w, 'h) runtime_env \<Rightarrow> int \<Rightarrow> ('w \<times> 'h list, 'h list \<times> 'h) call" where
  "open_stores env owner = then_op (open_registered env owner) (open_finalizer env)"

text \<open>\<open>tools m\<close> is the attribute \<open>supports_tools\<close> of the providers \<open>m\<close>.\<close>

definition open_local_application ::
    "('w, 'h) runtime_env \<Rightarrow> ('w, 'm) call \<Rightarrow> ('m \<Rightarrow> bool) \<Rightarrow> pystr \<Rightarrow> runtime_settings \<Rightarrow> ('w, ('m, 'h) local_application) call" where
  "open_local_application env mk tools tavily_key se =
     then_op mk (\<lambda>m.
     then_op (pure_op (choose_search se tavily_key (tools m))) (\<lambda>search.
     then_op (re_mkdir env (rs_root se)) (\<lambda>_.
     then_op (exit_stack (re_close env) (then_op (open_stores env (rs_owner se)) (\<lambda>hf. then_op pop_all (\<lambda>_. pure_op (Inr hf))))) (\<lambda>(hs, f).
       pure_op (Inr \<lparr>la_providers = m, la_search = search, la_stores = hs, la_finalizer = f\<rparr>)))))"

definition close_application :: "('w, 'h) runtime_env \<Rightarrow> ('m, 'h) local_application \<Rightarrow> ('w, unit) call" where
  "close_application env app = close_each (re_close env) (rev (la_stores app))"

definition run_application ::
    "('w, 'h) runtime_env \<Rightarrow> ('w, 'm) call \<Rightarrow> ('m \<Rightarrow> bool) \<Rightarrow> pystr \<Rightarrow> (('m, 'h) local_application \<Rightarrow> ('w, unit) call) \<Rightarrow> pystr
      \<Rightarrow> runtime_settings \<Rightarrow> ('w, unit) call" where
  "run_application env mk tools tavily_key polling token se =
     then_op (demand (\<not> is_blank token) (Invalid_Value ''Telegram bot token cannot be empty'')) (\<lambda>_.
     then_op (open_local_application env mk tools tavily_key se) (\<lambda>app.
       finally_op (polling app) (close_application env app)))"

definition chat_lines :: "response list \<Rightarrow> pystr list" where
  "chat_lines rs = (let finals = filter (\<lambda>r. ts_kind r = K_Final) rs in
     map ts_text finals @ (if finals = [] \<and> rs \<noteq> [] then [ts_text (last rs)] else []))"

fun output_each :: "(pystr \<Rightarrow> ('w, unit) call) \<Rightarrow> pystr list \<Rightarrow> ('w, unit) call" where
  "output_each output [] = pure_op (Inr ())"
| "output_each output (t # ts) = then_op (output t) (\<lambda>_. output_each output ts)"

text \<open>\<open>handle\<close> is the service with a port that collects the responses.\<close>

definition run_local_chat ::
    "('w, 'h) runtime_env \<Rightarrow> ('w, 'm) call \<Rightarrow> ('m \<Rightarrow> bool) \<Rightarrow> pystr
      \<Rightarrow> (('m, 'h) local_application \<Rightarrow> incoming_message \<Rightarrow> ('w, response list) call) \<Rightarrow> (pystr \<Rightarrow> ('w, unit) call) \<Rightarrow> pystr
      \<Rightarrow> runtime_settings \<Rightarrow> ('w, unit) call" where
  "run_local_chat env mk tools tavily_key handle output message se =
     then_op (demand (\<not> is_blank message) (Invalid_Value ''chat message cannot be empty'')) (\<lambda>_.
     then_op (open_local_application env mk tools tavily_key se) (\<lambda>app.
     then_op (finally_op (handle app (incoming (rs_owner se) (rs_owner se, u ''private'') message)) (close_application env app)) (\<lambda>rs.
       output_each output (chat_lines rs))))"

section \<open>The login\<close>

text \<open>The device login of xAI, with the fuel of its polling loop.\<close>

definition login ::
    "('w, 'h, 't) backends \<Rightarrow> (seconds \<Rightarrow> 'w \<Rightarrow> 'w) \<Rightarrow> (pystr \<Rightarrow> ('w, unit) call) \<Rightarrow> nat \<Rightarrow> runtime_settings \<Rightarrow> 'w
      \<Rightarrow> ((provider_error + unit) \<times> 'w) option" where
  "login bk sleep output n se w =
     (if rs_backend se = u ''codex'' then Some (codex_device_login (bk_process bk) (bk_sdk bk) w)
      else (case then_op (pure_op (value_error (check_device_client ((bk_http bk)\<lparr>oh_client := rs_client se\<rparr>)))) (\<lambda>oh.
             then_op (start_device_authorization oh) (\<lambda>au.
             then_op (output (u ''Open: '' @ da_uri au)) (\<lambda>_.
             then_op (output (u ''Code: '' @ da_user au)) (\<lambda>_. pure_op (Inr (oh, au)))))) w of
           (Inl e, w') \<Rightarrow> Some (Inl e, w')
         | (Inr (oh, au), w') \<Rightarrow>
             (case complete_device_authorization oh sleep (tb_enter (bk_tokens bk)) (tb_leave (bk_tokens bk)) (tb_save (bk_tokens bk)) n au w' of
                None \<Rightarrow> None
              | Some (Inl e, w2) \<Rightarrow> Some (Inl e, w2)
              | Some (Inr _, w2) \<Rightarrow> Some (output (u ''OAuth login completed.'') w2))))"

section \<open>The command line\<close>

datatype cli_command = Cli_Login | Cli_Run | Cli_Chat pystr | Cli_Smoke bool | Cli_E2e_Login | Cli_E2e bool | Cli_E2e_Bot bool

text \<open>
  What the commands call; \<open>cl_settings\<close> takes the data root of the command line, \<open>'e\<close> is the settings of the
  end-to-end check and \<open>'c\<close> its credentials.
\<close>

record ('w, 'e, 'c) cli =
  cl_settings :: "pystr option \<Rightarrow> ('w, runtime_settings) call"
  cl_login :: "runtime_settings \<Rightarrow> ('w, unit) call"
  cl_run :: "bool \<Rightarrow> runtime_settings \<Rightarrow> ('w, unit) call"
  cl_chat :: "runtime_settings \<Rightarrow> pystr \<Rightarrow> ('w, unit) call"
  cl_smoke :: "runtime_settings \<Rightarrow> bool \<Rightarrow> ('w, unit) call"
  cl_e2e_settings :: "('w, 'e) call"
  cl_e2e_login :: "'e \<Rightarrow> ('w, unit) call"
  cl_e2e_credentials :: "('w, 'c option) call"
  cl_e2e_run :: "'e \<Rightarrow> 'c \<Rightarrow> bool \<Rightarrow> ('w, unit) call"
  cl_e2e_bot :: "'e \<Rightarrow> int"
  cl_verify :: "int \<Rightarrow> ('w, unit) call"
  cl_prepare :: "pystr option \<Rightarrow> ('w, pystr) call"

text \<open>\<open>cl_run\<close> is told whether the bot replies to each message, as the bot of the end-to-end check does.\<close>

definition run_command_line :: "('w, 'e, 'c) cli \<Rightarrow> pystr option \<Rightarrow> cli_command \<Rightarrow> ('w, unit) call" where
  "run_command_line cl data_root command = (case command of
       Cli_E2e_Login \<Rightarrow> then_op (cl_e2e_settings cl) (cl_e2e_login cl)
     | Cli_E2e confirmed \<Rightarrow> then_op (cl_e2e_settings cl) (\<lambda>e. then_op (cl_e2e_credentials cl) (\<lambda>c.
         case c of None \<Rightarrow> pure_op (Inl (unavailable ''Telegram E2E credential state is unavailable''))
                 | Some k \<Rightarrow> cl_e2e_run cl e k confirmed))
     | Cli_E2e_Bot confirmed \<Rightarrow>
         then_op (demand confirmed (Invalid_Value ''Telegram E2E bot requires explicit run confirmation'')) (\<lambda>_.
         then_op (cl_e2e_settings cl) (\<lambda>e.
         then_op (cl_verify cl (cl_e2e_bot cl e)) (\<lambda>_.
         then_op (cl_prepare cl data_root) (\<lambda>place.
         then_op (cl_settings cl (Some place)) (cl_run cl True)))))
     | Cli_Login \<Rightarrow> then_op (cl_settings cl data_root) (cl_login cl)
     | Cli_Run \<Rightarrow> then_op (cl_settings cl data_root) (cl_run cl False)
     | Cli_Chat message \<Rightarrow> then_op (cl_settings cl data_root) (\<lambda>se. cl_chat cl se message)
     | Cli_Smoke confirmed \<Rightarrow> then_op (cl_settings cl data_root) (\<lambda>se. cl_smoke cl se confirmed))"

text \<open>The end of the process: 0, 2 from \<open>parser.error\<close>, or an exception that nothing catches.\<close>

datatype process_end = Exit_Status nat | Traceback provider_error

fun reported :: "provider_error \<Rightarrow> bool" where
  "reported (Other_Error kind) = (kind = ''OSError'')"
| "reported _ = True"

definition main_program :: "('w, 'e, 'c) cli \<Rightarrow> pystr option \<Rightarrow> cli_command \<Rightarrow> 'w \<Rightarrow> process_end \<times> 'w" where
  "main_program cl data_root command w = (case run_command_line cl data_root command w of
       (Inr _, w') \<Rightarrow> (Exit_Status 0, w')
     | (Inl e, w') \<Rightarrow> (if reported e then Exit_Status 2 else Traceback e, w'))"

section \<open>Which stores are closed\<close>

text \<open>The environment with a trail of the stores it opened and closed.\<close>

definition traced :: "('v, 'h) runtime_env \<Rightarrow> ('v \<times> ('h + 'h) list, 'h) runtime_env" where
  "traced env = \<lparr>re_mkdir = (\<lambda>d. on_fst (re_mkdir env d)),
     re_open = (\<lambda>k. then_op (on_fst (re_open env k)) (\<lambda>h s. (Inr h, (fst s, snd s @ [Inl h])))),
     re_close = (\<lambda>h s. case re_close env h (fst s) of (r, v) \<Rightarrow> (r, (v, snd s @ [Inr h]))),
     re_hooks = (\<lambda>hs. on_fst (re_hooks env hs)), re_recover = (\<lambda>i. on_fst (re_recover env i)),
     re_assemble = (\<lambda>hs f. on_fst (re_assemble env hs f))\<rparr>"

interpretation traced_stores: tracked snd "re_close (traced env)"
  by unfold_locales (auto simp: traced_def split: prod.splits)

lemma on_fst_silent: "traced_stores.silent (on_fst f)"
  by (auto simp: traced_stores.silent_def on_fst_def split: prod.split)

lemma traced_opens: "traced_stores.opens (re_open (traced env) k)"
  by (auto simp: traced_stores.opens_def traced_def then_op_def on_fst_def split: prod.splits sum.splits)

lemma open_registered_books: "keeps traced_stores.books (open_registered (traced env) owner)"
proof -
  have "keeps traced_stores.books (on_fst (re_recover (traced env) i))" "keeps traced_stores.books (on_fst (re_hooks (traced env) hs))" for i hs
    by (rule traced_stores.books_silent, simp add: traced_def on_fst_silent)+
  then show ?thesis unfolding open_registered_def
    by (intro keeps_then traced_stores.preorder_books traced_stores.books_open_each keeps_pure) (auto simp: traced_opens)
qed

lemma close_each_total:
  assumes "\<And>h w. \<exists>w'. close h w = (Inr (), w')"
  shows "\<exists>w'. close_each close hs w = (Inr (), w')"
proof (induction hs arbitrary: w)
  case (Cons h hs)
  obtain w1 where "close h w = (Inr (), w1)" using assms by blast
  with Cons.IH [of w1] show ?case by (simp add: then_op_def)
qed simp

lemma then_silent:
  assumes "then_op f g s = (r, w)" and "snd (snd (f s)) = snd s"
  obtains (failed) e where "r = Inl e" "snd w = snd s"
  | (passed) x s1 where "f s = (Inr x, s1)" "snd s1 = snd s" "g x s1 = (r, w)"
proof -
  obtain q s1 where f: "f s = (q, s1)" by (rule prod.exhaust)
  with assms(2) have "snd s1 = snd s" by simp
  show thesis
  proof (cases q)
    case (Inl e)
    with assms(1) f have "r = Inl e" "w = s1" by (simp_all add: then_op_def)
    with \<open>snd s1 = snd s\<close> show thesis by (intro failed) simp_all
  next
    case (Inr x)
    with assms(1) f have "g x s1 = (r, w)" by (simp add: then_op_def)
    with f Inr \<open>snd s1 = snd s\<close> show thesis by (intro passed) simp_all
  qed
qed

lemma on_fst_snd: "on_fst f s = (q, s1) \<Longrightarrow> snd s1 = snd s"
  by (auto simp: on_fst_def split: prod.splits)

lemma pure_keeps: "snd (snd (pure_op r s)) = snd s"
  by (simp add: pure_op_def)

lemma on_fst_keeps: "snd (snd (on_fst f s)) = snd s"
  by (simp add: on_fst_def split: prod.split)

lemma registered_opened:
  assumes "open_registered (traced env) owner (s, []) = (r, t)"
  obtains hs where "snd (fst t) = snd s @ map Inl hs" "snd t = rev hs" "\<And>gs. r = Inr gs \<Longrightarrow> gs = hs \<and> length hs = length store_order"
proof -
  have "traced_stores.books (s, []) t" using open_registered_books assms by (metis keepsD)
  then obtain hs where hs: "snd (fst t) = snd s @ map Inl hs" "snd t = rev hs" by (auto simp: traced_stores.books_def)
  moreover have "gs = hs \<and> length hs = length store_order" if "r = Inr gs" for gs
  proof -
    from assms that obtain t1 t2 where e: "open_each (map (re_open (traced env)) store_order) (s, []) = (Inr gs, t1)"
      "on_fst (re_hooks (traced env) gs) t1 = (Inr (), t2)" "on_fst (re_recover (traced env) owner) t2 = (Inr (), t)"
      by (auto simp: open_registered_def then_op_Inr)
    have "snd t1 = rev gs \<and> length gs = length store_order"
      by (rule traced_stores.open_each_Inr [OF _ e(1), THEN conjunct2, simplified]) (auto simp: traced_opens)
    with hs(2) on_fst_snd [OF e(2)] on_fst_snd [OF e(3)] show ?thesis by simp
  qed
  ultimately show thesis by (rule that)
qed

lemma finalizer_opened:
  assumes "open_finalizer (traced env) hs t = (r, t')"
  obtains fs where "snd (fst t') = snd (fst t) @ map Inl fs" "snd t' = snd t"
    "case r of Inl _ \<Rightarrow> length fs \<le> 1 | Inr (gs, f) \<Rightarrow> gs = hs \<and> fs = [f]"
proof -
  have "\<exists>fs. snd (fst t') = snd (fst t) @ map Inl fs \<and> snd t' = snd t
    \<and> (case r of Inl _ \<Rightarrow> length fs \<le> 1 | Inr (gs, f) \<Rightarrow> gs = hs \<and> fs = [f])"
  proof (cases "re_open env Finalizer_Db (fst (fst t))")
    case (Pair q v)
    show ?thesis
    proof (cases q)
      case (Inl e)
      with Pair assms show ?thesis
        by (intro exI [of _ "[]"]) (auto simp: open_finalizer_def traced_def on_fst_def then_op_def)
    next
      case (Inr f)
      with Pair assms show ?thesis
        by (intro exI [of _ "[f]"]) (auto simp: open_finalizer_def traced_def on_fst_def then_op_def pure_op_def split: prod.splits sum.splits)
    qed
  qed
  with that show thesis by blast
qed

text \<open>What was opened by the end of the block: the registered stores \<open>hs\<close> and at most the finalizer's connection.\<close>

lemma stores_opened:
  assumes "exit_stack (re_close (traced env)) (then_op (open_stores (traced env) owner) (\<lambda>hf. then_op pop_all (\<lambda>_. pure_op (Inr hf)))) s = (r, w)"
  obtains (failed) e hs fs where "r = Inl e" "snd w = snd s @ map Inl (hs @ fs) @ map Inr (rev hs)" "length fs \<le> 1"
      "fs \<noteq> [] \<Longrightarrow> length hs = length store_order"
  | (opened) hs f where "r = Inr (hs, f)" "snd w = snd s @ map Inl (hs @ [f])" "length hs = length store_order"
proof -
  obtain q t where o1: "open_registered (traced env) owner (s, []) = (q, t)" by (rule prod.exhaust)
  obtain hs where hs: "snd (fst t) = snd s @ map Inl hs" "snd t = rev hs" "\<And>gs. q = Inr gs \<Longrightarrow> gs = hs \<and> length hs = length store_order"
    by (rule registered_opened [OF o1]) (rule that)
  have unwound: thesis if c: "unwind (re_close (traced env)) (rev hs) (Inl e) v = (r, w)" and v: "snd v = snd s @ map Inl (hs @ fs)" "length fs \<le> 1"
    "fs \<noteq> [] \<Longrightarrow> length hs = length store_order" for e v fs
  proof -
    obtain e' where "r = Inl e'" using traced_stores.unwind_failed [OF c] by blast
    with traced_stores.unwind_closes [OF c] v show thesis by (intro failed [of e' hs fs]) simp_all
  qed
  show thesis
  proof (cases q)
    case (Inl e)
    with assms o1 hs(2) have "unwind (re_close (traced env)) (rev hs) (Inl e) (fst t) = (r, w)"
      by (simp add: exit_stack_def then_op_def open_stores_def split: prod.splits)
    then show thesis by (rule unwound [of e "fst t" "[]"]) (use hs in simp_all)
  next
    case (Inr gs)
    then have gs: "gs = hs" "length hs = length store_order" using hs(3) by simp_all
    obtain p t' where o2: "open_finalizer (traced env) hs t = (p, t')" by (rule prod.exhaust)
    obtain fs where fs: "snd (fst t') = snd (fst t) @ map Inl fs" "snd t' = snd t"
      "case p of Inl _ \<Rightarrow> length fs \<le> 1 | Inr (gs, f) \<Rightarrow> gs = hs \<and> fs = [f]" by (rule finalizer_opened [OF o2]) (rule that)
    have body: "open_stores (traced env) owner (s, []) = (p, t')" using o1 o2 Inr gs by (simp add: open_stores_def then_op_def)
    show thesis
    proof (cases p)
      case (Inl e)
      with assms body fs(2) hs(2) have "unwind (re_close (traced env)) (rev hs) (Inl e) (fst t') = (r, w)"
        by (simp add: exit_stack_def then_op_def split: prod.splits)
      then show thesis by (rule unwound [of e "fst t'" fs]) (use hs fs gs Inl in simp_all)
    next
      case (Inr x)
      with fs(3) obtain f where f: "p = Inr (hs, f)" "fs = [f]" by auto
      with assms body have "r = Inr (hs, f)" "w = fst t'"
        by (simp_all add: exit_stack_def then_op_def pop_all_def pure_op_def)
      with f hs fs gs show thesis by (intro opened [of hs f]) simp_all
    qed
  qed
qed

lemma application_opened:
  assumes "open_local_application (traced env) (on_fst mk) tools key se s = (r, w)"
  obtains (failed) e hs fs where "r = Inl e" "snd w = snd s @ map Inl (hs @ fs) @ map Inr (rev hs)" "length fs \<le> 1"
      "fs \<noteq> [] \<Longrightarrow> length hs = length store_order"
  | (opened) app where "r = Inr app" "snd w = snd s @ map Inl (la_stores app @ [la_finalizer app])" "length (la_stores app) = length store_order"
  using assms [unfolded open_local_application_def]
proof (cases rule: then_silent [OF assms [unfolded open_local_application_def] on_fst_keeps, case_names failed passed])
  case (failed e)
  then show thesis by (intro that(1) [of e "[]" "[]"]) simp_all
next
  case (passed m s1)
  then show thesis
  proof (cases rule: then_silent [OF passed(3) pure_keeps, case_names wrong chosen])
    case (chosen search s2)
    have m: "snd (snd (re_mkdir (traced env) (rs_root se) s2)) = snd s2" by (simp add: traced_def on_fst_keeps)
    show thesis
    proof (cases rule: then_silent [OF chosen(3) m, case_names wrong made])
      case (wrong e)
      with chosen(2) passed(2) show thesis by (intro that(1) [of e "[]" "[]"]) simp_all
    next
      case (made x s3)
      let ?stores = "exit_stack (re_close (traced env)) (then_op (open_stores (traced env) (rs_owner se)) (\<lambda>hf. then_op pop_all (\<lambda>_. pure_op (Inr hf))))"
      obtain c s4 where c: "?stores s3 = (c, s4)" by (rule prod.exhaust)
      from made(3) c have w: "w = s4" "r = (case c of Inl e \<Rightarrow> Inl e | Inr (hs, f) \<Rightarrow> Inr \<lparr>la_providers = m, la_search = search, la_stores = hs, la_finalizer = f\<rparr>)"
        by (auto simp: then_op_def pure_op_def split: sum.splits prod.splits)
      show thesis
      proof (cases rule: stores_opened [OF c, case_names wrong opened])
        case (wrong e hs fs)
        with w made(2) chosen(2) passed(2) show thesis by (intro that(1) [of e hs fs]) simp_all
      next
        case (opened hs f)
        with w made(2) chosen(2) passed(2) show thesis
          by (intro that(2) [of "\<lparr>la_providers = m, la_search = search, la_stores = hs, la_finalizer = f\<rparr>"]) simp_all
      qed
    qed
  qed (auto intro: that(1) [of _ "[]" "[]"])
qed

lemma close_traced_total:
  fixes env :: "('v, 'h) runtime_env"
  assumes "\<And>h v. \<exists>v'. re_close env h v = (Inr (), v')"
  shows "\<exists>w. close_application (traced env) app s = (Inr (), w)"
  unfolding close_application_def
proof (rule close_each_total)
  fix h and s :: "'v \<times> ('h + 'h) list"
  obtain v where "re_close env h (fst s) = (Inr (), v)" using assms by blast
  then show "\<exists>w. re_close (traced env) h s = (Inr (), w)" by (simp add: traced_def)
qed

text \<open>
C19: What the application closes. However far it gets, whether a store does not open, the composition
fails, polling raises or the bot is stopped: if closing works, then at the end each of the seven
registered stores that was opened has been closed, once and in the reverse order, and nothing else. The connection
of the session finalizer, opened after all seven, is never closed, and an application that opens leaves it behind.
\<close>
theorem registered_stores_are_closed:
  assumes "\<And>h v. \<exists>v'. re_close env h v = (Inr (), v')"
    and "run_application (traced env) (on_fst mk) tools key (\<lambda>app. on_fst (polling app)) token se (v, []) = (r, w)"
  shows "\<exists>hs fs. snd w = map Inl (hs @ fs) @ map Inr (rev hs) \<and> length fs \<le> 1 \<and> (fs \<noteq> [] \<longrightarrow> length hs = length store_order)
    \<and> (\<forall>app s. \<not> is_blank token \<and> open_local_application (traced env) (on_fst mk) tools key se (v, []) = (Inr app, s)
         \<longrightarrow> hs = la_stores app \<and> fs = [la_finalizer app])"
proof (cases "is_blank token")
  case True
  then have "w = (v, [])" using assms(2) by (simp add: run_application_def demand_def then_op_def pure_op_def)
  with True show ?thesis by (intro exI [of _ "[]"]) simp
next
  case False
  let ?open = "open_local_application (traced env) (on_fst mk) tools key se"
  have run: "then_op ?open (\<lambda>app. finally_op (on_fst (polling app)) (close_application (traced env) app)) (v, []) = (r, w)"
    using assms(2) False by (simp add: run_application_def demand_def)
  obtain q s1 where o1: "?open (v, []) = (q, s1)" by (rule prod.exhaust)
  then show ?thesis
  proof (cases rule: application_opened [OF o1, case_names failed opened])
    case (failed e hs fs)
    with run o1 have "snd w = map Inl (hs @ fs) @ map Inr (rev hs)" by (simp add: then_op_def)
    with failed o1 show ?thesis by (intro exI [of _ hs] exI [of _ fs]) simp
  next
    case (opened app)
    with run o1 have "finally_op (on_fst (polling app)) (close_application (traced env) app) s1 = (r, w)" by (simp add: then_op_def)
    then obtain p s2 l where f: "on_fst (polling app) s1 = (p, s2)" "close_application (traced env) app s2 = (l, w)"
      by (auto simp: finally_cases)
    with close_traced_total [OF assms(1)] have "close_application (traced env) app s2 = (Inr (), w)" by (metis prod.inject)
    then have "snd w = snd s2 @ map Inr (rev (la_stores app))"
      unfolding close_application_def by (rule traced_stores.close_each_closes)
    with on_fst_snd [OF f(1)] opened(1,2,3) o1 show ?thesis
      by (intro exI [of _ "la_stores app"] exI [of _ "[la_finalizer app]"]) simp
  qed
qed

text \<open>
A backend without tools never gets the web search. With Codex and a table \<open>web_search\<close> the
application does not open, and it touches neither the data root nor a store.
\<close>
theorem no_search_without_tools:
  assumes "rs_backend se = u ''codex''" and "rs_search se = Some ws"
    and "open_local_application env (build_providers bk se) (\<lambda>m. mp_tools m \<noteq> None) key se w = (r, w')"
  shows "\<exists>e. r = Inl e \<and> (verify_codex_credentials (bk_process bk) (bk_sdk bk) w = (Inl e, w')
    \<or> (verify_codex_credentials (bk_process bk) (bk_sdk bk) w = (Inr (), w') \<and> e = Invalid_Value ''web search requires a provider with tool support''))"
proof -
  obtain q w1 where v: "verify_codex_credentials (bk_process bk) (bk_sdk bk) w = (q, w1)" by (rule prod.exhaust)
  with assms show ?thesis
    by (cases q) (auto simp: open_local_application_def build_providers_def choose_search_def codex_providers_def then_op_def pure_op_def Let_def)
qed

text \<open>
The bot of the end-to-end check runs only after its identity was verified and only with confirmation:
when the command gets as far as opening the application, the run was confirmed, the token belongs to the
bot of the configuration, and the data root was made for this run.
\<close>
theorem e2e_bot_is_verified:
  assumes "main_program cl data_root (Cli_E2e_Bot confirmed) w = (Exit_Status 0, w')"
  shows "confirmed \<and> (\<exists>e w1 w2 place w3 se w4. cl_e2e_settings cl w = (Inr e, w1) \<and> cl_verify cl (cl_e2e_bot cl e) w1 = (Inr (), w2)
    \<and> cl_prepare cl data_root w2 = (Inr place, w3) \<and> cl_settings cl (Some place) w3 = (Inr se, w4) \<and> cl_run cl True se w4 = (Inr (), w'))"
proof -
  have "run_command_line cl data_root (Cli_E2e_Bot confirmed) w = (Inr (), w')"
    using assms by (auto simp: main_program_def split: prod.splits sum.splits if_splits)
  then show ?thesis by (fastforce simp: run_command_line_def demand_def then_op_Inr split: if_splits)
qed

section \<open>Witnesses\<close>

text \<open>An environment in which the store \<open>bad\<close> does not open.\<close>

definition demo_env :: "store_name option \<Rightarrow> (pystr list, store_name) runtime_env" where
  "demo_env bad = \<lparr>re_mkdir = (\<lambda>_. pure_op (Inr ())),
     re_open = (\<lambda>k. pure_op (if Some k = bad then Inl (Other_Error ''OperationalError'') else Inr k)),
     re_close = (\<lambda>_. pure_op (Inr ())), re_hooks = (\<lambda>_. pure_op (Inr ())), re_recover = (\<lambda>_. pure_op (Inr ())),
     re_assemble = (\<lambda>_ _. pure_op (Inr ()))\<rparr>"

definition demo_settings :: runtime_settings where
  "demo_settings = \<lparr>rs_root = [], rs_owner = 7, rs_client = default_client, rs_catalog = \<lparr>cat_personas = [], cat_default = []\<rparr>,
     rs_search = None, rs_recipient = None, rs_config = [], rs_backend = u ''codex'', rs_chat_model = codex_model,
     rs_structured_model = codex_model\<rparr>"

text \<open>Polling fails, and once more the fourth store does not open.\<close>

theorem registered_stores_are_closed_witness:
  "(\<exists>hs. snd (snd (run_application (traced (demo_env None)) (on_fst (pure_op (Inr ()))) (\<lambda>_. False) []
       (\<lambda>_. on_fst (pure_op (Inl (Other_Error ''OSError'')))) (u ''token'') demo_settings ([], [])))
     = map Inl (hs @ [Finalizer_Db]) @ map Inr (rev hs) \<and> hs = store_order)
   \<and> (\<exists>hs fs. snd (snd (run_application (traced (demo_env (Some Confirmations_Db))) (on_fst (pure_op (Inr ()))) (\<lambda>_. False) []
       (\<lambda>_. on_fst (pure_op (Inr ()))) (u ''token'') demo_settings ([], []))) = map Inl (hs @ fs) @ map Inr (rev hs) \<and> fs = [])"
proof -
  have t: "\<not> is_blank (u ''token'')" by (simp add: is_blank_def u_def is_space_def)
  have close: "\<exists>v'. re_close (demo_env bad) h v = (Inr (), v')" for bad h v by (simp add: demo_env_def pure_op_def)
  note eval = open_local_application_def open_stores_def open_registered_def open_finalizer_def store_order_def exit_stack_def
    open_on_stack_def traced_def demo_env_def demo_settings_def choose_search_def on_fst_def then_op_def pure_op_def pop_all_def
  have opened: "open_local_application (traced (demo_env None)) (on_fst (pure_op (Inr ()))) (\<lambda>_. False) [] demo_settings ([], [])
    = (Inr \<lparr>la_providers = (), la_search = None, la_stores = store_order, la_finalizer = Finalizer_Db\<rparr>,
        ([], map Inl (store_order @ [Finalizer_Db])))"
    by (simp add: eval)
  obtain r w where run: "run_application (traced (demo_env None)) (on_fst (pure_op (Inr ()))) (\<lambda>_. False) []
      (\<lambda>_. on_fst (pure_op (Inl (Other_Error ''OSError'')))) (u ''token'') demo_settings ([], []) = (r, w)" by (rule prod.exhaust)
  from registered_stores_are_closed [OF close run] t opened
  have "\<exists>hs. snd w = map Inl (hs @ [Finalizer_Db]) @ map Inr (rev hs) \<and> hs = store_order" by auto
  moreover obtain r2 w2 where run2: "run_application (traced (demo_env (Some Confirmations_Db))) (on_fst (pure_op (Inr ()))) (\<lambda>_. False) []
      (\<lambda>_. on_fst (pure_op (Inr ()))) (u ''token'') demo_settings ([], []) = (r2, w2)" by (rule prod.exhaust)
  moreover have "snd w2 = map Inl [Conversations_Db, Memories_Db, Sessions_Db] @ map Inr [Sessions_Db, Memories_Db, Conversations_Db]"
    using t run2 by (auto simp: run_application_def demand_def eval)
  ultimately show ?thesis using run run2 by (auto intro!: exI [of _ "[Conversations_Db, Memories_Db, Sessions_Db]"])
qed

definition demo_search :: search_settings where
  "demo_search = \<lparr>ws_provider = u ''ddgs'', ws_max_results = 5\<rparr>"

definition demo_backends :: "(thread_settings list, unit, unit) backends" where
  "demo_backends = \<lparr>bk_process = demo_process, bk_sdk = demo_sdk, bk_loads = (\<lambda>_. None),
     bk_http = \<lparr>oh_client = [], oh_loads = (\<lambda>_. None), oh_delta = (\<lambda>_. None), oh_now = (\<lambda>_. Aware 0),
       oh_post = (\<lambda>_ _ _. pure_op (Inl (Other_Error ''OSError''))), oh_token_url = [], oh_device_url = [], oh_scopes = [],
       oh_split = (\<lambda>_. Inl (ValueError ''url''))\<rparr>,
     bk_transport = \<lparr>tr_urlsplit = (\<lambda>_. Inl (ValueError ''url'')), tr_loads = (\<lambda>_. None), tr_hosts = [], tr_entitlement = None,
       tr_post = (\<lambda>_ _ _. pure_op (Inl (Other_Error ''OSError'')))\<rparr>,
     bk_tokens = \<lparr>tb_load = pure_op (Inr None), tb_save = (\<lambda>_. pure_op (Inr ())), tb_enter = pure_op (Inr ()), tb_leave = pure_op (Inr ())\<rparr>\<rparr>"

definition silent_env :: "(thread_settings list, unit) runtime_env" where
  "silent_env = \<lparr>re_mkdir = (\<lambda>_. pure_op (Inr ())), re_open = (\<lambda>_. pure_op (Inr ())), re_close = (\<lambda>_. pure_op (Inr ())),
     re_hooks = (\<lambda>_. pure_op (Inr ())), re_recover = (\<lambda>_. pure_op (Inr ())), re_assemble = (\<lambda>_ _. pure_op (Inr ()))\<rparr>"

theorem no_search_without_tools_witness:
  "\<exists>e. fst (open_local_application silent_env (build_providers demo_backends (demo_settings\<lparr>rs_search := Some demo_search\<rparr>))
     (\<lambda>m. mp_tools m \<noteq> None) [] (demo_settings\<lparr>rs_search := Some demo_search\<rparr>) []) = Inl e"
proof -
  let ?se = "demo_settings\<lparr>rs_search := Some demo_search\<rparr>"
  obtain r w where o1: "open_local_application silent_env (build_providers demo_backends ?se) (\<lambda>m. mp_tools m \<noteq> None) [] ?se [] = (r, w)"
    by (rule prod.exhaust)
  from no_search_without_tools [OF _ _ o1] have "\<exists>e. r = Inl e" by (auto simp: demo_settings_def)
  with o1 show ?thesis by simp
qed

definition demo_cli :: "(pystr list, int, unit) cli" where
  "demo_cli = \<lparr>cl_settings = (\<lambda>_. pure_op (Inr demo_settings)), cl_login = (\<lambda>_. pure_op (Inr ())), cl_run = (\<lambda>_ _ w. (Inr (), w @ [u ''run''])),
     cl_chat = (\<lambda>_ _. pure_op (Inr ())), cl_smoke = (\<lambda>_ _. pure_op (Inr ())), cl_e2e_settings = pure_op (Inr 9),
     cl_e2e_login = (\<lambda>_. pure_op (Inr ())), cl_e2e_credentials = pure_op (Inr None), cl_e2e_run = (\<lambda>_ _ _. pure_op (Inr ())),
     cl_e2e_bot = (\<lambda>e. e), cl_verify = (\<lambda>i w. (if i = 9 then Inr () else Inl (Other_Error ''OSError''), w @ [u ''verified''])),
     cl_prepare = (\<lambda>_ w. (Inr [], w @ [u ''prepared'']))\<rparr>"

theorem e2e_bot_is_verified_witness:
  "main_program demo_cli None (Cli_E2e_Bot True) [] = (Exit_Status 0, [u ''verified'', u ''prepared'', u ''run''])
   \<and> (\<exists>e w1 w2. cl_e2e_settings demo_cli [] = (Inr e, w1) \<and> cl_verify demo_cli (cl_e2e_bot demo_cli e) w1 = (Inr (), w2))"
proof -
  have m: "main_program demo_cli None (Cli_E2e_Bot True) [] = (Exit_Status 0, [u ''verified'', u ''prepared'', u ''run''])"
    by (simp add: main_program_def run_command_line_def demo_cli_def then_op_def pure_op_def demand_def)
  from e2e_bot_is_verified [OF m] m show ?thesis by blast
qed

end
