(* ===== verification/E2E.thy ===== *)
theory E2E
  imports OAuth_Stores Settings
begin

text \<open>
  The end-to-end check of \<open>telegram_e2e.py\<close> with its credentials (\<open>telegram_e2e_credentials.py\<close>) and its login
  in \<open>runtime.py\<close>: the settings, the data root of the tested bot, the scenario and its run over a transport,
  which is a record of calls over a world. \<open>Telethon\<close> has the transport of the program.
\<close>

section \<open>Errors and credentials\<close>

datatype check_error = E2e_Failed string | E2e_Credential string | E2e_Value string | Foreign_Error string

type_synonym ('w, 'a) check = "('w, check_error, 'a) action"

fun e2e_kind :: "check_error \<Rightarrow> bool" where
  "e2e_kind (E2e_Failed _) = True"
| "e2e_kind _ = False"

text \<open>\<open>except TelegramE2EError: raise; except Exception: raise TelegramE2EError(why)\<close>.\<close>

definition or_failed :: "string \<Rightarrow> ('w, 'a) check \<Rightarrow> ('w, 'a) check" where
  "or_failed why f = try_op f (\<lambda>e. pure_op (Inl (if e2e_kind e then e else E2e_Failed why))) (\<lambda>x. pure_op (Inr x))"

definition insist :: "bool \<Rightarrow> check_error \<Rightarrow> ('w, unit) check" where
  "insist ok e = pure_op (if ok then Inr () else Inl e)"

record e2e_state =
  es_api :: int
  es_hash :: pystr
  es_session :: pystr
  es_user :: int

definition is_hex :: "nat \<Rightarrow> bool" where
  "is_hex c \<longleftrightarrow> (48 \<le> c \<and> c \<le> 57) \<or> (97 \<le> c \<and> c \<le> 102) \<or> (65 \<le> c \<and> c \<le> 70)"

fun positive_value :: "pyval \<Rightarrow> int option" where
  "positive_value (PInt n) = (if 0 < n then Some n else None)"
| "positive_value _ = None"

text \<open>\<open>TelegramE2ECredentialState(..)\<close> with its \<open>__post_init__\<close>.\<close>

definition make_e2e_state :: "pyval \<Rightarrow> pyval \<Rightarrow> pyval \<Rightarrow> pyval \<Rightarrow> check_error + e2e_state" where
  "make_e2e_state api hash session user = (case positive_value api of
       None \<Rightarrow> Inl (E2e_Credential ''Telegram E2E API ID is invalid'')
     | Some a \<Rightarrow> (case string_value hash of
         None \<Rightarrow> Inl (E2e_Credential ''Telegram E2E API hash is invalid'')
       | Some h \<Rightarrow> if length h \<noteq> 32 \<or> \<not> list_all is_hex h then Inl (E2e_Credential ''Telegram E2E API hash is invalid'')
           else (case string_value session of
             None \<Rightarrow> Inl (E2e_Credential ''Telegram E2E session is invalid'')
           | Some s \<Rightarrow> if is_blank s then Inl (E2e_Credential ''Telegram E2E session is invalid'')
               else (case positive_value user of
                 None \<Rightarrow> Inl (E2e_Credential ''Telegram E2E user ID is invalid'')
               | Some i \<Rightarrow> Inr \<lparr>es_api = a, es_hash = h, es_session = s, es_user = i\<rparr>))))"

definition e2e_target :: pystr where "e2e_target = u ''LenkoBot/telegram-e2e/v1/default''"

definition e2e_payload :: "e2e_state \<Rightarrow> (pystr \<times> pyval) list" where
  "e2e_payload s = [(u ''api_hash'', PStr (es_hash s)), (u ''api_id'', PInt (es_api s)), (u ''session'', PStr (es_session s)),
     (u ''user_id'', PInt (es_user s))]"

definition revalidated :: "e2e_state \<Rightarrow> check_error + e2e_state" where
  "revalidated s = make_e2e_state (PInt (es_api s)) (PStr (es_hash s)) (PStr (es_session s)) (PInt (es_user s))"

definition e2e_save :: "(pyval \<Rightarrow> pystr) \<Rightarrow> 'w credential_api \<Rightarrow> e2e_state \<Rightarrow> ('w, unit) check" where
  "e2e_save dump api s =
     then_op (pure_op (revalidated s)) (\<lambda>_. let blob = dump (PDict (e2e_payload s)) in
     then_op (insist (length blob \<le> max_blob) (E2e_Credential ''Telegram E2E credential is too large to store'')) (\<lambda>_.
       try_op (ca_write api e2e_target blob)
         (\<lambda>_. pure_op (Inl (E2e_Credential ''Windows Credential Manager could not write Telegram E2E state''))) (\<lambda>_. pure_op (Inr ()))))"

definition read_e2e :: "(nat list \<Rightarrow> pystr option) \<Rightarrow> (pystr \<Rightarrow> pyval option) \<Rightarrow> nat list \<Rightarrow> check_error + e2e_state" where
  "read_e2e utf8 loads blob = (case utf8 blob of
       None \<Rightarrow> Inl (E2e_Credential ''Stored Telegram E2E credential is invalid'')
     | Some t \<Rightarrow> (case loads t of
         Some (PDict d) \<Rightarrow>
           if fst ` set d \<noteq> {u ''api_hash'', u ''api_id'', u ''session'', u ''user_id''}
           then Inl (E2e_Credential ''Stored Telegram E2E credential is invalid'')
           else (case make_e2e_state (dict_get d (u ''api_id'') PNone) (dict_get d (u ''api_hash'') PNone)
                    (dict_get d (u ''session'') PNone) (dict_get d (u ''user_id'') PNone) of
               Inl _ \<Rightarrow> Inl (E2e_Credential ''Stored Telegram E2E credential is invalid'') | Inr s \<Rightarrow> Inr s)
       | _ \<Rightarrow> Inl (E2e_Credential ''Stored Telegram E2E credential is invalid'')))"

definition e2e_load :: "(nat list \<Rightarrow> pystr option) \<Rightarrow> (pystr \<Rightarrow> pyval option) \<Rightarrow> 'w credential_api \<Rightarrow> ('w, e2e_state option) check" where
  "e2e_load utf8 loads api = try_op (ca_read api e2e_target)
     (\<lambda>_. pure_op (Inl (E2e_Credential ''Windows Credential Manager could not read Telegram E2E state'')))
     (\<lambda>b. pure_op (case b of
        None \<Rightarrow> Inr None
      | Some blob \<Rightarrow> if max_blob < length blob then Inl (E2e_Credential ''Stored Telegram E2E credential is too large'')
          else (case read_e2e utf8 loads blob of Inl e \<Rightarrow> Inl e | Inr s \<Rightarrow> Inr (Some s))))"

section \<open>The settings of the check\<close>

record e2e_settings =
  ee_user :: int
  ee_bot :: int
  ee_username :: pystr
  ee_personas :: "(pystr \<times> pystr) list"

definition username_char :: "nat \<Rightarrow> bool" where
  "username_char c \<longleftrightarrow> profile_char c \<or> c = 95"

definition bot_username_ok :: "(pystr \<Rightarrow> pystr) \<Rightarrow> pystr \<Rightarrow> bool" where
  "bot_username_ok casefold t \<longleftrightarrow> 5 \<le> length t \<and> length t \<le> 32 \<and> list_all username_char t \<and> ends_with (u ''bot'') (casefold t)"

definition load_e2e_settings :: "(pystr \<Rightarrow> pystr) \<Rightarrow> catalog result \<Rightarrow> (pystr \<times> pyval) list \<Rightarrow> e2e_settings result" where
  "load_e2e_settings casefold parsed data = (case (dict_get data (u ''telegram'') PNone, dict_get data (u ''telegram_e2e'') PNone) of
       (PDict telegram, PDict e2e) \<Rightarrow>
         (case positive_value (dict_get telegram (u ''allowed_user_id'') PNone) of
            None \<Rightarrow> Inl (ValueError ''Telegram E2E allowed_user_id must be a positive integer'')
          | Some user \<Rightarrow> (case positive_value (dict_get e2e (u ''bot_user_id'') PNone) of
              None \<Rightarrow> Inl (ValueError ''Telegram E2E bot_user_id must be a positive integer'')
            | Some bot_id \<Rightarrow>
                guardE (user = bot_id) (ValueError ''Telegram E2E user and bot IDs must differ'')
                (case string_value (dict_get e2e (u ''bot_username'') PNone) of
                   None \<Rightarrow> Inl (ValueError ''Telegram E2E bot_username is invalid'')
                 | Some name \<Rightarrow> guardE (\<not> bot_username_ok casefold name) (ValueError ''Telegram E2E bot_username is invalid'')
                     (bindE (configured_catalog parsed) (\<lambda>c. Inr \<lparr>ee_user = user, ee_bot = bot_id, ee_username = name,
                        ee_personas = map (\<lambda>p. (pe_key p, pe_display p)) (cat_personas c)\<rparr>)))))
     | _ \<Rightarrow> Inl (ValueError ''Telegram E2E configuration must contain telegram and telegram_e2e tables''))"

section \<open>The data root\<close>

record 'w paths =
  pa_resolve :: "'w \<Rightarrow> pystr \<Rightarrow> pystr"
  pa_parents :: "pystr \<Rightarrow> pystr list"
  pa_exists :: "'w \<Rightarrow> pystr \<Rightarrow> bool"
  pa_is_dir :: "'w \<Rightarrow> pystr \<Rightarrow> bool"
  pa_mkdir :: "pystr \<Rightarrow> ('w, unit) check"

definition parent_of :: "'w paths \<Rightarrow> pystr \<Rightarrow> pystr" where
  "parent_of pa p = (case pa_parents pa p of [] \<Rightarrow> p | q # _ \<Rightarrow> q)"

text \<open>The check is the same here and in \<open>live_smoke.py\<close>, but for the exception.\<close>

definition validate_data_root :: "(string \<Rightarrow> check_error) \<Rightarrow> 'w paths \<Rightarrow> pystr \<Rightarrow> pystr \<Rightarrow> 'w \<Rightarrow> check_error + pystr" where
  "validate_data_root err pa data_root config w =
     (let r = pa_resolve pa w data_root; home = parent_of pa (pa_resolve pa w config) in
      if r = home \<or> home \<in> set (pa_parents pa r) then Inl (err ''data root must be outside config directory'')
      else if pa_exists pa w r then Inl (err ''data root must not already exist'')
      else if \<not> pa_is_dir pa w (parent_of pa r) then Inl (err ''data root parent must already exist'')
      else Inr r)"

definition make_data_root :: "(string \<Rightarrow> check_error) \<Rightarrow> 'w paths \<Rightarrow> pystr \<Rightarrow> ('w, unit) check" where
  "make_data_root err pa r = then_op (pa_mkdir pa r) (\<lambda>_ w.
     (if pa_resolve pa w r \<noteq> r then Inl (err ''data root changed during creation'') else Inr (), w))"

definition prepare_data_root :: "'w paths \<Rightarrow> pystr \<Rightarrow> pystr \<Rightarrow> ('w, pystr) check" where
  "prepare_data_root pa data_root config =
     then_op (read_op (validate_data_root E2e_Value pa data_root config)) (\<lambda>r.
     then_op (make_data_root E2e_Value pa r) (\<lambda>_. pure_op (Inr r)))"

section \<open>The scenario\<close>

record e2e_message =
  em_id :: int
  em_text :: pystr

record 'w e2e_transport =
  et_exchange :: "pystr \<Rightarrow> ('w, e2e_message) check"
  et_click :: "int \<Rightarrow> pystr \<Rightarrow> ('w, e2e_message) check"
  et_close :: "('w, unit) check"

definition checked_exchange :: "'w e2e_transport \<Rightarrow> pystr \<Rightarrow> int \<Rightarrow> (pystr \<Rightarrow> bool) \<Rightarrow> ('w, e2e_message) check" where
  "checked_exchange tp command newest expected =
     then_op (or_failed ''Telegram E2E command exchange failed'' (et_exchange tp command)) (\<lambda>m.
     then_op (insist (newest < em_id m \<and> expected (em_text m)) (E2e_Failed ''Telegram E2E received an unexpected reply'')) (\<lambda>_.
       pure_op (Inr m)))"

definition checked_click :: "'w e2e_transport \<Rightarrow> e2e_message \<Rightarrow> pystr \<Rightarrow> (pystr \<Rightarrow> bool) \<Rightarrow> ('w, e2e_message) check" where
  "checked_click tp prompt label expected =
     then_op (or_failed ''Telegram E2E button click failed'' (et_click tp (em_id prompt) label)) (\<lambda>m.
     then_op (insist (em_id m = em_id prompt \<and> expected (em_text m)) (E2e_Failed ''Telegram E2E received an unexpected confirmation'')) (\<lambda>_.
       pure_op (Inr m)))"

definition marker_char :: "nat \<Rightarrow> bool" where
  "marker_char c \<longleftrightarrow> profile_char c \<or> c = 45"

text \<open>\<open>fresh\<close> is the hexadecimal text of a new UUID; the prefix differs between the two checks.\<close>

definition probe_text :: "check_error \<Rightarrow> pystr \<Rightarrow> pystr option \<Rightarrow> pystr \<Rightarrow> check_error + pystr" where
  "probe_text err label marker fresh = (let selected = (case marker of Some m \<Rightarrow> m | None \<Rightarrow> fresh) in
     if selected = [] \<or> 64 < length selected \<or> \<not> list_all marker_char selected then Inl err else Inr (label @ selected))"

definition line_break :: "nat \<Rightarrow> bool" where
  "line_break c \<longleftrightarrow> c \<in> {10, 11, 12, 13, 28, 29, 30, 133, 8232, 8233}"

text \<open>\<open>str.splitlines()\<close>.\<close>

fun lines_from :: "pystr \<Rightarrow> pystr \<Rightarrow> pystr list" where
  "lines_from line [] = (if line = [] then [] else [line])"
| "lines_from line [c] = (if line_break c then [line] else [line @ [c]])"
| "lines_from line (c # d # cs) =
     (if c = 13 \<and> d = 10 then line # lines_from [] cs
      else if line_break c then line # lines_from [] (d # cs)
      else lines_from (line @ [c]) (d # cs))"

text \<open>The texts the bot is expected to send, in Russian.\<close>

definition persona_choice_text :: "pystr list \<Rightarrow> pystr" where
  "persona_choice_text names = [1042, 1099, 1073, 1077, 1088, 1080, 32, 1087, 1077, 1088, 1089, 1086, 1085, 1091, 58, 32]
     @ concat (case names of [] \<Rightarrow> [] | n # ns \<Rightarrow> n # map (\<lambda>x. [44, 32] @ x) ns) @ [46]"

definition remembered_text :: "pystr \<Rightarrow> pystr" where
  "remembered_text probe = [1047, 1072, 1087, 1086, 1084, 1085, 1080, 1083, 58, 32] @ probe @ [46]"

definition memory_page_start :: pystr where
  "memory_page_start = [1055, 1072, 1084, 1103, 1090, 1100, 44, 32, 1089, 1090, 1088, 1072, 1085, 1080, 1094, 1072, 32, 49, 32, 1080, 1079, 32]"

definition delete_question :: "pystr \<Rightarrow> pystr" where
  "delete_question number = [1059, 1076, 1072, 1083, 1080, 1090, 1100, 32, 1079, 1072, 1087, 1080, 1089, 1100, 32] @ number @ [58, 32, 171]"

definition delete_label :: pystr where "delete_label = [1059, 1076, 1072, 1083, 1080, 1090, 1100]"

definition deleted_text :: "pystr \<Rightarrow> pystr" where
  "deleted_text number = [1059, 1076, 1072, 1083, 1077, 1085, 1086, 58, 32, 1079, 1072, 1087, 1080, 1089, 1100, 32] @ number @ [46]"

text \<open>
  The two lines of the memory page; \<open>digit\<close> is \<open>\d\<close> and \<open>int_of\<close> reads such digits, as \<open>int\<close> does. The
  first group of the match comes back with the line of its page.
\<close>

definition memory_reply :: "(nat \<Rightarrow> bool) \<Rightarrow> (pystr \<Rightarrow> int) \<Rightarrow> pystr \<Rightarrow> pystr \<Rightarrow> (int \<times> pystr) option" where
  "memory_reply digit int_of probe body = (case lines_from [] body of
       [head, line] \<Rightarrow>
         (let pages = drop (length memory_page_start) head; total = takeWhile digit pages; number = takeWhile digit line in
          if starts_with memory_page_start head \<and> total \<noteq> [] \<and> pages = total @ [58]
             \<and> number \<noteq> [] \<and> line = number @ u ''. [shared] '' @ probe
          then Some (int_of number, head) else None)
     | _ \<Rightarrow> None)"

record e2e_texts =
  ex_index :: pystr
  ex_digit :: "nat \<Rightarrow> bool"
  ex_int :: "pystr \<Rightarrow> int"

type_synonym e2e_step = "pystr \<times> pystr"

definition e2e_scenario :: "e2e_texts \<Rightarrow> e2e_settings \<Rightarrow> 'w e2e_transport \<Rightarrow> pystr \<Rightarrow> ('w, e2e_step list) check" where
  "e2e_scenario ex se tp probe =
     then_op (checked_exchange tp (u ''/start'') 0 (\<lambda>t. ends_with (ex_index ex) t \<and> t \<noteq> ex_index ex)) (\<lambda>start.
     then_op (checked_exchange tp (u ''/help'') (em_id start) (\<lambda>t. t = ex_index ex)) (\<lambda>help.
     then_op (checked_exchange tp (u ''/persona'') (em_id help) (\<lambda>t. t = persona_choice_text (map snd (ee_personas se)))) (\<lambda>persona.
     then_op (checked_exchange tp (u ''/remember '' @ probe) (em_id persona) (\<lambda>t. t = remembered_text probe)) (\<lambda>saved.
     then_op (checked_exchange tp (u ''/memories'') (em_id saved) (contains probe)) (\<lambda>page.
       (case memory_reply (ex_digit ex) (ex_int ex) probe (em_text page) of
          None \<Rightarrow> pure_op (Inl (E2e_Failed ''Telegram E2E memory reply is invalid''))
        | Some (number, head) \<Rightarrow>
            then_op (checked_exchange tp (u ''/forget '' @ show_int number) (em_id page)
                (\<lambda>t. starts_with (delete_question (show_int number)) t \<and> contains probe t)) (\<lambda>question.
            then_op (checked_click tp question delete_label (\<lambda>t. t = deleted_text (show_int number))) (\<lambda>_.
              pure_op (Inr [(u ''/start'', em_text start), (u ''/help'', ex_index ex), (u ''/persona'', em_text persona),
                (u ''/remember'', remembered_text (u ''<probe>'')), (u ''/memories'', head @ [10] @ u ''<id>. [shared] <probe>''),
                (u ''/forget'', deleted_text (u ''<id>''))])))))))))"

definition run_telegram_e2e ::
    "e2e_texts \<Rightarrow> e2e_settings \<Rightarrow> e2e_state \<Rightarrow> bool \<Rightarrow> ('w, 'w e2e_transport) check \<Rightarrow> pystr option \<Rightarrow> pystr \<Rightarrow> ('w, e2e_step list) check" where
  "run_telegram_e2e ex se credentials confirmed factory marker fresh =
     then_op (insist confirmed (E2e_Failed ''Telegram E2E requires explicit send confirmation'')) (\<lambda>_.
     then_op (insist (es_user credentials = ee_user se) (E2e_Failed ''Telegram E2E credential user does not match configured allowlist'')) (\<lambda>_.
     then_op (pure_op (probe_text (E2e_Failed ''Telegram E2E marker is invalid'') (u ''LenkoBot E2E '') marker fresh)) (\<lambda>probe.
     then_op (or_failed ''Telegram E2E transport could not start'' factory) (\<lambda>tp.
       finally_op (e2e_scenario ex se tp probe) (et_close tp)))))"

section \<open>The login of the check\<close>

record 'w prompts =
  pm_input :: "string \<Rightarrow> ('w, pystr) check"
  pm_secret :: "string \<Rightarrow> ('w, pystr) check"
  pm_output :: "pystr \<Rightarrow> ('w, unit) check"

text \<open>\<open>int_of\<close> is \<open>int(..)\<close> of a text, \<open>None\<close> when it raises; \<open>authorize\<close> asks for the code and the password itself.\<close>

definition login_telegram_e2e ::
    "'w prompts \<Rightarrow> (pystr \<Rightarrow> int option) \<Rightarrow> (int \<Rightarrow> pystr \<Rightarrow> pystr \<Rightarrow> ('w, e2e_state) check) \<Rightarrow> (e2e_state \<Rightarrow> ('w, unit) check) \<Rightarrow> int \<Rightarrow> ('w, unit) check" where
  "login_telegram_e2e pm int_of authorize save expected =
     then_op (pm_input pm ''Telegram API ID: '') (\<lambda>t.
     then_op (pure_op (case int_of (strip t) of
         Some n \<Rightarrow> if 0 < n then Inr n else Inl (E2e_Value ''Telegram API ID must be a positive integer'')
       | None \<Rightarrow> Inl (E2e_Value ''Telegram API ID must be a positive integer''))) (\<lambda>api.
     then_op (pm_secret pm ''Telegram API hash: '') (\<lambda>h.
     then_op (insist (length (strip h) = 32 \<and> list_all is_hex (strip h)) (E2e_Value ''Telegram API hash is invalid'')) (\<lambda>_.
     then_op (pm_input pm ''Test account phone: '') (\<lambda>p.
     then_op (insist (\<not> is_blank p) (E2e_Value ''Telegram test account phone cannot be empty'')) (\<lambda>_.
     then_op (authorize api (strip h) (strip p)) (\<lambda>s.
     then_op (insist (es_user s = expected) (E2e_Value ''Telegram login does not match the configured test user'')) (\<lambda>_.
     then_op (save s) (\<lambda>_.
       pm_output pm (u ''Telegram E2E login completed for test user ID '' @ show_int (es_user s) @ [46]))))))))))"

section \<open>Properties\<close>

lemma or_failed_Inr [simp]: "or_failed why f w = (Inr x, w') \<longleftrightarrow> f w = (Inr x, w')"
  by (auto simp: or_failed_def try_op_eq)

lemma insist_eq [simp]: "insist ok e w = (r, w') \<longleftrightarrow> w' = w \<and> r = (if ok then Inr () else Inl e)"
  by (auto simp: insist_def)

lemma revalidated_eq: "revalidated s = Inr t \<Longrightarrow> t = s"
  by (auto simp: revalidated_def make_e2e_state_def split: if_splits option.splits)

text \<open>Credentials that were saved are read back.\<close>

lemma e2e_state_is_read_back:
  assumes "revalidated s = Inr t" and "utf8 (dump (PDict (e2e_payload s))) = Some body" and "loads body = Some (PDict (e2e_payload s))"
  shows "read_e2e utf8 loads (dump (PDict (e2e_payload s))) = Inr s"
proof -
  have k: "fst ` set (e2e_payload s) = {u ''api_hash'', u ''api_id'', u ''session'', u ''user_id''}" by (auto simp: e2e_payload_def)
  have g: "dict_get (e2e_payload s) (u ''api_id'') PNone = PInt (es_api s)" "dict_get (e2e_payload s) (u ''api_hash'') PNone = PStr (es_hash s)"
    "dict_get (e2e_payload s) (u ''session'') PNone = PStr (es_session s)" "dict_get (e2e_payload s) (u ''user_id'') PNone = PInt (es_user s)"
    by (simp_all add: dict_get_def e2e_payload_def u_def)
  have "make_e2e_state (PInt (es_api s)) (PStr (es_hash s)) (PStr (es_session s)) (PInt (es_user s)) = Inr s"
    using assms(1) revalidated_eq [OF assms(1)] by (simp add: revalidated_def)
  with assms(2,3) k g show ?thesis by (simp add: read_e2e_def)
qed

text \<open>
The check sends nothing on its own account. Without the confirmation, with the credentials of another
user than the configured one, or with a marker that is not plain text, it fails before a transport is made.
\<close>
theorem unconfirmed_check_is_idle:
  assumes "\<not> confirmed \<or> es_user credentials \<noteq> ee_user se \<or> probe_text err (u ''LenkoBot E2E '') marker fresh = Inl err"
  shows "snd (run_telegram_e2e ex se credentials confirmed factory marker fresh w) = w
    \<and> (\<exists>why. fst (run_telegram_e2e ex se credentials confirmed factory marker fresh w) = Inl (E2e_Failed why))"
proof -
  have "probe_text (E2e_Failed ''Telegram E2E marker is invalid'') (u ''LenkoBot E2E '') marker fresh = Inl (E2e_Failed ''Telegram E2E marker is invalid'')"
    if "probe_text err (u ''LenkoBot E2E '') marker fresh = Inl err"
    using that by (auto simp: probe_text_def Let_def split: if_splits)
  with assms show ?thesis
    by (auto simp: run_telegram_e2e_def then_op_def insist_def pure_op_def)
qed

text \<open>A report lists all six commands, and the transport was closed.\<close>

lemma e2e_report_is_complete:
  assumes "run_telegram_e2e ex se credentials confirmed factory marker fresh w = (Inr steps, w')"
  shows "map fst steps = map u [''/start'', ''/help'', ''/persona'', ''/remember'', ''/memories'', ''/forget'']
    \<and> (\<exists>tp w1 w2. factory w = (Inr tp, w1) \<and> et_close tp w2 = (Inr (), w'))"
proof -
  obtain probe tp w1 w2 where f: "factory w = (Inr tp, w1)" "e2e_scenario ex se tp probe w1 = (Inr steps, w2)" "et_close tp w2 = (Inr (), w')"
    using assms by (auto simp: run_telegram_e2e_def then_op_Inr finally_Inr split: if_splits)
  have "map fst steps = map u [''/start'', ''/help'', ''/persona'', ''/remember'', ''/memories'', ''/forget'']"
    using f(2) by (auto simp: e2e_scenario_def then_op_Inr split: option.splits prod.splits)
  with f show ?thesis by blast
qed

text \<open>
The login never stores the session of another account: what is saved is what Telegram authorized for the
API key that was entered, and its user is the configured one.
\<close>
theorem login_stores_the_configured_user:
  assumes "login_telegram_e2e pm int_of authorize save expected w = (Inr (), w')"
  shows "\<exists>api h p s w1 w2 w3. authorize api h p w1 = (Inr s, w2) \<and> save s w2 = (Inr (), w3) \<and> es_user s = expected
    \<and> 0 < api \<and> length h = 32 \<and> list_all is_hex h \<and> p \<noteq> []"
proof -
  obtain api t h p s w1 w2 w3 where *: "0 < api" "length (strip h) = 32" "list_all is_hex (strip h)" "\<not> is_blank p"
    "authorize api (strip h) (strip p) w1 = (Inr s, w2)" "es_user s = expected" "save s w2 = (Inr (), w3)"
    using assms by (auto simp: login_telegram_e2e_def then_op_Inr split: if_splits option.splits)
  then have "strip p \<noteq> []" by simp
  with * show ?thesis by blast
qed

section \<open>Witnesses\<close>

lemma zeros_are_hex [simp]: "list_all is_hex (replicate n 48)"
  by (induction n) (simp_all add: is_hex_def)

theorem unconfirmed_check_is_idle_witness:
  "snd (run_telegram_e2e \<lparr>ex_index = [], ex_digit = is_digit, ex_int = (\<lambda>_. 0)\<rparr> \<lparr>ee_user = 7, ee_bot = 9, ee_username = [], ee_personas = []\<rparr>
     \<lparr>es_api = 1, es_hash = [], es_session = [], es_user = 7\<rparr> False (\<lambda>w. (Inl (Foreign_Error ''made''), w + 1)) None (u ''ab'') (0::nat)) = 0"
  by (rule unconfirmed_check_is_idle [THEN conjunct1]) simp

definition demo_prompts :: "pystr list prompts" where
  "demo_prompts = \<lparr>pm_input = (\<lambda>_. pure_op (Inr (u ''1''))), pm_secret = (\<lambda>_. pure_op (Inr (replicate 32 48))),
     pm_output = (\<lambda>_. pure_op (Inr ()))\<rparr>"

theorem login_stores_the_configured_user_witness:
  "login_telegram_e2e demo_prompts (\<lambda>_. Some 1) (\<lambda>a h p. pure_op (Inr \<lparr>es_api = a, es_hash = h, es_session = p, es_user = 7\<rparr>))
     (\<lambda>s w. (Inr (), w @ [es_session s])) 7 [] = (Inr (), [u ''1''])
   \<and> (\<exists>s :: e2e_state. es_user s = 7)"
proof -
  let ?a = "\<lambda>a h p. pure_op (Inr \<lparr>es_api = a, es_hash = h, es_session = p, es_user = 7\<rparr>)"
  have x: "login_telegram_e2e demo_prompts (\<lambda>_. Some 1) ?a (\<lambda>s w. (Inr (), w @ [es_session s])) 7 [] = (Inr (), [u ''1''])"
    by (simp add: login_telegram_e2e_def then_op_def pure_op_def insist_def demo_prompts_def strip_def is_blank_def u_def is_space_def)
  from login_stores_the_configured_user [OF x] x show ?thesis by blast
qed

end
