(* ===== verification/Telethon.thy ===== *)
theory Telethon
  imports E2E Resources
begin

text \<open>
  The Telethon transport of the end-to-end check, \<open>telethon_e2e.py\<close>: the login of the test user, the checks
  of the identities when the transport opens, the exchange of one command and its reply, and the press of
  a button. The client is a record of calls over a world that holds the queue of arrived events.
\<close>

section \<open>The client\<close>

text \<open>A user or a bot of Telegram, with the attributes the code reads; \<open>None\<close> is a missing one.\<close>

record tg_user =
  tu_id :: pyval
  tu_bot :: "bool option"
  tu_name :: "pystr option"

record tg_event =
  te_id :: pyval
  te_sender :: pyval
  te_chat :: pyval
  te_out :: "bool option"
  te_reply :: pyval
  te_text :: "pystr option"

record tg_message =
  tg_id :: pyval
  tg_text :: "pystr option"

datatype sign_in_error = Password_Needed | Sign_In_Failed check_error

record 'w telethon =
  tl_connect :: "('w, unit) check"
  tl_disconnect :: "('w, unit) check"
  tl_send_code :: "pystr \<Rightarrow> ('w, pystr) check"
  tl_sign_in :: "pystr \<Rightarrow> pystr \<Rightarrow> pystr \<Rightarrow> ('w, sign_in_error, unit) action"
  tl_password :: "pystr \<Rightarrow> ('w, unit) check"
  tl_me :: "('w, tg_user option) check"
  tl_session :: "('w, pyval) check"
  tl_authorized :: "('w, bool) check"
  tl_entity :: "pystr \<Rightarrow> ('w, tg_user) check"
  tl_latest :: "('w, int option) check"
  tl_fetch :: "int \<Rightarrow> ('w, tg_message option) check"
  tl_send :: "pystr \<Rightarrow> ('w, pyval) check"
  tl_listen :: "('w, unit) check"
  tl_unlisten :: "('w, unit) check"
  tl_waiting :: "'w \<Rightarrow> bool"
  tl_next :: "('w, tg_event option) check"
  tl_sleep :: "nat \<Rightarrow> ('w, unit) check"
  tl_click :: "int \<Rightarrow> pystr \<Rightarrow> ('w, unit) check"

text \<open>\<open>tl_latest\<close> is the identifier of the newest message, \<open>tl_next\<close> the next event or none in time; sleeps are in half seconds.\<close>

definition disconnect_safely :: "'w telethon \<Rightarrow> ('w, unit) check" where
  "disconnect_safely tc = try_op (tl_disconnect tc) (\<lambda>_. pure_op (Inr ())) (\<lambda>_. pure_op (Inr ()))"

section \<open>Login and opening\<close>

definition sign_in :: "'w telethon \<Rightarrow> pystr \<Rightarrow> ('w, pystr) check \<Rightarrow> ('w, pystr) check \<Rightarrow> pystr \<Rightarrow> ('w, unit) check" where
  "sign_in tc phone ask_code ask_password code_hash = then_op ask_code (\<lambda>code.
     try_op (tl_sign_in tc phone code code_hash)
       (\<lambda>e. case e of Password_Needed \<Rightarrow> then_op ask_password (tl_password tc) | Sign_In_Failed x \<Rightarrow> pure_op (Inl x)) (\<lambda>_. pure_op (Inr ())))"

text \<open>The client is made by \<open>client\<close>; its failure is reported, and a made client is always disconnected.\<close>

definition authorize_user ::
    "('w, 'w telethon) check \<Rightarrow> ('w, pystr) check \<Rightarrow> ('w, pystr) check \<Rightarrow> int \<Rightarrow> pystr \<Rightarrow> pystr \<Rightarrow> ('w, e2e_state) check" where
  "authorize_user client ask_code ask_password api hash phone =
     then_op (try_op client (\<lambda>_. pure_op (Inl (E2e_Failed ''Telegram E2E login could not initialize''))) (\<lambda>x. pure_op (Inr x))) (\<lambda>tc.
       finally_op (or_failed ''Telegram E2E login failed''
         (then_op (tl_connect tc) (\<lambda>_.
          then_op (tl_send_code tc phone) (\<lambda>code_hash.
          then_op (sign_in tc phone ask_code ask_password code_hash) (\<lambda>_.
          then_op (tl_me tc) (\<lambda>me. case me of
              None \<Rightarrow> pure_op (Inl (E2e_Failed ''Telegram E2E login did not authorize a user''))
            | Some user \<Rightarrow>
                then_op (insist (tu_bot user = Some False) (E2e_Failed ''Telegram E2E login did not authorize a user'')) (\<lambda>_.
                then_op (tl_session tc) (\<lambda>session.
                  pure_op (make_e2e_state (PInt api) (PStr hash) session (tu_id user))))))))))
       (disconnect_safely tc))"

record opened_transport =
  ot_bot :: int
  ot_timeout :: nat
  ot_quiet :: nat

definition user_matches :: "e2e_settings \<Rightarrow> e2e_state \<Rightarrow> tg_user option \<Rightarrow> bool" where
  "user_matches se credentials me = (case me of None \<Rightarrow> False
     | Some user \<Rightarrow> tu_bot user = Some False \<and> tu_id user = PInt (es_user credentials) \<and> tu_id user = PInt (ee_user se))"

definition bot_matches :: "(pystr \<Rightarrow> pystr) \<Rightarrow> e2e_settings \<Rightarrow> tg_user \<Rightarrow> bool" where
  "bot_matches casefold se b \<longleftrightarrow> tu_bot b = Some True \<and> tu_id b = PInt (ee_bot se)
     \<and> (case tu_name b of None \<Rightarrow> False | Some name \<Rightarrow> casefold name = casefold (ee_username se))"

text \<open>Gives the client with the watermark, the identifier of the newest message of the dialog.\<close>

definition open_transport ::
    "(pystr \<Rightarrow> pystr) \<Rightarrow> ('w, 'w telethon) check \<Rightarrow> e2e_settings \<Rightarrow> e2e_state \<Rightarrow> ('w, 'w telethon \<times> int) check" where
  "open_transport casefold client se credentials =
     then_op (try_op client (\<lambda>_. pure_op (Inl (E2e_Failed ''Telegram E2E client could not initialize''))) (\<lambda>x. pure_op (Inr x))) (\<lambda>tc.
       try_op (then_op (tl_connect tc) (\<lambda>_.
               then_op (tl_authorized tc) (\<lambda>ok.
               then_op (insist ok (E2e_Failed ''Telegram E2E session is not authorized'')) (\<lambda>_.
               then_op (tl_me tc) (\<lambda>me.
               then_op (insist (user_matches se credentials me) (E2e_Failed ''Telegram E2E user identity mismatch'')) (\<lambda>_.
               then_op (tl_entity tc (ee_username se)) (\<lambda>b.
               then_op (insist (bot_matches casefold se b) (E2e_Failed ''Telegram E2E bot identity mismatch'')) (\<lambda>_.
               then_op (tl_latest tc) (\<lambda>newest. pure_op (Inr (case newest of None \<Rightarrow> 0 | Some i \<Rightarrow> i)))))))))))
         (\<lambda>e. then_op (disconnect_safely tc) (\<lambda>_. pure_op (Inl (if e2e_kind e then e else E2e_Failed ''Telegram E2E transport could not connect''))))
         (\<lambda>watermark. pure_op (Inr (tc, watermark))))"

section \<open>The exchange\<close>

text \<open>\<open>_message_from_event\<close>: a reply of the bot to the message that was sent, newer than the watermark.\<close>

definition message_from_event :: "opened_transport \<Rightarrow> int \<Rightarrow> int \<Rightarrow> tg_event \<Rightarrow> check_error + e2e_message" where
  "message_from_event ot watermark sent ev = (case (te_id ev, te_text ev) of
       (PInt i, Some t) \<Rightarrow>
         if i \<le> watermark \<or> te_sender ev \<noteq> PInt (ot_bot ot) \<or> te_chat ev \<noteq> PInt (ot_bot ot) \<or> te_out ev \<noteq> Some False
            \<or> te_reply ev \<noteq> PInt sent \<or> t = []
         then Inl (E2e_Failed ''Telegram E2E message identity is invalid'') else Inr \<lparr>em_id = i, em_text = t\<rparr>
     | _ \<Rightarrow> Inl (E2e_Failed ''Telegram E2E message identity is invalid''))"

definition nothing_waits :: "'w telethon \<Rightarrow> string \<Rightarrow> ('w, unit) check" where
  "nothing_waits tc why w = (if tl_waiting tc w then Inl (E2e_Failed why) else Inr (), w)"

text \<open>The body of \<open>exchange\<close>, over the world; the watermark becomes the identifier of the reply.\<close>

definition exchange_body :: "'w telethon \<Rightarrow> opened_transport \<Rightarrow> int \<Rightarrow> pystr \<Rightarrow> ('w, e2e_message) check" where
  "exchange_body tc ot watermark command =
     then_op (tl_latest tc) (\<lambda>newest.
     then_op (insist (case newest of None \<Rightarrow> True | Some i \<Rightarrow> i \<le> watermark) (E2e_Failed ''Telegram E2E dialog changed outside the current exchange'')) (\<lambda>_.
     then_op (nothing_waits tc ''Telegram E2E dialog changed outside the current exchange'') (\<lambda>_.
     then_op (tl_send tc command) (\<lambda>sent.
     then_op (pure_op (case positive_value sent of None \<Rightarrow> Inl (E2e_Failed ''Telegram E2E sent message identity is invalid'') | Some i \<Rightarrow> Inr i)) (\<lambda>i.
     then_op (tl_next tc) (\<lambda>next.
     then_op (pure_op (case next of None \<Rightarrow> Inl (E2e_Failed ''Telegram E2E reply timed out'') | Some ev \<Rightarrow> message_from_event ot watermark i ev)) (\<lambda>m.
     then_op (if ot_quiet ot = 0 then pure_op (Inr ()) else tl_sleep tc (ot_quiet ot)) (\<lambda>_.
     then_op (nothing_waits tc ''Telegram E2E received duplicate or invalid replies'') (\<lambda>_.
       pure_op (Inr m))))))))))"

definition exchange :: "'w telethon \<Rightarrow> opened_transport \<Rightarrow> pystr \<Rightarrow> ('w \<times> int, e2e_message) check" where
  "exchange tc ot command = then_op (on_fst (tl_listen tc)) (\<lambda>_.
     finally_op (or_failed ''Telegram E2E message exchange failed'' (\<lambda>s.
         then_op (on_fst (exchange_body tc ot (snd s) command)) (\<lambda>m s1. (Inr m, (fst s1, em_id m))) s))
       (on_fst (tl_unlisten tc)))"

section \<open>The button\<close>

definition fetched_text :: "tg_message option \<Rightarrow> int \<Rightarrow> pystr option" where
  "fetched_text m i = (case m of None \<Rightarrow> None | Some x \<Rightarrow> if tg_id x = PInt i then tg_text x else None)"

text \<open>The loop over half seconds: \<open>n\<close> of them are left of the timeout.\<close>

fun await_edit :: "'w telethon \<Rightarrow> int \<Rightarrow> pystr \<Rightarrow> nat \<Rightarrow> ('w, e2e_message) check" where
  "await_edit tc i original n = then_op (tl_fetch tc i) (\<lambda>m. case fetched_text m i of
       Some t \<Rightarrow> if t \<noteq> [] \<and> t \<noteq> original then pure_op (Inr \<lparr>em_id = i, em_text = t\<rparr>)
         else (case n of 0 \<Rightarrow> pure_op (Inl (E2e_Failed ''Telegram E2E confirmation edit timed out''))
                 | Suc k \<Rightarrow> then_op (tl_sleep tc 1) (\<lambda>_. await_edit tc i original k))
     | None \<Rightarrow> (case n of 0 \<Rightarrow> pure_op (Inl (E2e_Failed ''Telegram E2E confirmation edit timed out''))
                 | Suc k \<Rightarrow> then_op (tl_sleep tc 1) (\<lambda>_. await_edit tc i original k)))"

declare await_edit.simps [simp del]

definition click_button :: "'w telethon \<Rightarrow> opened_transport \<Rightarrow> int \<Rightarrow> pystr \<Rightarrow> ('w, e2e_message) check" where
  "click_button tc ot i label = or_failed ''Telegram E2E button click failed'' (
     then_op (tl_fetch tc i) (\<lambda>prompt. case fetched_text prompt i of
         None \<Rightarrow> pure_op (Inl (E2e_Failed ''Telegram E2E confirmation prompt is invalid''))
       | Some original \<Rightarrow> then_op (tl_click tc i label) (\<lambda>_. await_edit tc i original (ot_timeout ot))))"

definition close_transport :: "'w telethon \<Rightarrow> ('w, unit) check" where
  "close_transport tc = try_op (tl_disconnect tc) (\<lambda>_. pure_op (Inl (E2e_Failed ''Telegram E2E disconnect failed''))) (\<lambda>_. pure_op (Inr ()))"

definition telethon_transport :: "'w telethon \<Rightarrow> opened_transport \<Rightarrow> ('w \<times> int) e2e_transport" where
  "telethon_transport tc ot = \<lparr>et_exchange = exchange tc ot, et_click = (\<lambda>i label. on_fst (click_button tc ot i label)),
     et_close = on_fst (close_transport tc)\<rparr>"

section \<open>Properties\<close>

lemma message_from_event_Inr:
  "message_from_event ot watermark sent ev = Inr m \<Longrightarrow> te_id ev = PInt (em_id m) \<and> watermark < em_id m \<and> te_sender ev = PInt (ot_bot ot)
    \<and> te_chat ev = PInt (ot_bot ot) \<and> te_out ev = Some False \<and> te_reply ev = PInt sent \<and> te_text ev = Some (em_text m) \<and> em_text m \<noteq> []"
  by (auto simp: message_from_event_def split: pyval.splits option.splits if_splits)

text \<open>
A reply counts only if it is the reply. An exchange gives a message only when the event came from the
bot, in its dialog, as an answer to the very message that was sent, and is newer than everything before;
the watermark moves to it, so the identifiers of a check only grow.
\<close>
theorem exchange_accepts_only_the_reply:
  assumes "exchange tc ot command (w, watermark) = (Inr m, s')"
  shows "snd s' = em_id m \<and> watermark < em_id m \<and> em_text m \<noteq> []
    \<and> (\<exists>ev sent w1 w2 w3 w4. tl_send tc command w1 = (Inr (PInt sent), w2) \<and> tl_next tc w3 = (Inr (Some ev), w4) \<and> 0 < sent
         \<and> te_sender ev = PInt (ot_bot ot) \<and> te_chat ev = PInt (ot_bot ot) \<and> te_out ev = Some False \<and> te_reply ev = PInt sent)"
proof -
  obtain w1 s2 where a: "tl_listen tc w = (Inr (), w1)"
    "then_op (on_fst (exchange_body tc ot watermark command)) (\<lambda>m s1. (Inr m, (fst s1, em_id m))) (w1, watermark) = (Inr m, s2)"
    "on_fst (tl_unlisten tc) s2 = (Inr (), s')"
    using assms by (auto simp: exchange_def then_op_Inr finally_Inr on_fst_def split: prod.splits)
  obtain w2 where b: "exchange_body tc ot watermark command w1 = (Inr m, w2)" "s2 = (w2, em_id m)"
    using a(2) by (auto simp: then_op_Inr on_fst_def split: prod.splits)
  have s': "snd s' = em_id m" using a(3) b(2) by (auto simp: on_fst_def split: prod.splits)
  obtain sent v i ev w3 w4 w5 w6 where c: "tl_send tc command w3 = (Inr v, w4)" "positive_value v = Some i"
    "tl_next tc w5 = (Inr (Some ev), w6)" "message_from_event ot watermark i ev = Inr m"
    using b(1) by (auto simp: exchange_body_def then_op_Inr split: option.splits)
  have "v = PInt i \<and> 0 < i" using c(2) by (cases v) (auto split: if_splits)
  with c s' message_from_event_Inr [OF c(4)] show ?thesis by blast
qed

lemma disconnect_safely_eq: "disconnect_safely tc w = (r, w') \<Longrightarrow> r = Inr () \<and> (\<exists>x. tl_disconnect tc w = (x, w'))"
  by (auto simp: disconnect_safely_def try_op_eq)

text \<open>
The transport talks to the right accounts only. When it opens, the session belongs to a user, not a bot,
who is the one of the credentials and of the configuration, and the dialog is with the configured bot; if
opening fails after the client was made, the client was told to disconnect.
\<close>
theorem transport_checks_identities:
  assumes "open_transport casefold client se credentials w = (r, w')"
  shows "(\<forall>tc newest. r = Inr (tc, newest) \<longrightarrow> es_user credentials = ee_user se
      \<and> (\<exists>me b w1 w2 w3 w4. tl_me tc w1 = (Inr (Some me), w2) \<and> tu_bot me = Some False \<and> tu_id me = PInt (ee_user se)
           \<and> tl_entity tc (ee_username se) w3 = (Inr b, w4) \<and> tu_bot b = Some True \<and> tu_id b = PInt (ee_bot se)))
    \<and> (\<forall>e. r = Inl e \<longrightarrow> e2e_kind e \<and> (\<forall>tc w1. client w = (Inr tc, w1) \<longrightarrow> (\<exists>w2 x. tl_disconnect tc w2 = (x, w'))))"
proof (intro conjI allI impI)
  fix tc newest assume "r = Inr (tc, newest)"
  with assms obtain me b w1 w2 w3 w4 where "user_matches se credentials me" "tl_me tc w1 = (Inr me, w2)"
      "tl_entity tc (ee_username se) w3 = (Inr b, w4)" "bot_matches casefold se b"
    by (auto simp: open_transport_def then_op_Inr try_op_eq split: if_splits)
  then show "es_user credentials = ee_user se"
    "\<exists>me b w1 w2 w3 w4. tl_me tc w1 = (Inr (Some me), w2) \<and> tu_bot me = Some False \<and> tu_id me = PInt (ee_user se)
       \<and> tl_entity tc (ee_username se) w3 = (Inr b, w4) \<and> tu_bot b = Some True \<and> tu_id b = PInt (ee_bot se)"
    by (auto simp: user_matches_def bot_matches_def split: option.splits)
next
  fix e assume e: "r = Inl e"
  show "e2e_kind e"
    using assms e by (auto simp: open_transport_def then_op_Inl try_op_eq dest!: disconnect_safely_eq)
  fix tc w1 assume "client w = (Inr tc, w1)"
  then obtain w2 where d: "disconnect_safely tc w2 = (Inr (), w')"
    using assms e by (auto simp: open_transport_def then_op_Inl [of "try_op client _ _"] try_op_eq [of client] try_op_eq [of "then_op _ _"]
        then_op_Inl [of "disconnect_safely _"] dest: disconnect_safely_eq)
  from disconnect_safely_eq [OF d] show "\<exists>w2 x. tl_disconnect tc w2 = (x, w')" by blast
qed

text \<open>
The button: the wait ends after its timeout at the latest, and what comes back is a new text of the same message.
\<close>

lemma await_edit_step:
  assumes "await_edit tc i original n w = (Inr m, w')"
  shows "(em_id m = i \<and> em_text m \<noteq> [] \<and> em_text m \<noteq> original) \<or> (\<exists>k w1. n = Suc k \<and> await_edit tc i original k w1 = (Inr m, w'))"
proof -
  obtain x w1 where x: "(case fetched_text x i of
       Some t \<Rightarrow> if t \<noteq> [] \<and> t \<noteq> original then pure_op (Inr \<lparr>em_id = i, em_text = t\<rparr>)
         else (case n of 0 \<Rightarrow> pure_op (Inl (E2e_Failed ''Telegram E2E confirmation edit timed out''))
                 | Suc k \<Rightarrow> then_op (tl_sleep tc 1) (\<lambda>_. await_edit tc i original k))
     | None \<Rightarrow> (case n of 0 \<Rightarrow> pure_op (Inl (E2e_Failed ''Telegram E2E confirmation edit timed out''))
                 | Suc k \<Rightarrow> then_op (tl_sleep tc 1) (\<lambda>_. await_edit tc i original k))) w1 = (Inr m, w')"
    using assms by (subst (asm) await_edit.simps) (auto simp only: then_op_Inr)
  have again: "\<exists>k w1. n = Suc k \<and> await_edit tc i original k w1 = (Inr m, w')"
    if "(case n of 0 \<Rightarrow> pure_op (Inl (E2e_Failed ''Telegram E2E confirmation edit timed out''))
                 | Suc k \<Rightarrow> then_op (tl_sleep tc 1) (\<lambda>_. await_edit tc i original k)) w1 = (Inr m, w')"
    using that by (cases n) (auto simp: then_op_Inr)
  show ?thesis
  proof (cases "\<exists>t. fetched_text x i = Some t \<and> t \<noteq> [] \<and> t \<noteq> original")
    case True
    with x show ?thesis by auto
  next
    case False
    then show ?thesis using x again by (cases "fetched_text x i") auto
  qed
qed

lemma await_edit_Inr: "await_edit tc i original n w = (Inr m, w') \<Longrightarrow> em_id m = i \<and> em_text m \<noteq> [] \<and> em_text m \<noteq> original"
proof (induction n arbitrary: w)
  case (Suc n)
  from await_edit_step [OF Suc.prems] Suc.IH show ?case by blast
qed (blast dest: await_edit_step)

text \<open>
The login stores nothing that Telegram did not authorize, and leaves no session behind: a state comes
only from a signed-in user that is not a bot, with a valid key, and the client is disconnected whether the
login worked or not.
\<close>
theorem authorize_always_disconnects:
  assumes "authorize_user client ask_code ask_password api hash phone w = (r, w')" and "client w = (Inr tc, w1)"
  shows "(\<exists>w2 x. tl_disconnect tc w2 = (x, w'))
    \<and> (\<forall>s. r = Inr s \<longrightarrow> 0 < api \<and> es_api s = api \<and> es_hash s = hash
         \<and> (\<exists>me w3 w4. tl_me tc w3 = (Inr (Some me), w4) \<and> tu_bot me = Some False \<and> tu_id me = PInt (es_user s)))
    \<and> (\<forall>e. r = Inl e \<longrightarrow> e2e_kind e)"
proof -
  let ?body = "or_failed ''Telegram E2E login failed''
         (then_op (tl_connect tc) (\<lambda>_.
          then_op (tl_send_code tc phone) (\<lambda>code_hash.
          then_op (sign_in tc phone ask_code ask_password code_hash) (\<lambda>_.
          then_op (tl_me tc) (\<lambda>me. case me of
              None \<Rightarrow> pure_op (Inl (E2e_Failed ''Telegram E2E login did not authorize a user''))
            | Some user \<Rightarrow>
                then_op (insist (tu_bot user = Some False) (E2e_Failed ''Telegram E2E login did not authorize a user'')) (\<lambda>_.
                then_op (tl_session tc) (\<lambda>session.
                  pure_op (make_e2e_state (PInt api) (PStr hash) session (tu_id user)))))))))"
  have "finally_op ?body (disconnect_safely tc) w1 = (r, w')"
    using assms by (simp add: authorize_user_def then_op_def [of "try_op client _ _"] try_op_def [of client] pure_op_def [of "Inr tc"])
  then obtain q w2 l where b: "?body w1 = (q, w2)" "disconnect_safely tc w2 = (l, w')" "r = (case l of Inl e \<Rightarrow> Inl e | Inr _ \<Rightarrow> q)"
    unfolding finally_cases by blast
  from disconnect_safely_eq [OF b(2)] have l: "l = Inr ()" "\<exists>x. tl_disconnect tc w2 = (x, w')" by simp_all
  have r: "r = q" using b(3) l(1) by simp
  have "0 < api \<and> es_api s = api \<and> es_hash s = hash
      \<and> (\<exists>me w3 w4. tl_me tc w3 = (Inr (Some me), w4) \<and> tu_bot me = Some False \<and> tu_id me = PInt (es_user s))" if s: "r = Inr s" for s
  proof -
    obtain who w3 w4 where who: "tl_me tc w3 = (Inr who, w4)" "(case who of
              None \<Rightarrow> pure_op (Inl (E2e_Failed ''Telegram E2E login did not authorize a user''))
            | Some user \<Rightarrow>
                then_op (insist (tu_bot user = Some False) (E2e_Failed ''Telegram E2E login did not authorize a user'')) (\<lambda>_.
                then_op (tl_session tc) (\<lambda>session.
                  pure_op (make_e2e_state (PInt api) (PStr hash) session (tu_id user))))) w4 = (Inr s, w2)"
      using b(1) r s by (auto simp only: or_failed_Inr then_op_Inr)
    then obtain me where me: "who = Some me" by (cases who) simp_all
    with who obtain session where "tl_me tc w3 = (Inr (Some me), w4)" "tu_bot me = Some False"
        "make_e2e_state (PInt api) (PStr hash) session (tu_id me) = Inr s"
      by (auto simp: then_op_Inr split: if_splits)
    moreover from this have "0 < api \<and> es_api s = api \<and> es_hash s = hash \<and> tu_id me = PInt (es_user s)"
      by (cases "tu_id me") (auto simp: make_e2e_state_def split: if_splits option.splits)
    ultimately show ?thesis by blast
  qed
  moreover have "e2e_kind e" if "r = Inl e" for e
    using b(1) r that by (auto simp: or_failed_def try_op_eq)
  ultimately show ?thesis using l(2) by blast
qed

section \<open>Witnesses\<close>

definition demo_event :: "int \<Rightarrow> tg_event" where
  "demo_event sent = \<lparr>te_id = PInt (sent + 1), te_sender = PInt 9, te_chat = PInt 9, te_out = Some False, te_reply = PInt sent, te_text = Some (u ''Hi'')\<rparr>"

text \<open>A client whose world lists its disconnections.\<close>

definition demo_telethon :: "pystr list telethon" where
  "demo_telethon = \<lparr>tl_connect = pure_op (Inr ()), tl_disconnect = (\<lambda>w. (Inr (), w @ [u ''disconnected''])),
     tl_send_code = (\<lambda>_. pure_op (Inr (u ''hash''))), tl_sign_in = (\<lambda>_ _ _. pure_op (Inl Password_Needed)),
     tl_password = (\<lambda>_. pure_op (Inr ())), tl_me = pure_op (Inr (Some \<lparr>tu_id = PInt 7, tu_bot = Some False, tu_name = None\<rparr>)),
     tl_session = pure_op (Inr (PStr (u ''session''))), tl_authorized = pure_op (Inr True),
     tl_entity = (\<lambda>_. pure_op (Inr \<lparr>tu_id = PInt 9, tu_bot = Some True, tu_name = Some (u ''LenkoBot'')\<rparr>)),
     tl_latest = pure_op (Inr (Some 4)), tl_fetch = (\<lambda>_. pure_op (Inr None)), tl_send = (\<lambda>_. pure_op (Inr (PInt 5))),
     tl_listen = pure_op (Inr ()), tl_unlisten = pure_op (Inr ()), tl_waiting = (\<lambda>_. False),
     tl_next = pure_op (Inr (Some (demo_event 5))), tl_sleep = (\<lambda>_. pure_op (Inr ())), tl_click = (\<lambda>_ _. pure_op (Inr ()))\<rparr>"

definition demo_opened :: opened_transport where
  "demo_opened = \<lparr>ot_bot = 9, ot_timeout = 30, ot_quiet = 1\<rparr>"

theorem exchange_accepts_only_the_reply_witness:
  "exchange demo_telethon demo_opened (u ''/help'') ([], 4) = (Inr \<lparr>em_id = 6, em_text = u ''Hi''\<rparr>, ([], 6)) \<and> (4::int) < 6"
proof -
  have x: "exchange demo_telethon demo_opened (u ''/help'') ([], 4) = (Inr \<lparr>em_id = 6, em_text = u ''Hi''\<rparr>, ([], 6))"
    by (simp add: exchange_def exchange_body_def finally_op_def bracket_def or_failed_def try_op_def then_op_def pure_op_def on_fst_def insist_def
        nothing_waits_def message_from_event_def demo_telethon_def demo_opened_def demo_event_def u_def)
  from exchange_accepts_only_the_reply [OF x] x show ?thesis by simp
qed

definition demo_check :: e2e_settings where
  "demo_check = \<lparr>ee_user = 7, ee_bot = 9, ee_username = u ''LenkoBot'', ee_personas = []\<rparr>"

definition demo_credentials :: e2e_state where
  "demo_credentials = \<lparr>es_api = 1, es_hash = replicate 32 48, es_session = u ''session'', es_user = 7\<rparr>"

theorem transport_checks_identities_witness:
  "fst (open_transport id (pure_op (Inr demo_telethon)) (demo_check\<lparr>ee_bot := 8\<rparr>) demo_credentials []) = Inl (E2e_Failed ''Telegram E2E bot identity mismatch'')
   \<and> (\<exists>w2 x. tl_disconnect demo_telethon w2 = (x, [u ''disconnected'']))"
proof -
  have x: "open_transport id (pure_op (Inr demo_telethon)) (demo_check\<lparr>ee_bot := 8\<rparr>) demo_credentials [] =
      (Inl (E2e_Failed ''Telegram E2E bot identity mismatch''), [u ''disconnected''])"
    by (simp add: open_transport_def try_op_def then_op_def pure_op_def insist_def user_matches_def bot_matches_def disconnect_safely_def
        demo_telethon_def demo_check_def demo_credentials_def)
  from transport_checks_identities [OF x, THEN conjunct2, rule_format, OF refl] x show ?thesis by (auto simp: pure_op_def)
qed

theorem authorize_always_disconnects_witness:
  "fst (authorize_user (pure_op (Inr demo_telethon)) (pure_op (Inr [])) (pure_op (Inr [])) 1 (replicate 32 48) [] []) = Inr demo_credentials
   \<and> (\<exists>w2 x. tl_disconnect demo_telethon w2 = (x, [u ''disconnected'']))"
proof -
  have x: "authorize_user (pure_op (Inr demo_telethon)) (pure_op (Inr [])) (pure_op (Inr [])) 1 (replicate 32 48) [] [] =
      (Inr demo_credentials, [u ''disconnected''])"
    by (simp add: authorize_user_def finally_op_def bracket_def or_failed_def try_op_def then_op_def pure_op_def insist_def sign_in_def
        disconnect_safely_def make_e2e_state_def is_blank_def u_def is_space_def demo_telethon_def demo_credentials_def)
  have "pure_op (Inr demo_telethon) [] = (Inr demo_telethon, [])" by (simp add: pure_op_def)
  from authorize_always_disconnects [OF x this] x show ?thesis by auto
qed

end
