(* ===== verification/Live_Smoke.thy ===== *)
theory Live_Smoke
  imports E2E Telegram_Adapter
begin

text \<open>
  The live check of \<open>live_smoke.py\<close>: the bot's own service, over a new database, answers the owner through a
  port that checks every response before it is delivered. The service, its stores and the delivery are
  arguments; an error of the check is \<open>E2e_Value\<close>, as \<open>LiveSmokeError\<close> is a \<open>ValueError\<close>.
\<close>

section \<open>The validating port\<close>

definition validating_send :: "(response \<Rightarrow> ('w, unit) check) \<Rightarrow> int \<Rightarrow> (pystr \<Rightarrow> bool) \<Rightarrow> response \<Rightarrow> ('w \<times> response option, unit) check" where
  "validating_send send target expected r s =
     (if snd s \<noteq> None then (Inl (E2e_Value ''live smoke command produced multiple responses''), s)
      else if ts_chat r \<noteq> target \<or> ts_kind r \<noteq> K_Final \<or> \<not> expected (ts_text r)
        then (Inl (E2e_Value ''live smoke command produced an unexpected response''), s)
      else on_fst (send r) (fst s, Some r))"

type_synonym 'w smoke_port = "response \<Rightarrow> ('w \<times> response option, unit) check"

definition require_response :: "('w \<times> response option, unit) check \<Rightarrow> ('w, response) check" where
  "require_response f w = (case f (w, None) of
       (Inl e, s) \<Rightarrow> (Inl e, fst s)
     | (Inr _, s) \<Rightarrow> (case snd s of None \<Rightarrow> Inl (E2e_Value ''live smoke command produced no response'') | Some r \<Rightarrow> Inr r, fst s))"

text \<open>What the scenario uses of the application: the service, and the memory records of the owner.\<close>

record 'w smoke_service =
  sw_handle :: "incoming_message \<Rightarrow> 'w smoke_port \<Rightarrow> ('w \<times> response option, unit) check"
  sw_callback :: "incoming_message \<Rightarrow> pystr \<Rightarrow> 'w smoke_port \<Rightarrow> ('w \<times> response option, unit) check"
  sw_records :: "'w \<Rightarrow> (int \<times> pystr) list"
  sw_present :: "'w \<Rightarrow> int \<Rightarrow> bool"

definition owner_message :: "int \<Rightarrow> pystr \<Rightarrow> incoming_message" where
  "owner_message owner body = incoming owner (owner, u ''private'') body"

definition smoke_command ::
    "'w smoke_service \<Rightarrow> (response \<Rightarrow> ('w, unit) check) \<Rightarrow> int \<Rightarrow> pystr \<Rightarrow> (pystr \<Rightarrow> bool) \<Rightarrow> ('w, response) check" where
  "smoke_command sw send owner command expected =
     require_response (sw_handle sw (owner_message owner command) (validating_send send owner expected))"

definition smoke_callback ::
    "'w smoke_service \<Rightarrow> (response \<Rightarrow> ('w, unit) check) \<Rightarrow> int \<Rightarrow> pystr \<Rightarrow> (pystr \<Rightarrow> bool) \<Rightarrow> ('w, response) check" where
  "smoke_callback sw send owner payload expected =
     require_response (sw_callback sw (owner_message owner []) payload (validating_send send owner expected))"

section \<open>The scenario\<close>

definition check_of :: "'a result \<Rightarrow> check_error + 'a" where
  "check_of r = (case r of Inl (ValueError why) \<Rightarrow> Inl (E2e_Value why) | Inl _ \<Rightarrow> Inl (Foreign_Error ''Exception'') | Inr x \<Rightarrow> Inr x)"

text \<open>The token of the first button that confirms.\<close>

fun confirm_token :: "button list \<Rightarrow> check_error + pystr" where
  "confirm_token [] = Inl (E2e_Value ''live smoke confirmation prompt has no confirm button'')"
| "confirm_token (b # bs) = (case parse_confirmation_callback_data (bu_data b) of
     Inl e \<Rightarrow> check_of (Inl e)
   | Inr (Some (action, token)) \<Rightarrow> if action = u ''confirm'' then Inr token else confirm_token bs
   | Inr None \<Rightarrow> confirm_token bs)"

definition help_shown :: "pystr \<Rightarrow> bool" where
  "help_shown t \<longleftrightarrow> contains (u ''/remember <text>'') t \<and> contains (u ''/memories [page]'') t \<and> contains (u ''/forget [id]'') t"

definition smoke_commands :: "pystr list" where
  "smoke_commands = map u [''/start'', ''/help'', ''/persona'', ''/remember'', ''/memories'', ''/forget'']"

definition smoke_scenario ::
    "'w smoke_service \<Rightarrow> (response \<Rightarrow> ('w, unit) check) \<Rightarrow> int \<Rightarrow> pystr list \<Rightarrow> pystr \<Rightarrow> ('w, pystr list) check" where
  "smoke_scenario sw send owner names probe =
     then_op (smoke_command sw send owner (u ''/start'') help_shown) (\<lambda>_.
     then_op (smoke_command sw send owner (u ''/help'') help_shown) (\<lambda>_.
     then_op (smoke_command sw send owner (u ''/persona'') (\<lambda>t. t = persona_choice_text names)) (\<lambda>_.
     then_op (smoke_command sw send owner (u ''/remember '' @ probe) (\<lambda>t. t = remembered_text probe)) (\<lambda>_.
     then_op (read_op (\<lambda>w. case filter (\<lambda>r. snd r = probe) (sw_records sw w) of
         [r] \<Rightarrow> Inr (fst r) | _ \<Rightarrow> Inl (E2e_Value ''live smoke memory probe was not persisted once''))) (\<lambda>i.
     then_op (smoke_command sw send owner (u ''/memories'') (contains (show_int i @ u ''. [shared] '' @ probe))) (\<lambda>_.
     then_op (smoke_command sw send owner (u ''/forget '' @ show_int i) (\<lambda>t. t = delete_question (show_int i) @ probe @ [187, 63])) (\<lambda>prompt.
     then_op (pure_op (confirm_token (concat (ts_buttons prompt)))) (\<lambda>token.
     then_op (pure_op (check_of (confirmation_callback_data (u ''confirm'') token))) (\<lambda>payload.
     then_op (smoke_callback sw send owner payload (\<lambda>t. t = deleted_text (show_int i))) (\<lambda>_.
     then_op (read_op (\<lambda>w. if sw_present sw w i then Inl (E2e_Value ''live smoke memory probe was not deleted'') else Inr ())) (\<lambda>_.
       pure_op (Inr smoke_commands))))))))))))"

section \<open>The run\<close>

record ('w, 'h) smoke_stores =
  so_conversations :: "('w, 'h) check"
  so_memory :: "('w, 'h) check"
  so_confirmations :: "('w, 'h) check"
  so_close :: "'h \<Rightarrow> ('w, unit) check"

definition or_close :: "(check_error \<Rightarrow> ('w, unit) check) \<Rightarrow> ('w, 'h) check \<Rightarrow> ('w, 'h) check" where
  "or_close undo f = try_op f (\<lambda>e. then_op (undo e) (\<lambda>_. pure_op (Inl e))) (\<lambda>x. pure_op (Inr x))"

text \<open>Gives the handles in the order they are closed at the end: memory, conversations, confirmations.\<close>

definition open_scenario :: "('w, 'h) smoke_stores \<Rightarrow> 'w paths \<Rightarrow> pystr \<Rightarrow> ('w, 'h list) check" where
  "open_scenario so pa place =
     then_op (make_data_root E2e_Value pa place) (\<lambda>_.
     then_op (so_conversations so) (\<lambda>c.
     then_op (or_close (\<lambda>_. so_close so c) (so_memory so)) (\<lambda>m.
     then_op (or_close (\<lambda>_. then_op (so_close so c) (\<lambda>_. so_close so m)) (so_confirmations so)) (\<lambda>k.
       pure_op (Inr [m, c, k])))))"

definition run_live_smoke ::
    "('w, 'h) smoke_stores \<Rightarrow> 'w paths \<Rightarrow> ('h list \<Rightarrow> 'w smoke_service) \<Rightarrow> (((response \<Rightarrow> ('w, unit) check) \<Rightarrow> ('w, pystr list) check) \<Rightarrow> ('w, pystr list) check)
      \<Rightarrow> int \<Rightarrow> pystr list \<Rightarrow> pystr \<Rightarrow> pystr \<Rightarrow> pystr \<Rightarrow> bool \<Rightarrow> pystr option \<Rightarrow> pystr \<Rightarrow> ('w, pystr list) check" where
  "run_live_smoke so pa service delivery owner names token data_root config confirmed marker fresh =
     then_op (insist confirmed (E2e_Value ''live smoke requires explicit send confirmation'')) (\<lambda>_.
     then_op (insist (\<not> is_blank token) (E2e_Value ''Telegram bot token cannot be empty'')) (\<lambda>_.
     then_op (read_op (validate_data_root E2e_Value pa data_root config)) (\<lambda>place.
     then_op (pure_op (probe_text (E2e_Value ''live smoke marker is invalid'') (u ''LenkoBot smoke '') marker fresh)) (\<lambda>probe.
     then_op (open_scenario so pa place) (\<lambda>hs.
       finally_op (delivery (\<lambda>send. smoke_scenario (service hs) send owner names probe)) (close_each (so_close so) hs))))))"

section \<open>Properties\<close>

text \<open>What a port may do to the response of a command: leave it, or set the first one that passed the check.\<close>

definition checked_once :: "int \<Rightarrow> (pystr \<Rightarrow> bool) \<Rightarrow> 'w \<times> response option \<Rightarrow> 'w \<times> response option \<Rightarrow> bool" where
  "checked_once target expected s s' \<longleftrightarrow> snd s' = snd s
     \<or> (snd s = None \<and> (\<exists>r. snd s' = Some r \<and> ts_chat r = target \<and> ts_kind r = K_Final \<and> expected (ts_text r)))"

lemma preorder_checked: "preorder (checked_once target expected)"
  unfolding preorder_def by (auto intro!: reflpI transpI simp: checked_once_def)

lemma validating_send_checks: "keeps (checked_once target expected) (validating_send send target expected r)"
  by (auto simp: keeps_def validating_send_def checked_once_def on_fst_def split: prod.split)

text \<open>
The live check delivers one response per command, and the right one. Whatever the service does, as long
as it answers through its port: when a command of the scenario succeeds, its response is a final answer to
the owner with the expected text, and a second response or any other would have failed the command.
\<close>
theorem smoke_command_is_checked:
  assumes "\<And>port. (\<And>r. keeps (checked_once owner expected) (port r)) \<Longrightarrow>
      keeps (checked_once owner expected) (sw_handle sw (owner_message owner command) port)"
    and "smoke_command sw send owner command expected w = (Inr r, w')"
  shows "ts_chat r = owner \<and> ts_kind r = K_Final \<and> expected (ts_text r)"
proof -
  let ?f = "sw_handle sw (owner_message owner command) (validating_send send owner expected)"
  have "keeps (checked_once owner expected) ?f" by (rule assms(1)) (rule validating_send_checks)
  moreover obtain x s where x: "?f (w, None) = (x, s)" by (rule prod.exhaust)
  ultimately have "checked_once owner expected (w, None) s" by (rule keepsD)
  moreover have "snd s = Some r"
    using assms(2) x by (auto simp: smoke_command_def require_response_def split: sum.splits option.splits)
  ultimately show ?thesis by (auto simp: checked_once_def)
qed

text \<open>
The live check works on a database of its own and only when told to. If it succeeds, it was confirmed,
its data root lay outside the directory of the configuration and did not exist before.
\<close>
theorem smoke_needs_a_fresh_root:
  assumes "run_live_smoke so pa service delivery owner names token data_root config confirmed marker fresh w = (Inr commands, w')"
  shows "confirmed \<and> \<not> pa_exists pa w (pa_resolve pa w data_root)
    \<and> parent_of pa (pa_resolve pa w config) \<notin> set (pa_parents pa (pa_resolve pa w data_root))
    \<and> pa_resolve pa w data_root \<noteq> parent_of pa (pa_resolve pa w config)"
  using assms by (auto simp: run_live_smoke_def then_op_Inr validate_data_root_def Let_def split: if_splits)

section \<open>Witnesses\<close>

text \<open>A service that echoes, over an empty world.\<close>

definition echo_service :: "unit smoke_service" where
  "echo_service = \<lparr>sw_handle = (\<lambda>m port. port (plain (in_chat m) K_Final (in_text m))), sw_callback = (\<lambda>m t port. port (plain (in_chat m) K_Final t)),
     sw_records = (\<lambda>_. []), sw_present = (\<lambda>_ _. False)\<rparr>"

theorem smoke_command_is_checked_witness:
  "smoke_command echo_service (\<lambda>_. pure_op (Inr ())) 7 (u ''/help'') (\<lambda>t. t = u ''/help'') () = (Inr (plain 7 K_Final (u ''/help'')), ())
   \<and> ts_kind (plain 7 K_Final (u ''/help'')) = K_Final"
proof -
  have x: "smoke_command echo_service (\<lambda>_. pure_op (Inr ())) 7 (u ''/help'') (\<lambda>t. t = u ''/help'') () = (Inr (plain 7 K_Final (u ''/help'')), ())"
    by (simp add: smoke_command_def require_response_def echo_service_def validating_send_def owner_message_def incoming_def on_fst_def pure_op_def plain_def)
  have "keeps (checked_once 7 e) (sw_handle echo_service (owner_message 7 c) port)"
    if "\<And>r. keeps (checked_once 7 e) (port r)" for port :: "unit smoke_port" and e c
    using that by (simp add: echo_service_def)
  from smoke_command_is_checked [OF this x] x show ?thesis by simp
qed

definition demo_paths :: "unit paths" where
  "demo_paths = \<lparr>pa_resolve = (\<lambda>_ p. p), pa_parents = (\<lambda>p. if p = u ''/a/b'' then [u ''/a''] else if p = u ''/c/d'' then [u ''/c''] else []),
     pa_exists = (\<lambda>_ _. False), pa_is_dir = (\<lambda>_ _. True), pa_mkdir = (\<lambda>_. pure_op (Inr ()))\<rparr>"

definition demo_stores :: "(unit, unit) smoke_stores" where
  "demo_stores = \<lparr>so_conversations = pure_op (Inr ()), so_memory = pure_op (Inr ()), so_confirmations = pure_op (Inr ()), so_close = (\<lambda>_. pure_op (Inr ()))\<rparr>"

theorem smoke_needs_a_fresh_root_witness:
  "fst (run_live_smoke demo_stores demo_paths (\<lambda>_. echo_service) (\<lambda>_. pure_op (Inr [])) 7 [] (u ''t'') (u ''/a/b'') (u ''/c/d'') True (Some (u ''m'')) [] ()) = Inr []
   \<and> parent_of demo_paths (u ''/c/d'') \<notin> set (pa_parents demo_paths (u ''/a/b''))"
proof -
  have x: "run_live_smoke demo_stores demo_paths (\<lambda>_. echo_service) (\<lambda>_. pure_op (Inr [])) 7 [] (u ''t'') (u ''/a/b'') (u ''/c/d'') True (Some (u ''m'')) [] ()
      = (Inr [], ())"
    by (simp add: run_live_smoke_def then_op_def pure_op_def insist_def read_op_def validate_data_root_def parent_of_def demo_paths_def Let_def probe_text_def
        marker_char_def profile_char_def open_scenario_def make_data_root_def or_close_def try_op_def demo_stores_def finally_op_def bracket_def
        is_blank_def is_space_def u_def)
  from smoke_needs_a_fresh_root [OF x] x show ?thesis by (simp add: demo_paths_def)
qed

end
