(* ===== verification/Encrypted_Export.thy ===== *)
theory Encrypted_Export
  imports Py_Text Resources
begin

text \<open>
  The encrypted export of \<open>encrypted_export.py\<close>: the check of the recipient, the snapshot of the database,
  the manifest and the archive in a temporary directory, the encryption by the \<open>age\<close> command and the
  replacement of the destination. SQLite, \<open>tar\<close>, \<open>age\<close> and the file system are a record of calls.
\<close>

datatype export_error = Export_Failed string | Export_Value string | Os_Error | Sqlite_Error | Process_Error | Other_Export string

type_synonym ('w, 'a) export = "('w, export_error, 'a) action"



definition need :: "bool \<Rightarrow> export_error \<Rightarrow> ('w, unit) export" where
  "need ok e = pure_op (if ok then Inr () else Inl e)"









section \<open>All or nothing\<close>

lemma need_eq [simp]: "need ok e w = (r, w') \<longleftrightarrow> w' = w \<and> r = (if ok then Inr () else Inl e)"
  by (auto simp: need_def)

lemma keeps_need: "preorder R \<Longrightarrow> keeps R (need ok e)"
  unfolding need_def by (rule keeps_pure)

















section \<open>A witness\<close>



end
