(* ===== verification/Spec2Isabelle.thy ===== *)
theory Spec2Isabelle
  imports Conversations Session_Store Confirmed_Actions Extraction_Properties Command_Properties Web_Search Reader_Audit OAuth_Example
    Runtime Telethon Live_Smoke Encrypted_Export
begin

text \<open>
  A verification library of LenkoBot (\<open>src/src/lenkobot\<close>), a Telegram bot for one owner: it talks in
  personas through a language model, keeps memories and sessions in one SQLite database, and delivers
  reminders.

  \<^bold>\<open>The program.\<close> \<open>runtime.py\<close> reads the settings, builds the model providers and opens eight connections to
  one database file, those of its seven stores and that of the session finalizer. \<open>aiogram_adapter.py\<close> turns updates of Telegram into messages and callbacks for
  \<open>application_service.py\<close>, which authorises them through \<open>telegram_router.py\<close>, stores the turn, builds the
  prompt (\<open>context_builder.py\<close>), asks the model (\<open>xai_provider.py\<close> or \<open>codex_provider.py\<close>, with the tool loop
  of \<open>web_search.py\<close>), stores and delivers the answer, and afterwards extracts memories
  (\<open>memory_extraction.py\<close>). Destructive or scheduling actions are confirmed by one-time buttons
  (\<open>action_confirmation.py\<close>). Next to the polling a loop materialises due reminders and delivers them
  (\<open>reminder_worker.py\<close>, \<open>reminder_store.py\<close>). A reset (\<open>reset_coordinator.py\<close>) moves the owner to the next
  epoch, and what began in an older epoch is refused from then on.

  \<^bold>\<open>How the code is modelled.\<close> A Python exception is the left of a sum, \<open>py_error + 'a\<close> in the stores and an
  error datatype of the component elsewhere (\<open>Prelude\<close>). The database is one record with a list of rows per
  table in rowid order; a transaction is a function on it that gives back the old state with an error.
  An operation of several transactions takes what other connections do in between as a function on the
  database. What talks to the outside is a function on a world, a type variable, composed by \<open>then_op\<close>,
  \<open>try_op\<close> and the blocks of \<open>Resources\<close>. Strings are lists of code points and JSON values are a datatype
  (\<open>Py_Text\<close>). Integers are unbounded, as in Python. Times are microseconds.

  \<^bold>\<open>Theories.\<close>
  \<^item> Foundations. \<open>Prelude\<close>: results, transactions, tables. \<open>Py_Text\<close>: strings and JSON values. \<open>Resources\<close>:
    \<open>with\<close>, \<open>finally\<close>, \<open>ExitStack\<close>, and the interface \<open>tracked\<close> of what opens and closes. \<open>Calendar\<close> and
    \<open>Zone\<close>: dates, wall times and time zones with the interface \<open>civil_clock\<close>. \<open>Database\<close>: the tables of
    \<open>sqlite_schema.py\<close>, cascading deletes and the migration loop.
  \<^item> Reminders. \<open>Reminder_Schedule\<close> (\<open>reminder_schedule.py\<close>), \<open>Reminder_Store\<close> (\<open>reminder_store.py\<close>),
    \<open>Reminder_Invariant\<close> and \<open>Reminder_System\<close>: the invariant of the tables and the store as a state machine,
    \<open>Reminder_Properties\<close> with the history of \<open>Reminder_Example\<close>, \<open>Reminder_Worker\<close> (\<open>reminder_worker.py\<close>)
    against the contract \<open>delivery_store\<close>, \<open>Reminder_Parser\<close> (\<open>reminder_parser.py\<close>).
  \<^item> Conversation. \<open>Personas\<close> (\<open>personas.py\<close>), \<open>Conversations\<close> (\<open>persona_store.py\<close>, \<open>telegram_router.py\<close>),
    \<open>Session_Store\<close> (\<open>session_store.py\<close>, \<open>session_summary.py\<close>, \<open>session_deletion.py\<close>), \<open>Context_Builder\<close>
    (\<open>context_builder.py\<close>).
  \<^item> Memory. \<open>Memory_Store\<close> with \<open>Memory_Properties\<close>, and \<open>Extraction_Runs\<close> (both \<open>memory.py\<close>);
    \<open>Memory_Extraction\<close> with \<open>Extraction_Properties\<close> (\<open>memory_extraction.py\<close>).
  \<^item> The service, \<open>application_service.py\<close>: \<open>Chat_Turn\<close> (a turn), \<open>Confirmed_Actions\<close> (drafts and buttons),
    \<open>Commands\<close> (slash commands), with \<open>Turn_Properties\<close>, \<open>Turn_Example\<close>, \<open>Command_Properties\<close>;
    \<open>Action_Confirmation\<close>; \<open>Presentation\<close> (\<open>telegram_presentation.py\<close>); \<open>Reset_Coordinator\<close>
    (\<open>reset_coordinator.py\<close>, \<open>security_audit.py\<close>) with the interface \<open>fenced_operation\<close>.
  \<^item> The model. \<open>Provider\<close> and \<open>OAuth\<close> (\<open>xai_provider.py\<close>, the device login of \<open>oauth_credentials.py\<close>),
    \<open>OAuth_Stores\<close>, \<open>OAuth_Locks\<close> with the interface \<open>session_lock\<close> (\<open>oauth_credentials.py\<close>,
    \<open>linux_oauth_credentials.py\<close>), \<open>OAuth_Example\<close>; \<open>Codex\<close> (\<open>codex_provider.py\<close>); \<open>Web_Search\<close>
    (\<open>web_search.py\<close>).
  \<^item> The URL reader. \<open>Url_Reader\<close> (\<open>read_only_network.py\<close>) and \<open>Reader_Audit\<close>, its audit through the interface
    \<open>audit_sink\<close>.
  \<^item> The process. \<open>Settings\<close> (\<open>PersonaCatalog.from_toml\<close>, \<open>load_runtime_settings\<close>), \<open>Runtime\<close>
    (\<open>runtime.py\<close>), \<open>Telegram_Adapter\<close> (\<open>aiogram_adapter.py\<close>) with the interface \<open>chat_port\<close> of its four
    ports, \<open>Encrypted_Export\<close> (\<open>encrypted_export.py\<close>).
  \<^item> The checks against a live bot. \<open>E2E\<close> (\<open>telegram_e2e.py\<close>, \<open>telegram_e2e_credentials.py\<close>), \<open>Telethon\<close>
    (\<open>telethon_e2e.py\<close>), \<open>Live_Smoke\<close> (\<open>live_smoke.py\<close>).

  \<^bold>\<open>What is shown.\<close>
  \<^item> Reminders: in every reachable state a job has one run for an instant and each run one outbox entry; counts
    are not exceeded; a closed delivery stays closed; leases are sound and exclusive; over any number of
    rounds, with other work in between, no reminder is acknowledged twice. A round of materialisation inserts
    the occurrences that are due and moves the cursors of their jobs, and no others. Wall times resolve exactly, the
    searches for the next occurrence return the first one, a parsed reminder is well formed and the store takes it.
  \<^item> Conversation and memory: the invariants of sessions, turns and revisions; the five-state machine that the
    extraction runs refine; the separation of owners in the prompt, where only the persona is an instruction.
  \<^item> The service: strangers have no effect; commands take nothing away; an answered turn is stored; a finished
    turn is answered or its error told by deliveries Telegram acknowledged; a button takes effect once; a reset removes
    exactly the rows of \<open>without_owner\<close>, which are not all of the owner's and not only his, and fences what is older.
  \<^item> The model: bearer tokens go to allowed hosts, the paid key is the last resort, device polling is polite and
    ends, handed-out tokens are fresh, credential files change atomically and are read back, locks do not leak,
    OAuth errors keep of an answer its status and error code, but for the body of an answer that is no JSON; the tool loop is bounded; the authority of Codex is pinned.
  \<^item> The network: every hop of the URL reader is checked and goes to a public address, every read is audited.
  \<^item> The process: the seven registered stores are closed once in the reverse order, the connection of the
    session finalizer never; a port calls its own chat only; no typing task survives a delivered final answer; an
    export replaces its destination with the output of a successful \<open>age\<close> for a valid recipient or not at all.

  \<^bold>\<open>Bounds and fuel.\<close>
  \<^item> \<open>weekly_search\<close> looks at 3660 days and \<open>monthly_search\<close> at as many months as the code; that the weekly
    bound cuts no valid rule off is part of \<open>weekly_next_is_first\<close>.
  \<^item> \<open>poll_for_token\<close> counts the turns of a \<open>while True\<close> and is \<open>None\<close> when they run out; with a clock that
    goes on, \<open>device_polling_ends\<close> gives the number that is enough. \<open>login\<close> takes that number.
  \<^item> \<open>lock_attempts\<close>: any two numbers of attempts that cover the timeout give the same
    (\<open>linux_lock_waits_its_timeout\<close>).
  \<^item> \<open>write_all\<close> and \<open>read_all\<close> get the length of the data, one more for reading: each call that works moves on by at least a byte.
  \<^item> \<open>tool_rounds\<close> gets \<open>max_searches + 1\<close>, \<open>follow\<close> the number of redirects, \<open>route_loop\<close> eight attempts,
    \<open>await_edit\<close> the timeout in half seconds: bounds of the code.
  \<^item> \<open>retry_loop\<close> is a \<open>partial_function\<close>; it is proved to return within its attempts. The leases, the
    migrations, the splitting of texts and the parser of format strings are \<open>function\<close>s with a measure.
  \<^item> \<open>delivery_rounds\<close>, \<open>reminder_loop\<close> and \<open>typing_round\<close> are loops without an end: the model is a finite number
    of their turns, and the theorems hold for every number.

  \<^bold>\<open>Parameters.\<close> Code outside \<open>src/\<close> is an argument: Telethon, aiogram, the event loop, the SDK of Codex, HTTP and
  sockets, \<open>json\<close>, \<open>urlsplit\<close>, IDNA, \<open>ipaddress\<close>, the tz database, SHA-256, \<open>casefold\<close> and the character classes of
  \<open>re\<close>, clocks, random tokens, the model itself. A theorem that relies on one of them names what it relies on as
  a hypothesis and is applied once to a concrete instance.

  \<^bold>\<open>Not modelled.\<close> The SQL of the migrations, beyond the tables they leave; the \<open>ctypes\<close> bindings of Windows; the
  parsing of TOML and of the command line; the wording of most answers; dispatching and the constructors that
  only pass references on (\<open>re_hooks\<close> and \<open>re_assemble\<close> stand for those of \<open>open_local_application\<close>, none of which opens
  anything); values \<open>sqlite3\<close> itself refuses to bind, which are integers beyond 64 bits and texts with a lone surrogate; threads: the lock of the
  extraction coordinator is left out because its operations are taken one after the other. A persona file
  whose names are not strings has no model.
\<close>

end
